(* ===== verification/Prelude.thy ===== *)
theory Prelude
  imports Complex_Main "HOL-Library.AList" "HOL-Library.Sublist"
begin

text \<open>
  Shared vocabulary of the development.

  \<^item> A JavaScript \<open>Map\<close> iterates in insertion order and keeps the position of a key that is
    set again. It is modelled by an association list with \<^const>\<open>AList.update\<close> (overwrite in
    place, else append) and \<^const>\<open>AList.delete\<close>; \<^const>\<open>map_of\<close> is \<open>Map.get\<close>.
  \<^item> A handler that may throw returns \<open>(error + 'a) \<times> 'state\<close>: the state is returned on both
    sides, because a TypeScript method keeps what it mutated before the throw.
  \<^item> \<open>new Date()\<close> is an effect. A handler takes a \<open>clock\<close>, the sequence of readings it makes, in
    evaluation order; time is an integer number of milliseconds.
\<close>

section \<open>Collections of facts\<close>

named_theorems jsmap_simps \<open>rewrite rules for insertion-ordered maps\<close>
named_theorems inv_intros \<open>introduction rules for component invariants\<close>

section \<open>Types shared by the components\<close>

type_synonym time = int
type_synonym clock = "nat \<Rightarrow> time"
type_synonym ('k, 'v) jsmap = "('k \<times> 'v) list"
type_synonym ('e, 'a, 's) outcome = "('e + 'a) \<times> 's"

section \<open>Insertion-ordered maps\<close>

definition jm_has :: "('k, 'v) jsmap \<Rightarrow> 'k \<Rightarrow> bool" where
  "jm_has m k = (map_of m k \<noteq> None)"

definition jm_wf :: "('k, 'v) jsmap \<Rightarrow> bool" where
  "jm_wf m = distinct (map fst m)"

lemma jm_has_iff: "jm_has m k \<longleftrightarrow> k \<in> fst ` set m"
  by (simp add: jm_has_def map_of_eq_None_iff)

lemma jm_wf_Nil [simp, inv_intros]: "jm_wf []"
  by (simp add: jm_wf_def)

lemma jm_wf_update [simp, inv_intros]: "jm_wf m \<Longrightarrow> jm_wf (AList.update k v m)"
  by (simp add: jm_wf_def distinct_update)

lemma jm_wf_delete [simp, inv_intros]: "jm_wf m \<Longrightarrow> jm_wf (AList.delete k m)"
  by (simp add: jm_wf_def distinct_delete)

lemma jm_wf_filter [simp, inv_intros]: "jm_wf m \<Longrightarrow> jm_wf (filter P m)"
  by (simp add: jm_wf_def distinct_map_filter)

lemma jm_get_update [simp, jsmap_simps]:
  "map_of (AList.update k v m) k' = (if k' = k then Some v else map_of m k')"
  by (auto simp: update_conv')

lemma jm_get_delete [simp, jsmap_simps]:
  "map_of (AList.delete k m) k' = (if k' = k then None else map_of m k')"
  by (auto simp: delete_conv')

lemma jm_update_absent: "map_of m k = None \<Longrightarrow> AList.update k v m = m @ [(k, v)]"
  by (induction m) (auto split: if_splits)

lemma jm_update_keys: "map fst (AList.update k v m) =
    (if jm_has m k then map fst m else map fst m @ [k])"
  by (simp add: update_keys jm_has_iff)

lemma jm_length_update:
  "length (AList.update k v m) = (if jm_has m k then length m else Suc (length m))"
  by (metis jm_update_keys length_append_singleton length_map)

lemma jm_set_update: "set (AList.update k v m) \<subseteq> insert (k, v) (set m)"
  by (induction m) auto

lemma jm_set_update_wf:
  "jm_wf m \<Longrightarrow> set (AList.update k v m) = insert (k, v) {p \<in> set m. fst p \<noteq> k}"
  by (induction m) (force simp: jm_wf_def)+

lemma jm_get_in: "map_of m k = Some v \<Longrightarrow> (k, v) \<in> set m"
  by (rule map_of_SomeD)

lemma jm_in_get: "jm_wf m \<Longrightarrow> (k, v) \<in> set m \<Longrightarrow> map_of m k = Some v"
  by (simp add: jm_wf_def)

lemma jm_delete_filter: "AList.delete k m = filter (\<lambda>p. fst p \<noteq> k) m"
  by (induction m) (auto simp: AList.delete_eq)

lemma jm_set_delete: "set (AList.delete k m) = {p \<in> set m. fst p \<noteq> k}"
  by (auto simp: jm_delete_filter)

lemma jm_length_delete:
  "jm_wf m \<Longrightarrow> jm_has m k \<Longrightarrow> Suc (length (AList.delete k m)) = length m"
proof (induction m)
  case (Cons p m)
  show ?case
  proof (cases "fst p = k")
    case True
    with Cons.prems have "k \<notin> fst ` set m" by (auto simp: jm_wf_def)
    with True show ?thesis by (cases p) (simp add: delete_idem)
  next
    case False
    with Cons show ?thesis by (cases p) (auto simp: jm_wf_def jm_has_def)
  qed
qed (simp add: jm_has_def)

lemma jm_delete_length_le: "length (AList.delete k m) \<le> length m"
  by (simp add: jm_delete_filter)

lemma jm_delete_shorter: "p \<in> set m \<Longrightarrow> length (AList.delete (fst p) m) < length m"
  by (auto simp: jm_delete_filter intro: length_filter_less)

text \<open>What an update does to the number and the distinctness of the values.\<close>

lemma update_filter_length:
  "length (filter P (map snd (AList.update k v m))) \<le>
   (if P v then 1 else 0) + length (filter P (map snd m))"
  by (induction m) auto

lemma update_values: "set (map snd (AList.update k v m)) \<subseteq> insert v (set (map snd m))"
  by (induction m) auto

lemma update_distinct_values:
  "distinct (map (\<lambda>p. f (snd p)) m) \<Longrightarrow> \<forall>p \<in> set m. f (snd p) \<noteq> f v \<Longrightarrow>
   distinct (map (\<lambda>p. f (snd p)) (AList.update k v m))"
proof (induction m)
  case (Cons p m)
  have "\<forall>x \<in> set (AList.update k v m). snd x = v \<or> x \<in> set m" using jm_set_update [of k v m] by auto
  moreover have "f (snd x) \<noteq> f (snd p)" if "x \<in> set m" for x
    using Cons.prems(1) that by (auto simp: image_iff)
  moreover have "f v \<noteq> f (snd p)" using Cons.prems(2) by auto
  ultimately have n: "\<forall>x \<in> set (AList.update k v m). f (snd x) \<noteq> f (snd p)" by auto
  obtain a b where p: "p = (a, b)" by fastforce
  have ih: "distinct (map (\<lambda>p. f (snd p)) (AList.update k v m))" using Cons by simp
  have "f v \<notin> (\<lambda>x. f (snd x)) ` set m" using Cons.prems(2) by auto
  moreover have "f b \<notin> (\<lambda>x. f (snd x)) ` set (AList.update k v m)" using n by (auto simp: p)
  ultimately show ?case using ih Cons.prems(1) by (simp add: p)
qed simp

lemma distinct_count_list: "distinct xs \<Longrightarrow> count_list xs x = (if x \<in> set xs then 1 else 0)"
  by (induction xs) (auto simp: count_list_0_iff)

text \<open>\<open>Array.prototype.slice(-n)\<close> for a positive \<open>n\<close>: the last \<open>n\<close> elements.\<close>

definition slice_last :: "nat \<Rightarrow> 'a list \<Rightarrow> 'a list" where
  "slice_last n xs = drop (length xs - n) xs"

lemma length_slice_last [simp]: "length (slice_last n xs) = min n (length xs)"
  by (simp add: slice_last_def)

lemma slice_last_id [simp]: "length xs \<le> n \<Longrightarrow> slice_last n xs = xs"
  by (simp add: slice_last_def)

lemma set_slice_last: "set (slice_last n xs) \<subseteq> set xs"
  by (simp add: slice_last_def set_drop_subset)

lemma slice_last_suffix: "suffix (slice_last n xs) xs"
  by (simp add: slice_last_def suffix_drop)

text \<open>What no step of a loop changes, the loop does not change.\<close>

lemma foldl_frame: "(\<And>st x. f (g st x) = f st) \<Longrightarrow> f (foldl g s xs) = f s"
  by (induction xs arbitrary: s) auto

lemma foldl_invariant: "P s \<Longrightarrow> (\<And>st x. P st \<Longrightarrow> x \<in> set xs \<Longrightarrow> P (g st x)) \<Longrightarrow> P (foldl g s xs)"
  by (induction xs arbitrary: s) auto

section \<open>Removing the oldest removable element until a bound holds\<close>

text \<open>
  \<open>remove_first P xs\<close> removes the first element with \<open>P\<close>: \<open>findIndex\<close> and \<open>splice(index, 1)\<close>.
\<close>

fun remove_first :: "('a \<Rightarrow> bool) \<Rightarrow> 'a list \<Rightarrow> 'a list option" where
  "remove_first P [] = None"
| "remove_first P (x # xs) =
     (if P x then Some xs else map_option ((#) x) (remove_first P xs))"

lemma remove_first_None: "remove_first P xs = None \<longleftrightarrow> (\<forall>x \<in> set xs. \<not> P x)"
  by (induction xs) auto

lemma remove_first_length: "remove_first P xs = Some ys \<Longrightarrow> length xs = Suc (length ys)"
  by (induction xs arbitrary: ys) (auto split: if_splits)

lemma remove_first_subseq: "remove_first P xs = Some ys \<Longrightarrow> subseq ys xs"
  by (induction xs arbitrary: ys) (auto split: if_splits)

lemma remove_first_filter:
  "remove_first P xs = Some ys \<Longrightarrow> filter (\<lambda>x. \<not> P x) ys = filter (\<lambda>x. \<not> P x) xs"
  by (induction xs arbitrary: ys) (auto split: if_splits)

lemma remove_first_last:
  "remove_first P xs = Some ys \<Longrightarrow> ys \<noteq> [] \<Longrightarrow> last ys = last xs \<or> \<not> P (last ys)"
proof (induction xs arbitrary: ys)
  case (Cons x xs)
  show ?case
  proof (cases "P x")
    case True
    with Cons.prems show ?thesis by auto
  next
    case False
    with Cons.prems obtain zs where zs: "remove_first P xs = Some zs" "ys = x # zs" by auto
    from zs Cons.IH[of zs] False show ?thesis by (cases xs) auto
  qed
qed simp

lemma remove_first_append:
  "\<exists>x \<in> set xs. P x \<Longrightarrow>
   remove_first P (xs @ ys) = map_option (\<lambda>zs. zs @ ys) (remove_first P xs)"
  by (induction xs) (fastforce simp: option.map_comp comp_def)+

text \<open>The loop \<open>while (over budget) if (!removeOldest()) break\<close>.\<close>

function trim_while :: "('a list \<Rightarrow> bool) \<Rightarrow> ('a \<Rightarrow> bool) \<Rightarrow> 'a list \<Rightarrow> 'a list" where
  "trim_while over P xs =
     (if over xs then (case remove_first P xs of None \<Rightarrow> xs | Some ys \<Rightarrow> trim_while over P ys)
      else xs)"
  by pat_completeness auto
termination
  by (relation "measure (\<lambda>(over, P, xs). length xs)") (auto dest: remove_first_length)

declare trim_while.simps [simp del]

lemma trim_while_stop:
  "\<not> over (trim_while over P xs) \<or> (\<forall>x \<in> set (trim_while over P xs). \<not> P x)"
proof (induction over P xs rule: trim_while.induct)
  case (1 over P xs)
  then show ?case
    by (simp add: trim_while.simps[of over P xs] remove_first_None split: option.splits)
qed

lemma trim_while_id [simp]: "\<not> over xs \<Longrightarrow> trim_while over P xs = xs"
  by (simp add: trim_while.simps)

lemma trim_while_subseq: "subseq (trim_while over P xs) xs"
proof (induction over P xs rule: trim_while.induct)
  case (1 over P xs)
  show ?case
  proof (cases "over xs")
    case True
    show ?thesis
    proof (cases "remove_first P xs")
      case (Some ys)
      with True "1.IH" have "subseq (trim_while over P ys) ys" by blast
      moreover from Some have "subseq ys xs" by (rule remove_first_subseq)
      ultimately show ?thesis
        using True Some by (subst trim_while.simps) (auto intro: subseq_order.order_trans)
    qed (use True in \<open>subst trim_while.simps, simp\<close>)
  qed (simp add: trim_while.simps)
qed

lemma trim_while_filter: "filter (\<lambda>x. \<not> P x) (trim_while over P xs) = filter (\<lambda>x. \<not> P x) xs"
proof (induction "length xs" arbitrary: xs rule: less_induct)
  case less
  show ?case
  proof (cases "over xs \<and> remove_first P xs \<noteq> None")
    case True
    then obtain ys where ys: "over xs" "remove_first P xs = Some ys" by blast
    then have "trim_while over P xs = trim_while over P ys"
      by (subst trim_while.simps) simp
    moreover have "length ys < length xs" using remove_first_length[OF ys(2)] by simp
    ultimately show ?thesis using less remove_first_filter[OF ys(2)] by metis
  next
    case False
    then have "trim_while over P xs = xs" by (subst trim_while.simps) auto
    then show ?thesis by simp
  qed
qed

lemma subseq_set: "subseq xs ys \<Longrightarrow> set xs \<subseteq> set ys"
  by (induction rule: list_emb.induct) auto

lemma trim_while_set: "set (trim_while over P xs) \<subseteq> set xs"
  by (rule subseq_set [OF trim_while_subseq])

lemma subseq_sorted_wrt: "subseq xs ys \<Longrightarrow> sorted_wrt R ys \<Longrightarrow> sorted_wrt R xs"
  by (induction rule: list_emb.induct) (use subseq_set in \<open>auto\<close>)

lemma subseq_distinct: "subseq xs ys \<Longrightarrow> distinct ys \<Longrightarrow> distinct xs"
  by (induction rule: list_emb.induct) (use subseq_set in \<open>auto\<close>)

end
