(* ===== verification/JsValue.thy ===== *)
theory JsValue
  imports Prelude
begin

text \<open>
  JavaScript values of type \<open>unknown\<close>: what \<open>JSON.parse\<close> or a peer's message delivers before a guard
  has looked at it. A string is its list of UTF-16 code units (what \<open>length\<close> and \<open>slice\<close> count), a
  number is a finite rational or one of the special values; the property of an object that is
  absent reads as \<open>undefined\<close>.
\<close>

section \<open>Strings as UTF-16 code units\<close>

type_synonym jstr = "nat list"

definition js :: "string \<Rightarrow> jstr" where
  "js s = map of_char s"

lemma js_simps [simp]:
  "js [] = []" "js (c # s) = of_char c # js s" "length (js s) = length s"
  by (simp_all add: js_def)

lemma js_inject [simp]: "js s = js t \<longleftrightarrow> s = t"
  by (simp add: js_def inj_map_eq_map inj_of_char)

definition high_surrogate :: "nat \<Rightarrow> bool" where
  "high_surrogate u = (55296 \<le> u \<and> u < 56320)"

definition low_surrogate :: "nat \<Rightarrow> bool" where
  "low_surrogate u = (56320 \<le> u \<and> u < 57344)"

text \<open>
  \<open>Buffer.byteLength(s, "utf8")\<close>: a surrogate pair takes four bytes, a lone surrogate is written as
  the three-byte replacement character.
\<close>

definition unit_bytes :: "nat \<Rightarrow> nat" where
  "unit_bytes u = (if u < 128 then 1 else if u < 2048 then 2 else 3)"

fun utf8_length :: "jstr \<Rightarrow> nat" where
  "utf8_length [] = 0"
| "utf8_length [u] = unit_bytes u"
| "utf8_length (u # v # us) =
     (if high_surrogate u \<and> low_surrogate v then 4 + utf8_length us
      else unit_bytes u + utf8_length (v # us))"

lemma unit_bytes_bounds: "1 \<le> unit_bytes u" "unit_bytes u \<le> 3"
  by (simp_all add: unit_bytes_def)

lemma surrogate_bytes: "high_surrogate u \<Longrightarrow> unit_bytes u = 3" "low_surrogate u \<Longrightarrow> unit_bytes u = 3"
  by (simp_all add: unit_bytes_def high_surrogate_def low_surrogate_def)

text \<open>One more code unit never makes a string shorter in bytes, so byte length grows along prefixes.\<close>

lemma utf8_length_snoc: "utf8_length us \<le> utf8_length (us @ [v])"
proof (induction us rule: utf8_length.induct)
  case (2 u)
  then show ?case using unit_bytes_bounds(2) [of u] by simp
next
  case (3 u w us)
  then show ?case by (cases us) (auto split: if_splits)
qed simp

lemma utf8_length_append: "utf8_length us \<le> utf8_length (us @ vs)"
proof (induction vs rule: rev_induct)
  case (snoc v vs)
  have "utf8_length (us @ vs) \<le> utf8_length ((us @ vs) @ [v])" by (rule utf8_length_snoc)
  with snoc show ?case by simp
qed simp

lemma utf8_length_take_mono: "i \<le> j \<Longrightarrow> utf8_length (take i us) \<le> utf8_length (take j us)"
proof -
  assume "i \<le> j"
  then have "take j us = take i us @ take (j - i) (drop i us)"
    by (metis le_add_diff_inverse take_add)
  then show ?thesis by (simp add: utf8_length_append)
qed

lemma utf8_length_ascii: "\<forall>u \<in> set us. u < 128 \<Longrightarrow> utf8_length us = length us"
  by (induction us rule: utf8_length.induct)
    (auto simp: unit_bytes_def high_surrogate_def low_surrogate_def)

text \<open>\<open>String.prototype.trim\<close> and the class \<open>\\s\<close>: white space and line terminators.\<close>

definition js_blank :: "nat \<Rightarrow> bool" where
  "js_blank u = (u \<in> {9, 10, 11, 12, 13, 32, 160, 5760, 8232, 8233, 8239, 8287, 12288, 65279} \<or>
     8192 \<le> u \<and> u \<le> 8202)"

definition trim_text :: "jstr \<Rightarrow> jstr" where
  "trim_text s = rev (dropWhile js_blank (rev (dropWhile js_blank s)))"

section \<open>Values\<close>

datatype number = Fin rat | NaN | PosInf | NegInf

datatype jsval =
    Undef
  | Null
  | JBool bool
  | Num number
  | Str jstr
  | Arr "jsval list"
  | Obj "(string \<times> jsval) list"

definition is_string :: "jsval \<Rightarrow> bool" where
  "is_string v = (case v of Str _ \<Rightarrow> True | _ \<Rightarrow> False)"

definition is_number :: "jsval \<Rightarrow> bool" where
  "is_number v = (case v of Num _ \<Rightarrow> True | _ \<Rightarrow> False)"

definition is_array :: "jsval \<Rightarrow> bool" where
  "is_array v = (case v of Arr _ \<Rightarrow> True | _ \<Rightarrow> False)"

definition is_bool :: "jsval \<Rightarrow> bool" where
  "is_bool v = (case v of JBool _ \<Rightarrow> True | _ \<Rightarrow> False)"

text \<open>The test \<open>value !== null && typeof value === "object" && !Array.isArray(value)\<close>.\<close>

definition is_record :: "jsval \<Rightarrow> bool" where
  "is_record v = (case v of Obj _ \<Rightarrow> True | _ \<Rightarrow> False)"

fun getp :: "jsval \<Rightarrow> string \<Rightarrow> jsval" where
  "getp (Obj fs) k = (case map_of fs k of Some v \<Rightarrow> v | None \<Rightarrow> Undef)"
| "getp _ k = Undef"

text \<open>\<open>Number.isSafeInteger\<close>: an integer of absolute value at most \<open>2 ^ 53 - 1\<close>.\<close>

definition is_safe_integer :: "jsval \<Rightarrow> bool" where
  "is_safe_integer v = (case v of
     Num (Fin q) \<Rightarrow> snd (quotient_of q) = 1 \<and> \<bar>fst (quotient_of q)\<bar> \<le> 2 ^ 53 - 1
   | _ \<Rightarrow> False)"

definition positive_number :: "jsval \<Rightarrow> bool" where
  "positive_number v = (case v of Num (Fin q) \<Rightarrow> 0 < q | Num PosInf \<Rightarrow> True | _ \<Rightarrow> False)"

lemma is_safe_integer_int:
  "is_safe_integer (Num (Fin (of_int i))) \<longleftrightarrow> \<bar>i\<bar> \<le> 2 ^ 53 - 1"
  by (simp add: is_safe_integer_def quotient_of_int)

lemmas js_type_defs = is_string_def is_number_def is_array_def is_bool_def is_record_def

end
