(* ===== verification/RunTypes.thy ===== *)
theory RunTypes
  imports JsValue
begin

text \<open>
  The run vocabulary of \<open>packages/contracts/src/run.ts\<close> and
  \<open>packages/agent/src/services/run-controller/types.ts\<close>: status values and their guards, the run
  snapshot, the journal event, the claim records, and the shallow guard that admits a persisted
  receipt.
\<close>

section \<open>Statuses\<close>

datatype run_status = Thinking | Acting | Waiting | Complete | Cancelled | RunError

datatype terminal_reason = ReasonCompleted | ReasonCancelled | ReasonError

datatype run_update_type =
    UStarted | UThinking | UActing | UWaiting | UMessage | UActionStarted | UActionCompleted
  | ULocalMutation | UStream | UHeartbeat | UCompleted | UCancelled | UError | UApprovals

definition active_run_statuses :: "string list" where
  "active_run_statuses = [''thinking'', ''acting'', ''waiting'']"

definition terminal_run_statuses :: "string list" where
  "terminal_run_statuses = [''complete'', ''cancelled'', ''error'']"

definition run_statuses :: "string list" where
  "run_statuses = active_run_statuses @ terminal_run_statuses"

primrec status_name :: "run_status \<Rightarrow> string" where
  "status_name Thinking = ''thinking''"
| "status_name Acting = ''acting''"
| "status_name Waiting = ''waiting''"
| "status_name Complete = ''complete''"
| "status_name Cancelled = ''cancelled''"
| "status_name RunError = ''error''"

definition is_active_run_status :: "jsval \<Rightarrow> bool" where
  "is_active_run_status v =
     (case v of Str s \<Rightarrow> s \<in> set (map js active_run_statuses) | _ \<Rightarrow> False)"

definition is_terminal_run_status :: "jsval \<Rightarrow> bool" where
  "is_terminal_run_status v =
     (case v of Str s \<Rightarrow> s \<in> set (map js terminal_run_statuses) | _ \<Rightarrow> False)"

definition is_run_status :: "jsval \<Rightarrow> bool" where
  "is_run_status v = (is_active_run_status v \<or> is_terminal_run_status v)"

text \<open>The typed reading of the three guards: a status value of the type is decided by its name.\<close>

definition terminal_status :: "run_status \<Rightarrow> bool" where
  "terminal_status s = is_terminal_run_status (Str (js (status_name s)))"

lemma terminal_status_simps [simp]:
  "\<not> terminal_status Thinking" "\<not> terminal_status Acting" "\<not> terminal_status Waiting"
  "terminal_status Complete" "terminal_status Cancelled" "terminal_status RunError"
  by (simp_all add: terminal_status_def is_terminal_run_status_def terminal_run_statuses_def)

lemma status_guards_partition:
  "is_run_status v \<longleftrightarrow> is_active_run_status v \<noteq> is_terminal_run_status v"
  by (cases v) (auto simp: is_run_status_def is_active_run_status_def is_terminal_run_status_def
      active_run_statuses_def terminal_run_statuses_def)

lemma is_run_status_iff: "is_run_status v \<longleftrightarrow> (\<exists>s. v = Str (js (status_name s)))"
proof
  assume "is_run_status v"
  then obtain n where n: "v = Str (js n)" "n \<in> set run_statuses"
    by (cases v) (auto simp: is_run_status_def is_active_run_status_def is_terminal_run_status_def
        run_statuses_def)
  then have "\<exists>s. n = status_name s"
    by (auto simp: run_statuses_def active_run_statuses_def terminal_run_statuses_def)
      (metis status_name.simps)+
  with n show "\<exists>s. v = Str (js (status_name s))" by blast
next
  assume "\<exists>s. v = Str (js (status_name s))"
  then obtain s where "v = Str (js (status_name s))" by blast
  then show "is_run_status v"
    by (cases s) (simp_all add: is_run_status_def is_active_run_status_def
        is_terminal_run_status_def active_run_statuses_def terminal_run_statuses_def)
qed

section \<open>Records\<close>

record local_mutation =
  mutAction :: string
  mutRequestedPath :: "string option"
  mutResolvedPath :: "string option"
  mutSuccess :: bool
  mutMessage :: "string option"
  mutBytes :: "int option"
  mutReplacements :: "int option"
  mutRecordedAt :: time

text \<open>
  \<open>RunSnapshot\<close>. \<open>RunReceiptEnvelope\<close> is the same record read back from storage, with the policy
  strings (\<open>runDepth\<close>, \<open>progressMode\<close>) kept as recorded. An optional field is an \<open>option\<close>; wallet
  activities are opaque values that only \<open>parseWalletActivityReceipt\<close> looks into.
\<close>

record snapshot =
  runId :: string
  sessionId :: string
  roomId :: string
  source :: string
  message :: string
  runDepth :: string
  configuredMaxIterations :: int
  observedActionCount :: int
  progressMode :: string
  status :: run_status
  activeAction :: "string option"
  activeStream :: "string option"
  statusDetail :: "string option"
  lastAction :: "string option"
  localMutations :: "local_mutation list"
  walletActivities :: "jsval list option"
  pendingApprovals :: int
  startedAt :: time
  firstStatusAt :: "time option"
  firstMessageAt :: "time option"
  firstActionAt :: "time option"
  lastMeaningfulActivityAt :: "time option"
  lastHeartbeatAt :: "time option"
  updatedAt :: time
  endedAt :: "time option"
  terminalReason :: "terminal_reason option"
  errorMessage :: "string option"

record run_update_event =
  ruType :: run_update_type
  ruSessionId :: string
  ruRun :: snapshot

text \<open>\<open>StartTurnInput\<close>, \<open>TaskRunEvent\<close>, \<open>TaskRunClaimInput\<close> and \<open>TaskRunClaimResult\<close>.\<close>

record start_turn_input =
  stSessionId :: string
  stRoomId :: string
  stRunId :: string
  stSource :: string
  stMessage :: string
  stRunDepth :: string
  stConfiguredMaxIterations :: int
  stProgressMode :: string
  stPendingApprovals :: "int option"

record task_event =
  teId :: int
  teRunId :: string
  teType :: string
  teData :: jsval
  teCreatedAt :: time
  teTerminal :: bool

record task_claim =
  tcRunId :: string
  tcSessionId :: string
  tcRoomId :: string
  tcResponseId :: string
  tcSource :: string

datatype claim_result =
    ClaimAccepted
  | RunExists
  | SessionActive string

section \<open>Admission of a persisted receipt\<close>

definition is_run_receipt_envelope :: "jsval \<Rightarrow> bool" where
  "is_run_receipt_envelope value =
     (is_record value \<and>
      is_string (getp value ''runId'') \<and>
      is_string (getp value ''sessionId'') \<and>
      is_string (getp value ''roomId'') \<and>
      is_string (getp value ''source'') \<and>
      is_string (getp value ''message'') \<and>
      is_string (getp value ''runDepth'') \<and>
      is_number (getp value ''configuredMaxIterations'') \<and>
      is_number (getp value ''observedActionCount'') \<and>
      is_string (getp value ''progressMode'') \<and>
      is_run_status (getp value ''status'') \<and>
      is_array (getp value ''localMutations'') \<and>
      is_number (getp value ''pendingApprovals'') \<and>
      is_string (getp value ''startedAt'') \<and>
      is_string (getp value ''updatedAt''))"

text \<open>
  The JSON value a snapshot is written as, restricted to the fields the guard reads; \<open>iso_text\<close> is the
  text of a timestamp, \<open>mutation_json\<close> the text of one mutation record.
\<close>

definition receipt_json ::
  "(time \<Rightarrow> jstr) \<Rightarrow> (local_mutation \<Rightarrow> jsval) \<Rightarrow> snapshot \<Rightarrow> jsval" where
  "receipt_json iso_text mutation_json r = Obj
     [(''runId'', Str (js (runId r))),
      (''sessionId'', Str (js (sessionId r))),
      (''roomId'', Str (js (roomId r))),
      (''source'', Str (js (source r))),
      (''message'', Str (js (message r))),
      (''runDepth'', Str (js (runDepth r))),
      (''configuredMaxIterations'', Num (Fin (of_int (configuredMaxIterations r)))),
      (''observedActionCount'', Num (Fin (of_int (observedActionCount r)))),
      (''progressMode'', Str (js (progressMode r))),
      (''status'', Str (js (status_name (status r)))),
      (''localMutations'', Arr (map mutation_json (localMutations r))),
      (''pendingApprovals'', Num (Fin (of_int (pendingApprovals r)))),
      (''startedAt'', Str (iso_text (startedAt r))),
      (''updatedAt'', Str (iso_text (updatedAt r)))]"

lemma receipt_json_admitted: "is_run_receipt_envelope (receipt_json iso_text mj r)"
proof -
  have "is_run_status (Str (js (status_name (status r))))"
    by (auto simp: is_run_status_iff)
  then show ?thesis
    by (simp add: is_run_receipt_envelope_def receipt_json_def js_type_defs)
qed

end
