(* ===== verification/Interfaces.thy ===== *)
theory Interfaces
  imports Prelude
begin

text \<open>
  The interfaces the components share, as locales. A machine is a step function over events; an
  \<open>invariant_machine\<close> keeps a predicate, an \<open>absorbing_machine\<close> has final states no event leaves, a
  \<open>monitored_machine\<close> keeps a relation between any two states of a run. A \<open>keyed_store\<close> is what the
  code uses of a \<open>Map\<close>; an \<open>indexed_store\<close> is a primary map with a secondary index from a derived key.
  Every component interprets these on its own definitions.
\<close>

section \<open>Step machines\<close>

locale step_machine =
  fixes step :: "'s \<Rightarrow> 'e \<Rightarrow> 's"

locale invariant_machine = step_machine step for step :: "'s \<Rightarrow> 'e \<Rightarrow> 's" +
  fixes inv :: "'s \<Rightarrow> bool"
  assumes step_inv: "inv s \<Longrightarrow> inv (step s e)"
begin

lemma run_inv: "inv s \<Longrightarrow> inv (foldl step s es)"
  by (induction es arbitrary: s) (auto intro: step_inv)

lemma prefix_inv: "inv s \<Longrightarrow> prefix es fs \<Longrightarrow> inv (foldl step s es)"
  by (rule run_inv)

end

locale absorbing_machine = step_machine step for step :: "'s \<Rightarrow> 'e \<Rightarrow> 's" +
  fixes final :: "'s \<Rightarrow> bool"
  assumes step_final: "final s \<Longrightarrow> step s e = s"
begin

lemma run_final: "final s \<Longrightarrow> foldl step s es = s"
  by (induction es) (auto simp: step_final)

lemma run_final_append: "final (foldl step s es) \<Longrightarrow> foldl step s (es @ fs) = foldl step s es"
  by (simp add: run_final)

lemma run_final_stays: "final s \<Longrightarrow> final (foldl step s es)"
  by (simp add: run_final)

end

text \<open>A relation that every step establishes under an invariant, and that composes.\<close>

locale monitored_machine = invariant_machine step inv
  for step :: "'s \<Rightarrow> 'e \<Rightarrow> 's" and inv :: "'s \<Rightarrow> bool" +
  fixes rel :: "'s \<Rightarrow> 's \<Rightarrow> bool"
  assumes rel_refl: "rel s s"
    and rel_trans: "rel s t \<Longrightarrow> rel t u \<Longrightarrow> rel s u"
    and rel_step: "inv s \<Longrightarrow> rel s (step s e)"
begin

lemma run_rel: "inv s \<Longrightarrow> rel s (foldl step s es)"
proof (induction es arbitrary: s)
  case (Cons e es)
  then have "rel s (step s e)" by (simp add: rel_step)
  moreover have "rel (step s e) (foldl step (step s e) es)"
    using Cons step_inv by blast
  ultimately show ?case by (auto intro: rel_trans)
qed (simp add: rel_refl)

lemma run_rel_split: "inv s \<Longrightarrow> rel (foldl step s es) (foldl step s (es @ fs))"
  by (simp add: run_inv run_rel)

end

section \<open>Printed forms\<close>

text \<open>
  A format that reads back what it printed, for the values it can express.
\<close>

locale text_format =
  fixes out :: "'a \<Rightarrow> 'b" and inp :: "'b \<Rightarrow> 'a" and expressible :: "'a \<Rightarrow> bool"
  assumes inp_out: "expressible x \<Longrightarrow> inp (out x) = x"
begin

lemma out_inj: "expressible x \<Longrightarrow> expressible y \<Longrightarrow> out x = out y \<Longrightarrow> x = y"
  by (metis inp_out)

lemma out_inp: "expressible x \<Longrightarrow> t = out x \<Longrightarrow> out (inp t) = t"
  by (simp add: inp_out)

end

section \<open>Keyed stores\<close>

locale keyed_store =
  fixes empty :: "'m" and get :: "'m \<Rightarrow> 'k \<Rightarrow> 'v option"
    and put :: "'k \<Rightarrow> 'v \<Rightarrow> 'm \<Rightarrow> 'm" and del :: "'k \<Rightarrow> 'm \<Rightarrow> 'm"
  assumes get_empty: "get empty k = None"
    and get_put: "get (put k v m) k' = (if k' = k then Some v else get m k')"
    and get_del: "get (del k m) k' = (if k' = k then None else get m k')"
begin

lemma get_put_same: "get (put k v m) k = Some v"
  by (simp add: get_put)

lemma get_del_put: "get (del k (put k v m)) k' = get (del k m) k'"
  by (simp add: get_put get_del)

lemma get_fold_put:
  "get (foldl (\<lambda>m x. put (f x) (g x) m) m xs) k =
     (case find (\<lambda>x. f x = k) (rev xs) of Some x \<Rightarrow> Some (g x) | None \<Rightarrow> get m k)"
  by (induction xs rule: rev_induct) (auto simp: get_put)

end

text \<open>
  A primary map from identifiers to entries and a secondary index from \<open>ikey entry\<close> to the
  identifier. \<open>coherent\<close> says that the index leads to exactly the entries of the primary map.
\<close>

locale indexed_store =
  P: keyed_store pempty pget pput pdel + I: keyed_store iempty iget iput idel
  for pempty :: "'p" and pget :: "'p \<Rightarrow> 'id \<Rightarrow> 'v option" and pput pdel
    and iempty :: "'i" and iget :: "'i \<Rightarrow> 'x \<Rightarrow> 'id option" and iput idel +
  fixes ikey :: "'v \<Rightarrow> 'x" and coherent :: "'p \<Rightarrow> 'i \<Rightarrow> bool"
  assumes coherent_iff: "coherent p i \<longleftrightarrow>
    (\<forall>x d. iget i x = Some d \<longrightarrow> (\<exists>v. pget p d = Some v \<and> ikey v = x)) \<and>
    (\<forall>d v. pget p d = Some v \<longrightarrow> iget i (ikey v) = Some d)"
begin

lemma coherent_empty: "coherent pempty iempty"
  by (simp add: coherent_iff P.get_empty I.get_empty)

lemma coherentD:
  assumes "coherent p i"
  shows "iget i x = Some d \<Longrightarrow> \<exists>v. pget p d = Some v \<and> ikey v = x"
    and "pget p d = Some v \<Longrightarrow> iget i (ikey v) = Some d"
  using assms unfolding coherent_iff by blast+

lemma coherentI:
  assumes "\<And>x d. iget i x = Some d \<Longrightarrow> \<exists>v. pget p d = Some v \<and> ikey v = x"
    and "\<And>d v. pget p d = Some v \<Longrightarrow> iget i (ikey v) = Some d"
  shows "coherent p i"
  using assms unfolding coherent_iff by blast

lemma coherent_insert:
  assumes c: "coherent p i" and "iget i (ikey v) = None" and "pget p d = None"
  shows "coherent (pput d v p) (iput (ikey v) d i)"
proof (rule coherentI)
  fix x e assume x: "iget (iput (ikey v) d i) x = Some e"
  show "\<exists>w. pget (pput d v p) e = Some w \<and> ikey w = x"
  proof (cases "x = ikey v")
    case True
    with x show ?thesis by (simp add: P.get_put I.get_put)
  next
    case False
    with x obtain w where w: "pget p e = Some w" "ikey w = x"
      using coherentD(1) [OF c] by (auto simp: I.get_put)
    with assms(3) have "e \<noteq> d" by auto
    with w show ?thesis by (simp add: P.get_put)
  qed
next
  fix e w assume w: "pget (pput d v p) e = Some w"
  show "iget (iput (ikey v) d i) (ikey w) = Some e"
  proof (cases "e = d")
    case True
    with w show ?thesis by (simp add: P.get_put I.get_put)
  next
    case False
    with w have "iget i (ikey w) = Some e" by (simp add: P.get_put coherentD(2) [OF c])
    moreover from this assms(2) have "ikey w \<noteq> ikey v" by (metis option.distinct(1))
    ultimately show ?thesis by (simp add: I.get_put)
  qed
qed

lemma coherent_overwrite:
  assumes c: "coherent p i" and "pget p d = Some v" and "ikey w = ikey v"
  shows "coherent (pput d w p) i"
proof (rule coherentI)
  fix x e assume "iget i x = Some e"
  then show "\<exists>w'. pget (pput d w p) e = Some w' \<and> ikey w' = x"
    using assms coherentD(1)[OF c, of x e] by (cases "e = d") (auto simp: P.get_put)
next
  fix e w' assume "pget (pput d w p) e = Some w'"
  then show "iget i (ikey w') = Some e"
    using assms coherentD(2)[OF c] by (cases "e = d") (auto simp: P.get_put)
qed

lemma coherent_remove:
  assumes c: "coherent p i" and v: "pget p d = Some v"
  shows "coherent (pdel d p) (idel (ikey v) i)"
proof (rule coherentI)
  fix x e assume "iget (idel (ikey v) i) x = Some e"
  then have x: "x \<noteq> ikey v" "iget i x = Some e" by (auto simp: I.get_del split: if_splits)
  from coherentD(1)[OF c x(2)] obtain w where w: "pget p e = Some w" "ikey w = x" by blast
  with v x have "e \<noteq> d" by auto
  with w show "\<exists>w'. pget (pdel d p) e = Some w' \<and> ikey w' = x" by (simp add: P.get_del)
next
  fix e w' assume "pget (pdel d p) e = Some w'"
  then have e: "e \<noteq> d" "pget p e = Some w'" by (auto simp: P.get_del split: if_splits)
  from coherentD(2)[OF c v] coherentD(2)[OF c e(2)] e(1) have "ikey w' \<noteq> ikey v" by auto
  with coherentD(2)[OF c e(2)] show "iget (idel (ikey v) i) (ikey w') = Some e"
    by (simp add: I.get_del)
qed

lemma coherent_injective:
  "coherent p i \<Longrightarrow> pget p d = Some v \<Longrightarrow> pget p e = Some w \<Longrightarrow> ikey v = ikey w \<Longrightarrow> d = e"
  by (metis coherentD(2) option.inject)

end

section \<open>The insertion-ordered map provides a keyed store\<close>

interpretation jsmap: keyed_store "[]" "map_of :: ('k, 'v) jsmap \<Rightarrow> 'k \<Rightarrow> 'v option" AList.update AList.delete
  by unfold_locales auto

end
