(* ===== verification/RunTransitions.thy ===== *)
theory RunTransitions
  imports RunTypes Interfaces
begin

text \<open>
  The pure transitions of a run, \<open>services/run-controller/transitions.ts\<close>: one definition per exported
  function. \<open>clk n\<close> is the \<open>n\<close>-th call of \<open>nowIso()\<close> the function makes, in evaluation order.
  The lemmas give the lifecycle of one run under any sequence of guarded transitions.
\<close>

record run_transition =
  trType :: run_update_type
  trRun :: snapshot

section \<open>The transitions\<close>

definition create_run_start_transition :: "clock \<Rightarrow> start_turn_input \<Rightarrow> run_transition" where
  "create_run_start_transition clk input =
     (let now = clk 0 in
      \<lparr>trType = UStarted,
       trRun = \<lparr>runId = stRunId input, sessionId = stSessionId input, roomId = stRoomId input,
         source = stSource input, message = stMessage input, runDepth = stRunDepth input,
         configuredMaxIterations = stConfiguredMaxIterations input, observedActionCount = 0,
         progressMode = stProgressMode input, status = Thinking, activeAction = None,
         activeStream = None, statusDetail = None, lastAction = None, localMutations = [],
         walletActivities = None,
         pendingApprovals = (case stPendingApprovals input of None \<Rightarrow> 0 | Some n \<Rightarrow> n),
         startedAt = now, firstStatusAt = Some now, firstMessageAt = None, firstActionAt = None,
         lastMeaningfulActivityAt = Some now, lastHeartbeatAt = None, updatedAt = now,
         endedAt = None, terminalReason = None, errorMessage = None\<rparr>\<rparr>)"

text \<open>\<open>createPatchedTransition\<close>: the patched copy of the run, stamped with the last reading.\<close>

definition create_patched_transition ::
  "snapshot \<Rightarrow> time \<Rightarrow> run_update_type \<Rightarrow> run_transition" where
  "create_patched_transition patched now ty = \<lparr>trType = ty, trRun = patched\<lparr>updatedAt := now\<rparr>\<rparr>"

definition meaningful_patch :: "time \<Rightarrow> snapshot \<Rightarrow> snapshot" where
  "meaningful_patch now patched = patched\<lparr>lastMeaningfulActivityAt := Some now\<rparr>"

definition action_started_transition :: "clock \<Rightarrow> snapshot \<Rightarrow> string \<Rightarrow> run_transition" where
  "action_started_transition clk current action =
     (let (first, n) = (case firstActionAt current of Some t \<Rightarrow> (t, 0) | None \<Rightarrow> (clk 0, 1)) in
      create_patched_transition
        (meaningful_patch (clk n)
          (current\<lparr>status := Acting, activeAction := Some action, activeStream := Some ''action'',
            statusDetail := None, lastAction := Some action,
            observedActionCount := observedActionCount current + 1,
            firstActionAt := Some first\<rparr>))
        (clk (n + 1)) UActionStarted)"

definition action_completed_transition :: "clock \<Rightarrow> snapshot \<Rightarrow> string option \<Rightarrow> run_transition" where
  "action_completed_transition clk current action =
     create_patched_transition
       (meaningful_patch (clk 0)
         (current\<lparr>status := Waiting, activeAction := None, activeStream := None,
           statusDetail := None, lastAction := action\<rparr>))
       (clk 1) UActionCompleted"

definition local_mutation_transition :: "clock \<Rightarrow> snapshot \<Rightarrow> local_mutation \<Rightarrow> run_transition" where
  "local_mutation_transition clk current mutation =
     create_patched_transition
       (meaningful_patch (clk 1)
         (current\<lparr>localMutations :=
             localMutations current @ [mutation\<lparr>mutRecordedAt := clk 0\<rparr>],
           statusDetail := Some (case mutMessage mutation of
               Some m \<Rightarrow> m
             | None \<Rightarrow> mutAction mutation @ '' '' @
                 (if mutSuccess mutation then ''succeeded'' else ''failed''))\<rparr>))
       (clk 2) ULocalMutation"

definition message_transition :: "clock \<Rightarrow> snapshot \<Rightarrow> run_transition" where
  "message_transition clk current =
     (let (first, n) = (case firstMessageAt current of Some t \<Rightarrow> (t, 0) | None \<Rightarrow> (clk 0, 1)) in
      create_patched_transition
        (meaningful_patch (clk n)
          (current\<lparr>status := Thinking, firstMessageAt := Some first\<rparr>))
        (clk (n + 1)) UMessage)"

definition waiting_transition :: "clock \<Rightarrow> snapshot \<Rightarrow> run_transition" where
  "waiting_transition clk current =
     create_patched_transition
       (meaningful_patch (clk 0)
         (current\<lparr>status := Waiting, activeAction := None, activeStream := None,
           statusDetail := None\<rparr>))
       (clk 1) UWaiting"

definition thinking_transition :: "clock \<Rightarrow> snapshot \<Rightarrow> run_transition" where
  "thinking_transition clk current =
     create_patched_transition
       (meaningful_patch (clk 0) (current\<lparr>status := Thinking\<rparr>)) (clk 1) UThinking"

definition heartbeat_transition ::
  "clock \<Rightarrow> snapshot \<Rightarrow> string \<Rightarrow> string option \<Rightarrow> string option \<Rightarrow> run_transition" where
  "heartbeat_transition clk current stat preview indicatorType =
     (let nextStatus =
        (if stat = ''waiting'' then Waiting
         else if stat = ''error'' then RunError
         else if stat = ''acting'' then Acting
         else Thinking) in
      create_patched_transition
        (current\<lparr>status := nextStatus,
          activeStream := (case indicatorType of Some i \<Rightarrow> Some i | None \<Rightarrow> activeStream current),
          statusDetail := Some (case preview of Some p \<Rightarrow> p | None \<Rightarrow> stat),
          lastHeartbeatAt := Some (clk 0)\<rparr>)
        (clk 1) UHeartbeat)"

definition stream_transition :: "clock \<Rightarrow> snapshot \<Rightarrow> string \<Rightarrow> string option \<Rightarrow> run_transition" where
  "stream_transition clk current stream detail =
     (if stream = ''action'' \<or> stream = ''terminal'' then
        create_patched_transition
          (meaningful_patch (clk 0)
            (current\<lparr>status := Acting, activeStream := Some stream,
              activeAction := (case detail of Some d \<Rightarrow> Some d | None \<Rightarrow> activeAction current),
              statusDetail := detail,
              lastAction := (case detail of Some d \<Rightarrow> Some d | None \<Rightarrow> lastAction current)\<rparr>))
          (clk 1) UStream
      else if stream = ''assistant'' then
        create_patched_transition
          (meaningful_patch (clk 0)
            (current\<lparr>status := Waiting, activeAction := None, activeStream := Some stream,
              statusDetail := detail\<rparr>))
          (clk 1) UStream
      else
        create_patched_transition
          (meaningful_patch (clk 0)
            (current\<lparr>status := Thinking, activeStream := Some stream, statusDetail := detail\<rparr>))
          (clk 1) UStream)"

text \<open>
  \<open>finishTransition\<close> takes one of the three terminal statuses; the type of its argument is
  \<open>Extract<RunStatus, "complete" | "cancelled" | "error">\<close>.
\<close>

datatype finish_status = FinComplete | FinCancelled | FinError

primrec finish_run_status :: "finish_status \<Rightarrow> run_status" where
  "finish_run_status FinComplete = Complete"
| "finish_run_status FinCancelled = Cancelled"
| "finish_run_status FinError = RunError"

definition finish_transition ::
  "clock \<Rightarrow> snapshot \<Rightarrow> finish_status \<Rightarrow> string option \<Rightarrow> run_transition" where
  "finish_transition clk current stat errorMsg =
     create_patched_transition
       (meaningful_patch (clk 1)
         (current\<lparr>status := finish_run_status stat, activeAction := None,
           errorMessage := errorMsg, activeStream := None, statusDetail := None,
           endedAt := Some (clk 0),
           terminalReason := Some (if stat = FinComplete then ReasonCompleted
             else if stat = FinCancelled then ReasonCancelled else ReasonError)\<rparr>))
       (clk 2)
       (if stat = FinError then UError else if stat = FinCancelled then UCancelled else UCompleted)"

definition pending_approvals_transition :: "clock \<Rightarrow> snapshot \<Rightarrow> int \<Rightarrow> run_transition" where
  "pending_approvals_transition clk current n =
     create_patched_transition (current\<lparr>pendingApprovals := n\<rparr>) (clk 0) UApprovals"

lemmas transition_defs =
  create_patched_transition_def meaningful_patch_def action_started_transition_def
  action_completed_transition_def local_mutation_transition_def message_transition_def
  waiting_transition_def thinking_transition_def heartbeat_transition_def stream_transition_def
  finish_transition_def pending_approvals_transition_def Let_def

section \<open>The events of one run\<close>

datatype run_event =
    EvThinking
  | EvWaiting
  | EvMessage
  | EvActionStarted string
  | EvActionCompleted "string option"
  | EvLocalMutation local_mutation
  | EvStream string "string option"
  | EvHeartbeat string "string option" "string option"
  | EvApprovals int
  | EvFinish finish_status "string option"

primrec transition_of :: "clock \<Rightarrow> run_event \<Rightarrow> snapshot \<Rightarrow> run_transition" where
  "transition_of clk EvThinking r = thinking_transition clk r"
| "transition_of clk EvWaiting r = waiting_transition clk r"
| "transition_of clk EvMessage r = message_transition clk r"
| "transition_of clk (EvActionStarted a) r = action_started_transition clk r a"
| "transition_of clk (EvActionCompleted a) r = action_completed_transition clk r a"
| "transition_of clk (EvLocalMutation m) r = local_mutation_transition clk r m"
| "transition_of clk (EvStream st d) r = stream_transition clk r st d"
| "transition_of clk (EvHeartbeat st p i) r = heartbeat_transition clk r st p i"
| "transition_of clk (EvApprovals n) r = pending_approvals_transition clk r n"
| "transition_of clk (EvFinish st e) r = finish_transition clk r st e"

text \<open>The guard of \<open>applyRunTransition\<close> and \<open>finishTurn\<close>: an ended run is left alone.\<close>

definition run_step :: "snapshot \<Rightarrow> clock \<times> run_event \<Rightarrow> snapshot" where
  "run_step r ce = (if endedAt r \<noteq> None then r else trRun (transition_of (fst ce) (snd ce) r))"

section \<open>Facts about every transition\<close>

lemma transition_identity:
  "runId (trRun (transition_of clk e r)) = runId r"
  "sessionId (trRun (transition_of clk e r)) = sessionId r"
  "roomId (trRun (transition_of clk e r)) = roomId r"
  "message (trRun (transition_of clk e r)) = message r"
  "source (trRun (transition_of clk e r)) = source r"
  "startedAt (trRun (transition_of clk e r)) = startedAt r"
  "firstStatusAt (trRun (transition_of clk e r)) = firstStatusAt r"
  "walletActivities (trRun (transition_of clk e r)) = walletActivities r"
  by (cases e; simp add: transition_defs split: prod.splits option.splits)+

lemma transition_ended:
  "endedAt (trRun (transition_of clk e r)) =
     (case e of EvFinish _ _ \<Rightarrow> Some (clk 0) | _ \<Rightarrow> endedAt r)"
  by (cases e) (simp_all add: transition_defs split: prod.splits)

lemma transition_reason:
  "terminalReason (trRun (transition_of clk e r)) =
     (case e of
        EvFinish FinComplete _ \<Rightarrow> Some ReasonCompleted
      | EvFinish FinCancelled _ \<Rightarrow> Some ReasonCancelled
      | EvFinish FinError _ \<Rightarrow> Some ReasonError
      | _ \<Rightarrow> terminalReason r)"
  by (cases e) (auto simp: transition_defs split: prod.splits finish_status.splits)

lemma transition_count:
  "observedActionCount (trRun (transition_of clk e r)) =
     observedActionCount r + (case e of EvActionStarted _ \<Rightarrow> 1 | _ \<Rightarrow> 0)"
  by (cases e) (simp_all add: transition_defs split: prod.splits)

lemma transition_mutations:
  "localMutations (trRun (transition_of clk e r)) =
     localMutations r @
     (case e of EvLocalMutation m \<Rightarrow> [m\<lparr>mutRecordedAt := clk 0\<rparr>] | _ \<Rightarrow> [])"
  by (cases e) (simp_all add: transition_defs split: prod.splits)

interpretation run_life: absorbing_machine run_step "\<lambda>r. endedAt r \<noteq> None"
  by unfold_locales (simp add: run_step_def)

section \<open>The lifecycle a run goes through\<close>

text \<open>
  The abstract run: live with a number of observed actions, or done for a reason. Everything else a
  snapshot carries is evidence that does not influence the lifecycle.
\<close>

datatype phase = Live int | Done terminal_reason int

primrec finish_reason :: "finish_status \<Rightarrow> terminal_reason" where
  "finish_reason FinComplete = ReasonCompleted"
| "finish_reason FinCancelled = ReasonCancelled"
| "finish_reason FinError = ReasonError"

fun phase_step :: "phase \<Rightarrow> run_event \<Rightarrow> phase" where
  "phase_step (Done q n) e = Done q n"
| "phase_step (Live n) (EvActionStarted a) = Live (n + 1)"
| "phase_step (Live n) (EvFinish st msg) = Done (finish_reason st) n"
| "phase_step (Live n) e = Live n"

definition abs_run :: "snapshot \<Rightarrow> phase" where
  "abs_run r = (case terminalReason r of
     None \<Rightarrow> Live (observedActionCount r)
   | Some q \<Rightarrow> Done q (observedActionCount r))"

text \<open>What a snapshot keeps between its own fields.\<close>

definition snapshot_wf :: "snapshot \<Rightarrow> bool" where
  "snapshot_wf r \<longleftrightarrow>
     (endedAt r = None \<longleftrightarrow> terminalReason r = None) \<and>
     (endedAt r \<noteq> None \<longrightarrow> terminal_status (status r) \<and> activeAction r = None \<and>
        (status r = Complete \<longleftrightarrow> terminalReason r = Some ReasonCompleted) \<and>
        (status r = Cancelled \<longleftrightarrow> terminalReason r = Some ReasonCancelled))"

lemma finish_transition_wf: "snapshot_wf (trRun (finish_transition clk r st msg))"
  by (cases st) (simp_all add: snapshot_wf_def transition_defs)

lemma transition_wf: "endedAt r = None \<Longrightarrow> snapshot_wf r \<Longrightarrow> snapshot_wf (trRun (transition_of clk e r))"
  using transition_ended [of clk e r] transition_reason [of clk e r]
  by (cases e; (simp add: finish_transition_wf; fail)?) (simp_all add: snapshot_wf_def)

lemma run_step_wf: "snapshot_wf r \<Longrightarrow> snapshot_wf (run_step r ce)"
  by (simp add: run_step_def transition_wf)

lemma start_wf: "snapshot_wf (trRun (create_run_start_transition clk input))"
  by (simp add: snapshot_wf_def create_run_start_transition_def Let_def)

interpretation run_wf: invariant_machine run_step snapshot_wf
  by unfold_locales (rule run_step_wf)

lemma abs_run_step:
  assumes "snapshot_wf r"
  shows "abs_run (run_step r ce) = phase_step (abs_run r) (snd ce)"
proof (cases "endedAt r")
  case None
  with assms have "terminalReason r = None" by (simp add: snapshot_wf_def)
  with None show ?thesis
    using transition_count [of "fst ce" "snd ce" r] transition_reason [of "fst ce" "snd ce" r]
    by (cases "snd ce") (auto simp: abs_run_def run_step_def split: finish_status.splits)
next
  case (Some t)
  with assms show ?thesis by (auto simp: abs_run_def run_step_def snapshot_wf_def)
qed

lemma abs_run_foldl:
  "snapshot_wf r \<Longrightarrow> abs_run (foldl run_step r es) = foldl phase_step (abs_run r) (map snd es)"
  by (induction es arbitrary: r) (simp_all add: abs_run_step run_step_wf)


text \<open>A run that has ended has a terminal status, no active action and the reason of its status,
  and whatever is noted afterwards changes no field of it. The converse direction of the first part
  fails: see \<open>heartbeat_error_not_ended\<close>.\<close>

theorem ended_run_is_final:
  assumes "r = foldl run_step (trRun (create_run_start_transition clk input)) es"
    and "endedAt r \<noteq> None"
  shows "terminal_status (status r) \<and> activeAction r = None \<and> terminalReason r \<noteq> None \<and>
    foldl run_step r fs = r"
proof -
  have "snapshot_wf r" unfolding assms(1) by (rule run_wf.run_inv [OF start_wf])
  with assms(2) have "terminal_status (status r) \<and> activeAction r = None \<and> terminalReason r \<noteq> None"
    by (simp add: snapshot_wf_def del: not_None_eq)
  moreover have "foldl run_step r fs = r" using assms(2) by (rule run_life.run_final)
  ultimately show ?thesis by blast
qed

definition sample_input :: start_turn_input where
  "sample_input = \<lparr>stSessionId = ''s1'', stRoomId = ''room1'', stRunId = ''run1'', stSource = ''cli'',
     stMessage = ''hello'', stRunDepth = ''standard'', stConfiguredMaxIterations = 8,
     stProgressMode = ''all'', stPendingApprovals = None\<rparr>"

definition sample_clock :: clock where
  "sample_clock n = int n"

theorem ended_run_is_final_witness:
  "\<exists>r. endedAt r \<noteq> None \<and> terminalReason r = Some ReasonCancelled \<and> foldl run_step r
     [(sample_clock, EvFinish FinError (Some ''late failure'')), (sample_clock, EvMessage)] = r"
proof -
  let ?r = "foldl run_step (trRun (create_run_start_transition sample_clock sample_input))
    [(sample_clock, EvActionStarted ''READ''), (sample_clock, EvFinish FinCancelled None)]"
  have "endedAt ?r \<noteq> None" "terminalReason ?r = Some ReasonCancelled"
    by (simp_all add: run_step_def transition_defs create_run_start_transition_def)
  with ended_run_is_final [OF refl this(1)] show ?thesis by blast
qed

text \<open>A heartbeat that reports \<open>error\<close> gives a run the terminal status \<open>error\<close> without ending it, so
  the status guard of the contract and the lifecycle disagree about it, and the next message makes
  the run think again.\<close>

theorem heartbeat_error_not_ended:
  assumes "endedAt r = None"
  shows "let h = run_step r (clk, EvHeartbeat ''error'' preview ind) in
    terminal_status (status h) \<and> endedAt h = None \<and>
    status (run_step h (clk', EvMessage)) = Thinking"
  using assms by (simp add: run_step_def transition_defs split: prod.splits)

theorem heartbeat_error_not_ended_witness:
  "let h = run_step (trRun (create_run_start_transition sample_clock sample_input))
       (sample_clock, EvHeartbeat ''error'' None None) in
     terminal_status (status h) \<and> endedAt h = None \<and>
     status (run_step h (sample_clock, EvMessage)) = Thinking"
  by (rule heartbeat_error_not_ended) (simp add: create_run_start_transition_def Let_def)

section \<open>Time stamps\<close>

text \<open>
  \<open>clocks_from t es\<close>: the readings of the handlers of \<open>es\<close> do not go backwards, from \<open>t\<close> on. A handler
  makes at most three readings.
\<close>

fun clocks_from :: "time \<Rightarrow> (clock \<times> run_event) list \<Rightarrow> bool" where
  "clocks_from t [] = True"
| "clocks_from t ((clk, e) # es) =
     (t \<le> clk 0 \<and> clk 0 \<le> clk 1 \<and> clk 1 \<le> clk 2 \<and> clocks_from (clk 2) es)"

definition stamps :: "snapshot \<Rightarrow> time list" where
  "stamps r = concat (map (\<lambda>f. case f r of Some t \<Rightarrow> [t] | None \<Rightarrow> [])
     [firstStatusAt, firstMessageAt, firstActionAt, lastMeaningfulActivityAt, lastHeartbeatAt,
      endedAt])"

definition stamps_ok :: "time \<Rightarrow> snapshot \<Rightarrow> bool" where
  "stamps_ok t r \<longleftrightarrow> startedAt r \<le> updatedAt r \<and> updatedAt r \<le> t \<and>
     (\<forall>x \<in> set (stamps r). startedAt r \<le> x \<and> x \<le> updatedAt r)"

lemma set_stamps:
  "x \<in> set (stamps r) \<longleftrightarrow> Some x \<in> {firstStatusAt r, firstMessageAt r, firstActionAt r,
     lastMeaningfulActivityAt r, lastHeartbeatAt r, endedAt r}"
  by (auto simp: stamps_def split: option.splits)

lemma stamps_ok_update:
  assumes "stamps_ok t r" "startedAt r' = startedAt r" "t \<le> lo" "lo \<le> updatedAt r'" "updatedAt r' \<le> u"
    and "\<And>x. x \<in> set (stamps r') \<Longrightarrow> x \<in> set (stamps r) \<or> lo \<le> x \<and> x \<le> updatedAt r'"
  shows "stamps_ok u r'"
  unfolding stamps_ok_def
proof (intro conjI ballI)
  from assms show "startedAt r' \<le> updatedAt r'" "updatedAt r' \<le> u" by (auto simp: stamps_ok_def)
  fix x assume "x \<in> set (stamps r')"
  with assms(6) consider "x \<in> set (stamps r)" | "lo \<le> x" "x \<le> updatedAt r'" by blast
  then show "startedAt r' \<le> x" and "x \<le> updatedAt r'"
    by (cases; use assms in \<open>force simp: stamps_ok_def\<close>)+
qed

lemma transition_stamps:
  assumes "clk 0 \<le> clk 1" "clk 1 \<le> clk 2"
  shows "clk 0 \<le> updatedAt (trRun (transition_of clk e r))"
    and "updatedAt (trRun (transition_of clk e r)) \<le> clk 2"
    and "x \<in> set (stamps (trRun (transition_of clk e r))) \<Longrightarrow>
      x \<in> set (stamps r) \<or> clk 0 \<le> x \<and> x \<le> updatedAt (trRun (transition_of clk e r))"
  using assms
  by (cases e; auto simp: transition_defs set_stamps eval_nat_numeral split: prod.splits option.splits
      if_splits)+

lemma run_step_stamps:
  assumes "stamps_ok t r" "t \<le> clk 0" "clk 0 \<le> clk 1" "clk 1 \<le> clk 2"
  shows "stamps_ok (clk 2) (run_step r (clk, e))"
proof (cases "endedAt r")
  case None
  have "stamps_ok (clk 2) (trRun (transition_of clk e r))"
    by (rule stamps_ok_update [OF assms(1) transition_identity(6) assms(2)])
      (use transition_stamps [OF assms(3,4), where e = e and r = r] in auto)
  with None show ?thesis by (simp add: run_step_def)
next
  case (Some x)
  with assms show ?thesis by (auto simp: run_step_def stamps_ok_def)
qed

text \<open>With a clock that does not go backwards, every time stamp of a run (first status, message
  and action, last activity, last heartbeat, end) lies between its start and its last update.\<close>

theorem run_stamps_ordered:
  assumes "clocks_from (clk 0) es"
    and "r = foldl run_step (trRun (create_run_start_transition clk input)) es"
    and "x \<in> set (stamps r)"
  shows "startedAt r \<le> x \<and> x \<le> updatedAt r"
proof -
  have "stamps_ok t r0 \<Longrightarrow> clocks_from t es \<Longrightarrow> \<exists>u. stamps_ok u (foldl run_step r0 es)" for t r0
  proof (induction t es arbitrary: r0 rule: clocks_from.induct)
    case (2 t clk e es)
    then have "stamps_ok (clk 2) (run_step r0 (clk, e))" by (auto intro: run_step_stamps)
    with 2 show ?case by simp
  qed auto
  moreover have "stamps_ok (clk 0) (trRun (create_run_start_transition clk input))"
    by (simp add: stamps_ok_def stamps_def create_run_start_transition_def Let_def)
  ultimately show ?thesis using assms by (auto simp: stamps_ok_def)
qed

theorem run_stamps_ordered_witness:
  "\<exists>r :: snapshot. endedAt r = Some 5 \<and> startedAt r = 0 \<and> startedAt r \<le> 5 \<and> 5 \<le> updatedAt r"
proof -
  define es where "es = [((\<lambda>n. 1 + int n), EvActionStarted ''READ''),
    ((\<lambda>n. 5 + int n), EvFinish FinComplete None)]"
  define r where "r = foldl run_step (trRun (create_run_start_transition sample_clock sample_input)) es"
  have c: "clocks_from (sample_clock 0) es" by (simp add: sample_clock_def es_def)
  have e: "endedAt r = Some 5" "startedAt r = 0"
    by (simp_all add: r_def es_def run_step_def transition_defs create_run_start_transition_def
        sample_clock_def)
  then have "5 \<in> set (stamps r)" by (simp add: set_stamps)
  from run_stamps_ordered [OF c r_def this] e show ?thesis by blast
qed

text \<open>Heartbeats and approval counts are not activity: only the other transitions move the time of
  the last meaningful activity, so a stalled run stays visible.\<close>

theorem heartbeat_keeps_activity_time:
  assumes "endedAt r = None"
  shows "lastMeaningfulActivityAt (run_step r (clk, e)) =
     (case e of
        EvHeartbeat _ _ _ \<Rightarrow> lastMeaningfulActivityAt r
      | EvApprovals _ \<Rightarrow> lastMeaningfulActivityAt r
      | EvActionStarted _ \<Rightarrow> Some (clk (if firstActionAt r = None then 1 else 0))
      | EvMessage \<Rightarrow> Some (clk (if firstMessageAt r = None then 1 else 0))
      | EvLocalMutation _ \<Rightarrow> Some (clk 1)
      | EvFinish _ _ \<Rightarrow> Some (clk 1)
      | _ \<Rightarrow> Some (clk 0))"
  using assms by (cases e) (auto simp: run_step_def transition_defs split: prod.splits option.splits)

theorem heartbeat_keeps_activity_time_witness:
  "lastMeaningfulActivityAt
     (run_step (trRun (create_run_start_transition sample_clock sample_input))
       ((\<lambda>n. 9), EvHeartbeat ''acting'' None None)) = Some 0"
  using heartbeat_keeps_activity_time
    [of "trRun (create_run_start_transition sample_clock sample_input)" "\<lambda>n. 9"
      "EvHeartbeat ''acting'' None None"]
  by (simp add: create_run_start_transition_def Let_def sample_clock_def)

end
