(* ===== verification/RunStore.thy ===== *)
theory RunStore
  imports RunTransitions
begin

text \<open>
  The receipt store of \<open>services/run-controller/store.ts\<close>: active runs by session, receipts and
  event journals by run, the room index, and the write-behind persistence. The state is \<open>run_store\<close>,
  one definition per method. What the store only calls is a field of \<open>host\<close>: the wallet schema check,
  the byte counts of \<open>JSON.stringify\<close>, \<open>String(value)\<close> and the injected writer, which may throw.
\<close>

record persisted =
  pdReceipts :: "snapshot list"
  pdEvents :: "(string, task_event list) jsmap"

record host =
  hostParseWallet :: "jsval \<Rightarrow> jsval option"
  hostJournalBytes :: "task_event list \<Rightarrow> nat"
  hostValueBytes :: "jsval \<Rightarrow> nat"
  hostToString :: "jsval \<Rightarrow> jstr"
  hostWriteOk :: "persisted \<Rightarrow> bool"
  hostCastReceipt :: "jsval \<Rightarrow> snapshot"
  hostCastEvent :: "jsval \<Rightarrow> task_event"

datatype run_error =
    ReceiptCapacityFull
  | WriteFailed
  | TerminalReceipt string
  | NoLongerQueued string
  | NotAvailableForQueue string
  | SessionHasActiveRun string string
  | WorkspaceAlreadyRegistered string

record run_store =
  activeRuns :: "(string, snapshot) jsmap"
  receipts :: "(string, snapshot) jsmap"
  eventJournals :: "(string, task_event list) jsmap"
  roomIndex :: "(string, string) jsmap"
  hasFile :: bool
  persistenceTimer :: bool
  persistenceDirty :: bool
  diskFile :: "persisted option"

definition max_delta_event_bytes :: nat where "max_delta_event_bytes = 32 * 1024"
definition max_journal_bytes :: nat where "max_journal_bytes = 512 * 1024"
definition max_receipts :: nat where "max_receipts = 1024"
definition max_events_per_run :: nat where "max_events_per_run = 1500"

definition empty_store :: "bool \<Rightarrow> run_store" where
  "empty_store file = \<lparr>activeRuns = [], receipts = [], eventJournals = [], roomIndex = [],
     hasFile = file, persistenceTimer = False, persistenceDirty = False, diskFile = None\<rparr>"

section \<open>Copies\<close>

text \<open>\<open>cloneRun\<close>: a copy whose wallet activities are the last 32 that still parse.\<close>

definition clone_run :: "host \<Rightarrow> snapshot \<Rightarrow> snapshot" where
  "clone_run H run = run\<lparr>walletActivities :=
     map_option (\<lambda>ws. slice_last 32 (List.map_filter (hostParseWallet H) ws)) (walletActivities run)\<rparr>"

lemma clone_run_simps [simp]:
  "runId (clone_run H r) = runId r" "sessionId (clone_run H r) = sessionId r"
  "roomId (clone_run H r) = roomId r" "endedAt (clone_run H r) = endedAt r"
  "terminalReason (clone_run H r) = terminalReason r" "status (clone_run H r) = status r"
  "firstStatusAt (clone_run H r) = firstStatusAt r" "errorMessage (clone_run H r) = errorMessage r"
  by (simp_all add: clone_run_def)

section \<open>Persistence\<close>

definition store_payload :: "run_store \<Rightarrow> persisted" where
  "store_payload s = \<lparr>pdReceipts = map snd (receipts s), pdEvents = eventJournals s\<rparr>"

definition flush_persistence :: "host \<Rightarrow> run_store \<Rightarrow> (run_error, unit, run_store) outcome" where
  "flush_persistence H s =
     (let s1 = s\<lparr>persistenceTimer := False\<rparr> in
      if \<not> hasFile s1 \<or> \<not> persistenceDirty s1 then (Inr (), s1)
      else
        let payload = store_payload s1 in
        if hostWriteOk H payload
        then (Inr (), s1\<lparr>diskFile := Some payload, persistenceDirty := False\<rparr>)
        else (Inl WriteFailed, s1))"

definition schedule_persistence :: "run_store \<Rightarrow> run_store" where
  "schedule_persistence s =
     (if \<not> hasFile s \<or> persistenceTimer s then s else s\<lparr>persistenceTimer := True\<rparr>)"

section \<open>Receipts\<close>

definition receipt_ended :: "string \<times> snapshot \<Rightarrow> bool" where
  "receipt_ended p = (endedAt (snd p) \<noteq> None)"

function trim_receipts :: "run_store \<Rightarrow> run_store" where
  "trim_receipts s =
     (if max_receipts < length (receipts s) then
        (case find receipt_ended (receipts s) of
           None \<Rightarrow> s
         | Some p \<Rightarrow>
             if fst p = [] then s
             else trim_receipts (s\<lparr>receipts := AList.delete (fst p) (receipts s),
               eventJournals := AList.delete (fst p) (eventJournals s)\<rparr>))
      else s)"
  by pat_completeness auto

termination
  by (relation "measure (\<lambda>s. length (receipts s))")
    (auto simp: find_Some_iff intro: jm_delete_shorter)

declare trim_receipts.simps [simp del]

definition index_room :: "run_store \<Rightarrow> snapshot \<Rightarrow> run_store" where
  "index_room s run =
     (let idx = (case map_of (activeRuns s) (sessionId run) of
          Some previous \<Rightarrow>
            if roomId previous \<noteq> roomId run \<and>
               map_of (roomIndex s) (roomId previous) = Some (sessionId run)
            then AList.delete (roomId previous) (roomIndex s)
            else roomIndex s
        | None \<Rightarrow> roomIndex s)
      in s\<lparr>roomIndex := AList.update (roomId run) (sessionId run) idx\<rparr>)"

text \<open>The four mutations shared by \<open>save\<close> and \<open>apply\<close>, before the flush.\<close>

definition record_run :: "host \<Rightarrow> string \<Rightarrow> snapshot \<Rightarrow> run_store \<Rightarrow> run_store" where
  "record_run H session run s =
     (let s1 = index_room s run;
          s2 = s1\<lparr>activeRuns := AList.update session run (activeRuns s1),
                  receipts := AList.update (runId run) (clone_run H run) (receipts s1)\<rparr>
      in (trim_receipts s2)\<lparr>persistenceDirty := True\<rparr>)"

definition store_save :: "host \<Rightarrow> run_store \<Rightarrow> snapshot \<Rightarrow> (run_error, unit, run_store) outcome" where
  "store_save H s run =
     (if \<not> jm_has (receipts s) (runId run) \<and> max_receipts \<le> length (receipts s) \<and>
         \<not> list_ex receipt_ended (receipts s)
      then (Inl ReceiptCapacityFull, s)
      else flush_persistence H (record_run H (sessionId run) run s))"

definition store_apply ::
  "host \<Rightarrow> run_store \<Rightarrow> string \<Rightarrow> snapshot \<Rightarrow> (run_error, unit, run_store) outcome" where
  "store_apply H s session next = flush_persistence H (record_run H session next s)"

definition save_accepted ::
  "host \<Rightarrow> run_store \<Rightarrow> snapshot \<Rightarrow> (run_error, unit, run_store) outcome" where
  "save_accepted H s run =
     (case store_save H s run of
        (Inr u, s') \<Rightarrow> (Inr u, s')
      | (Inl e, s') \<Rightarrow>
          (let restored = s'\<lparr>activeRuns := activeRuns s, receipts := receipts s,
                 eventJournals := eventJournals s, roomIndex := roomIndex s,
                 persistenceDirty := persistenceDirty s\<rparr>
           in (Inl e, if persistenceTimer s \<and> persistenceDirty s
                      then schedule_persistence restored else restored)))"

definition get_internal :: "run_store \<Rightarrow> string \<Rightarrow> snapshot option" where
  "get_internal s session = map_of (activeRuns s) session"

definition store_get :: "host \<Rightarrow> run_store \<Rightarrow> string \<Rightarrow> snapshot option" where
  "store_get H s session = map_option (clone_run H) (map_of (activeRuns s) session)"

definition get_by_room :: "host \<Rightarrow> run_store \<Rightarrow> string \<Rightarrow> snapshot option" where
  "get_by_room H s room =
     (case map_of (roomIndex s) room of
        None \<Rightarrow> None
      | Some session \<Rightarrow> if session = [] then None else store_get H s session)"

definition get_session_by_room :: "run_store \<Rightarrow> string \<Rightarrow> string option" where
  "get_session_by_room s room = map_of (roomIndex s) room"

definition get_by_run_id :: "run_store \<Rightarrow> string \<Rightarrow> snapshot option" where
  "get_by_run_id s run = map_of (receipts s) run"

definition has_run_id :: "run_store \<Rightarrow> string \<Rightarrow> bool" where
  "has_run_id s run = (jm_has (receipts s) run \<or> jm_has (eventJournals s) run)"

definition list_receipts :: "run_store \<Rightarrow> int \<Rightarrow> snapshot list" where
  "list_receipts s limit =
     rev (slice_last (nat (max 1 (min limit (int max_receipts)))) (map snd (receipts s)))"

definition store_list :: "host \<Rightarrow> run_store \<Rightarrow> snapshot list" where
  "store_list H s = map (\<lambda>p. clone_run H (snd p)) (activeRuns s)"

section \<open>Event journals\<close>

definition remove_oldest_replayable :: "task_event list \<Rightarrow> task_event list option" where
  "remove_oldest_replayable j = remove_first (\<lambda>e. \<not> teTerminal e) j"

definition trim_journal :: "host \<Rightarrow> task_event list \<Rightarrow> task_event list" where
  "trim_journal H j =
     trim_while (\<lambda>k. max_journal_bytes < hostJournalBytes H k) (\<lambda>e. \<not> teTerminal e)
       (trim_while (\<lambda>k. max_events_per_run < length k) (\<lambda>e. \<not> teTerminal e) j)"

text \<open>\<open>truncateUtf8\<close>: the longest prefix within a byte budget, by binary search on its length.\<close>

function truncate_search :: "jstr \<Rightarrow> nat \<Rightarrow> nat \<Rightarrow> nat \<Rightarrow> nat" where
  "truncate_search v maxBytes low high =
     (if low < high then
        (let mid = (low + high + 1) div 2 in
         if utf8_length (take mid v) \<le> maxBytes then truncate_search v maxBytes mid high
         else truncate_search v maxBytes low (mid - 1))
      else low)"
  by pat_completeness auto
termination
  by (relation "measure (\<lambda>(v, m, low, high). high - low)") auto

declare truncate_search.simps [simp del]

definition truncate_utf8 :: "jstr \<Rightarrow> nat \<Rightarrow> jstr" where
  "truncate_utf8 v maxBytes =
     (if utf8_length v \<le> maxBytes then v
      else take (truncate_search v maxBytes 0 (length v)) v)"

text \<open>
  \<open>normalizeEventData\<close>: a text delta keeps its identity fields and a bounded \<open>delta\<close>; other events
  are copied as they are. \<open>kept\<close> is the object without its delta.
\<close>

definition delta_text :: "host \<Rightarrow> jsval \<Rightarrow> jstr" where
  "delta_text H v = (case v of
     Str t \<Rightarrow> truncate_utf8 t max_delta_event_bytes
   | Undef \<Rightarrow> [] | Null \<Rightarrow> []
   | _ \<Rightarrow> hostToString H v)"

definition normalize_event_data :: "host \<Rightarrow> string \<Rightarrow> jsval \<Rightarrow> bool \<Rightarrow> jsval" where
  "normalize_event_data H type data terminal =
     (if type \<noteq> ''response.output_text.delta'' then data
      else
        let src = (if is_record data then data else Obj []);
            kept =
              (if is_string (getp src ''id'') then [(''id'', getp src ''id'')] else []) @
              (if is_string (getp src ''part_id'') then [(''part_id'', getp src ''part_id'')] else []) @
              (if is_safe_integer (getp src ''sequence'')
               then [(''sequence'', getp src ''sequence'')] else []);
            delta = delta_text H (getp src ''delta'');
            normalized = Obj (kept @ [(''delta'', Str delta)])
        in
          if \<not> terminal \<and> max_delta_event_bytes < hostValueBytes H normalized
          then Obj (kept @ [(''delta'', Str (truncate_utf8 delta
                 (max_delta_event_bytes - hostValueBytes H (Obj (kept @ [(''delta'', Str [])])))))])
          else normalized)"

definition journal_of :: "run_store \<Rightarrow> string \<Rightarrow> task_event list" where
  "journal_of s run = (case map_of (eventJournals s) run of Some j \<Rightarrow> j | None \<Rightarrow> [])"

definition next_event ::
  "host \<Rightarrow> clock \<Rightarrow> task_event list \<Rightarrow> string \<Rightarrow> string \<Rightarrow> jsval \<Rightarrow> bool \<Rightarrow> task_event" where
  "next_event H clk journal run type data terminal =
     \<lparr>teId = (if journal = [] then 0 else teId (last journal)) + 1, teRunId = run,
      teType = type, teData = normalize_event_data H type data terminal,
      teCreatedAt = clk 0, teTerminal = terminal\<rparr>"

definition append_event ::
  "host \<Rightarrow> clock \<Rightarrow> run_store \<Rightarrow> string \<Rightarrow> string \<Rightarrow> jsval \<Rightarrow> bool \<Rightarrow>
   (run_error, task_event \<times> bool, run_store) outcome" where
  "append_event H clk s run type data terminal =
     (let journal = journal_of s run in
      case find teTerminal journal of
        Some existing \<Rightarrow> (Inr (existing, False), s)
      | None \<Rightarrow>
          (let event = next_event H clk journal run type data terminal;
               s1 = s\<lparr>eventJournals :=
                   AList.update run (trim_journal H (journal @ [event])) (eventJournals s),
                 persistenceDirty := True\<rparr>
           in if terminal
              then (case flush_persistence H s1 of
                      (Inl e, s2) \<Rightarrow> (Inl e, s2)
                    | (Inr _, s2) \<Rightarrow> (Inr (event, True), s2))
              else (Inr (event, True), schedule_persistence s1)))"

definition list_events :: "run_store \<Rightarrow> string \<Rightarrow> int \<Rightarrow> task_event list" where
  "list_events s run after = filter (\<lambda>e. after < teId e) (journal_of s run)"

definition get_terminal_event :: "run_store \<Rightarrow> string \<Rightarrow> task_event option" where
  "get_terminal_event s run = find teTerminal (journal_of s run)"

section \<open>Restart\<close>

definition is_task_run_event :: "jsval \<Rightarrow> bool" where
  "is_task_run_event value =
     (is_record value \<and>
      is_safe_integer (getp value ''id'') \<and>
      positive_number (getp value ''id'') \<and>
      is_string (getp value ''runId'') \<and>
      is_string (getp value ''type'') \<and>
      is_string (getp value ''createdAt'') \<and>
      is_bool (getp value ''terminal''))"

text \<open>\<open>Object.entries\<close> of a parsed value, and the fields a spread copies from it.\<close>

fun decimal :: "nat \<Rightarrow> string" where
  "decimal n = (if n < 10 then [char_of (48 + n)]
     else decimal (n div 10) @ [char_of (48 + n mod 10)])"

declare decimal.simps [simp del]

definition object_entries :: "jsval \<Rightarrow> (string \<times> jsval) list" where
  "object_entries v = (case v of
     Obj fs \<Rightarrow> fs
   | Arr vs \<Rightarrow> zip (map decimal [0..<length vs]) vs
   | _ \<Rightarrow> [])"

definition spread_onto :: "(string \<times> jsval) list \<Rightarrow> (string \<times> jsval) list \<Rightarrow> (string \<times> jsval) list" where
  "spread_onto base fs = foldl (\<lambda>m p. AList.update (fst p) (snd p) m) base fs"

definition restore_journals :: "host \<Rightarrow> jsval \<Rightarrow> run_store \<Rightarrow> run_store" where
  "restore_journals H events s =
     foldl (\<lambda>st p. case snd p of
         Arr es \<Rightarrow>
           (let valid = map (hostCastEvent H)
                  (slice_last max_events_per_run (filter is_task_run_event es))
            in if valid = [] then st
               else st\<lparr>eventJournals := AList.update (fst p) valid (eventJournals st)\<rparr>)
       | _ \<Rightarrow> st) s (object_entries events)"

definition restored_receipt :: "time \<Rightarrow> snapshot \<Rightarrow> snapshot" where
  "restored_receipt restoredAt receipt =
     (if endedAt receipt \<noteq> None then receipt
      else receipt\<lparr>status := RunError, terminalReason := Some ReasonError,
        statusDetail := Some ''Interrupted by runtime restart'',
        errorMessage := Some ''Runtime restarted before this run completed.'',
        updatedAt := restoredAt, endedAt := Some restoredAt\<rparr>)"

definition terminal_type :: "snapshot \<Rightarrow> string" where
  "terminal_type r =
     (if status r = Complete then ''response.completed''
      else if status r = Cancelled then ''response.cancelled''
      else ''response.failed'')"

definition restore_receipt ::
  "host \<Rightarrow> clock \<Rightarrow> nat \<Rightarrow> run_store \<Rightarrow> snapshot \<Rightarrow> (run_error, nat, run_store) outcome" where
  "restore_receipt H clk n s receipt =
     (let restored = restored_receipt (clk 0) receipt;
          s1 = s\<lparr>receipts := AList.update (runId restored) restored (receipts s)\<rparr>
      in if get_terminal_event s1 (runId restored) \<noteq> None then (Inr n, s1)
         else
           (case append_event H (\<lambda>k. clk (Suc n + k)) s1 (runId restored) (terminal_type restored)
                (Obj ([(''run_id'', Str (js (runId restored))),
                       (''room_id'', Str (js (roomId restored))),
                       (''message'', (case errorMessage restored of
                          Some m \<Rightarrow> Str (js m) | None \<Rightarrow> Undef))] @
                      (if endedAt receipt = None
                       then [(''code'', Str (js ''runtime_restarted''))] else []))) True of
              (Inl e, s2) \<Rightarrow> (Inl e, s2)
            | (Inr _, s2) \<Rightarrow> (Inr (Suc n), s2)))"

fun restore_receipts ::
  "host \<Rightarrow> clock \<Rightarrow> nat \<Rightarrow> run_store \<Rightarrow> snapshot list \<Rightarrow> (run_error, nat, run_store) outcome" where
  "restore_receipts H clk n s [] = (Inr n, s)"
| "restore_receipts H clk n s (r # rs) =
     (case restore_receipt H clk n s r of
        (Inl e, s1) \<Rightarrow> (Inl e, s1)
      | (Inr m, s1) \<Rightarrow> restore_receipts H clk m s1 rs)"

definition settle_journal ::
  "host \<Rightarrow> clock \<Rightarrow> nat \<Rightarrow> run_store \<Rightarrow> string \<Rightarrow> (run_error, nat, run_store) outcome" where
  "settle_journal H clk n s run =
     (let events = journal_of s run in
      if list_ex teTerminal events then (Inr n, s)
      else
        let created = find (\<lambda>e. teType e = ''response.created'') events;
            base = spread_onto [(''run_id'', Str (js run))]
              (case created of Some e \<Rightarrow> object_entries (teData e) | None \<Rightarrow> [])
        in (case append_event H (\<lambda>k. clk (Suc n + k)) s run ''response.failed''
               (Obj (spread_onto base
                  [(''message'', Str (js ''Runtime restarted before this run completed.'')),
                   (''code'', Str (js ''runtime_restarted''))])) True of
              (Inl e, s1) \<Rightarrow> (Inl e, s1)
            | (Inr _, s1) \<Rightarrow> (Inr (Suc n), s1)))"

fun settle_journals ::
  "host \<Rightarrow> clock \<Rightarrow> nat \<Rightarrow> run_store \<Rightarrow> string list \<Rightarrow> (run_error, nat, run_store) outcome" where
  "settle_journals H clk n s [] = (Inr n, s)"
| "settle_journals H clk n s (k # ks) =
     (case settle_journal H clk n s k of
        (Inl e, s1) \<Rightarrow> (Inl e, s1)
      | (Inr m, s1) \<Rightarrow> settle_journals H clk m s1 ks)"

text \<open>
  \<open>loadReceipts\<close> on the parsed content of the file (\<open>Undef\<close> when there is none). The first reading of
  the clock is \<open>restoredAt\<close>; each appended event makes one more.
\<close>

definition load_receipts ::
  "host \<Rightarrow> clock \<Rightarrow> jsval \<Rightarrow> run_store \<Rightarrow> (run_error, unit, run_store) outcome" where
  "load_receipts H clk parsed s =
     (if \<not> hasFile s \<or> \<not> is_record parsed then (Inr (), s)
      else
        (case getp parsed ''receipts'' of
           Arr rs \<Rightarrow>
             (let s1 = restore_journals H (getp parsed ''events'') s;
                  kept = map (hostCastReceipt H)
                    (slice_last max_receipts (filter is_run_receipt_envelope rs))
              in case restore_receipts H clk 0 s1 kept of
                   (Inl e, s2) \<Rightarrow> (Inl e, s2)
                 | (Inr n, s2) \<Rightarrow>
                     (case settle_journals H clk n s2 (map fst (eventJournals s2)) of
                        (Inl e, s3) \<Rightarrow> (Inl e, s3)
                      | (Inr _, s3) \<Rightarrow> flush_persistence H (s3\<lparr>persistenceDirty := True\<rparr>)))
         | _ \<Rightarrow> (Inr (), s)))"

end
