(* ===== verification/RunStoreFacts.thy ===== *)
theory RunStoreFacts
  imports RunStore
begin

text \<open>
  Facts and properties of the receipt store: what trimming keeps, the atomicity of an accepted run,
  the shape of a journal, the bound on journals, the UTF-8 truncation, and recovery after a restart.
\<close>

section \<open>Trimming receipts\<close>

lemma trim_receipts_step:
  "max_receipts < length (receipts s) \<Longrightarrow> find receipt_ended (receipts s) = Some p \<Longrightarrow> fst p \<noteq> [] \<Longrightarrow>
   trim_receipts s = trim_receipts (s\<lparr>receipts := AList.delete (fst p) (receipts s),
     eventJournals := AList.delete (fst p) (eventJournals s)\<rparr>)"
  by (subst trim_receipts.simps) simp

lemma trim_receipts_stop:
  "\<not> max_receipts < length (receipts s) \<or> find receipt_ended (receipts s) = None \<or>
   find receipt_ended (receipts s) = Some p \<and> fst p = [] \<Longrightarrow> trim_receipts s = s"
  by (subst trim_receipts.simps) auto

text \<open>One induction for every fact that holds of the untrimmed store and survives one removal.\<close>

lemma trim_receipts_induct:
  assumes "P s"
    and step: "\<And>s p. P s \<Longrightarrow> p \<in> set (receipts s) \<Longrightarrow> receipt_ended p \<Longrightarrow>
      P (s\<lparr>receipts := AList.delete (fst p) (receipts s),
           eventJournals := AList.delete (fst p) (eventJournals s)\<rparr>)"
  shows "P (trim_receipts s)"
  using assms(1)
proof (induction s rule: trim_receipts.induct)
  case (1 s)
  show ?case
  proof (cases "max_receipts < length (receipts s) \<and>
      (\<exists>p. find receipt_ended (receipts s) = Some p \<and> fst p \<noteq> [])")
    case True
    then obtain p where p: "max_receipts < length (receipts s)"
      "find receipt_ended (receipts s) = Some p" "fst p \<noteq> []" by blast
    then have "p \<in> set (receipts s)" "receipt_ended p" by (auto simp: find_Some_iff)
    with "1.prems" have "P (s\<lparr>receipts := AList.delete (fst p) (receipts s),
           eventJournals := AList.delete (fst p) (eventJournals s)\<rparr>)" by (rule step)
    with "1.IH" p show ?thesis by (simp add: trim_receipts_step)
  next
    case False
    then have "trim_receipts s = s"
      by (subst trim_receipts.simps) (auto split: option.splits)
    with "1.prems" show ?thesis by simp
  qed
qed

lemma trim_receipts_frame [simp]:
  "activeRuns (trim_receipts s) = activeRuns s" "roomIndex (trim_receipts s) = roomIndex s"
  "hasFile (trim_receipts s) = hasFile s" "persistenceTimer (trim_receipts s) = persistenceTimer s"
  "diskFile (trim_receipts s) = diskFile s" "persistenceDirty (trim_receipts s) = persistenceDirty s"
  by (rule trim_receipts_induct; simp)+

lemma trim_receipts_get:
  "map_of (receipts (trim_receipts s)) k = Some r \<Longrightarrow> map_of (receipts s) k = Some r"
  by (rule trim_receipts_induct [where P = "\<lambda>t. map_of (receipts t) k = Some r \<longrightarrow>
        map_of (receipts s) k = Some r", THEN mp]) auto

lemma trim_receipts_wf [simp]: "jm_wf (receipts s) \<Longrightarrow> jm_wf (receipts (trim_receipts s))"
  by (rule trim_receipts_induct [where P = "\<lambda>t. jm_wf (receipts t)"]) auto

lemma trim_receipts_keeps_live:
  assumes "jm_wf (receipts s)" "map_of (receipts s) k = Some r" "endedAt r = None"
  shows "map_of (receipts (trim_receipts s)) k = Some r"
proof -
  have "jm_wf (receipts (trim_receipts s)) \<and> map_of (receipts (trim_receipts s)) k = Some r"
  proof (rule trim_receipts_induct)
    fix t p
    assume t: "jm_wf (receipts t) \<and> map_of (receipts t) k = Some r"
      and p: "p \<in> set (receipts t)" "receipt_ended p"
    then have "map_of (receipts t) (fst p) = Some (snd p)" by (simp add: jm_in_get)
    with t p assms(3) have "fst p \<noteq> k" by (auto simp: receipt_ended_def)
    with t show "jm_wf (receipts (t\<lparr>receipts := AList.delete (fst p) (receipts t),
           eventJournals := AList.delete (fst p) (eventJournals t)\<rparr>)) \<and>
        map_of (receipts (t\<lparr>receipts := AList.delete (fst p) (receipts t),
           eventJournals := AList.delete (fst p) (eventJournals t)\<rparr>)) k = Some r"
      by simp
  qed (use assms in simp)
  then show ?thesis ..
qed

lemma trim_receipts_bound:
  assumes "length (receipts s) \<le> max_receipts \<or>
      length (receipts s) = Suc max_receipts \<and> list_ex receipt_ended (receipts s)"
    and "\<not> jm_has (receipts s) []"
  shows "length (receipts (trim_receipts s)) \<le> max_receipts"
proof (cases "length (receipts s) \<le> max_receipts")
  case True
  then show ?thesis by (simp add: trim_receipts_stop)
next
  case False
  with assms(1) have n: "length (receipts s) = Suc max_receipts" "list_ex receipt_ended (receipts s)"
    by auto
  then obtain p where p: "find receipt_ended (receipts s) = Some p"
    by (cases "find receipt_ended (receipts s)") (auto simp: find_None_iff list_ex_iff)
  then have m: "p \<in> set (receipts s)" by (auto simp: find_Some_iff)
  with assms(2) have "fst p \<noteq> []" by (metis image_eqI jm_has_iff)
  with p n have "trim_receipts s = trim_receipts (s\<lparr>receipts := AList.delete (fst p) (receipts s),
     eventJournals := AList.delete (fst p) (eventJournals s)\<rparr>)"
    by (intro trim_receipts_step) simp_all
  moreover have "length (AList.delete (fst p) (receipts s)) \<le> max_receipts"
    using jm_delete_shorter [OF m] n(1) by simp
  ultimately show ?thesis by (simp add: trim_receipts_stop)
qed

section \<open>Recording a run\<close>

lemma index_room_frame [simp]:
  "activeRuns (index_room s run) = activeRuns s" "receipts (index_room s run) = receipts s"
  "eventJournals (index_room s run) = eventJournals s" "hasFile (index_room s run) = hasFile s"
  "persistenceTimer (index_room s run) = persistenceTimer s"
  "persistenceDirty (index_room s run) = persistenceDirty s" "diskFile (index_room s run) = diskFile s"
  by (simp_all add: index_room_def Let_def)

lemma index_room_get: "map_of (roomIndex (index_room s run)) (roomId run) = Some (sessionId run)"
  by (simp add: index_room_def Let_def)

lemma record_run_frame [simp]:
  "activeRuns (record_run H q run s) = AList.update q run (activeRuns s)"
  "roomIndex (record_run H q run s) = roomIndex (index_room s run)"
  "hasFile (record_run H q run s) = hasFile s"
  "persistenceTimer (record_run H q run s) = persistenceTimer s"
  "diskFile (record_run H q run s) = diskFile s"
  "persistenceDirty (record_run H q run s)"
  by (simp_all add: record_run_def Let_def)

lemma record_run_receipts:
  "receipts (record_run H q run s) =
     receipts (trim_receipts (index_room s run\<lparr>activeRuns := AList.update q run (activeRuns s),
       receipts := AList.update (runId run) (clone_run H run) (receipts s)\<rparr>))"
  by (simp add: record_run_def Let_def)

lemma record_run_get:
  "map_of (receipts (record_run H q run s)) k = Some r \<Longrightarrow>
   (if k = runId run then r = clone_run H run else map_of (receipts s) k = Some r)"
  unfolding record_run_receipts by (drule trim_receipts_get) (auto split: if_splits)

lemma record_run_wf [simp]: "jm_wf (receipts s) \<Longrightarrow> jm_wf (receipts (record_run H q run s))"
  by (simp add: record_run_receipts)

lemma record_run_live:
  assumes "jm_wf (receipts s)"
    and "k = runId run \<and> r = clone_run H run \<or> k \<noteq> runId run \<and> map_of (receipts s) k = Some r"
    and "endedAt r = None"
  shows "map_of (receipts (record_run H q run s)) k = Some r"
  unfolding record_run_receipts using assms by (intro trim_receipts_keeps_live) auto

lemma flush_frame [simp]:
  "activeRuns (snd (flush_persistence H s)) = activeRuns s"
  "receipts (snd (flush_persistence H s)) = receipts s"
  "eventJournals (snd (flush_persistence H s)) = eventJournals s"
  "roomIndex (snd (flush_persistence H s)) = roomIndex s"
  "hasFile (snd (flush_persistence H s)) = hasFile s"
  "\<not> persistenceTimer (snd (flush_persistence H s))"
  by (simp_all add: flush_persistence_def Let_def)

lemma flush_ok: "hostWriteOk H (store_payload s) \<Longrightarrow> fst (flush_persistence H s) = Inr ()"
  by (simp add: flush_persistence_def Let_def store_payload_def)

lemma schedule_frame [simp]:
  "activeRuns (schedule_persistence s) = activeRuns s" "receipts (schedule_persistence s) = receipts s"
  "eventJournals (schedule_persistence s) = eventJournals s"
  "roomIndex (schedule_persistence s) = roomIndex s" "hasFile (schedule_persistence s) = hasFile s"
  "diskFile (schedule_persistence s) = diskFile s"
  "persistenceDirty (schedule_persistence s) = persistenceDirty s"
  by (simp_all add: schedule_persistence_def)

text \<open>The write-behind discipline: a pending timer means there is a file and something to write.\<close>

definition timer_ok :: "run_store \<Rightarrow> bool" where
  "timer_ok s \<longleftrightarrow> (persistenceTimer s \<longrightarrow> hasFile s \<and> persistenceDirty s)"

text \<open>\<open>saveAccepted\<close> is all or nothing: when the write (or the capacity check) throws, the store is
  exactly what it was, and a pending write stays scheduled, so no phantom run is left active.\<close>

theorem save_accepted_atomic:
  assumes "timer_ok s" and "save_accepted H s run = (Inl e, s')"
  shows "s' = s"
proof (cases "store_save H s run")
  case (Pair r t)
  with assms(2) obtain e' where "r = Inl e'" by (cases r) (auto simp: save_accepted_def)
  with Pair assms show ?thesis
    by (auto simp: save_accepted_def store_save_def flush_persistence_def schedule_persistence_def
        timer_ok_def Let_def split: if_splits)
qed

definition sample_host :: "bool \<Rightarrow> host" where
  "sample_host ok = \<lparr>hostParseWallet = Some,
     hostJournalBytes = (\<lambda>j. sum_list (map (\<lambda>e. case teData e of Str t \<Rightarrow> utf8_length t | _ \<Rightarrow> 0) j)),
     hostValueBytes = (\<lambda>v. case getp v ''delta'' of Str t \<Rightarrow> 12 + utf8_length t | _ \<Rightarrow> 2),
     hostToString = (\<lambda>v. []), hostWriteOk = (\<lambda>p. ok),
     hostCastReceipt = (\<lambda>v. trRun (create_run_start_transition sample_clock sample_input)),
     hostCastEvent = (\<lambda>v. \<lparr>teId = 1, teRunId = ''run1'', teType = ''response.created'', teData = Null,
        teCreatedAt = 0, teTerminal = False\<rparr>)\<rparr>"

definition sample_run :: snapshot where
  "sample_run = trRun (create_run_start_transition sample_clock sample_input)"

lemma sample_run_simps [simp]:
  "runId sample_run = ''run1''" "sessionId sample_run = ''s1''" "roomId sample_run = ''room1''"
  "endedAt sample_run = None" "status sample_run = Thinking" "walletActivities sample_run = None"
  by (simp_all add: sample_run_def create_run_start_transition_def sample_input_def Let_def)

theorem save_accepted_atomic_witness:
  "fst (save_accepted (sample_host False) (empty_store True) sample_run) = Inl WriteFailed \<and>
   snd (save_accepted (sample_host False) (empty_store True) sample_run) = empty_store True"
proof -
  have "hasFile (record_run (sample_host False) ''s1'' sample_run (empty_store True))"
    by (simp add: empty_store_def)
  then have f: "fst (save_accepted (sample_host False) (empty_store True) sample_run) = Inl WriteFailed"
    by (simp add: save_accepted_def store_save_def flush_persistence_def Let_def sample_host_def)
      (simp add: empty_store_def max_receipts_def)
  have "timer_ok (empty_store True)" by (simp add: timer_ok_def empty_store_def)
  from save_accepted_atomic [OF this, of "sample_host False" sample_run WriteFailed] f
  show ?thesis by (metis prod.collapse)
qed

text \<open>Storing a run keeps the receipts within their capacity by evicting finished history only:
  the receipt of every other run that is still live stays, and a store full of live runs refuses.\<close>

theorem receipts_bounded:
  assumes "store_save H s run = (res, s')" and "length (receipts s) \<le> max_receipts"
    and "jm_wf (receipts s)" and "\<not> jm_has (receipts s) []" and "runId run \<noteq> []"
  shows "length (receipts s') \<le> max_receipts \<and>
    (\<forall>k r. map_of (receipts s) k = Some r \<and> endedAt r = None \<and> k \<noteq> runId run \<longrightarrow>
       map_of (receipts s') k = Some r) \<and>
    (res = Inl ReceiptCapacityFull \<longleftrightarrow> \<not> jm_has (receipts s) (runId run) \<and>
       length (receipts s) = max_receipts \<and> \<not> list_ex receipt_ended (receipts s))"
proof (cases "\<not> jm_has (receipts s) (runId run) \<and> max_receipts \<le> length (receipts s) \<and>
    \<not> list_ex receipt_ended (receipts s)")
  case True
  with assms show ?thesis by (auto simp: store_save_def)
next
  case False
  with assms(1) have f: "flush_persistence H (record_run H (sessionId run) run s) = (res, s')"
    unfolding store_save_def by presburger
  then have s': "receipts s' = receipts (record_run H (sessionId run) run s)"
    by (metis flush_frame(2) snd_conv)
  have e: "res \<noteq> Inl ReceiptCapacityFull"
    using f by (auto simp: flush_persistence_def Let_def split: if_splits)
  let ?t = "index_room s run\<lparr>activeRuns := AList.update (sessionId run) run (activeRuns s),
       receipts := AList.update (runId run) (clone_run H run) (receipts s)\<rparr>"
  have h: "\<not> jm_has (receipts ?t) []" using assms(4,5) by (simp add: jm_has_def)
  have l: "length (receipts ?t) \<le> max_receipts \<or>
      length (receipts ?t) = Suc max_receipts \<and> list_ex receipt_ended (receipts ?t)"
  proof (cases "jm_has (receipts s) (runId run) \<or> length (receipts s) < max_receipts")
    case True
    with assms(2) show ?thesis by (auto simp: jm_length_update)
  next
    case c: False
    with False obtain p where p: "p \<in> set (receipts s)" "receipt_ended p" by (auto simp: list_ex_iff)
    from c have "AList.update (runId run) (clone_run H run) (receipts s) =
        receipts s @ [(runId run, clone_run H run)]"
      by (intro jm_update_absent) (simp add: jm_has_def)
    with c p assms(2) show ?thesis by (auto simp: list_ex_iff)
  qed
  have "length (receipts s') \<le> max_receipts"
    using trim_receipts_bound [OF l h] by (simp add: s' record_run_receipts)
  moreover have "map_of (receipts s') k = Some r"
    if "map_of (receipts s) k = Some r" "endedAt r = None" "k \<noteq> runId run" for k r
    using that assms(3) unfolding s' by (intro record_run_live) auto
  ultimately show ?thesis using e False assms(2) by (metis le_refl)
qed

theorem receipts_bounded_witness:
  "length (receipts (snd (store_save (sample_host True) (empty_store True) sample_run))) \<le> 1024"
proof -
  have "jm_wf (receipts (empty_store True))" "\<not> jm_has (receipts (empty_store True)) []"
    "length (receipts (empty_store True)) \<le> max_receipts"
    by (simp_all add: empty_store_def jm_has_def)
  from receipts_bounded [OF _ this(3,1,2), where H = "sample_host True" and run = sample_run]
  show ?thesis by (simp add: max_receipts_def prod_eq_iff)
qed

section \<open>Journals\<close>

text \<open>
  A journal is well formed when identifiers grow along it and only its last event can be terminal.
  Both are one order between any two of its events.
\<close>

definition before :: "task_event \<Rightarrow> task_event \<Rightarrow> bool" where
  "before a b \<longleftrightarrow> teId a < teId b \<and> \<not> teTerminal a"

definition journal_wf :: "task_event list \<Rightarrow> bool" where
  "journal_wf j \<longleftrightarrow> sorted_wrt before j \<and> (\<forall>e \<in> set j. 0 < teId e)"

lemma journal_wf_Nil [simp]: "journal_wf []"
  by (simp add: journal_wf_def)

lemma journal_wf_snoc:
  assumes "journal_wf j" "find teTerminal j = None"
    and "teId e = (if j = [] then 0 else teId (last j)) + 1"
  shows "journal_wf (j @ [e])"
proof (cases j rule: rev_cases)
  case Nil
  with assms show ?thesis by (simp add: journal_wf_def)
next
  case (snoc k l)
  with assms have "before a e" if "a \<in> set j" for a
    using that by (auto simp: journal_wf_def before_def sorted_wrt_append find_None_iff)
  with snoc assms show ?thesis
    by (auto simp: journal_wf_def sorted_wrt_append)
qed

lemma journal_wf_subseq: "subseq k j \<Longrightarrow> journal_wf j \<Longrightarrow> journal_wf k"
  using subseq_sorted_wrt subseq_set unfolding journal_wf_def by blast

lemma trim_journal_subseq: "subseq (trim_journal H j) j"
  unfolding trim_journal_def by (meson trim_while_subseq subseq_order.order_trans)

lemma trim_journal_terminal: "filter teTerminal (trim_journal H j) = filter teTerminal j"
proof -
  have "filter teTerminal (trim_while over (\<lambda>e. \<not> teTerminal e) k) = filter teTerminal k" for over k
    using trim_while_filter [of "\<lambda>e. \<not> teTerminal e" over k] by simp
  then show ?thesis unfolding trim_journal_def by metis
qed

lemma journal_terminal_unique:
  assumes "journal_wf j" "e \<in> set j" "f \<in> set j" "teTerminal e" "teTerminal f"
  shows "e = f"
proof -
  from assms(2,3) obtain i k where "i < length j" "j ! i = e" "k < length j" "j ! k = f"
    by (auto simp: in_set_conv_nth)
  with assms(1,4,5) show ?thesis
    unfolding journal_wf_def sorted_wrt_iff_nth_less before_def by (metis nat_neq_iff)
qed

lemma next_event_simps [simp]:
  "teTerminal (next_event H clk j run type data terminal) = terminal"
  "teId (next_event H clk j run type data terminal) = (if j = [] then 0 else teId (last j)) + 1"
  "teRunId (next_event H clk j run type data terminal) = run"
  by (simp_all add: next_event_def)

lemma append_event_late:
  "get_terminal_event s run = Some e \<Longrightarrow>
   append_event H clk s run type data terminal = (Inr (e, False), s)"
  by (simp add: append_event_def get_terminal_event_def Let_def)

lemma append_event_new:
  assumes "get_terminal_event s run = None"
    and "e = next_event H clk (journal_of s run) run type data terminal"
  shows "eventJournals (snd (append_event H clk s run type data terminal)) =
      AList.update run (trim_journal H (journal_of s run @ [e])) (eventJournals s)"
    and "fst (append_event H clk s run type data terminal) = Inr (e, True) \<or>
      terminal \<and> fst (append_event H clk s run type data terminal) = Inl WriteFailed"
  using assms
  by (auto simp: append_event_def get_terminal_event_def flush_persistence_def Let_def)

lemma append_event_frame [simp]:
  "receipts (snd (append_event H clk s run type data terminal)) = receipts s"
  "activeRuns (snd (append_event H clk s run type data terminal)) = activeRuns s"
  "roomIndex (snd (append_event H clk s run type data terminal)) = roomIndex s"
  "hasFile (snd (append_event H clk s run type data terminal)) = hasFile s"
  by (auto simp: append_event_def flush_persistence_def Let_def split: option.splits)

lemma journal_of_append:
  "journal_of (snd (append_event H clk s run type data terminal)) k =
     (if k = run \<and> get_terminal_event s run = None
      then trim_journal H (journal_of s run @ [next_event H clk (journal_of s run) run type data terminal])
      else journal_of s k)"
proof (cases "get_terminal_event s run")
  case None
  then show ?thesis by (simp add: journal_of_def append_event_new(1) [OF None refl])
next
  case (Some e)
  then show ?thesis by (simp add: append_event_late [OF Some])
qed

lemma journal_wf_of:
  "(\<And>k j. map_of (eventJournals s) k = Some j \<Longrightarrow> journal_wf j) \<Longrightarrow> journal_wf (journal_of s k)"
  by (simp add: journal_of_def split: option.splits)

lemma journal_wf_append:
  assumes "journal_wf (journal_of s run)"
  shows "journal_wf (journal_of (snd (append_event H clk s run type data terminal)) run)"
proof (cases "get_terminal_event s run")
  case None
  then have "journal_wf (journal_of s run @ [next_event H clk (journal_of s run) run type data terminal])"
    using assms by (intro journal_wf_snoc) (simp_all add: get_terminal_event_def)
  with None show ?thesis
    by (simp add: journal_of_append journal_wf_subseq [OF trim_journal_subseq])
next
  case (Some e)
  with assms show ?thesis by (simp add: journal_of_append)
qed

lemma terminal_after_append:
  "get_terminal_event (snd (append_event H clk s run type data True)) run \<noteq> None"
proof (cases "get_terminal_event s run")
  case None
  have "filter teTerminal (trim_journal H (j @ [next_event H clk j run type data True])) \<noteq> []" for j
    by (simp add: trim_journal_terminal)
  with None show ?thesis
    by (simp add: get_terminal_event_def journal_of_append find_None_iff filter_empty_conv)
      (metis get_terminal_event_def None)
next
  case (Some e)
  then show ?thesis by (simp add: append_event_late)
qed

lemma terminal_kept_by_append:
  "get_terminal_event s k = Some e \<Longrightarrow>
   get_terminal_event (snd (append_event H clk s run type data terminal)) k = Some e"
  by (auto simp: get_terminal_event_def journal_of_append)

text \<open>Appending keeps the journal well formed (identifiers grow, at most the last event is
  terminal), leaves a terminal event in place, and appends nothing after one: a late append gets
  the recorded terminal event back.\<close>

theorem append_event_journal:
  assumes "journal_wf (journal_of s run)"
    and "append_event H clk s run type data terminal = (res, s')"
  shows "journal_wf (journal_of s' run) \<and>
    (\<forall>e. get_terminal_event s run = Some e \<longrightarrow> res = Inr (e, False) \<and> s' = s) \<and>
    (terminal \<longrightarrow> get_terminal_event s' run \<noteq> None) \<and>
    (\<forall>k. k \<noteq> run \<longrightarrow> journal_of s' k = journal_of s k)"
proof -
  have s': "s' = snd (append_event H clk s run type data terminal)" by (simp add: assms(2))
  have "journal_wf (journal_of s' run)" unfolding s' by (rule journal_wf_append [OF assms(1)])
  moreover have "terminal \<longrightarrow> get_terminal_event s' run \<noteq> None"
    unfolding s' by (auto simp: terminal_after_append)
  moreover have "\<forall>e. get_terminal_event s run = Some e \<longrightarrow> res = Inr (e, False) \<and> s' = s"
    using assms(2) by (auto simp: append_event_late)
  moreover have "\<forall>k. k \<noteq> run \<longrightarrow> journal_of s' k = journal_of s k"
    unfolding s' by (simp add: journal_of_append)
  ultimately show ?thesis by blast
qed

theorem append_event_journal_witness:
  "journal_wf (journal_of (snd (append_event (sample_host True) sample_clock
      (empty_store True) ''run1'' ''response.completed'' Null True)) ''run1'') \<and>
   get_terminal_event (snd (append_event (sample_host True) sample_clock
      (empty_store True) ''run1'' ''response.completed'' Null True)) ''run1'' \<noteq> None"
proof -
  have "journal_wf (journal_of (empty_store True) ''run1'')" by (simp add: empty_store_def journal_of_def)
  note w = append_event_journal [OF this surjective_pairing, where H = "sample_host True"
      and clk = sample_clock and type = "''response.completed''" and data = Null and terminal = True]
  then show ?thesis by simp
qed

section \<open>The bounds on a journal\<close>

lemma journal_all_terminal: "journal_wf j \<Longrightarrow> \<forall>e \<in> set j. teTerminal e \<Longrightarrow> length j \<le> 1"
  by (cases j rule: remdups_adj.cases) (auto simp: journal_wf_def before_def)

lemma trim_while_keeps_last:
  "\<not> over [e] \<Longrightarrow> \<forall>x \<in> set xs. P x \<Longrightarrow> \<exists>ys. trim_while over P (xs @ [e]) = ys @ [e]"
proof (induction xs)
  case (Cons x xs)
  show ?case
  proof (cases "over ((x # xs) @ [e])")
    case True
    with Cons.prems have "trim_while over P ((x # xs) @ [e]) = trim_while over P (xs @ [e])"
      by (subst trim_while.simps) simp
    with Cons show ?thesis by simp
  next
    case False
    then show ?thesis by (metis trim_while_id)
  qed
qed simp

lemma trim_journal_keeps_last:
  assumes "hostJournalBytes H [e] \<le> max_journal_bytes" "\<forall>x \<in> set j. \<not> teTerminal x"
  shows "\<exists>k. trim_journal H (j @ [e]) = k @ [e]"
proof -
  let ?n = "trim_while (\<lambda>k. max_events_per_run < length k) (\<lambda>e. \<not> teTerminal e) (j @ [e])"
  obtain k where k: "?n = k @ [e]"
    using trim_while_keeps_last [of "\<lambda>k. max_events_per_run < length k" e j "\<lambda>e. \<not> teTerminal e"]
      assms(2) by (auto simp: max_events_per_run_def)
  have "subseq (k @ [e]) (j @ [e])"
    using trim_while_subseq [of "\<lambda>k. max_events_per_run < length k" "\<lambda>e. \<not> teTerminal e" "j @ [e]"]
    by (simp only: k)
  then have "subseq k j" by (simp only: subseq_append)
  then have "set k \<subseteq> set j" by (rule subseq_set)
  with assms show ?thesis
    unfolding trim_journal_def k by (intro trim_while_keeps_last) auto
qed

text \<open>A journal never holds more than 1500 events, and never more than 512 KiB of JSON unless a
  single terminal event alone is larger.\<close>

theorem journal_bounds:
  assumes "journal_wf j"
  shows "length (trim_journal H j) \<le> 1500 \<and>
    (hostJournalBytes H (trim_journal H j) \<le> 524288 \<or>
     length (trim_journal H j) \<le> 1 \<and> (\<forall>e \<in> set (trim_journal H j). teTerminal e))"
proof -
  let ?n = "trim_while (\<lambda>k. max_events_per_run < length k) (\<lambda>e. \<not> teTerminal e) j"
  have wf: "journal_wf ?n" using assms by (rule journal_wf_subseq [OF trim_while_subseq])
  have "\<not> max_events_per_run < length ?n \<or> length ?n \<le> 1"
    using trim_while_stop [of "\<lambda>k. max_events_per_run < length k" "\<lambda>e. \<not> teTerminal e" j]
      journal_all_terminal [OF wf] by meson
  then have "length ?n \<le> max_events_per_run" by (auto simp: max_events_per_run_def)
  moreover have "length (trim_journal H j) \<le> length ?n"
    unfolding trim_journal_def by (rule list_emb_length [OF trim_while_subseq])
  moreover have "hostJournalBytes H (trim_journal H j) \<le> max_journal_bytes \<or>
      (\<forall>e \<in> set (trim_journal H j). teTerminal e)"
    using trim_while_stop [of "\<lambda>k. max_journal_bytes < hostJournalBytes H k"
        "\<lambda>e. \<not> teTerminal e" ?n] unfolding trim_journal_def by (simp add: not_less)
  moreover have "journal_wf (trim_journal H j)"
    using assms by (rule journal_wf_subseq [OF trim_journal_subseq])
  ultimately show ?thesis
    using journal_all_terminal [of "trim_journal H j"]
    by (fastforce simp: max_events_per_run_def max_journal_bytes_def)
qed

definition sample_event :: "int \<Rightarrow> jstr \<Rightarrow> task_event" where
  "sample_event i t = \<lparr>teId = i, teRunId = ''run1'', teType = ''response.output_item'', teData = Str t,
     teCreatedAt = i, teTerminal = False\<rparr>"

lemma sample_event_simps [simp]:
  "teId (sample_event i t) = i" "\<not> teTerminal (sample_event i t)" "teData (sample_event i t) = Str t"
  by (simp_all add: sample_event_def)

theorem journal_bounds_witness:
  "length (trim_journal (sample_host True) [sample_event 1 [65], sample_event 2 [66]]) \<le> 1500"
proof -
  have "journal_wf [sample_event 1 [65], sample_event 2 [66]]"
    by (simp add: journal_wf_def before_def)
  from journal_bounds [OF this] show ?thesis by blast
qed

text \<open>An event that fits the byte budget by itself is in the journal after it is appended, and
  its identifier is larger than that of every recorded event, so a cursor never skips it.\<close>

theorem append_event_readable:
  assumes "journal_wf (journal_of s run)" and "get_terminal_event s run = None"
    and "append_event H clk s run type data terminal = (Inr (e, True), s')"
    and "hostJournalBytes H [e] \<le> max_journal_bytes"
    and "after < teId e"
  shows "e \<in> set (list_events s' run after) \<and> (\<forall>x \<in> set (journal_of s run). teId x < teId e)"
proof -
  have e: "e = next_event H clk (journal_of s run) run type data terminal"
    using append_event_new(2) [OF assms(2) refl, of H clk type data terminal] assms(3) by auto
  have n: "\<forall>x \<in> set (journal_of s run). \<not> teTerminal x"
    using assms(2) by (simp add: get_terminal_event_def find_None_iff)
  have "journal_of s' run = trim_journal H (journal_of s run @ [e])"
    using journal_of_append [of H clk s run type data terminal run] assms(2,3) e by simp
  moreover obtain k where "trim_journal H (journal_of s run @ [e]) = k @ [e]"
    using trim_journal_keeps_last [OF assms(4) n] by blast
  moreover have "journal_wf (journal_of s run @ [e])"
    using assms(1,2) by (intro journal_wf_snoc) (simp_all add: e get_terminal_event_def)
  ultimately show ?thesis
    using assms(5) by (auto simp: list_events_def journal_wf_def sorted_wrt_append before_def)
qed

theorem append_event_readable_witness:
  "fst (append_event (sample_host True) sample_clock (empty_store True) ''run1'' ''response.output_item''
      Null False) = Inr (next_event (sample_host True) sample_clock [] ''run1'' ''response.output_item'' Null False, True) \<and>
   next_event (sample_host True) sample_clock [] ''run1'' ''response.output_item'' Null False \<in>
     set (list_events (snd (append_event (sample_host True) sample_clock (empty_store True)
       ''run1'' ''response.output_item'' Null False)) ''run1'' 0)"
proof -
  let ?e = "next_event (sample_host True) sample_clock [] ''run1'' ''response.output_item'' Null False"
  let ?r = "append_event (sample_host True) sample_clock (empty_store True) ''run1''
    ''response.output_item'' Null False"
  have j: "journal_of (empty_store True) ''run1'' = []" by (simp add: empty_store_def journal_of_def)
  have f: "fst ?r = Inr (?e, True)" by (simp add: append_event_def j Let_def)
  have b: "hostJournalBytes (sample_host True) [?e] \<le> max_journal_bytes"
    by (simp add: sample_host_def next_event_def normalize_event_data_def)
  have r: "?r = (Inr (?e, True), snd ?r)" using f by (metis prod.collapse)
  have "?e \<in> set (list_events (snd ?r) ''run1'' 0)"
    using append_event_readable [where after = 0, OF _ _ r b] j by (simp add: get_terminal_event_def)
  with f show ?thesis by blast
qed

section \<open>An event larger than the whole budget\<close>

lemma trim_while_empties:
  "\<forall>x \<in> set xs. P x \<Longrightarrow> (\<And>ys. ys \<noteq> [] \<Longrightarrow> suffix ys xs \<Longrightarrow> over ys) \<Longrightarrow> trim_while over P xs = []"
proof (induction xs)
  case Nil
  show ?case by (subst trim_while.simps) simp
next
  case (Cons x xs)
  then have "over (x # xs)" by simp
  with Cons.prems(1) have "trim_while over P (x # xs) = trim_while over P xs"
    by (subst trim_while.simps) simp
  with Cons show ?case by (simp add: suffix_Cons)
qed

lemma trim_journal_empties:
  assumes "\<forall>x \<in> set (j @ [e]). \<not> teTerminal x"
    and "\<And>k. e \<in> set k \<Longrightarrow> max_journal_bytes < hostJournalBytes H k"
  shows "trim_journal H (j @ [e]) = []"
proof -
  let ?n = "trim_while (\<lambda>k. max_events_per_run < length k) (\<lambda>e. \<not> teTerminal e) (j @ [e])"
  obtain k where k: "?n = k @ [e]"
    using trim_while_keeps_last [of "\<lambda>k. max_events_per_run < length k" e j "\<lambda>e. \<not> teTerminal e"]
      assms(1) by (auto simp: max_events_per_run_def)
  have all: "\<forall>x \<in> set (k @ [e]). \<not> teTerminal x"
    using assms(1) trim_while_set [of _ _ "j @ [e]"] k by (metis subsetD)
  have "e \<in> set ys" if "ys \<noteq> []" "suffix ys (k @ [e])" for ys
    using that by (cases ys rule: rev_cases) (auto simp: suffix_def)
  then show ?thesis
    unfolding trim_journal_def k using all by (intro trim_while_empties) (auto intro: assms(2))
qed

text \<open>A non-terminal event that alone is larger than the byte budget wipes the whole journal of its
  run, itself included; the next event is numbered 1 again, so a reader whose cursor is at 1 or
  later is not shown it.\<close>

theorem oversized_event_empties_journal:
  assumes "get_terminal_event s run = None"
    and "e = next_event H clk (journal_of s run) run type data False"
    and "\<And>k. e \<in> set k \<Longrightarrow> max_journal_bytes < hostJournalBytes H k"
    and "append_event H clk s run type data False = (res, s1)"
    and "append_event H clk' s1 run type' data' terminal = (Inr (f, True), s2)"
    and "1 \<le> cursor"
  shows "res = Inr (e, True) \<and> journal_of s1 run = [] \<and> teId f = 1 \<and> list_events s2 run cursor = []"
proof -
  have "\<forall>x \<in> set (journal_of s run @ [e]). \<not> teTerminal x"
    using assms(1,2) by (auto simp: get_terminal_event_def find_None_iff)
  then have t: "trim_journal H (journal_of s run @ [e]) = []"
    by (rule trim_journal_empties) (rule assms(3))
  then have j: "journal_of s1 run = []"
    using journal_of_append [of H clk s run type data False run] assms(1,2,4) by simp
  then have n: "get_terminal_event s1 run = None" by (simp add: get_terminal_event_def)
  have f: "f = next_event H clk' [] run type' data' terminal"
    using append_event_new(2) [OF n refl, of H clk' type' data' terminal] assms(5) j by auto
  have "journal_of s2 run = trim_journal H [f]"
    using journal_of_append [of H clk' s1 run type' data' terminal run] assms(5) n j f by simp
  then have "set (journal_of s2 run) \<subseteq> {f}"
    using trim_journal_subseq [of H "[f]"] subseq_set by fastforce
  moreover have "res = Inr (e, True)"
    using append_event_new(2) [OF assms(1) assms(2)] assms(4) by simp
  moreover have "teId f = 1" by (simp add: f)
  ultimately show ?thesis using j assms(6) by (auto simp: list_events_def filter_empty_conv)
qed

lemma sample_host_large:
  assumes "e \<in> set k" and "teData e = Str (replicate 600000 65)"
  shows "max_journal_bytes < hostJournalBytes (sample_host True) k"
proof -
  let ?f = "\<lambda>e. case teData e of Str t \<Rightarrow> utf8_length t | _ \<Rightarrow> 0"
  have "?f e \<le> sum_list (map ?f k)" using assms(1) by (intro member_le_sum_list) auto
  moreover have "?f e = 600000" using assms(2) utf8_length_ascii [of "replicate 600000 65"] by simp
  ultimately show ?thesis by (simp add: sample_host_def max_journal_bytes_def)
qed

theorem oversized_event_empties_journal_witness:
  "\<exists>s1 s2 f. append_event (sample_host True) sample_clock (empty_store True) ''run1''
       ''response.output_item'' (Str (replicate 600000 65)) False =
       (Inr (next_event (sample_host True) sample_clock [] ''run1'' ''response.output_item''
          (Str (replicate 600000 65)) False, True), s1) \<and>
     append_event (sample_host True) sample_clock s1 ''run1'' ''response.output_item'' Null False = (Inr (f, True), s2) \<and>
     list_events s2 ''run1'' 1 = []"
proof -
  define d where "d = Str (replicate 600000 65)"
  define e where "e = next_event (sample_host True) sample_clock [] ''run1'' ''response.output_item'' d False"
  obtain res s1 where a: "append_event (sample_host True) sample_clock (empty_store True) ''run1''
      ''response.output_item'' d False = (res, s1)" by fastforce
  have j: "journal_of (empty_store True) ''run1'' = []" by (simp add: empty_store_def journal_of_def)
  then have n: "get_terminal_event (empty_store True) ''run1'' = None" by (simp add: get_terminal_event_def)
  have big: "max_journal_bytes < hostJournalBytes (sample_host True) k" if "e \<in> set k" for k
    using sample_host_large [OF that] by (simp add: e_def next_event_def normalize_event_data_def d_def)
  have "journal_of s1 ''run1'' = trim_journal (sample_host True) [e]"
    using journal_of_append [of "sample_host True" sample_clock "empty_store True" "''run1''"
      "''response.output_item''" d False "''run1''"] a n j by (simp add: e_def)
  then have "set (journal_of s1 ''run1'') \<subseteq> {e}"
    using subseq_set [OF trim_journal_subseq, of "sample_host True" "[e]"] by simp
  moreover have "\<not> teTerminal e" by (simp add: e_def)
  ultimately have n1: "get_terminal_event s1 ''run1'' = None"
    by (auto simp: get_terminal_event_def find_None_iff)
  obtain f s2 where b: "append_event (sample_host True) sample_clock s1 ''run1''
      ''response.output_item'' Null False = (Inr (f, True), s2)"
    using append_event_new(2) [OF n1 refl, of "sample_host True" sample_clock "''response.output_item''" Null False]
    by (metis prod.collapse)
  have "res = Inr (e, True) \<and> journal_of s1 ''run1'' = [] \<and> teId f = 1 \<and> list_events s2 ''run1'' 1 = []"
    by (rule oversized_event_empties_journal [OF n _ big a b]) (simp_all add: j e_def)
  with a b show ?thesis unfolding e_def d_def by blast
qed

end
