(* ===== verification/RunRestart.thy ===== *)
theory RunRestart
  imports RunStoreFacts
begin

text \<open>
  More of \<open>services/run-controller/store.ts\<close>: the text bound \<open>truncateUtf8\<close>, the room index, and the
  recovery of receipts and journals when the runtime starts again.
\<close>

section \<open>Truncating text to a byte budget\<close>

lemma truncate_search_spec:
  assumes "low \<le> high" "high \<le> length v" "utf8_length (take low v) \<le> n"
    and "\<forall>k. high < k \<and> k \<le> length v \<longrightarrow> n < utf8_length (take k v)"
  shows "truncate_search v n low high \<le> length v \<and>
    utf8_length (take (truncate_search v n low high) v) \<le> n \<and>
    (\<forall>k. truncate_search v n low high < k \<and> k \<le> length v \<longrightarrow> n < utf8_length (take k v))"
  using assms
proof (induction v n low high rule: truncate_search.induct)
  case (1 v n low high)
  show ?case
  proof (cases "low < high")
    case True
    define mid where "mid = (low + high + 1) div 2"
    have mid: "low < mid" "mid \<le> high" using True by (auto simp: mid_def)
    show ?thesis
    proof (cases "utf8_length (take mid v) \<le> n")
      case fits: True
      with True have "truncate_search v n low high = truncate_search v n mid high"
        by (subst truncate_search.simps) (simp add: mid_def Let_def)
      moreover note "1.IH"(1) [OF True mid_def fits] "1.prems" mid fits
      ultimately show ?thesis by simp
    next
      case False
      with True have "truncate_search v n low high = truncate_search v n low (mid - 1)"
        by (subst truncate_search.simps) (simp add: mid_def Let_def)
      moreover have "\<forall>k. mid - 1 < k \<and> k \<le> length v \<longrightarrow> n < utf8_length (take k v)"
        using False utf8_length_take_mono [of mid _ v] by (metis Suc_pred' less_Suc_eq_le less_le_trans mid(1) not_le not_less_eq not_less_zero zero_less_iff_neq_zero)
      moreover note "1.IH"(2) [OF True mid_def False] "1.prems" mid
      ultimately show ?thesis by simp
    qed
  next
    case False
    with "1.prems" show ?thesis by (subst truncate_search.simps, simp)+
  qed
qed

text \<open>Truncating a text to a byte budget gives its longest prefix within the budget.\<close>

theorem truncate_utf8_longest:
  "utf8_length (truncate_utf8 v n) \<le> n \<and> prefix (truncate_utf8 v n) v \<and>
   (\<forall>p. prefix p v \<longrightarrow> utf8_length p \<le> n \<longrightarrow> prefix p (truncate_utf8 v n))"
proof (cases "utf8_length v \<le> n")
  case True
  then show ?thesis by (simp add: truncate_utf8_def)
next
  case False
  define k where "k = truncate_search v n 0 (length v)"
  have t: "truncate_utf8 v n = take k v" using False by (simp add: truncate_utf8_def k_def)
  note spec = truncate_search_spec [of 0 "length v" v n, folded k_def]
  have fits: "utf8_length (take k v) \<le> n" using spec by simp
  have over: "n < utf8_length (take j v)" if "k < j" "j \<le> length v" for j using spec that by simp
  have "prefix p (take k v)" if p: "prefix p v" "utf8_length p \<le> n" for p
  proof -
    from p(1) have e: "p = take (length p) v" "length p \<le> length v"
      by (auto simp: prefix_def)
    with over [of "length p"] p(2) have "length p \<le> k" by (metis not_le)
    with e show ?thesis by (metis min.absorb1 take_is_prefix take_take)
  qed
  with fits t show ?thesis by (simp add: take_is_prefix)
qed

lemmas utf8_evaluation = unit_bytes_def high_surrogate_def low_surrogate_def

theorem truncate_utf8_longest_witness:
  "truncate_utf8 [97, 233, 98] 3 = [97, 233] \<and> prefix [97] (truncate_utf8 [97, 233, 98] 3)"
proof -
  let ?v = "[97, 233, 98] :: jstr"
  have "truncate_search ?v 3 0 (length ?v) = truncate_search ?v 3 0 3" by (simp add: numeral_3_eq_3)
  also have "\<dots> = truncate_search ?v 3 2 3"
    by (subst truncate_search.simps) (simp add: Let_def utf8_evaluation)
  also have "\<dots> = truncate_search ?v 3 2 2"
    by (subst truncate_search.simps) (simp add: Let_def utf8_evaluation)
  also have "\<dots> = 2" by (subst truncate_search.simps) simp
  finally have "truncate_utf8 ?v 3 = [97, 233]"
    by (simp add: truncate_utf8_def utf8_evaluation)
  moreover have "utf8_length [97] \<le> 3" by (simp add: utf8_evaluation)
  then have "prefix [97] (truncate_utf8 ?v 3)"
    by (intro truncate_utf8_longest [THEN conjunct2, THEN conjunct2, rule_format]) simp_all
  ultimately show ?thesis by simp
qed

section \<open>The room index\<close>

definition rooms_sound :: "run_store \<Rightarrow> bool" where
  "rooms_sound s = (\<forall>room q. map_of (roomIndex s) room = Some q \<longrightarrow>
     (\<exists>r. map_of (activeRuns s) q = Some r \<and> roomId r = room))"

lemma rooms_sound_frame:
  "roomIndex s = roomIndex t \<Longrightarrow> activeRuns s = activeRuns t \<Longrightarrow> rooms_sound s = rooms_sound t"
  by (simp add: rooms_sound_def)

lemma index_room_other:
  "room \<noteq> roomId run \<Longrightarrow> map_of (roomIndex (index_room s run)) room =
     (case map_of (activeRuns s) (sessionId run) of
        Some previous \<Rightarrow> if room = roomId previous \<and> map_of (roomIndex s) room = Some (sessionId run)
                          then None else map_of (roomIndex s) room
      | None \<Rightarrow> map_of (roomIndex s) room)"
  by (auto simp: index_room_def Let_def split: option.splits)

lemma record_run_rooms:
  "roomIndex (record_run H q run s) = roomIndex (index_room s run)"
  "activeRuns (record_run H q run s) = AList.update q run (activeRuns s)"
  by (simp_all add: record_run_def Let_def)

lemma record_run_rooms_sound:
  assumes "rooms_sound s"
  shows "rooms_sound (record_run H (sessionId run) run s)"
  unfolding rooms_sound_def record_run_rooms
proof (intro allI impI)
  fix room q assume q: "map_of (roomIndex (index_room s run)) room = Some q"
  show "\<exists>r. map_of (AList.update (sessionId run) run (activeRuns s)) q = Some r \<and> roomId r = room"
  proof (cases "room = roomId run")
    case True
    with q show ?thesis by (simp add: index_room_get)
  next
    case False
    with q have "map_of (roomIndex s) room = Some q"
      by (auto simp: index_room_other split: option.splits if_splits)
    moreover from this assms obtain r where r: "map_of (activeRuns s) q = Some r" "roomId r = room"
      unfolding rooms_sound_def by blast
    ultimately have "q \<noteq> sessionId run" using q False by (auto simp: index_room_other)
    with r show ?thesis by simp
  qed
qed

text \<open>The room index leads only to a session whose active run is in that room; saving a run keeps
  this, makes the run the one found by its room, and withdraws the room the session left.\<close>

theorem save_keeps_rooms_sound:
  assumes "rooms_sound s" and "store_save H s run = (Inr (), s')" and "sessionId run \<noteq> []"
  shows "rooms_sound s' \<and> get_by_room H s' (roomId run) = Some (clone_run H run) \<and>
    (\<forall>previous. get_internal s (sessionId run) = Some previous \<and> roomId previous \<noteq> roomId run \<longrightarrow>
      get_session_by_room s' (roomId previous) \<noteq> Some (sessionId run))"
proof -
  have s': "s' = snd (flush_persistence H (record_run H (sessionId run) run s))"
    using assms(2) by (simp add: store_save_def split: if_splits)
  have r: "roomIndex s' = roomIndex (index_room s run)"
    "activeRuns s' = AList.update (sessionId run) run (activeRuns s)"
    unfolding s' by (simp_all only: flush_frame record_run_rooms)
  have "rooms_sound s'"
    using record_run_rooms_sound [OF assms(1), of H run] r
    by (simp only: rooms_sound_def record_run_rooms)
  moreover have "get_by_room H s' (roomId run) = Some (clone_run H run)"
    using assms(3) by (simp add: get_by_room_def store_get_def r index_room_get)
  moreover have "get_session_by_room s' (roomId previous) \<noteq> Some (sessionId run)"
    if "get_internal s (sessionId run) = Some previous" "roomId previous \<noteq> roomId run" for previous
    using that by (simp add: get_session_by_room_def get_internal_def r index_room_other)
  ultimately show ?thesis by blast
qed

theorem save_keeps_rooms_sound_witness:
  "rooms_sound (snd (store_save (sample_host True) (empty_store True) sample_run)) \<and>
   get_by_room (sample_host True) (snd (store_save (sample_host True) (empty_store True) sample_run)) ''room1''
     = Some (clone_run (sample_host True) sample_run)"
proof -
  let ?r = "store_save (sample_host True) (empty_store True) sample_run"
  have "rooms_sound (empty_store True)" by (simp add: rooms_sound_def empty_store_def)
  moreover have "fst ?r = Inr ()"
    by (simp add: store_save_def flush_persistence_def Let_def empty_store_def sample_host_def jm_has_def max_receipts_def)
  then have "?r = (Inr (), snd ?r)" by (metis prod.collapse)
  moreover have "sessionId sample_run \<noteq> []" by simp
  ultimately show ?thesis
    using save_keeps_rooms_sound [where s = "empty_store True" and H = "sample_host True"
        and run = sample_run and s' = "snd ?r"] by simp
qed

section \<open>Restart\<close>

definition settled :: "run_store \<Rightarrow> bool" where
  "settled s = (\<forall>p \<in> set (receipts s). receipt_ended p \<and> get_terminal_event s (fst p) \<noteq> None)"

lemma append_event_written:
  assumes "\<And>p. hostWriteOk H p"
  shows "\<exists>x s'. append_event H clk s run type data terminal = (Inr x, s')"
  using assms by (auto simp: append_event_def flush_persistence_def Let_def split: option.splits)

lemma append_event_keys:
  "fst ` set (eventJournals (snd (append_event H clk s run type data terminal))) \<subseteq>
   insert run (fst ` set (eventJournals s))"
proof (cases "get_terminal_event s run")
  case None
  then show ?thesis by (simp add: append_event_new(1) [OF None refl] dom_update)
next
  case (Some e)
  then show ?thesis by (auto simp: append_event_late)
qed

lemma restored_receipt_ended [simp]:
  "endedAt (restored_receipt t r) = Some (case endedAt r of Some e \<Rightarrow> e | None \<Rightarrow> t)"
  "runId (restored_receipt t r) = runId r"
  by (auto simp: restored_receipt_def split: option.splits)

lemma get_terminal_receipts [simp]:
  "get_terminal_event (s\<lparr>receipts := x\<rparr>) k = get_terminal_event s k"
  by (simp add: get_terminal_event_def journal_of_def)

lemma restore_receipt_settles:
  assumes "\<And>p. hostWriteOk H p" and "settled s"
  obtains m s' where "restore_receipt H clk n s r = (Inr m, s')" "settled s'"
    "activeRuns s' = activeRuns s" "roomIndex s' = roomIndex s"
proof -
  let ?r = "restored_receipt (clk 0) r"
  let ?s1 = "s\<lparr>receipts := AList.update (runId r) ?r (receipts s)\<rparr>"
  have s1: "receipt_ended p \<and> (fst p = runId r \<or> get_terminal_event s (fst p) \<noteq> None)"
    if "p \<in> set (receipts ?s1)" for p
  proof -
    have "p = (runId r, ?r) \<or> p \<in> set (receipts s)"
      using that jm_set_update [of "runId r" ?r "receipts s"] by auto
    then show ?thesis using assms(2) by (auto simp: settled_def receipt_ended_def)
  qed
  show thesis
  proof (cases "get_terminal_event ?s1 (runId r)")
    case (Some e)
    then have "settled ?s1"
      unfolding settled_def get_terminal_receipts using s1 by (metis option.distinct(1))
    with Some show thesis by (intro that [of n ?s1]) (simp_all add: restore_receipt_def Let_def)
  next
    case None
    define d where "d = Obj ([(''run_id'', Str (js (runId r))), (''room_id'', Str (js (roomId ?r))),
        (''message'', (case errorMessage ?r of Some m \<Rightarrow> Str (js m) | None \<Rightarrow> Undef))] @
        (if endedAt r = None then [(''code'', Str (js ''runtime_restarted''))] else []))"
    obtain x s2 where a: "append_event H (\<lambda>k. clk (Suc n + k)) ?s1 (runId r) (terminal_type ?r) d True = (Inr x, s2)"
      using append_event_written assms(1) by blast
    then have s2: "s2 = snd (append_event H (\<lambda>k. clk (Suc n + k)) ?s1 (runId r) (terminal_type ?r) d True)"
      by simp
    have "settled s2"
      unfolding settled_def s2 append_event_frame
      using s1 terminal_after_append terminal_kept_by_append
      by (metis get_terminal_receipts not_Some_eq)
    moreover have "restore_receipt H clk n s r = (Inr (Suc n), s2)"
      using None a by (simp add: restore_receipt_def Let_def d_def)
    ultimately show thesis by (intro that [of "Suc n" s2]) (simp_all add: s2)
  qed
qed

lemma restore_receipts_settle:
  assumes "\<And>p. hostWriteOk H p" and "settled s"
  shows "\<exists>m s'. restore_receipts H clk n s rs = (Inr m, s') \<and> settled s' \<and>
    activeRuns s' = activeRuns s \<and> roomIndex s' = roomIndex s"
  using assms(2)
proof (induction rs arbitrary: n s)
  case (Cons r rs)
  obtain m s' where s': "restore_receipt H clk n s r = (Inr m, s')" "settled s'"
    "activeRuns s' = activeRuns s" "roomIndex s' = roomIndex s"
    using restore_receipt_settles [OF assms(1) Cons.prems] by blast
  with Cons.IH [of s' m] show ?case by simp
qed simp

text \<open>One journal settled: it gets a terminal event, and what was settled stays so.\<close>

lemma settle_journal_settles:
  assumes "\<And>p. hostWriteOk H p"
  obtains m s' where "settle_journal H clk n s k = (Inr m, s')" "get_terminal_event s' k \<noteq> None"
    "\<And>r e. get_terminal_event s r = Some e \<Longrightarrow> get_terminal_event s' r = Some e"
    "receipts s' = receipts s" "activeRuns s' = activeRuns s" "roomIndex s' = roomIndex s"
    "fst ` set (eventJournals s') \<subseteq> insert k (fst ` set (eventJournals s))"
proof (cases "list_ex teTerminal (journal_of s k)")
  case True
  then have "get_terminal_event s k \<noteq> None"
    by (auto simp: get_terminal_event_def find_None_iff list_ex_iff)
  with True show thesis by (intro that [of n s]) (auto simp: settle_journal_def)
next
  case False
  define base where "base = spread_onto [(''run_id'', Str (js k))]
    (case find (\<lambda>e. teType e = ''response.created'') (journal_of s k) of
       Some e \<Rightarrow> object_entries (teData e) | None \<Rightarrow> [])"
  define d where "d = Obj (spread_onto base
    [(''message'', Str (js ''Runtime restarted before this run completed.'')),
     (''code'', Str (js ''runtime_restarted''))])"
  obtain x s2 where a: "append_event H (\<lambda>k. clk (Suc n + k)) s k ''response.failed'' d True = (Inr x, s2)"
    using append_event_written assms(1) by blast
  then have s2: "s2 = snd (append_event H (\<lambda>k. clk (Suc n + k)) s k ''response.failed'' d True)"
    by simp
  have "settle_journal H clk n s k = (Inr (Suc n), s2)"
    using False a by (simp add: settle_journal_def Let_def d_def base_def)
  then show thesis
    by (rule that) (simp_all add: s2 terminal_after_append terminal_kept_by_append append_event_keys)
qed

lemma settle_journals_settle:
  assumes "\<And>p. hostWriteOk H p"
  shows "\<exists>m s'. settle_journals H clk n s ks = (Inr m, s') \<and>
    (\<forall>k \<in> set ks. get_terminal_event s' k \<noteq> None) \<and>
    (\<forall>r e. get_terminal_event s r = Some e \<longrightarrow> get_terminal_event s' r = Some e) \<and>
    receipts s' = receipts s \<and> activeRuns s' = activeRuns s \<and> roomIndex s' = roomIndex s \<and>
    fst ` set (eventJournals s') \<subseteq> set ks \<union> fst ` set (eventJournals s)"
proof (induction ks arbitrary: n s)
  case (Cons k ks)
  obtain m s1 where s1: "settle_journal H clk n s k = (Inr m, s1)" "get_terminal_event s1 k \<noteq> None"
    "\<And>r e. get_terminal_event s r = Some e \<Longrightarrow> get_terminal_event s1 r = Some e"
    "receipts s1 = receipts s" "activeRuns s1 = activeRuns s" "roomIndex s1 = roomIndex s"
    "fst ` set (eventJournals s1) \<subseteq> insert k (fst ` set (eventJournals s))"
    using settle_journal_settles [OF assms] by blast
  obtain m' s2 where s2: "settle_journals H clk m s1 ks = (Inr m', s2)"
    "\<forall>k \<in> set ks. get_terminal_event s2 k \<noteq> None"
    "\<forall>r e. get_terminal_event s1 r = Some e \<longrightarrow> get_terminal_event s2 r = Some e"
    "receipts s2 = receipts s1" "activeRuns s2 = activeRuns s1" "roomIndex s2 = roomIndex s1"
    "fst ` set (eventJournals s2) \<subseteq> set ks \<union> fst ` set (eventJournals s1)"
    using Cons.IH by blast
  have "settle_journals H clk n s (k # ks) = (Inr m', s2)" by (simp add: s1(1) s2(1))
  moreover have "\<forall>k' \<in> set (k # ks). get_terminal_event s2 k' \<noteq> None"
    using s1(2) s2(2,3) by auto
  moreover have "\<forall>r e. get_terminal_event s r = Some e \<longrightarrow> get_terminal_event s2 r = Some e"
    using s1(3) s2(3) by blast
  moreover have "fst ` set (eventJournals s2) \<subseteq> set (k # ks) \<union> fst ` set (eventJournals s)"
    using s1(7) s2(7) unfolding list.set by blast
  ultimately show ?case using s1(4-6) s2(4-6) by simp
qed simp

lemma restore_journals_frame [simp]:
  "receipts (restore_journals H v s) = receipts s"
  "activeRuns (restore_journals H v s) = activeRuns s"
  "roomIndex (restore_journals H v s) = roomIndex s"
  unfolding restore_journals_def
  by (rule foldl_frame, simp split: jsval.splits add: Let_def)+



end
