(* ===== verification/RunService.thy ===== *)
theory RunService
  imports RunRestart
begin

text \<open>
  The run controller of \<open>services/run-controller-service\<close>: the store of the previous theories with the
  abort controllers, the claimed tasks, the queued runs and the workspace leases, one definition per
  method. What the event buses publish is appended to \<open>svUpdates\<close> and \<open>svTaskEvents\<close>; a subscriber
  that throws or calls back is not modelled. An \<open>AbortController\<close> is a number, its identity, and
  \<open>svAborted\<close> lists the aborted ones. A disposer (\<open>() => void\<close>) is the operation it performs.
\<close>

record run_service =
  svStore :: run_store
  svAbort :: "(string, nat) jsmap"
  svAborted :: "nat list"
  svWorkspaces :: "(string, string) jsmap"
  svTasks :: "(string, task_claim) jsmap"
  svSessions :: "(string, string) jsmap"
  svQueued :: "string list"
  svBridge :: bool
  svAgentBridge :: bool
  svUpdates :: "run_update_event list"
  svTaskEvents :: "task_event list"

type_synonym 'a service_outcome = "(run_error, 'a, run_service) outcome"

definition new_service :: "run_store \<Rightarrow> run_service" where
  "new_service store = \<lparr>svStore = store, svAbort = [], svAborted = [], svWorkspaces = [], svTasks = [],
     svSessions = [], svQueued = [], svBridge = False, svAgentBridge = False, svUpdates = [],
     svTaskEvents = []\<rparr>"

definition mark_runtime_bridge_attached :: "bool \<Rightarrow> run_service \<Rightarrow> run_service" where
  "mark_runtime_bridge_attached attached sv = sv\<lparr>svBridge := attached\<rparr>"

definition has_runtime_bridge :: "run_service \<Rightarrow> bool" where
  "has_runtime_bridge sv = svBridge sv"

definition mark_agent_event_bridge_attached :: "bool \<Rightarrow> run_service \<Rightarrow> run_service" where
  "mark_agent_event_bridge_attached attached sv = sv\<lparr>svAgentBridge := attached\<rparr>"

definition has_agent_event_bridge :: "run_service \<Rightarrow> bool" where
  "has_agent_event_bridge sv = svAgentBridge sv"

text \<open>\<open>Set.delete\<close> and \<open>Set.add\<close> on an insertion-ordered set.\<close>

definition set_delete :: "'a \<Rightarrow> 'a list \<Rightarrow> 'a list" where
  "set_delete x xs = filter (\<lambda>y. y \<noteq> x) xs"

definition set_add :: "'a \<Rightarrow> 'a list \<Rightarrow> 'a list" where
  "set_add x xs = (if x \<in> set xs then xs else xs @ [x])"

section \<open>Transitions through the store\<close>

definition emit_run_update ::
  "host \<Rightarrow> run_update_type \<Rightarrow> snapshot \<Rightarrow> run_service \<Rightarrow> run_service" where
  "emit_run_update H type run sv = sv\<lparr>svUpdates := svUpdates sv @
     [\<lparr>ruType = type, ruSessionId = sessionId run, ruRun = clone_run H run\<rparr>]\<rparr>"

text \<open>Run a store operation; on success continue with the service that holds the new store.\<close>

definition with_store ::
  "(run_error, 'b, run_store) outcome \<Rightarrow> run_service \<Rightarrow> ('b \<Rightarrow> run_service \<Rightarrow> 'a service_outcome) \<Rightarrow>
   'a service_outcome" where
  "with_store r sv k = (case r of
     (Inl e, st) \<Rightarrow> (Inl e, sv\<lparr>svStore := st\<rparr>)
   | (Inr x, st) \<Rightarrow> k x (sv\<lparr>svStore := st\<rparr>))"

definition apply_run_transition ::
  "host \<Rightarrow> run_service \<Rightarrow> string \<Rightarrow> (snapshot \<Rightarrow> run_transition) \<Rightarrow> unit service_outcome" where
  "apply_run_transition H sv session f =
     (case get_internal (svStore sv) session of
        None \<Rightarrow> (Inr (), sv)
      | Some current \<Rightarrow>
          if endedAt current \<noteq> None then (Inr (), sv)
          else
            let t = f current in
            with_store (store_apply H (svStore sv) session (trRun t)) sv
              (\<lambda>_ sv1. (Inr (), emit_run_update H (trType t) (trRun t) sv1)))"

definition update_thinking :: "host \<Rightarrow> clock \<Rightarrow> run_service \<Rightarrow> string \<Rightarrow> unit service_outcome" where
  "update_thinking H clk sv session = apply_run_transition H sv session (thinking_transition clk)"

definition update_waiting :: "host \<Rightarrow> clock \<Rightarrow> run_service \<Rightarrow> string \<Rightarrow> unit service_outcome" where
  "update_waiting H clk sv session = apply_run_transition H sv session (waiting_transition clk)"

definition note_message :: "host \<Rightarrow> clock \<Rightarrow> run_service \<Rightarrow> string \<Rightarrow> unit service_outcome" where
  "note_message H clk sv session = apply_run_transition H sv session (message_transition clk)"

definition note_action_started ::
  "host \<Rightarrow> clock \<Rightarrow> run_service \<Rightarrow> string \<Rightarrow> string \<Rightarrow> unit service_outcome" where
  "note_action_started H clk sv session action =
     apply_run_transition H sv session (\<lambda>current. action_started_transition clk current action)"

definition note_action_completed ::
  "host \<Rightarrow> clock \<Rightarrow> run_service \<Rightarrow> string \<Rightarrow> string option \<Rightarrow> unit service_outcome" where
  "note_action_completed H clk sv session action =
     apply_run_transition H sv session (\<lambda>current. action_completed_transition clk current action)"

definition record_local_mutation ::
  "host \<Rightarrow> clock \<Rightarrow> run_service \<Rightarrow> string \<Rightarrow> local_mutation \<Rightarrow> unit service_outcome" where
  "record_local_mutation H clk sv session mutation =
     apply_run_transition H sv session (\<lambda>current. local_mutation_transition clk current mutation)"

definition note_stream ::
  "host \<Rightarrow> clock \<Rightarrow> run_service \<Rightarrow> string \<Rightarrow> string \<Rightarrow> string option \<Rightarrow> unit service_outcome" where
  "note_stream H clk sv session stream detail =
     apply_run_transition H sv session (\<lambda>current. stream_transition clk current stream detail)"

text \<open>A heartbeat names no session: it is recorded only when exactly one run is live.\<close>

definition note_heartbeat ::
  "host \<Rightarrow> clock \<Rightarrow> run_service \<Rightarrow> string \<Rightarrow> string option \<Rightarrow> string option \<Rightarrow> unit service_outcome" where
  "note_heartbeat H clk sv stat preview indicator =
     (case filter (\<lambda>r. endedAt r = None) (store_list H (svStore sv)) of
        [run] \<Rightarrow> apply_run_transition H sv (sessionId run)
                   (\<lambda>_. heartbeat_transition clk run stat preview indicator)
      | _ \<Rightarrow> (Inr (), sv))"

definition set_pending_approvals ::
  "host \<Rightarrow> clock \<Rightarrow> run_service \<Rightarrow> string \<Rightarrow> int \<Rightarrow> unit service_outcome" where
  "set_pending_approvals H clk sv session n =
     apply_run_transition H sv session (\<lambda>current. pending_approvals_transition clk current n)"

definition get_active :: "host \<Rightarrow> run_service \<Rightarrow> string \<Rightarrow> snapshot option" where
  "get_active H sv session = (case store_get H (svStore sv) session of
     Some run \<Rightarrow> if endedAt run \<noteq> None then None else Some run
   | None \<Rightarrow> None)"

definition list_active :: "host \<Rightarrow> run_service \<Rightarrow> snapshot list" where
  "list_active H sv = filter (\<lambda>r. endedAt r = None) (store_list H (svStore sv))"

section \<open>Starting and finishing\<close>

text \<open>\<open>startTurn\<close> of \<open>state-resets.ts\<close>: refused while the session has a live run.\<close>

definition start_new_turn ::
  "host \<Rightarrow> clock \<Rightarrow> run_service \<Rightarrow> start_turn_input \<Rightarrow> snapshot service_outcome" where
  "start_new_turn H clk sv input =
     (case get_internal (svStore sv) (stSessionId input) of
        Some existing \<Rightarrow>
          if endedAt existing = None
          then (Inl (SessionHasActiveRun (stSessionId input) (runId existing)), sv)
          else
            let t = create_run_start_transition clk input in
            with_store (store_save H (svStore sv) (trRun t)) sv
              (\<lambda>_ sv1. (Inr (clone_run H (trRun t)), emit_run_update H (trType t) (trRun t) sv1))
      | None \<Rightarrow>
          let t = create_run_start_transition clk input in
          with_store (store_save H (svStore sv) (trRun t)) sv
            (\<lambda>_ sv1. (Inr (clone_run H (trRun t)), emit_run_update H (trType t) (trRun t) sv1)))"

definition start_turn ::
  "host \<Rightarrow> clock \<Rightarrow> run_service \<Rightarrow> start_turn_input \<Rightarrow> snapshot service_outcome" where
  "start_turn H clk sv input =
     (let prior = get_by_run_id (svStore sv) (stRunId input) in
      if (case prior of Some p \<Rightarrow> endedAt p \<noteq> None | None \<Rightarrow> False)
      then (Inl (TerminalReceipt (stRunId input)), sv)
      else if stRunId input \<in> set (svQueued sv) then
        (case get_internal (svStore sv) (stSessionId input) of
           None \<Rightarrow> (Inl (NoLongerQueued (stRunId input)), sv)
         | Some queued \<Rightarrow>
             if runId queued \<noteq> stRunId input \<or> endedAt queued \<noteq> None
             then (Inl (NoLongerQueued (stRunId input)), sv)
             else
               let t = create_run_start_transition clk input;
                   run = (trRun t)\<lparr>firstStatusAt := firstStatusAt queued\<rparr>
               in with_store (store_apply H (svStore sv) (stSessionId input) run) sv
                    (\<lambda>_ sv1. (Inr (clone_run H run),
                       emit_run_update H (trType t) run
                         (sv1\<lparr>svQueued := set_delete (stRunId input) (svQueued sv1)\<rparr>))))
      else start_new_turn H clk sv input)"

definition queued_run :: "time \<Rightarrow> start_turn_input \<Rightarrow> snapshot" where
  "queued_run now input =
     \<lparr>runId = stRunId input, sessionId = stSessionId input, roomId = stRoomId input,
      source = stSource input, message = '''', runDepth = stRunDepth input,
      configuredMaxIterations = stConfiguredMaxIterations input, observedActionCount = 0,
      progressMode = stProgressMode input, status = Waiting, activeAction = None,
      activeStream = None, statusDetail = Some ''Waiting for execution capacity'',
      lastAction = None, localMutations = [], walletActivities = None, pendingApprovals = 0,
      startedAt = now, firstStatusAt = Some now, firstMessageAt = None, firstActionAt = None,
      lastMeaningfulActivityAt = Some now, lastHeartbeatAt = None, updatedAt = now,
      endedAt = None, terminalReason = None, errorMessage = None\<rparr>"

definition accept_queued_run ::
  "host \<Rightarrow> clock \<Rightarrow> run_service \<Rightarrow> start_turn_input \<Rightarrow> snapshot service_outcome" where
  "accept_queued_run H clk sv input =
     (if (case map_of (svTasks sv) (stRunId input) of
            None \<Rightarrow> True
          | Some claim \<Rightarrow> tcSessionId claim \<noteq> stSessionId input) \<or>
         has_run_id (svStore sv) (stRunId input)
      then (Inl (NotAvailableForQueue (stRunId input)), sv)
      else
        let run = queued_run (clk 0) input in
        with_store (save_accepted H (svStore sv) run) sv
          (\<lambda>_ sv1. (Inr (clone_run H run),
             emit_run_update H UWaiting run
               (sv1\<lparr>svQueued := set_add (stRunId input) (svQueued sv1)\<rparr>))))"

definition server_run_failure_message :: string where
  "server_run_failure_message = ''The response could not be completed. Please try again.''"

text \<open>\<open>finishTurn\<close> of \<open>state-resets.ts\<close>.\<close>

definition finish_current_turn ::
  "host \<Rightarrow> clock \<Rightarrow> run_service \<Rightarrow> string \<Rightarrow> finish_status \<Rightarrow> string option \<Rightarrow> unit service_outcome" where
  "finish_current_turn H clk sv session stat errorMsg =
     (case get_internal (svStore sv) session of
        None \<Rightarrow> (Inr (), sv)
      | Some run \<Rightarrow>
          if endedAt run \<noteq> None then (Inr (), sv)
          else
            let t = finish_transition clk run stat errorMsg in
            with_store (store_apply H (svStore sv) session (trRun t)) sv
              (\<lambda>_ sv1. (Inr (), emit_run_update H (trType t) (trRun t) sv1)))"

definition finish_turn ::
  "host \<Rightarrow> clock \<Rightarrow> run_service \<Rightarrow> string \<Rightarrow> finish_status \<Rightarrow> string option \<Rightarrow> unit service_outcome" where
  "finish_turn H clk sv session stat errorMsg =
     (let current = get_internal (svStore sv) session;
          msg = (case current of
              Some run \<Rightarrow>
                if stat = FinError \<and> jm_has (svTasks sv) (runId run)
                then Some server_run_failure_message else errorMsg
            | None \<Rightarrow> errorMsg)
      in case finish_current_turn H clk sv session stat msg of
           (Inl e, sv1) \<Rightarrow> (Inl e, sv1)
         | (Inr u, sv1) \<Rightarrow>
             (Inr u, case get_internal (svStore sv1) session of
                Some finished \<Rightarrow>
                  if endedAt finished \<noteq> None
                  then sv1\<lparr>svQueued := set_delete (runId finished) (svQueued sv1)\<rparr> else sv1
              | None \<Rightarrow> sv1))"

section \<open>Tasks, abort controllers and workspace leases\<close>

definition register_abort_controller :: "run_service \<Rightarrow> string \<Rightarrow> nat \<Rightarrow> run_service" where
  "register_abort_controller sv run controller =
     sv\<lparr>svAbort := AList.update run controller (svAbort sv)\<rparr>"

definition dispose_abort_controller :: "run_service \<Rightarrow> string \<Rightarrow> nat \<Rightarrow> run_service" where
  "dispose_abort_controller sv run controller =
     (if map_of (svAbort sv) run = Some controller
      then sv\<lparr>svAbort := AList.delete run (svAbort sv)\<rparr> else sv)"

definition accept_claim :: "run_service \<Rightarrow> task_claim \<Rightarrow> run_service" where
  "accept_claim sv input =
     sv\<lparr>svTasks := AList.update (tcRunId input) input (svTasks sv),
        svSessions := AList.update (tcSessionId input) (tcRunId input) (svSessions sv)\<rparr>"

definition conflicting_run :: "run_service \<Rightarrow> string \<Rightarrow> string option" where
  "conflicting_run sv session =
     (case map_of (svSessions sv) session of
        Some r \<Rightarrow> Some r
      | None \<Rightarrow> (case get_internal (svStore sv) session of
          Some active \<Rightarrow> if endedAt active = None then Some (runId active) else None
        | None \<Rightarrow> None))"

definition claim_task_run :: "run_service \<Rightarrow> task_claim \<Rightarrow> claim_result \<times> run_service" where
  "claim_task_run sv input =
     (if jm_has (svTasks sv) (tcRunId input) \<or> has_run_id (svStore sv) (tcRunId input)
      then (RunExists, sv)
      else
        (case conflicting_run sv (tcSessionId input) of
           Some r \<Rightarrow> if r = [] then (ClaimAccepted, accept_claim sv input) else (SessionActive r, sv)
         | None \<Rightarrow> (ClaimAccepted, accept_claim sv input)))"

definition release_task_run :: "run_service \<Rightarrow> string \<Rightarrow> run_service" where
  "release_task_run sv run =
     (case map_of (svTasks sv) run of
        None \<Rightarrow> sv
      | Some task \<Rightarrow>
          let sv1 = sv\<lparr>svTasks := AList.delete run (svTasks sv),
                       svQueued := set_delete run (svQueued sv)\<rparr>
          in if map_of (svSessions sv1) (tcSessionId task) = Some run
             then sv1\<lparr>svSessions := AList.delete (tcSessionId task) (svSessions sv1)\<rparr> else sv1)"

definition append_task_event ::
  "host \<Rightarrow> clock \<Rightarrow> run_service \<Rightarrow> string \<Rightarrow> string \<Rightarrow> jsval \<Rightarrow> bool \<Rightarrow> task_event service_outcome" where
  "append_task_event H clk sv run type data terminal =
     with_store (append_event H clk (svStore sv) run type data terminal) sv
       (\<lambda>(event, appended) sv1. (Inr event,
          if appended then sv1\<lparr>svTaskEvents := svTaskEvents sv1 @ [event]\<rparr> else sv1))"

definition get_task_events :: "run_service \<Rightarrow> string \<Rightarrow> int \<Rightarrow> task_event list" where
  "get_task_events sv run after = list_events (svStore sv) run after"

definition get_terminal_task_event :: "run_service \<Rightarrow> string \<Rightarrow> task_event option" where
  "get_terminal_task_event sv run = get_terminal_event (svStore sv) run"

definition is_task_active :: "run_service \<Rightarrow> string \<Rightarrow> bool" where
  "is_task_active sv run = jm_has (svTasks sv) run"

definition register_workspace_run :: "run_service \<Rightarrow> string \<Rightarrow> string \<Rightarrow> unit service_outcome" where
  "register_workspace_run sv run dir =
     (if jm_has (svWorkspaces sv) run then (Inl (WorkspaceAlreadyRegistered run), sv)
      else (Inr (), sv\<lparr>svWorkspaces := AList.update run dir (svWorkspaces sv)\<rparr>))"

definition dispose_workspace_run :: "run_service \<Rightarrow> string \<Rightarrow> string \<Rightarrow> run_service" where
  "dispose_workspace_run sv run dir =
     (if map_of (svWorkspaces sv) run = Some dir
      then sv\<lparr>svWorkspaces := AList.delete run (svWorkspaces sv)\<rparr> else sv)"

definition workspace_switch_conflict :: "run_service \<Rightarrow> string \<Rightarrow> (string \<times> string) option" where
  "workspace_switch_conflict sv dir = find (\<lambda>p. snd p \<noteq> dir) (svWorkspaces sv)"

section \<open>Cancellation\<close>

text \<open>
  \<open>cancelRun\<close>: \<open>clk 0\<close> to \<open>clk 2\<close> are the readings of the finish transition, the following one stamps
  the terminal event. The result is \<open>accepted\<close> with the receipt the run has afterwards.
\<close>

definition cancel_event_data :: "task_claim option \<Rightarrow> snapshot option \<Rightarrow> string \<Rightarrow> jsval" where
  "cancel_event_data task receipt run = Obj
     [(''id'', case task of Some t \<Rightarrow> Str (js (tcResponseId t)) | None \<Rightarrow> Undef),
      (''run_id'', Str (js run)),
      (''room_id'', case task of
          Some t \<Rightarrow> Str (js (tcRoomId t))
        | None \<Rightarrow> (case receipt of Some r \<Rightarrow> Str (js (roomId r)) | None \<Rightarrow> Undef))]"

definition abort_live ::
  "nat option \<Rightarrow> snapshot option \<Rightarrow> task_event option \<Rightarrow> run_service \<Rightarrow> run_service" where
  "abort_live controller receipt terminalEvent sv =
     (case controller of
        Some c \<Rightarrow>
          if terminalEvent = None \<and>
             (case receipt of Some r \<Rightarrow> endedAt r = None | None \<Rightarrow> True) \<and> c \<notin> set (svAborted sv)
          then sv\<lparr>svAborted := svAborted sv @ [c]\<rparr> else sv
      | None \<Rightarrow> sv)"

definition cancel_live_turn ::
  "host \<Rightarrow> clock \<Rightarrow> string \<Rightarrow> snapshot option \<Rightarrow> task_event option \<Rightarrow> run_service \<Rightarrow> unit service_outcome" where
  "cancel_live_turn H clk run receipt terminalEvent sv =
     (case receipt of
        Some r \<Rightarrow>
          if terminalEvent = None \<and> endedAt r = None then
            (case get_internal (svStore sv) (sessionId r) of
               Some current \<Rightarrow>
                 if runId current = run then finish_turn H clk sv (sessionId r) FinCancelled None
                 else (Inr (), sv)
             | None \<Rightarrow> (Inr (), sv))
          else (Inr (), sv)
      | None \<Rightarrow> (Inr (), sv))"

definition cancel_run ::
  "host \<Rightarrow> clock \<Rightarrow> run_service \<Rightarrow> string \<Rightarrow> (bool \<times> snapshot option) service_outcome" where
  "cancel_run H clk sv run =
     (let controller = map_of (svAbort sv) run;
          receipt = get_by_run_id (svStore sv) run;
          task = map_of (svTasks sv) run;
          terminalEvent = get_terminal_event (svStore sv) run
      in if controller = None \<and> receipt = None \<and> task = None \<and> terminalEvent = None
         then (Inr (False, None), sv)
         else
           (case cancel_live_turn H clk run receipt terminalEvent
                   (abort_live controller receipt terminalEvent sv) of
              (Inl e, sv1) \<Rightarrow> (Inl e, sv1)
            | (Inr _, sv1) \<Rightarrow>
                if terminalEvent \<noteq> None then (Inr (True, get_by_run_id (svStore sv1) run), sv1)
                else
                  (case append_task_event H (\<lambda>k. clk (3 + k)) sv1 run ''response.cancelled''
                          (cancel_event_data task receipt run) True of
                     (Inl e, sv2) \<Rightarrow> (Inl e, sv2)
                   | (Inr _, sv2) \<Rightarrow> (Inr (True, get_by_run_id (svStore sv2) run), sv2))))"

fun cancel_each ::
  "host \<Rightarrow> clock \<Rightarrow> run_service \<Rightarrow> string list \<Rightarrow> unit service_outcome" where
  "cancel_each H clk sv [] = (Inr (), sv)"
| "cancel_each H clk sv (r # rs) =
     (case cancel_run H clk sv r of
        (Inl e, sv1) \<Rightarrow> (Inl e, sv1)
      | (Inr _, sv1) \<Rightarrow> cancel_each H (\<lambda>k. clk (4 + k)) sv1 rs)"

definition cancellable_runs :: "run_service \<Rightarrow> string list" where
  "cancellable_runs sv =
     foldl (\<lambda>acc r. set_add r acc) [] (map fst (svAbort sv) @ map fst (svTasks sv))"

definition cancel_all_active_runs :: "host \<Rightarrow> clock \<Rightarrow> run_service \<Rightarrow> nat service_outcome" where
  "cancel_all_active_runs H clk sv =
     (let active = cancellable_runs sv in
      case cancel_each H clk sv active of
        (Inl e, sv1) \<Rightarrow> (Inl e, sv1)
      | (Inr _, sv1) \<Rightarrow> (Inr (length active), sv1))"

section \<open>Operations addressed by room\<close>

definition with_session_for_room ::
  "run_service \<Rightarrow> string \<Rightarrow> (string \<Rightarrow> unit service_outcome) \<Rightarrow> unit service_outcome" where
  "with_session_for_room sv room f =
     (case get_session_by_room (svStore sv) room of
        None \<Rightarrow> (Inr (), sv)
      | Some session \<Rightarrow> if session = [] then (Inr (), sv) else f session)"

definition note_runtime_message :: "host \<Rightarrow> clock \<Rightarrow> run_service \<Rightarrow> string \<Rightarrow> unit service_outcome" where
  "note_runtime_message H clk sv room = with_session_for_room sv room (note_message H clk sv)"

definition update_runtime_thinking :: "host \<Rightarrow> clock \<Rightarrow> run_service \<Rightarrow> string \<Rightarrow> unit service_outcome" where
  "update_runtime_thinking H clk sv room = with_session_for_room sv room (update_thinking H clk sv)"

definition update_runtime_waiting :: "host \<Rightarrow> clock \<Rightarrow> run_service \<Rightarrow> string \<Rightarrow> unit service_outcome" where
  "update_runtime_waiting H clk sv room = with_session_for_room sv room (update_waiting H clk sv)"

definition note_runtime_action_started ::
  "host \<Rightarrow> clock \<Rightarrow> run_service \<Rightarrow> string \<Rightarrow> string \<Rightarrow> unit service_outcome" where
  "note_runtime_action_started H clk sv room action =
     with_session_for_room sv room (\<lambda>q. note_action_started H clk sv q action)"

definition note_runtime_action_completed ::
  "host \<Rightarrow> clock \<Rightarrow> run_service \<Rightarrow> string \<Rightarrow> string option \<Rightarrow> unit service_outcome" where
  "note_runtime_action_completed H clk sv room action =
     with_session_for_room sv room (\<lambda>q. note_action_completed H clk sv q action)"

definition record_runtime_local_mutation ::
  "host \<Rightarrow> clock \<Rightarrow> run_service \<Rightarrow> string \<Rightarrow> local_mutation \<Rightarrow> unit service_outcome" where
  "record_runtime_local_mutation H clk sv room mutation =
     with_session_for_room sv room (\<lambda>q. record_local_mutation H clk sv q mutation)"

definition note_runtime_stream ::
  "host \<Rightarrow> clock \<Rightarrow> run_service \<Rightarrow> string \<Rightarrow> string \<Rightarrow> string option \<Rightarrow> unit service_outcome" where
  "note_runtime_stream H clk sv room stream detail =
     with_session_for_room sv room (\<lambda>q. note_stream H clk sv q stream detail)"

definition finish_runtime_run ::
  "host \<Rightarrow> clock \<Rightarrow> run_service \<Rightarrow> string \<Rightarrow> finish_status \<Rightarrow> string option \<Rightarrow> unit service_outcome" where
  "finish_runtime_run H clk sv room stat errorMsg =
     with_session_for_room sv room (\<lambda>q. finish_turn H clk sv q stat errorMsg)"

text \<open>
  Wallet activity: \<open>walletActivityFromAction\<close> admits the result of a wallet action that succeeded, and
  the receipt gets the fresh identifier \<open>uuid\<close>. The last 32 activities are kept.
\<close>

definition wallet_actions :: "string list" where
  "wallet_actions = [''WALLET'', ''WALLET_TRANSFER'', ''WALLET_SWAP'', ''WALLET_BRIDGE'', ''WALLET_GOV'']"

definition wallet_activity_from_action :: "host \<Rightarrow> string option \<Rightarrow> jsval \<Rightarrow> jsval option" where
  "wallet_activity_from_action H action value =
     (case action of
        None \<Rightarrow> None
      | Some a \<Rightarrow>
          if a \<notin> set wallet_actions \<or> \<not> (is_record value \<or> is_array value) then None
          else if getp value ''success'' = JBool True then hostParseWallet H (getp value ''data'')
          else None)"

definition with_id :: "jsval \<Rightarrow> string \<Rightarrow> jsval" where
  "with_id receipt uuid = Obj (AList.update ''id'' (Str (js uuid)) (object_entries receipt))"

definition record_runtime_wallet_activity ::
  "host \<Rightarrow> clock \<Rightarrow> string \<Rightarrow> run_service \<Rightarrow> string \<Rightarrow> string option \<Rightarrow> jsval \<Rightarrow> string option \<Rightarrow>
   unit service_outcome" where
  "record_runtime_wallet_activity H clk uuid sv room action result sourceRun =
     (case (wallet_activity_from_action H action result, get_by_room H (svStore sv) room) of
        (Some receipt, Some run) \<Rightarrow>
          if (case sourceRun of Some x \<Rightarrow> x \<noteq> [] \<and> x \<noteq> runId run | None \<Rightarrow> False) then (Inr (), sv)
          else
            apply_run_transition H sv (sessionId run)
              (\<lambda>current. create_patched_transition
                 (current\<lparr>walletActivities := Some (slice_last 32
                    ((case walletActivities current of Some ws \<Rightarrow> ws | None \<Rightarrow> []) @
                     [with_id receipt uuid]))\<rparr>) (clk 0) UActionCompleted)
      | _ \<Rightarrow> (Inr (), sv))"

end
