(* ===== verification/RunServiceFacts.thy ===== *)
theory RunServiceFacts
  imports RunService
begin

text \<open>
  Facts and properties of the run controller: every call keeps the store's invariant, a terminal
  receipt is never rewritten while run identifiers are not reused, task claims are exclusive, and the
  behaviour of cancellation, heartbeats, leases and failure messages.
\<close>

section \<open>What a store operation may change\<close>

text \<open>
  Runs and receipts agree: the run of a session carries that session, a live run has a live receipt,
  and no run is active in two sessions.
\<close>

definition store_inv :: "run_store \<Rightarrow> bool" where
  "store_inv s \<longleftrightarrow> jm_wf (receipts s) \<and> jm_wf (activeRuns s) \<and>
     (\<forall>q r. map_of (activeRuns s) q = Some r \<longrightarrow> sessionId r = q \<and>
        (case map_of (receipts s) (runId r) of
           Some x \<Rightarrow> endedAt x = endedAt r \<and> sessionId x = q | None \<Rightarrow> endedAt r \<noteq> None)) \<and>
     (\<forall>q q' r r'. map_of (activeRuns s) q = Some r \<longrightarrow> map_of (activeRuns s) q' = Some r' \<longrightarrow>
        runId r = runId r' \<longrightarrow> q = q')"

definition run_ids :: "run_store \<Rightarrow> string set" where
  "run_ids s = {runId r |q r. map_of (activeRuns s) q = Some r}"

text \<open>\<open>evolves R s t\<close>: outside the runs in \<open>R\<close> a terminal receipt is kept or dropped, never rewritten, and
  no receipt or active run appears.\<close>

definition evolves :: "string set \<Rightarrow> run_store \<Rightarrow> run_store \<Rightarrow> bool" where
  "evolves R s t \<longleftrightarrow> store_inv t \<and> run_ids t \<subseteq> R \<union> run_ids s \<and>
     (\<forall>k. k \<notin> R \<longrightarrow>
        (\<forall>x. map_of (receipts s) k = Some x \<and> endedAt x \<noteq> None \<longrightarrow>
           map_of (receipts t) k = None \<or> map_of (receipts t) k = Some x) \<and>
        (map_of (receipts s) k = None \<longrightarrow> map_of (receipts t) k = None))"

lemma store_invD:
  assumes "store_inv s" "map_of (activeRuns s) q = Some r"
  shows "sessionId r = q"
    and "map_of (receipts s) (runId r) = Some x \<Longrightarrow> endedAt x = endedAt r"
    and "map_of (receipts s) (runId r) = Some x \<Longrightarrow> sessionId x = q"
    and "endedAt r = None \<Longrightarrow> map_of (receipts s) (runId r) \<noteq> None"
    and "map_of (activeRuns s) q' = Some r' \<Longrightarrow> runId r' = runId r \<Longrightarrow> q' = q"
proof -
  from assms have *: "sessionId r = q" "case map_of (receipts s) (runId r) of
           Some x \<Rightarrow> endedAt x = endedAt r \<and> sessionId x = q | None \<Rightarrow> endedAt r \<noteq> None"
    unfolding store_inv_def by blast+
  show "sessionId r = q" by (rule *)
  show "map_of (receipts s) (runId r) = Some x \<Longrightarrow> endedAt x = endedAt r"
    "map_of (receipts s) (runId r) = Some x \<Longrightarrow> sessionId x = q"
    "endedAt r = None \<Longrightarrow> map_of (receipts s) (runId r) \<noteq> None"
    using *(2) by (auto split: option.splits)
  show "map_of (activeRuns s) q' = Some r' \<Longrightarrow> runId r' = runId r \<Longrightarrow> q' = q"
    using assms unfolding store_inv_def by metis
qed

lemma evolves_refl: "store_inv s \<Longrightarrow> evolves R s s"
  by (auto simp: evolves_def)

lemma evolves_trans: "evolves R s t \<Longrightarrow> evolves R t u \<Longrightarrow> evolves R s u"
  unfolding evolves_def by (intro conjI allI impI) (blast, blast, metis, metis)

lemma evolves_inv: "evolves R s t \<Longrightarrow> store_inv t"
  by (simp add: evolves_def)

lemma evolves_cong:
  "receipts t = receipts u \<Longrightarrow> activeRuns t = activeRuns u \<Longrightarrow> evolves R s t = evolves R s u"
  by (simp add: evolves_def store_inv_def run_ids_def)

lemma evolves_same:
  "store_inv s \<Longrightarrow> receipts t = receipts s \<Longrightarrow> activeRuns t = activeRuns s \<Longrightarrow> evolves R s t"
  by (simp add: evolves_def store_inv_def run_ids_def)

lemma evolves_mono: "evolves {} s t \<Longrightarrow> evolves R s t"
  by (auto simp: evolves_def)

lemma evolves_live:
  assumes "evolves {k} s t" "map_of (receipts s) k = Some x" "endedAt x = None" "k \<in> run_ids s"
  shows "evolves {} s t"
proof -
  have "(\<forall>y. map_of (receipts s) j = Some y \<and> endedAt y \<noteq> None \<longrightarrow>
           map_of (receipts t) j = None \<or> map_of (receipts t) j = Some y) \<and>
        (map_of (receipts s) j = None \<longrightarrow> map_of (receipts t) j = None)" for j
    using assms(1-3) unfolding evolves_def by (cases "j = k") (simp, blast)
  with assms(1,4) show ?thesis unfolding evolves_def by blast
qed

text \<open>The one step every change of a run goes through: recording a run over a live receipt or a new one.\<close>

lemma record_run_evolves:
  assumes inv: "store_inv s"
    and live: "\<And>x. map_of (receipts s) (runId run) = Some x \<Longrightarrow> endedAt x = None"
    and only: "\<And>q r. map_of (activeRuns s) q = Some r \<Longrightarrow> runId r = runId run \<Longrightarrow> q = sessionId run"
  shows "evolves {runId run} s (record_run H (sessionId run) run s)"
proof -
  let ?t = "record_run H (sessionId run) run s"
  have wf: "jm_wf (receipts s)" "jm_wf (activeRuns s)" using inv by (simp_all add: store_inv_def)
  have dropped: "map_of (receipts ?t) k = Some r \<or> map_of (receipts ?t) k = None \<and> endedAt r \<noteq> None"
    if "k = runId run \<and> r = clone_run H run \<or> k \<noteq> runId run \<and> map_of (receipts s) k = Some r" for k r
  proof (cases "map_of (receipts ?t) k")
    case None
    with record_run_live [OF wf(1) that, where q = "sessionId run"] show ?thesis by auto
  next
    case (Some r')
    with record_run_get [OF Some] that show ?thesis by auto
  qed
  have "store_inv ?t"
    unfolding store_inv_def record_run_frame
  proof (intro conjI allI impI)
    fix q r assume q: "map_of (AList.update (sessionId run) run (activeRuns s)) q = Some r"
    show "sessionId r = q" using q store_invD(1) [OF inv] by (auto split: if_splits)
    show "case map_of (receipts ?t) (runId r) of Some x \<Rightarrow> endedAt x = endedAt r \<and> sessionId x = q | None \<Rightarrow> endedAt r \<noteq> None"
    proof (cases "q = sessionId run")
      case True
      with q dropped [of "runId run" "clone_run H run"] show ?thesis by (auto split: option.splits)
    next
      case False
      with q have r: "map_of (activeRuns s) q = Some r" by simp
      with only False have n: "runId r \<noteq> runId run" by blast
      show ?thesis
      proof (cases "map_of (receipts s) (runId r)")
        case None
        then have "map_of (receipts ?t) (runId r) = None"
          using record_run_get [of H "sessionId run" run s "runId r"] n by fastforce
        with None store_invD(4) [OF inv r] show ?thesis by auto
      next
        case (Some x)
        with store_invD(2) [OF inv r] store_invD(3) [OF inv r] dropped [of "runId r" x] n show ?thesis
          by (auto split: option.splits)
      qed
    qed
  next
    fix q q' r r'
    assume "map_of (AList.update (sessionId run) run (activeRuns s)) q = Some r"
      "map_of (AList.update (sessionId run) run (activeRuns s)) q' = Some r'" "runId r = runId r'"
    then show "q = q'"
      using only store_invD(5) [OF inv] by (auto split: if_splits)
  qed (use wf in simp_all)
  moreover have "run_ids ?t \<subseteq> {runId run} \<union> run_ids s"
    by (auto simp: run_ids_def split: if_splits)
  moreover have "map_of (receipts ?t) k = None \<or> map_of (receipts ?t) k = Some x"
    if "k \<noteq> runId run" "map_of (receipts s) k = Some x" for k x
    using dropped [of k x] that by auto
  moreover have "map_of (receipts ?t) k = None" if "k \<noteq> runId run" "map_of (receipts s) k = None" for k
    using record_run_get [of H "sessionId run" run s k] that by fastforce
  ultimately show ?thesis by (auto simp: evolves_def)
qed

lemma record_live_evolves:
  assumes inv: "store_inv s" and q: "map_of (activeRuns s) q = Some current" "endedAt current = None"
    and run: "runId run = runId current" "sessionId run = q"
  shows "evolves {} s (record_run H q run s)"
proof -
  have "evolves {runId run} s (record_run H (sessionId run) run s)"
  proof (rule record_run_evolves [OF inv])
    show "map_of (receipts s) (runId run) = Some x \<Longrightarrow> endedAt x = None" for x
      using store_invD(2) [OF inv q(1)] q(2) run(1) by simp
    show "map_of (activeRuns s) q' = Some r \<Longrightarrow> runId r = runId run \<Longrightarrow> q' = sessionId run" for q' r
      using store_invD(5) [OF inv q(1)] run by simp
  qed
  moreover obtain x where "map_of (receipts s) (runId run) = Some x" "endedAt x = None"
    using store_invD(2,4) [OF inv q(1)] q(2) run(1) by fastforce
  moreover have "runId run \<in> run_ids s" using q run by (auto simp: run_ids_def)
  ultimately show ?thesis unfolding run(2) by (rule evolves_live)
qed

lemma store_apply_evolves:
  assumes "store_inv s" "map_of (activeRuns s) q = Some current" "endedAt current = None"
    "runId run = runId current" "sessionId run = q"
  shows "evolves {} s (snd (store_apply H s q run))"
  using record_live_evolves [OF assms, of H]
  by (simp add: store_apply_def evolves_cong [OF flush_frame(2,1)])

section \<open>The calls of the service\<close>

text \<open>
  Every state-changing method as a call. A note on a session or a room carries the event it records;
  a heartbeat names neither.
\<close>

datatype service_call =
    CallStart start_turn_input
  | CallQueue start_turn_input
  | CallNote string run_event
  | CallRoomNote string run_event
  | CallWallet string string "string option" jsval "string option"
  | CallClaim task_claim
  | CallRelease string
  | CallAppend string string jsval bool
  | CallCancel string
  | CallCancelAll
  | CallAbortController string nat
  | CallDisposeAbort string nat
  | CallLease string string
  | CallUnlease string string

fun note_event :: "host \<Rightarrow> clock \<Rightarrow> run_service \<Rightarrow> string \<Rightarrow> run_event \<Rightarrow> unit service_outcome" where
  "note_event H clk sv q EvThinking = update_thinking H clk sv q"
| "note_event H clk sv q EvWaiting = update_waiting H clk sv q"
| "note_event H clk sv q EvMessage = note_message H clk sv q"
| "note_event H clk sv q (EvActionStarted a) = note_action_started H clk sv q a"
| "note_event H clk sv q (EvActionCompleted a) = note_action_completed H clk sv q a"
| "note_event H clk sv q (EvLocalMutation m) = record_local_mutation H clk sv q m"
| "note_event H clk sv q (EvStream st d) = note_stream H clk sv q st d"
| "note_event H clk sv q (EvHeartbeat st p i) = note_heartbeat H clk sv st p i"
| "note_event H clk sv q (EvApprovals n) = set_pending_approvals H clk sv q n"
| "note_event H clk sv q (EvFinish st e) = finish_turn H clk sv q st e"

fun serve :: "host \<Rightarrow> clock \<Rightarrow> service_call \<Rightarrow> run_service \<Rightarrow> run_service" where
  "serve H clk (CallStart i) sv = snd (start_turn H clk sv i)"
| "serve H clk (CallQueue i) sv = snd (accept_queued_run H clk sv i)"
| "serve H clk (CallNote q e) sv = snd (note_event H clk sv q e)"
| "serve H clk (CallRoomNote room e) sv =
     snd (with_session_for_room sv room (\<lambda>q. note_event H clk sv q e))"
| "serve H clk (CallWallet uuid room a v src) sv =
     snd (record_runtime_wallet_activity H clk uuid sv room a v src)"
| "serve H clk (CallClaim c) sv = snd (claim_task_run sv c)"
| "serve H clk (CallRelease r) sv = release_task_run sv r"
| "serve H clk (CallAppend r ty d t) sv = snd (append_task_event H clk sv r ty d t)"
| "serve H clk (CallCancel r) sv = snd (cancel_run H clk sv r)"
| "serve H clk CallCancelAll sv = snd (cancel_all_active_runs H clk sv)"
| "serve H clk (CallAbortController r c) sv = register_abort_controller sv r c"
| "serve H clk (CallDisposeAbort r c) sv = dispose_abort_controller sv r c"
| "serve H clk (CallLease r d) sv = snd (register_workspace_run sv r d)"
| "serve H clk (CallUnlease r d) sv = dispose_workspace_run sv r d"

abbreviation runs :: "run_service \<Rightarrow> run_store" where "runs \<equiv> svStore"

lemma with_store_runs:
  "(\<And>x t. runs (snd (k x (sv\<lparr>svStore := t\<rparr>))) = t) \<Longrightarrow> runs (snd (with_store r sv k)) = snd r"
  by (simp add: with_store_def split: prod.splits sum.splits)

lemma emit_runs [simp]:
  "runs (emit_run_update H ty r sv) = runs sv" "svQueued (emit_run_update H ty r sv) = svQueued sv"
  "svTasks (emit_run_update H ty r sv) = svTasks sv" "svSessions (emit_run_update H ty r sv) = svSessions sv"
  by (simp_all add: emit_run_update_def)

lemma apply_transition_runs:
  "runs (snd (apply_run_transition H sv q f)) =
     (case map_of (activeRuns (runs sv)) q of
        Some r \<Rightarrow> if endedAt r = None then snd (store_apply H (runs sv) q (trRun (f r))) else runs sv
      | None \<Rightarrow> runs sv)"
  by (auto simp: apply_run_transition_def get_internal_def Let_def with_store_runs split: option.splits)

lemma apply_transition_evolves:
  assumes "store_inv (runs sv)"
    and "\<And>r. map_of (activeRuns (runs sv)) q = Some r \<Longrightarrow> runId (trRun (f r)) = runId r"
    and "\<And>r. map_of (activeRuns (runs sv)) q = Some r \<Longrightarrow> sessionId (trRun (f r)) = sessionId r"
  shows "evolves {} (runs sv) (runs (snd (apply_run_transition H sv q f)))"
proof (cases "map_of (activeRuns (runs sv)) q")
  case None
  with assms(1) show ?thesis by (simp add: apply_transition_runs evolves_refl)
next
  case (Some r)
  show ?thesis
  proof (cases "endedAt r")
    case None
    have "evolves {} (runs sv) (snd (store_apply H (runs sv) q (trRun (f r))))"
      by (rule store_apply_evolves [OF assms(1) Some None assms(2) [OF Some]])
        (simp add: assms(3) [OF Some] store_invD(1) [OF assms(1) Some])
    with Some None show ?thesis by (simp add: apply_transition_runs)
  next
    case (Some e)
    with \<open>map_of (activeRuns (runs sv)) q = Some r\<close> assms(1) show ?thesis
      by (simp add: apply_transition_runs evolves_refl)
  qed
qed

lemma finish_current_turn_apply:
  "finish_current_turn H clk sv q stat msg =
     apply_run_transition H sv q (\<lambda>r. finish_transition clk r stat msg)"
  by (simp add: finish_current_turn_def apply_run_transition_def split: option.splits)

lemma finish_turn_runs:
  "runs (snd (finish_turn H clk sv q stat msg)) =
     runs (snd (finish_current_turn H clk sv q stat
       (case get_internal (runs sv) q of
          Some r \<Rightarrow> if stat = FinError \<and> jm_has (svTasks sv) (runId r)
                    then Some server_run_failure_message else msg
        | None \<Rightarrow> msg)))"
  by (auto simp: finish_turn_def Let_def split: prod.splits sum.splits option.splits)

lemma transition_ids:
  "runId (trRun (thinking_transition clk r)) = runId r" "sessionId (trRun (thinking_transition clk r)) = sessionId r"
  "runId (trRun (waiting_transition clk r)) = runId r" "sessionId (trRun (waiting_transition clk r)) = sessionId r"
  "runId (trRun (message_transition clk r)) = runId r" "sessionId (trRun (message_transition clk r)) = sessionId r"
  "runId (trRun (action_started_transition clk r a)) = runId r"
  "sessionId (trRun (action_started_transition clk r a)) = sessionId r"
  "runId (trRun (action_completed_transition clk r b)) = runId r"
  "sessionId (trRun (action_completed_transition clk r b)) = sessionId r"
  "runId (trRun (local_mutation_transition clk r m)) = runId r"
  "sessionId (trRun (local_mutation_transition clk r m)) = sessionId r"
  "runId (trRun (stream_transition clk r st d)) = runId r"
  "sessionId (trRun (stream_transition clk r st d)) = sessionId r"
  "runId (trRun (heartbeat_transition clk r hb p i)) = runId r"
  "sessionId (trRun (heartbeat_transition clk r hb p i)) = sessionId r"
  "runId (trRun (pending_approvals_transition clk r n)) = runId r"
  "sessionId (trRun (pending_approvals_transition clk r n)) = sessionId r"
  "runId (trRun (finish_transition clk r fs e)) = runId r"
  "sessionId (trRun (finish_transition clk r fs e)) = sessionId r"
  by (simp_all add: transition_defs split: prod.splits)

lemma note_heartbeat_evolves:
  assumes "store_inv (runs sv)"
  shows "evolves {} (runs sv) (runs (snd (note_heartbeat H clk sv stat p i)))"
proof -
  have *: "evolves {} (runs sv) (runs (snd (apply_run_transition H sv (sessionId run)
      (\<lambda>_. heartbeat_transition clk run stat p i))))" if "run \<in> set (store_list H (runs sv))" for run
  proof -
    have "jm_wf (activeRuns (runs sv))" using assms by (simp add: store_inv_def)
    with that obtain q r where r: "map_of (activeRuns (runs sv)) q = Some r" "run = clone_run H r"
      by (auto simp: store_list_def dest: jm_in_get)
    then have "q = sessionId run" using store_invD(1) [OF assms] by simp
    with r show ?thesis by (intro apply_transition_evolves [OF assms]) (simp_all add: transition_ids)
  qed
  show ?thesis
  proof (cases "filter (\<lambda>r. endedAt r = None) (store_list H (runs sv))")
    case Nil
    then show ?thesis by (simp add: note_heartbeat_def evolves_refl assms)
  next
    case (Cons run rest)
    then have "run \<in> set (store_list H (runs sv))" by (metis Cons_eq_filterD in_set_conv_decomp)
    with * Cons show ?thesis
      by (cases rest) (simp_all add: note_heartbeat_def evolves_refl assms)
  qed
qed

lemma note_event_evolves:
  assumes "store_inv (runs sv)"
  shows "evolves {} (runs sv) (runs (snd (note_event H clk sv q e)))"
  using assms
  by (cases e)
    (simp_all add: update_thinking_def update_waiting_def note_message_def note_action_started_def
      note_action_completed_def record_local_mutation_def note_stream_def set_pending_approvals_def
      finish_turn_runs finish_current_turn_apply note_heartbeat_evolves apply_transition_evolves
      transition_ids)

lemma with_session_evolves:
  assumes "store_inv (runs sv)" "\<And>q. evolves {} (runs sv) (runs (snd (f q)))"
  shows "evolves {} (runs sv) (runs (snd (with_session_for_room sv room f)))"
  using assms by (auto simp: with_session_for_room_def evolves_refl split: option.splits)

lemma wallet_evolves:
  assumes "store_inv (runs sv)"
  shows "evolves {} (runs sv) (runs (snd (record_runtime_wallet_activity H clk uuid sv room a v src)))"
  using assms
  by (auto simp: record_runtime_wallet_activity_def create_patched_transition_def evolves_refl
      intro!: apply_transition_evolves split: option.splits)

lemma append_task_event_runs:
  "runs (snd (append_task_event H clk sv r ty d t)) = snd (append_event H clk (runs sv) r ty d t)"
  by (auto simp: append_task_event_def with_store_def split: prod.splits sum.splits)

lemma append_evolves:
  "store_inv (runs sv) \<Longrightarrow> evolves {} (runs sv) (runs (snd (append_task_event H clk sv r ty d t)))"
  by (simp add: append_task_event_runs evolves_same)

lemma abort_live_frame [simp]:
  "runs (abort_live c r t sv) = runs sv" "svTasks (abort_live c r t sv) = svTasks sv"
  "svAbort (abort_live c r t sv) = svAbort sv" "svSessions (abort_live c r t sv) = svSessions sv"
  "svQueued (abort_live c r t sv) = svQueued sv"
  by (auto simp: abort_live_def split: option.splits)

lemma cancel_live_turn_evolves:
  "store_inv (runs sv) \<Longrightarrow> evolves {} (runs sv) (runs (snd (cancel_live_turn H clk run receipt te sv)))"
  by (auto simp: cancel_live_turn_def evolves_refl finish_turn_runs finish_current_turn_apply
      apply_transition_evolves transition_ids split: option.splits)

definition known_run :: "run_service \<Rightarrow> string \<Rightarrow> bool" where
  "known_run sv run = (jm_has (svAbort sv) run \<or> jm_has (receipts (runs sv)) run \<or>
     jm_has (svTasks sv) run \<or> get_terminal_event (runs sv) run \<noteq> None)"

lemma cancel_run_cases:
  assumes "cancel_live_turn H clk run (map_of (receipts (runs sv)) run) (get_terminal_event (runs sv) run)
      (abort_live (map_of (svAbort sv) run) (map_of (receipts (runs sv)) run)
         (get_terminal_event (runs sv) run) sv) = (res, sv1)"
    and "append_task_event H (\<lambda>k. clk (3 + k)) sv1 run ''response.cancelled''
      (cancel_event_data (map_of (svTasks sv) run) (map_of (receipts (runs sv)) run) run) True = (res', sv2)"
  shows "cancel_run H clk sv run =
    (if \<not> known_run sv run then (Inr (False, None), sv)
     else case res of
       Inl e \<Rightarrow> (Inl e, sv1)
     | Inr _ \<Rightarrow>
         if get_terminal_event (runs sv) run \<noteq> None
         then (Inr (True, map_of (receipts (runs sv1)) run), sv1)
         else case res' of
           Inl e \<Rightarrow> (Inl e, sv2)
         | Inr _ \<Rightarrow> (Inr (True, map_of (receipts (runs sv2)) run), sv2))"
  using assms
  by (auto simp: cancel_run_def Let_def known_run_def jm_has_def get_by_run_id_def split: sum.splits)

lemma cancel_run_evolves:
  assumes "store_inv (runs sv)"
  shows "evolves {} (runs sv) (runs (snd (cancel_run H clk sv run)))"
proof -
  obtain res sv1 where c: "cancel_live_turn H clk run (map_of (receipts (runs sv)) run)
      (get_terminal_event (runs sv) run) (abort_live (map_of (svAbort sv) run)
        (map_of (receipts (runs sv)) run) (get_terminal_event (runs sv) run) sv) = (res, sv1)"
    by fastforce
  obtain res' sv2 where a: "append_task_event H (\<lambda>k. clk (3 + k)) sv1 run ''response.cancelled''
      (cancel_event_data (map_of (svTasks sv) run) (map_of (receipts (runs sv)) run) run) True = (res', sv2)"
    by fastforce
  have e1: "evolves {} (runs sv) (runs sv1)"
    using cancel_live_turn_evolves [of "abort_live (map_of (svAbort sv) run)
        (map_of (receipts (runs sv)) run) (get_terminal_event (runs sv) run) sv" H clk run
        "map_of (receipts (runs sv)) run" "get_terminal_event (runs sv) run"] assms c by simp
  have "evolves {} (runs sv1) (runs sv2)"
    using append_evolves [OF evolves_inv [OF e1], of H "\<lambda>k. clk (3 + k)" run
        "''response.cancelled''" "cancel_event_data (map_of (svTasks sv) run)
          (map_of (receipts (runs sv)) run) run" True] a by simp
  with e1 have e2: "evolves {} (runs sv) (runs sv2)" by (rule evolves_trans)
  show ?thesis
    unfolding cancel_run_cases [OF c a] using assms e1 e2 by (simp add: evolves_refl split: sum.splits)
qed

lemma cancel_each_evolves:
  "store_inv (runs sv) \<Longrightarrow> evolves {} (runs sv) (runs (snd (cancel_each H clk sv rs)))"
proof (induction rs arbitrary: sv clk)
  case (Cons r rs)
  obtain res sv1 where c: "cancel_run H clk sv r = (res, sv1)" by fastforce
  with cancel_run_evolves [OF Cons.prems, of H clk r] have e1: "evolves {} (runs sv) (runs sv1)" by simp
  from Cons.IH [OF evolves_inv [OF e1], of "\<lambda>k. clk (4 + k)"]
  have "evolves {} (runs sv) (runs (snd (cancel_each H (\<lambda>k. clk (4 + k)) sv1 rs)))"
    by (rule evolves_trans [OF e1])
  with c e1 show ?case by (cases res) simp_all
qed (simp add: evolves_refl)

lemma quiet_call_evolves:
  assumes "store_inv (runs sv)" "\<And>i. call \<noteq> CallStart i" "\<And>i. call \<noteq> CallQueue i"
  shows "evolves {} (runs sv) (runs (serve H clk call sv))"
  using assms
proof (cases call)
  case (CallCancelAll)
  have "runs (snd (cancel_all_active_runs H clk sv)) = runs (snd (cancel_each H clk sv (cancellable_runs sv)))"
    by (simp add: cancel_all_active_runs_def Let_def split: prod.splits sum.splits)
  with CallCancelAll assms(1) show ?thesis by (simp add: cancel_each_evolves)
qed (auto simp: note_event_evolves with_session_evolves wallet_evolves append_evolves cancel_run_evolves
      claim_task_run_def accept_claim_def release_task_run_def register_abort_controller_def
      dispose_abort_controller_def register_workspace_run_def dispose_workspace_run_def evolves_refl
      Let_def split: option.splits)

section \<open>Starting a run under a fresh identifier\<close>

lemma save_evolves:
  assumes "store_inv s" "map_of (receipts s) (runId run) = None" "runId run \<notin> run_ids s"
  shows "evolves {runId run} s (snd (store_save H s run))"
proof (cases "fst (store_save H s run) = Inl ReceiptCapacityFull")
  case True
  with assms(1) show ?thesis
    by (auto simp: store_save_def flush_persistence_def Let_def evolves_refl split: if_splits)
next
  case False
  then have "snd (store_save H s run) = snd (flush_persistence H (record_run H (sessionId run) run s))"
    by (auto simp: store_save_def split: if_splits)
  moreover have "evolves {runId run} s (record_run H (sessionId run) run s)"
    using assms by (intro record_run_evolves) (auto simp: run_ids_def)
  ultimately show ?thesis by (simp add: evolves_cong [OF flush_frame(2,1)])
qed

lemma save_accepted_evolves:
  assumes "store_inv s" "map_of (receipts s) (runId run) = None" "runId run \<notin> run_ids s"
  shows "evolves {runId run} s (snd (save_accepted H s run))"
proof (cases "store_save H s run")
  case (Pair r t)
  show ?thesis
  proof (cases r)
    case (Inl e)
    have "receipts (snd (save_accepted H s run)) = receipts s"
      "activeRuns (snd (save_accepted H s run)) = activeRuns s"
      using Pair Inl by (auto simp: save_accepted_def Let_def)
    with assms(1) show ?thesis by (rule evolves_same)
  next
    case (Inr u)
    with Pair save_evolves [OF assms, of H] show ?thesis by (simp add: save_accepted_def)
  qed
qed

lemma start_ids [simp]:
  "runId (trRun (create_run_start_transition clk i)) = stRunId i"
  "sessionId (trRun (create_run_start_transition clk i)) = stSessionId i"
  "runId (queued_run t i) = stRunId i" "sessionId (queued_run t i) = stSessionId i"
  by (simp_all add: create_run_start_transition_def queued_run_def Let_def)

lemma start_queued_evolves:
  assumes inv: "store_inv (runs sv)" and "stRunId i \<in> set (svQueued sv)"
  shows "evolves {} (runs sv) (runs (snd (start_turn H clk sv i)))"
proof -
  let ?run = "\<lambda>r. (trRun (create_run_start_transition clk i))\<lparr>firstStatusAt := firstStatusAt r\<rparr>"
  have "runs (snd (start_turn H clk sv i)) = runs sv \<or>
      (\<exists>r. map_of (activeRuns (runs sv)) (stSessionId i) = Some r \<and> endedAt r = None \<and>
        runId r = stRunId i \<and>
        runs (snd (start_turn H clk sv i)) = snd (store_apply H (runs sv) (stSessionId i) (?run r)))"
    using assms(2)
    by (auto simp: start_turn_def Let_def with_store_runs get_internal_def split: option.splits)
  then show ?thesis
  proof (elim disjE exE conjE)
    fix r assume r: "map_of (activeRuns (runs sv)) (stSessionId i) = Some r" "endedAt r = None"
      "runId r = stRunId i"
      "runs (snd (start_turn H clk sv i)) = snd (store_apply H (runs sv) (stSessionId i) (?run r))"
    show ?thesis unfolding r(4) by (rule store_apply_evolves [OF inv r(1,2)]) (simp_all add: r(3))
  qed (simp add: evolves_refl inv)
qed

lemma start_turn_new:
  assumes "case map_of (receipts (runs sv)) (stRunId i) of Some x \<Rightarrow> endedAt x = None | None \<Rightarrow> True"
    "stRunId i \<notin> set (svQueued sv)"
    "case map_of (activeRuns (runs sv)) (stSessionId i) of Some r \<Rightarrow> endedAt r \<noteq> None | None \<Rightarrow> True"
  shows "runs (snd (start_turn H clk sv i)) =
      snd (store_save H (runs sv) (trRun (create_run_start_transition clk i)))"
    "svQueued (snd (start_turn H clk sv i)) = svQueued sv"
    "svTasks (snd (start_turn H clk sv i)) = svTasks sv"
  using assms
  by (auto simp: start_turn_def start_new_turn_def Let_def with_store_runs with_store_def
      get_by_run_id_def get_internal_def split: option.splits prod.splits sum.splits)

lemma start_fresh_evolves:
  assumes inv: "store_inv (runs sv)" and "stRunId i \<notin> set (svQueued sv)"
    and "map_of (receipts (runs sv)) (stRunId i) = None" "stRunId i \<notin> run_ids (runs sv)"
  shows "evolves {stRunId i} (runs sv) (runs (snd (start_turn H clk sv i)))"
proof -
  have "runs (snd (start_turn H clk sv i)) = runs sv \<or>
      runs (snd (start_turn H clk sv i)) =
        snd (store_save H (runs sv) (trRun (create_run_start_transition clk i)))"
    using assms(2,3)
    by (auto simp: start_turn_def start_new_turn_def Let_def with_store_runs get_by_run_id_def
        split: option.splits)
  moreover have "evolves {stRunId i} (runs sv)
      (snd (store_save H (runs sv) (trRun (create_run_start_transition clk i))))"
    using save_evolves [OF inv, of "trRun (create_run_start_transition clk i)" H] assms(3,4) by simp
  ultimately show ?thesis by (auto simp: evolves_refl inv)
qed

lemma accept_fresh_evolves:
  assumes inv: "store_inv (runs sv)"
    and "map_of (receipts (runs sv)) (stRunId i) = None" "stRunId i \<notin> run_ids (runs sv)"
  shows "evolves {stRunId i} (runs sv) (runs (snd (accept_queued_run H clk sv i)))"
proof -
  have "runs (snd (accept_queued_run H clk sv i)) = runs sv \<or>
      runs (snd (accept_queued_run H clk sv i)) = snd (save_accepted H (runs sv) (queued_run (clk 0) i))"
    by (auto simp: accept_queued_run_def Let_def with_store_runs split: option.splits)
  moreover have "evolves {stRunId i} (runs sv) (snd (save_accepted H (runs sv) (queued_run (clk 0) i)))"
    using save_accepted_evolves [OF inv, of "queued_run (clk 0) i" H] assms(2,3) by simp
  ultimately show ?thesis by (auto simp: evolves_refl inv)
qed

section \<open>The history of a service\<close>

text \<open>
  The service together with the run identifiers handed out so far. A call that would open a run under
  an identifier already used is not made; starting the run a queued acceptance opened is.
\<close>

fun opens_run :: "run_service \<Rightarrow> service_call \<Rightarrow> string option" where
  "opens_run sv (CallStart i) = (if stRunId i \<in> set (svQueued sv) then None else Some (stRunId i))"
| "opens_run sv (CallQueue i) = Some (stRunId i)"
| "opens_run sv call = None"

definition history_step ::
  "host \<Rightarrow> run_service \<times> string list \<Rightarrow> clock \<times> service_call \<Rightarrow> run_service \<times> string list" where
  "history_step H st ce =
     (case opens_run (fst st) (snd ce) of
        None \<Rightarrow> (serve H (fst ce) (snd ce) (fst st), snd st)
      | Some r \<Rightarrow> if r \<in> set (snd st) then st
                  else (serve H (fst ce) (snd ce) (fst st), r # snd st))"

definition history_inv :: "run_service \<times> string list \<Rightarrow> bool" where
  "history_inv st \<longleftrightarrow> store_inv (runs (fst st)) \<and> run_ids (runs (fst st)) \<subseteq> set (snd st) \<and>
     (\<forall>k. map_of (receipts (runs (fst st))) k \<noteq> None \<longrightarrow> k \<in> set (snd st))"

definition history_le :: "run_service \<times> string list \<Rightarrow> run_service \<times> string list \<Rightarrow> bool" where
  "history_le st st' \<longleftrightarrow> set (snd st) \<subseteq> set (snd st') \<and>
     (\<forall>k \<in> set (snd st).
        (\<forall>x. map_of (receipts (runs (fst st))) k = Some x \<and> endedAt x \<noteq> None \<longrightarrow>
           map_of (receipts (runs (fst st'))) k = None \<or> map_of (receipts (runs (fst st'))) k = Some x) \<and>
        (map_of (receipts (runs (fst st))) k = None \<longrightarrow> map_of (receipts (runs (fst st'))) k = None))"

lemma history_le_refl: "history_le s s"
  by (auto simp: history_le_def)

lemma history_le_trans: "history_le s t \<Longrightarrow> history_le t u \<Longrightarrow> history_le s u"
  unfolding history_le_def by (intro conjI ballI allI impI) (blast, metis subsetD, metis subsetD)

lemma history_evolves:
  assumes "history_inv (sv, used)" "evolves R (runs sv) (runs sv')" "R \<inter> set used = {}"
    "R \<union> set used = set used'"
  shows "history_inv (sv', used')" "history_le (sv, used) (sv', used')"
proof -
  have k: "(\<forall>x. map_of (receipts (runs sv)) k = Some x \<and> endedAt x \<noteq> None \<longrightarrow>
           map_of (receipts (runs sv')) k = None \<or> map_of (receipts (runs sv')) k = Some x) \<and>
        (map_of (receipts (runs sv)) k = None \<longrightarrow> map_of (receipts (runs sv')) k = None)"
    if "k \<notin> R" for k using assms(2) that unfolding evolves_def by blast
  with assms(3,4) show "history_le (sv, used) (sv', used')"
    unfolding history_le_def fst_conv snd_conv by blast
  have "k \<in> set used'" if "map_of (receipts (runs sv')) k \<noteq> None" for k
  proof (cases "k \<in> R")
    case False
    with k [OF False] that have "map_of (receipts (runs sv)) k \<noteq> None" by blast
    with assms(1,4) show ?thesis unfolding history_inv_def by auto
  qed (use assms(4) in blast)
  with assms show "history_inv (sv', used')"
    unfolding history_inv_def evolves_def fst_conv snd_conv by blast
qed

lemma history_step_ok:
  assumes "history_inv st"
  shows "history_inv (history_step H st ce)" "history_le st (history_step H st ce)"
proof -
  obtain sv used clk call where st: "st = (sv, used)" "ce = (clk, call)" by (cases st, cases ce) auto
  have inv: "store_inv (runs sv)" using assms by (simp add: st history_inv_def)
  have "history_inv (history_step H st ce) \<and> history_le st (history_step H st ce)"
  proof (cases "opens_run sv call")
    case None
    then have "evolves {} (runs sv) (runs (serve H clk call sv))"
    proof (cases "\<exists>i. call = CallStart i")
      case True
      with None show ?thesis by (auto simp: start_queued_evolves [OF inv] split: if_splits)
    next
      case False
      with None show ?thesis by (intro quiet_call_evolves [OF inv]) auto
    qed
    from history_evolves [OF assms [unfolded st] this] None show ?thesis
      by (simp add: history_step_def st)
  next
    case (Some r)
    show ?thesis
    proof (cases "r \<in> set used")
      case True
      with Some assms show ?thesis by (simp add: history_step_def st history_le_refl)
    next
      case False
      then have "map_of (receipts (runs sv)) r = None" "r \<notin> run_ids (runs sv)"
        using assms by (auto simp: history_inv_def st)
      with Some have "evolves {r} (runs sv) (runs (serve H clk call sv))"
        by (cases call) (auto simp: start_fresh_evolves [OF inv] accept_fresh_evolves [OF inv] split: if_splits)
      from history_evolves [OF assms [unfolded st] this, of "r # used"] Some False show ?thesis
        by (simp add: history_step_def st)
    qed
  qed
  then show "history_inv (history_step H st ce)" "history_le st (history_step H st ce)" by blast+
qed

interpretation history: monitored_machine "history_step H" history_inv history_le for H
  by unfold_locales (auto intro: history_step_ok history_le_refl history_le_trans)

text \<open>C1: As long as run identifiers are not reused, no sequence of calls rewrites a terminal receipt:
  it stays as it was recorded, or is dropped by the receipt bound and does not come back.\<close>

theorem terminal_receipts_immutable:
  assumes "history_inv st"
    and "map_of (receipts (runs (fst st))) run = Some receipt" and "endedAt receipt \<noteq> None"
  shows "map_of (receipts (runs (fst (foldl (history_step H) st calls)))) run \<in> {None, Some receipt} \<and>
    (map_of (receipts (runs (fst (foldl (history_step H) st calls)))) run = None \<longrightarrow>
      map_of (receipts (runs (fst (foldl (history_step H) st (calls @ later))))) run = None)"
proof -
  let ?s = "foldl (history_step H) st calls" and ?t = "foldl (history_step H) st (calls @ later)"
  have run: "run \<in> set (snd st)" using assms(1,2) by (auto simp: history_inv_def)
  have st: "history_le st ?s" by (rule history.run_rel [OF assms(1)])
  have "history_le ?s ?t" by (rule history.run_rel_split [OF assms(1)])
  moreover from st run have "run \<in> set (snd ?s)" unfolding history_le_def by blast
  ultimately show ?thesis using st run assms(2,3) unfolding history_le_def by blast
qed

definition finished_run :: snapshot where
  "finished_run = trRun (finish_transition sample_clock sample_run FinComplete None)"

definition finished_service :: run_service where
  "finished_service = new_service ((empty_store True)\<lparr>receipts := [(''run1'', finished_run)]\<rparr>)"

lemma finished_run_ended: "endedAt finished_run \<noteq> None"
  by (simp add: finished_run_def transition_defs)

theorem terminal_receipts_immutable_witness:
  "map_of (receipts (runs (fst (foldl (history_step (sample_host True)) (finished_service, [''run1''])
     [(sample_clock, CallStart sample_input), (sample_clock, CallCancelAll)])))) ''run1''
     \<in> {None, Some finished_run}"
proof -
  have "history_inv (finished_service, [''run1''])"
    by (simp add: history_inv_def finished_service_def new_service_def store_inv_def empty_store_def
        run_ids_def jm_wf_def)
  moreover have "map_of (receipts (runs (fst (finished_service, [''run1''])))) ''run1'' = Some finished_run"
    by (simp add: finished_service_def new_service_def)
  ultimately show ?thesis
    using terminal_receipts_immutable [OF _ _ finished_run_ended, of "(finished_service, [''run1''])" "''run1''"
        "sample_host True" "[(sample_clock, CallStart sample_input), (sample_clock, CallCancelAll)]" "[]"]
    by simp
qed

text \<open>Without that discipline immutability fails: \<open>startTurn\<close> accepts the identifier of a run that is
  live in another session; when that run ends, the next note in the second session overwrites its
  terminal receipt with a live one.\<close>

theorem reused_live_run_rewrites_receipt:
  fixes H :: host and clk :: clock
  assumes "\<And>p. hostWriteOk H p" "q \<noteq> q'" "stSessionId i = q" "stSessionId i' = q'"
    "stRunId i' = stRunId i"
  defines "sv1 \<equiv> snd (start_turn H clk (new_service (empty_store True)) i)"
  defines "sv2 \<equiv> snd (start_turn H clk sv1 i')"
  defines "sv3 \<equiv> snd (finish_turn H clk sv2 q FinComplete None)"
  defines "sv4 \<equiv> snd (note_message H clk sv3 q')"
  shows "(\<exists>x. map_of (receipts (runs sv3)) (stRunId i) = Some x \<and> endedAt x \<noteq> None) \<and>
    (\<exists>y. map_of (receipts (runs sv4)) (stRunId i) = Some y \<and> endedAt y = None)"
proof -
  let ?r = "trRun (create_run_start_transition clk i)" and ?r' = "trRun (create_run_start_transition clk i')"
  let ?f = "trRun (finish_transition clk ?r FinComplete None)"
  have small: "receipts (record_run H k r s) = AList.update (runId r) (clone_run H r) (receipts s)"
    if "receipts s = [] \<or> (\<exists>x. receipts s = [(runId r, x)])" for k r s
    using that by (auto simp: record_run_receipts trim_receipts_stop max_receipts_def)
  have live [simp]: "endedAt ?r = None" "endedAt ?r' = None" "runId ?r' = stRunId i"
    by (simp_all add: create_run_start_transition_def Let_def assms(5))
  have r1: "activeRuns (runs sv1) = [(q, ?r)]" "receipts (runs sv1) = [(stRunId i, clone_run H ?r)]"
    "svQueued sv1 = [] \<and> svTasks sv1 = []"
    using start_turn_new [of "new_service (empty_store True)" i H clk]
    by (simp_all add: sv1_def store_save_def small new_service_def empty_store_def max_receipts_def assms(3))
  have r2: "activeRuns (runs sv2) = [(q, ?r), (q', ?r')]" "receipts (runs sv2) = [(stRunId i, clone_run H ?r')]"
    "svQueued sv2 = [] \<and> svTasks sv2 = []"
    using start_turn_new [of sv1 i' H clk] r1 assms(2,4,5)
    by (simp_all add: sv2_def store_save_def small jm_has_def)
  have r3: "activeRuns (runs sv3) = [(q, ?f), (q', ?r')]" "receipts (runs sv3) = [(stRunId i, clone_run H ?f)]"
    using r2 assms(2) by (simp_all add: sv3_def finish_turn_runs finish_current_turn_apply
        apply_transition_runs get_internal_def store_apply_def small transition_ids)
  have "receipts (runs sv4) = [(stRunId i, clone_run H (trRun (message_transition clk ?r')))]"
    using r3 assms(2,5) by (simp add: sv4_def note_message_def apply_transition_runs store_apply_def small transition_ids)
  then show ?thesis using r3 by (simp add: transition_defs split: prod.splits)
qed

theorem reused_live_run_rewrites_receipt_witness:
  "\<exists>sv x y. map_of (receipts (runs sv)) ''run1'' = Some x \<and> endedAt x \<noteq> None \<and>
     map_of (receipts (runs (snd (note_message (sample_host True) sample_clock sv ''s2'')))) ''run1'' = Some y \<and>
     endedAt y = None"
proof -
  have "\<And>p. hostWriteOk (sample_host True) p" by (simp add: sample_host_def)
  from reused_live_run_rewrites_receipt [where i = sample_input and
      i' = "sample_input\<lparr>stSessionId := ''s2''\<rparr>" and q = "''s1''" and q' = "''s2''" and clk = sample_clock, OF this]
  show ?thesis by (simp add: sample_input_def) blast
qed

end
