(* ===== verification/RunControl.thy ===== *)
theory RunControl
  imports RunServiceFacts
begin

text \<open>
  Properties of single operations of the run controller: exclusive task claims, cancellation,
  heartbeats, workspace leases and the failure message a server run leaves.
\<close>

section \<open>Task claims\<close>

text \<open>\<open>sessionTasks\<close> is the index of \<open>activeTasks\<close> by session.\<close>

definition tasks_indexed :: "(string, task_claim) jsmap \<Rightarrow> (string, string) jsmap \<Rightarrow> bool" where
  "tasks_indexed tasks sessions \<longleftrightarrow>
     (\<forall>q r. map_of sessions q = Some r \<longrightarrow> (\<exists>c. map_of tasks r = Some c \<and> tcSessionId c = q)) \<and>
     (\<forall>r c. map_of tasks r = Some c \<longrightarrow> map_of sessions (tcSessionId c) = Some r)"

interpretation task_index: indexed_store "[]" "map_of :: (string, task_claim) jsmap \<Rightarrow> _" AList.update AList.delete
    "[]" "map_of :: (string, string) jsmap \<Rightarrow> _" AList.update AList.delete tcSessionId tasks_indexed
  by unfold_locales (auto simp: tasks_indexed_def)

definition tasks_ok :: "run_service \<Rightarrow> bool" where
  "tasks_ok sv \<longleftrightarrow> tasks_indexed (svTasks sv) (svSessions sv) \<and> \<not> jm_has (svTasks sv) []"

lemma tasks_ok_accept:
  assumes "tasks_ok sv" "tcRunId c \<noteq> []" "\<not> jm_has (svTasks sv) (tcRunId c)"
    "map_of (svSessions sv) (tcSessionId c) = None"
  shows "tasks_ok (accept_claim sv c)"
  using assms task_index.coherent_insert [of "svTasks sv" "svSessions sv" c "tcRunId c"]
  by (simp add: tasks_ok_def accept_claim_def jm_has_def)

lemma tasks_ok_release:
  assumes "tasks_ok sv"
  shows "tasks_ok (release_task_run sv run)"
proof (cases "map_of (svTasks sv) run")
  case (Some c)
  with assms have "map_of (svSessions sv) (tcSessionId c) = Some run"
    unfolding tasks_ok_def by (metis task_index.coherentD(2))
  with Some assms task_index.coherent_remove [OF _ Some] show ?thesis
    by (simp add: tasks_ok_def release_task_run_def Let_def jm_has_def)
qed (use assms in \<open>simp add: release_task_run_def\<close>)

lemma claim_cases:
  assumes "claim_task_run sv c = (res, sv')" "tasks_ok sv"
  obtains "res = ClaimAccepted" "sv' = accept_claim sv c" "\<not> jm_has (svTasks sv) (tcRunId c)"
      "map_of (svSessions sv) (tcSessionId c) = None" "\<not> has_run_id (runs sv) (tcRunId c)"
    | "res \<noteq> ClaimAccepted" "sv' = sv"
proof (cases "res = ClaimAccepted")
  case True
  have "map_of (svSessions sv) q \<noteq> Some []" for q
    using assms(2) unfolding tasks_ok_def jm_has_def by (metis option.distinct(1) task_index.coherentD(1))
  with True assms(1) show ?thesis
    by (intro that(1)) (auto simp: claim_task_run_def conflicting_run_def split: if_splits option.splits)
next
  case False
  with assms(1) show ?thesis
    by (intro that(2)) (auto simp: claim_task_run_def split: if_splits option.splits)
qed

text \<open>C2: Claims are exclusive: a claim is accepted only for a run no task, receipt or journal knows and a
  session without a task, it is refused without effect otherwise, and releasing an accepted claim
  gives back the tasks and sessions there were before.\<close>

theorem claims_exclusive:
  assumes "tasks_ok sv" and "tcRunId c \<noteq> []" and "claim_task_run sv c = (res, sv')"
  shows "tasks_ok sv' \<and>
    (res = ClaimAccepted \<longrightarrow> is_task_active sv' (tcRunId c) \<and>
       \<not> is_task_active sv (tcRunId c) \<and> \<not> has_run_id (runs sv) (tcRunId c) \<and>
       (\<forall>r t. map_of (svTasks sv) r = Some t \<longrightarrow> tcSessionId t \<noteq> tcSessionId c) \<and>
       (\<forall>k. map_of (svTasks (release_task_run sv' (tcRunId c))) k = map_of (svTasks sv) k) \<and>
       (\<forall>q. map_of (svSessions (release_task_run sv' (tcRunId c))) q = map_of (svSessions sv) q)) \<and>
    (res \<noteq> ClaimAccepted \<longrightarrow> sv' = sv)"
  using assms(3,1)
proof (cases rule: claim_cases)
  case 1
  have "tcSessionId t \<noteq> tcSessionId c" if "map_of (svTasks sv) r = Some t" for r t
    using assms(1) that 1(4) unfolding tasks_ok_def by (metis option.distinct(1) task_index.coherentD(2))
  moreover have "tasks_ok sv'" using tasks_ok_accept [OF assms(1,2)] 1 by simp
  ultimately show ?thesis
    using 1 by (simp add: is_task_active_def accept_claim_def release_task_run_def Let_def jm_has_def)
qed (use assms(1) in simp)

definition sample_claim :: task_claim where
  "sample_claim = \<lparr>tcRunId = ''run1'', tcSessionId = ''s1'', tcRoomId = ''room1'', tcResponseId = ''resp1'',
     tcSource = ''desktop''\<rparr>"

theorem claims_exclusive_witness:
  "fst (claim_task_run (new_service (empty_store True)) sample_claim) = ClaimAccepted \<and>
   is_task_active (snd (claim_task_run (new_service (empty_store True)) sample_claim)) ''run1''"
proof -
  let ?r = "claim_task_run (new_service (empty_store True)) sample_claim"
  have "tasks_ok (new_service (empty_store True))"
    by (simp add: tasks_ok_def tasks_indexed_def new_service_def jm_has_def)
  moreover have "fst ?r = ClaimAccepted"
    by (simp add: claim_task_run_def conflicting_run_def new_service_def empty_store_def has_run_id_def
        jm_has_def get_internal_def)
  moreover have id: "tcRunId sample_claim = ''run1''" by (simp add: sample_claim_def)
  then have "tcRunId sample_claim \<noteq> []" by simp
  ultimately have "is_task_active (snd ?r) (tcRunId sample_claim)"
    using claims_exclusive [OF _ _ surjective_pairing, of "new_service (empty_store True)" sample_claim]
    by blast
  with \<open>fst ?r = ClaimAccepted\<close> show ?thesis unfolding id by blast
qed

section \<open>Workspace leases\<close>

text \<open>A lease on a workspace forbids a switch to any other workspace for as long as it is held, and
  disposing it gives back exactly the earlier decisions.\<close>

theorem workspace_lease_holds:
  assumes "register_workspace_run sv run dir = (Inr (), sv')"
  shows "(target \<noteq> dir \<longrightarrow> workspace_switch_conflict sv' target \<noteq> None) \<and>
    workspace_switch_conflict (dispose_workspace_run sv' run dir) target = workspace_switch_conflict sv target"
proof -
  have n: "map_of (svWorkspaces sv) run = None"
    and sv': "svWorkspaces sv' = svWorkspaces sv @ [(run, dir)]"
    using assms by (auto simp: register_workspace_run_def jm_has_def jm_update_absent split: if_splits)
  have "AList.delete run (svWorkspaces sv) = svWorkspaces sv"
    using n by (simp add: delete_idem map_of_eq_None_iff)
  then have "svWorkspaces (dispose_workspace_run sv' run dir) = svWorkspaces sv"
    using n by (simp add: dispose_workspace_run_def sv' jm_delete_filter map_add_def)
  then show ?thesis
    using sv' by (auto simp: workspace_switch_conflict_def find_None_iff)
qed

theorem workspace_lease_holds_witness:
  "workspace_switch_conflict (snd (register_workspace_run (new_service (empty_store True)) ''run1'' ''/w'')) ''/x''
     \<noteq> None"
proof -
  let ?r = "register_workspace_run (new_service (empty_store True)) ''run1'' ''/w''"
  have "?r = (Inr (), snd ?r)" by (simp add: register_workspace_run_def new_service_def jm_has_def)
  from workspace_lease_holds [OF this, of "''/x''"] show ?thesis by simp
qed

section \<open>The failure message of a server run\<close>

text \<open>What a provider reported never reaches the record of a failed server run: with a claimed task,
  finishing a turn with an error gives the same result and state whatever the message, and the stored
  receipt carries the fixed public text.\<close>

theorem failure_detail_hidden:
  assumes "map_of (activeRuns (runs sv)) q = Some r" and "is_task_active sv (runId r)"
    and "endedAt r = None"
  shows "finish_turn H clk sv q FinError detail = finish_turn H clk sv q FinError detail' \<and>
    (\<forall>x. map_of (receipts (runs (snd (finish_turn H clk sv q FinError detail)))) (runId r) = Some x \<longrightarrow>
       errorMessage x = Some ''The response could not be completed. Please try again.'')"
proof -
  have "finish_turn H clk sv q FinError detail = finish_turn H clk sv q FinError detail'"
    using assms by (simp add: finish_turn_def get_internal_def is_task_active_def)
  moreover
  let ?f = "trRun (finish_transition clk r FinError (Some server_run_failure_message))"
  have "runs (snd (finish_turn H clk sv q FinError detail)) = snd (store_apply H (runs sv) q ?f)"
    using assms by (simp add: finish_turn_runs finish_current_turn_apply apply_transition_runs
        get_internal_def is_task_active_def)
  then have "errorMessage x = Some ''The response could not be completed. Please try again.''"
    if "map_of (receipts (runs (snd (finish_turn H clk sv q FinError detail)))) (runId r) = Some x" for x
    using that record_run_get [of H q ?f "runs sv" "runId r" x]
    by (simp add: store_apply_def transition_ids transition_defs server_run_failure_message_def)
  ultimately show ?thesis by blast
qed

definition claimed_service :: run_service where
  "claimed_service = (new_service ((empty_store True)\<lparr>activeRuns := [(''s1'', sample_run)],
     receipts := [(''run1'', sample_run)]\<rparr>))\<lparr>svTasks := [(''run1'', sample_claim)],
     svSessions := [(''s1'', ''run1'')], svAbort := [(''run1'', 7)]\<rparr>"

lemma claimed_service_simps [simp]:
  "activeRuns (runs claimed_service) = [(''s1'', sample_run)]"
  "receipts (runs claimed_service) = [(''run1'', sample_run)]"
  "eventJournals (runs claimed_service) = []" "svTasks claimed_service = [(''run1'', sample_claim)]"
  "svAbort claimed_service = [(''run1'', 7)]" "svAborted claimed_service = []"
  by (simp_all add: claimed_service_def new_service_def empty_store_def)

theorem failure_detail_hidden_witness:
  "finish_turn (sample_host True) sample_clock claimed_service ''s1'' FinError (Some ''key sk-1 rejected'') =
   finish_turn (sample_host True) sample_clock claimed_service ''s1'' FinError None"
proof -
  have "map_of (activeRuns (runs claimed_service)) ''s1'' = Some sample_run"
    "is_task_active claimed_service (runId sample_run)" "endedAt sample_run = None"
    by (simp_all add: is_task_active_def jm_has_def)
  from failure_detail_hidden [OF this] show ?thesis by blast
qed

section \<open>Heartbeats\<close>

text \<open>A heartbeat names no session, so it changes a session's run only when that is the only live run.\<close>

theorem heartbeat_only_single_live:
  assumes "store_inv (runs sv)"
    and "map_of (activeRuns (runs (snd (note_heartbeat H clk sv stat preview indicator)))) q \<noteq>
         map_of (activeRuns (runs sv)) q"
  shows "\<exists>r. map_of (activeRuns (runs sv)) q = Some r \<and> list_active H sv = [clone_run H r]"
proof -
  have wf: "jm_wf (activeRuns (runs sv))" using assms(1) by (simp add: store_inv_def)
  obtain run where one: "list_active H sv = [run]"
    using assms(2) by (auto simp: note_heartbeat_def list_active_def split: list.splits)
  then have ch: "map_of (activeRuns (runs (snd (apply_run_transition H sv (sessionId run)
      (\<lambda>_. heartbeat_transition clk run stat preview indicator))))) q \<noteq> map_of (activeRuns (runs sv)) q"
    using assms(2) by (simp add: note_heartbeat_def list_active_def)
  then have q: "q = sessionId run"
    by (auto simp: apply_transition_runs store_apply_def split: option.splits if_splits)
  from one have "run \<in> set (store_list H (runs sv))"
    unfolding list_active_def by (metis Cons_eq_filterD in_set_conv_decomp)
  then obtain q0 r where r: "map_of (activeRuns (runs sv)) q0 = Some r" "run = clone_run H r"
    using wf by (auto simp: store_list_def dest: jm_in_get)
  then have "q0 = q" using store_invD(1) [OF assms(1) r(1)] q by simp
  with r one show ?thesis by blast
qed

theorem heartbeat_only_single_live_witness:
  "list_active (sample_host True) claimed_service = [clone_run (sample_host True) sample_run]"
proof -
  have inv: "store_inv (runs claimed_service)" by (simp add: store_inv_def jm_wf_def)
  have "list_active (sample_host True) claimed_service = [clone_run (sample_host True) sample_run]"
    by (simp add: list_active_def store_list_def)
  then have "map_of (activeRuns (runs (snd (note_heartbeat (sample_host True) sample_clock claimed_service ''acting'' None None)))) ''s1'' =
      Some (trRun (heartbeat_transition sample_clock (clone_run (sample_host True) sample_run) ''acting'' None None))"
    by (simp add: note_heartbeat_def list_active_def apply_transition_runs store_apply_def)
  moreover have "trRun (heartbeat_transition sample_clock (clone_run (sample_host True) sample_run) ''acting'' None None) \<noteq> sample_run"
  proof
    assume "trRun (heartbeat_transition sample_clock (clone_run (sample_host True) sample_run) ''acting'' None None) = sample_run"
    then have "status (trRun (heartbeat_transition sample_clock (clone_run (sample_host True) sample_run) ''acting'' None None)) = Thinking"
      by simp
    then show False by (simp add: transition_defs)
  qed
  ultimately show ?thesis
    using heartbeat_only_single_live [OF inv, of "sample_host True" sample_clock "''acting''" None None "''s1''"]
    by simp
qed

section \<open>Cancellation\<close>

lemma flush_written: "(\<And>p. hostWriteOk H p) \<Longrightarrow> fst (flush_persistence H s) = Inr ()"
  by (simp add: flush_ok)

lemma finish_turn_written:
  assumes "\<And>p. hostWriteOk H p"
  shows "fst (finish_turn H clk sv q stat msg) = Inr ()"
proof -
  have "\<exists>sv'. finish_current_turn H clk sv q stat m = (Inr (), sv')" for m
    using flush_written [OF assms] unfolding finish_current_turn_apply
    by (auto simp: apply_run_transition_def with_store_def store_apply_def Let_def
        split: option.splits prod.splits sum.splits) (metis Inl_Inr_False fst_conv)
  then show ?thesis by (auto simp: finish_turn_def Let_def split: prod.splits sum.splits) (metis Inl_Inr_False prod.inject)
qed

lemma cancel_live_turn_written:
  assumes "\<And>p. hostWriteOk H p"
  shows "fst (cancel_live_turn H clk run receipt te sv) = Inr ()"
  using finish_turn_written [OF assms] by (auto simp: cancel_live_turn_def split: option.splits)

lemma append_task_written:
  assumes "\<And>p. hostWriteOk H p"
  shows "\<exists>e. fst (append_task_event H clk sv run ty d t) = Inr e"
proof -
  obtain x s' where "append_event H clk (runs sv) run ty d t = (Inr x, s')"
    using append_event_written assms by blast
  then show ?thesis by (simp add: append_task_event_def with_store_def split: prod.splits)
qed

lemma cancel_known_terminal:
  assumes "get_terminal_event (runs sv) run \<noteq> None"
  shows "cancel_run H clk sv run = (Inr (True, map_of (receipts (runs sv)) run), sv)"
  using assms
  by (auto simp: cancel_run_def Let_def cancel_live_turn_def abort_live_def get_by_run_id_def split: option.splits)

text \<open>With a writable disk a cancellation of a known run ends in the append of its terminal event.\<close>

lemma cancel_run_open:
  assumes ok: "\<And>p. hostWriteOk H p" and known: "known_run sv run"
    and none: "get_terminal_event (runs sv) run = None"
  obtains sv1 where
    "cancel_live_turn H clk run (map_of (receipts (runs sv)) run) None
       (abort_live (map_of (svAbort sv) run) (map_of (receipts (runs sv)) run) None sv) = (Inr (), sv1)"
    "snd (cancel_run H clk sv run) = snd (append_task_event H (\<lambda>k. clk (3 + k)) sv1 run ''response.cancelled''
       (cancel_event_data (map_of (svTasks sv) run) (map_of (receipts (runs sv)) run) run) True)"
    "fst (cancel_run H clk sv run) = Inr (True, map_of (receipts (runs (snd (cancel_run H clk sv run)))) run)"
proof -
  obtain res sv1 where c: "cancel_live_turn H clk run (map_of (receipts (runs sv)) run)
      (get_terminal_event (runs sv) run) (abort_live (map_of (svAbort sv) run)
        (map_of (receipts (runs sv)) run) (get_terminal_event (runs sv) run) sv) = (res, sv1)"
    by fastforce
  obtain res' sv2 where a: "append_task_event H (\<lambda>k. clk (3 + k)) sv1 run ''response.cancelled''
      (cancel_event_data (map_of (svTasks sv) run) (map_of (receipts (runs sv)) run) run) True = (res', sv2)"
    by fastforce
  have "res = Inr ()" using cancel_live_turn_written [OF ok] c by (metis fst_conv)
  moreover obtain e where "res' = Inr e" using append_task_written [OF ok] a by (metis fst_conv)
  ultimately show thesis
    using that [of sv1] known none c a by (simp add: cancel_run_cases [OF c a])
qed

lemma cancel_live_turn_finishes:
  assumes "store_inv (runs sv)" "map_of (activeRuns (runs sv)) q = Some r" "endedAt r = None"
    and "map_of (receipts (runs sv)) (runId r) = Some x"
  shows "map_of (activeRuns (runs (snd (cancel_live_turn H clk (runId r) (Some x) None sv)))) q =
    Some (trRun (finish_transition clk r FinCancelled None))"
proof -
  have "endedAt x = None" "sessionId x = q"
    using store_invD(2,3) [OF assms(1,2,4)] assms(3) by simp_all
  with assms(2,3) show ?thesis
    by (simp add: cancel_live_turn_def get_internal_def finish_turn_runs finish_current_turn_apply
        apply_transition_runs store_apply_def)
qed

lemma finish_turn_aborted [simp]: "svAborted (snd (finish_turn H clk sv q st msg)) = svAborted sv"
  by (auto simp: finish_turn_def finish_current_turn_def Let_def with_store_def emit_run_update_def
      split: option.splits prod.splits sum.splits)

lemma append_task_aborted [simp]: "svAborted (snd (append_task_event H clk sv run ty d t)) = svAborted sv"
  by (auto simp: append_task_event_def with_store_def split: prod.splits sum.splits)

lemma cancel_live_turn_aborted [simp]:
  "svAborted (snd (cancel_live_turn H clk run receipt te sv)) = svAborted sv"
  by (auto simp: cancel_live_turn_def split: option.splits)



end
