(* ===== verification/Approvals.thy ===== *)
theory Approvals
  imports JsValue Interfaces
begin

text \<open>
  Execution approvals, \<open>services/execution-approval\<close>. The state is the list of records in the file
  and the calls that are suspended in an \<open>await\<close> of the native approval service: a request keeps the
  store it read before the await, a resolution keeps the identifier it checked. Each handler is cut at
  its await, so interleavings are sequences of steps. \<open>clk n\<close> is the \<open>n\<close>-th reading of the clock;
  reading and writing the file are taken to succeed. Identifiers come from the native service or from
  \<open>randomUUID()\<close> and are arguments.
\<close>

section \<open>Records\<close>

datatype approval_status = Pending | Approved | Denied | Used | Expired

record approval =
  apId :: string
  apPlatform :: string
  apUser :: string
  apRoom :: string
  apSessionKey :: "string option"
  apBot :: "string option"
  apSession :: "string option"
  apRun :: "string option"
  apCommand :: jstr
  apReason :: string
  apCreatedAt :: time
  apExpiresAt :: time
  apApprovedAt :: "time option"
  apDeniedAt :: "time option"
  apUsedAt :: "time option"
  apNative :: bool
  apStatus :: approval_status

record approval_match =
  mtPlatform :: string
  mtUser :: string
  mtRoom :: string
  mtSessionKey :: "string option"
  mtBot :: "string option"
  mtSession :: "string option"
  mtRun :: "string option"
  mtCommand :: jstr

record approval_request = approval_match +
  rqRuntimeRoom :: "string option"
  rqReason :: string
  rqTtlMinutes :: "int option"

datatype approval_error =
    ApprovalNotFound string
  | ApprovalNotPending string approval_status

section \<open>Updates of one record\<close>

definition max_stored_approvals :: nat where "max_stored_approvals = 200"

definition create_pending_approval_record ::
  "clock \<Rightarrow> string \<Rightarrow> string option \<Rightarrow> approval_request \<Rightarrow> int \<Rightarrow> approval" where
  "create_pending_approval_record clk uuid nativeTask input ttl =
     \<lparr>apId = (case nativeTask of Some t \<Rightarrow> t | None \<Rightarrow> uuid),
      apPlatform = mtPlatform input, apUser = mtUser input, apRoom = mtRoom input,
      apSessionKey = mtSessionKey input, apBot = mtBot input, apSession = mtSession input,
      apRun = mtRun input, apCommand = mtCommand input, apReason = rqReason input,
      apCreatedAt = clk 0, apExpiresAt = clk 1 + ttl * 60000, apApprovedAt = None,
      apDeniedAt = None, apUsedAt = None,
      apNative = (case nativeTask of Some t \<Rightarrow> t \<noteq> [] | None \<Rightarrow> False), apStatus = Pending\<rparr>"

definition matches_approval_request :: "approval \<Rightarrow> approval_match \<Rightarrow> bool" where
  "matches_approval_request r input =
     (apPlatform r = mtPlatform input \<and> apUser r = mtUser input \<and> apRoom r = mtRoom input \<and>
      apSessionKey r = mtSessionKey input \<and> apBot r = mtBot input \<and>
      apSession r = mtSession input \<and> apRun r = mtRun input \<and>
      trim_text (apCommand r) = trim_text (mtCommand input))"

definition mark_approval_approved :: "time \<Rightarrow> bool \<Rightarrow> approval \<Rightarrow> approval" where
  "mark_approval_approved now useImmediately r =
     r\<lparr>apApprovedAt := Some (case apApprovedAt r of Some t \<Rightarrow> t | None \<Rightarrow> now),
       apStatus := (if useImmediately then Used else Approved),
       apUsedAt := (if useImmediately then Some now else apUsedAt r)\<rparr>"

definition mark_approval_denied :: "time \<Rightarrow> approval \<Rightarrow> approval" where
  "mark_approval_denied now r =
     r\<lparr>apDeniedAt := Some (case apDeniedAt r of Some t \<Rightarrow> t | None \<Rightarrow> now), apStatus := Denied\<rparr>"

definition mark_approval_used :: "time \<Rightarrow> approval \<Rightarrow> approval" where
  "mark_approval_used now r = r\<lparr>apStatus := Used, apUsedAt := Some now\<rparr>"

definition mark_approval_expired :: "approval \<Rightarrow> approval" where
  "mark_approval_expired r = r\<lparr>apStatus := Expired\<rparr>"

definition due :: "time \<Rightarrow> approval \<Rightarrow> bool" where
  "due now r = (apStatus r = Pending \<and> apExpiresAt r \<le> now)"

text \<open>\<open>clk i\<close> is the reading made for the record at position \<open>i\<close>.\<close>

definition expire_pending_approvals :: "clock \<Rightarrow> approval list \<Rightarrow> bool \<times> approval list" where
  "expire_pending_approvals clk rs =
     (list_ex (\<lambda>(i, r). due (clk i) r) (enumerate 0 rs),
      map (\<lambda>(i, r). if due (clk i) r then mark_approval_expired r else r) (enumerate 0 rs))"

definition prune_approval_store :: "approval list \<Rightarrow> approval list" where
  "prune_approval_store rs =
     (if max_stored_approvals < length rs then slice_last max_stored_approvals rs else rs)"

section \<open>The stored list\<close>

text \<open>\<open>readActiveApprovalStore\<close>: the active list, and the file as it leaves it.\<close>

definition read_active_approval_store :: "clock \<Rightarrow> approval list \<Rightarrow> approval list" where
  "read_active_approval_store clk disk =
     (case expire_pending_approvals clk disk of
        (changed, rs) \<Rightarrow> if changed then prune_approval_store rs else rs)"

definition get_approval_record :: "clock \<Rightarrow> approval list \<Rightarrow> string \<Rightarrow> approval option" where
  "get_approval_record clk disk k = find (\<lambda>r. apId r = k) (read_active_approval_store clk disk)"

definition assert_pending_approval ::
  "clock \<Rightarrow> approval list \<Rightarrow> string \<Rightarrow> (approval_error, approval, approval list) outcome" where
  "assert_pending_approval clk disk k =
     (case get_approval_record clk disk k of
        None \<Rightarrow> (Inl (ApprovalNotFound k), read_active_approval_store clk disk)
      | Some r \<Rightarrow>
          if apStatus r \<noteq> Pending
          then (Inl (ApprovalNotPending k (apStatus r)), read_active_approval_store clk disk)
          else (Inr r, read_active_approval_store clk disk))"

text \<open>The update is applied to the first record with the identifier, in place.\<close>

fun update_first :: "string \<Rightarrow> (approval \<Rightarrow> approval) \<Rightarrow> approval list \<Rightarrow> approval list" where
  "update_first k f [] = []"
| "update_first k f (r # rs) = (if apId r = k then f r # rs else r # update_first k f rs)"

definition update_approval_record ::
  "clock \<Rightarrow> approval list \<Rightarrow> string \<Rightarrow> (approval \<Rightarrow> approval) \<Rightarrow>
   (approval_error, approval, approval list) outcome" where
  "update_approval_record clk disk k f =
     (let active = read_active_approval_store clk disk in
      case find (\<lambda>r. apId r = k) active of
        None \<Rightarrow> (Inl (ApprovalNotFound k), disk)
      | Some r \<Rightarrow> (Inr (f r), prune_approval_store (update_first k f active)))"

definition safe_mutate_approval_record ::
  "clock \<Rightarrow> approval list \<Rightarrow> string \<Rightarrow> (approval \<Rightarrow> approval) \<Rightarrow> approval list" where
  "safe_mutate_approval_record clk disk k f = snd (update_approval_record clk disk k f)"

section \<open>Reporting and use\<close>

definition list_execution_approvals ::
  "clock \<Rightarrow> approval list \<Rightarrow> approval_status option \<Rightarrow> approval list" where
  "list_execution_approvals clk disk st =
     rev (filter (\<lambda>r. case st of Some x \<Rightarrow> apStatus r = x | None \<Rightarrow> True)
       (read_active_approval_store clk disk))"

definition latest_pending_for_session :: "clock \<Rightarrow> approval list \<Rightarrow> string \<Rightarrow> approval option" where
  "latest_pending_for_session clk disk key =
     find (\<lambda>r. apSessionKey r = Some key \<and> apStatus r = Pending)
       (rev (read_active_approval_store clk disk))"

definition find_pending_execution_approval ::
  "clock \<Rightarrow> approval list \<Rightarrow> approval_match \<Rightarrow> approval option" where
  "find_pending_execution_approval clk disk input =
     find (\<lambda>r. apStatus r = Pending \<and> matches_approval_request r input)
       (rev (read_active_approval_store clk disk))"

definition usable :: "approval_match \<Rightarrow> approval \<Rightarrow> bool" where
  "usable input r = (apStatus r = Approved \<and> matches_approval_request r input)"

fun update_first_usable ::
  "approval_match \<Rightarrow> (approval \<Rightarrow> approval) \<Rightarrow> approval list \<Rightarrow> approval list" where
  "update_first_usable input f [] = []"
| "update_first_usable input f (r # rs) =
     (if usable input r then f r # rs else r # update_first_usable input f rs)"

text \<open>\<open>useApprovedExecutionApproval\<close>; \<open>clk (length disk)\<close> stamps the use.\<close>

definition use_approved_execution_approval ::
  "clock \<Rightarrow> approval list \<Rightarrow> approval_match \<Rightarrow> approval option \<times> approval list" where
  "use_approved_execution_approval clk disk input =
     (let active = read_active_approval_store clk disk;
          mark = mark_approval_used (clk (length disk))
      in case find (usable input) active of
           None \<Rightarrow> (None, active)
         | Some r \<Rightarrow> (Some (mark r), update_first_usable input mark active))"

section \<open>The service\<close>

datatype selection = SelectApprove bool | SelectDeny

record approval_system =
  asDisk :: "approval list"
  asBound :: bool
  asRequests :: "(approval list \<times> approval_request) list"
  asResolutions :: "(string \<times> selection) list"

definition ttl_of :: "approval_request \<Rightarrow> int" where
  "ttl_of input = (case rqTtlMinutes input of Some n \<Rightarrow> n | None \<Rightarrow> 15)"

text \<open>\<open>requestExecutionApproval\<close> after the await: the record is pushed onto the store read before it.\<close>

definition finish_request ::
  "clock \<Rightarrow> string \<Rightarrow> string option \<Rightarrow> approval list \<Rightarrow> approval_request \<Rightarrow> approval list" where
  "finish_request clk uuid nativeTask stale input =
     prune_approval_store
       (stale @ [create_pending_approval_record clk uuid nativeTask input (ttl_of input)])"

definition request_execution_approval ::
  "clock \<Rightarrow> string \<Rightarrow> approval_request \<Rightarrow> approval_system \<Rightarrow> approval_system" where
  "request_execution_approval clk uuid input s =
     (if asBound s \<and> (case rqRuntimeRoom input of Some r \<Rightarrow> r \<noteq> [] | None \<Rightarrow> False)
      then s\<lparr>asRequests := asRequests s @ [(asDisk s, input)]\<rparr>
      else s\<lparr>asDisk := finish_request clk uuid None (asDisk s) input\<rparr>)"

definition mark_selected :: "time \<Rightarrow> selection \<Rightarrow> approval \<Rightarrow> approval" where
  "mark_selected now sel = (case sel of
     SelectApprove useImmediately \<Rightarrow> mark_approval_approved now useImmediately
   | SelectDeny \<Rightarrow> mark_approval_denied now)"

text \<open>\<open>approveExecutionApproval\<close> and \<open>denyExecutionApproval\<close>, up to the await and after it.\<close>

definition finish_resolution ::
  "clock \<Rightarrow> approval list \<Rightarrow> string \<Rightarrow> selection \<Rightarrow> (approval_error, approval, approval list) outcome" where
  "finish_resolution clk disk k sel =
     update_approval_record clk disk k (mark_selected (clk (length disk)) sel)"

definition resolve_execution_approval ::
  "clock \<Rightarrow> clock \<Rightarrow> string \<Rightarrow> selection \<Rightarrow> approval_system \<Rightarrow>
   (approval_error, approval option, approval_system) outcome" where
  "resolve_execution_approval clk clk' k sel s =
     (case assert_pending_approval clk (asDisk s) k of
        (Inl e, d) \<Rightarrow> (Inl e, s\<lparr>asDisk := d\<rparr>)
      | (Inr pending, d) \<Rightarrow>
          if apNative pending
          then (Inr None, s\<lparr>asDisk := d, asResolutions := asResolutions s @ [(k, sel)]\<rparr>)
          else
            (case finish_resolution clk' d k sel of
               (Inl e, d') \<Rightarrow> (Inl e, s\<lparr>asDisk := d'\<rparr>)
             | (Inr r, d') \<Rightarrow> (Inr (Some r), s\<lparr>asDisk := d'\<rparr>)))"

text \<open>
  Every step of the service. The native service answers a suspended request with a task identifier,
  resumes a suspended resolution, and calls back with the user's selection or a timeout.
\<close>

datatype approval_call =
    ApBind bool
  | ApRequest string approval_request
  | ApRequestReturns nat string string
  | ApResolve clock string selection
  | ApResolveReturns nat
  | ApNativeSelect string bool
  | ApNativeTimeout string
  | ApUse approval_match
  | ApRead

definition remove_nth :: "nat \<Rightarrow> 'a list \<Rightarrow> 'a list" where
  "remove_nth i xs = take i xs @ drop (Suc i) xs"

fun approval_step :: "approval_system \<Rightarrow> clock \<times> approval_call \<Rightarrow> approval_system" where
  "approval_step s (clk, ApBind b) = s\<lparr>asBound := b\<rparr>"
| "approval_step s (clk, ApRequest uuid input) = request_execution_approval clk uuid input s"
| "approval_step s (clk, ApRequestReturns i uuid task) =
     (if i < length (asRequests s) then
        (case asRequests s ! i of (stale, input) \<Rightarrow>
           s\<lparr>asDisk := finish_request clk uuid (if task = [] then None else Some task) stale input,
             asRequests := remove_nth i (asRequests s)\<rparr>)
      else s)"
| "approval_step s (clk, ApResolve clk' k sel) = snd (resolve_execution_approval clk clk' k sel s)"
| "approval_step s (clk, ApResolveReturns i) =
     (if i < length (asResolutions s) then
        (case asResolutions s ! i of (k, sel) \<Rightarrow>
           s\<lparr>asDisk := snd (finish_resolution clk (asDisk s) k sel),
             asResolutions := remove_nth i (asResolutions s)\<rparr>)
      else s)"
| "approval_step s (clk, ApNativeSelect k approve) =
     s\<lparr>asDisk := safe_mutate_approval_record clk (asDisk s) k
        (mark_selected (clk (length (asDisk s))) (if approve then SelectApprove False else SelectDeny))\<rparr>"
| "approval_step s (clk, ApNativeTimeout k) =
     s\<lparr>asDisk := safe_mutate_approval_record clk (asDisk s) k mark_approval_expired\<rparr>"
| "approval_step s (clk, ApUse input) =
     s\<lparr>asDisk := snd (use_approved_execution_approval clk (asDisk s) input)\<rparr>"
| "approval_step s (clk, ApRead) = s\<lparr>asDisk := read_active_approval_store clk (asDisk s)\<rparr>"

end
