(* ===== verification/ApprovalFacts.thy ===== *)
theory ApprovalFacts
  imports Approvals
begin

text \<open>
  Properties of execution approvals: without the native service an approval is consumed at most once
  and only by the call it was granted for; with it, a suspended request writes back a stale store and
  a late selection re-arms a used approval.
\<close>

section \<open>How a record may develop\<close>

text \<open>
  A used or denied record is final. A resolution reads the clock once to check that the record is
  pending and again when it updates it, so a record that expires in between is still resolved.
\<close>

fun reaches :: "approval_status \<Rightarrow> approval_status \<Rightarrow> bool" where
  "reaches Pending y = True"
| "reaches Expired y = (y \<noteq> Pending)"
| "reaches Approved y = (y = Approved \<or> y = Used)"
| "reaches x y = (x = y)"

definition becomes :: "approval \<Rightarrow> approval \<Rightarrow> bool" where
  "becomes r r' \<longleftrightarrow> apId r' = apId r \<and> reaches (apStatus r) (apStatus r') \<and>
     apNative r' = apNative r \<and> apCommand r' = apCommand r \<and> apPlatform r' = apPlatform r \<and>
     apUser r' = apUser r \<and> apRoom r' = apRoom r \<and> apSessionKey r' = apSessionKey r \<and>
     apBot r' = apBot r \<and> apSession r' = apSession r \<and> apRun r' = apRun r"

lemma reaches_refl [simp]: "reaches x x"
  by (cases x) auto

lemma reaches_trans: "reaches x y \<Longrightarrow> reaches y z \<Longrightarrow> reaches x z"
  by (cases x; cases y) auto

lemma becomes_refl [simp]: "becomes r r"
  by (simp add: becomes_def)

lemma becomes_trans: "becomes r s \<Longrightarrow> becomes s t \<Longrightarrow> becomes r t"
  by (auto simp: becomes_def intro: reaches_trans)

lemma becomes_selected [simp]:
  assumes "apStatus r = Pending \<or> apStatus r = Expired"
  shows "becomes r (mark_selected t sel r)"
  using assms by (cases sel) (auto simp: becomes_def mark_selected_def mark_approval_approved_def
      mark_approval_denied_def)

lemma becomes_marks [simp]:
  "apStatus r = Pending \<Longrightarrow> becomes r (mark_approval_expired r)"
  "apStatus r = Approved \<Longrightarrow> becomes r (mark_approval_used t r)"
  by (simp_all add: becomes_def mark_approval_expired_def mark_approval_used_def)

text \<open>A list that develops from another: records are dropped or developed, none is added or reordered.\<close>

definition develops :: "approval list \<Rightarrow> approval list \<Rightarrow> bool" where
  "develops xs ys \<longleftrightarrow> list_emb (\<lambda>y x. becomes x y) ys xs"

lemma develops_refl [simp]: "develops xs xs"
  by (auto simp: develops_def intro: list_emb_refl)

lemma develops_trans: "develops xs ys \<Longrightarrow> develops ys zs \<Longrightarrow> develops xs zs"
  unfolding develops_def by (rule list_emb_trans [where P = "\<lambda>y x. becomes x y"]) (auto intro: becomes_trans)

lemma develops_subseq: "subseq ys xs \<Longrightarrow> develops xs ys"
  unfolding develops_def by (rule list_emb_mono [where P = "(=)", rule_format]) auto

lemma develops_map: "(\<And>x. x \<in> set xs \<Longrightarrow> becomes x (f x)) \<Longrightarrow> develops xs (map f xs)"
  by (induction xs) (auto simp: develops_def)

lemma develops_from: "develops xs ys \<Longrightarrow> y \<in> set ys \<Longrightarrow> \<exists>x \<in> set xs. becomes x y"
  unfolding develops_def by (induction rule: list_emb.induct) auto

lemma develops_ids: "develops xs ys \<Longrightarrow> subseq (map apId ys) (map apId xs)"
  unfolding develops_def by (induction rule: list_emb.induct) (auto simp: becomes_def)

lemma develops_set_ids: "develops xs ys \<Longrightarrow> apId ` set ys \<subseteq> apId ` set xs"
  by (metis develops_ids set_map subseq_set)

lemma prune_subseq: "subseq (prune_approval_store rs) rs"
  by (simp add: prune_approval_store_def slice_last_def)
    (metis append_take_drop_id list_emb_append2 subseq_order.order_refl)

lemma expire_nth:
  "snd (expire_pending_approvals clk rs) =
     map (\<lambda>i. if due (clk i) (rs ! i) then mark_approval_expired (rs ! i) else rs ! i) [0..<length rs]"
  by (rule nth_equalityI) (simp_all add: expire_pending_approvals_def nth_enumerate_eq)

lemma expire_develops: "develops rs (snd (expire_pending_approvals clk rs))"
proof -
  have "list_emb (\<lambda>y x. becomes x y) (map (\<lambda>(i, r). if due (clk i) r then mark_approval_expired r else r)
      (enumerate n rs)) rs" for n
    by (induction rs arbitrary: n) (auto simp: due_def)
  then show ?thesis by (simp add: develops_def expire_pending_approvals_def)
qed

lemma read_active_develops: "develops disk (read_active_approval_store clk disk)"
proof -
  obtain c rs where e: "expire_pending_approvals clk disk = (c, rs)" by fastforce
  then have "develops disk rs" using expire_develops [of disk clk] by simp
  with e show ?thesis
    by (auto simp: read_active_approval_store_def intro: develops_trans develops_subseq prune_subseq)
qed

lemma update_first_develops:
  "(\<And>r. find (\<lambda>r. apId r = k) rs = Some r \<Longrightarrow> becomes r (f r)) \<Longrightarrow> develops rs (update_first k f rs)"
  by (induction rs) (auto simp: develops_def list_emb_refl)

lemma update_first_usable_develops:
  "(\<And>r. find (usable input) rs = Some r \<Longrightarrow> becomes r (f r)) \<Longrightarrow>
   develops rs (update_first_usable input f rs)"
  by (induction rs) (auto simp: develops_def list_emb_refl)

lemma use_approved_found:
  assumes "use_approved_execution_approval clk disk input = (Some r, d)"
  obtains r0 where "r0 \<in> set (read_active_approval_store clk disk)" "usable input r0"
    "r = mark_approval_used (clk (length disk)) r0" "r \<in> set d"
proof -
  let ?a = "read_active_approval_store clk disk"
  obtain r0 where r0: "find (usable input) ?a = Some r0" "r = mark_approval_used (clk (length disk)) r0"
    "d = update_first_usable input (mark_approval_used (clk (length disk))) ?a"
    using assms by (auto simp: use_approved_execution_approval_def Let_def split: option.splits)
  have "find (usable input) rs = Some r0 \<Longrightarrow> f r0 \<in> set (update_first_usable input f rs)" for rs f
    by (induction rs) (auto split: if_splits)
  with r0 have "r \<in> set d" by simp
  moreover have "r0 \<in> set ?a" "usable input r0" using r0(1) by (auto simp: find_Some_iff)
  ultimately show thesis using r0(2) by (intro that)
qed

lemma use_approved_develops: "develops disk (snd (use_approved_execution_approval clk disk input))"
proof -
  let ?a = "read_active_approval_store clk disk"
  have "develops ?a (update_first_usable input (mark_approval_used t) ?a)" for t
    by (rule update_first_usable_develops) (auto simp: find_Some_iff usable_def)
  with read_active_develops [of disk clk] show ?thesis
    by (auto simp: use_approved_execution_approval_def Let_def split: option.splits intro: develops_trans)
qed

lemma read_active_member:
  assumes "y \<in> set (read_active_approval_store clk rs)"
  shows "\<exists>x \<in> set rs. y = x \<or> apStatus x = Pending \<and> y = mark_approval_expired x"
proof -
  obtain c ys where e: "expire_pending_approvals clk rs = (c, ys)" by fastforce
  have "y \<in> set (snd (expire_pending_approvals clk rs))"
    using assms subseq_set [OF prune_subseq, of ys]
    by (auto simp: read_active_approval_store_def e split: if_splits)
  then obtain i where "i < length rs" "y = (if due (clk i) (rs ! i) then mark_approval_expired (rs ! i) else rs ! i)"
    by (auto simp: expire_nth)
  then show ?thesis by (auto simp: due_def)
qed

lemma distinct_ids_unique:
  "distinct (map apId rs) \<Longrightarrow> x \<in> set rs \<Longrightarrow> y \<in> set rs \<Longrightarrow> apId x = apId y \<Longrightarrow> x = y"
  by (simp add: distinct_map inj_on_def)

lemma resolve_local_develops:
  assumes "\<forall>r \<in> set (asDisk s). \<not> apNative r" "distinct (map apId (asDisk s))"
  shows "develops (asDisk s) (asDisk (snd (resolve_execution_approval clk clk' k sel s)))"
    and "asResolutions (snd (resolve_execution_approval clk clk' k sel s)) = asResolutions s"
    and "asRequests (snd (resolve_execution_approval clk clk' k sel s)) = asRequests s"
    and "asBound (snd (resolve_execution_approval clk clk' k sel s)) = asBound s"
proof -
  let ?d = "read_active_approval_store clk (asDisk s)"
  have dv: "develops (asDisk s) ?d" by (rule read_active_develops)
  have "develops ?d (snd (finish_resolution clk' ?d k sel))"
    if r: "r \<in> set ?d" "apId r = k" "apStatus r = Pending" for r
  proof -
    have "becomes r' (mark_selected t sel r')"
      if "find (\<lambda>r. apId r = k) (read_active_approval_store clk' ?d) = Some r'" for r' t
    proof -
      have r': "r' \<in> set (read_active_approval_store clk' ?d)" "apId r' = k"
        using that by (auto simp: find_Some_iff)
      obtain x where x: "x \<in> set ?d" "r' = x \<or> apStatus x = Pending \<and> r' = mark_approval_expired x"
        using read_active_member [OF r'(1)] by blast
      then have "apId x = apId r" using r'(2) r(2) by (auto simp: mark_approval_expired_def)
      moreover have "distinct (map apId ?d)"
        using develops_ids [OF dv] assms(2) by (rule subseq_distinct)
      ultimately have "x = r" using x(1) r(1) distinct_ids_unique by blast
      with x(2) r(3) have "apStatus r' = Pending \<or> apStatus r' = Expired"
        by (auto simp: mark_approval_expired_def)
      then show ?thesis by simp
    qed
    then have "develops (read_active_approval_store clk' ?d)
        (update_first k (mark_selected t sel) (read_active_approval_store clk' ?d))" for t
      by (rule update_first_develops)
    then have "develops ?d (prune_approval_store
        (update_first k (mark_selected t sel) (read_active_approval_store clk' ?d)))" for t
      using read_active_develops develops_subseq [OF prune_subseq] develops_trans by blast
    then show ?thesis
      by (simp add: finish_resolution_def update_approval_record_def Let_def split: option.splits)
  qed
  then have fin: "develops (asDisk s) (snd (finish_resolution clk' ?d k sel))"
    if "r \<in> set ?d" "apId r = k" "apStatus r = Pending" for r
    using that dv develops_trans by blast
  have native: "\<not> apNative r" if "r \<in> set ?d" for r
    using develops_from [OF dv that] assms(1) by (auto simp: becomes_def)
  note defs = resolve_execution_approval_def assert_pending_approval_def get_approval_record_def
  show "develops (asDisk s) (asDisk (snd (resolve_execution_approval clk clk' k sel s)))"
  proof (cases "find (\<lambda>r. apId r = k) ?d")
    case None
    with dv show ?thesis by (simp add: defs)
  next
    case (Some r)
    then have r: "r \<in> set ?d" "apId r = k" by (auto simp: find_Some_iff)
    with Some dv native fin [OF r] show ?thesis
      by (auto simp: defs split: prod.splits sum.splits)
  qed
  show "asResolutions (snd (resolve_execution_approval clk clk' k sel s)) = asResolutions s"
    using native by (auto simp: defs find_Some_iff split: option.splits prod.splits sum.splits)
  show "asRequests (snd (resolve_execution_approval clk clk' k sel s)) = asRequests s"
    "asBound (snd (resolve_execution_approval clk clk' k sel s)) = asBound s"
    by (auto simp: defs split: option.splits prod.splits sum.splits)
qed

section \<open>The service without native approvals\<close>

text \<open>
  The history of a service no native approval service was bound to: the calls of the native service do
  not occur, and a request gets an identifier that was not handed out before.
\<close>

definition local_step ::
  "approval_system \<times> string list \<Rightarrow> clock \<times> approval_call \<Rightarrow> approval_system \<times> string list" where
  "local_step st ce =
     (case snd ce of
        ApRequest uuid input \<Rightarrow>
          if uuid \<in> set (snd st) then st else (approval_step (fst st) ce, uuid # snd st)
      | ApResolve clk' k sel \<Rightarrow> (approval_step (fst st) ce, snd st)
      | ApUse input \<Rightarrow> (approval_step (fst st) ce, snd st)
      | ApRead \<Rightarrow> (approval_step (fst st) ce, snd st)
      | _ \<Rightarrow> st)"

definition local_inv :: "approval_system \<times> string list \<Rightarrow> bool" where
  "local_inv st \<longleftrightarrow> \<not> asBound (fst st) \<and> distinct (map apId (asDisk (fst st))) \<and>
     apId ` set (asDisk (fst st)) \<subseteq> set (snd st) \<and> (\<forall>r \<in> set (asDisk (fst st)). \<not> apNative r)"

definition local_le :: "approval_system \<times> string list \<Rightarrow> approval_system \<times> string list \<Rightarrow> bool" where
  "local_le st st' \<longleftrightarrow> set (snd st) \<subseteq> set (snd st') \<and>
     (\<forall>r' \<in> set (asDisk (fst st')). apId r' \<in> set (snd st) \<longrightarrow>
        (\<exists>r \<in> set (asDisk (fst st)). becomes r r'))"

lemma local_le_refl: "local_le st st"
  by (auto simp: local_le_def intro: becomes_refl)

lemma local_le_trans:
  assumes "local_le s t" "local_le t u"
  shows "local_le s u"
  unfolding local_le_def
proof (intro conjI ballI impI)
  show "set (snd s) \<subseteq> set (snd u)" using assms unfolding local_le_def by blast
  fix r assume r: "r \<in> set (asDisk (fst u))" "apId r \<in> set (snd s)"
  then obtain r1 where r1: "r1 \<in> set (asDisk (fst t))" "becomes r1 r"
    using assms unfolding local_le_def by blast
  then have "apId r1 \<in> set (snd s)" using r(2) by (simp add: becomes_def)
  with r1 assms(1) obtain r0 where "r0 \<in> set (asDisk (fst s))" "becomes r0 r1"
    unfolding local_le_def by blast
  with r1 show "\<exists>r0 \<in> set (asDisk (fst s)). becomes r0 r" by (blast intro: becomes_trans)
qed

lemma local_develops:
  assumes "local_inv (s, used)" "develops (asDisk s) (asDisk s')" "asBound s' = asBound s"
  shows "local_inv (s', used)" "local_le (s, used) (s', used)"
  using assms develops_set_ids [OF assms(2)] subseq_distinct [OF develops_ids [OF assms(2)]]
    develops_from [OF assms(2)]
  by (auto simp: local_inv_def local_le_def becomes_def)

lemma created_id [simp]:
  "apId (create_pending_approval_record clk uuid None input ttl) = uuid"
  "\<not> apNative (create_pending_approval_record clk uuid None input ttl)"
  by (simp_all add: create_pending_approval_record_def)

lemma local_request:
  fixes input :: approval_request and clk :: clock
  assumes "local_inv (s, used)" "uuid \<notin> set used"
  defines "s' \<equiv> request_execution_approval clk uuid input s"
  shows "local_inv (s', uuid # used)" "local_le (s, used) (s', uuid # used)"
proof -
  let ?n = "create_pending_approval_record clk uuid None input (ttl_of input)"
  have s': "asDisk s' = prune_approval_store (asDisk s @ [?n])" "\<not> asBound s'"
    using assms(1) by (simp_all add: s'_def local_inv_def request_execution_approval_def finish_request_def)
  have sub: "subseq (asDisk s') (asDisk s @ [?n])" unfolding s'(1) by (rule prune_subseq)
  have "uuid \<notin> apId ` set (asDisk s)" using assms(1,2) by (auto simp: local_inv_def)
  then have "distinct (map apId (asDisk s @ [?n]))" using assms(1) by (simp add: local_inv_def)
  then have "distinct (map apId (asDisk s'))" using sub subseq_distinct subseq_map by blast
  moreover have mem: "set (asDisk s') \<subseteq> insert ?n (set (asDisk s))" using subseq_set [OF sub] by simp
  moreover have "apId ` set (asDisk s') \<subseteq> insert uuid (apId ` set (asDisk s))"
    using image_mono [OF mem, of apId] by simp
  moreover have "\<not> apNative ?n" by simp
  then have "\<forall>r \<in> set (asDisk s'). \<not> apNative r" using mem assms(1) unfolding local_inv_def fst_conv by blast
  ultimately show "local_inv (s', uuid # used)"
    using assms(1) s'(2) unfolding local_inv_def fst_conv snd_conv list.set by blast
  show "local_le (s, used) (s', uuid # used)"
    using mem assms(2) by (force simp: local_le_def)
qed

lemma local_step_ok:
  assumes "local_inv st"
  shows "local_inv (local_step st ce)" "local_le st (local_step st ce)"
proof -
  obtain s used clk call where st: "st = (s, used)" "ce = (clk, call)" by (cases st, cases ce) auto
  have inv: "local_inv (s, used)" using assms st by simp
  have "local_inv (local_step st ce) \<and> local_le st (local_step st ce)"
  proof (cases call)
    case (ApRequest uuid input)
    with local_request [OF inv] inv show ?thesis by (auto simp: local_step_def st local_le_refl)
  next
    case (ApResolve clk' k sel)
    have "\<forall>r \<in> set (asDisk s). \<not> apNative r" "distinct (map apId (asDisk s))"
      using inv by (simp_all add: local_inv_def)
    note r = resolve_local_develops [OF this]
    from local_develops [OF inv r(1) r(4)] ApResolve show ?thesis by (simp add: local_step_def st)
  next
    case (ApUse input)
    have "develops (asDisk s) (asDisk (approval_step s (clk, ApUse input)))"
      by (simp add: use_approved_develops)
    from local_develops [OF inv this] ApUse show ?thesis by (simp add: local_step_def st)
  next
    case ApRead
    have "develops (asDisk s) (asDisk (approval_step s (clk, ApRead)))" by (simp add: read_active_develops)
    from local_develops [OF inv this] ApRead show ?thesis by (simp add: local_step_def st)
  qed (use inv in \<open>simp_all add: local_step_def st local_le_refl\<close>)
  then show "local_inv (local_step st ce)" "local_le st (local_step st ce)" by blast+
qed

interpretation local_approvals: monitored_machine local_step local_inv local_le
  by unfold_locales (auto intro: local_step_ok local_le_refl local_le_trans)


lemma expire_nothing_due:
  assumes "\<And>i. i < length rs \<Longrightarrow> \<not> due (clk i) (rs ! i)"
  shows "expire_pending_approvals clk rs = (False, rs)"
proof -
  have "snd (expire_pending_approvals clk rs) = map (\<lambda>i. rs ! i) [0..<length rs]"
    unfolding expire_nth using assms by (intro map_cong) auto
  moreover have "\<not> fst (expire_pending_approvals clk rs)"
    using assms by (auto simp: expire_pending_approvals_def list_ex_iff in_set_enumerate_eq)
  ultimately show ?thesis by (simp add: map_nth prod_eq_iff)
qed

lemma read_active_idle: "\<forall>r \<in> set rs. apStatus r \<noteq> Pending \<Longrightarrow> read_active_approval_store clk rs = rs"
  by (simp add: read_active_approval_store_def expire_nothing_due due_def)

definition sample_match :: approval_match where
  "sample_match = \<lparr>mtPlatform = ''telegram'', mtUser = ''u1'', mtRoom = ''room1'', mtSessionKey = None,
     mtBot = None, mtSession = None, mtRun = Some ''run1'', mtCommand = js ''ls''\<rparr>"

definition sample_grant :: "string \<Rightarrow> approval" where
  "sample_grant k = \<lparr>apId = k, apPlatform = ''telegram'', apUser = ''u1'', apRoom = ''room1'',
     apSessionKey = None, apBot = None, apSession = None, apRun = Some ''run1'', apCommand = js ''ls'',
     apReason = ''remote'', apCreatedAt = 0, apExpiresAt = 900000, apApprovedAt = Some 5,
     apDeniedAt = None, apUsedAt = None, apNative = False, apStatus = Approved\<rparr>"

lemma sample_grant_simps [simp]:
  "apId (sample_grant k) = k" "apStatus (sample_grant k) = Approved" "\<not> apNative (sample_grant k)"
  "usable sample_match (sample_grant k)"
  by (simp_all add: sample_grant_def usable_def matches_approval_request_def sample_match_def)

definition sample_approvals :: "approval list \<Rightarrow> bool \<Rightarrow> approval_system" where
  "sample_approvals disk b = \<lparr>asDisk = disk, asBound = b, asRequests = [], asResolutions = []\<rparr>"


section \<open>With the native service\<close>

lemma find_usable_expired: "find (usable input) (map (\<lambda>(i, r). if due (clk i) r then mark_approval_expired r else r)
    (enumerate n rs)) = find (usable input) rs"
  by (induction rs arbitrary: n) (auto simp: due_def usable_def mark_approval_expired_def)

lemma find_usable_active:
  "length rs \<le> max_stored_approvals \<Longrightarrow>
   find (usable input) (read_active_approval_store clk rs) = find (usable input) rs"
  by (simp add: read_active_approval_store_def expire_pending_approvals_def prune_approval_store_def
      find_usable_expired)

lemma use_approved_by_find:
  assumes "length rs \<le> max_stored_approvals" "find (usable input) rs = Some r"
  shows "fst (use_approved_execution_approval clk rs input) = Some (mark_approval_used (clk (length rs)) r)"
  using assms by (simp add: use_approved_execution_approval_def Let_def find_usable_active)

text \<open>A request suspended in the native service keeps the store it read: an approval used while it
  waits is written back as approved when it returns, and is used a second time.\<close>

theorem stale_request_allows_second_use:
  fixes clk0 clk2 :: clock and uuid :: string
  assumes "asBound s" and "rqRuntimeRoom input = Some room" "room \<noteq> []" and "asRequests s = []"
    and "length (asDisk s) < max_stored_approvals" and "task \<noteq> []"
    and "use_approved_execution_approval clk1 (asDisk s) m = (Some r, d)"
  defines "t \<equiv> foldl approval_step s
      [(clk0, ApRequest uuid input), (clk1, ApUse m), (clk2, ApRequestReturns 0 uuid task)]"
  shows "\<exists>r'. fst (use_approved_execution_approval clk3 (asDisk t) m) = Some r' \<and> apId r' = apId r"
proof -
  let ?n = "create_pending_approval_record clk2 uuid (Some task) input (ttl_of input)"
  have t: "asDisk t = asDisk s @ [?n]"
    using assms(1-6) by (simp add: t_def request_execution_approval_def finish_request_def
        prune_approval_store_def)
  obtain r0 where r0: "find (usable m) (asDisk s) = Some r0" "apId r0 = apId r"
    using assms(5,7) use_approved_by_find [of "asDisk s" m _ clk1]
    by (auto simp: use_approved_execution_approval_def Let_def find_usable_active mark_approval_used_def
        split: option.splits)
  have "find (usable m) (xs @ ys) = Some r0" if "find (usable m) xs = Some r0" for xs ys
    using that by (induction xs) (auto split: if_splits)
  then have "find (usable m) (asDisk t) = Some r0" unfolding t using r0(1) by blast
  then have "fst (use_approved_execution_approval clk3 (asDisk t) m) =
      Some (mark_approval_used (clk3 (length (asDisk t))) r0)"
    using assms(5) t by (intro use_approved_by_find) simp_all
  with r0(2) show ?thesis by (simp add: mark_approval_used_def)
qed

definition sample_request :: approval_request where
  "sample_request = approval_match.extend sample_match
     \<lparr>rqRuntimeRoom = Some ''rr'', rqReason = ''remote'', rqTtlMinutes = None\<rparr>"

theorem stale_request_allows_second_use_witness:
  "\<exists>r'. fst (use_approved_execution_approval (\<lambda>_. 12) (asDisk (foldl approval_step
      (sample_approvals [sample_grant ''a1''] True)
      [(\<lambda>_. 7, ApRequest ''u'' sample_request), (\<lambda>_. 9, ApUse sample_match),
       (\<lambda>_. 10, ApRequestReturns 0 ''u'' ''t1'')])) sample_match) = Some r' \<and>
    apId r' = apId (mark_approval_used 9 (sample_grant ''a1''))"
proof -
  let ?s = "sample_approvals [sample_grant ''a1''] True"
  have "use_approved_execution_approval (\<lambda>_. 9) (asDisk ?s) sample_match =
      (Some (mark_approval_used 9 (sample_grant ''a1'')), [mark_approval_used 9 (sample_grant ''a1'')])"
    by (simp add: use_approved_execution_approval_def read_active_idle sample_approvals_def Let_def)
  moreover have "rqRuntimeRoom sample_request = Some ''rr''"
    by (simp add: sample_request_def approval_match.defs)
  ultimately show ?thesis
    by (intro stale_request_allows_second_use [where room = "''rr''" and r = "mark_approval_used 9 (sample_grant ''a1'')"])
      (simp_all add: sample_approvals_def max_stored_approvals_def)
qed

text \<open>The callback of the native service does not look at the status: an approve selection that
  arrives after the approval was used makes it approved again.\<close>

theorem late_selection_rearms:
  assumes "length disk \<le> max_stored_approvals" and "disk = pre @ r # post"
    and "\<forall>x \<in> set pre. apId x \<noteq> apId r" and "apStatus r = Used"
  shows "\<exists>r' pre' post'. asDisk (approval_step (sample_approvals disk True) (clk, ApNativeSelect (apId r) True)) =
      pre' @ r' # post' \<and> apId r' = apId r \<and> apStatus r' = Approved \<and> apUsedAt r' = apUsedAt r"
proof -
  let ?a = "read_active_approval_store clk disk"
  have a: "?a = map (\<lambda>(i, x). if due (clk i) x then mark_approval_expired x else x) (enumerate 0 disk)"
    using assms(1) by (simp add: read_active_approval_store_def expire_pending_approvals_def
        prune_approval_store_def)
  obtain pre' post' where split: "?a = pre' @ r # post'" and pre: "\<forall>x \<in> set pre'. apId x \<noteq> apId r"
  proof -
    let ?f = "\<lambda>(i, x). if due (clk i) x then mark_approval_expired x else x"
    have "?a = map ?f (enumerate 0 pre) @ r # map ?f (enumerate (Suc (length pre)) post)"
      unfolding a using assms(4) by (simp add: assms(2) enumerate_append_eq due_def)
    moreover have "apId x \<noteq> apId r" if x: "x \<in> set (map ?f (enumerate 0 pre))" for x
    proof -
      from x obtain p where p: "p \<in> set (enumerate 0 pre)" "x = ?f p" unfolding set_map by blast
      from p(1) have "snd p \<in> set (map snd (enumerate 0 pre))" unfolding set_map by (rule imageI)
      then have "snd p \<in> set pre" by (simp only: map_snd_enumerate)
      moreover have "apId x = apId (snd p)"
        unfolding p(2) by (simp add: mark_approval_expired_def split: prod.splits)
      ultimately have "\<exists>y \<in> set pre. apId x = apId y" by blast
      with assms(3) show ?thesis by auto
    qed
    ultimately show thesis using that by blast
  qed
  have upd: "update_first (apId r) f (pre' @ r # post') = pre' @ f r # post'" for f
    using pre by (induction pre') auto
  have fnd: "find (\<lambda>x. apId x = apId r) (pre' @ r # post') = Some r"
    using pre by (induction pre') auto
  have "length (pre' @ r # post') \<le> max_stored_approvals" using assms(1) by (simp add: split [symmetric] a)
  then have "asDisk (approval_step (sample_approvals disk True) (clk, ApNativeSelect (apId r) True)) =
      pre' @ mark_selected (clk (length disk)) (SelectApprove False) r # post'"
    by (simp add: sample_approvals_def safe_mutate_approval_record_def update_approval_record_def Let_def
        split fnd upd prune_approval_store_def)
  moreover have "apStatus (mark_selected t (SelectApprove False) r) = Approved"
    "apId (mark_selected t (SelectApprove False) r) = apId r"
    "apUsedAt (mark_selected t (SelectApprove False) r) = apUsedAt r" for t
    by (simp_all add: mark_selected_def mark_approval_approved_def)
  ultimately show ?thesis by blast
qed

theorem late_selection_rearms_witness:
  "\<exists>r' pre' post'. asDisk (approval_step (sample_approvals [mark_approval_used 9 (sample_grant ''a1'')] True)
      (\<lambda>_. 12, ApNativeSelect ''a1'' True)) = pre' @ r' # post' \<and> apId r' = ''a1'' \<and> apStatus r' = Approved"
proof -
  have "apId (mark_approval_used 9 (sample_grant ''a1'')) = ''a1''"
    "apStatus (mark_approval_used 9 (sample_grant ''a1'')) = Used"
    by (simp_all add: mark_approval_used_def)
  then show ?thesis
    using late_selection_rearms [of "[mark_approval_used 9 (sample_grant ''a1'')]" "[]"
        "mark_approval_used 9 (sample_grant ''a1'')" "[]" "\<lambda>_. 12"]
    by (simp add: max_stored_approvals_def) blast
qed

end
