(* ===== verification/Admission.thy ===== *)
theory Admission
  imports JsValue Interfaces
begin

text \<open>
  Host-wide execution admission, \<open>apps/desktop/src/main/execution-admission.ts\<close>: leases, one waiting
  queue per bot and the round-robin order of the bots. A promise returned by \<open>acquire\<close> is a ticket, a
  number; \<open>adSettled\<close> lists the tickets that were settled with their outcome. \<open>randomUUID()\<close> and the
  clock are a values \<open>nat \<Rightarrow> string \<times> time\<close> given to each operation. Timers and abort signals are the operations
  they call when they fire.
\<close>

section \<open>Host paths\<close>

text \<open>The functions of \<open>node:path\<close> the module uses, on POSIX paths.\<close>

fun split_slash :: "string \<Rightarrow> string list" where
  "split_slash [] = [[]]"
| "split_slash (c # s) =
     (if c = CHR ''/'' then [] # split_slash s
      else case split_slash s of p # ps \<Rightarrow> (c # p) # ps | [] \<Rightarrow> [[c]])"

fun join_slash :: "string list \<Rightarrow> string" where
  "join_slash [] = []"
| "join_slash [p] = p"
| "join_slash (p # q # ps) = p @ ''/'' @ join_slash (q # ps)"

text \<open>The components left after \<open>.\<close>, \<open>..\<close> and empty ones are resolved; \<open>acc\<close> is reversed.\<close>

fun resolve_parts :: "string list \<Rightarrow> string list \<Rightarrow> string list" where
  "resolve_parts acc [] = rev acc"
| "resolve_parts acc (p # ps) =
     (if p = [] \<or> p = ''.'' then resolve_parts acc ps
      else if p = ''..'' then resolve_parts (tl acc) ps
      else resolve_parts (p # acc) ps)"

definition path_parts :: "string \<Rightarrow> string list" where
  "path_parts s = resolve_parts [] (split_slash s)"

definition is_absolute :: "string \<Rightarrow> bool" where
  "is_absolute s = (take 1 s = ''/'')"

definition resolve_path :: "string \<Rightarrow> string" where
  "resolve_path s = ''/'' @ join_slash (path_parts s)"

fun common_length :: "'a list \<Rightarrow> 'a list \<Rightarrow> nat" where
  "common_length (x # xs) (y # ys) = (if x = y then Suc (common_length xs ys) else 0)"
| "common_length _ _ = 0"

definition relative_path :: "string \<Rightarrow> string \<Rightarrow> string" where
  "relative_path source target =
     (let l = path_parts source; r = path_parts target; n = common_length l r in
      join_slash (replicate (length l - n) ''..'' @ drop n r))"

definition starts_with :: "string \<Rightarrow> string \<Rightarrow> bool" where
  "starts_with s p = (take (length p) s = p)"

definition roots_overlap :: "string \<Rightarrow> string \<Rightarrow> bool" where
  "roots_overlap left right =
     (let a = relative_path left right; b = relative_path right left in
      a = [] \<or> b = [] \<or>
      \<not> starts_with a ''..'' \<and> \<not> is_absolute a \<or>
      \<not> starts_with b ''..'' \<and> \<not> is_absolute b)"

definition has_control_character :: "string \<Rightarrow> bool" where
  "has_control_character s =
     list_ex (\<lambda>c. let code = of_char c :: nat in code \<le> 31 \<or> 127 \<le> code \<and> code \<le> 159) s"

section \<open>Claims, leases and the admission state\<close>

datatype admission_kind = Foreground | AutomaticAcp

datatype refusal =
    TotalLimit | AutomaticAcpLimit | BotLimit | MutationConflict | RunExistsAlready
  | QueueFull | QueueTimeout | BotStopped

datatype admission_error =
    InvalidRoot
  | OutOfRange string
  | AdmissionAborted
  | InvalidRequest
  | InvalidRelease

datatype admission_result = Admitted string | Refused refusal

record claim =
  clBot :: string
  clRun :: jstr
  clSession :: jstr
  clKind :: admission_kind
  clRoot :: "string option"

record lease = claim +
  lsId :: string
  lsAdmittedAt :: time

record limits =
  maxConcurrent :: nat
  maxAutomaticAcp :: nat
  maxPerBotActive :: nat
  maxPending :: nat
  maxPendingPerBot :: nat
  queueTimeoutMs :: nat

record waiting =
  wtTicket :: nat
  wtInput :: claim

record admission =
  adLimits :: limits
  adLeases :: "(string, lease) jsmap"
  adPending :: "(string, waiting list) jsmap"
  adOrder :: "string list"
  adCount :: nat
  adTickets :: nat
  adSettled :: "(nat \<times> (admission_error + admission_result)) list"

type_synonym fresh_supply = "nat \<Rightarrow> string \<times> time"

definition validated_root :: "string option \<Rightarrow> admission_error + string option" where
  "validated_root mroot = (case mroot of
     None \<Rightarrow> Inr None
   | Some r \<Rightarrow>
       if \<not> is_absolute r \<or> has_control_character r \<or> resolve_path r \<noteq> r then Inl InvalidRoot
       else Inr (Some r))"

definition bounded_integer :: "int \<Rightarrow> string \<Rightarrow> nat \<Rightarrow> admission_error + nat" where
  "bounded_integer v name maximum =
     (if v < 1 \<or> int maximum < v then Inl (OutOfRange name) else Inr (nat v))"

record admission_options =
  opConcurrent :: "int option"
  opAutomatic :: "int option"
  opPerBot :: "int option"
  opPending :: "int option"
  opPendingPerBot :: "int option"
  opTimeout :: "int option"

definition option_or :: "int option \<Rightarrow> int \<Rightarrow> int" where
  "option_or x d = (case x of Some v \<Rightarrow> v | None \<Rightarrow> d)"

fun bind_result :: "'e + 'a \<Rightarrow> ('a \<Rightarrow> 'e + 'b) \<Rightarrow> 'e + 'b" where
  "bind_result (Inl e) f = Inl e"
| "bind_result (Inr x) f = f x"

text \<open>The constructor; \<open>parallelism\<close> is \<open>availableParallelism()\<close>.\<close>

definition new_admission :: "nat \<Rightarrow> admission_options \<Rightarrow> admission_error + admission" where
  "new_admission parallelism ops =
     bind_result (bounded_integer (option_or (opConcurrent ops) (int (min parallelism 12)))
       ''maxConcurrent'' 256) (\<lambda>concurrent.
     bind_result (bounded_integer (option_or (opAutomatic ops) (int (max 1 (concurrent div 2))))
       ''maxAutomaticAcp'' concurrent) (\<lambda>automatic.
     bind_result (bounded_integer (option_or (opPerBot ops) (int (min 2 concurrent)))
       ''maxPerBotActive'' concurrent) (\<lambda>perBot.
     bind_result (bounded_integer (option_or (opPending ops) 512) ''maxPending'' 4096) (\<lambda>pending.
     bind_result (bounded_integer (option_or (opPendingPerBot ops) 16) ''maxPendingPerBot'' pending)
       (\<lambda>pendingPerBot.
     bind_result (bounded_integer (option_or (opTimeout ops) 45000) ''queueTimeoutMs'' 120000)
       (\<lambda>timeout.
     Inr \<lparr>adLimits = \<lparr>maxConcurrent = concurrent, maxAutomaticAcp = automatic,
            maxPerBotActive = perBot, maxPending = pending, maxPendingPerBot = pendingPerBot,
            queueTimeoutMs = timeout\<rparr>,
          adLeases = [], adPending = [], adOrder = [], adCount = 0, adTickets = 0,
          adSettled = []\<rparr>))))))"

section \<open>Checking and granting\<close>

definition check :: "limits \<Rightarrow> lease list \<Rightarrow> claim \<Rightarrow> refusal option" where
  "check L leases input =
     (if list_ex (\<lambda>l. clRun l = clRun input) leases then Some RunExistsAlready
      else if maxConcurrent L \<le> length leases then Some TotalLimit
      else if maxPerBotActive L \<le> length (filter (\<lambda>l. clBot l = clBot input) leases) then Some BotLimit
      else if clKind input = AutomaticAcp \<and>
              maxAutomaticAcp L \<le> length (filter (\<lambda>l. clKind l = AutomaticAcp) leases)
      then Some AutomaticAcpLimit
      else (case clRoot input of
          None \<Rightarrow> None
        | Some mroot \<Rightarrow>
            if mroot \<noteq> [] \<and> list_ex (\<lambda>l. case clRoot l of
                 Some held \<Rightarrow> held \<noteq> [] \<and> roots_overlap held mroot | None \<Rightarrow> False) leases
            then Some MutationConflict else None))"

definition check_state :: "admission \<Rightarrow> claim \<Rightarrow> refusal option" where
  "check_state s input = check (adLimits s) (map snd (adLeases s)) input"

definition make_lease :: "string \<times> time \<Rightarrow> claim \<Rightarrow> lease" where
  "make_lease fresh input = claim.extend input \<lparr>lsId = fst fresh, lsAdmittedAt = snd fresh\<rparr>"

definition grant :: "string \<times> time \<Rightarrow> claim \<Rightarrow> admission \<Rightarrow> admission_result \<times> admission" where
  "grant fresh input s =
     (Admitted (fst fresh), s\<lparr>adLeases := AList.update (fst fresh) (make_lease fresh input) (adLeases s)\<rparr>)"

definition claim_now ::
  "string \<times> time \<Rightarrow> claim \<Rightarrow> admission \<Rightarrow> (admission_error, admission_result, admission) outcome" where
  "claim_now fresh input s =
     (case validated_root (clRoot input) of
        Inl e \<Rightarrow> (Inl e, s)
      | Inr mroot \<Rightarrow>
          let normalized = input\<lparr>clRoot := mroot\<rparr> in
          (case check_state s normalized of
             Some refusal \<Rightarrow> (Inr (Refused refusal), s)
           | None \<Rightarrow> (case grant fresh normalized s of (r, s') \<Rightarrow> (Inr r, s'))))"

section \<open>The waiting queues\<close>

definition settle :: "nat \<Rightarrow> admission_error + admission_result \<Rightarrow> admission \<Rightarrow> admission" where
  "settle t r s = s\<lparr>adSettled := adSettled s @ [(t, r)]\<rparr>"

definition remove_pending :: "waiting \<Rightarrow> admission \<Rightarrow> admission option" where
  "remove_pending item s =
     (case map_of (adPending s) (clBot (wtInput item)) of
        None \<Rightarrow> None
      | Some queue \<Rightarrow>
          (case remove_first (\<lambda>w. wtTicket w = wtTicket item) queue of
             None \<Rightarrow> None
           | Some rest \<Rightarrow>
               let s1 = s\<lparr>adPending := AList.update (clBot (wtInput item)) rest (adPending s),
                          adCount := adCount s - 1\<rparr>
               in Some (if rest = []
                  then s1\<lparr>adPending := AList.delete (clBot (wtInput item)) (adPending s1),
                          adOrder := remove1 (clBot (wtInput item)) (adOrder s1)\<rparr>
                  else s1)))"

definition queue_head :: "admission \<Rightarrow> string \<Rightarrow> waiting option" where
  "queue_head s botId = (case map_of (adPending s) botId of
     Some (w # ws) \<Rightarrow> Some w | _ \<Rightarrow> None)"

definition admissible_head :: "admission \<Rightarrow> string \<Rightarrow> bool" where
  "admissible_head s botId = (case queue_head s botId of
     Some w \<Rightarrow> check_state s (wtInput w) = None | None \<Rightarrow> False)"

text \<open>One pass of the loop of \<open>drain\<close>: the first bot in order whose head is admissible is served.\<close>

definition serve_bot :: "string \<times> time \<Rightarrow> string \<Rightarrow> waiting \<Rightarrow> admission \<Rightarrow> admission" where
  "serve_bot fresh botId item s =
     (let s1 = (case remove_pending item s of Some t \<Rightarrow> t | None \<Rightarrow> s);
          (result, s2) = grant fresh (wtInput item) s1;
          s3 = (if botId \<in> set (adOrder s2) then s2\<lparr>adOrder := remove1 botId (adOrder s2) @ [botId]\<rparr> else s2)
      in settle (wtTicket item) (Inr result) s3)"

definition drain_once :: "string \<times> time \<Rightarrow> admission \<Rightarrow> admission option" where
  "drain_once fresh s =
     (case find (admissible_head s) (adOrder s) of
        None \<Rightarrow> None
      | Some botId \<Rightarrow>
          (case queue_head s botId of
             None \<Rightarrow> None
           | Some item \<Rightarrow> Some (serve_bot fresh botId item s)))"

fun drain_loop :: "nat \<Rightarrow> fresh_supply \<Rightarrow> admission \<Rightarrow> admission" where
  "drain_loop 0 fresh s = s"
| "drain_loop (Suc n) fresh s =
     (case drain_once (fresh 0) s of
        None \<Rightarrow> s
      | Some s' \<Rightarrow> drain_loop n (\<lambda>i. fresh (Suc i)) s')"

definition waiting_items :: "admission \<Rightarrow> waiting list" where
  "waiting_items s = concat (map snd (adPending s))"

text \<open>Every pass serves a waiting item, so their number bounds the passes.\<close>

definition drain :: "fresh_supply \<Rightarrow> admission \<Rightarrow> admission" where
  "drain fresh s = drain_loop (length (waiting_items s)) fresh s"

section \<open>The operations\<close>

text \<open>
  \<open>acquire\<close>: a ticket that is settled at once, or an item in the bot's queue followed by a drain.
  \<open>aborted\<close> is the state of the signal, \<open>now\<close> the reading of \<open>Date.now()\<close>.
\<close>

definition new_ticket :: "admission_error + admission_result \<Rightarrow> admission \<Rightarrow> admission" where
  "new_ticket r s = settle (adTickets s) r (s\<lparr>adTickets := Suc (adTickets s)\<rparr>)"

definition wait_ms :: "limits \<Rightarrow> time option \<Rightarrow> time \<Rightarrow> int" where
  "wait_ms L deadline now = min (int (queueTimeoutMs L))
     (case deadline of None \<Rightarrow> int (queueTimeoutMs L) | Some d \<Rightarrow> max 0 (d - now))"

definition enqueue :: "claim \<Rightarrow> admission \<Rightarrow> admission" where
  "enqueue input s =
     (let item = \<lparr>wtTicket = adTickets s, wtInput = input\<rparr>;
          s1 = (case map_of (adPending s) (clBot input) of
              Some queue \<Rightarrow> s\<lparr>adPending := AList.update (clBot input) (queue @ [item]) (adPending s)\<rparr>
            | None \<Rightarrow> s\<lparr>adPending := AList.update (clBot input) [item] (adPending s),
                       adOrder := adOrder s @ [clBot input]\<rparr>)
      in s1\<lparr>adCount := Suc (adCount s1), adTickets := Suc (adTickets s1)\<rparr>)"

definition acquire ::
  "fresh_supply \<Rightarrow> bool \<Rightarrow> time option \<Rightarrow> time \<Rightarrow> claim \<Rightarrow> admission \<Rightarrow> (admission_error, nat, admission) outcome" where
  "acquire fresh aborted deadline now input s =
     (if aborted then (Inr (adTickets s), new_ticket (Inl AdmissionAborted) s)
      else
        (case validated_root (clRoot input) of
           Inl e \<Rightarrow> (Inl e, s)
         | Inr mroot \<Rightarrow>
             let normalized = input\<lparr>clRoot := mroot\<rparr> in
             (Inr (adTickets s),
              if list_ex (\<lambda>p. clRun (snd p) = clRun input) (adLeases s) \<or>
                 list_ex (\<lambda>p. list_ex (\<lambda>w. clRun (wtInput w) = clRun input) (snd p)) (adPending s)
              then new_ticket (Inr (Refused RunExistsAlready)) s
              else if wait_ms (adLimits s) deadline now \<le> 0
              then new_ticket (Inr (Refused QueueTimeout)) s
              else if maxPending (adLimits s) \<le> adCount s \<or>
                maxPendingPerBot (adLimits s) \<le>
                  (case map_of (adPending s) (clBot input) of Some q \<Rightarrow> length q | None \<Rightarrow> 0)
              then new_ticket (Inr (Refused QueueFull)) s
              else drain fresh (enqueue normalized s))))"

text \<open>The abort listener and the timer of a waiting item.\<close>

definition abandon ::
  "fresh_supply \<Rightarrow> admission_error + admission_result \<Rightarrow> waiting \<Rightarrow> admission \<Rightarrow> admission" where
  "abandon fresh outcome item s =
     (case remove_pending item s of
        None \<Rightarrow> s
      | Some s1 \<Rightarrow> drain fresh (settle (wtTicket item) outcome s1))"

definition abort_waiting :: "fresh_supply \<Rightarrow> waiting \<Rightarrow> admission \<Rightarrow> admission" where
  "abort_waiting fresh item s = abandon fresh (Inl AdmissionAborted) item s"

definition timeout_waiting :: "fresh_supply \<Rightarrow> waiting \<Rightarrow> admission \<Rightarrow> admission" where
  "timeout_waiting fresh item s = abandon fresh (Inr (Refused QueueTimeout)) item s"

definition release :: "fresh_supply \<Rightarrow> string \<Rightarrow> jstr \<Rightarrow> string \<Rightarrow> admission \<Rightarrow> bool \<times> admission" where
  "release fresh botId run leaseId s =
     (case map_of (adLeases s) leaseId of
        None \<Rightarrow> (False, s)
      | Some l \<Rightarrow>
          if clBot l \<noteq> botId \<or> clRun l \<noteq> run then (False, s)
          else (True, drain fresh (s\<lparr>adLeases := AList.delete leaseId (adLeases s)\<rparr>)))"

definition stop_waiting :: "waiting \<Rightarrow> admission \<Rightarrow> admission" where
  "stop_waiting item s =
     settle (wtTicket item) (Inr (Refused BotStopped))
       (case remove_pending item s of Some t \<Rightarrow> t | None \<Rightarrow> s)"

definition release_bot :: "fresh_supply \<Rightarrow> string \<Rightarrow> admission \<Rightarrow> admission" where
  "release_bot fresh botId s =
     (let s1 = foldl (\<lambda>t item. stop_waiting item t) s
            (case map_of (adPending s) botId of Some q \<Rightarrow> q | None \<Rightarrow> [])
      in drain fresh (s1\<lparr>adLeases := filter (\<lambda>p. clBot (snd p) \<noteq> botId) (adLeases s1)\<rparr>))"

definition list_leases :: "admission \<Rightarrow> lease list" where
  "list_leases s = map snd (adLeases s)"

record bot_count =
  bcActive :: nat
  bcPending :: nat

definition count_active :: "(string, bot_count) jsmap \<Rightarrow> string \<Rightarrow> (string, bot_count) jsmap" where
  "count_active m botId = AList.update botId (case map_of m botId of
     Some c \<Rightarrow> c\<lparr>bcActive := Suc (bcActive c)\<rparr> | None \<Rightarrow> \<lparr>bcActive = 1, bcPending = 0\<rparr>) m"

definition count_pending :: "(string, bot_count) jsmap \<Rightarrow> string \<times> waiting list \<Rightarrow> (string, bot_count) jsmap" where
  "count_pending m p = AList.update (fst p) (case map_of m (fst p) of
     Some c \<Rightarrow> c\<lparr>bcPending := length (snd p)\<rparr>
   | None \<Rightarrow> \<lparr>bcActive = 0, bcPending = length (snd p)\<rparr>) m"

record admission_snapshot =
  snLimits :: limits
  snActive :: nat
  snPending :: nat
  snBots :: "(string, bot_count) jsmap"

definition admission_snapshot_of :: "admission \<Rightarrow> admission_snapshot" where
  "admission_snapshot_of s =
     \<lparr>snLimits = adLimits s, snActive = length (adLeases s), snPending = adCount s,
      snBots = foldl count_pending (foldl (\<lambda>m p. count_active m (clBot (snd p))) [] (adLeases s))
        (adPending s)\<rparr>"

section \<open>The request handler\<close>

definition word_unit :: "nat \<Rightarrow> bool" where
  "word_unit u = (65 \<le> u \<and> u \<le> 90 \<or> 97 \<le> u \<and> u \<le> 122 \<or> 48 \<le> u \<and> u \<le> 57 \<or> u \<in> {58, 95, 45})"

definition hex_unit :: "nat \<Rightarrow> bool" where
  "hex_unit u = (48 \<le> u \<and> u \<le> 57 \<or> 65 \<le> u \<and> u \<le> 70 \<or> 97 \<le> u \<and> u \<le> 102 \<or> u = 45)"

definition string_matching :: "(jstr \<Rightarrow> bool) \<Rightarrow> jsval \<Rightarrow> bool" where
  "string_matching P v = (case v of Str t \<Rightarrow> P t | _ \<Rightarrow> False)"

definition text_of :: "jsval \<Rightarrow> jstr" where
  "text_of v = (case v of Str t \<Rightarrow> t | _ \<Rightarrow> [])"

text \<open>
  \<open>handle\<close>. \<open>isFormat\<close> tells the code units of the Unicode categories Cc and Cf, which the session
  identifier may not contain.
\<close>

datatype admission_reply = Ticket nat | Released bool

definition handle_claim ::
  "(nat \<Rightarrow> bool) \<Rightarrow> fresh_supply \<Rightarrow> bool \<Rightarrow> time \<Rightarrow> string \<Rightarrow> string option \<Rightarrow> jsval \<Rightarrow> admission \<Rightarrow>
   (admission_error, admission_reply, admission) outcome" where
  "handle_claim isFormat fresh aborted now botId mroot payload s =
     (if \<not> is_record payload then (Inl InvalidRequest, s)
      else if \<not> string_matching (\<lambda>t. 1 \<le> length t \<and> length t \<le> 128 \<and> list_all word_unit t) (getp payload ''runId'') \<or>
         \<not> string_matching (\<lambda>t. 1 \<le> length t \<and> length t \<le> 512 \<and> \<not> list_ex isFormat t) (getp payload ''sessionId'') \<or>
         getp payload ''kind'' \<noteq> Str (js ''foreground'') \<and> getp payload ''kind'' \<noteq> Str (js ''automatic-acp'')
      then (Inl InvalidRequest, s)
      else
        (case acquire fresh aborted None now
            \<lparr>clBot = botId, clRun = text_of (getp payload ''runId''),
             clSession = text_of (getp payload ''sessionId''),
             clKind = (if getp payload ''kind'' = Str (js ''foreground'') then Foreground else AutomaticAcp),
             clRoot = mroot\<rparr> s of
           (Inl e, s') \<Rightarrow> (Inl e, s')
         | (Inr t, s') \<Rightarrow> (Inr (Ticket t), s')))"

definition handle_release ::
  "fresh_supply \<Rightarrow> string \<Rightarrow> jsval \<Rightarrow> admission \<Rightarrow> (admission_error, admission_reply, admission) outcome" where
  "handle_release fresh botId payload s =
     (if \<not> is_record payload then (Inl InvalidRequest, s)
      else if \<not> is_string (getp payload ''runId'') \<or>
         \<not> string_matching (\<lambda>t. length t = 36 \<and> list_all hex_unit t) (getp payload ''leaseId'')
      then (Inl InvalidRelease, s)
      else
        (case release fresh botId (text_of (getp payload ''runId'')) (map char_of (text_of (getp payload ''leaseId''))) s of
           (b, s') \<Rightarrow> (Inr (Released b), s')))"

end
