(* ===== verification/AdmissionFacts.thy ===== *)
theory AdmissionFacts
  imports Admission "HOL-Library.Multiset"
begin

text \<open>
  Properties of host admission: the limits and the disjointness of mutation roots hold after any
  sequence of operations, no admissible claim is left waiting, every ticket is settled once or waits,
  bots are served in turn, only the owner releases a lease, and what \<open>rootsOverlap\<close> decides.
\<close>

section \<open>Leases\<close>

definition conflicting :: "lease \<Rightarrow> string option \<Rightarrow> bool" where
  "conflicting l mroot = (case (clRoot l, mroot) of
     (Some held, Some r) \<Rightarrow> held \<noteq> [] \<and> r \<noteq> [] \<and> roots_overlap held r | _ \<Rightarrow> False)"

definition leases_ok :: "limits \<Rightarrow> lease list \<Rightarrow> bool" where
  "leases_ok L ls \<longleftrightarrow> length ls \<le> maxConcurrent L \<and>
     (\<forall>b. length (filter (\<lambda>l. clBot l = b) ls) \<le> maxPerBotActive L) \<and>
     length (filter (\<lambda>l. clKind l = AutomaticAcp) ls) \<le> maxAutomaticAcp L \<and>
     distinct (map clRun ls) \<and>
     (\<forall>l \<in> set ls. \<forall>k \<in> set ls. clRun l \<noteq> clRun k \<longrightarrow> \<not> conflicting l (clRoot k))"

lemma roots_overlap_sym: "roots_overlap l r = roots_overlap r l"
  by (auto simp: roots_overlap_def Let_def)

lemma conflicting_sym: "conflicting l (clRoot k) = conflicting k (clRoot l)"
  by (auto simp: conflicting_def roots_overlap_sym split: option.splits)

lemma make_lease_simps [simp]:
  "clBot (make_lease f c) = clBot c" "clRun (make_lease f c) = clRun c"
  "clKind (make_lease f c) = clKind c" "clRoot (make_lease f c) = clRoot c"
  "lsId (make_lease f c) = fst f"
  by (simp_all add: make_lease_def claim.defs)

lemma check_None:
  assumes "check L ls c = None"
  shows "clRun c \<notin> clRun ` set ls" "length ls < maxConcurrent L"
    "length (filter (\<lambda>l. clBot l = clBot c) ls) < maxPerBotActive L"
    "clKind c = AutomaticAcp \<Longrightarrow> length (filter (\<lambda>l. clKind l = AutomaticAcp) ls) < maxAutomaticAcp L"
    "\<forall>l \<in> set ls. \<not> conflicting l (clRoot c)"
  using assms by (auto simp: check_def list_ex_iff conflicting_def split: if_splits option.splits)

lemma grant_leases_ok:
  assumes ok: "leases_ok L (map snd m)" and c: "check L (map snd m) c = None"
  shows "leases_ok L (map snd (AList.update k (make_lease f c) m))"
proof -
  note n = check_None [OF c]
  let ?v = "make_lease f c" and ?m = "AList.update k (make_lease f c) m"
  have cnt: "length (filter P (map snd ?m)) \<le> (if P ?v then 1 else 0) + length (filter P (map snd m))" for P
    by (rule update_filter_length)
  have "length (map snd ?m) \<le> maxConcurrent L" using cnt [of "\<lambda>_. True"] n(2) by simp
  moreover have "length (filter (\<lambda>l. clBot l = b) (map snd ?m)) \<le> maxPerBotActive L" for b
  proof (cases "clBot c = b")
    case True
    with cnt [of "\<lambda>l. clBot l = b"] n(3) show ?thesis by simp
  next
    case False
    then have "length (filter (\<lambda>l. clBot l = b) (map snd ?m)) \<le> length (filter (\<lambda>l. clBot l = b) (map snd m))"
      using cnt [of "\<lambda>l. clBot l = b"] by simp
    also have "\<dots> \<le> maxPerBotActive L" using ok unfolding leases_ok_def by blast
    finally show ?thesis .
  qed
  moreover have "length (filter (\<lambda>l. clKind l = AutomaticAcp) (map snd ?m)) \<le> maxAutomaticAcp L"
    using cnt [of "\<lambda>l. clKind l = AutomaticAcp"] n(4) ok unfolding leases_ok_def
    by (cases "clKind c") simp_all
  moreover have "distinct (map clRun (map snd ?m))"
  proof -
    have "\<forall>p \<in> set m. clRun (snd p) \<noteq> clRun ?v" using n(1) by (fastforce simp: image_iff)
    with ok update_distinct_values [of clRun m ?v k] show ?thesis by (simp add: leases_ok_def comp_def)
  qed
  moreover have "\<not> conflicting l (clRoot k')"
    if "l \<in> set (map snd ?m)" "k' \<in> set (map snd ?m)" "clRun l \<noteq> clRun k'" for l k'
  proof -
    have "l = ?v \<or> l \<in> set (map snd m)" "k' = ?v \<or> k' \<in> set (map snd m)"
      using that(1,2) update_values [of k ?v m] by blast+
    moreover have "\<not> conflicting x (clRoot ?v)" "\<not> conflicting ?v (clRoot x)"
      if "x \<in> set (map snd m)" for x
    proof -
      have "\<not> conflicting x (clRoot c)" using n(5) that by blast
      then show "\<not> conflicting x (clRoot ?v)" by simp
      then show "\<not> conflicting ?v (clRoot x)" by (subst conflicting_sym)
    qed
    moreover have "\<not> conflicting l (clRoot k')" if "l \<in> set (map snd m)" "k' \<in> set (map snd m)"
      using ok that \<open>clRun l \<noteq> clRun k'\<close> unfolding leases_ok_def by blast
    ultimately show ?thesis using that(3) by blast
  qed
  ultimately show ?thesis unfolding leases_ok_def by blast
qed

lemma leases_ok_subseq:
  assumes "subseq ls ks" "leases_ok L ks"
  shows "leases_ok L ls"
proof -
  have "length (filter P ls) \<le> length (filter P ks)" for P
    using assms(1) by (intro list_emb_length [of "(=)"] subseq_filter)
  moreover have "length ls \<le> length ks" using assms(1) by (rule list_emb_length)
  moreover have "distinct (map clRun ls)"
    using assms subseq_map [OF assms(1)] unfolding leases_ok_def by (blast intro: subseq_distinct)
  moreover have "set ls \<subseteq> set ks" using assms(1) by (rule subseq_set)
  ultimately show ?thesis using assms(2) unfolding leases_ok_def by (meson le_trans subsetD)
qed

section \<open>Waiting queues\<close>

definition queues_ok :: "limits \<Rightarrow> (string, waiting list) jsmap \<Rightarrow> string list \<Rightarrow> bool" where
  "queues_ok L pending order \<longleftrightarrow> jm_wf pending \<and> distinct order \<and> set order = fst ` set pending \<and>
     (\<forall>p \<in> set pending. snd p \<noteq> [] \<and> length (snd p) \<le> maxPendingPerBot L \<and>
        (\<forall>w \<in> set (snd p). clBot (wtInput w) = fst p))"

lemma concat_update:
  "jm_wf m \<Longrightarrow> map_of m b = Some q \<Longrightarrow>
   mset (concat (map snd (AList.update b r m))) + mset q = mset (concat (map snd m)) + mset r"
proof (induction m)
  case (Cons p m)
  show ?case
  proof (cases "fst p = b")
    case True
    with Cons.prems show ?thesis by (cases p) auto
  next
    case False
    with Cons have "mset (concat (map snd (AList.update b r m))) + mset q = mset (concat (map snd m)) + mset r"
      by (auto simp: jm_wf_def split: if_splits)
    with False show ?thesis by (cases p) (auto simp: union_assoc)
  qed
qed simp

lemma concat_delete:
  "jm_wf m \<Longrightarrow> map_of m b = Some q \<Longrightarrow>
   mset (concat (map snd (AList.delete b m))) + mset q = mset (concat (map snd m))"
proof (induction m)
  case (Cons p m)
  show ?case
  proof (cases "fst p = b")
    case True
    with Cons.prems have "b \<notin> fst ` set m" by (auto simp: jm_wf_def)
    with True Cons.prems show ?thesis by (cases p) (auto simp: delete_idem)
  next
    case False
    with Cons have "mset (concat (map snd (AList.delete b m))) + mset q = mset (concat (map snd m))"
      by (auto simp: jm_wf_def split: if_splits)
    with False show ?thesis by (cases p) (auto simp: union_assoc)
  qed
qed simp

lemma concat_new: "map_of m b = None \<Longrightarrow> concat (map snd (AList.update b q m)) = concat (map snd m) @ q"
  by (simp add: jm_update_absent)

lemma remove_first_mset:
  "remove_first P xs = Some ys \<Longrightarrow> \<exists>x. P x \<and> mset xs = add_mset x (mset ys)"
proof (induction xs arbitrary: ys)
  case (Cons x xs)
  then show ?case by (fastforce split: if_splits)
qed simp

text \<open>
  The state between two operations: the limits hold, the queues are well formed, the count is right,
  and every ticket handed out is either settled or waiting, exactly once.
\<close>

definition core_inv :: "admission \<Rightarrow> bool" where
  "core_inv s \<longleftrightarrow> leases_ok (adLimits s) (map snd (adLeases s)) \<and>
     queues_ok (adLimits s) (adPending s) (adOrder s) \<and>
     adCount s = length (waiting_items s) \<and> adCount s \<le> maxPending (adLimits s) \<and>
     mset (map fst (adSettled s)) + mset (map wtTicket (waiting_items s)) = mset [0..<adTickets s]"

definition quiescent :: "admission \<Rightarrow> bool" where
  "quiescent s \<longleftrightarrow> (\<forall>b \<in> set (adOrder s). \<not> admissible_head s b)"

lemma queues_okD:
  assumes "queues_ok L pending order" "map_of pending b = Some q"
  shows "q \<noteq> [] \<and> length q \<le> maxPendingPerBot L \<and> (\<forall>w \<in> set q. clBot (wtInput w) = b) \<and> b \<in> set order"
proof -
  have m: "(b, q) \<in> set pending" using assms(2) by (rule map_of_SomeD)
  then have "b \<in> fst ` set pending" by (metis fst_conv image_eqI)
  with assms(1) m show ?thesis unfolding queues_ok_def by (metis fst_conv snd_conv)
qed

lemma queues_ok_update:
  assumes "queues_ok L pending order" "q \<noteq> []" "length q \<le> maxPendingPerBot L"
    "\<forall>w \<in> set q. clBot (wtInput w) = b" "b \<in> set order"
  shows "queues_ok L (AList.update b q pending) order"
proof -
  have "fst ` set (AList.update b q pending) = fst ` set pending"
    using assms(1,5) by (simp add: dom_update queues_ok_def insert_absorb)
  moreover have "snd p \<noteq> [] \<and> length (snd p) \<le> maxPendingPerBot L \<and>
      (\<forall>w \<in> set (snd p). clBot (wtInput w) = fst p)" if "p \<in> set (AList.update b q pending)" for p
  proof -
    have "p = (b, q) \<or> p \<in> set pending" using that jm_set_update [of b q pending] by blast
    then show ?thesis using assms by (elim disjE) (simp_all add: queues_ok_def)
  qed
  ultimately show ?thesis using assms(1) by (simp add: queues_ok_def)
qed

lemma queues_ok_delete:
  assumes "queues_ok L pending order"
  shows "queues_ok L (AList.delete b pending) (remove1 b order)"
proof -
  have "distinct order" "set order = fst ` set pending" using assms by (simp_all add: queues_ok_def)
  then have "set (remove1 b order) = fst ` set (AList.delete b pending)"
    by (auto simp: jm_set_delete image_iff)
  with assms show ?thesis by (auto simp: queues_ok_def jm_set_delete)
qed

lemma queues_ok_new:
  assumes "queues_ok L pending order" "map_of pending b = None" "q \<noteq> []"
    "length q \<le> maxPendingPerBot L" "\<forall>w \<in> set q. clBot (wtInput w) = b"
  shows "queues_ok L (AList.update b q pending) (order @ [b])"
  using assms by (auto simp: queues_ok_def jm_update_absent map_of_eq_None_iff jm_wf_def)

lemma queues_ok_rotate: "queues_ok L pending order \<Longrightarrow> b \<in> set order \<Longrightarrow> queues_ok L pending (remove1 b order @ [b])"
  by (auto simp: queues_ok_def)

text \<open>Removing a waiting item: exactly one item with its ticket leaves the queues.\<close>

lemma remove_pending_spec:
  assumes inv: "queues_ok (adLimits s) (adPending s) (adOrder s)" and r: "remove_pending item s = Some t"
  obtains w where "wtTicket w = wtTicket item"
    "mset (waiting_items s) = add_mset w (mset (waiting_items t))"
    "queues_ok (adLimits t) (adPending t) (adOrder t)" "adLeases t = adLeases s"
    "adLimits t = adLimits s" "adSettled t = adSettled s" "adTickets t = adTickets s"
    "adCount t = adCount s - 1"
proof -
  let ?b = "clBot (wtInput item)"
  obtain queue rest where q: "map_of (adPending s) ?b = Some queue"
    "remove_first (\<lambda>w. wtTicket w = wtTicket item) queue = Some rest"
    using r by (auto simp: remove_pending_def split: option.splits)
  obtain w where w: "wtTicket w = wtTicket item" "mset queue = add_mset w (mset rest)"
    using remove_first_mset [OF q(2)] by blast
  have sub: "set rest \<subseteq> set queue" "length rest \<le> length queue"
    using remove_first_subseq [OF q(2)] by (auto dest: subseq_set list_emb_length)
  have wf: "jm_wf (adPending s)" using inv by (simp add: queues_ok_def)
  note qd = queues_okD [OF inv q(1)]
  let ?u = "AList.update ?b rest (adPending s)"
  have m: "mset (concat (map snd ?u)) + mset queue = mset (waiting_items s) + mset rest"
    using concat_update [OF wf q(1)] by (simp add: waiting_items_def)
  show thesis
  proof (cases "rest = []")
    case True
    have u: "map_of ?u ?b = Some []" "jm_wf ?u" using True wf by simp_all
    have "AList.delete ?b ?u = AList.delete ?b (adPending s)"
      by (rule AList.delete_update_same)
    then have t: "t = s\<lparr>adPending := AList.delete ?b (adPending s), adCount := adCount s - 1,
        adOrder := remove1 ?b (adOrder s)\<rparr>"
      using r q True by (auto simp: remove_pending_def Let_def)
    have "mset (waiting_items s) = add_mset w (mset (waiting_items t))"
      using concat_delete [OF wf q(1)] w(2) True by (simp add: t waiting_items_def)
    with w(1) queues_ok_delete [OF inv] show thesis by (intro that [of w]) (simp_all add: t)
  next
    case False
    then have t: "t = s\<lparr>adPending := ?u, adCount := adCount s - 1\<rparr>"
      using r q by (simp add: remove_pending_def Let_def)
    have "queues_ok (adLimits s) ?u (adOrder s)"
      using qd sub False by (intro queues_ok_update [OF inv]) auto
    moreover have "mset (waiting_items s) = add_mset w (mset (waiting_items t))"
      using m w(2) by (simp add: t waiting_items_def)
    ultimately show thesis using w(1) by (intro that [of w]) (simp_all add: t)
  qed
qed

lemma core_inv_remove:
  assumes inv: "core_inv s" and r: "remove_pending item s = Some t"
  shows "core_inv (settle (wtTicket item) res t)" "length (waiting_items t) < length (waiting_items s)"
    "adLeases t = adLeases s"
proof -
  have q: "queues_ok (adLimits s) (adPending s) (adOrder s)" using inv by (simp add: core_inv_def)
  from remove_pending_spec [OF q r] obtain w where w: "wtTicket w = wtTicket item"
    "mset (waiting_items s) = add_mset w (mset (waiting_items t))"
    "queues_ok (adLimits t) (adPending t) (adOrder t)" "adLeases t = adLeases s"
    "adLimits t = adLimits s" "adSettled t = adSettled s" "adTickets t = adTickets s"
    "adCount t = adCount s - 1" by blast
  have len: "length (waiting_items s) = Suc (length (waiting_items t))"
    using w(2) by (metis size_add_mset size_mset)
  then show "length (waiting_items t) < length (waiting_items s)" by simp
  have "mset (map wtTicket (waiting_items s)) = add_mset (wtTicket item) (mset (map wtTicket (waiting_items t)))"
    using w(1,2) by (simp add: mset_map)
  moreover have "waiting_items (settle (wtTicket item) res t) = waiting_items t"
    by (simp add: settle_def waiting_items_def)
  ultimately show "core_inv (settle (wtTicket item) res t)"
    using inv w len by (simp add: core_inv_def settle_def)
  show "adLeases t = adLeases s" by (rule w(4))
qed

lemma head_removable:
  assumes "core_inv s" "queue_head s b = Some item"
  shows "remove_pending item s \<noteq> None" "clBot (wtInput item) = b" "b \<in> set (adOrder s)"
proof -
  have q: "queues_ok (adLimits s) (adPending s) (adOrder s)" using assms(1) by (simp add: core_inv_def)
  obtain ws where ws: "map_of (adPending s) b = Some (item # ws)"
    using assms(2) by (auto simp: queue_head_def split: option.splits list.splits)
  from queues_okD [OF q ws] show b: "clBot (wtInput item) = b" "b \<in> set (adOrder s)" by auto
  show "remove_pending item s \<noteq> None" using ws by (simp add: remove_pending_def b(1) Let_def)
qed

lemma drain_once_core:
  assumes inv: "core_inv s" and d: "drain_once fresh s = Some t"
  shows "core_inv t" "length (waiting_items t) < length (waiting_items s)"
proof -
  obtain b item where b: "find (admissible_head s) (adOrder s) = Some b" "queue_head s b = Some item"
    "t = serve_bot fresh b item s"
    using d by (auto simp: drain_once_def split: option.splits)
  have "admissible_head s b" using b(1) by (auto simp: find_Some_iff)
  with b(2) have c: "check_state s (wtInput item) = None" by (simp add: admissible_head_def)
  obtain s1 where s1: "remove_pending item s = Some s1" using head_removable(1) [OF inv b(2)] by blast
  note core = core_inv_remove [OF inv s1]
  let ?l = "AList.update (fst fresh) (make_lease fresh (wtInput item)) (adLeases s1)"
  let ?o = "if b \<in> set (adOrder s1) then remove1 b (adOrder s1) @ [b] else adOrder s1"
  have t: "t = (settle (wtTicket item) (Inr (Admitted (fst fresh))) s1)\<lparr>adLeases := ?l, adOrder := ?o\<rparr>"
    by (simp add: b(3) serve_bot_def s1 grant_def settle_def)
  have lim: "adLimits s1 = adLimits s"
    using s1 by (auto simp: remove_pending_def Let_def split: option.splits if_splits)
  have "leases_ok (adLimits s1) (map snd ?l)"
    using inv c core(3) lim unfolding core_inv_def check_state_def
    by (intro grant_leases_ok) simp_all
  moreover have "queues_ok (adLimits s1) (adPending s1) (adOrder s1)"
    using core(1) by (simp add: core_inv_def settle_def)
  then have "queues_ok (adLimits s1) (adPending s1) ?o" by (simp add: queues_ok_rotate)
  ultimately show "core_inv t"
    using core(1) [of "Inr (Admitted (fst fresh))"] by (simp add: t core_inv_def settle_def waiting_items_def)
  show "length (waiting_items t) < length (waiting_items s)"
    using core(2) by (simp add: t settle_def waiting_items_def)
qed

lemma drain_once_None:
  assumes "core_inv s" "drain_once fresh s = None"
  shows "quiescent s"
  using assms(2)
  by (auto simp: drain_once_def quiescent_def find_None_iff find_Some_iff admissible_head_def split: option.splits)

lemma no_waiting_quiescent: "core_inv s \<Longrightarrow> waiting_items s = [] \<Longrightarrow> quiescent s"
  by (auto simp: quiescent_def admissible_head_def queue_head_def waiting_items_def dest!: map_of_SomeD
      split: option.splits list.splits)

lemma drain_loop_inv:
  "core_inv s \<Longrightarrow> length (waiting_items s) \<le> n \<Longrightarrow>
   core_inv (drain_loop n fresh s) \<and> quiescent (drain_loop n fresh s)"
proof (induction n arbitrary: fresh s)
  case 0
  then show ?case by (simp add: no_waiting_quiescent)
next
  case (Suc n)
  show ?case
  proof (cases "drain_once (fresh 0) s")
    case None
    with Suc.prems show ?thesis by (simp add: drain_once_None)
  next
    case (Some t)
    with drain_once_core [OF Suc.prems(1) Some] Suc show ?thesis by simp
  qed
qed

lemma drain_inv: "core_inv s \<Longrightarrow> core_inv (drain fresh s) \<and> quiescent (drain fresh s)"
  by (simp add: drain_def drain_loop_inv)

section \<open>Sequences of operations\<close>

datatype admission_call =
    AdClaim "string \<times> time" claim
  | AdAcquire fresh_supply bool "time option" time claim
  | AdAbort fresh_supply waiting
  | AdTimeout fresh_supply waiting
  | AdRelease fresh_supply string jstr string
  | AdReleaseBot fresh_supply string

text \<open>An immediate claim whose random identifier is already a lease's does not occur.\<close>

fun admission_step :: "admission \<Rightarrow> admission_call \<Rightarrow> admission" where
  "admission_step s (AdClaim fresh c) =
     (if jm_has (adLeases s) (fst fresh) then s else snd (claim_now fresh c s))"
| "admission_step s (AdAcquire fresh aborted deadline now c) = snd (acquire fresh aborted deadline now c s)"
| "admission_step s (AdAbort fresh item) = abort_waiting fresh item s"
| "admission_step s (AdTimeout fresh item) = timeout_waiting fresh item s"
| "admission_step s (AdRelease fresh b r l) = snd (release fresh b r l s)"
| "admission_step s (AdReleaseBot fresh b) = release_bot fresh b s"

definition admission_inv :: "admission \<Rightarrow> bool" where
  "admission_inv s \<longleftrightarrow> core_inv s \<and> quiescent s"

lemma check_antitone:
  assumes "set ls \<subseteq> set ks" "length ls \<le> length ks" "\<And>P. length (filter P ls) \<le> length (filter P ks)"
    and "check L ls c \<noteq> None"
  shows "check L ks c \<noteq> None"
proof
  assume "check L ks c = None"
  note n = check_None [OF this]
  have "\<forall>l \<in> set ls. clRun l \<noteq> clRun c" using n(1) assms(1) by (metis image_eqI subsetD)
  moreover have "length ls < maxConcurrent L" using n(2) assms(2) by simp
  moreover have "length (filter (\<lambda>l. clBot l = clBot c) ls) < maxPerBotActive L"
    using n(3) assms(3) [of "\<lambda>l. clBot l = clBot c"] by simp
  moreover have "clKind c = AutomaticAcp \<Longrightarrow> length (filter (\<lambda>l. clKind l = AutomaticAcp) ls) < maxAutomaticAcp L"
    using n(4) assms(3) [of "\<lambda>l. clKind l = AutomaticAcp"] by simp
  moreover have "\<forall>l \<in> set ls. \<not> conflicting l (clRoot c)" using n(5) assms(1) by blast
  ultimately have "check L ls c = None"
    by (auto simp: check_def list_ex_iff conflicting_def split: option.splits)
  with assms(4) show False by simp
qed

lemma claim_now_inv:
  assumes "admission_inv s" "\<not> jm_has (adLeases s) (fst fresh)"
  shows "admission_inv (snd (claim_now fresh c s))"
proof (cases "snd (claim_now fresh c s) = s")
  case False
  then obtain mroot where c: "check_state s (c\<lparr>clRoot := mroot\<rparr>) = None"
    "snd (claim_now fresh c s) = snd (grant fresh (c\<lparr>clRoot := mroot\<rparr>) s)"
    by (auto simp: claim_now_def Let_def split: sum.splits option.splits prod.splits)
  let ?l = "make_lease fresh (c\<lparr>clRoot := mroot\<rparr>)"
  have t: "snd (claim_now fresh c s) = s\<lparr>adLeases := adLeases s @ [(fst fresh, ?l)]\<rparr>"
    using assms(2) by (simp add: c(2) grant_def jm_update_absent jm_has_def)
  have "leases_ok (adLimits s) (map snd (AList.update (fst fresh) ?l (adLeases s)))"
    using assms(1) c(1) by (intro grant_leases_ok) (simp_all add: admission_inv_def core_inv_def check_state_def)
  then have "core_inv (snd (claim_now fresh c s))"
    using assms by (simp add: t admission_inv_def core_inv_def waiting_items_def jm_update_absent jm_has_def)
  moreover have "\<not> admissible_head (snd (claim_now fresh c s)) b" if "b \<in> set (adOrder s)" for b
  proof -
    have "\<not> admissible_head s b" using assms(1) that by (simp add: admission_inv_def quiescent_def)
    moreover have "check_state (snd (claim_now fresh c s)) x \<noteq> None" if "check_state s x \<noteq> None" for x
    proof -
      have "check (adLimits s) (map snd (adLeases s @ [(fst fresh, ?l)])) x \<noteq> None"
        by (rule check_antitone [where ls = "map snd (adLeases s)"])
          (use that in \<open>auto simp: check_state_def\<close>)
      then show ?thesis by (simp add: check_state_def t)
    qed
    ultimately show ?thesis by (auto simp: admissible_head_def queue_head_def t split: option.splits list.splits)
  qed
  ultimately show ?thesis by (simp add: admission_inv_def quiescent_def t)
qed (use assms(1) in simp)

lemma new_ticket_inv: "admission_inv s \<Longrightarrow> admission_inv (new_ticket r s)"
  by (auto simp: admission_inv_def core_inv_def quiescent_def new_ticket_def settle_def waiting_items_def
      admissible_head_def queue_head_def check_state_def split: option.splits list.splits)

lemma enqueue_core:
  assumes inv: "core_inv s" and "adCount s < maxPending (adLimits s)"
    and "(case map_of (adPending s) (clBot c) of Some q \<Rightarrow> length q | None \<Rightarrow> 0) < maxPendingPerBot (adLimits s)"
  shows "core_inv (enqueue c s)"
proof -
  let ?w = "\<lparr>wtTicket = adTickets s, wtInput = c\<rparr>"
  have q: "queues_ok (adLimits s) (adPending s) (adOrder s)" using inv by (simp add: core_inv_def)
  obtain p ord where e: "enqueue c s = s\<lparr>adPending := p, adOrder := ord, adCount := Suc (adCount s),
      adTickets := Suc (adTickets s)\<rparr>" "queues_ok (adLimits s) p ord"
    "mset (concat (map snd p)) = add_mset ?w (mset (waiting_items s))"
  proof (cases "map_of (adPending s) (clBot c)")
    case None
    have "queues_ok (adLimits s) (AList.update (clBot c) [?w] (adPending s)) (adOrder s @ [clBot c])"
      using queues_ok_new [OF q None, of "[?w]"] assms(3) None by simp
    with None show thesis
      by (intro that [of "adOrder s @ [clBot c]" "AList.update (clBot c) [?w] (adPending s)"])
        (simp_all add: enqueue_def Let_def concat_new waiting_items_def)
  next
    case (Some ws)
    note qd = queues_okD [OF q Some]
    have "queues_ok (adLimits s) (AList.update (clBot c) (ws @ [?w]) (adPending s)) (adOrder s)"
      using qd assms(3) Some by (intro queues_ok_update [OF q]) auto
    moreover have "mset (concat (map snd (AList.update (clBot c) (ws @ [?w]) (adPending s)))) =
        add_mset ?w (mset (waiting_items s))"
      using concat_update [OF _ Some, of "ws @ [?w]"] q by (simp add: queues_ok_def waiting_items_def)
    ultimately show thesis using Some
      by (intro that [of "adOrder s" "AList.update (clBot c) (ws @ [?w]) (adPending s)"])
        (simp_all add: enqueue_def Let_def)
  qed
  have "length (concat (map snd p)) = Suc (length (waiting_items s))"
    using e(3) by (metis size_add_mset size_mset)
  moreover have "mset (map wtTicket (concat (map snd p))) =
      add_mset (adTickets s) (mset (map wtTicket (waiting_items s)))"
    using e(3) by (simp add: mset_map)
  ultimately show ?thesis
    using inv e(2) assms(2) by (simp add: core_inv_def e(1) waiting_items_def)
qed

lemma acquire_inv: "admission_inv s \<Longrightarrow> admission_inv (snd (acquire fresh aborted deadline now c s))"
proof (cases "validated_root (clRoot c)")
  case (Inr mroot)
  assume inv: "admission_inv s"
  have "admission_inv (drain fresh (enqueue (c\<lparr>clRoot := mroot\<rparr>) s))"
    if "adCount s < maxPending (adLimits s)"
      "(case map_of (adPending s) (clBot c) of Some q \<Rightarrow> length q | None \<Rightarrow> 0) < maxPendingPerBot (adLimits s)"
    using that inv drain_inv enqueue_core [of s "c\<lparr>clRoot := mroot\<rparr>"] by (simp add: admission_inv_def)
  with Inr inv show ?thesis by (simp add: acquire_def new_ticket_inv Let_def not_le)
qed (simp add: acquire_def new_ticket_inv)

lemma abandon_inv: "admission_inv s \<Longrightarrow> admission_inv (abandon fresh r item s)"
  using core_inv_remove(1) drain_inv
  by (auto simp: abandon_def admission_inv_def split: option.splits)

lemma release_leases_core:
  "core_inv s \<Longrightarrow> subseq ls (adLeases s) \<Longrightarrow> core_inv (s\<lparr>adLeases := ls\<rparr>)"
  by (auto simp: core_inv_def waiting_items_def intro: leases_ok_subseq subseq_map)

lemma release_inv: "admission_inv s \<Longrightarrow> admission_inv (snd (release fresh b r l s))"
  using drain_inv release_leases_core [of s "AList.delete l (adLeases s)"]
  by (auto simp: release_def admission_inv_def jm_delete_filter split: option.splits)

lemma stop_waiting_head:
  assumes "core_inv s" "map_of (adPending s) b = Some (w # ws)"
  shows "core_inv (stop_waiting w s)"
    "ws \<noteq> [] \<Longrightarrow> map_of (adPending (stop_waiting w s)) b = Some ws"
proof -
  have "queue_head s b = Some w" using assms(2) by (simp add: queue_head_def)
  from head_removable(1,2) [OF assms(1) this] obtain t where t: "remove_pending w s = Some t" "clBot (wtInput w) = b"
    by blast
  with core_inv_remove(1) [OF assms(1) t(1)] show "core_inv (stop_waiting w s)" by (simp add: stop_waiting_def)
  show "map_of (adPending (stop_waiting w s)) b = Some ws" if "ws \<noteq> []"
    using that assms(2) t(2) by (simp add: stop_waiting_def remove_pending_def settle_def Let_def)
qed

lemma stop_waiting_all:
  "core_inv s \<Longrightarrow> ws = [] \<or> map_of (adPending s) b = Some ws \<Longrightarrow> core_inv (foldl (\<lambda>t item. stop_waiting item t) s ws)"
proof (induction ws arbitrary: s)
  case (Cons w ws)
  then have m: "map_of (adPending s) b = Some (w # ws)" by simp
  note h = stop_waiting_head [OF Cons.prems(1) m]
  show ?case using Cons.IH [OF h(1)] h(2) by (cases "ws = []") simp_all
qed simp

lemma release_bot_inv: "admission_inv s \<Longrightarrow> admission_inv (release_bot fresh b s)"
proof -
  assume inv: "admission_inv s"
  let ?q = "case map_of (adPending s) b of Some q \<Rightarrow> q | None \<Rightarrow> []"
  let ?t = "foldl (\<lambda>t item. stop_waiting item t) s ?q"
  have "core_inv ?t" using inv by (intro stop_waiting_all [where b = b]) (auto simp: admission_inv_def split: option.splits)
  then have "core_inv (?t\<lparr>adLeases := filter (\<lambda>p. clBot (snd p) \<noteq> b) (adLeases ?t)\<rparr>)"
    by (rule release_leases_core) simp
  with drain_inv show ?thesis by (simp add: release_bot_def admission_inv_def Let_def)
qed

lemma admission_step_inv: "admission_inv s \<Longrightarrow> admission_inv (admission_step s call)"
  by (cases call) (simp_all add: claim_now_inv acquire_inv abort_waiting_def timeout_waiting_def
      abandon_inv release_inv release_bot_inv)

interpretation admissions: invariant_machine admission_step admission_inv
  by unfold_locales (rule admission_step_inv)

lemma bind_result_Inr: "bind_result x f = Inr y \<longleftrightarrow> (\<exists>z. x = Inr z \<and> f z = Inr y)"
  by (cases x) auto

lemma new_admission_empty:
  assumes "new_admission par ops = Inr s"
  shows "adLeases s = [] \<and> adPending s = [] \<and> adOrder s = [] \<and> adCount s = 0 \<and> adTickets s = 0 \<and> adSettled s = []"
  using assms unfolding new_admission_def bind_result_Inr by (elim exE conjE) (drule sym, simp)

lemma new_admission_inv: "new_admission par ops = Inr s \<Longrightarrow> admission_inv s"
  using new_admission_empty [of par ops s]
  by (simp add: admission_inv_def core_inv_def quiescent_def leases_ok_def queues_ok_def waiting_items_def)

section \<open>The properties\<close>

text \<open>C3: After any sequence of operations the running executions respect the total, per-bot and automatic
  limits, no run holds two leases, and no two leases hold overlapping mutation roots.\<close>

theorem admission_limits_hold:
  assumes "new_admission par ops = Inr s0"
  shows "let s = foldl admission_step s0 calls; ls = list_leases s; L = adLimits s in
    length ls \<le> maxConcurrent L \<and>
    (\<forall>b. length (filter (\<lambda>l. clBot l = b) ls) \<le> maxPerBotActive L) \<and>
    length (filter (\<lambda>l. clKind l = AutomaticAcp) ls) \<le> maxAutomaticAcp L \<and>
    distinct (map clRun ls) \<and>
    (\<forall>l \<in> set ls. \<forall>k \<in> set ls. \<forall>x y. clRun l \<noteq> clRun k \<longrightarrow> clRoot l = Some x \<longrightarrow> clRoot k = Some y \<longrightarrow>
       x \<noteq> [] \<longrightarrow> y \<noteq> [] \<longrightarrow> \<not> roots_overlap x y)"
proof -
  have "admission_inv (foldl admission_step s0 calls)"
    using new_admission_inv [OF assms] by (rule admissions.run_inv)
  then have "leases_ok (adLimits (foldl admission_step s0 calls)) (list_leases (foldl admission_step s0 calls))"
    by (simp add: admission_inv_def core_inv_def list_leases_def)
  then show ?thesis unfolding leases_ok_def Let_def conflicting_def by fastforce
qed


text \<open>No request is answered twice and none is lost: every ticket handed out is either waiting in one
  queue or has exactly one outcome, the count of waiting claims is exact and within its bound.\<close>

theorem tickets_settled_once:
  assumes "new_admission par ops = Inr s0"
  shows "let s = foldl admission_step s0 calls in
    distinct (map fst (adSettled s) @ map wtTicket (waiting_items s)) \<and>
    set (map fst (adSettled s) @ map wtTicket (waiting_items s)) = {..<adTickets s} \<and>
    adCount s = length (waiting_items s) \<and> adCount s \<le> maxPending (adLimits s)"
proof -
  let ?s = "foldl admission_step s0 calls"
  let ?ts = "map fst (adSettled ?s) @ map wtTicket (waiting_items ?s)"
  have inv: "core_inv ?s"
    using admissions.run_inv [OF new_admission_inv [OF assms]] unfolding admission_inv_def by blast
  then have m: "mset ?ts = mset [0..<adTickets ?s]" by (simp add: core_inv_def)
  then have "distinct ?ts" by (metis distinct_upt mset_eq_imp_distinct_iff)
  moreover have "set ?ts = {..<adTickets ?s}" using mset_eq_setD [OF m] by auto
  ultimately show ?thesis using inv by (simp add: core_inv_def Let_def)
qed

text \<open>Bots take turns: a pass serves the first claim of the first bot in the order whose claim is
  admissible, and that bot, if it still waits, goes behind all the others.\<close>

theorem drain_serves_in_turn:
  assumes "core_inv s" and "drain_once fresh s = Some t"
  shows "\<exists>before b after item. adOrder s = before @ b # after \<and> queue_head s b = Some item \<and>
    (\<forall>x \<in> set before. \<not> admissible_head s x) \<and> check_state s (wtInput item) = None \<and>
    map_of (adLeases t) (fst fresh) = Some (make_lease fresh (wtInput item)) \<and>
    (wtTicket item, Inr (Admitted (fst fresh))) \<in> set (adSettled t) \<and>
    (adOrder t = before @ after @ [b] \<or> adOrder t = before @ after \<and> map_of (adPending t) b = None)"
proof -
  obtain b item where b: "find (admissible_head s) (adOrder s) = Some b" "queue_head s b = Some item"
    "t = serve_bot fresh b item s"
    using assms(2) by (auto simp: drain_once_def split: option.splits)
  obtain i where i: "i < length (adOrder s)" "admissible_head s (adOrder s ! i)" "b = adOrder s ! i"
    "\<forall>j < i. \<not> admissible_head s (adOrder s ! j)"
    using b(1) unfolding find_Some_iff by blast
  define pre post where "pre = take i (adOrder s)" and "post = drop (Suc i) (adOrder s)"
  have o: "adOrder s = pre @ b # post" using i(1,3) by (simp add: pre_def post_def id_take_nth_drop)
  have blocked: "\<forall>x \<in> set pre. \<not> admissible_head s x"
    using i(1,4) by (auto simp: pre_def in_set_conv_nth)
  have c: "check_state s (wtInput item) = None" using i(2,3) b(2) by (simp add: admissible_head_def)
  have dist: "b \<notin> set pre" "b \<notin> set post" using assms(1) o by (auto simp: core_inv_def queues_ok_def)
  note hd = head_removable [OF assms(1) b(2)]
  obtain ws where ws: "map_of (adPending s) b = Some (item # ws)"
    using b(2) by (auto simp: queue_head_def split: option.splits list.splits)
  obtain s1 where s1: "remove_pending item s = Some s1" using hd(1) by blast
  have s1o: "if ws = [] then adOrder s1 = pre @ post \<and> map_of (adPending s1) b = None else adOrder s1 = adOrder s"
    using s1 ws hd(2) dist o by (auto simp: remove_pending_def Let_def remove1_append)
  have t: "adLeases t = AList.update (fst fresh) (make_lease fresh (wtInput item)) (adLeases s1)"
    "adOrder t = (if b \<in> set (adOrder s1) then remove1 b (adOrder s1) @ [b] else adOrder s1)"
    "adPending t = adPending s1" "(wtTicket item, Inr (Admitted (fst fresh))) \<in> set (adSettled t)"
    by (simp_all add: b(3) serve_bot_def s1 grant_def settle_def)
  have "adOrder t = pre @ post @ [b] \<or> adOrder t = pre @ post \<and> map_of (adPending t) b = None"
    using s1o dist o t(2,3) by (auto simp: remove1_append split: if_splits)
  then show ?thesis using o b(2) blocked c t(1,4) by (intro exI [of _ pre] exI [of _ b] exI [of _ post] exI [of _ item]) simp
qed

definition sample_admission :: admission where
  "sample_admission = \<lparr>adLimits = \<lparr>maxConcurrent = 2, maxAutomaticAcp = 1, maxPerBotActive = 2,
      maxPending = 512, maxPendingPerBot = 16, queueTimeoutMs = 45000\<rparr>,
     adLeases = [], adPending = [], adOrder = [], adCount = 0, adTickets = 0, adSettled = []\<rparr>"

definition sample_options :: admission_options where
  "sample_options = \<lparr>opConcurrent = Some 2, opAutomatic = None, opPerBot = None, opPending = None,
     opPendingPerBot = None, opTimeout = None\<rparr>"

lemma sample_new: "new_admission 8 sample_options = Inr sample_admission"
  by (simp add: new_admission_def sample_options_def option_or_def bounded_integer_def sample_admission_def)

definition sample_input_claim :: "nat \<Rightarrow> claim" where
  "sample_input_claim n = \<lparr>clBot = ''b'', clRun = [n], clSession = [115], clKind = Foreground, clRoot = None\<rparr>"

definition sample_supply :: fresh_supply where
  "sample_supply i = (replicate (Suc i) CHR ''x'', 0)"

text \<open>Three claims of one bot: two are admitted, the third waits.\<close>

definition sample_calls :: "admission_call list" where
  "sample_calls = [AdAcquire sample_supply False None 0 (sample_input_claim 1),
     AdAcquire (\<lambda>i. (''y'', 0)) False None 0 (sample_input_claim 2),
     AdAcquire sample_supply False None 0 (sample_input_claim 3)]"

lemma sample_run:
  "adPending (foldl admission_step sample_admission sample_calls) =
     [(''b'', [\<lparr>wtTicket = 2, wtInput = sample_input_claim 3\<rparr>])]"
  by (simp add: sample_calls_def sample_admission_def sample_input_claim_def acquire_def validated_root_def
      wait_ms_def enqueue_def Let_def drain_def waiting_items_def drain_once_def admissible_head_def
      queue_head_def check_state_def check_def serve_bot_def remove_pending_def grant_def settle_def
      sample_supply_def make_lease_def claim.defs)

theorem admission_limits_hold_witness:
  "length (list_leases (foldl admission_step sample_admission sample_calls)) \<le>
     maxConcurrent (adLimits (foldl admission_step sample_admission sample_calls))"
  using admission_limits_hold [OF sample_new, of sample_calls] unfolding Let_def by blast


theorem tickets_settled_once_witness:
  "adCount (foldl admission_step sample_admission sample_calls) = 1"
proof -
  have "adCount (foldl admission_step sample_admission sample_calls) =
      length (waiting_items (foldl admission_step sample_admission sample_calls))"
    using tickets_settled_once [OF sample_new, of sample_calls] unfolding Let_def by blast
  then show ?thesis by (simp add: waiting_items_def sample_run)
qed

definition waiting_admission :: admission where
  "waiting_admission = enqueue (sample_input_claim 1) sample_admission"

theorem drain_serves_in_turn_witness:
  "\<exists>t. drain_once (''x'', 0) waiting_admission = Some t \<and>
     map_of (adLeases t) ''x'' = Some (make_lease (''x'', 0) (sample_input_claim 1))"
proof -
  have core: "core_inv waiting_admission"
    unfolding waiting_admission_def
    by (rule enqueue_core) (use new_admission_inv [OF sample_new] in
      \<open>simp_all add: admission_inv_def sample_admission_def\<close>)
  have q: "queue_head waiting_admission ''b'' = Some \<lparr>wtTicket = 0, wtInput = sample_input_claim 1\<rparr>"
    "adOrder waiting_admission = [''b'']"
    by (simp_all add: waiting_admission_def enqueue_def sample_admission_def sample_input_claim_def queue_head_def Let_def)
  have "admissible_head waiting_admission ''b''"
    unfolding admissible_head_def q
    by (simp add: check_state_def check_def waiting_admission_def enqueue_def sample_admission_def
        sample_input_claim_def Let_def)
  then obtain t where t: "drain_once (''x'', 0) waiting_admission = Some t"
    by (simp add: drain_once_def q)
  from drain_serves_in_turn [OF core t] q obtain before b after where
    "[''b''] = before @ b # after" "queue_head waiting_admission b = Some \<lparr>wtTicket = 0, wtInput = sample_input_claim 1\<rparr>
       \<longrightarrow> map_of (adLeases t) ''x'' = Some (make_lease (''x'', 0) (sample_input_claim 1))" by auto
  then have "b = ''b''" by (simp add: Cons_eq_append_conv)
  with q t \<open>_ \<longrightarrow> _\<close> show ?thesis by blast
qed

section \<open>Overlapping roots\<close>

definition plain_part :: "string \<Rightarrow> bool" where
  "plain_part p \<longleftrightarrow> p \<noteq> [] \<and> p \<noteq> ''.'' \<and> CHR ''/'' \<notin> set p"

lemma split_slash_parts: "p \<in> set (split_slash s) \<Longrightarrow> CHR ''/'' \<notin> set p"
proof (induction s arbitrary: p)
  case (Cons c s)
  then show ?case by (cases "split_slash s") (auto split: if_splits)
qed simp

lemma resolve_parts_plain:
  "\<forall>p \<in> set ps. CHR ''/'' \<notin> set p \<Longrightarrow> \<forall>p \<in> set acc. plain_part p \<Longrightarrow>
   p \<in> set (resolve_parts acc ps) \<Longrightarrow> plain_part p"
proof (induction acc ps rule: resolve_parts.induct)
  case (2 acc p ps)
  have "\<forall>q \<in> set (tl acc). plain_part q" using "2.prems"(2) by (cases acc) auto
  with 2 show ?case by (auto simp: plain_part_def split: if_splits)
qed simp

lemma path_parts_plain: "p \<in> set (path_parts s) \<Longrightarrow> plain_part p"
  unfolding path_parts_def by (rule resolve_parts_plain) (auto dest: split_slash_parts)

lemma common_length_le: "common_length xs ys \<le> length xs" "common_length xs ys \<le> length ys"
  by (induction xs ys rule: common_length.induct) auto

lemma common_length_prefix: "common_length xs ys = length xs \<longleftrightarrow> prefix xs ys"
  by (induction xs ys rule: common_length.induct) auto

lemma join_slash_Cons: "\<exists>t. join_slash (p # ps) = p @ t"
  by (cases ps) auto

lemma starts_dotted: "plain_part p \<Longrightarrow> starts_with (p @ t) ''..'' \<Longrightarrow> starts_with p ''..''"
proof -
  assume p: "plain_part p" and s: "starts_with (p @ t) ''..''"
  obtain c q where cq: "p = c # q" using p by (cases p) (auto simp: plain_part_def)
  from s have "c = CHR ''.''" by (simp add: starts_with_def cq)
  with p cq have "q \<noteq> []" by (auto simp: plain_part_def)
  then obtain d r where "q = d # r" by (cases q) auto
  with s show ?thesis by (simp add: starts_with_def cq)
qed

text \<open>One of the four tests: the relative path stays below its source.\<close>

definition below :: "string \<Rightarrow> string \<Rightarrow> bool" where
  "below l r = (let a = relative_path l r in a = [] \<or> \<not> starts_with a ''..'' \<and> \<not> is_absolute a)"

lemma roots_overlap_below: "roots_overlap l r = (below l r \<or> below r l)"
  by (auto simp: roots_overlap_def below_def Let_def)

lemma below_dotted:
  assumes "\<not> prefix (path_parts l) (path_parts r) \<or>
    (\<exists>c ps. path_parts r = path_parts l @ c # ps \<and> starts_with c ''..'')"
  shows "\<not> below l r"
proof -
  let ?n = "common_length (path_parts l) (path_parts r)"
  have "\<exists>p ps. replicate (length (path_parts l) - ?n) ''..'' @ drop ?n (path_parts r) = p # ps \<and> starts_with p ''..''"
  proof (cases "prefix (path_parts l) (path_parts r)")
    case True
    then have "?n = length (path_parts l)" by (simp add: common_length_prefix)
    with True assms show ?thesis by auto
  next
    case False
    then have "?n < length (path_parts l)"
      using common_length_le(1) [of "path_parts l" "path_parts r"] common_length_prefix [of "path_parts l" "path_parts r"]
      by linarith
    then have "length (path_parts l) - ?n = Suc (length (path_parts l) - Suc ?n)" by simp
    then show ?thesis by (simp add: starts_with_def)
  qed
  then obtain p ps where a: "relative_path l r = join_slash (p # ps)" "starts_with p ''..''"
    by (auto simp: relative_path_def Let_def)
  obtain t where "relative_path l r = p @ t" using a(1) join_slash_Cons by metis
  moreover have "take 2 p = ''..''" using a(2) by (simp add: starts_with_def numeral_2_eq_2)
  then have "length p \<ge> 2" by (metis length_Cons list.size(3) length_take min.cobounded1 numeral_2_eq_2)
  ultimately have "starts_with (relative_path l r) ''..''" "relative_path l r \<noteq> []"
    using a(2) by (auto simp: starts_with_def)
  then show ?thesis by (simp add: below_def Let_def)
qed

lemma below_prefix:
  assumes "path_parts r = path_parts l @ ps" "\<forall>p \<in> set ps. \<not> starts_with p ''..''"
  shows "below l r"
proof -
  have "common_length (path_parts l) (path_parts r) = length (path_parts l)"
    using assms(1) by (simp add: common_length_prefix)
  then have a: "relative_path l r = join_slash ps" by (simp add: relative_path_def Let_def assms(1))
  show ?thesis
  proof (cases ps)
    case Nil
    with a show ?thesis by (simp add: below_def)
  next
    case (Cons p qs)
    have p: "plain_part p" using assms(1) Cons path_parts_plain [of p r] by simp
    obtain t where "relative_path l r = p @ t" using a Cons join_slash_Cons by metis
    moreover have "\<not> is_absolute (p @ t)" using p by (cases p) (auto simp: is_absolute_def plain_part_def)
    moreover have "\<not> starts_with (p @ t) ''..''" using starts_dotted [OF p] assms(2) Cons by auto
    ultimately show ?thesis by (simp add: below_def)
  qed
qed

text \<open>For roots without a component that starts with two dots, \<open>rootsOverlap\<close> holds exactly when one
  root contains the other.\<close>

theorem roots_overlap_nested:
  assumes "\<forall>p \<in> set (path_parts l) \<union> set (path_parts r). \<not> starts_with p ''..''"
  shows "roots_overlap l r \<longleftrightarrow> prefix (path_parts l) (path_parts r) \<or> prefix (path_parts r) (path_parts l)"
proof -
  have "below l r = prefix (path_parts l) (path_parts r)"
    using below_dotted [of l r] below_prefix [of r l] assms by (auto simp: prefix_def)
  moreover have "below r l = prefix (path_parts r) (path_parts l)"
    using below_dotted [of r l] below_prefix [of l r] assms by (auto simp: prefix_def)
  ultimately show ?thesis by (simp add: roots_overlap_below)
qed

theorem roots_overlap_nested_witness:
  "roots_overlap ''/w'' ''/w/a'' \<and> \<not> roots_overlap ''/w'' ''/v''"
proof -
  have parts: "path_parts ''/w'' = [''w'']" "path_parts ''/w/a'' = [''w'', ''a'']" "path_parts ''/v'' = [''v'']"
    by (simp_all add: path_parts_def)
  have "roots_overlap ''/w'' ''/w/a''" using roots_overlap_nested [of "''/w''" "''/w/a''"]
    by (simp add: parts starts_with_def)
  moreover have "\<not> roots_overlap ''/w'' ''/v''" using roots_overlap_nested [of "''/w''" "''/v''"]
    by (simp add: parts starts_with_def)
  ultimately show ?thesis by blast
qed

text \<open>A directory whose name starts with two dots escapes the check: a lease on a root and a claim on
  such a child of it do not conflict, so two executions may change the same tree.\<close>

theorem dotted_child_not_seen:
  assumes "path_parts child = path_parts parent @ [name]" and "starts_with name ''..''"
  shows "\<not> roots_overlap parent child \<and> prefix (path_parts parent) (path_parts child)"
proof -
  have "\<not> below parent child" using assms by (intro below_dotted) auto
  moreover have "\<not> below child parent" using assms(1) by (intro below_dotted) (auto simp: prefix_def)
  ultimately show ?thesis using assms(1) by (simp add: roots_overlap_below)
qed

theorem dotted_child_not_seen_witness:
  "\<not> roots_overlap ''/w'' ''/w/..cache'' \<and>
   validated_root (Some ''/w/..cache'') = Inr (Some ''/w/..cache'')"
proof -
  have "path_parts ''/w/..cache'' = path_parts ''/w'' @ [''..cache'']" "starts_with ''..cache'' ''..''"
    by (simp_all add: path_parts_def starts_with_def)
  from dotted_child_not_seen [OF this] show ?thesis
    by (simp add: validated_root_def is_absolute_def has_control_character_def resolve_path_def path_parts_def)
qed

end
