(* ===== verification/IngressSpool.thy ===== *)
theory IngressSpool
  imports JsValue Interfaces
begin

text \<open>
  The durable inbox of the gateway: \<open>gateway/receive/ingress-spool.ts\<close> on the journal of
  \<open>gateway/recording/journal.ts\<close>, and \<open>gatewayInboundIdempotencyKey\<close>. A provider message is a JSON
  value. The identity key, in the code the JSON text of an array of strings, is that list of strings.
  The hash of a message and of a receipt are parameters (\<open>hashes\<close>). The disk is a list of lines, \<open>None\<close>
  for a line that does not parse, and what follows the last newline; what the operating
  system does with a write is an \<open>append_io\<close>, and a \<open>compact_io\<close> for the rewrite.
\<close>

section \<open>Entries and events\<close>

datatype ingress_status =
  Queued | Processing | Retrying | Completed | Rejected | Failed | Interrupted

datatype ingress_error = InvalidIdentity | DigestConflict | Persistence

type_synonym ingress_key = "jstr list"

record ingress_entry =
  ieReceipt :: string
  ieKey :: ingress_key
  ieDigest :: string
  ieMessage :: "jsval option"
  iePreview :: jstr
  ieStatus :: ingress_status
  ieAttempts :: nat
  ieError :: "jstr option"

datatype event_type = AcceptedEvent | StatusEvent

record ingress_event =
  evVersion :: nat
  evAt :: time
  evType :: event_type
  evReceipt :: string
  evKey :: ingress_key
  evDigest :: string
  evMessage :: "jsval option"
  evPreview :: "jstr option"
  evStatus :: ingress_status
  evError :: "jstr option"
  evAttempts :: "nat option"

record ingress_receipt =
  irReceipt :: string
  irDuplicate :: bool
  irStatus :: ingress_status

record hashes =
  hashMessage :: "jsval \<Rightarrow> string"
  hashReceipt :: "ingress_key \<Rightarrow> string \<Rightarrow> string"

definition ingress_version :: nat where "ingress_version = 1"

definition is_terminal_ingress_status :: "ingress_status \<Rightarrow> bool" where
  "is_terminal_ingress_status st = (st = Completed \<or> st = Rejected \<or> st = Failed)"

section \<open>Identity of a message\<close>

definition text_field :: "jsval \<Rightarrow> string \<Rightarrow> jstr" where
  "text_field v f = (case getp v f of Str t \<Rightarrow> t | _ \<Rightarrow> [])"

definition message_id :: "jsval \<Rightarrow> jstr" where
  "message_id m = trim_text (text_field m ''messageId'')"

definition account_id :: "jsval \<Rightarrow> jstr" where
  "account_id m =
     (let a = trim_text (text_field (getp m ''metadata'') ''accountId'')
      in if a = [] then js ''default'' else a)"

definition gateway_inbound_idempotency_key :: "jsval \<Rightarrow> ingress_key option" where
  "gateway_inbound_idempotency_key m =
     (if message_id m = [] then None
      else Some [text_field m ''platform'', account_id m, text_field m ''userId'', text_field m ''roomId'',
        text_field m ''channelId'', text_field m ''threadId'', message_id m])"

text \<open>\<open>canonicalize\<close>: keys sorted by \<open>localeCompare\<close>, a parameter, at every level.\<close>

fun insert_key :: "(string \<Rightarrow> string \<Rightarrow> bool) \<Rightarrow> string \<times> jsval \<Rightarrow> (string \<times> jsval) list \<Rightarrow> (string \<times> jsval) list" where
  "insert_key before p [] = [p]"
| "insert_key before p (q # qs) =
     (if before (fst q) (fst p) then q # insert_key before p qs else p # q # qs)"

fun sort_keys :: "(string \<Rightarrow> string \<Rightarrow> bool) \<Rightarrow> (string \<times> jsval) list \<Rightarrow> (string \<times> jsval) list" where
  "sort_keys before [] = []"
| "sort_keys before (p # ps) = insert_key before p (sort_keys before ps)"

fun canonicalize :: "(string \<Rightarrow> string \<Rightarrow> bool) \<Rightarrow> jsval \<Rightarrow> jsval" where
  "canonicalize before (Arr vs) = Arr (map (canonicalize before) vs)"
| "canonicalize before (Obj fs) = Obj (sort_keys before (map (\<lambda>p. (fst p, canonicalize before (snd p))) fs))"
| "canonicalize before v = v"

section \<open>The journal file\<close>

text \<open>
  After the last newline there is nothing, a piece of a record (which never parses), or a whole record
  that only lacks its newline.
\<close>

datatype journal_tail = CleanTail | PieceTail | WholeTail ingress_event

record journal =
  jnLines :: "ingress_event option list"
  jnTail :: journal_tail

definition empty_journal :: journal where
  "empty_journal = \<lparr>jnLines = [], jnTail = CleanTail\<rparr>"

record append_io =
  ioSize :: "ingress_event \<Rightarrow> nat"
  ioWrite :: "nat \<Rightarrow> int option"
  ioFsync :: bool

text \<open>
  The write loop of \<open>appendGatewayJournalRecordDurably\<close>: \<open>ioWrite n\<close> is what the \<open>n\<close>-th call of \<open>write\<close>
  returns, \<open>None\<close> when it throws. The result is the offset reached and whether all was written.
\<close>

function write_loop :: "(nat \<Rightarrow> int option) \<Rightarrow> nat \<Rightarrow> nat \<Rightarrow> nat \<Rightarrow> nat \<times> bool" where
  "write_loop w n offset goal_size =
     (if goal_size \<le> offset then (offset, True)
      else (case w n of
          None \<Rightarrow> (offset, False)
        | Some k \<Rightarrow> if k \<le> 0 then (offset, False) else write_loop w (Suc n) (offset + nat k) goal_size))"
  by pat_completeness auto
termination
  by (relation "measure (\<lambda>(w, n, offset, goal_size). goal_size - offset)") auto

declare write_loop.simps [simp del]

text \<open>A record written behind a tail shares its line, which then does not parse.\<close>

definition append_line :: "ingress_event \<Rightarrow> journal \<Rightarrow> journal" where
  "append_line ev j =
     \<lparr>jnLines = jnLines j @ [if jnTail j = CleanTail then Some ev else None], jnTail = CleanTail\<rparr>"

definition append_piece :: "append_io \<Rightarrow> nat \<Rightarrow> ingress_event \<Rightarrow> journal \<Rightarrow> journal" where
  "append_piece io offset ev j =
     (if offset = 0 then j
      else j\<lparr>jnTail := (if jnTail j = CleanTail \<and> Suc offset = ioSize io ev then WholeTail ev else PieceTail)\<rparr>)"

definition append_durably :: "append_io \<Rightarrow> ingress_event \<Rightarrow> journal \<Rightarrow> bool \<times> journal" where
  "append_durably io ev j =
     (case write_loop (ioWrite io) 0 0 (ioSize io ev) of
        (offset, whole) \<Rightarrow>
          if whole then (ioFsync io, append_line ev j) else (False, append_piece io offset ev j))"

definition load_journal :: "journal \<Rightarrow> ingress_event list" where
  "load_journal j =
     List.map_filter id (jnLines j) @ (case jnTail j of WholeTail ev \<Rightarrow> [ev] | _ \<Rightarrow> [])"

section \<open>The spool\<close>

record spool =
  spEntries :: "(string, ingress_entry) jsmap"
  spByKey :: "(ingress_key, string) jsmap"
  spJournal :: journal
  spMaxTombstones :: int

text \<open>\<open>load\<close>, one event.\<close>

definition valid_event :: "ingress_event \<Rightarrow> bool" where
  "valid_event ev = (evVersion ev = ingress_version \<and> evReceipt ev \<noteq> [] \<and> evKey ev \<noteq> [] \<and> evDigest ev \<noteq> [])"

definition accepted_entry :: "ingress_event \<Rightarrow> ingress_entry" where
  "accepted_entry ev =
     \<lparr>ieReceipt = evReceipt ev, ieKey = evKey ev, ieDigest = evDigest ev, ieMessage = evMessage ev,
      iePreview = (case evPreview ev of
          Some p \<Rightarrow> p
        | None \<Rightarrow> (case evMessage ev of Some m \<Rightarrow> take 280 (text_field m ''text'') | None \<Rightarrow> [])),
      ieStatus = evStatus ev,
      ieAttempts = (case evAttempts ev of Some n \<Rightarrow> n | None \<Rightarrow> 0),
      ieError = None\<rparr>"

definition replay_event ::
  "(string, ingress_entry) jsmap \<times> (ingress_key, string) jsmap \<Rightarrow> ingress_event \<Rightarrow>
   (string, ingress_entry) jsmap \<times> (ingress_key, string) jsmap" where
  "replay_event st ev =
     (case st of (entries, byKey) \<Rightarrow>
        if \<not> valid_event ev then st
        else if evType ev = AcceptedEvent then
          (AList.update (evReceipt ev) (accepted_entry ev) entries,
           AList.update (evKey ev) (evReceipt ev) byKey)
        else (case map_of entries (evReceipt ev) of
            None \<Rightarrow> st
          | Some entry \<Rightarrow>
              (AList.update (ieReceipt entry)
                 (entry\<lparr>ieStatus := evStatus ev, ieError := evError ev,
                        ieAttempts := (case evAttempts ev of Some n \<Rightarrow> n | None \<Rightarrow> ieAttempts entry)\<rparr>) entries,
               byKey)))"

definition replay :: "ingress_event list \<Rightarrow> (string, ingress_entry) jsmap \<times> (ingress_key, string) jsmap" where
  "replay evs = foldl replay_event ([], []) evs"

text \<open>
  \<open>compactTerminalPayloads\<close>. The rewrite fails before the rename, fails after it, or is done; a
  failure is swallowed.
\<close>

datatype compact_io = CompactFails | CompactFailsAfterRename | CompactDone

definition compacted_event :: "time \<Rightarrow> ingress_entry \<Rightarrow> ingress_event" where
  "compacted_event now e =
     \<lparr>evVersion = ingress_version, evAt = now, evType = AcceptedEvent, evReceipt = ieReceipt e,
      evKey = ieKey e, evDigest = ieDigest e,
      evMessage = (if \<not> is_terminal_ingress_status (ieStatus e) then ieMessage e else None),
      evPreview = Some (iePreview e), evStatus = ieStatus e,
      evError = (case ieError e of Some x \<Rightarrow> if x = [] then None else Some x | None \<Rightarrow> None),
      evAttempts = Some (ieAttempts e)\<rparr>"

definition terminal_entries :: "spool \<Rightarrow> ingress_entry list" where
  "terminal_entries s = filter (\<lambda>e. is_terminal_ingress_status (ieStatus e)) (map snd (spEntries s))"

definition discarded_entries :: "spool \<Rightarrow> ingress_entry list" where
  "discarded_entries s =
     take (nat (max 0 (int (length (terminal_entries s)) - spMaxTombstones s))) (terminal_entries s)"

definition retained_entries :: "spool \<Rightarrow> ingress_entry list" where
  "retained_entries s =
     filter (\<lambda>e. ieReceipt e \<notin> ieReceipt ` set (discarded_entries s)) (map snd (spEntries s))"

definition forget_payload :: "ingress_entry \<Rightarrow> ingress_entry" where
  "forget_payload e = (if is_terminal_ingress_status (ieStatus e) then e\<lparr>ieMessage := None\<rparr> else e)"

definition compact_terminal_payloads :: "compact_io \<Rightarrow> time \<Rightarrow> spool \<Rightarrow> spool" where
  "compact_terminal_payloads io now s =
     (if \<not> list_ex (\<lambda>e. ieMessage e \<noteq> None) (terminal_entries s) \<or> io = CompactFails then s
      else
        let s1 = s\<lparr>spJournal := \<lparr>jnLines = map (\<lambda>e. Some (compacted_event now e)) (retained_entries s),
                                 jnTail = CleanTail\<rparr>\<rparr>
        in if io = CompactFailsAfterRename then s1
           else s1\<lparr>
             spEntries := map (\<lambda>p. (fst p, forget_payload (snd p)))
               (filter (\<lambda>p. fst p \<notin> ieReceipt ` set (discarded_entries s)) (spEntries s)),
             spByKey := filter (\<lambda>p. fst p \<notin> ieKey ` set (discarded_entries s)) (spByKey s)\<rparr>)"

definition open_spool :: "compact_io \<Rightarrow> time \<Rightarrow> int \<Rightarrow> journal \<Rightarrow> spool" where
  "open_spool io now tombstones j =
     compact_terminal_payloads io now
       (case replay (load_journal j) of
          (entries, byKey) \<Rightarrow> \<lparr>spEntries = entries, spByKey = byKey, spJournal = j,
                              spMaxTombstones = tombstones\<rparr>)"

section \<open>Operations\<close>

definition accepted_event :: "time \<Rightarrow> ingress_entry \<Rightarrow> ingress_event" where
  "accepted_event now e =
     \<lparr>evVersion = ingress_version, evAt = now, evType = AcceptedEvent, evReceipt = ieReceipt e,
      evKey = ieKey e, evDigest = ieDigest e, evMessage = ieMessage e, evPreview = Some (iePreview e),
      evStatus = Queued, evError = None, evAttempts = Some 0\<rparr>"

definition queued_entry :: "hashes \<Rightarrow> ingress_key \<Rightarrow> jsval \<Rightarrow> ingress_entry" where
  "queued_entry H key m =
     \<lparr>ieReceipt = hashReceipt H key (hashMessage H m), ieKey = key, ieDigest = hashMessage H m,
      ieMessage = Some m, iePreview = take 280 (text_field m ''text''), ieStatus = Queued,
      ieAttempts = 0, ieError = None\<rparr>"

definition accept ::
  "hashes \<Rightarrow> append_io \<Rightarrow> time \<Rightarrow> bool \<Rightarrow> jsval \<Rightarrow> spool \<Rightarrow> (ingress_error, ingress_receipt, spool) outcome" where
  "accept H io now aborted m s =
     (if aborted then (Inl InvalidIdentity, s)
      else (case gateway_inbound_idempotency_key m of
          None \<Rightarrow> (Inl InvalidIdentity, s)
        | Some key \<Rightarrow>
            (case map_of (spByKey s) key of
               Some existingId \<Rightarrow>
                 (case map_of (spEntries s) existingId of
                    None \<Rightarrow> (Inl Persistence, s)
                  | Some existing \<Rightarrow>
                      if ieDigest existing \<noteq> hashMessage H m then (Inl DigestConflict, s)
                      else (Inr \<lparr>irReceipt = ieReceipt existing, irDuplicate = True,
                                 irStatus = ieStatus existing\<rparr>, s))
             | None \<Rightarrow>
                 (let entry = queued_entry H key m;
                      (ok, j) = append_durably io (accepted_event now entry) (spJournal s);
                      s1 = s\<lparr>spJournal := j\<rparr>
                  in if ok
                     then (Inr \<lparr>irReceipt = ieReceipt entry, irDuplicate = False, irStatus = Queued\<rparr>,
                           s1\<lparr>spEntries := AList.update (ieReceipt entry) entry (spEntries s1),
                              spByKey := AList.update key (ieReceipt entry) (spByKey s1)\<rparr>)
                     else (Inl Persistence, s1)))))"

definition pending_entries :: "bool \<Rightarrow> spool \<Rightarrow> ingress_entry list" where
  "pending_entries includeRetrying s =
     filter (\<lambda>e. ieStatus e = Queued \<or> includeRetrying \<and> ieStatus e = Retrying) (map snd (spEntries s))"

definition status_event ::
  "time \<Rightarrow> ingress_entry \<Rightarrow> ingress_status \<Rightarrow> jstr option \<Rightarrow> nat \<Rightarrow> ingress_event" where
  "status_event now e st err attempts =
     \<lparr>evVersion = ingress_version, evAt = now, evType = StatusEvent, evReceipt = ieReceipt e,
      evKey = ieKey e, evDigest = ieDigest e, evMessage = None, evPreview = None, evStatus = st,
      evError = err, evAttempts = Some attempts\<rparr>"

definition set_status ::
  "append_io \<Rightarrow> compact_io \<Rightarrow> time \<Rightarrow> ingress_entry \<Rightarrow> ingress_status \<Rightarrow> jstr option \<Rightarrow> nat \<Rightarrow> spool \<Rightarrow>
   (ingress_error, unit, spool) outcome" where
  "set_status io cio now e st err attempts s =
     (case append_durably io (status_event now e st err attempts) (spJournal s) of
        (ok, j) \<Rightarrow>
          if \<not> ok then (Inl Persistence, s\<lparr>spJournal := j\<rparr>)
          else
            let s1 = s\<lparr>spJournal := j,
                  spEntries := AList.update (ieReceipt e)
                    (e\<lparr>ieStatus := st, ieError := err, ieAttempts := attempts\<rparr>) (spEntries s)\<rparr>
            in (Inr (), if is_terminal_ingress_status st then compact_terminal_payloads cio now s1 else s1))"

definition claim_receipt ::
  "append_io \<Rightarrow> time \<Rightarrow> string \<Rightarrow> spool \<Rightarrow> (ingress_error, ingress_entry option, spool) outcome" where
  "claim_receipt io now receipt s =
     (case map_of (spEntries s) receipt of
        None \<Rightarrow> (Inr None, s)
      | Some e \<Rightarrow>
          if ieMessage e = None \<or> ieStatus e \<noteq> Queued \<and> ieStatus e \<noteq> Retrying then (Inr None, s)
          else
            (case set_status io CompactFails now e Processing None (Suc (ieAttempts e)) s of
               (Inl err, s1) \<Rightarrow> (Inl err, s1)
             | (Inr _, s1) \<Rightarrow> (Inr (map_of (spEntries s1) receipt), s1)))"

fun interrupt_each ::
  "(nat \<Rightarrow> append_io) \<Rightarrow> time \<Rightarrow> ingress_entry list \<Rightarrow> spool \<Rightarrow> (ingress_error, unit, spool) outcome" where
  "interrupt_each io now [] s = (Inr (), s)"
| "interrupt_each io now (e # es) s =
     (if ieStatus e = Processing then
        (case set_status (io 0) CompactFails now e Interrupted None (ieAttempts e) s of
           (Inl err, s1) \<Rightarrow> (Inl err, s1)
         | (Inr _, s1) \<Rightarrow> interrupt_each (\<lambda>n. io (Suc n)) now es s1)
      else interrupt_each io now es s)"

definition mark_interrupted ::
  "(nat \<Rightarrow> append_io) \<Rightarrow> time \<Rightarrow> spool \<Rightarrow> (ingress_error, unit, spool) outcome" where
  "mark_interrupted io now s = interrupt_each io now (map snd (spEntries s)) s"

record ingress_history =
  ihReceipt :: string
  ihStatus :: ingress_status
  ihPreview :: jstr
  ihError :: "jstr option"

definition ingress_history_of :: "nat \<Rightarrow> spool \<Rightarrow> ingress_history list" where
  "ingress_history_of limit s =
     map (\<lambda>e. \<lparr>ihReceipt = ieReceipt e, ihStatus = ieStatus e, ihPreview = iePreview e,
              ihError = (case ieError e of Some x \<Rightarrow> if x = [] then None else Some x | None \<Rightarrow> None)\<rparr>)
       (rev (if limit = 0 then map snd (spEntries s) else slice_last limit (map snd (spEntries s))))"

end
