(* ===== verification/IngressFacts.thy ===== *)
theory IngressFacts
  imports IngressSpool
begin

text \<open>
  Facts about the durable inbox: what a run of operations keeps of its index, that reading the journal
  back gives the spool that wrote it, and what compaction leaves of finished messages.
\<close>

section \<open>Runs of the spool\<close>

datatype spool_op =
  SpAccept append_io time bool jsval
| SpClaim append_io time string
| SpStatus append_io compact_io time string ingress_status "jstr option"
| SpInterrupt "nat \<Rightarrow> append_io" time
| SpRestart compact_io time

definition status_of_receipt ::
  "append_io \<Rightarrow> compact_io \<Rightarrow> time \<Rightarrow> string \<Rightarrow> ingress_status \<Rightarrow> jstr option \<Rightarrow> spool \<Rightarrow> spool" where
  "status_of_receipt io cio now receipt st err s =
     (case map_of (spEntries s) receipt of
        None \<Rightarrow> s
      | Some e \<Rightarrow> snd (set_status io cio now e st err (ieAttempts e) s))"

fun spool_step :: "hashes \<Rightarrow> spool \<Rightarrow> spool_op \<Rightarrow> spool" where
  "spool_step H s (SpAccept io now aborted m) = snd (accept H io now aborted m s)"
| "spool_step H s (SpClaim io now receipt) = snd (claim_receipt io now receipt s)"
| "spool_step H s (SpStatus io cio now receipt st err) = status_of_receipt io cio now receipt st err s"
| "spool_step H s (SpInterrupt io now) = snd (mark_interrupted io now s)"
| "spool_step H s (SpRestart cio now) = open_spool cio now (spMaxTombstones s) (spJournal s)"

definition spool_run :: "hashes \<Rightarrow> spool \<Rightarrow> spool_op list \<Rightarrow> spool" where
  "spool_run H s ops = foldl (spool_step H) s ops"

definition new_spool :: "int \<Rightarrow> spool" where
  "new_spool tombstones = open_spool CompactDone 0 tombstones empty_journal"

text \<open>A write that reaches the device whole, or leaves no byte.\<close>

definition clean_io :: "append_io \<Rightarrow> bool" where
  "clean_io io = (\<forall>ev. case write_loop (ioWrite io) 0 0 (ioSize io ev) of
     (offset, whole) \<Rightarrow> if whole then ioFsync io else offset = 0)"

fun clean_op :: "spool_op \<Rightarrow> bool" where
  "clean_op (SpAccept io now aborted m) = clean_io io"
| "clean_op (SpClaim io now receipt) = clean_io io"
| "clean_op (SpStatus io cio now receipt st err) = (clean_io io \<and> cio \<noteq> CompactFailsAfterRename)"
| "clean_op (SpInterrupt io now) = (\<forall>n. clean_io (io n))"
| "clean_op (SpRestart cio now) = (cio \<noteq> CompactFailsAfterRename)"

text \<open>The hash tells the messages \<open>ms\<close> apart: two of them with one receipt have one key.\<close>

definition message_receipt :: "hashes \<Rightarrow> jsval \<Rightarrow> ingress_key \<Rightarrow> string" where
  "message_receipt H m key = hashReceipt H key (hashMessage H m)"

definition hash_ok :: "hashes \<Rightarrow> jsval list \<Rightarrow> bool" where
  "hash_ok H ms = (\<forall>m\<in>set ms. \<forall>key. gateway_inbound_idempotency_key m = Some key \<longrightarrow>
     hashMessage H m \<noteq> [] \<and> message_receipt H m key \<noteq> [] \<and>
     (\<forall>m'\<in>set ms. \<forall>key'. gateway_inbound_idempotency_key m' = Some key' \<longrightarrow>
        message_receipt H m key = message_receipt H m' key' \<longrightarrow> key = key'))"

fun accepted_messages :: "spool_op list \<Rightarrow> jsval list" where
  "accepted_messages [] = []"
| "accepted_messages (SpAccept io now aborted m # ops) = m # accepted_messages ops"
| "accepted_messages (_ # ops) = accepted_messages ops"

lemma accepted_messages_mem: "SpAccept io now ab m \<in> set ops \<Longrightarrow> m \<in> set (accepted_messages ops)"
  by (induction ops rule: accepted_messages.induct) auto

lemma accepted_messages_append [simp]:
  "accepted_messages (xs @ ys) = accepted_messages xs @ accepted_messages ys"
  by (induction xs rule: accepted_messages.induct) auto

section \<open>The journal\<close>

lemma append_durably_clean:
  assumes "clean_io io"
  obtains "append_durably io ev j = (True, append_line ev j)" | "append_durably io ev j = (False, j)"
proof -
  obtain offset whole where "write_loop (ioWrite io) 0 0 (ioSize io ev) = (offset, whole)" by force
  then show ?thesis using assms that unfolding clean_io_def append_durably_def append_piece_def
    by (cases whole) (auto dest!: spec [of _ ev])
qed

lemma load_append_line:
  "jnTail j = CleanTail \<Longrightarrow> load_journal (append_line ev j) = load_journal j @ [ev]"
  by (simp add: load_journal_def append_line_def List.map_filter_def)

lemma jnTail_append_line [simp]: "jnTail (append_line ev j) = CleanTail"
  by (simp add: append_line_def)

lemma replay_append: "replay (evs @ [ev]) = replay_event (replay evs) ev"
  by (simp add: replay_def)

lemma key_not_empty: "gateway_inbound_idempotency_key m = Some key \<Longrightarrow> key \<noteq> []"
  by (auto simp: gateway_inbound_idempotency_key_def split: if_splits)

section \<open>The index follows the entries\<close>

type_synonym entry_map = "(string, ingress_entry) jsmap"

definition index_of :: "entry_map \<Rightarrow> (ingress_key, string) jsmap" where
  "index_of es = map (\<lambda>p. (ieKey (snd p), fst p)) es"

definition forget_error :: "ingress_entry \<Rightarrow> ingress_entry" where
  "forget_error e = e\<lparr>ieError := None\<rparr>"

definition shown :: "entry_map \<Rightarrow> entry_map" where
  "shown es = map (\<lambda>p. (fst p, forget_error (snd p))) es"

lemma forget_error_simps [simp]:
  "ieReceipt (forget_error e) = ieReceipt e" "ieKey (forget_error e) = ieKey e"
  "ieDigest (forget_error e) = ieDigest e" "ieStatus (forget_error e) = ieStatus e"
  "ieMessage (forget_error e) = ieMessage e" "ieAttempts (forget_error e) = ieAttempts e"
  "iePreview (forget_error e) = iePreview e"
  by (simp_all add: forget_error_def)

lemma shown_update: "shown (AList.update r e es) = AList.update r (forget_error e) (shown es)"
  by (induction es) (auto simp: shown_def)

lemma map_of_shown: "map_of (shown es) r = map_option forget_error (map_of es r)"
  by (induction es) (auto simp: shown_def)

lemma index_shown [simp]: "index_of (shown es) = index_of es"
  by (simp add: index_of_def shown_def)

lemma jm_wf_shown [simp]: "jm_wf (shown es) = jm_wf es"
  by (simp add: jm_wf_def shown_def comp_def)

lemma index_of_update:
  "map_of es r = Some e \<Longrightarrow> ieKey e' = ieKey e \<Longrightarrow> index_of (AList.update r e' es) = index_of es"
  by (induction es) (auto simp: index_of_def split: if_splits)

lemma index_of_append [simp]: "index_of (es @ fs) = index_of es @ index_of fs"
  by (simp add: index_of_def)

lemma index_of_get:
  assumes "map_of (index_of es) key = Some r" "jm_wf es"
  obtains e where "map_of es r = Some e" "ieKey e = key"
proof -
  from assms(1) have "(key, r) \<in> set (index_of es)" by (rule map_of_SomeD)
  then obtain e where "(r, e) \<in> set es" "ieKey e = key" by (auto simp: index_of_def)
  with assms(2) that show thesis by (auto simp: jm_in_get)
qed

lemma index_of_none:
  "map_of (index_of es) key = None \<Longrightarrow> map_of es r = Some e \<Longrightarrow> ieKey e \<noteq> key"
  by (force simp: map_of_eq_None_iff index_of_def dest: jm_get_in)

definition entry_ok :: "hashes \<Rightarrow> jsval list \<Rightarrow> string \<times> ingress_entry \<Rightarrow> bool" where
  "entry_ok H ms p = (ieReceipt (snd p) = fst p \<and>
     (\<exists>m\<in>set ms. gateway_inbound_idempotency_key m = Some (ieKey (snd p)) \<and>
        ieDigest (snd p) = hashMessage H m \<and> fst p = message_receipt H m (ieKey (snd p))))"

definition entries_ok :: "hashes \<Rightarrow> jsval list \<Rightarrow> entry_map \<Rightarrow> bool" where
  "entries_ok H ms es = (jm_wf es \<and> jm_wf (index_of es) \<and> (\<forall>p\<in>set es. entry_ok H ms p))"

definition spool_ok :: "hashes \<Rightarrow> jsval list \<Rightarrow> spool \<Rightarrow> bool" where
  "spool_ok H ms s = (entries_ok H ms (spEntries s) \<and> spByKey s = index_of (spEntries s))"

lemma entry_ok_shown [simp]: "entry_ok H ms (r, forget_error e) = entry_ok H ms (r, e)"
  by (simp add: entry_ok_def)

lemma entries_ok_shown: "entries_ok H ms (shown es) = entries_ok H ms es"
  by (auto simp: entries_ok_def) (auto simp: shown_def)

lemma entries_ok_get:
  "entries_ok H ms es \<Longrightarrow> map_of es r = Some e \<Longrightarrow> entry_ok H ms (r, e)"
  by (auto simp: entries_ok_def dest: jm_get_in)

lemma entries_ok_update:
  assumes ok: "entries_ok H ms es" and e: "map_of es r = Some e"
    and same: "ieReceipt e' = ieReceipt e" "ieKey e' = ieKey e" "ieDigest e' = ieDigest e"
  shows "entries_ok H ms (AList.update r e' es)"
proof -
  have "entry_ok H ms (r, e')" using entries_ok_get [OF ok e] same by (simp add: entry_ok_def)
  then show ?thesis
    using ok index_of_update [OF e same(2)] jm_set_update [of r e' es]
    by (auto simp: entries_ok_def)
qed

lemma entries_ok_filter:
  "entries_ok H ms es \<Longrightarrow> entries_ok H ms (filter P es)"
  by (auto simp: entries_ok_def index_of_def jm_wf_def distinct_map_filter comp_def filter_map)

section \<open>Reading the journal back\<close>

definition restores :: "spool \<Rightarrow> bool" where
  "restores s = (jnTail (spJournal s) = CleanTail \<and>
     (\<exists>es. replay (load_journal (spJournal s)) = (es, spByKey s) \<and> shown es = shown (spEntries s)))"

lemma replay_accepted:
  assumes "valid_event ev" "evType ev = AcceptedEvent"
  shows "replay_event (es, ks) ev =
    (AList.update (evReceipt ev) (accepted_entry ev) es, AList.update (evKey ev) (evReceipt ev) ks)"
  using assms by (simp add: replay_event_def)

lemma replay_status:
  assumes "valid_event ev" "evType ev = StatusEvent" "map_of es (evReceipt ev) = Some e"
    "evAttempts ev = Some n"
  shows "replay_event (es, ks) ev =
    (AList.update (ieReceipt e) (e\<lparr>ieStatus := evStatus ev, ieError := evError ev, ieAttempts := n\<rparr>) es, ks)"
  using assms by (simp add: replay_event_def)

lemma replay_accepted_list:
  assumes "\<forall>e\<in>set es. valid_event (compacted_event now e)"
    and "distinct (map ieReceipt es)" "distinct (map ieKey es)"
  shows "replay (map (compacted_event now) es) =
    (map (\<lambda>e. (ieReceipt e, accepted_entry (compacted_event now e))) es,
     map (\<lambda>e. (ieKey e, ieReceipt e)) es)"
  using assms
proof (induction es rule: rev_induct)
  case (snoc e es)
  let ?ev = "compacted_event now e"
  have "map_of (map (\<lambda>e. (ieReceipt e, accepted_entry (compacted_event now e))) es) (ieReceipt e) = None"
    "map_of (map (\<lambda>e. (ieKey e, ieReceipt e)) es) (ieKey e) = None"
    using snoc.prems by (force simp: map_of_eq_None_iff)+
  moreover have "evType ?ev = AcceptedEvent" "evReceipt ?ev = ieReceipt e" "evKey ?ev = ieKey e"
    by (simp_all add: compacted_event_def)
  ultimately show ?case using snoc
    by (simp add: replay_append replay_accepted jm_update_absent)
qed (simp add: replay_def)

lemma accepted_compacted: "accepted_entry (compacted_event now e) = forget_error (forget_payload e)"
  by (cases e) (auto simp: accepted_entry_def compacted_event_def forget_error_def forget_payload_def)

lemma entry_ok_valid:
  assumes "hash_ok H ms" "entry_ok H ms (r, e)"
  shows "r \<noteq> []" "ieReceipt e \<noteq> []" "ieKey e \<noteq> []" "ieDigest e \<noteq> []"
  using assms key_not_empty unfolding hash_ok_def entry_ok_def by fastforce+

lemma forget_payload_simps [simp]:
  "ieReceipt (forget_payload e) = ieReceipt e" "ieKey (forget_payload e) = ieKey e"
  "ieDigest (forget_payload e) = ieDigest e" "ieStatus (forget_payload e) = ieStatus e"
  by (simp_all add: forget_payload_def)

lemma entry_ok_forget_payload [simp]: "entry_ok H ms (r, forget_payload e) = entry_ok H ms (r, e)"
  by (simp add: entry_ok_def)

section \<open>Compaction\<close>

definition discarded_ids :: "spool \<Rightarrow> string set" where
  "discarded_ids s = ieReceipt ` set (discarded_entries s)"

definition retained_map :: "spool \<Rightarrow> entry_map" where
  "retained_map s = filter (\<lambda>p. fst p \<notin> discarded_ids s) (spEntries s)"

lemma discarded_subset: "set (discarded_entries s) \<subseteq> snd ` set (spEntries s)"
  by (auto simp: discarded_entries_def terminal_entries_def dest!: in_set_takeD)

lemma discarded_entry: "e \<in> set (discarded_entries s) \<Longrightarrow> \<exists>r. (r, e) \<in> set (spEntries s)"
  using discarded_subset by fastforce

lemma retained_entries_map:
  assumes "\<forall>p\<in>set (spEntries s). ieReceipt (snd p) = fst p"
  shows "retained_entries s = map snd (retained_map s)"
proof -
  have "filter (\<lambda>p. ieReceipt (snd p) \<notin> discarded_ids s) (spEntries s) = retained_map s"
    unfolding retained_map_def using assms by (intro filter_cong) auto
  then show ?thesis by (simp add: retained_entries_def filter_map comp_def discarded_ids_def)
qed

lemma index_of_inj:
  assumes "jm_wf (index_of es)" "p \<in> set es" "q \<in> set es" "ieKey (snd p) = ieKey (snd q)"
  shows "p = q"
  using assms by (auto simp: jm_wf_def index_of_def distinct_map inj_on_def)

lemma discarded_keys:
  assumes ok: "spool_ok H ms s" and p: "p \<in> set (spEntries s)"
  shows "ieKey (snd p) \<in> ieKey ` set (discarded_entries s) \<longleftrightarrow> fst p \<in> discarded_ids s"
proof -
  have es: "entries_ok H ms (spEntries s)" using ok by (simp add: spool_ok_def)
  have rec: "ieReceipt (snd q) = fst q" if "q \<in> set (spEntries s)" for q
    using es that by (auto simp: entries_ok_def entry_ok_def)
  have inj: "jm_wf (index_of (spEntries s))" and wf: "jm_wf (spEntries s)"
    using es by (auto simp: entries_ok_def)
  show ?thesis
  proof
    assume "ieKey (snd p) \<in> ieKey ` set (discarded_entries s)"
    then obtain e where e: "e \<in> set (discarded_entries s)" "ieKey (snd p) = ieKey e" by auto
    then obtain r where r: "(r, e) \<in> set (spEntries s)" using discarded_entry by blast
    then have "p = (r, e)" using index_of_inj [OF inj p r] e by simp
    then show "fst p \<in> discarded_ids s" using e rec [OF p] by (force simp: discarded_ids_def)
  next
    assume "fst p \<in> discarded_ids s"
    then obtain e where e: "e \<in> set (discarded_entries s)" "fst p = ieReceipt e"
      by (auto simp: discarded_ids_def)
    then obtain r where r: "(r, e) \<in> set (spEntries s)" using discarded_entry by blast
    with rec [OF r] e have "fst p = r" by simp
    with wf p r have "snd p = e" by (metis jm_in_get option.inject prod.collapse)
    with e show "ieKey (snd p) \<in> ieKey ` set (discarded_entries s)" by blast
  qed
qed

lemma index_retained:
  assumes "spool_ok H ms s"
  shows "filter (\<lambda>p. fst p \<notin> ieKey ` set (discarded_entries s)) (spByKey s) = index_of (retained_map s)"
proof -
  have "filter (\<lambda>p. ieKey (snd p) \<notin> ieKey ` set (discarded_entries s)) (spEntries s) = retained_map s"
    unfolding retained_map_def using discarded_keys [OF assms] by (intro filter_cong) auto
  then show ?thesis using assms by (simp add: spool_ok_def index_of_def filter_map comp_def)
qed

definition forget_payloads :: "entry_map \<Rightarrow> entry_map" where
  "forget_payloads es = map (\<lambda>p. (fst p, forget_payload (snd p))) es"

lemma index_forget_payloads [simp]: "index_of (forget_payloads es) = index_of es"
  by (simp add: index_of_def forget_payloads_def)

lemma entries_ok_forget_payloads [simp]: "entries_ok H ms (forget_payloads es) = entries_ok H ms es"
proof -
  have "jm_wf (forget_payloads es) = jm_wf es" by (simp add: jm_wf_def forget_payloads_def comp_def)
  moreover have "(\<forall>p\<in>set (forget_payloads es). entry_ok H ms p) = (\<forall>p\<in>set es. entry_ok H ms p)"
    by (auto simp: forget_payloads_def)
  ultimately show ?thesis by (simp add: entries_ok_def)
qed

lemma compact_cases:
  assumes "spool_ok H ms s"
  obtains (same) "compact_terminal_payloads io now s = s"
  | (renamed) "io = CompactFailsAfterRename" "compact_terminal_payloads io now s =
      s\<lparr>spJournal := \<lparr>jnLines = map (\<lambda>e. Some (compacted_event now e)) (retained_entries s), jnTail = CleanTail\<rparr>\<rparr>"
  | (finished) "io = CompactDone" "compact_terminal_payloads io now s =
      s\<lparr>spJournal := \<lparr>jnLines = map (\<lambda>e. Some (compacted_event now e)) (retained_entries s), jnTail = CleanTail\<rparr>,
        spEntries := forget_payloads (retained_map s), spByKey := index_of (retained_map s)\<rparr>"
proof (cases "list_ex (\<lambda>e. ieMessage e \<noteq> None) (terminal_entries s)")
  case True
  with index_retained [OF assms] that show thesis
    by (cases io) (simp_all add: compact_terminal_payloads_def Let_def forget_payloads_def
        retained_map_def discarded_ids_def)
next
  case False
  then show thesis by (intro same) (simp add: compact_terminal_payloads_def)
qed

lemma entries_ok_retained: "spool_ok H ms s \<Longrightarrow> entries_ok H ms (retained_map s)"
  by (simp add: spool_ok_def retained_map_def entries_ok_filter)

lemma compact_ok:
  assumes ok: "spool_ok H ms s"
  shows "spool_ok H ms (compact_terminal_payloads io now s)"
  using ok entries_ok_retained [OF ok]
  by (rule_tac io = io and now = now in compact_cases [OF ok]) (auto simp: spool_ok_def)

lemma replay_retained:
  assumes ok: "spool_ok H ms s" and hash: "hash_ok H ms"
  shows "replay (map (compacted_event now) (retained_entries s)) =
    (shown (forget_payloads (retained_map s)), index_of (retained_map s))"
proof -
  let ?es = "retained_map s"
  have es: "entries_ok H ms ?es" by (rule entries_ok_retained [OF ok])
  have rec: "\<forall>p\<in>set ?es. ieReceipt (snd p) = fst p" and rec': "\<forall>p\<in>set (spEntries s). ieReceipt (snd p) = fst p"
    using es ok by (auto simp: entries_ok_def entry_ok_def spool_ok_def)
  have valid: "\<forall>e\<in>set (map snd ?es). valid_event (compacted_event now e)"
    using es entry_ok_valid [OF hash]
    by (fastforce simp: entries_ok_def valid_event_def compacted_event_def)
  have recs: "map ieReceipt (map snd ?es) = map fst ?es" using rec by simp
  have keys: "map ieKey (map snd ?es) = map fst (index_of ?es)" by (simp add: index_of_def)
  have "replay (map (compacted_event now) (map snd ?es)) =
      (map (\<lambda>e. (ieReceipt e, accepted_entry (compacted_event now e))) (map snd ?es),
       map (\<lambda>e. (ieKey e, ieReceipt e)) (map snd ?es))"
    using es valid by (intro replay_accepted_list) (auto simp: entries_ok_def jm_wf_def recs keys simp del: map_map)
  also have "map (\<lambda>e. (ieReceipt e, accepted_entry (compacted_event now e))) (map snd ?es) =
      shown (forget_payloads ?es)"
    using rec by (simp add: shown_def forget_payloads_def accepted_compacted)
  also have "map (\<lambda>e. (ieKey e, ieReceipt e)) (map snd ?es) = index_of ?es"
    using rec by (simp add: index_of_def)
  finally show ?thesis by (simp add: retained_entries_map [OF rec'])
qed

lemma shown_shown [simp]: "shown (shown es) = shown es"
  by (simp add: shown_def comp_def forget_error_def)

lemma load_compacted:
  "load_journal \<lparr>jnLines = map (\<lambda>e. Some (f e)) es, jnTail = CleanTail\<rparr> = map f es"
  by (simp add: load_journal_def List.map_filter_def comp_def)

lemma compact_restores:
  assumes ok: "spool_ok H ms s" and hash: "hash_ok H ms" and r: "restores s"
    and io: "io \<noteq> CompactFailsAfterRename"
  shows "restores (compact_terminal_payloads io now s)"
  using r io replay_retained [OF ok hash]
  by (rule_tac compact_cases [OF ok, of io now]) (auto simp: restores_def load_compacted)

section \<open>Every operation keeps both\<close>

definition good_spool :: "hashes \<Rightarrow> jsval list \<Rightarrow> spool \<Rightarrow> bool" where
  "good_spool H ms s = (hash_ok H ms \<and> spool_ok H ms s \<and> restores s)"

lemma good_compact:
  "good_spool H ms s \<Longrightarrow> io \<noteq> CompactFailsAfterRename \<Longrightarrow>
   good_spool H ms (compact_terminal_payloads io now s)"
  by (auto simp: good_spool_def intro: compact_ok compact_restores)

definition with_status :: "ingress_entry \<Rightarrow> ingress_status \<Rightarrow> jstr option \<Rightarrow> nat \<Rightarrow> ingress_entry" where
  "with_status e st err n = e\<lparr>ieStatus := st, ieError := err, ieAttempts := n\<rparr>"

lemma with_status_simps [simp]:
  "ieReceipt (with_status e st err n) = ieReceipt e" "ieKey (with_status e st err n) = ieKey e"
  "ieDigest (with_status e st err n) = ieDigest e" "ieStatus (with_status e st err n) = st"
  "ieMessage (with_status e st err n) = ieMessage e" "ieAttempts (with_status e st err n) = n"
  by (simp_all add: with_status_def)

definition status_written :: "time \<Rightarrow> ingress_entry \<Rightarrow> ingress_status \<Rightarrow> jstr option \<Rightarrow> nat \<Rightarrow> spool \<Rightarrow> spool" where
  "status_written now e st err n s =
     s\<lparr>spJournal := append_line (status_event now e st err n) (spJournal s),
       spEntries := AList.update (ieReceipt e) (with_status e st err n) (spEntries s)\<rparr>"

lemma set_status_cases:
  assumes "clean_io io"
  obtains (failed) "set_status io cio now e st err n s = (Inl Persistence, s)"
  | (written) "set_status io cio now e st err n s =
      (Inr (), if is_terminal_ingress_status st
               then compact_terminal_payloads cio now (status_written now e st err n s)
               else status_written now e st err n s)"
  using append_durably_clean [OF assms, of "status_event now e st err n" "spJournal s" thesis]
  by (auto simp: set_status_def Let_def status_written_def with_status_def)

lemma status_written_good:
  assumes g: "good_spool H ms s" and e: "map_of (spEntries s) (ieReceipt e) = Some e"
  shows "good_spool H ms (status_written now e st err n s)"
proof -
  let ?ev = "status_event now e st err n" and ?e = "with_status e st err n"
  have ok: "entries_ok H ms (spEntries s)" and ix: "spByKey s = index_of (spEntries s)"
    and hash: "hash_ok H ms"
    using g by (auto simp: good_spool_def spool_ok_def)
  obtain es where es: "replay (load_journal (spJournal s)) = (es, spByKey s)"
    "shown es = shown (spEntries s)" and clean: "jnTail (spJournal s) = CleanTail"
    using g by (auto simp: good_spool_def restores_def)
  from es(2) e obtain e0 where e0: "map_of es (ieReceipt e) = Some e0" "forget_error e0 = forget_error e"
    by (metis (no_types, lifting) map_of_shown map_option_eq_Some option.simps(9))
  from e0(2) have rec0: "ieReceipt e0 = ieReceipt e" by (metis forget_error_simps(1))
  from e0(2) have ws: "forget_error (with_status e0 st err n) = forget_error ?e"
    by (cases e0, cases e) (simp add: forget_error_def with_status_def)
  have "valid_event ?ev"
    using entry_ok_valid [OF hash entries_ok_get [OF ok e]] by (simp add: valid_event_def status_event_def)
  then have "replay_event (es, spByKey s) ?ev =
      (AList.update (ieReceipt e) (with_status e0 st err n) es, spByKey s)"
    using e0(1) rec0 by (subst replay_status) (auto simp: status_event_def with_status_def)
  then have "replay (load_journal (append_line ?ev (spJournal s))) =
      (AList.update (ieReceipt e) (with_status e0 st err n) es, spByKey s)"
    using es(1) clean by (simp add: load_append_line replay_append)
  then have "restores (status_written now e st err n s)"
    using es(2) by (simp add: restores_def status_written_def shown_update ws)
  then show ?thesis
    using entries_ok_update [OF ok e, of ?e] index_of_update [OF e, of ?e] ix hash
    by (simp add: good_spool_def spool_ok_def status_written_def)
qed

lemma set_status_good:
  assumes g: "good_spool H ms s" and e: "map_of (spEntries s) (ieReceipt e) = Some e"
    and io: "clean_io io" "cio \<noteq> CompactFailsAfterRename"
  shows "good_spool H ms (snd (set_status io cio now e st err n s))"
  using status_written_good [OF g e] good_compact [OF _ io(2)] g
  by (rule_tac set_status_cases [OF io(1), of cio now e st err n s]) auto

lemma claim_receipt_good:
  assumes g: "good_spool H ms s" and io: "clean_io io"
  shows "good_spool H ms (snd (claim_receipt io now receipt s))"
proof (cases "map_of (spEntries s) receipt")
  case (Some e)
  have "ieReceipt e = receipt"
    using g entries_ok_get [OF _ Some] by (auto simp: good_spool_def spool_ok_def entry_ok_def)
  then have "good_spool H ms (snd (set_status io CompactFails now e Processing None (Suc (ieAttempts e)) s))"
    using set_status_good [OF g _ io] Some by simp
  then show ?thesis using g Some
    by (auto simp: claim_receipt_def split: prod.splits sum.splits)
qed (use g in \<open>simp add: claim_receipt_def\<close>)

text \<open>What every written status keeps, \<open>markInterrupted\<close> keeps.\<close>

lemma interrupt_each_keeps:
  assumes "P s" "\<forall>e\<in>set es. map_of (spEntries s) (ieReceipt e) = Some e"
    "distinct (map ieReceipt es)" "\<forall>n. clean_io (io n)"
    and step: "\<And>s e. P s \<Longrightarrow> map_of (spEntries s) (ieReceipt e) = Some e \<Longrightarrow> ieStatus e = Processing \<Longrightarrow>
      P (status_written now e Interrupted None (ieAttempts e) s)"
  shows "P (snd (interrupt_each io now es s))"
  using assms(1-4)
proof (induction es arbitrary: io s)
  case (Cons e es)
  show ?case
  proof (cases "ieStatus e = Processing")
    case True
    let ?set = "set_status (io 0) CompactFails now e Interrupted None (ieAttempts e) s"
    let ?s1 = "status_written now e Interrupted None (ieAttempts e) s"
    have io: "clean_io (io 0)" using Cons.prems(4) by blast
    have "?set = (Inl Persistence, s) \<or> ?set = (Inr (), ?s1)"
      by (rule set_status_cases [OF io, of CompactFails now e Interrupted None "ieAttempts e" s])
        (auto simp: is_terminal_ingress_status_def)
    then show ?thesis
    proof
      assume "?set = (Inl Persistence, s)"
      then show ?thesis using True Cons.prems(1) by simp
    next
      assume w: "?set = (Inr (), ?s1)"
      have "P ?s1" using step Cons.prems True by simp
      moreover have "\<forall>x\<in>set es. map_of (spEntries ?s1) (ieReceipt x) = Some x"
      proof
        fix x assume x: "x \<in> set es"
        then have "ieReceipt x \<noteq> ieReceipt e" using Cons.prems(3) by (auto simp: image_iff)
        moreover have "map_of (spEntries s) (ieReceipt x) = Some x" using x Cons.prems(2) by simp
        ultimately show "map_of (spEntries ?s1) (ieReceipt x) = Some x" by (simp add: status_written_def)
      qed
      ultimately have "P (snd (interrupt_each (\<lambda>n. io (Suc n)) now es ?s1))"
        using Cons.prems(3,4) by (intro Cons.IH) auto
      then show ?thesis using True w by simp
    qed
  next
    case False
    then show ?thesis using Cons.IH [of s io] Cons.prems by simp
  qed
qed simp

lemma mark_interrupted_keeps:
  assumes "P s" and ok: "entries_ok H ms (spEntries s)" and io: "\<forall>n. clean_io (io n)"
    and step: "\<And>s e. P s \<Longrightarrow> map_of (spEntries s) (ieReceipt e) = Some e \<Longrightarrow> ieStatus e = Processing \<Longrightarrow>
      P (status_written now e Interrupted None (ieAttempts e) s)"
  shows "P (snd (mark_interrupted io now s))"
proof -
  have rec: "map ieReceipt (map snd (spEntries s)) = map fst (spEntries s)"
    using ok by (auto simp: entries_ok_def entry_ok_def)
  have "\<forall>e\<in>set (map snd (spEntries s)). map_of (spEntries s) (ieReceipt e) = Some e"
    using ok by (auto simp: entries_ok_def entry_ok_def jm_in_get)
  moreover have "distinct (map ieReceipt (map snd (spEntries s)))"
    using ok by (simp only: rec entries_ok_def jm_wf_def)
  ultimately show ?thesis
    unfolding mark_interrupted_def by (rule interrupt_each_keeps [where P = P, OF assms(1) _ _ io step])
qed

lemma mark_interrupted_good:
  "good_spool H ms s \<Longrightarrow> \<forall>n. clean_io (io n) \<Longrightarrow> good_spool H ms (snd (mark_interrupted io now s))"
  by (rule mark_interrupted_keeps [where P = "good_spool H ms" and H = H and ms = ms])
    (auto simp: status_written_good, auto simp: good_spool_def spool_ok_def)

lemma accept_fresh:
  assumes g: "good_spool H ms s" and m: "m \<in> set ms" and key: "gateway_inbound_idempotency_key m = Some key"
    and None: "map_of (spByKey s) key = None"
  shows "map_of (spEntries s) (message_receipt H m key) = None"
proof (rule ccontr)
  assume "map_of (spEntries s) (message_receipt H m key) \<noteq> None"
  then obtain e where e: "map_of (spEntries s) (message_receipt H m key) = Some e" by auto
  have ok: "entries_ok H ms (spEntries s)" and ix: "spByKey s = index_of (spEntries s)"
    and hash: "hash_ok H ms"
    using g by (auto simp: good_spool_def spool_ok_def)
  obtain m' where m': "m' \<in> set ms" "gateway_inbound_idempotency_key m' = Some (ieKey e)"
    "message_receipt H m key = message_receipt H m' (ieKey e)"
    using entries_ok_get [OF ok e] by (auto simp: entry_ok_def)
  then have "key = ieKey e" using hash m key unfolding hash_ok_def by metis
  with index_of_none [OF None [unfolded ix] e] show False by simp
qed

lemma accept_good:
  assumes g: "good_spool H ms s" and io: "clean_io io" and m: "m \<in> set ms"
  shows "good_spool H ms (snd (accept H io now aborted m s))"
proof (cases "aborted \<or> gateway_inbound_idempotency_key m = None")
  case False
  then obtain key where key: "gateway_inbound_idempotency_key m = Some key" by auto
  have ok: "entries_ok H ms (spEntries s)" and ix: "spByKey s = index_of (spEntries s)"
    and hash: "hash_ok H ms" and r: "restores s"
    using g by (auto simp: good_spool_def spool_ok_def)
  show ?thesis
  proof (cases "map_of (spByKey s) key")
    case None
    let ?e = "queued_entry H key m" and ?r = "message_receipt H m key"
    have eok: "entry_ok H ms (?r, ?e)"
      using key m by (auto simp: entry_ok_def queued_entry_def message_receipt_def)
    have fresh: "map_of (spEntries s) ?r = None" by (rule accept_fresh [OF g m key None])
    have ev: "valid_event (accepted_event now ?e)" "evType (accepted_event now ?e) = AcceptedEvent"
      "evReceipt (accepted_event now ?e) = ?r" "evKey (accepted_event now ?e) = key"
      "accepted_entry (accepted_event now ?e) = ?e"
      using entry_ok_valid [OF hash eok]
      by (simp_all add: valid_event_def accepted_event_def accepted_entry_def queued_entry_def message_receipt_def)
    let ?s1 = "s\<lparr>spJournal := append_line (accepted_event now ?e) (spJournal s),
      spEntries := AList.update ?r ?e (spEntries s), spByKey := AList.update key ?r (spByKey s)\<rparr>"
    obtain es where es: "replay (load_journal (spJournal s)) = (es, spByKey s)"
      "shown es = shown (spEntries s)" and clean: "jnTail (spJournal s) = CleanTail"
      using r by (auto simp: restores_def)
    have "restores ?s1"
      using es clean ev by (simp add: restores_def load_append_line replay_append replay_accepted shown_update)
    moreover have "spool_ok H ms ?s1"
    proof -
      have "index_of (AList.update ?r ?e (spEntries s)) = AList.update key ?r (spByKey s)"
        using fresh None ix by (simp add: jm_update_absent) (simp add: index_of_def queued_entry_def)
      moreover have "jm_wf (spByKey s)" using ok ix by (simp add: entries_ok_def)
      ultimately show ?thesis
        using ok eok jm_set_update [of ?r ?e "spEntries s"] by (auto simp: spool_ok_def entries_ok_def)
    qed
    ultimately have "good_spool H ms ?s1" using hash by (simp add: good_spool_def)
    moreover have "ieReceipt ?e = ?r" by (simp add: queued_entry_def message_receipt_def)
    ultimately show ?thesis
      using append_durably_clean [OF io, of "accepted_event now ?e" "spJournal s" ?thesis] g False key None
      by (simp add: accept_def Let_def)
  next
    case (Some r)
    then show ?thesis using g key by (auto simp: accept_def split: option.split)
  qed
qed (use g in \<open>auto simp: accept_def\<close>)

lemma open_spool_good:
  assumes g: "good_spool H ms s" and io: "cio \<noteq> CompactFailsAfterRename"
  shows "good_spool H ms (open_spool cio now n (spJournal s))"
proof -
  obtain es where es: "replay (load_journal (spJournal s)) = (es, spByKey s)" "shown es = shown (spEntries s)"
    and clean: "jnTail (spJournal s) = CleanTail"
    using g by (auto simp: good_spool_def restores_def)
  let ?s = "\<lparr>spEntries = es, spByKey = spByKey s, spJournal = spJournal s, spMaxTombstones = n\<rparr>"
  have "entries_ok H ms es" "index_of es = spByKey s"
    using g es(2) by (metis entries_ok_shown good_spool_def spool_ok_def,
        metis index_shown good_spool_def spool_ok_def)
  then have "good_spool H ms ?s"
    using g es clean by (simp add: good_spool_def spool_ok_def restores_def)
  from good_compact [OF this io] show ?thesis using es by (simp add: open_spool_def)
qed

lemma status_of_receipt_good:
  assumes g: "good_spool H ms s" and "clean_io io" "cio \<noteq> CompactFailsAfterRename"
  shows "good_spool H ms (status_of_receipt io cio now receipt st err s)"
proof (cases "map_of (spEntries s) receipt")
  case (Some e)
  have "ieReceipt e = receipt"
    using g entries_ok_get [OF _ Some] by (auto simp: good_spool_def spool_ok_def entry_ok_def)
  then show ?thesis using set_status_good [OF g] Some assms by (simp add: status_of_receipt_def)
qed (use g in \<open>simp add: status_of_receipt_def\<close>)

lemma spool_step_good:
  assumes "good_spool H ms s" "clean_op op" "\<And>io now ab m. op = SpAccept io now ab m \<Longrightarrow> m \<in> set ms"
  shows "good_spool H ms (spool_step H s op)"
  using assms
  by (cases op) (auto intro: accept_good claim_receipt_good status_of_receipt_good mark_interrupted_good
      open_spool_good)

lemma new_spool_good: "hash_ok H ms \<Longrightarrow> good_spool H ms (new_spool n)"
  by (simp add: good_spool_def new_spool_def open_spool_def empty_journal_def load_journal_def
      List.map_filter_def replay_def compact_terminal_payloads_def terminal_entries_def spool_ok_def
      entries_ok_def restores_def index_of_def)

lemma spool_run_good:
  assumes "hash_ok H ms" "set (accepted_messages ops) \<subseteq> set ms" "\<forall>op\<in>set ops. clean_op op"
  shows "good_spool H ms (spool_run H (new_spool n) ops)"
  unfolding spool_run_def
proof (rule foldl_invariant)
  fix s op assume "good_spool H ms s" "op \<in> set ops"
  with assms show "good_spool H ms (spool_step H s op)"
    by (intro spool_step_good) (auto dest: accepted_messages_mem)
qed (rule new_spool_good [OF assms(1)])

section \<open>Nothing is forgotten below the tombstone limit\<close>

definition ids :: "entry_map \<Rightarrow> (string \<times> ingress_key \<times> string) list" where
  "ids es = map (\<lambda>p. (fst p, ieKey (snd p), ieDigest (snd p))) es"

lemma ids_shown: "ids (shown es) = ids es"
  by (simp add: ids_def shown_def)

lemma length_ids [simp]: "length (ids es) = length es"
  by (simp add: ids_def)

lemma ids_update: "map_of es r = Some e \<Longrightarrow> ieKey e' = ieKey e \<Longrightarrow> ieDigest e' = ieDigest e \<Longrightarrow>
   ids (AList.update r e' es) = ids es"
  by (induction es) (auto simp: ids_def split: if_splits)

definition roomy :: "nat \<Rightarrow> (string \<times> ingress_key \<times> string) list \<Rightarrow> spool \<Rightarrow> bool" where
  "roomy n is s = (spMaxTombstones s = int n \<and> length is \<le> n \<and> ids (spEntries s) = is)"

lemma roomy_retained:
  assumes "roomy n is s"
  shows "retained_map s = spEntries s"
proof -
  have "length (terminal_entries s) \<le> length (spEntries s)"
    unfolding terminal_entries_def by (metis length_filter_le length_map)
  then have "discarded_entries s = []"
    using assms by (auto simp: discarded_entries_def roomy_def)
  then show ?thesis by (simp add: retained_map_def discarded_ids_def)
qed

lemma roomy_compact:
  assumes "roomy n is s" "spool_ok H ms s"
  shows "roomy n is (compact_terminal_payloads io now s)"
  using roomy_retained [OF assms(1)] assms
  by (rule_tac compact_cases [OF assms(2), of io now])
    (auto simp: roomy_def ids_def forget_payloads_def)

lemma roomy_status_written:
  "roomy n is s \<Longrightarrow> map_of (spEntries s) (ieReceipt e) = Some e \<Longrightarrow>
   roomy n is (status_written now e st err k s)"
  by (simp add: roomy_def status_written_def ids_update)

lemma roomy_set_status:
  assumes "roomy n is s" "good_spool H ms s" "map_of (spEntries s) (ieReceipt e) = Some e" "clean_io io"
  shows "roomy n is (snd (set_status io cio now e st err k s))"
proof -
  have "spool_ok H ms (status_written now e st err k s)"
    using status_written_good [OF assms(2,3)] by (simp add: good_spool_def)
  then show ?thesis
    using roomy_status_written [OF assms(1,3)] roomy_compact assms(1)
    by (rule_tac set_status_cases [OF assms(4), of cio now e st err k s]) auto
qed

lemma good_receipt:
  "good_spool H ms s \<Longrightarrow> map_of (spEntries s) r = Some e \<Longrightarrow> ieReceipt e = r"
  by (auto simp: good_spool_def spool_ok_def entry_ok_def dest: entries_ok_get)

lemma roomy_open:
  assumes r: "roomy n is s" and g: "good_spool H ms s"
  shows "roomy n is (open_spool cio now (spMaxTombstones s) (spJournal s))"
proof -
  obtain es where es: "replay (load_journal (spJournal s)) = (es, spByKey s)" "shown es = shown (spEntries s)"
    using g by (auto simp: good_spool_def restores_def)
  let ?s = "\<lparr>spEntries = es, spByKey = spByKey s, spJournal = spJournal s,
    spMaxTombstones = spMaxTombstones s\<rparr>"
  have "roomy n is ?s" using r es(2) by (simp add: roomy_def) (metis ids_shown)
  moreover have "entries_ok H ms es" "index_of es = spByKey s"
    using g es(2) by (metis entries_ok_shown good_spool_def spool_ok_def,
        metis index_shown good_spool_def spool_ok_def)
  then have "spool_ok H ms ?s" by (simp add: spool_ok_def)
  ultimately show ?thesis using es(1) by (simp add: open_spool_def roomy_compact)
qed

lemma roomy_step:
  assumes r: "roomy n is s" and g: "good_spool H ms s" and "clean_op op"
    and "\<And>io now ab m. op \<noteq> SpAccept io now ab m"
  shows "roomy n is (spool_step H s op)"
proof (cases op)
  case (SpClaim io now receipt)
  show ?thesis
  proof (cases "map_of (spEntries s) receipt")
    case (Some e)
    then have "roomy n is (snd (set_status io CompactFails now e Processing None (Suc (ieAttempts e)) s))"
      using roomy_set_status [OF r g] good_receipt [OF g Some] assms SpClaim by simp
    then show ?thesis using r Some SpClaim
      by (auto simp: claim_receipt_def split: prod.splits sum.splits)
  qed (use SpClaim r in \<open>simp add: claim_receipt_def\<close>)
next
  case (SpStatus io cio now receipt st err)
  then show ?thesis using roomy_set_status [OF r g] good_receipt [OF g] assms
    by (auto simp: status_of_receipt_def split: option.split)
next
  case (SpInterrupt io now)
  then show ?thesis using assms(3) g
    by (auto simp: good_spool_def spool_ok_def intro: roomy_status_written
        intro!: mark_interrupted_keeps [where P = "roomy n is"] r)
next
  case (SpRestart cio now)
  then show ?thesis using roomy_open [OF r g] by simp
qed (use assms in blast)

end
