(* ===== verification/IngressRecovery.thy ===== *)
theory IngressRecovery
  imports IngressFacts
begin

text \<open>
  What the durable inbox promises: a restart finds what was there, a message accepted once is known
  from then on, the payload of a finished message is gone, and where the promises end.
\<close>

section \<open>A sample run\<close>

definition sample_hashes :: hashes where
  "sample_hashes = \<lparr>hashMessage = (\<lambda>m. ''d''), hashReceipt = (\<lambda>k d. ''r'')\<rparr>"

definition sample_message :: jsval where
  "sample_message = Obj [(''platform'', Str (js ''p'')), (''messageId'', Str (js ''7'')), (''text'', Str (js ''hi''))]"

definition sample_key :: ingress_key where
  "sample_key = [js ''p'', js ''default'', [], [], [], [], js ''7'']"

definition good_io :: append_io where
  "good_io = \<lparr>ioSize = (\<lambda>ev. 4), ioWrite = (\<lambda>n. Some 2), ioFsync = True\<rparr>"

text \<open>Two of the four bytes are written, then the disk is full.\<close>

definition torn_io :: append_io where
  "torn_io = \<lparr>ioSize = (\<lambda>ev. 4), ioWrite = (\<lambda>n. if n = 0 then Some 2 else None), ioFsync = True\<rparr>"

lemma sample_key [simp]: "gateway_inbound_idempotency_key sample_message = Some sample_key"
  by (simp add: gateway_inbound_idempotency_key_def sample_message_def sample_key_def message_id_def
      account_id_def text_field_def trim_text_def js_blank_def)

lemma good_loop [simp]: "write_loop (ioWrite good_io) 0 0 (ioSize good_io ev) = (4, True)"
  by (simp add: good_io_def write_loop.simps)

lemma good_io_clean [simp]: "clean_io good_io"
  by (simp add: clean_io_def) (simp add: good_io_def)

lemma good_append [simp]: "append_durably good_io ev j = (True, append_line ev j)"
  by (simp add: append_durably_def) (simp add: good_io_def)

lemma torn_append [simp]:
  "append_durably torn_io ev j = (False, j\<lparr>jnTail := PieceTail\<rparr>)"
  by (simp add: append_durably_def append_piece_def torn_io_def write_loop.simps)

lemma sample_hash_ok: "set ms \<subseteq> {sample_message} \<Longrightarrow> hash_ok sample_hashes ms"
proof -
  assume "set ms \<subseteq> {sample_message}"
  then have "\<forall>m\<in>set ms. m = sample_message" by blast
  then have "\<forall>m\<in>set ms. gateway_inbound_idempotency_key m = Some sample_key" using sample_key by fastforce
  then show ?thesis by (simp add: hash_ok_def sample_hashes_def message_receipt_def)
qed

definition sample_entry :: ingress_entry where
  "sample_entry = queued_entry sample_hashes sample_key sample_message"

lemma sample_accept:
  "accept sample_hashes good_io 1 False sample_message (new_spool 9) =
    (Inr \<lparr>irReceipt = ''r'', irDuplicate = False, irStatus = Queued\<rparr>,
     \<lparr>spEntries = [(''r'', sample_entry)], spByKey = [(sample_key, ''r'')],
      spJournal = append_line (accepted_event 1 sample_entry) empty_journal, spMaxTombstones = 9\<rparr>)"
  by (simp add: accept_def new_spool_def open_spool_def empty_journal_def load_journal_def replay_def
      List.map_filter_def compact_terminal_payloads_def terminal_entries_def sample_entry_def
      queued_entry_def sample_hashes_def Let_def)

section \<open>Restart\<close>

text \<open>C9: Reading the journal back after any run of accepts, claims, status changes, interruptions and
  restarts, whose writes reached the device whole or left no byte, gives the entries and the index that
  were in memory: the same receipts, statuses, attempts, digests and payloads, in the same order.
  Only the error text of an entry may be missing.\<close>

theorem restart_restores_spool:
  assumes "hash_ok H (accepted_messages ops)" and "\<forall>op\<in>set ops. clean_op op"
  shows "let s = spool_run H (new_spool n) ops; t = open_spool CompactFails now n (spJournal s) in
    shown (spEntries t) = shown (spEntries s) \<and> spByKey t = spByKey s"
proof -
  have "good_spool H (accepted_messages ops) (spool_run H (new_spool n) ops)"
    using assms by (intro spool_run_good) auto
  then have "restores (spool_run H (new_spool n) ops)" by (simp add: good_spool_def)
  then show ?thesis
    by (auto simp: restores_def open_spool_def compact_terminal_payloads_def)
qed

theorem restart_restores_spool_witness:
  "shown (spEntries (open_spool CompactFails 5 9
      (spJournal (spool_run sample_hashes (new_spool 9) [SpAccept good_io 1 False sample_message])))) =
    [(''r'', sample_entry)]"
proof -
  have "shown (spEntries (open_spool CompactFails 5 9
      (spJournal (spool_run sample_hashes (new_spool 9) [SpAccept good_io 1 False sample_message])))) =
      shown (spEntries (spool_run sample_hashes (new_spool 9) [SpAccept good_io 1 False sample_message]))"
    using restart_restores_spool [of sample_hashes "[SpAccept good_io 1 False sample_message]" 9 5]
    by (simp add: sample_hash_ok Let_def)
  also have "\<dots> = [(''r'', sample_entry)]"
    by (simp add: spool_run_def sample_accept shown_def forget_error_def sample_entry_def queued_entry_def)
  finally show ?thesis .
qed

section \<open>Duplicates\<close>

lemma accept_known:
  assumes "gateway_inbound_idempotency_key m = Some key" "map_of (spByKey s) key = Some r"
    "map_of (spEntries s) r = Some e" "ieReceipt e = r" "ieDigest e = hashMessage H m"
  shows "accept H io now False m s =
    (Inr \<lparr>irReceipt = r, irDuplicate = True, irStatus = ieStatus e\<rparr>, s)"
  using assms by (simp add: accept_def)

lemma accept_ok_known:
  assumes "accept H io now False m s = (Inr rc, s1)" "good_spool H ms s1"
  shows "\<exists>key e. gateway_inbound_idempotency_key m = Some key \<and> map_of (spByKey s1) key = Some (irReceipt rc) \<and>
    map_of (spEntries s1) (irReceipt rc) = Some e \<and> ieKey e = key \<and> ieDigest e = hashMessage H m"
proof -
  from assms(1) obtain key where key: "gateway_inbound_idempotency_key m = Some key"
    by (auto simp: accept_def split: option.splits)
  show ?thesis
  proof (cases "map_of (spByKey s) key")
    case None
    then show ?thesis using assms(1) key
      by (auto simp: accept_def Let_def queued_entry_def split: prod.splits if_splits)
  next
    case (Some r)
    then have s1: "s1 = s" "map_of (spByKey s1) key = Some (irReceipt rc)"
      and e: "\<exists>e. map_of (spEntries s) r = Some e \<and> ieReceipt e = irReceipt rc \<and> ieDigest e = hashMessage H m"
      using assms key by (auto simp: accept_def dest: good_receipt split: option.splits if_splits)
    have "r = irReceipt rc" using Some s1 by simp
    moreover have "spByKey s1 = index_of (spEntries s1)" "jm_wf (spEntries s1)"
      using assms(2) by (auto simp: good_spool_def spool_ok_def entries_ok_def)
    ultimately show ?thesis using s1 e key index_of_get [of "spEntries s1" key r]
      by (metis option.inject)
  qed
qed

definition room_for :: "nat \<Rightarrow> spool_op list \<Rightarrow> spool \<Rightarrow> bool" where
  "room_for n ops s = (spMaxTombstones s = int n \<and>
     length (spEntries s) + length (accepted_messages ops) \<le> n)"

lemma accept_ids:
  assumes g: "good_spool H ms s" and io: "clean_io io" and m: "m \<in> set ms"
  shows "spMaxTombstones (snd (accept H io now ab m s)) = spMaxTombstones s \<and>
   (\<exists>xs. ids (spEntries (snd (accept H io now ab m s))) = ids (spEntries s) @ xs \<and> length xs \<le> 1)"
proof (cases "gateway_inbound_idempotency_key m")
  case (Some key)
  show ?thesis
  proof (cases "ab \<or> map_of (spByKey s) key \<noteq> None")
    case False
    then have none: "map_of (spByKey s) key = None" by simp
    have fresh: "map_of (spEntries s) (hashReceipt H key (hashMessage H m)) = None"
      using accept_fresh [OF g m Some none] by (simp add: message_receipt_def)
    show ?thesis
      using append_durably_clean [OF io, of "accepted_event now (queued_entry H key m)" "spJournal s" ?thesis]
        False Some none fresh
      by (simp add: accept_def Let_def queued_entry_def jm_update_absent) (simp add: ids_def)
  qed (use Some in \<open>auto simp: accept_def split: option.split\<close>)
qed (simp add: accept_def)

lemma room_for_step:
  assumes room: "room_for n (op # ops) s" and g: "good_spool H ms s" and c: "clean_op op"
    and ms: "set (accepted_messages (op # ops)) \<subseteq> set ms"
  shows "room_for n ops (spool_step H s op) \<and>
    (\<exists>xs. ids (spEntries (spool_step H s op)) = ids (spEntries s) @ xs)"
proof (cases "\<exists>io now ab m. op = SpAccept io now ab m")
  case True
  then obtain io now ab m where op: "op = SpAccept io now ab m" by blast
  then obtain xs where xs: "spMaxTombstones (spool_step H s op) = spMaxTombstones s"
    "ids (spEntries (spool_step H s op)) = ids (spEntries s) @ xs" "length xs \<le> 1"
    using accept_ids [OF g, of io m now ab] c ms by auto
  then have "length (spEntries (spool_step H s op)) \<le> length (spEntries s) + 1"
    by (metis length_append length_ids add_left_mono)
  then show ?thesis using room xs op by (auto simp: room_for_def)
next
  case False
  have acc: "accepted_messages (op # ops) = accepted_messages ops" using False by (cases op) auto
  then have "roomy n (ids (spEntries s)) s" using room by (simp add: room_for_def roomy_def)
  from roomy_step [OF this g c] False
  have "roomy n (ids (spEntries s)) (spool_step H s op)" by blast
  then show ?thesis using room acc by (auto simp: roomy_def room_for_def) (metis length_ids)
qed

lemma room_for_run:
  assumes "room_for n (ops @ rest) s" "good_spool H ms s" "\<forall>op\<in>set ops. clean_op op"
    "set (accepted_messages (ops @ rest)) \<subseteq> set ms"
  shows "good_spool H ms (foldl (spool_step H) s ops) \<and> room_for n rest (foldl (spool_step H) s ops) \<and>
    (\<exists>xs. ids (spEntries (foldl (spool_step H) s ops)) = ids (spEntries s) @ xs)"
  using assms
proof (induction ops arbitrary: s)
  case (Cons op ops)
  have g: "good_spool H ms (spool_step H s op)"
    using Cons.prems by (intro spool_step_good) auto
  have ms: "set (accepted_messages (ops @ rest)) \<subseteq> set ms" using Cons.prems(4) by (cases op) auto
  from room_for_step [of n op "ops @ rest", OF _ Cons.prems(2)] Cons.prems
  obtain xs where "room_for n (ops @ rest) (spool_step H s op)"
    "ids (spEntries (spool_step H s op)) = ids (spEntries s) @ xs" by auto
  with Cons.IH [OF _ g _ ms] Cons.prems(3) show ?case by auto
qed simp

lemma ids_get:
  assumes "jm_wf fs" "ids fs = ids es @ xs" "map_of es r = Some e"
  obtains f where "map_of fs r = Some f" "ieKey f = ieKey e" "ieDigest f = ieDigest e"
proof -
  have "(r, ieKey e, ieDigest e) \<in> set (ids fs)"
    using assms(2,3) by (force simp: ids_def dest: jm_get_in)
  then obtain f where "(r, f) \<in> set fs" "ieKey f = ieKey e" "ieDigest f = ieDigest e"
    by (auto simp: ids_def)
  with assms(1) that show thesis by (auto simp: jm_in_get)
qed



section \<open>Finished messages\<close>

definition compacted_spool :: "time \<Rightarrow> spool \<Rightarrow> spool" where
  "compacted_spool now s =
     s\<lparr>spJournal := \<lparr>jnLines = map (\<lambda>e. Some (compacted_event now e)) (retained_entries s), jnTail = CleanTail\<rparr>,
       spEntries := forget_payloads (retained_map s), spByKey := index_of (retained_map s)\<rparr>"

lemma finish_compacts:
  assumes g: "good_spool H ms s" and io: "clean_io io"
    and e: "map_of (spEntries s) (ieReceipt e) = Some e" "ieMessage e \<noteq> None"
    and st: "is_terminal_ingress_status st"
    and run: "set_status io CompactDone now e st err k s = (Inr (), s')"
  defines "w \<equiv> status_written now e st err k s"
  shows "good_spool H ms w" "s' = compacted_spool now w"
proof -
  show w: "good_spool H ms w" unfolding w_def by (rule status_written_good [OF g e(1)])
  have "(ieReceipt e, with_status e st err k) \<in> set (spEntries w)"
    by (auto simp: w_def status_written_def intro: jm_get_in)
  then have "list_ex (\<lambda>e. ieMessage e \<noteq> None) (terminal_entries w)"
    using e(2) st by (force simp: terminal_entries_def list_ex_iff)
  then have "compact_terminal_payloads CompactDone now w = compacted_spool now w"
    using w index_retained [of H ms w]
    by (simp add: compact_terminal_payloads_def compacted_spool_def good_spool_def Let_def
        forget_payloads_def retained_map_def discarded_ids_def)
  then show "s' = compacted_spool now w"
    using run st by (rule_tac set_status_cases [OF io, of CompactDone now e st err k s]) (auto simp: w_def)
qed

lemma terminal_retained:
  assumes ok: "entries_ok H ms (spEntries s)"
  shows "int (length (filter (\<lambda>p. is_terminal_ingress_status (ieStatus (snd p))) (retained_map s)))
    \<le> max 0 (spMaxTombstones s)"
proof -
  let ?T = "filter (\<lambda>p. is_terminal_ingress_status (ieStatus (snd p))) (spEntries s)"
  let ?k = "nat (max 0 (int (length ?T) - spMaxTombstones s))"
  have T: "terminal_entries s = map snd ?T" by (simp add: terminal_entries_def filter_map comp_def)
  have rec: "\<forall>p\<in>set ?T. ieReceipt (snd p) = fst p" using ok by (auto simp: entries_ok_def entry_ok_def)
  have dist: "distinct (map fst ?T)" using ok by (auto simp: entries_ok_def jm_wf_def distinct_map_filter)
  have D: "discarded_ids s = fst ` set (take ?k ?T)"
  proof -
    have "discarded_entries s = map snd (take ?k ?T)" by (simp add: discarded_entries_def T take_map)
    then have "discarded_ids s = (\<lambda>p. ieReceipt (snd p)) ` set (take ?k ?T)"
      by (simp add: discarded_ids_def image_image)
    also have "\<dots> = fst ` set (take ?k ?T)"
      using rec set_take_subset [of ?k ?T] by (intro image_cong) auto
    finally show ?thesis .
  qed
  have "filter (\<lambda>p. is_terminal_ingress_status (ieStatus (snd p))) (retained_map s) =
      filter (\<lambda>p. fst p \<notin> fst ` set (take ?k ?T)) ?T"
    unfolding retained_map_def D by (simp add: conj_commute)
  also have "\<dots> = filter (\<lambda>p. fst p \<notin> fst ` set (take ?k ?T)) (take ?k ?T @ drop ?k ?T)" by simp
  also have "\<dots> = drop ?k ?T"
  proof -
    have "distinct (map fst (take ?k ?T) @ map fst (drop ?k ?T))"
      using dist by (metis append_take_drop_id map_append)
    then show ?thesis by (subst filter_append) (auto simp: filter_id_conv filter_empty_conv)
  qed
  finally show ?thesis by simp
qed

definition reachable_spool :: "hashes \<Rightarrow> int \<Rightarrow> spool_op list \<Rightarrow> spool \<Rightarrow> bool" where
  "reachable_spool H n ops s = (hash_ok H (accepted_messages ops) \<and> (\<forall>op\<in>set ops. clean_op op) \<and>
     s = spool_run H (new_spool n) ops)"

lemma reachable_good: "reachable_spool H n ops s \<Longrightarrow> good_spool H (accepted_messages ops) s"
  by (auto simp: reachable_spool_def intro: spool_run_good)

text \<open>When a status change that ends a message succeeds and its compaction is done, no ended message
  keeps its payload, in memory or in the journal; every payload left in the journal belongs to a receipt
  that is still to be processed; and at most the configured number of ended receipts remains.\<close>

theorem finished_payloads_forgotten:
  assumes "reachable_spool H n ops s" and "clean_io io"
    and "map_of (spEntries s) (ieReceipt e) = Some e" and "ieMessage e \<noteq> None"
    and "is_terminal_ingress_status st"
    and "set_status io CompactDone now e st err k s = (Inr (), s')"
  shows "(\<forall>f\<in>set (terminal_entries s'). ieMessage f = None) \<and>
    (\<forall>ev\<in>set (load_journal (spJournal s')). evMessage ev \<noteq> None \<longrightarrow>
       (\<exists>f. map_of (spEntries s') (evReceipt ev) = Some f \<and> \<not> is_terminal_ingress_status (ieStatus f))) \<and>
    int (length (terminal_entries s')) \<le> max 0 (spMaxTombstones s')"
proof -
  let ?w = "status_written now e st err k s"
  note fin = finish_compacts [OF reachable_good [OF assms(1)] assms(2-6)]
  have ok: "entries_ok H (accepted_messages ops) (spEntries ?w)" and sp: "spool_ok H (accepted_messages ops) ?w"
    using fin(1) by (auto simp: good_spool_def spool_ok_def)
  have ret: "entries_ok H (accepted_messages ops) (retained_map ?w)" by (rule entries_ok_retained [OF sp])
  have rec: "\<forall>p\<in>set (spEntries ?w). ieReceipt (snd p) = fst p" using ok by (auto simp: entries_ok_def entry_ok_def)
  have terms: "terminal_entries s' =
      map snd (forget_payloads (filter (\<lambda>p. is_terminal_ingress_status (ieStatus (snd p))) (retained_map ?w)))"
    unfolding fin(2) by (simp add: terminal_entries_def compacted_spool_def forget_payloads_def filter_map comp_def)
  have "\<forall>f\<in>set (terminal_entries s'). ieMessage f = None"
    unfolding terms by (auto simp: forget_payloads_def forget_payload_def)
  moreover have "\<exists>f. map_of (spEntries s') (evReceipt ev) = Some f \<and> \<not> is_terminal_ingress_status (ieStatus f)"
    if ev: "ev \<in> set (load_journal (spJournal s'))" "evMessage ev \<noteq> None" for ev
  proof -
    obtain p where p: "p \<in> set (retained_map ?w)" "ev = compacted_event now (snd p)"
      using ev(1) unfolding fin(2) compacted_spool_def retained_entries_map [OF rec]
      by (auto simp: load_compacted simp del: map_map)
    then have "(fst p, forget_payload (snd p)) \<in> set (forget_payloads (retained_map ?w))"
      by (auto simp: forget_payloads_def)
    moreover have "jm_wf (forget_payloads (retained_map ?w))"
      using ret by (simp add: entries_ok_def jm_wf_def forget_payloads_def comp_def)
    moreover have "evReceipt ev = fst p"
      using p rec by (auto simp: compacted_event_def retained_map_def)
    ultimately have "map_of (spEntries s') (evReceipt ev) = Some (forget_payload (snd p))"
      by (simp add: fin(2) compacted_spool_def jm_in_get)
    then show ?thesis using ev(2) p(2) by (auto simp: compacted_event_def split: if_splits)
  qed
  moreover have "int (length (terminal_entries s')) \<le> max 0 (spMaxTombstones s')"
    using terminal_retained [OF ok] unfolding terms
    by (simp add: forget_payloads_def) (simp add: fin(2) compacted_spool_def)
  ultimately show ?thesis by blast
qed

definition claimed_ops :: "spool_op list" where
  "claimed_ops = [SpAccept good_io 1 False sample_message, SpClaim good_io 2 ''r'']"

definition claimed_entry :: ingress_entry where
  "claimed_entry = with_status sample_entry Processing None 1"

lemma sample_entry_fields [simp]:
  "ieReceipt sample_entry = ''r''" "ieMessage sample_entry = Some sample_message"
  "ieStatus sample_entry = Queued" "ieAttempts sample_entry = 0" "ieKey sample_entry = sample_key"
  by (simp_all add: sample_entry_def queued_entry_def sample_hashes_def)

lemma claimed_run:
  "spEntries (spool_run sample_hashes (new_spool 9) claimed_ops) = [(''r'', claimed_entry)]"
  by (simp add: spool_run_def claimed_ops_def sample_accept claim_receipt_def set_status_def Let_def
      is_terminal_ingress_status_def claimed_entry_def with_status_def)

lemma claimed_reachable:
  "reachable_spool sample_hashes 9 claimed_ops (spool_run sample_hashes (new_spool 9) claimed_ops)"
  by (simp add: reachable_spool_def claimed_ops_def sample_hash_ok)

lemma claimed_finish:
  "set_status good_io CompactDone 3 claimed_entry st err k s =
    (Inr (), snd (set_status good_io CompactDone 3 claimed_entry st err k s))"
  by (simp add: set_status_def Let_def)

theorem finished_payloads_forgotten_witness:
  "list_all (\<lambda>f. ieMessage f = None) (terminal_entries (snd (set_status good_io CompactDone 3 claimed_entry
      Completed None 1 (spool_run sample_hashes (new_spool 9) claimed_ops))))"
  using finished_payloads_forgotten [OF claimed_reachable good_io_clean _ _ _ claimed_finish [of Completed None 1]]
  by (simp add: claimed_run claimed_entry_def is_terminal_ingress_status_def list_all_iff)

text \<open>The reason a message failed with does not survive: after its failure is written and compacted,
  memory holds the error and the journal line holds it too, but the spool read back from that journal
  has the receipt as failed without an error.\<close>

theorem failure_reason_lost_on_restart:
  assumes "reachable_spool H n ops s" and "clean_io io"
    and "map_of (spEntries s) (ieReceipt e) = Some e" and "ieMessage e \<noteq> None"
    and "set_status io CompactDone now e Failed (Some reason) k s = (Inr (), s')"
    and "map_of (spEntries s') (ieReceipt e) = Some f"
  shows "ieError f = Some reason \<and>
    (\<exists>g. map_of (spEntries (open_spool CompactFails later n (spJournal s'))) (ieReceipt e) = Some g \<and>
       ieStatus g = Failed \<and> ieError g = None)"
proof -
  let ?w = "status_written now e Failed (Some reason) k s"
  have st: "is_terminal_ingress_status Failed" by (simp add: is_terminal_ingress_status_def)
  note fin = finish_compacts [OF reachable_good [OF assms(1)] assms(2-4) st assms(5)]
  have sp: "spool_ok H (accepted_messages ops) ?w" and hash: "hash_ok H (accepted_messages ops)"
    using fin(1) by (auto simp: good_spool_def)
  have r: "replay (load_journal (spJournal s')) = (shown (spEntries s'), spByKey s')"
    unfolding fin(2) by (simp add: compacted_spool_def load_compacted replay_retained [OF sp hash])
  have "(ieReceipt e, f) \<in> set (forget_payloads (retained_map ?w))"
    using assms(6) by (auto simp: fin(2) compacted_spool_def dest: jm_get_in)
  then obtain f0 where f0: "f = forget_payload f0" "(ieReceipt e, f0) \<in> set (spEntries ?w)"
    by (auto simp: forget_payloads_def retained_map_def)
  moreover have "map_of (spEntries ?w) (ieReceipt e) = Some (with_status e Failed (Some reason) k)"
    by (simp add: status_written_def)
  moreover have "jm_wf (spEntries ?w)" using sp by (simp add: spool_ok_def entries_ok_def)
  ultimately have "f0 = with_status e Failed (Some reason) k" by (auto dest: jm_in_get)
  then have f: "ieError f = Some reason" "ieStatus f = Failed"
    by (simp_all add: f0 forget_payload_def with_status_def)
  moreover have "map_of (spEntries (open_spool CompactFails later n (spJournal s'))) (ieReceipt e) =
      Some (forget_error f)"
    using r assms(6) by (simp add: open_spool_def compact_terminal_payloads_def map_of_shown)
  ultimately show ?thesis by (simp add: forget_error_def)
qed

lemma claimed_failed:
  "map_of (spEntries (snd (set_status good_io CompactDone 3 claimed_entry Failed (Some (js ''no'')) 1
      (spool_run sample_hashes (new_spool 9) claimed_ops)))) (ieReceipt claimed_entry) =
    Some ((with_status claimed_entry Failed (Some (js ''no'')) 1)\<lparr>ieMessage := None\<rparr>)"
proof -
  have "spMaxTombstones (spool_run sample_hashes (new_spool 9) claimed_ops) = 9"
    by (simp add: spool_run_def claimed_ops_def sample_accept claim_receipt_def set_status_def Let_def
        is_terminal_ingress_status_def)
  then show ?thesis
    by (simp add: set_status_def Let_def claimed_run is_terminal_ingress_status_def
        compact_terminal_payloads_def terminal_entries_def discarded_entries_def forget_payload_def
        claimed_entry_def with_status_def)
qed

theorem failure_reason_lost_on_restart_witness:
  "\<exists>g. map_of (spEntries (open_spool CompactFails 4 9 (spJournal (snd (set_status good_io CompactDone 3
        claimed_entry Failed (Some (js ''no'')) 1 (spool_run sample_hashes (new_spool 9) claimed_ops))))))
      ''r'' = Some g \<and> ieStatus g = Failed \<and> ieError g = None"
proof -
  have r: "ieReceipt claimed_entry = ''r''" "ieMessage claimed_entry \<noteq> None"
    by (simp_all add: claimed_entry_def)
  then have "map_of (spEntries (spool_run sample_hashes (new_spool 9) claimed_ops)) (ieReceipt claimed_entry) =
      Some claimed_entry"
    by (simp add: claimed_run)
  from failure_reason_lost_on_restart [OF claimed_reachable good_io_clean this r(2)
      claimed_finish [of Failed "Some (js ''no'')" 1] claimed_failed, of 4] r(1)
  show ?thesis by simp
qed

section \<open>After a torn write\<close>

text \<open>After a write that stopped inside a record, the next message is acknowledged as accepted and is
  in memory, but its line follows the torn piece on one line of the journal: what can be read back is
  what could be read before, and the message is lost at the next start.\<close>

theorem torn_write_loses_next_receipt:
  assumes "jnTail (spJournal s) = PieceTail"
    and "accept H io now False m s = (Inr rc, s')" and "irDuplicate rc = False"
  shows "map_of (spEntries s') (irReceipt rc) \<noteq> None \<and>
    load_journal (spJournal s') = load_journal (spJournal s)"
proof -
  obtain key where key: "gateway_inbound_idempotency_key m = Some key"
    using assms(2) by (auto simp: accept_def split: option.splits)
  have none: "map_of (spByKey s) key = None"
    using assms(2,3) key by (auto simp: accept_def split: option.splits if_splits)
  let ?e = "queued_entry H key m"
  obtain ok j where j: "append_durably io (accepted_event now ?e) (spJournal s) = (ok, j)" by force
  with assms(2) key none have ok: "ok" and s': "spJournal s' = j" "map_of (spEntries s') (irReceipt rc) \<noteq> None"
    by (auto simp: accept_def Let_def split: if_splits)
  obtain offset whole where "write_loop (ioWrite io) 0 0 (ioSize io (accepted_event now ?e)) = (offset, whole)"
    by force
  with j ok have "j = append_line (accepted_event now ?e) (spJournal s)"
    by (simp add: append_durably_def split: if_splits)
  then have "load_journal j = load_journal (spJournal s)"
    using assms(1) by (simp add: load_journal_def append_line_def List.map_filter_def)
  with s' show ?thesis by simp
qed

lemma torn_run:
  "snd (accept sample_hashes torn_io 1 False sample_message (new_spool 9)) =
    (new_spool 9)\<lparr>spJournal := (spJournal (new_spool 9))\<lparr>jnTail := PieceTail\<rparr>\<rparr>"
  by (simp add: accept_def new_spool_def open_spool_def empty_journal_def load_journal_def replay_def
      List.map_filter_def compact_terminal_payloads_def terminal_entries_def Let_def)

theorem torn_write_loses_next_receipt_witness:
  "\<exists>rc s'. accept sample_hashes good_io 2 False sample_message
      (snd (accept sample_hashes torn_io 1 False sample_message (new_spool 9))) = (Inr rc, s') \<and>
    map_of (spEntries s') (irReceipt rc) \<noteq> None \<and> load_journal (spJournal s') = []"
proof -
  let ?s = "snd (accept sample_hashes torn_io 1 False sample_message (new_spool 9))"
  have new: "spByKey ?s = []" "spEntries ?s = []" "jnLines (spJournal ?s) = []" "jnTail (spJournal ?s) = PieceTail"
    unfolding torn_run by (simp_all add: new_spool_def open_spool_def empty_journal_def load_journal_def
        replay_def List.map_filter_def compact_terminal_payloads_def terminal_entries_def)
  have "\<exists>s'. accept sample_hashes good_io 2 False sample_message s =
      (Inr \<lparr>irReceipt = ''r'', irDuplicate = False, irStatus = Queued\<rparr>, s')" if "spByKey s = []" for s
    using that by (simp add: accept_def Let_def queued_entry_def) (simp add: sample_hashes_def)
  from this [OF new(1)] obtain s' where s': "accept sample_hashes good_io 2 False sample_message ?s =
      (Inr \<lparr>irReceipt = ''r'', irDuplicate = False, irStatus = Queued\<rparr>, s')" by blast
  have "load_journal (spJournal ?s) = []" by (simp add: load_journal_def new List.map_filter_def)
  with torn_write_loses_next_receipt [OF new(4) s'] s' show ?thesis by auto
qed

end
