(* ===== verification/IngressWorker.thy ===== *)
theory IngressWorker
  imports IngressFacts
begin

text \<open>
  The worker that takes accepted messages to the provider: \<open>gateway/receive/ingress-worker.ts\<close>. A drain is
  suspended while it awaits \<open>receive\<close>, so one step of the model is what runs between two suspensions:
  a public call, the arrival of a result, the retry timer, or a crash. \<open>wkStarted\<close> records the
  calls of \<open>receive\<close> in order; the code does not keep it. The texts of errors are parameters. When the
  controller is aborted but \<open>stop\<close> has not finished, a drain returns at once and its \<open>finally\<close> starts the
  next one until it has; none of them changes anything, and the model leaves them out.
\<close>

record worker_env =
  weIo :: "nat \<Rightarrow> append_io"
  weCompact :: "nat \<Rightarrow> compact_io"
  weNow :: time
  weText :: jstr

datatype controller = NoController | Live | Aborted

datatype drain_state = NoDrain | Awaiting ingress_entry

record worker =
  wkSpool :: spool
  wkController :: controller
  wkDrain :: drain_state
  wkTimer :: "nat option"
  wkStalled :: bool
  wkCursor :: "string option"
  wkStarted :: "string list"

datatype receive_reply = Reply bool bool | Throws

definition new_worker :: "spool \<Rightarrow> string list \<Rightarrow> worker" where
  "new_worker s started =
     \<lparr>wkSpool = s, wkController = NoController, wkDrain = NoDrain, wkTimer = None, wkStalled = False,
      wkCursor = None, wkStarted = started\<rparr>"

section \<open>Choosing the next message\<close>

fun find_index :: "('a \<Rightarrow> bool) \<Rightarrow> 'a list \<Rightarrow> nat option" where
  "find_index P [] = None"
| "find_index P (x # xs) = (if P x then Some 0 else map_option Suc (find_index P xs))"

definition next_pending :: "worker \<Rightarrow> ingress_entry option" where
  "next_pending w =
     (let pending = pending_entries (wkTimer w = None) (wkSpool w) in
      case find (\<lambda>e. ieStatus e = Queued) pending of
        Some e \<Rightarrow> Some e
      | None \<Rightarrow>
          if pending = [] then None
          else (case wkCursor w of
              None \<Rightarrow> Some (pending ! 0)
            | Some c \<Rightarrow>
                (let next = (case find_index (\<lambda>e. ieReceipt e = c) pending of None \<Rightarrow> 0 | Some n \<Rightarrow> Suc n)
                 in Some (pending ! (next mod length pending)))))"

section \<open>Status changes\<close>

definition safe_status ::
  "append_io \<Rightarrow> compact_io \<Rightarrow> time \<Rightarrow> ingress_entry \<Rightarrow> ingress_status \<Rightarrow> jstr \<Rightarrow> worker \<Rightarrow> worker" where
  "safe_status io cio now e st text w =
     w\<lparr>wkSpool := snd (set_status io cio now e st (Some text) (ieAttempts e) (wkSpool w))\<rparr>"

definition retry_delay :: "nat \<Rightarrow> nat" where
  "retry_delay attempts = min 30000 (1000 * 2 ^ min attempts 5)"

definition retry :: "worker_env \<Rightarrow> ingress_entry \<Rightarrow> jstr \<Rightarrow> worker \<Rightarrow> worker" where
  "retry env e text w =
     (if wkController w = Aborted then safe_status (weIo env 0) (weCompact env 0) (weNow env) e Interrupted text w
      else (case set_status (weIo env 0) (weCompact env 0) (weNow env) e Retrying (Some text) (ieAttempts e) (wkSpool w) of
          (Inl _, s) \<Rightarrow>
            safe_status (weIo env 1) (weCompact env 1) (weNow env) e Failed (weText env) (w\<lparr>wkSpool := s\<rparr>)
        | (Inr _, s) \<Rightarrow>
            w\<lparr>wkSpool := s, wkCursor := Some (ieReceipt e), wkTimer := Some (retry_delay (ieAttempts e))\<rparr>))"

section \<open>The drain loop\<close>

text \<open>
  From the head of the loop to the next suspension or the end. A claim that finds nothing leaves
  everything as it was and the loop runs again: if that happens it does not end, the value \<open>None\<close>.
\<close>

partial_function (option) drain_top :: "worker_env \<Rightarrow> worker \<Rightarrow> worker option" where
  "drain_top env w =
     (if wkController w \<noteq> Live then Some (w\<lparr>wkDrain := NoDrain\<rparr>)
      else (case next_pending w of
          None \<Rightarrow> Some (w\<lparr>wkDrain := NoDrain\<rparr>)
        | Some pending \<Rightarrow>
            (case claim_receipt (weIo env 2) (weNow env) (ieReceipt pending) (wkSpool w) of
               (Inl _, s) \<Rightarrow>
                 Some (safe_status (weIo env 3) (weCompact env 3) (weNow env) pending Failed (weText env)
                   (w\<lparr>wkSpool := s, wkDrain := NoDrain, wkStalled := True\<rparr>))
             | (Inr None, s) \<Rightarrow> drain_top env (w\<lparr>wkSpool := s\<rparr>)
             | (Inr (Some e), s) \<Rightarrow>
                 if ieMessage e = None
                 then Some (safe_status (weIo env 3) (weCompact env 3) (weNow env) e Failed (js ''Inbound payload is unavailable.'')
                   (w\<lparr>wkSpool := s, wkDrain := NoDrain, wkStalled := True\<rparr>))
                 else Some (w\<lparr>wkSpool := s, wkDrain := Awaiting e, wkStarted := wkStarted w @ [ieReceipt e]\<rparr>))))"

text \<open>The \<open>finally\<close> of \<open>kick\<close>: another drain when there is something to do.\<close>

definition drain_again :: "worker \<Rightarrow> bool" where
  "drain_again w = (wkDrain w = NoDrain \<and> wkController w = Live \<and> \<not> wkStalled w \<and> wkTimer w = None \<and>
     pending_entries True (wkSpool w) \<noteq> [])"

definition shifted_env :: "worker_env \<Rightarrow> worker_env" where
  "shifted_env env = env\<lparr>weIo := (\<lambda>n. weIo env (n + 2)), weCompact := (\<lambda>n. weCompact env (n + 2))\<rparr>"

definition drain_and_finally :: "worker_env \<Rightarrow> worker \<Rightarrow> worker option" where
  "drain_and_finally env w =
     (case drain_top env w of
        None \<Rightarrow> None
      | Some w1 \<Rightarrow> if drain_again w1 then drain_top (shifted_env env) w1 else Some w1)"

definition kick :: "worker_env \<Rightarrow> worker \<Rightarrow> worker option" where
  "kick env w =
     (if wkController w \<noteq> Live \<or> wkDrain w \<noteq> NoDrain then Some w else drain_and_finally env w)"

text \<open>\<open>markInterrupted\<close> throws when a write fails; then \<open>start\<close> does not reach \<open>kick\<close>.\<close>

definition start_worker :: "worker_env \<Rightarrow> (nat \<Rightarrow> append_io) \<Rightarrow> worker \<Rightarrow> worker option" where
  "start_worker env io w =
     (if wkController w = NoController then
        (case mark_interrupted io (weNow env) (wkSpool w) of
           (Inl _, s) \<Rightarrow> Some (w\<lparr>wkController := Live, wkStalled := False, wkSpool := s\<rparr>)
         | (Inr _, s) \<Rightarrow> kick env (w\<lparr>wkController := Live, wkStalled := False, wkSpool := s\<rparr>))
      else kick env w)"

definition receive_settles :: "worker_env \<Rightarrow> receive_reply \<Rightarrow> worker \<Rightarrow> worker option" where
  "receive_settles env reply w =
     (case wkDrain w of
        NoDrain \<Rightarrow> Some w
      | Awaiting e \<Rightarrow>
          let w0 = w\<lparr>wkDrain := NoDrain\<rparr> in
          (case reply of
             Throws \<Rightarrow>
               let w1 = retry env e (weText env) w0
               in if drain_again w1 then drain_top (shifted_env env) w1 else Some w1
           | Reply transient rejected \<Rightarrow>
               if transient then
                 let w1 = retry env e (js ''Inbound receive is transient.'') w0
                 in if drain_again w1 then drain_top (shifted_env env) w1 else Some w1
               else
                 (case set_status (weIo env 0) (weCompact env 0) (weNow env) e
                         (if rejected then Rejected else Completed) None (ieAttempts e) (wkSpool w0) of
                    (Inl _, s) \<Rightarrow>
                      drain_and_finally env
                        (safe_status (weIo env 1) (weCompact env 1) (weNow env) e Failed (weText env)
                          (w0\<lparr>wkSpool := s, wkStalled := True\<rparr>))
                  | (Inr _, s) \<Rightarrow> drain_and_finally env (w0\<lparr>wkSpool := s\<rparr>))))"

section \<open>Stopping and the timer\<close>

definition stop_begins :: "worker \<Rightarrow> worker" where
  "stop_begins w = w\<lparr>wkController := (if wkController w = Live then Aborted else wkController w), wkTimer := None\<rparr>"

definition stop_ends :: "worker \<Rightarrow> worker" where
  "stop_ends w = (if wkDrain w = NoDrain then w\<lparr>wkController := NoController, wkTimer := None\<rparr> else w)"

definition timer_fires :: "worker_env \<Rightarrow> worker \<Rightarrow> worker option" where
  "timer_fires env w = (if wkTimer w = None then Some w else kick env (w\<lparr>wkTimer := None\<rparr>))"

text \<open>A process that ends and is started again reads the spool from its journal.\<close>

definition crash :: "compact_io \<Rightarrow> time \<Rightarrow> worker \<Rightarrow> worker" where
  "crash cio now w =
     new_worker (open_spool cio now (spMaxTombstones (wkSpool w)) (spJournal (wkSpool w))) (wkStarted w)"

end
