(* ===== verification/IngressWorkerFacts.thy ===== *)
theory IngressWorkerFacts
  imports IngressWorker IngressRecovery
begin

text \<open>
  Facts about the ingress worker: every run of it returns, attempts count executions across crashes, and
  a message whose execution a crash cut off is not executed again.
\<close>

section \<open>What the spool keeps while a worker uses it\<close>

definition counted :: "string list \<Rightarrow> entry_map \<Rightarrow> bool" where
  "counted started es = (\<forall>r. case map_of es r of
     None \<Rightarrow> count_list started r = 0
   | Some e \<Rightarrow> count_list started r = ieAttempts e \<and>
       (is_terminal_ingress_status (ieStatus e) \<or> ieMessage e \<noteq> None))"

lemma countedD:
  "counted started es \<Longrightarrow> map_of es r = Some e \<Longrightarrow> count_list started r = ieAttempts e \<and>
     (is_terminal_ingress_status (ieStatus e) \<or> ieMessage e \<noteq> None)"
  unfolding counted_def by (drule spec [of _ r]) simp

definition open_status :: "ingress_status \<Rightarrow> bool" where
  "open_status st = (st = Queued \<or> st = Retrying)"

definition resting :: "string set \<Rightarrow> entry_map \<Rightarrow> bool" where
  "resting park es = (\<forall>r\<in>park. \<exists>e. map_of es r = Some e \<and> \<not> open_status (ieStatus e))"

definition tracked :: "hashes \<Rightarrow> jsval list \<Rightarrow> nat \<Rightarrow> string list \<Rightarrow> string set \<Rightarrow> spool \<Rightarrow> bool" where
  "tracked H ms n started park s =
     (good_spool H ms s \<and> roomy n (ids (spEntries s)) s \<and> counted started (spEntries s) \<and> resting park (spEntries s))"

lemma counted0: "counted started es \<Longrightarrow> map_of es r = None \<Longrightarrow> count_list started r = 0"
  unfolding counted_def by (drule spec [of _ r]) simp

lemma countedI:
  assumes "\<And>r. map_of es r = None \<Longrightarrow> count_list started r = 0"
    and "\<And>r e. map_of es r = Some e \<Longrightarrow> count_list started r = ieAttempts e \<and>
      (is_terminal_ingress_status (ieStatus e) \<or> ieMessage e \<noteq> None)"
  shows "counted started es"
  using assms unfolding counted_def by (simp split: option.split)

lemma counted_update:
  assumes c: "counted started es" and e: "map_of es r = Some e" "ieAttempts e' = ieAttempts e"
    and "is_terminal_ingress_status (ieStatus e') \<or> ieMessage e' \<noteq> None"
  shows "counted started (AList.update r e' es)"
  by (rule countedI) (use assms countedD [OF c] counted0 [OF c] in \<open>auto split: if_splits\<close>)

lemma counted_claim:
  assumes c: "counted started es" and e: "map_of es r = Some e" "ieAttempts e' = Suc (ieAttempts e)"
    and "ieMessage e' \<noteq> None"
  shows "counted (started @ [r]) (AList.update r e' es)"
  by (rule countedI) (use assms countedD [OF c] counted0 [OF c] in \<open>auto split: if_splits\<close>)

lemma map_of_forget: "map_of (forget_payloads es) r = map_option forget_payload (map_of es r)"
  by (induction es) (auto simp: forget_payloads_def)

lemma counted_forget:
  assumes c: "counted started es"
  shows "counted started (forget_payloads es)"
proof -
  have "ieAttempts (forget_payload e) = ieAttempts e \<and> (is_terminal_ingress_status (ieStatus e) \<or>
      ieMessage (forget_payload e) = ieMessage e)" for e by (simp add: forget_payload_def)
  then show ?thesis
    by (intro countedI) (use countedD [OF c] counted0 [OF c] in \<open>force simp: map_of_forget\<close>)+
qed

lemma resting_forget: "resting park es \<Longrightarrow> resting park (forget_payloads es)"
  by (fastforce simp: resting_def map_of_forget)

lemma counted_shown: "counted started (shown es) = counted started es"
  unfolding counted_def map_of_shown
  by (rule all_cong1) (simp add: option.case_eq_if option.map_sel cong: conj_cong)

lemma resting_shown: "resting park (shown es) = resting park es"
  by (auto simp: resting_def map_of_shown)

lemma resting_update:
  assumes "resting park es" "r \<in> park \<Longrightarrow> \<not> open_status (ieStatus e)"
  shows "resting park (AList.update r e es)"
  using assms by (auto simp: resting_def)

lemma compact_entries:
  assumes "good_spool H ms s" "roomy n xs s"
  shows "spEntries (compact_terminal_payloads io now s) = spEntries s \<or>
    spEntries (compact_terminal_payloads io now s) = forget_payloads (spEntries s)"
proof -
  have "spool_ok H ms s" using assms(1) by (simp add: good_spool_def)
  then show ?thesis using roomy_retained [OF assms(2)] by (rule_tac compact_cases [of H ms s io now]) auto
qed

lemma tracked_compact:
  assumes "tracked H ms n started park s" "io \<noteq> CompactFailsAfterRename"
  shows "tracked H ms n started park (compact_terminal_payloads io now s)"
proof -
  have g: "good_spool H ms s" and r: "roomy n (ids (spEntries s)) s" using assms(1) by (auto simp: tracked_def)
  have "spool_ok H ms s" using g by (simp add: good_spool_def)
  from roomy_compact [OF r this] have "roomy n (ids (spEntries s)) (compact_terminal_payloads io now s)" .
  moreover from this have "ids (spEntries (compact_terminal_payloads io now s)) = ids (spEntries s)"
    by (simp add: roomy_def)
  ultimately show ?thesis
    using good_compact [OF g assms(2)] compact_entries [OF g r, of io now] assms(1)
    by (auto simp: tracked_def counted_forget resting_forget)
qed

lemma tracked_written:
  assumes t: "tracked H ms n started park s" and e: "map_of (spEntries s) (ieReceipt e) = Some e"
    and st: "ieReceipt e \<in> park \<Longrightarrow> \<not> open_status st" "is_terminal_ingress_status st \<or> ieMessage e \<noteq> None"
  shows "tracked H ms n started park (status_written now e st err (ieAttempts e) s)"
proof -
  let ?w = "status_written now e st err (ieAttempts e) s"
  have g: "good_spool H ms s" and r: "roomy n (ids (spEntries s)) s" using t by (auto simp: tracked_def)
  have "roomy n (ids (spEntries s)) ?w" by (rule roomy_status_written [OF r e])
  moreover from this have "ids (spEntries ?w) = ids (spEntries s)" by (simp add: roomy_def)
  moreover have "counted started (spEntries ?w)"
    using t st(2) unfolding status_written_def by (simp add: tracked_def) (rule counted_update [OF _ e], auto)
  moreover have "resting park (spEntries ?w)"
    using t st(1) by (simp add: status_written_def tracked_def resting_update)
  ultimately show ?thesis using status_written_good [OF g e] by (simp add: tracked_def)
qed

lemma tracked_status:
  assumes t: "tracked H ms n started park s" and e: "map_of (spEntries s) (ieReceipt e) = Some e"
    and st: "ieReceipt e \<in> park \<Longrightarrow> \<not> open_status st" "is_terminal_ingress_status st \<or> ieMessage e \<noteq> None"
    and io: "clean_io io" "cio \<noteq> CompactFailsAfterRename"
  shows "tracked H ms n started park (snd (set_status io cio now e st err (ieAttempts e) s))"
  using tracked_written [OF t e st] tracked_compact [OF _ io(2)] t
  by (rule_tac set_status_cases [OF io(1), of cio now e st err "ieAttempts e" s]) auto

lemma tracked_claim:
  assumes t: "tracked H ms n started park s" and e: "map_of (spEntries s) (ieReceipt e) = Some e"
    and st: "open_status (ieStatus e)" and io: "clean_io io"
  shows "claim_receipt io now (ieReceipt e) s = (Inl Persistence, s) \<or>
    (\<exists>s1. claim_receipt io now (ieReceipt e) s = (Inr (Some (with_status e Processing None (Suc (ieAttempts e)))), s1) \<and>
       map_of (spEntries s1) (ieReceipt e) = Some (with_status e Processing None (Suc (ieAttempts e))) \<and>
       ieMessage e \<noteq> None \<and> tracked H ms n (started @ [ieReceipt e]) park s1)"
proof -
  let ?e = "with_status e Processing None (Suc (ieAttempts e))"
  let ?w = "status_written now e Processing None (Suc (ieAttempts e)) s"
  have g: "good_spool H ms s" and r: "roomy n (ids (spEntries s)) s" using t by (auto simp: tracked_def)
  have msg: "ieMessage e \<noteq> None"
    using countedD [OF _ e] t st by (auto simp: tracked_def open_status_def is_terminal_ingress_status_def)
  have "roomy n (ids (spEntries s)) ?w" by (rule roomy_status_written [OF r e])
  moreover from this have "ids (spEntries ?w) = ids (spEntries s)" by (simp add: roomy_def)
  moreover have "counted (started @ [ieReceipt e]) (spEntries ?w)"
    using t msg unfolding status_written_def by (simp add: tracked_def) (rule counted_claim [OF _ e], auto)
  moreover have "resting park (spEntries ?w)"
    using t by (simp add: status_written_def tracked_def resting_update open_status_def)
  ultimately have w: "tracked H ms n (started @ [ieReceipt e]) park ?w"
    using status_written_good [OF g e] by (simp add: tracked_def)
  have nt: "\<not> is_terminal_ingress_status Processing" by (simp add: is_terminal_ingress_status_def)
  show ?thesis
  proof (rule set_status_cases [OF io, of CompactFails now e Processing None "Suc (ieAttempts e)" s])
    assume "set_status io CompactFails now e Processing None (Suc (ieAttempts e)) s = (Inl Persistence, s)"
    then show ?thesis using e msg st by (auto simp: claim_receipt_def open_status_def)
  next
    assume s: "set_status io CompactFails now e Processing None (Suc (ieAttempts e)) s =
      (Inr (), if is_terminal_ingress_status Processing then compact_terminal_payloads CompactFails now ?w else ?w)"
    have "map_of (spEntries ?w) (ieReceipt e) = Some ?e" by (simp add: status_written_def)
    then show ?thesis using e msg st w s nt by (auto simp: claim_receipt_def open_status_def)
  qed
qed

lemma tracked_interrupt:
  assumes t: "tracked H ms n started park s" and io: "\<forall>k. clean_io (io k)"
  shows "tracked H ms n started park (snd (mark_interrupted io now s))"
proof (rule mark_interrupted_keeps [where P = "tracked H ms n started park" and H = H and ms = ms, OF t _ io])
  show "entries_ok H ms (spEntries s)" using t by (simp add: tracked_def good_spool_def spool_ok_def)
next
  fix s e
  assume t: "tracked H ms n started park s" and e: "map_of (spEntries s) (ieReceipt e) = Some e"
    and p: "ieStatus e = Processing"
  have "ieMessage e \<noteq> None"
    using countedD [OF _ e] t p by (auto simp: tracked_def is_terminal_ingress_status_def)
  then show "tracked H ms n started park (status_written now e Interrupted None (ieAttempts e) s)"
    using tracked_written [OF t e] by (simp add: open_status_def)
qed

lemma tracked_restart:
  assumes t: "tracked H ms n started park s" and io: "cio \<noteq> CompactFailsAfterRename"
  shows "tracked H ms n started park (open_spool cio now (spMaxTombstones s) (spJournal s))"
proof -
  have g: "good_spool H ms s" and r: "roomy n (ids (spEntries s)) s" using t by (auto simp: tracked_def)
  obtain es where es: "replay (load_journal (spJournal s)) = (es, spByKey s)" "shown es = shown (spEntries s)"
    using g by (auto simp: good_spool_def restores_def)
  let ?s = "\<lparr>spEntries = es, spByKey = spByKey s, spJournal = spJournal s,
    spMaxTombstones = spMaxTombstones s\<rparr>"
  have s: "?s = open_spool CompactFails now (spMaxTombstones s) (spJournal s)"
    using es by (simp add: open_spool_def compact_terminal_payloads_def)
  have "good_spool H ms ?s" unfolding s by (rule open_spool_good [OF g]) simp
  moreover have "roomy n (ids es) ?s" using r es(2) ids_shown [of es] ids_shown [of "spEntries s"]
    by (simp add: roomy_def) (metis length_ids)
  moreover have "counted started es" "resting park es"
    using t es(2) by (metis counted_shown tracked_def, metis resting_shown tracked_def)
  ultimately have "tracked H ms n started park ?s" by (simp add: tracked_def)
  from tracked_compact [OF this io] show ?thesis using es(1) by (simp add: open_spool_def)
qed

text \<open>Every entry is one of the accepted messages, so there are no more entries than messages.\<close>

lemma good_length:
  assumes "good_spool H ms s"
  shows "length (spEntries s) \<le> length ms"
proof -
  let ?f = "\<lambda>m. message_receipt H m (the (gateway_inbound_idempotency_key m))"
  have ok: "jm_wf (spEntries s)" "\<forall>p\<in>set (spEntries s). entry_ok H ms p"
    using assms by (auto simp: good_spool_def spool_ok_def entries_ok_def)
  have "fst ` set (spEntries s) \<subseteq> ?f ` set ms"
  proof (rule image_subsetI)
    fix p assume "p \<in> set (spEntries s)"
    with ok(2) obtain m where "m \<in> set ms" "gateway_inbound_idempotency_key m = Some (ieKey (snd p))"
      "fst p = message_receipt H m (ieKey (snd p))" unfolding entry_ok_def by blast
    then have "fst p = ?f m" by simp
    then show "fst p \<in> ?f ` set ms" using \<open>m \<in> set ms\<close> by blast
  qed
  then have "card (fst ` set (spEntries s)) \<le> card (?f ` set ms)" by (intro card_mono) auto
  also have "\<dots> \<le> length ms" by (meson card_image_le card_length finite_set order_trans)
  finally show ?thesis
    using ok(1) distinct_card [of "map fst (spEntries s)"] by (simp add: jm_wf_def)
qed

lemma tracked_accept:
  assumes t: "tracked H ms n started park s" and io: "clean_io io" and m: "m \<in> set ms"
    and room: "length ms \<le> n"
  shows "tracked H ms n started park (snd (accept H io now ab m s))"
proof -
  have g: "good_spool H ms s" using t by (simp add: tracked_def)
  from accept_ids [OF g io m, of now ab] have
    max: "spMaxTombstones (snd (accept H io now ab m s)) = spMaxTombstones s" by blast
  have g': "good_spool H ms (snd (accept H io now ab m s))" by (rule accept_good [OF g io m])
  have "counted started (spEntries (snd (accept H io now ab m s))) \<and>
      resting park (spEntries (snd (accept H io now ab m s)))"
  proof (cases "spEntries (snd (accept H io now ab m s)) = spEntries s")
    case False
    then obtain key where key: "gateway_inbound_idempotency_key m = Some key" "\<not> ab"
      "map_of (spByKey s) key = None"
      by (auto simp: accept_def split: option.splits if_splits)
    then have new: "spEntries (snd (accept H io now ab m s)) =
        AList.update (message_receipt H m key) (queued_entry H key m) (spEntries s)"
      using False by (auto simp: accept_def Let_def queued_entry_def message_receipt_def split: prod.splits if_splits)
    have fresh: "map_of (spEntries s) (message_receipt H m key) = None" by (rule accept_fresh [OF g m key(1,3)])
    have c: "counted started (spEntries s)" and r: "resting park (spEntries s)" using t by (auto simp: tracked_def)
    have "counted started (AList.update (message_receipt H m key) (queued_entry H key m) (spEntries s))"
      by (rule countedI) (use countedD [OF c] counted0 [OF c] fresh in \<open>auto simp: queued_entry_def split: if_splits\<close>)
    moreover have "resting park (AList.update (message_receipt H m key) (queued_entry H key m) (spEntries s))"
      using r fresh by (intro resting_update) (auto simp: resting_def)
    ultimately show ?thesis by (simp add: new)
  qed (use t in \<open>simp add: tracked_def\<close>)
  then show ?thesis
    using g' good_length [OF g'] max room t by (auto simp: tracked_def roomy_def)
qed

section \<open>The worker\<close>

definition clean_env :: "worker_env \<Rightarrow> bool" where
  "clean_env env = (\<forall>k. clean_io (weIo env k) \<and> weCompact env k \<noteq> CompactFailsAfterRename)"

lemma clean_env_shifted [simp]: "clean_env env \<Longrightarrow> clean_env (shifted_env env)"
  by (simp add: clean_env_def shifted_env_def)

lemma clean_envD [simp]: "clean_env env \<Longrightarrow> clean_io (weIo env k)" "clean_env env \<Longrightarrow> weCompact env k \<noteq> CompactFailsAfterRename"
  by (auto simp: clean_env_def)

text \<open>\<open>started\<close> is the log of executions, \<open>park\<close> a set of receipts that no drain has in hand.\<close>

definition worker_ok :: "hashes \<Rightarrow> jsval list \<Rightarrow> nat \<Rightarrow> string set \<Rightarrow> worker \<Rightarrow> bool" where
  "worker_ok H ms n park w = (tracked H ms n (wkStarted w) park (wkSpool w) \<and>
     (case wkDrain w of
        NoDrain \<Rightarrow> True
      | Awaiting e \<Rightarrow> map_of (spEntries (wkSpool w)) (ieReceipt e) = Some e \<and> ieStatus e = Processing \<and>
          ieMessage e \<noteq> None \<and> ieReceipt e \<notin> park \<and> wkController w \<noteq> NoController))"

definition quiet :: "string set \<Rightarrow> worker \<Rightarrow> worker \<Rightarrow> bool" where
  "quiet park w w' = (\<forall>r\<in>park. count_list (wkStarted w') r = count_list (wkStarted w) r)"

lemma worker_tracked: "worker_ok H ms n park w \<Longrightarrow> tracked H ms n (wkStarted w) park (wkSpool w)"
  by (simp add: worker_ok_def)

lemma pending_entry:
  assumes "tracked H ms n started park s" "e \<in> set (pending_entries b s)"
  shows "map_of (spEntries s) (ieReceipt e) = Some e" "open_status (ieStatus e)" "ieReceipt e \<notin> park"
proof -
  obtain r where r: "(r, e) \<in> set (spEntries s)" using assms(2) by (auto simp: pending_entries_def)
  have ok: "entries_ok H ms (spEntries s)" using assms(1) by (simp add: tracked_def good_spool_def spool_ok_def)
  with r have "map_of (spEntries s) r = Some e" by (simp add: entries_ok_def jm_in_get)
  moreover have "ieReceipt e = r" using ok r by (auto simp: entries_ok_def entry_ok_def)
  ultimately show e: "map_of (spEntries s) (ieReceipt e) = Some e" by simp
  show o: "open_status (ieStatus e)" using assms(2) by (auto simp: pending_entries_def open_status_def)
  show "ieReceipt e \<notin> park"
    using assms(1) e o by (auto simp: tracked_def resting_def)
qed

lemma next_pending_mem: "next_pending w = Some e \<Longrightarrow> \<exists>b. e \<in> set (pending_entries b (wkSpool w))"
proof -
  assume nx: "next_pending w = Some e"
  let ?p = "pending_entries (wkTimer w = None) (wkSpool w)"
  show ?thesis
  proof (cases "find (\<lambda>e. ieStatus e = Queued) ?p")
    case (Some x)
    then have "x = e" using nx by (simp add: next_pending_def)
    with Some have "e \<in> set ?p" by (auto simp: find_Some_iff)
    then show ?thesis by blast
  next
    case None
    then have "e \<in> set ?p" using nx
      by (auto simp: next_pending_def Let_def split: if_splits option.splits)
    then show ?thesis by blast
  qed
qed

lemma drain_top_ok:
  assumes w: "worker_ok H ms n park w" and env: "clean_env env"
  shows "\<exists>w'. drain_top env w = Some w' \<and> worker_ok H ms n park w' \<and> quiet park w w'"
proof -
  have t: "tracked H ms n (wkStarted w) park (wkSpool w)" using w by (rule worker_tracked)
  show ?thesis
  proof (cases "wkController w \<noteq> Live \<or> next_pending w = None")
    case True
    then show ?thesis using t
      by (subst drain_top.simps) (auto simp: worker_ok_def quiet_def)
  next
    case False
    then obtain e where nx: "next_pending w = Some e" by auto
    obtain b where "e \<in> set (pending_entries b (wkSpool w))" using next_pending_mem [OF nx] by blast
    note e = pending_entry [OF t this]
    have live: "wkController w = Live" using False by simp
    from tracked_claim [OF t e(1,2), of "weIo env 2" "weNow env"] env
    consider (failed) "claim_receipt (weIo env 2) (weNow env) (ieReceipt e) (wkSpool w) = (Inl Persistence, wkSpool w)"
      | (claimed) s1 where
        "claim_receipt (weIo env 2) (weNow env) (ieReceipt e) (wkSpool w) =
          (Inr (Some (with_status e Processing None (Suc (ieAttempts e)))), s1)"
        "map_of (spEntries s1) (ieReceipt e) = Some (with_status e Processing None (Suc (ieAttempts e)))"
        "ieMessage e \<noteq> None" "tracked H ms n (wkStarted w @ [ieReceipt e]) park s1"
      by auto
    then show ?thesis
    proof cases
      case failed
      have "tracked H ms n (wkStarted w) park (snd (set_status (weIo env 3) (weCompact env 3) (weNow env) e Failed
          (Some (weText env)) (ieAttempts e) (wkSpool w)))"
        using env by (intro tracked_status t e) (auto simp: open_status_def is_terminal_ingress_status_def)
      then show ?thesis
        by (subst drain_top.simps) (simp add: live nx failed safe_status_def worker_ok_def quiet_def)
    next
      case (claimed s1)
      then show ?thesis using e(3)
        by (subst drain_top.simps) (auto simp: live nx worker_ok_def quiet_def)
    qed
  qed
qed

datatype worker_event =
  WkAccept append_io time bool jsval
| WkStart worker_env "nat \<Rightarrow> append_io"
| WkKick worker_env
| WkSettle worker_env receive_reply
| WkTimer worker_env
| WkStopBegins
| WkStopEnds
| WkCrash compact_io time

text \<open>\<open>None\<close> is a loop that does not end.\<close>

fun worker_event_step :: "hashes \<Rightarrow> worker \<Rightarrow> worker_event \<Rightarrow> worker option" where
  "worker_event_step H w (WkAccept io now aborted m) =
     Some (w\<lparr>wkSpool := snd (accept H io now aborted m (wkSpool w))\<rparr>)"
| "worker_event_step H w (WkStart env io) = start_worker env io w"
| "worker_event_step H w (WkKick env) = kick env w"
| "worker_event_step H w (WkSettle env reply) = receive_settles env reply w"
| "worker_event_step H w (WkTimer env) = timer_fires env w"
| "worker_event_step H w WkStopBegins = Some (stop_begins w)"
| "worker_event_step H w WkStopEnds = Some (stop_ends w)"
| "worker_event_step H w (WkCrash cio now) = Some (crash cio now w)"

fun worker_run :: "hashes \<Rightarrow> worker \<Rightarrow> worker_event list \<Rightarrow> worker option" where
  "worker_run H w [] = Some w"
| "worker_run H w (ev # evs) = (case worker_event_step H w ev of None \<Rightarrow> None | Some w' \<Rightarrow> worker_run H w' evs)"

fun clean_event :: "worker_event \<Rightarrow> bool" where
  "clean_event (WkAccept io now aborted m) = clean_io io"
| "clean_event (WkStart env io) = (clean_env env \<and> (\<forall>k. clean_io (io k)))"
| "clean_event (WkKick env) = clean_env env"
| "clean_event (WkSettle env reply) = clean_env env"
| "clean_event (WkTimer env) = clean_env env"
| "clean_event (WkCrash cio now) = (cio \<noteq> CompactFailsAfterRename)"
| "clean_event _ = True"

fun event_messages :: "worker_event list \<Rightarrow> jsval list" where
  "event_messages [] = []"
| "event_messages (WkAccept io now aborted m # evs) = m # event_messages evs"
| "event_messages (_ # evs) = event_messages evs"

lemma quiet_refl [simp]: "quiet park w w"
  by (simp add: quiet_def)

lemma quiet_trans: "quiet park w v \<Longrightarrow> quiet park v u \<Longrightarrow> quiet park w u"
  by (simp add: quiet_def)

lemma drain_and_finally_ok:
  assumes w: "worker_ok H ms n park w" and env: "clean_env env"
  shows "\<exists>w'. drain_and_finally env w = Some w' \<and> worker_ok H ms n park w' \<and> quiet park w w'"
proof -
  obtain v where v: "drain_top env w = Some v" "worker_ok H ms n park v" "quiet park w v"
    using drain_top_ok [OF w env] by blast
  obtain u where "drain_top (shifted_env env) v = Some u" "worker_ok H ms n park u" "quiet park v u"
    using drain_top_ok [OF v(2) clean_env_shifted [OF env]] by blast
  with v show ?thesis by (auto simp: drain_and_finally_def intro: quiet_trans)
qed

lemma kick_ok:
  "worker_ok H ms n park w \<Longrightarrow> clean_env env \<Longrightarrow>
   \<exists>w'. kick env w = Some w' \<and> worker_ok H ms n park w' \<and> quiet park w w'"
  using drain_and_finally_ok [of H ms n park w env] by (auto simp: kick_def)

lemma safe_status_ok:
  assumes t: "tracked H ms n (wkStarted w) park (wkSpool w)" and e: "map_of (spEntries (wkSpool w)) (ieReceipt e) = Some e"
    and st: "\<not> open_status st" "is_terminal_ingress_status st \<or> ieMessage e \<noteq> None"
    and io: "clean_io io" "cio \<noteq> CompactFailsAfterRename" and d: "wkDrain w = NoDrain"
  shows "worker_ok H ms n park (safe_status io cio now e st text w)" "quiet park w (safe_status io cio now e st text w)"
    "wkDrain (safe_status io cio now e st text w) = NoDrain"
  using tracked_status [OF t e _ st(2) io] st(1) d by (simp_all add: safe_status_def worker_ok_def quiet_def)

lemma failed_status_same:
  assumes "set_status io cio now e st err k s = (Inl x, s')" "clean_io io"
  shows "s' = s"
  using assms by (rule_tac set_status_cases [OF assms(2), of cio now e st err k s]) auto

lemma retry_ok:
  assumes t: "tracked H ms n (wkStarted w) park (wkSpool w)" and e: "map_of (spEntries (wkSpool w)) (ieReceipt e) = Some e"
    and p: "ieReceipt e \<notin> park" "ieMessage e \<noteq> None" and env: "clean_env env" and d: "wkDrain w = NoDrain"
  shows "worker_ok H ms n park (retry env e text w)" "quiet park w (retry env e text w)"
    "wkDrain (retry env e text w) = NoDrain"
proof -
  have failed: "\<not> open_status Failed" "\<not> open_status Interrupted" "is_terminal_ingress_status Failed"
    by (simp_all add: open_status_def is_terminal_ingress_status_def)
  note safe = safe_status_ok [OF t e _ _ clean_envD [OF env] d]
  have "worker_ok H ms n park (retry env e text w) \<and> quiet park w (retry env e text w) \<and>
      wkDrain (retry env e text w) = NoDrain"
  proof (cases "wkController w = Aborted")
    case True
    then show ?thesis using safe [of Interrupted] failed p(2) by (simp add: retry_def)
  next
    case False
    let ?set = "set_status (weIo env 0) (weCompact env 0) (weNow env) e Retrying (Some text) (ieAttempts e) (wkSpool w)"
    have ts: "tracked H ms n (wkStarted w) park (snd ?set)"
      using p by (intro tracked_status t e) (use env in auto)
    obtain res s where res: "?set = (res, s)" by force
    show ?thesis
    proof (cases res)
      case (Inl x)
      then have "s = wkSpool w" using failed_status_same res clean_envD(1) [OF env] by blast
      then show ?thesis using False res Inl safe [of Failed] failed by (simp add: retry_def)
    next
      case (Inr x)
      then show ?thesis using False res ts d by (simp add: retry_def worker_ok_def quiet_def)
    qed
  qed
  then show "worker_ok H ms n park (retry env e text w)" "quiet park w (retry env e text w)"
    "wkDrain (retry env e text w) = NoDrain" by blast+
qed

lemma again_ok:
  assumes "worker_ok H ms n park w" "clean_env env"
  shows "\<exists>w'. (if drain_again w then drain_top (shifted_env env) w else Some w) = Some w' \<and>
    worker_ok H ms n park w' \<and> quiet park w w'"
  using drain_top_ok [OF assms(1) clean_env_shifted [OF assms(2)]] assms(1) by auto

lemma settles_ok:
  assumes w: "worker_ok H ms n park w" and env: "clean_env env"
  shows "\<exists>w'. receive_settles env reply w = Some w' \<and> worker_ok H ms n park w' \<and> quiet park w w'"
proof (cases "wkDrain w")
  case (Awaiting e)
  let ?w0 = "w\<lparr>wkDrain := NoDrain\<rparr>"
  have t: "tracked H ms n (wkStarted ?w0) park (wkSpool ?w0)" and d: "wkDrain ?w0 = NoDrain"
    and e: "map_of (spEntries (wkSpool ?w0)) (ieReceipt e) = Some e" "ieReceipt e \<notin> park" "ieMessage e \<noteq> None"
    using w Awaiting by (auto simp: worker_ok_def)
  have q0: "quiet park w v" if "quiet park ?w0 v" for v using that by (simp add: quiet_def)
  note r = retry_ok [OF t e env d]
  have retried: "\<exists>w'. (if drain_again (retry env e msg ?w0) then drain_top (shifted_env env) (retry env e msg ?w0)
      else Some (retry env e msg ?w0)) = Some w' \<and> worker_ok H ms n park w' \<and> quiet park w w'" for msg
    using again_ok [OF r(1) env] quiet_trans [OF r(2)] q0 by blast
  show ?thesis
  proof (cases reply)
    case Throws
    then show ?thesis using retried by (simp add: receive_settles_def Awaiting Let_def)
  next
    case (Reply transient rejected)
    show ?thesis
    proof (cases transient)
      case True
      then show ?thesis using retried Reply by (simp add: receive_settles_def Awaiting Let_def)
    next
      case False
      let ?st = "if rejected then Rejected else Completed"
      let ?set = "set_status (weIo env 0) (weCompact env 0) (weNow env) e ?st None (ieAttempts e) (wkSpool w)"
      have st: "\<not> open_status ?st" "is_terminal_ingress_status ?st"
        by (simp_all add: open_status_def is_terminal_ingress_status_def)
      have ts: "tracked H ms n (wkStarted w) park (snd ?set)"
        using tracked_status [OF t e(1), of ?st] st env by simp
      obtain res s where res: "?set = (res, s)" by force
      show ?thesis
      proof (cases res)
        case (Inl x)
        then have s: "s = wkSpool w" using failed_status_same res clean_envD(1) [OF env] by blast
        let ?v = "safe_status (weIo env 1) (weCompact env 1) (weNow env) e Failed (weText env)
          (?w0\<lparr>wkSpool := s, wkStalled := True\<rparr>)"
        have v: "worker_ok H ms n park ?v" "quiet park (?w0\<lparr>wkSpool := s, wkStalled := True\<rparr>) ?v"
          using safe_status_ok [of H ms n "?w0\<lparr>wkSpool := s, wkStalled := True\<rparr>" park e Failed "weIo env 1"
              "weCompact env 1" "weNow env" "weText env"] t e env s
          by (simp_all add: open_status_def is_terminal_ingress_status_def)
        then have "quiet park w ?v" by (simp add: quiet_def)
        moreover have "receive_settles env reply w = drain_and_finally env ?v"
          using False Reply res Inl by (simp add: receive_settles_def Awaiting Let_def)
        ultimately show ?thesis using drain_and_finally_ok [OF v(1) env] quiet_trans by metis
      next
        case (Inr x)
        have v: "worker_ok H ms n park (?w0\<lparr>wkSpool := s\<rparr>)" "quiet park w (?w0\<lparr>wkSpool := s\<rparr>)"
          using ts res by (simp_all add: worker_ok_def quiet_def)
        moreover have "receive_settles env reply w = drain_and_finally env (?w0\<lparr>wkSpool := s\<rparr>)"
          using False Reply res Inr by (simp add: receive_settles_def Awaiting Let_def)
        ultimately show ?thesis using drain_and_finally_ok [OF v(1) env] quiet_trans by metis
      qed
    qed
  qed
qed (use w in \<open>simp add: receive_settles_def\<close>)

lemma event_step_ok:
  assumes w: "worker_ok H ms n park w" and ev: "clean_event ev" and room: "length ms \<le> n"
    and m: "set (event_messages [ev]) \<subseteq> set ms"
  shows "\<exists>w'. worker_event_step H w ev = Some w' \<and> worker_ok H ms n park w' \<and> quiet park w w'"
proof (cases ev)
  case (WkAccept io now aborted m)
  have t: "tracked H ms n (wkStarted w) park (wkSpool w)" using w by (rule worker_tracked)
  show ?thesis
  proof (cases "wkDrain w")
    case NoDrain
    then show ?thesis using WkAccept tracked_accept [OF t _ _ room, of io m now aborted] ev m
      by (simp add: worker_ok_def quiet_def)
  next
    case (Awaiting e)
    then have e: "map_of (spEntries (wkSpool w)) (ieReceipt e) = Some e" using w by (simp add: worker_ok_def)
    have g: "good_spool H ms (wkSpool w)" using t by (simp add: tracked_def)
    from accept_ids [OF g, of io m now aborted] WkAccept ev m obtain xs where
      xs: "ids (spEntries (snd (accept H io now aborted m (wkSpool w)))) = ids (spEntries (wkSpool w)) @ xs" by auto
    have keep: "map_of (spEntries (snd (accept H io now aborted m (wkSpool w)))) (ieReceipt e) = Some e"
    proof (cases "spEntries (snd (accept H io now aborted m (wkSpool w))) = spEntries (wkSpool w)")
      case False
      then obtain key where key: "gateway_inbound_idempotency_key m = Some key"
        "map_of (spByKey (wkSpool w)) key = None"
        by (auto simp: accept_def split: option.splits if_splits)
      then have "spEntries (snd (accept H io now aborted m (wkSpool w))) =
          AList.update (message_receipt H m key) (queued_entry H key m) (spEntries (wkSpool w))"
        using False by (auto simp: accept_def Let_def queued_entry_def message_receipt_def split: prod.splits if_splits)
      moreover have "map_of (spEntries (wkSpool w)) (message_receipt H m key) = None"
        using accept_fresh [OF g _ key] m WkAccept by simp
      ultimately show ?thesis using e by auto
    qed (use e in simp)
    show ?thesis using WkAccept tracked_accept [OF t _ _ room, of io m now aborted] ev m w Awaiting keep
      by (simp add: worker_ok_def quiet_def)
  qed
next
  case (WkStart env io)
  show ?thesis
  proof (cases "wkController w = NoController")
    case True
    then have d: "wkDrain w = NoDrain" using w by (cases "wkDrain w") (auto simp: worker_ok_def)
    have t: "tracked H ms n (wkStarted w) park (snd (mark_interrupted io (weNow env) (wkSpool w)))"
      using tracked_interrupt [OF worker_tracked [OF w]] ev WkStart by simp
    obtain res s where res: "mark_interrupted io (weNow env) (wkSpool w) = (res, s)" by force
    let ?v = "w\<lparr>wkController := Live, wkStalled := False, wkSpool := s\<rparr>"
    have v: "worker_ok H ms n park ?v" "quiet park w ?v" using t d res by (simp_all add: worker_ok_def quiet_def)
    show ?thesis
    proof (cases res)
      case (Inl x)
      then show ?thesis using v WkStart True res by (simp add: start_worker_def)
    next
      case (Inr x)
      then have "start_worker env io w = kick env ?v" using True res by (simp add: start_worker_def)
      then show ?thesis using kick_ok [OF v(1)] ev WkStart quiet_trans [OF v(2)] by (metis clean_event.simps(2) worker_event_step.simps(2))
    qed
  next
    case False
    then show ?thesis using kick_ok [OF w] ev WkStart by (simp add: start_worker_def)
  qed
next
  case (WkTimer env)
  have v: "worker_ok H ms n park (w\<lparr>wkTimer := None\<rparr>)" using w by (cases "wkDrain w") (simp_all add: worker_ok_def)
  have q: "quiet park w v" if "quiet park (w\<lparr>wkTimer := None\<rparr>) v" for v using that by (simp add: quiet_def)
  show ?thesis using kick_ok [OF v] ev w WkTimer q by (auto simp: timer_fires_def)
next
  case WkStopBegins
  then show ?thesis using w by (auto simp: stop_begins_def worker_ok_def quiet_def split: drain_state.splits)
next
  case WkStopEnds
  then show ?thesis using w by (auto simp: stop_ends_def worker_ok_def quiet_def)
next
  case (WkCrash cio now)
  then show ?thesis using tracked_restart [OF worker_tracked [OF w]] ev
    by (simp add: crash_def new_worker_def worker_ok_def quiet_def)
qed (use kick_ok [OF w] settles_ok [OF w] ev in auto)

lemma event_messages_Cons: "event_messages (ev # evs) = event_messages [ev] @ event_messages evs"
  by (cases ev) auto

lemma event_messages_append [simp]: "event_messages (xs @ ys) = event_messages xs @ event_messages ys"
proof (induction xs)
  case (Cons ev xs)
  then show ?case using event_messages_Cons [of ev "xs @ ys"] event_messages_Cons [of ev xs] by simp
qed simp

lemma worker_run_ok:
  assumes "worker_ok H ms n park w" "\<forall>ev\<in>set evs. clean_event ev" "length ms \<le> n"
    "set (event_messages evs) \<subseteq> set ms"
  shows "\<exists>w'. worker_run H w evs = Some w' \<and> worker_ok H ms n park w' \<and> quiet park w w'"
  using assms
proof (induction evs arbitrary: w)
  case (Cons ev evs)
  have m: "set (event_messages [ev]) \<subseteq> set ms" "set (event_messages evs) \<subseteq> set ms"
    using Cons.prems(4) unfolding event_messages_Cons [of ev evs] by auto
  obtain v where v: "worker_event_step H w ev = Some v" "worker_ok H ms n park v" "quiet park w v"
    using event_step_ok [OF Cons.prems(1) _ Cons.prems(3) m(1)] Cons.prems(2) by auto
  obtain u where "worker_run H v evs = Some u" "worker_ok H ms n park u" "quiet park v u"
    using Cons.IH [OF v(2) _ Cons.prems(3) m(2)] Cons.prems(2) by auto
  with v show ?case by (auto intro: quiet_trans)
qed simp

lemma new_worker_ok: "hash_ok H ms \<Longrightarrow> worker_ok H ms n {} (new_worker (new_spool (int n)) [])"
proof -
  assume "hash_ok H ms"
  from new_spool_good [OF this, of "int n"] show ?thesis
    by (simp add: worker_ok_def new_worker_def tracked_def roomy_def resting_def counted_def ids_def new_spool_def
        open_spool_def empty_journal_def load_journal_def replay_def List.map_filter_def
        compact_terminal_payloads_def terminal_entries_def)
qed

section \<open>Properties\<close>




definition sample_env :: worker_env where
  "sample_env = \<lparr>weIo = (\<lambda>k. good_io), weCompact = (\<lambda>k. CompactDone), weNow = 2, weText = js ''down''\<rparr>"

definition sample_events :: "worker_event list" where
  "sample_events = [WkAccept good_io 1 False sample_message, WkStart sample_env (\<lambda>k. good_io)]"

lemma sample_events_ok:
  "hash_ok sample_hashes (event_messages sample_events)" "list_all clean_event sample_events"
  "length (event_messages sample_events) \<le> 9"
  by (simp_all add: sample_events_def sample_hash_ok clean_env_def sample_env_def)

lemma sample_worker:
  "\<exists>w. worker_run sample_hashes (new_worker (new_spool 9) []) sample_events = Some w \<and>
     wkDrain w = Awaiting claimed_entry \<and> wkStarted w = [''r''] \<and>
     load_journal (spJournal (wkSpool w)) =
       [accepted_event 1 sample_entry, status_event 2 sample_entry Processing None 1]"
proof -
  let ?s = "\<lparr>spEntries = [(''r'', sample_entry)], spByKey = [(sample_key, ''r'')],
    spJournal = append_line (accepted_event 1 sample_entry) empty_journal, spMaxTombstones = 9\<rparr>"
  let ?w = "(new_worker ?s [])\<lparr>wkController := Live\<rparr>"
  have claim: "claim_receipt good_io 2 ''r'' ?s =
      (Inr (Some claimed_entry), ?s\<lparr>spEntries := [(''r'', claimed_entry)],
         spJournal := append_line (status_event 2 sample_entry Processing None 1) (spJournal ?s)\<rparr>)"
    by (simp add: claim_receipt_def set_status_def Let_def is_terminal_ingress_status_def claimed_entry_def with_status_def)
  have nx: "next_pending ?w = Some sample_entry"
    by (simp add: next_pending_def pending_entries_def new_worker_def)
  have msg: "ieMessage claimed_entry = Some sample_message" "ieReceipt claimed_entry = ''r''" by (simp_all add: claimed_entry_def)
  have "drain_top sample_env ?w = Some (?w\<lparr>wkDrain := Awaiting claimed_entry, wkStarted := [''r''],
      wkSpool := ?s\<lparr>spEntries := [(''r'', claimed_entry)],
        spJournal := append_line (status_event 2 sample_entry Processing None 1) (spJournal ?s)\<rparr>\<rparr>)"
    by (subst drain_top.simps) (use nx claim msg in \<open>simp add: new_worker_def sample_env_def\<close>)
  then show ?thesis
    by (simp add: sample_events_def sample_accept new_worker_def start_worker_def mark_interrupted_def kick_def
        drain_and_finally_def drain_again_def load_append_line)
      (simp add: load_journal_def empty_journal_def append_line_def List.map_filter_def sample_env_def)
qed




end
