(* ===== verification/Idempotency.thy ===== *)
theory Idempotency
  imports IngressSpool
begin

text \<open>
  One execution per message: \<open>GatewayReceiveIdempotencyCoordinator\<close> of \<open>gateway/receive/idempotency.ts\<close>
  on the inbox log of \<open>gateway/runner/recording.ts\<close>. A call of \<open>receive\<close> runs to its promise in one
  step; what execution returns, the abort of a caller's signal and a restart of the process are the other
  steps. Flights are the entries of \<open>inFlight\<close>; a consumer is the number of the call that made it and
  whether it has a signal. \<open>coStarted\<close> and \<open>coEnded\<close> record the keys of the executions that were
  started and that ended, by their result or with the process; the code does not keep them.
\<close>

section \<open>Outcomes\<close>

datatype delivery_status = Sent | Fallback | DeliveryRejected

datatype disposition = Terminal | Transient

record outcome_record =
  goOk :: bool
  goResponse :: jstr
  goPairing :: "jstr option"
  goTrace :: "jstr option"
  goSession :: "jstr option"
  goDelivery :: "jstr option"
  goRunSession :: "jstr option"
  goCompleted :: "bool option"
  goStatus :: "delivery_status option"
  goFailure :: "jstr option"
  goOutbox :: "jstr option"
  goDuplicate :: "bool option"
  goDisposition :: "disposition option"

definition pairing_retry_response :: jstr where
  "pairing_retry_response = js ''Authorization is pending. Retry this message after pairing is approved.''"

definition duplicate_ack_response :: jstr where
  "duplicate_ack_response = js ''This message was already processed. No duplicate agent run was started.''"

definition delivery_pending_response :: jstr where
  "delivery_pending_response = js ''The response was computed, but delivery is pending retry.''"

definition public_outcome :: "outcome_record \<Rightarrow> bool \<Rightarrow> outcome_record" where
  "public_outcome r preserve = (if preserve then r else r\<lparr>goDisposition := None\<rparr>)"

definition is_pairing_outcome :: "outcome_record \<Rightarrow> bool" where
  "is_pairing_outcome r =
     ((case goPairing r of None \<Rightarrow> False | Some p \<Rightarrow> trim_text p \<noteq> []) \<or> goResponse r = pairing_retry_response)"

definition bounded_response :: "outcome_record \<Rightarrow> jstr" where
  "bounded_response r =
     (if is_pairing_outcome r then pairing_retry_response
      else if goStatus r = Some DeliveryRejected then delivery_pending_response
      else duplicate_ack_response)"

definition duplicate_outcome :: "outcome_record \<Rightarrow> bool \<Rightarrow> outcome_record" where
  "duplicate_outcome r preserve =
     (if preserve then r\<lparr>goDuplicate := Some True\<rparr>
      else (public_outcome r False)\<lparr>goPairing := None, goResponse := bounded_response r, goDuplicate := Some True\<rparr>)"

definition durable_outcome :: "outcome_record \<Rightarrow> outcome_record option" where
  "durable_outcome r =
     (if goCompleted r \<noteq> Some True \<and> goDisposition r \<noteq> Some Terminal \<and> \<not> is_pairing_outcome r then None
      else Some (r\<lparr>goPairing := None, goDuplicate := None, goResponse := bounded_response r,
                   goDisposition := Some Terminal\<rparr>))"

section \<open>The inbox log\<close>

record inbox_record =
  inKey :: "ingress_key option"
  inOutcome :: "outcome_record option"

definition find_receive_outcome :: "inbox_record list \<Rightarrow> ingress_key \<Rightarrow> outcome_record option" where
  "find_receive_outcome entries key =
     (case find (\<lambda>r. inKey r = Some key \<and> inOutcome r \<noteq> None) (rev entries) of
        None \<Rightarrow> None
      | Some r \<Rightarrow> inOutcome r)"

section \<open>The coordinator\<close>

record flight =
  flConsumers :: "(nat \<times> bool) list"
  flAborted :: bool

record coordinator =
  coInFlight :: "(ingress_key, flight) jsmap"
  coCompleted :: "(ingress_key, outcome_record) jsmap"
  coLog :: "inbox_record list"
  coFile :: "inbox_record list"
  coCalls :: nat
  coStarted :: "ingress_key list"
  coEnded :: "ingress_key list"

definition new_coordinator ::
  "inbox_record list \<Rightarrow> nat \<Rightarrow> ingress_key list \<Rightarrow> ingress_key list \<Rightarrow> coordinator" where
  "new_coordinator file calls started ended =
     \<lparr>coInFlight = [], coCompleted = [], coLog = file, coFile = file, coCalls = calls,
      coStarted = started, coEnded = ended\<rparr>"

text \<open>\<open>push\<close> into the log in memory, then the append to the file, which throws when \<open>written\<close> is false.\<close>

definition record_receive_outcome :: "bool \<Rightarrow> ingress_key \<Rightarrow> outcome_record \<Rightarrow> coordinator \<Rightarrow> coordinator" where
  "record_receive_outcome written key r s =
     (let entry = \<lparr>inKey = Some key, inOutcome = Some r\<rparr>
      in s\<lparr>coLog := coLog s @ [entry], coFile := (if written then coFile s @ [entry] else coFile s)\<rparr>)"

datatype receive_answer =
  CallAborted
| RunsUncoordinated
| Acknowledged outcome_record
| Joined
| Started

text \<open>\<open>signal\<close>: no abort signal, or one that is aborted or not.\<close>

definition has_signal :: "bool option \<Rightarrow> bool" where
  "has_signal signal = (signal \<noteq> None)"

definition join_flight :: "nat \<Rightarrow> bool option \<Rightarrow> flight \<Rightarrow> flight" where
  "join_flight call signal f = f\<lparr>flConsumers := flConsumers f @ [(call, has_signal signal)]\<rparr>"

definition completed_outcome :: "ingress_key \<Rightarrow> coordinator \<Rightarrow> outcome_record option" where
  "completed_outcome key s =
     (case map_of (coCompleted s) key of
        Some r \<Rightarrow> Some r
      | None \<Rightarrow>
          (case find_receive_outcome (coLog s) key of
             None \<Rightarrow> None
           | Some stored \<Rightarrow> durable_outcome stored))"

definition receive ::
  "jsval \<Rightarrow> bool option \<Rightarrow> bool \<Rightarrow> coordinator \<Rightarrow> receive_answer \<times> coordinator" where
  "receive m signal preserve s0 =
     (let s = s0\<lparr>coCalls := Suc (coCalls s0)\<rparr>; call = coCalls s0 in
      if signal = Some True then (CallAborted, s)
      else (case gateway_inbound_idempotency_key m of
          None \<Rightarrow> (RunsUncoordinated, s)
        | Some key \<Rightarrow>
            (case completed_outcome key s of
               Some r \<Rightarrow>
                 (Acknowledged (duplicate_outcome r preserve),
                  s\<lparr>coCompleted := AList.update key r (coCompleted s)\<rparr>)
             | None \<Rightarrow>
                 (case map_of (coInFlight s) key of
                    Some f \<Rightarrow>
                      (Joined, s\<lparr>coInFlight := AList.update key (join_flight call signal f) (coInFlight s)\<rparr>)
                  | None \<Rightarrow>
                      (Started,
                       s\<lparr>coInFlight := AList.update key
                           (join_flight call signal \<lparr>flConsumers = [], flAborted = False\<rparr>) (coInFlight s),
                         coStarted := coStarted s @ [key]\<rparr>)))))"

text \<open>\<open>release(true)\<close> of a consumer whose signal aborts.\<close>

definition abort_consumer :: "ingress_key \<Rightarrow> nat \<Rightarrow> coordinator \<Rightarrow> coordinator" where
  "abort_consumer key call s =
     (case map_of (coInFlight s) key of
        None \<Rightarrow> s
      | Some f \<Rightarrow>
          if (call, True) \<notin> set (flConsumers f) then s
          else
            (let rest = filter (\<lambda>c. c \<noteq> (call, True)) (flConsumers f)
             in s\<lparr>coInFlight := AList.update key
                  (f\<lparr>flConsumers := rest, flAborted := (flAborted f \<or> rest = [])\<rparr>) (coInFlight s)\<rparr>))"

text \<open>The execution of \<open>key\<close> returns an outcome or fails (\<open>None\<close>); then its flight is taken down.\<close>

definition settle_flight :: "ingress_key \<Rightarrow> outcome_record option \<Rightarrow> bool \<Rightarrow> coordinator \<Rightarrow> coordinator" where
  "settle_flight key result written s =
     (if map_of (coInFlight s) key = None then s
      else
        let s1 = (case result of
            None \<Rightarrow> s
          | Some r \<Rightarrow>
              (case durable_outcome r of
                 None \<Rightarrow> s
               | Some d \<Rightarrow>
                   record_receive_outcome written key d (s\<lparr>coCompleted := AList.update key d (coCompleted s)\<rparr>)))
        in s1\<lparr>coInFlight := AList.delete key (coInFlight s1), coEnded := coEnded s1 @ [key]\<rparr>)"

definition restart_coordinator :: "coordinator \<Rightarrow> coordinator" where
  "restart_coordinator s = new_coordinator (coFile s) (coCalls s) (coStarted s) (coEnded s @ map fst (coInFlight s))"

text \<open>What the caller of a coordinated execution gets from its outcome.\<close>

definition caller_outcome :: "receive_answer \<Rightarrow> outcome_record \<Rightarrow> bool \<Rightarrow> outcome_record" where
  "caller_outcome answer r preserve =
     (if answer = Started then public_outcome r preserve else duplicate_outcome r preserve)"

section \<open>Runs\<close>

datatype coordinator_event =
  CoReceive jsval "bool option" bool
| CoAbort ingress_key nat
| CoSettle ingress_key "outcome_record option" bool
| CoRestart

fun coordinator_step :: "coordinator \<Rightarrow> coordinator_event \<Rightarrow> coordinator" where
  "coordinator_step s (CoReceive m signal preserve) = snd (receive m signal preserve s)"
| "coordinator_step s (CoAbort key call) = abort_consumer key call s"
| "coordinator_step s (CoSettle key result written) = settle_flight key result written s"
| "coordinator_step s CoRestart = restart_coordinator s"

text \<open>Every retained outcome is one \<open>durableGatewayReceiveOutcome\<close> made.\<close>

definition retained_ok :: "outcome_record \<Rightarrow> bool" where
  "retained_ok r = (goDisposition r = Some Terminal \<and> goPairing r = None \<and>
     goResponse r \<in> {pairing_retry_response, delivery_pending_response, duplicate_ack_response})"

definition log_ok :: "inbox_record list \<Rightarrow> bool" where
  "log_ok entries = (\<forall>e\<in>set entries. \<forall>r. inOutcome e = Some r \<longrightarrow> retained_ok r)"

definition coordinator_ok :: "coordinator \<Rightarrow> bool" where
  "coordinator_ok s = (log_ok (coLog s) \<and> log_ok (coFile s) \<and>
     (\<forall>k r. map_of (coCompleted s) k = Some r \<longrightarrow> retained_ok r) \<and> jm_wf (coInFlight s) \<and>
     (\<forall>k. count_list (coStarted s) k =
        count_list (coEnded s) k + (if map_of (coInFlight s) k = None then 0 else 1)))"

lemma durable_retained: "durable_outcome r = Some d \<Longrightarrow> retained_ok d"
  by (auto simp: durable_outcome_def retained_ok_def bounded_response_def split: if_splits)

lemma retained_durable: "retained_ok r \<Longrightarrow> \<exists>d. durable_outcome r = Some d"
  by (simp add: durable_outcome_def retained_ok_def)

lemma find_receive_outcome_ok: "log_ok entries \<Longrightarrow> find_receive_outcome entries key = Some r \<Longrightarrow> retained_ok r"
  by (auto simp: find_receive_outcome_def log_ok_def find_Some_iff split: option.splits)
    (metis nth_mem set_rev length_rev)

definition has_outcome :: "inbox_record list \<Rightarrow> ingress_key \<Rightarrow> bool" where
  "has_outcome es key = list_ex (\<lambda>e. inKey e = Some key \<and> inOutcome e \<noteq> None) es"

lemma find_receive_outcome_some: "has_outcome es key \<Longrightarrow> \<exists>r. find_receive_outcome es key = Some r"
proof -
  assume "has_outcome es key"
  then have "find (\<lambda>r. inKey r = Some key \<and> inOutcome r \<noteq> None) (rev es) \<noteq> None"
    by (auto simp: find_None_iff has_outcome_def list_ex_iff)
  then obtain e where e: "find (\<lambda>r. inKey r = Some key \<and> inOutcome r \<noteq> None) (rev es) = Some e" by blast
  then have "inOutcome e \<noteq> None" by (auto simp: find_Some_iff)
  with e show ?thesis by (auto simp: find_receive_outcome_def)
qed

lemma has_outcome_simps [simp]:
  "has_outcome (es @ fs) key \<longleftrightarrow> has_outcome es key \<or> has_outcome fs key"
  "has_outcome [] key = False"
  "has_outcome [\<lparr>inKey = Some k, inOutcome = Some r\<rparr>] key = (k = key)"
  by (simp_all add: has_outcome_def)

text \<open>The message \<open>key\<close> has a retained outcome in the file, so it is known in memory after any restart.\<close>

definition known :: "ingress_key \<Rightarrow> coordinator \<Rightarrow> bool" where
  "known key s = (has_outcome (coFile s) key \<and> has_outcome (coLog s) key)"

lemma known_completed:
  assumes "coordinator_ok s" "known key s"
  shows "completed_outcome key s \<noteq> None"
proof (cases "map_of (coCompleted s) key")
  case None
  obtain r where r: "find_receive_outcome (coLog s) key = Some r"
    using assms(2) find_receive_outcome_some by (auto simp: known_def)
  then have "retained_ok r" using assms(1) find_receive_outcome_ok by (auto simp: coordinator_ok_def)
  then show ?thesis using retained_durable [of r] r None by (auto simp: completed_outcome_def)
qed (simp add: completed_outcome_def)

lemma completed_retained:
  assumes "coordinator_ok s" "completed_outcome key s = Some r"
  shows "retained_ok r"
  using assms durable_retained by (auto simp: completed_outcome_def coordinator_ok_def split: option.splits)

lemma count_keys: "jm_wf m \<Longrightarrow> count_list (map fst m) k = (if map_of m k = None then 0 else 1)"
proof (induction m)
  case (Cons p m)
  then have "count_list (map fst m) k = (if map_of m k = None then 0 else 1)" "map_of m (fst p) = None"
    by (auto simp: jm_wf_def map_of_eq_None_iff)
  then show ?case by (cases p) auto
qed simp

lemma receive_ok:
  assumes s: "coordinator_ok s"
  shows "coordinator_ok (snd (receive m signal preserve s)) \<and>
    (known key s \<longrightarrow> known key (snd (receive m signal preserve s)) \<and>
       count_list (coStarted (snd (receive m signal preserve s))) key = count_list (coStarted s) key)"
proof -
  have known: "known key (s\<lparr>coCalls := n\<rparr>) = known key s" "completed_outcome k (s\<lparr>coCalls := n\<rparr>) = completed_outcome k s" for n k
    by (simp_all add: known_def completed_outcome_def cong: option.case_cong)
  have "coordinator_ok (s\<lparr>coCalls := n\<rparr>)" for n using s by (simp add: coordinator_ok_def)
  then show ?thesis
    using s known_completed [OF s, of key] completed_retained [OF s]
    by (auto simp: receive_def Let_def known coordinator_ok_def known_def [of key] split: option.splits)
qed

lemma abort_ok:
  assumes s: "coordinator_ok s"
  shows "coordinator_ok (abort_consumer k call s) \<and> known key (abort_consumer k call s) = known key s \<and>
    coStarted (abort_consumer k call s) = coStarted s"
  using s by (auto simp: abort_consumer_def Let_def coordinator_ok_def known_def split: option.split)

lemma settle_ok:
  assumes s: "coordinator_ok s"
  shows "coordinator_ok (settle_flight k result written s) \<and>
    (known key s \<longrightarrow> known key (settle_flight k result written s)) \<and>
    coStarted (settle_flight k result written s) = coStarted s"
proof (cases "map_of (coInFlight s) k")
  case (Some f)
  show ?thesis
  proof (cases "\<exists>r d. result = Some r \<and> durable_outcome r = Some d")
    case True
    then obtain r d where d: "result = Some r" "durable_outcome r = Some d" by blast
    then have "retained_ok d" by (simp add: durable_retained)
    then show ?thesis using s Some d
      by (auto simp: settle_flight_def record_receive_outcome_def Let_def coordinator_ok_def known_def log_ok_def)
  next
    case False
    then show ?thesis using s Some
      by (cases result) (auto simp: settle_flight_def Let_def coordinator_ok_def known_def split: option.split)
  qed
qed (use s in \<open>simp add: settle_flight_def\<close>)

lemma restart_ok:
  assumes s: "coordinator_ok s"
  shows "coordinator_ok (restart_coordinator s) \<and> (known key s \<longrightarrow> known key (restart_coordinator s)) \<and>
    coStarted (restart_coordinator s) = coStarted s"
  using s by (auto simp: restart_coordinator_def new_coordinator_def coordinator_ok_def known_def count_keys)

lemma step_ok:
  assumes "coordinator_ok s"
  shows "coordinator_ok (coordinator_step s ev) \<and> (known key s \<longrightarrow> known key (coordinator_step s ev) \<and>
    count_list (coStarted (coordinator_step s ev)) key = count_list (coStarted s) key)"
  using receive_ok [OF assms] abort_ok [OF assms] settle_ok [OF assms] restart_ok [OF assms]
  by (cases ev) simp_all

end
