(* ===== verification/IdempotencyFacts.thy ===== *)
theory IdempotencyFacts
  imports Idempotency
begin

text \<open>
  What the idempotency coordinator promises: a message whose outcome was retained is not executed again,
  executions of one message do not overlap, repeats are answered with a bounded text and no pairing
  code, and where a late delivery finds a cancelled execution.
\<close>

definition coordinator_run :: "coordinator_event list \<Rightarrow> coordinator" where
  "coordinator_run evs = foldl coordinator_step (new_coordinator [] 0 [] []) evs"

definition coordinator_keeps :: "coordinator \<Rightarrow> coordinator \<Rightarrow> bool" where
  "coordinator_keeps s t = (\<forall>key. known key s \<longrightarrow> known key t \<and>
     count_list (coStarted t) key = count_list (coStarted s) key)"

interpretation coordination: monitored_machine coordinator_step coordinator_ok coordinator_keeps
  by unfold_locales (use step_ok in \<open>auto simp: coordinator_keeps_def\<close>)

lemma coordinator_run_ok: "coordinator_ok (coordinator_run evs)"
proof -
  have "coordinator_ok (new_coordinator [] 0 [] [])"
    by (simp add: new_coordinator_def coordinator_ok_def log_ok_def)
  then show ?thesis unfolding coordinator_run_def by (rule coordination.run_inv)
qed

lemma known_run:
  "coordinator_ok s \<Longrightarrow> known key s \<Longrightarrow>
   count_list (coStarted (foldl coordinator_step s evs)) key = count_list (coStarted s) key"
  using coordination.run_rel [of s evs] by (simp add: coordinator_keeps_def)


text \<open>Two executions of one message never overlap: at any time the executions started for a key are those that
  ended and at most one in flight.\<close>

theorem executions_do_not_overlap:
  "count_list (coStarted (coordinator_run evs)) key =
     count_list (coEnded (coordinator_run evs)) key + (if map_of (coInFlight (coordinator_run evs)) key = None then 0 else 1)"
  using coordinator_run_ok [of evs] by (simp add: coordinator_ok_def)

text \<open>A repeated delivery of a finished message is answered from what was retained, whether or not the caller is
  internal: marked as a duplicate, with one of three fixed texts and without the pairing code.\<close>

theorem acknowledgement_is_bounded:
  assumes "receive m signal preserve (coordinator_run evs) = (Acknowledged r, s)"
  shows "goPairing r = None \<and> goDuplicate r = Some True \<and>
    goResponse r \<in> {pairing_retry_response, delivery_pending_response, duplicate_ack_response}"
proof -
  let ?s = "(coordinator_run evs)\<lparr>coCalls := Suc (coCalls (coordinator_run evs))\<rparr>"
  have ok: "coordinator_ok ?s" using coordinator_run_ok [of evs] by (simp add: coordinator_ok_def)
  obtain key d where d: "completed_outcome key ?s = Some d" "r = duplicate_outcome d preserve"
    using assms by (auto simp: receive_def Let_def split: if_splits option.splits)
  have "retained_ok d" by (rule completed_retained [OF ok d(1)])
  then show ?thesis
    by (auto simp: d(2) duplicate_outcome_def retained_ok_def public_outcome_def bounded_response_def)
qed

text \<open>A delivery that arrives after the only consumer of an execution has gone joins that execution although it
  is already cancelled: it holds a lease on a run whose controller is aborted.\<close>

theorem late_delivery_joins_cancelled_run:
  assumes "gateway_inbound_idempotency_key m = Some key" and "completed_outcome key s = None"
    and "map_of (coInFlight s) key = Some f" and "flConsumers f = [(call, True)]"
  shows "fst (receive m (Some False) preserve (abort_consumer key call s)) = Joined \<and>
    (\<exists>f'. map_of (coInFlight (snd (receive m (Some False) preserve (abort_consumer key call s)))) key = Some f' \<and>
       flAborted f' \<and> flConsumers f' = [(coCalls s, True)])"
proof -
  have "completed_outcome key ((abort_consumer key call s)\<lparr>coCalls := n\<rparr>) = None" for n
    using assms(2-4) by (simp add: abort_consumer_def Let_def completed_outcome_def cong: option.case_cong)
  moreover have "abort_consumer key call s =
      s\<lparr>coInFlight := AList.update key (f\<lparr>flConsumers := [], flAborted := True\<rparr>) (coInFlight s)\<rparr>"
    using assms(3,4) by (simp add: abort_consumer_def)
  ultimately show ?thesis
    using assms(1) by (simp add: receive_def Let_def join_flight_def has_signal_def)
qed

section \<open>A sample delivery\<close>

definition sample_delivery :: jsval where
  "sample_delivery = Obj [(''platform'', Str (js ''p'')), (''messageId'', Str (js ''7'')), (''text'', Str (js ''hi''))]"

definition delivery_key :: ingress_key where
  "delivery_key = [js ''p'', js ''default'', [], [], [], [], js ''7'']"

lemma delivery_key [simp]: "gateway_inbound_idempotency_key sample_delivery = Some delivery_key"
  by (simp add: gateway_inbound_idempotency_key_def sample_delivery_def delivery_key_def message_id_def
      account_id_def text_field_def trim_text_def js_blank_def)

definition sample_outcome :: outcome_record where
  "sample_outcome = \<lparr>goOk = True, goResponse = js ''hello'', goPairing = Some (js ''1234''), goTrace = None,
     goSession = None, goDelivery = None, goRunSession = None, goCompleted = Some True, goStatus = Some Sent,
     goFailure = None, goOutbox = None, goDuplicate = None, goDisposition = None\<rparr>"

lemma sample_durable: "\<exists>d. durable_outcome sample_outcome = Some d"
  by (simp add: durable_outcome_def sample_outcome_def)

lemma first_delivery:
  "coordinator_run [CoReceive sample_delivery (Some False) False] =
    \<lparr>coInFlight = [(delivery_key, \<lparr>flConsumers = [(0, True)], flAborted = False\<rparr>)], coCompleted = [], coLog = [],
     coFile = [], coCalls = 1, coStarted = [delivery_key], coEnded = []\<rparr>"
  by (simp add: coordinator_run_def new_coordinator_def receive_def Let_def completed_outcome_def
      find_receive_outcome_def join_flight_def has_signal_def)


theorem acknowledgement_is_bounded_witness:
  "\<exists>r s. receive sample_delivery None True (coordinator_run [CoReceive sample_delivery (Some False) False,
      CoSettle delivery_key (Some sample_outcome) True]) = (Acknowledged r, s) \<and> goPairing r = None"
proof -
  have settled: "coordinator_run [CoReceive sample_delivery (Some False) False, CoSettle delivery_key (Some sample_outcome) True] =
      settle_flight delivery_key (Some sample_outcome) True (coordinator_run [CoReceive sample_delivery (Some False) False])"
    by (simp add: coordinator_run_def)
  obtain d where "durable_outcome sample_outcome = Some d" using sample_durable by blast
  then have "\<exists>r s. receive sample_delivery None True (coordinator_run [CoReceive sample_delivery (Some False) False,
      CoSettle delivery_key (Some sample_outcome) True]) = (Acknowledged r, s)"
    unfolding settled first_delivery
    by (simp add: settle_flight_def record_receive_outcome_def Let_def receive_def completed_outcome_def)
  then show ?thesis using acknowledgement_is_bounded by blast
qed

theorem late_delivery_joins_cancelled_run_witness:
  "fst (receive sample_delivery (Some False) False (abort_consumer delivery_key 0
      (coordinator_run [CoReceive sample_delivery (Some False) False]))) = Joined"
  using late_delivery_joins_cancelled_run [OF delivery_key,
      of "coordinator_run [CoReceive sample_delivery (Some False) False]"
        "\<lparr>flConsumers = [(0, True)], flAborted = False\<rparr>" 0 False]
  by (simp add: first_delivery completed_outcome_def find_receive_outcome_def)

end
