(* ===== verification/Layout.thy ===== *)
theory Layout
  imports JsValue
begin

text \<open>
  The session workspace of the desktop: \<open>renderer/session-workspace/workspace-layout.ts\<close>. A layout
  holds the open sessions in tab order, the focused one, the mode, and a binary tree of splits whose
  leaves are the open sessions. Ratios and rectangles are exact rationals where the code has doubles.
  \<open>JSON.parse\<close> and the conversion of strings and objects by \<open>Number\<close> are parameters (\<open>json_host\<close>).
\<close>

section \<open>Trees and layouts\<close>

type_synonym session_id = jstr

datatype split_axis = Horizontal | Vertical

datatype workspace_node =
  LeafNode session_id
| SplitNode split_axis rat workspace_node workspace_node

datatype workspace_mode = Tabs | SplitMode

record session_layout =
  laOpen :: "session_id list"
  laFocused :: session_id
  laMode :: workspace_mode
  laTree :: "workspace_node option"

record workspace_rect =
  rcX :: rat
  rcY :: rat
  rcWidth :: rat
  rcHeight :: rat

record workspace_divider =
  dvPath :: string
  dvAxis :: split_axis
  dvX :: rat
  dvY :: rat
  dvWidth :: rat
  dvHeight :: rat
  dvRatio :: rat
  dvParentWidth :: rat
  dvParentHeight :: rat

record json_host =
  jhParse :: "jstr \<Rightarrow> jsval option"
  jhNumber :: "jsval \<Rightarrow> number"

definition max_open_panels :: nat where "max_open_panels = 12"

definition max_retained_closed_panels :: nat where "max_retained_closed_panels = 12"

definition id_unit :: "nat \<Rightarrow> bool" where
  "id_unit u = (97 \<le> u \<and> u \<le> 122 \<or> 65 \<le> u \<and> u \<le> 90 \<or> 48 \<le> u \<and> u \<le> 57 \<or> u = 58 \<or> u = 95 \<or> u = 45)"

definition valid_id :: "session_id \<Rightarrow> bool" where
  "valid_id s = (1 \<le> length s \<and> length s \<le> 128 \<and> list_all id_unit s)"

definition clamp_ratio :: "rat \<Rightarrow> rat" where
  "clamp_ratio r = max (2 / 10) (min (8 / 10) r)"

text \<open>\<open>[...new Set(xs)]\<close>.\<close>

fun js_unique :: "'a list \<Rightarrow> 'a list" where
  "js_unique [] = []"
| "js_unique (x # xs) = x # filter (\<lambda>y. y \<noteq> x) (js_unique xs)"

definition retain_workspace_panels :: "session_id list \<Rightarrow> session_id list \<Rightarrow> session_id list" where
  "retain_workspace_panels retained open_ids =
     slice_last max_retained_closed_panels (filter (\<lambda>i. i \<notin> set open_ids) (js_unique retained)) @
     js_unique open_ids"

fun leaf_count :: "workspace_node \<Rightarrow> nat" where
  "leaf_count (LeafNode i) = 1"
| "leaf_count (SplitNode a r t u) = leaf_count t + leaf_count u"

fun tree_ids :: "workspace_node \<Rightarrow> session_id list" where
  "tree_ids (LeafNode i) = [i]"
| "tree_ids (SplitNode a r t u) = tree_ids t @ tree_ids u"

definition ids_of :: "workspace_node option \<Rightarrow> session_id list" where
  "ids_of t = (case t of None \<Rightarrow> [] | Some n \<Rightarrow> tree_ids n)"

section \<open>Reading a stored tree\<close>

definition js_number :: "json_host \<Rightarrow> jsval \<Rightarrow> number" where
  "js_number h v = (case v of
     Num n \<Rightarrow> n
   | JBool b \<Rightarrow> Fin (if b then 1 else 0)
   | Null \<Rightarrow> Fin 0
   | Undef \<Rightarrow> NaN
   | _ \<Rightarrow> jhNumber h v)"

definition clamp_number :: "number \<Rightarrow> rat" where
  "clamp_number n = (case n of
     Fin q \<Rightarrow> clamp_ratio (if q = 0 then 1 / 2 else q)
   | NaN \<Rightarrow> clamp_ratio (1 / 2)
   | PosInf \<Rightarrow> 8 / 10
   | NegInf \<Rightarrow> 2 / 10)"

definition parse_axis :: "jsval \<Rightarrow> split_axis option" where
  "parse_axis v =
     (if v = Str (js ''horizontal'') then Some Horizontal
      else if v = Str (js ''vertical'') then Some Vertical else None)"

definition combine :: "split_axis \<Rightarrow> rat \<Rightarrow> workspace_node option \<Rightarrow> workspace_node option \<Rightarrow> workspace_node option" where
  "combine a r first second =
     (case first of None \<Rightarrow> second
      | Some t \<Rightarrow> (case second of None \<Rightarrow> first | Some u \<Rightarrow> Some (SplitNode a r t u)))"

text \<open>\<open>fuel\<close> is the depth left; the code starts with \<open>depth = 0\<close> and stops above \<open>MAX_OPEN_PANELS\<close>.\<close>

fun parse_node ::
  "json_host \<Rightarrow> session_id list \<Rightarrow> nat \<Rightarrow> jsval \<Rightarrow> session_id list \<Rightarrow> workspace_node option \<times> session_id list" where
  "parse_node h allowed 0 v seen = (None, seen)"
| "parse_node h allowed (Suc fuel) v seen =
     (if \<not> (is_record v \<or> is_array v) then (None, seen)
      else (case (if getp v ''type'' = Str (js ''leaf'') then getp v ''id'' else Undef) of
          Str i \<Rightarrow>
            if valid_id i \<and> i \<in> set allowed \<and> i \<notin> set seen then (Some (LeafNode i), i # seen)
            else (None, seen)
        | _ \<Rightarrow>
            if getp v ''type'' \<noteq> Str (js ''split'') then (None, seen)
            else (case parse_axis (getp v ''axis'') of
                None \<Rightarrow> (None, seen)
              | Some a \<Rightarrow>
                  (case parse_node h allowed fuel (getp v ''first'') seen of
                     (first, seen1) \<Rightarrow>
                       (case parse_node h allowed fuel (getp v ''second'') seen1 of
                          (second, seen2) \<Rightarrow>
                            (combine a (clamp_number (js_number h (getp v ''ratio''))) first second, seen2))))))"

fun append_node :: "workspace_node \<Rightarrow> session_id \<Rightarrow> workspace_node" where
  "append_node (LeafNode j) i = SplitNode Horizontal (1 / 2) (LeafNode j) (LeafNode i)"
| "append_node (SplitNode a r t u) i =
     (if leaf_count t \<le> leaf_count u then SplitNode a r (append_node t i) u
      else SplitNode a r t (append_node u i))"

definition append_tree :: "workspace_node option \<Rightarrow> session_id \<Rightarrow> workspace_node option" where
  "append_tree t i = (case t of None \<Rightarrow> Some (LeafNode i) | Some n \<Rightarrow> Some (append_node n i))"

definition complete_tree :: "json_host \<Rightarrow> jsval \<Rightarrow> session_id list \<Rightarrow> workspace_node option" where
  "complete_tree h v open_ids =
     (case parse_node h open_ids (Suc max_open_panels) v [] of
        (t, seen) \<Rightarrow> foldl append_tree t (filter (\<lambda>i. i \<notin> set seen) open_ids))"

section \<open>Restoring a layout\<close>

definition fallback_layout :: "session_id \<Rightarrow> session_layout" where
  "fallback_layout selected =
     \<lparr>laOpen = (if valid_id selected then [selected] else []),
      laFocused = (if valid_id selected then selected else []),
      laMode = Tabs,
      laTree = (if valid_id selected then Some (LeafNode selected) else None)\<rparr>"

fun string_ids :: "jsval list \<Rightarrow> session_id list" where
  "string_ids [] = []"
| "string_ids (Str s # vs) = (if valid_id s then s # string_ids vs else string_ids vs)"
| "string_ids (_ # vs) = string_ids vs"

definition restored_ids :: "jsval list \<Rightarrow> session_id \<Rightarrow> session_id list" where
  "restored_ids vs selected =
     (let ids = take max_open_panels (js_unique (string_ids vs))
      in if valid_id selected \<and> selected \<notin> set ids
         then (if max_open_panels \<le> length ids then butlast ids else ids) @ [selected]
         else ids)"

definition restored_focus :: "jsval \<Rightarrow> session_id list \<Rightarrow> session_id \<Rightarrow> session_id" where
  "restored_focus focused ids selected =
     (if selected \<in> set ids then selected
      else (case focused of
          Str f \<Rightarrow> if f \<in> set ids then f else (case ids of [] \<Rightarrow> [] | i # _ \<Rightarrow> i)
        | _ \<Rightarrow> (case ids of [] \<Rightarrow> [] | i # _ \<Rightarrow> i)))"

definition layout_version :: "jsval \<Rightarrow> nat option" where
  "layout_version v =
     (if getp v ''version'' = Num (Fin 1) then Some 1
      else if getp v ''version'' = Num (Fin 2) then Some 2 else None)"

definition restore_workspace_layout :: "json_host \<Rightarrow> jstr option \<Rightarrow> session_id \<Rightarrow> session_layout" where
  "restore_workspace_layout h value selected =
     (case (case value of None \<Rightarrow> Some Null | Some s \<Rightarrow> if s = [] then Some Null else jhParse h s) of
        None \<Rightarrow> fallback_layout selected
      | Some parsed \<Rightarrow>
          (case layout_version parsed of
             None \<Rightarrow> fallback_layout selected
           | Some version \<Rightarrow>
               (case getp parsed ''openIds'' of
                  Arr vs \<Rightarrow>
                    (let ids = restored_ids vs selected in
                     \<lparr>laOpen = ids,
                      laFocused = restored_focus (getp parsed ''focusedId'') ids selected,
                      laMode =
                        (if version = 2
                         then if getp parsed ''mode'' = Str (js ''split'') then SplitMode else Tabs
                         else if getp parsed ''mode'' = Str (js ''tiles'') \<and> 1 < length ids then SplitMode else Tabs),
                      laTree =
                        (if version = 2 then complete_tree h (getp parsed ''tree'') ids
                         else foldl append_tree None ids)\<rparr>)
                | _ \<Rightarrow> fallback_layout selected)))"

text \<open>What \<open>JSON.stringify(layout)\<close> writes, as the value \<open>JSON.parse\<close> reads back.\<close>

fun node_json :: "workspace_node \<Rightarrow> jsval" where
  "node_json (LeafNode i) = Obj [(''type'', Str (js ''leaf'')), (''id'', Str i)]"
| "node_json (SplitNode a r t u) =
     Obj [(''type'', Str (js ''split'')),
          (''axis'', Str (case a of Horizontal \<Rightarrow> js ''horizontal'' | Vertical \<Rightarrow> js ''vertical'')),
          (''ratio'', Num (Fin r)), (''first'', node_json t), (''second'', node_json u)]"

definition layout_json :: "session_layout \<Rightarrow> jsval" where
  "layout_json l =
     Obj [(''version'', Num (Fin 2)), (''openIds'', Arr (map Str (laOpen l))),
          (''focusedId'', Str (laFocused l)),
          (''mode'', Str (case laMode l of Tabs \<Rightarrow> js ''tabs'' | SplitMode \<Rightarrow> js ''split'')),
          (''tree'', case laTree l of None \<Rightarrow> Null | Some t \<Rightarrow> node_json t)]"

section \<open>Operations\<close>

function arranged_tree :: "session_id list \<Rightarrow> split_axis \<Rightarrow> workspace_node option" where
  "arranged_tree ids axis =
     (case ids of
        [] \<Rightarrow> None
      | [i] \<Rightarrow> Some (LeafNode i)
      | i # j # rest \<Rightarrow>
          (let middle = (length ids + 1) div 2 in
           (case (arranged_tree (take middle ids) axis, arranged_tree (drop middle ids) axis) of
              (Some t, Some u) \<Rightarrow> Some (SplitNode axis (of_nat middle / of_nat (length ids)) t u)
            | _ \<Rightarrow> None)))"
  by pat_completeness auto
termination
  by (relation "measure (\<lambda>(ids, axis). length ids)") auto

declare arranged_tree.simps [simp del]

definition arrange_workspace_sessions :: "session_layout \<Rightarrow> split_axis \<Rightarrow> session_layout" where
  "arrange_workspace_sessions l axis =
     l\<lparr>laMode := (if 1 < length (laOpen l) then SplitMode else Tabs), laTree := arranged_tree (laOpen l) axis\<rparr>"

fun workspace_required_size :: "workspace_node \<Rightarrow> rat \<times> rat" where
  "workspace_required_size (LeafNode i) = (360, 280)"
| "workspace_required_size (SplitNode a r t u) =
     (case (workspace_required_size t, workspace_required_size u) of
        ((w1, h1), (w2, h2)) \<Rightarrow>
          (let ratio = clamp_ratio r in
           (case a of
              Horizontal \<Rightarrow> (of_int \<lceil>max (w1 / ratio) (w2 / (1 - ratio))\<rceil>, max h1 h2)
            | Vertical \<Rightarrow> (max w1 w2, of_int \<lceil>max (h1 / ratio) (h2 / (1 - ratio))\<rceil>))))"

definition required_size :: "workspace_node option \<Rightarrow> rat \<times> rat" where
  "required_size t = (case t of None \<Rightarrow> (360, 280) | Some n \<Rightarrow> workspace_required_size n)"

fun balance :: "workspace_node \<Rightarrow> workspace_node" where
  "balance (LeafNode i) = LeafNode i"
| "balance (SplitNode a r t u) =
     (let t' = balance t; u' = balance u;
          size1 = (case a of Horizontal \<Rightarrow> fst (workspace_required_size t') | Vertical \<Rightarrow> snd (workspace_required_size t'));
          size2 = (case a of Horizontal \<Rightarrow> fst (workspace_required_size u') | Vertical \<Rightarrow> snd (workspace_required_size u'))
      in SplitNode a (clamp_ratio (size1 / (size1 + size2))) t' u')"

definition balance_workspace_sizes :: "session_layout \<Rightarrow> session_layout" where
  "balance_workspace_sizes l = (case laTree l of None \<Rightarrow> l | Some t \<Rightarrow> l\<lparr>laTree := Some (balance t)\<rparr>)"

definition close_other_workspace_sessions :: "session_layout \<Rightarrow> session_id \<Rightarrow> session_layout" where
  "close_other_workspace_sessions l i =
     (if i \<notin> set (laOpen l) then l
      else l\<lparr>laOpen := [i], laFocused := i, laMode := Tabs, laTree := Some (LeafNode i)\<rparr>)"

definition open_workspace_session :: "session_layout \<Rightarrow> session_id \<Rightarrow> session_layout" where
  "open_workspace_session l i =
     (if \<not> valid_id i then l
      else if i \<in> set (laOpen l) then l\<lparr>laFocused := i\<rparr>
      else if max_open_panels \<le> length (laOpen l) then l
      else
        (let tree = append_tree (laTree l) i
         in l\<lparr>laOpen := (if laMode l = SplitMode then ids_of tree else laOpen l @ [i]),
              laFocused := i, laTree := tree\<rparr>))"

fun remove_node :: "workspace_node \<Rightarrow> session_id \<Rightarrow> workspace_node option" where
  "remove_node (LeafNode j) i = (if j = i then None else Some (LeafNode j))"
| "remove_node (SplitNode a r t u) i = combine a r (remove_node t i) (remove_node u i)"

fun index_in :: "'a list \<Rightarrow> 'a \<Rightarrow> nat option" where
  "index_in [] x = None"
| "index_in (y # ys) x = (if y = x then Some 0 else map_option Suc (index_in ys x))"

definition nth_or :: "session_id list \<Rightarrow> nat \<Rightarrow> session_id" where
  "nth_or ids n = (if n < length ids then ids ! n else [])"

definition close_workspace_session :: "session_layout \<Rightarrow> session_id \<Rightarrow> session_layout" where
  "close_workspace_session l i =
     (case index_in (laOpen l) i of
        None \<Rightarrow> l
      | Some n \<Rightarrow>
          (let ids = filter (\<lambda>j. j \<noteq> i) (laOpen l) in
           l\<lparr>laOpen := ids,
             laTree := (case laTree l of None \<Rightarrow> None | Some t \<Rightarrow> remove_node t i),
             laFocused := (if laFocused l = i then nth_or ids (min n (length ids - 1)) else laFocused l),
             laMode := (if length ids < 2 then Tabs else laMode l)\<rparr>))"

fun swap_ids :: "session_id \<Rightarrow> session_id \<Rightarrow> workspace_node \<Rightarrow> workspace_node" where
  "swap_ids i j (LeafNode k) = LeafNode (if k = i then j else if k = j then i else k)"
| "swap_ids i j (SplitNode a r t u) = SplitNode a r (swap_ids i j t) (swap_ids i j u)"

text \<open>\<open>forward\<close> is the direction 1, its negation the direction -1.\<close>

definition move_workspace_session :: "session_layout \<Rightarrow> session_id \<Rightarrow> bool \<Rightarrow> session_layout" where
  "move_workspace_session l i forward =
     (case index_in (laOpen l) i of
        None \<Rightarrow> l
      | Some n \<Rightarrow>
          if (if forward then length (laOpen l) \<le> Suc n else n = 0) then l
          else
            (let next = (if forward then Suc n else n - 1); other = laOpen l ! next
             in l\<lparr>laOpen := (laOpen l)[n := other, next := laOpen l ! n],
                  laTree := map_option (swap_ids i other) (laTree l)\<rparr>))"

fun replace_leaf :: "workspace_node \<Rightarrow> session_id \<Rightarrow> session_id \<Rightarrow> split_axis \<Rightarrow> workspace_node" where
  "replace_leaf (LeafNode k) source target axis =
     (if k = source then SplitNode axis (1 / 2) (LeafNode k) (LeafNode target) else LeafNode k)"
| "replace_leaf (SplitNode a r t u) source target axis =
     SplitNode a r (replace_leaf t source target axis) (replace_leaf u source target axis)"

definition split_workspace_session ::
  "session_layout \<Rightarrow> session_id \<Rightarrow> session_id \<Rightarrow> split_axis \<Rightarrow> session_layout" where
  "split_workspace_session l source target axis =
     (case laTree l of
        None \<Rightarrow> l
      | Some t \<Rightarrow>
          if source = target \<or> source \<notin> set (laOpen l) \<or> target \<notin> set (laOpen l) then l
          else
            (case remove_node t target of
               None \<Rightarrow> l
             | Some rest \<Rightarrow>
                 (let tree = replace_leaf rest source target axis
                  in l\<lparr>laOpen := tree_ids tree, laMode := SplitMode, laFocused := target, laTree := Some tree\<rparr>)))"

fun map_node :: "workspace_node \<Rightarrow> string \<Rightarrow> string \<Rightarrow> (rat \<Rightarrow> rat) \<Rightarrow> workspace_node" where
  "map_node (LeafNode k) path target f = LeafNode k"
| "map_node (SplitNode a r t u) path target f =
     (if path = target then SplitNode a (f r) t u
      else SplitNode a r (map_node t (path @ ''0'') target f) (map_node u (path @ ''1'') target f))"

definition resize_workspace_split :: "session_layout \<Rightarrow> string \<Rightarrow> number \<Rightarrow> session_layout" where
  "resize_workspace_split l path ratio =
     (case (laTree l, ratio) of
        (Some t, Fin q) \<Rightarrow> l\<lparr>laTree := Some (map_node t '''' path (\<lambda>r. clamp_ratio q))\<rparr>
      | _ \<Rightarrow> l)"

section \<open>Geometry\<close>

definition divider_at :: "split_axis \<Rightarrow> rat \<Rightarrow> workspace_rect \<Rightarrow> string \<Rightarrow> workspace_divider" where
  "divider_at a ratio r path =
     (case a of
        Horizontal \<Rightarrow>
          \<lparr>dvPath = path, dvAxis = a, dvX = rcX r + rcWidth r * ratio, dvY = rcY r, dvWidth = 0,
           dvHeight = rcHeight r, dvRatio = ratio, dvParentWidth = rcWidth r, dvParentHeight = rcHeight r\<rparr>
      | Vertical \<Rightarrow>
          \<lparr>dvPath = path, dvAxis = a, dvX = rcX r, dvY = rcY r + rcHeight r * ratio, dvWidth = rcWidth r,
           dvHeight = 0, dvRatio = ratio, dvParentWidth = rcWidth r, dvParentHeight = rcHeight r\<rparr>)"

definition first_rect :: "split_axis \<Rightarrow> rat \<Rightarrow> workspace_rect \<Rightarrow> workspace_rect" where
  "first_rect a ratio r =
     (case a of Horizontal \<Rightarrow> r\<lparr>rcWidth := rcWidth r * ratio\<rparr>
      | Vertical \<Rightarrow> r\<lparr>rcHeight := rcHeight r * ratio\<rparr>)"

definition second_rect :: "split_axis \<Rightarrow> rat \<Rightarrow> workspace_rect \<Rightarrow> workspace_rect" where
  "second_rect a ratio r =
     (case a of
        Horizontal \<Rightarrow> r\<lparr>rcX := rcX r + rcWidth r * ratio, rcWidth := rcWidth r - rcWidth r * ratio\<rparr>
      | Vertical \<Rightarrow> r\<lparr>rcY := rcY r + rcHeight r * ratio, rcHeight := rcHeight r - rcHeight r * ratio\<rparr>)"

type_synonym geometry = "(session_id, workspace_rect) jsmap \<times> workspace_divider list"

fun visit_node :: "workspace_node \<Rightarrow> workspace_rect \<Rightarrow> string \<Rightarrow> geometry \<Rightarrow> geometry" where
  "visit_node (LeafNode i) rect path (panels, dividers) = (AList.update i rect panels, dividers)"
| "visit_node (SplitNode a r t u) rect path g =
     (let ratio = clamp_ratio r;
          (panels, dividers) =
            visit_node u (second_rect a ratio rect) (path @ ''1'')
              (visit_node t (first_rect a ratio rect) (path @ ''0'') g)
      in (panels, dividers @ [divider_at a ratio rect path]))"

definition full_rect :: workspace_rect where
  "full_rect = \<lparr>rcX = 0, rcY = 0, rcWidth = 100, rcHeight = 100\<rparr>"

definition workspace_geometry :: "workspace_node option \<Rightarrow> geometry" where
  "workspace_geometry t = (case t of None \<Rightarrow> ([], []) | Some n \<Rightarrow> visit_node n full_rect '''' ([], []))"

end
