(* ===== verification/LayoutFacts.thy ===== *)
theory LayoutFacts
  imports Layout "HOL-Library.Multiset"
begin

text \<open>
  Facts about the session workspace: what every operation keeps of a layout, that a stored layout is
  read back as it was, and what the geometry of its tree is.
\<close>

section \<open>Trees\<close>

lemma tree_ids_nonempty [simp]: "tree_ids t \<noteq> []"
  by (induction t) auto

lemma leaf_count_length: "leaf_count t = length (tree_ids t)"
  by (induction t) auto

lemma append_node_ids: "mset (tree_ids (append_node t i)) = add_mset i (mset (tree_ids t))"
  by (induction t) auto

lemma append_tree_ids: "mset (ids_of (append_tree t i)) = add_mset i (mset (ids_of t))"
  by (cases t) (simp_all add: append_tree_def ids_of_def append_node_ids)

lemma append_trees_ids: "mset (ids_of (foldl append_tree t is)) = mset (ids_of t) + mset is"
  by (induction "is" arbitrary: t) (simp_all add: append_tree_ids)

lemma combine_ids: "ids_of (combine a r x y) = ids_of x @ ids_of y"
  by (auto simp: combine_def ids_of_def split: option.split)

lemma remove_node_ids: "ids_of (remove_node t i) = filter (\<lambda>j. j \<noteq> i) (tree_ids t)"
  by (induction t) (auto simp: combine_ids, auto simp: ids_of_def)

lemma swap_node_ids: "tree_ids (swap_ids i j t) = map (\<lambda>k. if k = i then j else if k = j then i else k) (tree_ids t)"
  by (induction t) auto

lemma replace_leaf_ids:
  "count_list (tree_ids t) source = 1 \<Longrightarrow>
   mset (tree_ids (replace_leaf t source target axis)) = add_mset target (mset (tree_ids t))"
proof (induction t)
  case (SplitNode a r t u)
  have absent: "source \<notin> set (tree_ids v) \<Longrightarrow> replace_leaf v source target axis = v" for v
    by (induction v) auto
  from SplitNode.prems have "count_list (tree_ids t) source = 1 \<and> count_list (tree_ids u) source = 0 \<or>
      count_list (tree_ids t) source = 0 \<and> count_list (tree_ids u) source = 1" by simp arith
  then show ?case using SplitNode absent [of t] absent [of u] by (auto simp: count_list_0_iff)
qed (simp split: if_splits)

lemma map_node_ids [simp]: "tree_ids (map_node t path target f) = tree_ids t"
  by (induction t arbitrary: path) auto

lemma balance_ids [simp]: "tree_ids (balance t) = tree_ids t"
  by (induction t) (simp_all add: Let_def)

lemma arranged_tree_short [simp]:
  "arranged_tree [] axis = None" "arranged_tree [i] axis = Some (LeafNode i)"
  by (subst arranged_tree.simps, simp)+

lemma arranged_tree_ids: "ids_of (arranged_tree ids axis) = ids \<and> (arranged_tree ids axis = None \<longleftrightarrow> ids = [])"
proof (induction ids axis rule: arranged_tree.induct)
  case (1 ids axis)
  show ?case
  proof (cases "length ids < 2")
    case True
    then show ?thesis
      by (cases ids; cases "tl ids") (auto simp: ids_of_def)
  next
    case False
    then obtain i j rest where ids: "ids = i # j # rest" by (cases ids; cases "tl ids") auto
    let ?m = "(length ids + 1) div 2"
    have ne: "take ?m ids \<noteq> []" "drop ?m ids \<noteq> []" using ids by auto
    have 1: "ids_of (arranged_tree (take ?m ids) axis) = take ?m ids"
      "ids_of (arranged_tree (drop ?m ids) axis) = drop ?m ids"
      "arranged_tree (take ?m ids) axis \<noteq> None" "arranged_tree (drop ?m ids) axis \<noteq> None"
      using "1.IH" [OF ids refl refl] ne by auto
    then obtain t u where tu: "arranged_tree (take ?m ids) axis = Some t"
      "arranged_tree (drop ?m ids) axis = Some u" by auto
    then have "arranged_tree ids axis = Some (SplitNode axis (of_nat ?m / of_nat (length ids)) t u)"
      by (subst arranged_tree.simps) (simp add: ids Let_def)
    moreover have "tree_ids t @ tree_ids u = ids"
      using 1 tu append_take_drop_id [of ?m ids] by (simp add: ids_of_def)
    ultimately show ?thesis using ids by (simp add: ids_of_def)
  qed
qed

section \<open>Ratios\<close>

definition ratio_ok :: "rat \<Rightarrow> bool" where
  "ratio_ok r = (2 / 10 \<le> r \<and> r \<le> 8 / 10)"

fun ratios_ok :: "workspace_node \<Rightarrow> bool" where
  "ratios_ok (LeafNode i) = True"
| "ratios_ok (SplitNode a r t u) = (ratio_ok r \<and> ratios_ok t \<and> ratios_ok u)"

definition tree_ok :: "workspace_node option \<Rightarrow> bool" where
  "tree_ok t = (case t of None \<Rightarrow> True | Some n \<Rightarrow> ratios_ok n)"

lemma clamp_ratio_ok [simp]: "ratio_ok (clamp_ratio r)"
  by (auto simp: clamp_ratio_def ratio_ok_def)

lemma ratio_ok_bounds: "ratio_ok r \<Longrightarrow> 0 < r \<and> r < 1"
  by (auto simp: ratio_ok_def)

lemma clamp_ratio_pos [simp]: "0 < clamp_ratio r" "clamp_ratio r < 1"
  using ratio_ok_bounds [OF clamp_ratio_ok [of r]] by simp_all

lemma clamp_ratio_id [simp]: "ratio_ok r \<Longrightarrow> clamp_ratio r = r"
  by (simp add: clamp_ratio_def ratio_ok_def)

lemma half_ratio_ok [simp]: "ratio_ok (1 / 2)"
  by (simp add: ratio_ok_def)

lemma clamp_number_ok [simp]: "ratio_ok (clamp_number n)"
  by (cases n) (simp_all add: clamp_number_def, simp_all add: ratio_ok_def)

lemma append_node_ok: "ratios_ok t \<Longrightarrow> ratios_ok (append_node t i)"
  by (induction t) auto

lemma append_tree_ok: "tree_ok t \<Longrightarrow> tree_ok (append_tree t i)"
  by (cases t) (simp_all add: append_tree_def tree_ok_def append_node_ok)

lemma append_trees_ok: "tree_ok t \<Longrightarrow> tree_ok (foldl append_tree t is)"
  by (rule foldl_invariant) (simp_all add: append_tree_ok)

lemma combine_ok: "tree_ok x \<Longrightarrow> tree_ok y \<Longrightarrow> ratio_ok r \<Longrightarrow> tree_ok (combine a r x y)"
  by (auto simp: combine_def tree_ok_def split: option.split)

lemma remove_node_ok: "ratios_ok t \<Longrightarrow> tree_ok (remove_node t i)"
  by (induction t) (auto intro: combine_ok, auto simp: tree_ok_def)

lemma swap_ids_ok [simp]: "ratios_ok (swap_ids i j t) = ratios_ok t"
  by (induction t) auto

lemma replace_leaf_ok: "ratios_ok t \<Longrightarrow> ratios_ok (replace_leaf t source target axis)"
  by (induction t) auto

lemma map_node_ok: "ratios_ok t \<Longrightarrow> (\<And>r. ratio_ok (f r)) \<Longrightarrow> ratios_ok (map_node t path target f)"
  by (induction t arbitrary: path) auto

lemma balance_ok: "ratios_ok (balance t)"
  by (induction t) (simp_all add: Let_def)

lemma arranged_ratio:
  assumes "2 \<le> n"
  shows "ratio_ok (of_nat ((n + 1) div 2) / of_nat n)"
proof -
  have "2 * n \<le> 10 * ((n + 1) div 2)" and "10 * ((n + 1) div 2) \<le> 8 * n" using assms by presburger+
  then have "(of_nat (2 * n) :: rat) \<le> of_nat (10 * ((n + 1) div 2))"
    "(of_nat (10 * ((n + 1) div 2)) :: rat) \<le> of_nat (8 * n)" unfolding of_nat_le_iff by simp_all
  moreover have "(0 :: rat) < of_nat n" using assms by simp
  ultimately show ?thesis unfolding ratio_ok_def by (simp add: field_simps)
qed

lemma arranged_tree_ok: "tree_ok (arranged_tree ids axis)"
proof (induction ids axis rule: arranged_tree.induct)
  case (1 ids axis)
  show ?case
  proof (cases "length ids < 2")
    case True
    then show ?thesis
      by (cases ids; cases "tl ids") (auto simp: tree_ok_def)
  next
    case False
    then obtain i j rest where ids: "ids = i # j # rest" by (cases ids; cases "tl ids") auto
    from "1.IH" [OF ids refl refl] False arranged_ratio [of "length ids"] show ?thesis
      by (subst arranged_tree.simps) (auto simp: ids Let_def tree_ok_def split: option.splits)
  qed
qed

section \<open>A stored tree\<close>

lemma parse_node_seen:
  "parse_node h allowed fuel v seen = (t, seen') \<Longrightarrow>
   seen' = rev (ids_of t) @ seen \<and> distinct (ids_of t) \<and> set (ids_of t) \<inter> set seen = {} \<and>
   set (ids_of t) \<subseteq> set allowed \<and> list_all valid_id (ids_of t) \<and> tree_ok t"
proof (induction fuel arbitrary: v seen t seen')
  case 0
  then show ?case by (simp add: ids_of_def tree_ok_def)
next
  case (Suc fuel)
  have none: ?case if "(None, seen) = (t, seen')" using that by (auto simp: ids_of_def tree_ok_def)
  have split: ?case if "\<not> (getp v ''type'' \<noteq> Str (js ''split''))" "parse_axis (getp v ''axis'') = Some a"
      "(case parse_node h allowed fuel (getp v ''first'') seen of (first, seen1) \<Rightarrow>
         (case parse_node h allowed fuel (getp v ''second'') seen1 of (second, seen2) \<Rightarrow>
            (combine a (clamp_number (js_number h (getp v ''ratio''))) first second, seen2))) = (t, seen')" for a
  proof -
    obtain x s1 where x: "parse_node h allowed fuel (getp v ''first'') seen = (x, s1)" by force
    obtain y s2 where y: "parse_node h allowed fuel (getp v ''second'') s1 = (y, s2)" by force
    have t: "t = combine a (clamp_number (js_number h (getp v ''ratio''))) x y" "seen' = s2"
      using that(3) by (simp_all add: x y)
    from Suc.IH [OF x] Suc.IH [OF y] show ?thesis
      by (auto simp: t combine_ids intro!: combine_ok)
  qed
  show ?case
  proof (cases "is_record v \<or> is_array v")
    case False
    then show ?thesis using Suc.prems none by simp
  next
    case True
    show ?thesis
    proof (cases "if getp v ''type'' = Str (js ''leaf'') then getp v ''id'' else Undef")
      case (Str i)
      show ?thesis
      proof (cases "valid_id i \<and> i \<in> set allowed \<and> i \<notin> set seen")
        case ok: True
        then have "t = Some (LeafNode i)" "seen' = i # seen" using Suc.prems True Str by simp_all
        then show ?thesis using ok by (simp add: ids_of_def tree_ok_def)
      next
        case bad: False
        then have "(None, seen) = (t, seen')" using Suc.prems True Str by (auto split: if_splits)
        then show ?thesis by (rule none)
      qed
    qed (use Suc.prems True none split in \<open>auto split: if_splits option.splits\<close>)
  qed
qed

lemma complete_tree_ids:
  assumes "distinct ids"
  shows "mset (ids_of (complete_tree h v ids)) = mset ids \<and> tree_ok (complete_tree h v ids)"
proof -
  obtain t seen where p: "parse_node h ids (Suc max_open_panels) v [] = (t, seen)" by force
  note s = parse_node_seen [OF p]
  have "mset (ids_of t) + mset (filter (\<lambda>i. i \<notin> set seen) ids) = mset (ids_of t @ filter (\<lambda>i. i \<notin> set seen) ids)"
    by simp
  also have "\<dots> = mset ids"
    using s assms by (subst set_eq_iff_mset_eq_distinct [symmetric]) auto
  finally show ?thesis
    using s by (simp add: complete_tree_def p append_trees_ids append_trees_ok del: parse_node.simps)
qed

section \<open>The invariant\<close>

definition layout_ok :: "session_layout \<Rightarrow> bool" where
  "layout_ok l = (distinct (laOpen l) \<and> list_all valid_id (laOpen l) \<and> length (laOpen l) \<le> max_open_panels \<and>
     mset (ids_of (laTree l)) = mset (laOpen l) \<and> tree_ok (laTree l) \<and>
     (if laOpen l = [] then laFocused l = [] else laFocused l \<in> set (laOpen l)))"

text \<open>In split mode the tabs are in the order of the leaves.\<close>

definition tab_order :: "session_layout \<Rightarrow> bool" where
  "tab_order l = (laMode l = SplitMode \<longrightarrow> laOpen l = ids_of (laTree l))"

lemma js_unique_set [simp]: "set (js_unique xs) = set xs"
  by (induction xs) auto

lemma js_unique_distinct [simp]: "distinct (js_unique xs)"
  by (induction xs) auto

lemma js_unique_id: "distinct xs \<Longrightarrow> js_unique xs = xs"
  by (induction xs) (auto simp: filter_id_conv)

lemma string_ids_valid: "list_all valid_id (string_ids vs)"
  by (induction vs rule: string_ids.induct) auto

lemma restored_ids_ok:
  "distinct (restored_ids vs selected) \<and> list_all valid_id (restored_ids vs selected) \<and>
   length (restored_ids vs selected) \<le> max_open_panels \<and> (valid_id selected \<longrightarrow> selected \<in> set (restored_ids vs selected))"
proof -
  let ?ids = "take max_open_panels (js_unique (string_ids vs))"
  have ids: "distinct ?ids" "list_all valid_id ?ids" "length ?ids \<le> max_open_panels"
    using string_ids_valid [of vs] by (auto simp: list_all_iff dest: in_set_takeD)
  moreover have "distinct (butlast ?ids)" "set (butlast ?ids) \<subseteq> set ?ids"
    using ids(1) by (auto simp: distinct_butlast dest: in_set_butlastD)
  moreover have "max_open_panels \<le> length ?ids \<Longrightarrow> length (butlast ?ids) + 1 \<le> max_open_panels"
    using ids(3) by (simp add: max_open_panels_def)
  ultimately show ?thesis
    unfolding restored_ids_def Let_def
    by (cases "valid_id selected \<and> selected \<notin> set ?ids"; cases "max_open_panels \<le> length ?ids")
      (auto simp: list_all_iff)
qed

lemma restored_focus_ok:
  "if ids = [] then restored_focus v ids selected = [] else restored_focus v ids selected \<in> set ids"
  by (auto simp: restored_focus_def split: jsval.split list.split)

lemma fallback_ok: "layout_ok (fallback_layout selected)"
  by (simp add: fallback_layout_def layout_ok_def ids_of_def tree_ok_def max_open_panels_def)

lemma restore_ok: "layout_ok (restore_workspace_layout h value selected)"
proof -
  have appended: "mset (ids_of (foldl append_tree None ids)) = mset ids \<and> tree_ok (foldl append_tree None ids)" for ids
    using append_trees_ids [of None ids] append_trees_ok [of None ids] by (simp add: ids_of_def tree_ok_def)
  have "layout_ok \<lparr>laOpen = restored_ids vs selected, laFocused = restored_focus f (restored_ids vs selected) selected,
      laMode = m, laTree = (if b then complete_tree h v (restored_ids vs selected)
                            else foldl append_tree None (restored_ids vs selected))\<rparr>" for vs f m b v
    using restored_ids_ok [of vs selected] restored_focus_ok [of "restored_ids vs selected" f selected]
      appended [of "restored_ids vs selected"] complete_tree_ids [of "restored_ids vs selected" h v]
    by (cases b; simp only: layout_ok_def session_layout.select_convs if_True if_False; blast)
  then show ?thesis
    using fallback_ok [of selected]
    by (auto simp: restore_workspace_layout_def Let_def split: option.split jsval.split)
qed

section \<open>Operations\<close>

datatype layout_op =
  LoOpen session_id
| LoClose session_id
| LoCloseOthers session_id
| LoMove session_id bool
| LoSplit session_id session_id split_axis
| LoResize string number
| LoArrange split_axis
| LoBalance

fun layout_step :: "session_layout \<Rightarrow> layout_op \<Rightarrow> session_layout" where
  "layout_step l (LoOpen i) = open_workspace_session l i"
| "layout_step l (LoClose i) = close_workspace_session l i"
| "layout_step l (LoCloseOthers i) = close_other_workspace_sessions l i"
| "layout_step l (LoMove i forward) = move_workspace_session l i forward"
| "layout_step l (LoSplit source target axis) = split_workspace_session l source target axis"
| "layout_step l (LoResize path ratio) = resize_workspace_split l path ratio"
| "layout_step l (LoArrange axis) = arrange_workspace_sessions l axis"
| "layout_step l LoBalance = balance_workspace_sizes l"

lemma index_in_Some: "index_in xs x = Some n \<Longrightarrow> n < length xs \<and> xs ! n = x"
  by (induction xs arbitrary: n) (auto split: if_splits)

lemma index_in_None: "index_in xs x = None \<longleftrightarrow> x \<notin> set xs"
  by (induction xs) auto

lemma mset_set: "mset xs = mset ys \<Longrightarrow> set xs = set ys"
  by (rule mset_eq_setD)

lemma open_ok:
  assumes l: "layout_ok l"
  shows "layout_ok (open_workspace_session l i) \<and> (tab_order l \<longrightarrow> tab_order (open_workspace_session l i))"
proof (cases "valid_id i \<and> i \<notin> set (laOpen l) \<and> \<not> max_open_panels \<le> length (laOpen l)")
  case True
  let ?t = "append_tree (laTree l) i"
  have m: "mset (ids_of ?t) = mset (laOpen l @ [i])"
    using l by (simp add: append_tree_ids layout_ok_def)
  have "distinct (laOpen l @ [i])" "list_all valid_id (laOpen l @ [i])" "length (laOpen l @ [i]) \<le> max_open_panels"
    using l True by (auto simp: layout_ok_def)
  then have "distinct (ids_of ?t)" "list_all valid_id (ids_of ?t)" "length (ids_of ?t) \<le> max_open_panels"
    "i \<in> set (ids_of ?t)"
    using m mset_eq_length [OF m] mset_set [OF m] by (auto simp: list_all_iff mset_eq_imp_distinct_iff [OF m])
  then show ?thesis
    using l True m append_tree_ok [of "laTree l" i]
    by (auto simp: open_workspace_session_def layout_ok_def tab_order_def Let_def)
qed (use l in \<open>auto simp: open_workspace_session_def layout_ok_def tab_order_def\<close>)

lemma ids_of_remove: "ids_of (case t of None \<Rightarrow> None | Some n \<Rightarrow> remove_node n i) = filter (\<lambda>j. j \<noteq> i) (ids_of t)"
  by (cases t) (simp_all add: remove_node_ids, simp_all add: ids_of_def)

lemma close_ok:
  assumes l: "layout_ok l"
  shows "layout_ok (close_workspace_session l i) \<and> (tab_order l \<longrightarrow> tab_order (close_workspace_session l i))"
proof (cases "index_in (laOpen l) i")
  case (Some n)
  let ?ids = "filter (\<lambda>j. j \<noteq> i) (laOpen l)"
  have m: "mset (filter (\<lambda>j. j \<noteq> i) (ids_of (laTree l))) = mset ?ids"
    using l by (simp add: layout_ok_def)
  have t: "tree_ok (case laTree l of None \<Rightarrow> None | Some n \<Rightarrow> remove_node n i)"
    using l by (auto simp: layout_ok_def tree_ok_def [of "laTree l"] intro: remove_node_ok split: option.split)
      (simp add: tree_ok_def)
  have f: "if ?ids = [] then nth_or ?ids (min n (length ?ids - 1)) = [] else
      nth_or ?ids (min n (length ?ids - 1)) \<in> set ?ids"
  proof -
    have "?ids \<noteq> [] \<Longrightarrow> min n (length ?ids - 1) < length ?ids" by (cases ?ids) auto
    then show ?thesis by (auto simp: nth_or_def intro!: nth_mem simp del: set_filter)
  qed
  have "length ?ids \<le> max_open_panels"
    using l length_filter_le [of "\<lambda>j. j \<noteq> i" "laOpen l"] unfolding layout_ok_def by linarith
  moreover have foc: "laFocused l \<noteq> i \<Longrightarrow> laFocused l \<in> set ?ids"
    using l index_in_Some [OF Some] by (cases "laOpen l = []") (auto simp: layout_ok_def)
  moreover have "laFocused l \<noteq> i \<Longrightarrow> ?ids \<noteq> []" using foc by (metis length_pos_if_in_set list.size(3) less_irrefl)
  moreover have "distinct ?ids" "list_all valid_id ?ids" using l by (auto simp: layout_ok_def list_all_iff)
  ultimately have "layout_ok (close_workspace_session l i)"
    using m t f by (auto simp: close_workspace_session_def Some Let_def layout_ok_def ids_of_remove)
  then show ?thesis
    by (auto simp: tab_order_def close_workspace_session_def Some Let_def ids_of_remove)
qed (use l in \<open>simp add: close_workspace_session_def\<close>)

definition swap :: "'a \<Rightarrow> 'a \<Rightarrow> 'a \<Rightarrow> 'a" where
  "swap i j k = (if k = i then j else if k = j then i else k)"

lemma swap_inj: "inj (swap i j)"
  by (auto simp: swap_def inj_def split: if_splits)

lemma update_swap:
  assumes "distinct xs" "n < length xs" "m < length xs"
  shows "xs[n := xs ! m, m := xs ! n] = map (swap (xs ! n) (xs ! m)) xs"
  using assms by (intro nth_equalityI) (auto simp: nth_list_update swap_def nth_eq_iff_index_eq)

lemma swap_tree_ids: "ids_of (map_option (swap_ids i j) t) = map (swap i j) (ids_of t)"
  by (cases t) (simp_all add: ids_of_def swap_node_ids swap_def)

lemma move_ok:
  assumes l: "layout_ok l"
  shows "layout_ok (move_workspace_session l i forward) \<and>
    (tab_order l \<longrightarrow> tab_order (move_workspace_session l i forward))"
proof (cases "index_in (laOpen l) i")
  case (Some n)
  show ?thesis
  proof (cases "if forward then length (laOpen l) \<le> Suc n else n = 0")
    case False
    let ?m = "if forward then Suc n else n - 1"
    let ?j = "laOpen l ! ?m"
    have n: "n < length (laOpen l)" "laOpen l ! n = i" "?m < length (laOpen l)"
      using index_in_Some [OF Some] False by auto
    have ids: "(laOpen l)[n := ?j, ?m := laOpen l ! n] = map (swap i ?j) (laOpen l)"
      using update_swap [OF _ n(1,3)] l n(2) by (simp add: layout_ok_def)
    have same: "set (map (swap i ?j) (laOpen l)) = set (laOpen l)"
      using n nth_mem [OF n(1)] nth_mem [OF n(3)] by (force simp: swap_def)
    have step: "move_workspace_session l i forward =
        l\<lparr>laOpen := map (swap i ?j) (laOpen l), laTree := map_option (swap_ids i ?j) (laTree l)\<rparr>"
      using False by (simp add: move_workspace_session_def Some Let_def ids)
    have "mset (map (swap i ?j) (ids_of (laTree l))) = mset (map (swap i ?j) (laOpen l))"
      using l by (simp add: layout_ok_def)
    moreover have "distinct (map (swap i ?j) (laOpen l))"
      using l by (simp add: layout_ok_def distinct_map inj_on_subset [OF swap_inj])
    moreover have "list_all valid_id (map (swap i ?j) (laOpen l))"
      using l same by (simp add: layout_ok_def list_all_iff)
    moreover have "tree_ok (map_option (swap_ids i ?j) (laTree l)) = tree_ok (laTree l)"
      by (cases "laTree l") (simp_all add: tree_ok_def)
    ultimately show ?thesis
      unfolding step using l same by (simp add: layout_ok_def tab_order_def swap_tree_ids)
  next
    case True
    then show ?thesis using l Some by (simp add: move_workspace_session_def)
  qed
qed (use l in \<open>simp add: move_workspace_session_def\<close>)

lemma split_ok:
  assumes l: "layout_ok l"
  shows "layout_ok (split_workspace_session l source target axis) \<and>
    (tab_order l \<longrightarrow> tab_order (split_workspace_session l source target axis))"
proof (cases "laTree l")
  case (Some t)
  show ?thesis
  proof (cases "source = target \<or> source \<notin> set (laOpen l) \<or> target \<notin> set (laOpen l) \<or> remove_node t target = None")
    case False
    then obtain rest where rest: "remove_node t target = Some rest" by auto
    have ids: "mset (tree_ids t) = mset (laOpen l)" "distinct (laOpen l)" "ratios_ok t"
      using l Some by (auto simp: layout_ok_def ids_of_def tree_ok_def)
    have r: "tree_ids rest = filter (\<lambda>j. j \<noteq> target) (tree_ids t)"
      using remove_node_ids [of t target] rest by (simp add: ids_of_def)
    have "distinct (tree_ids rest)" "source \<in> set (tree_ids rest)"
      using ids False mset_set [OF ids(1)] mset_eq_imp_distinct_iff [OF ids(1)] by (auto simp: r)
    then have "count_list (tree_ids rest) source = 1" by (simp add: count_list_eq_length_filter distinct_length_filter)
    moreover have "mset (tree_ids rest) = mset (laOpen l) - {#target#}"
    proof -
      have "tree_ids rest = remove1 target (tree_ids t)"
        using ids(2) mset_eq_imp_distinct_iff [OF ids(1)] unfolding r
        by (simp add: distinct_remove1_removeAll removeAll_filter_not_eq) (metis (full_types))
      then show ?thesis by (simp add: ids(1))
    qed
    ultimately have m: "mset (tree_ids (replace_leaf rest source target axis)) = mset (laOpen l)"
      using False by (simp add: replace_leaf_ids)
    have "ratios_ok rest" using remove_node_ok [OF ids(3), of target] rest by (simp add: tree_ok_def)
    then show ?thesis
      using l Some False rest m mset_set [OF m] mset_eq_length [OF m] mset_eq_imp_distinct_iff [OF m]
      by (auto simp: split_workspace_session_def layout_ok_def tab_order_def Let_def ids_of_def tree_ok_def
          list_all_iff replace_leaf_ok)
  next
    case True
    then show ?thesis using l Some by (auto simp: split_workspace_session_def)
  qed
qed (use l in \<open>simp add: split_workspace_session_def\<close>)

lemma layout_step_ok:
  assumes l: "layout_ok l"
  shows "layout_ok (layout_step l op) \<and> (tab_order l \<longrightarrow> tab_order (layout_step l op))"
proof (cases op)
  case (LoResize path ratio)
  then show ?thesis using l
    by (cases "laTree l"; cases ratio)
      (auto simp: resize_workspace_split_def layout_ok_def tab_order_def ids_of_def tree_ok_def map_node_ok)
next
  case (LoArrange axis)
  then show ?thesis using l arranged_tree_ids [of "laOpen l" axis]
    by (simp add: arrange_workspace_sessions_def layout_ok_def tab_order_def arranged_tree_ok)
next
  case LoBalance
  then show ?thesis using l
    by (cases "laTree l")
      (auto simp: balance_workspace_sizes_def layout_ok_def tab_order_def ids_of_def tree_ok_def balance_ok)
next
  case (LoCloseOthers i)
  then show ?thesis using l
    by (auto simp: close_other_workspace_sessions_def layout_ok_def tab_order_def ids_of_def tree_ok_def
        list_all_iff max_open_panels_def)
qed (use l open_ok close_ok move_ok split_ok in auto)

end
