(* ===== verification/LayoutGeometry.thy ===== *)
theory LayoutGeometry
  imports LayoutFacts Interfaces
begin

text \<open>
  The properties of the session workspace: every operation keeps a layout well formed, a saved layout is
  restored as it was, and the panels of a tree tile the workspace, are equal after an arrangement and
  large enough when the window has the required size.
\<close>

section \<open>Saving and restoring\<close>

fun depth_of :: "workspace_node \<Rightarrow> nat" where
  "depth_of (LeafNode i) = 1"
| "depth_of (SplitNode a r t u) = Suc (max (depth_of t) (depth_of u))"

lemma depth_le_leaves: "depth_of t \<le> length (tree_ids t)"
proof (induction t)
  case (SplitNode a r t u)
  have "0 < length (tree_ids t)" "0 < length (tree_ids u)" by simp_all
  with SplitNode show ?case unfolding depth_of.simps tree_ids.simps length_append by linarith
qed simp

lemma parse_node_json:
  assumes "depth_of t \<le> fuel" "distinct (tree_ids t)" "set (tree_ids t) \<inter> set seen = {}"
    "set (tree_ids t) \<subseteq> set allowed" "list_all valid_id (tree_ids t)" "ratios_ok t"
  shows "parse_node h allowed fuel (node_json t) seen = (Some t, rev (tree_ids t) @ seen)"
  using assms
proof (induction t arbitrary: fuel seen)
  case (LeafNode i)
  then obtain f where "fuel = Suc f" by (cases fuel) auto
  with LeafNode show ?case by (simp add: is_record_def)
next
  case (SplitNode a r t u)
  then obtain f where f: "fuel = Suc f" by (cases fuel) auto
  have 1: "parse_node h allowed f (node_json t) seen = (Some t, rev (tree_ids t) @ seen)"
    using SplitNode.prems f by (intro SplitNode.IH(1)) auto
  have 2: "parse_node h allowed f (node_json u) (rev (tree_ids t) @ seen) =
      (Some u, rev (tree_ids u) @ rev (tree_ids t) @ seen)"
    using SplitNode.prems f by (intro SplitNode.IH(2)) auto
  have "clamp_number (Fin r) = r"
    using SplitNode.prems(6) ratio_ok_bounds [of r] by (auto simp: clamp_number_def)
  moreover have "parse_axis (Str (case a of Horizontal \<Rightarrow> js ''horizontal'' | Vertical \<Rightarrow> js ''vertical'')) = Some a"
    by (cases a) (simp_all add: parse_axis_def)
  ultimately show ?case using 1 2 by (simp add: f is_record_def js_number_def combine_def)
qed

lemma complete_tree_json:
  assumes "layout_ok l" "laTree l = Some t"
  shows "complete_tree h (node_json t) (laOpen l) = Some t"
proof -
  have m: "mset (tree_ids t) = mset (laOpen l)" using assms by (simp add: layout_ok_def ids_of_def)
  have "depth_of t \<le> Suc max_open_panels" "distinct (tree_ids t)" "set (tree_ids t) \<subseteq> set (laOpen l)"
    "list_all valid_id (tree_ids t)" "ratios_ok t"
    using assms depth_le_leaves [of t] mset_eq_length [OF m] mset_set [OF m] mset_eq_imp_distinct_iff [OF m]
    by (auto simp: layout_ok_def list_all_iff tree_ok_def)
  then have "parse_node h (laOpen l) (Suc max_open_panels) (node_json t) [] = (Some t, rev (tree_ids t) @ [])"
    by (intro parse_node_json) auto
  moreover have "filter (\<lambda>i. i \<notin> set (rev (tree_ids t))) (laOpen l) = []"
    using mset_set [OF m] by (auto simp: filter_empty_conv)
  ultimately show ?thesis by (simp add: complete_tree_def del: parse_node.simps)
qed

lemma string_ids_strs: "list_all valid_id is \<Longrightarrow> string_ids (map Str is) = is"
  by (induction "is") auto

lemma restored_ids_same:
  assumes "layout_ok l" "selected \<in> set (laOpen l)"
  shows "restored_ids (map Str (laOpen l)) selected = laOpen l"
  using assms by (simp add: restored_ids_def layout_ok_def string_ids_strs js_unique_id)

text \<open>C30: A layout written by \<open>JSON.stringify\<close> and read back for one of its open sessions is the same
  layout with that session focused: the same tabs, mode and tree, every ratio included.\<close>

theorem saved_layout_restored:
  assumes "layout_ok l" and "selected \<in> set (laOpen l)"
    and "jhParse h text = Some (layout_json l)" and "text \<noteq> []"
  shows "restore_workspace_layout h (Some text) selected = l\<lparr>laFocused := selected\<rparr>"
proof -
  have "laTree l \<noteq> None" using assms(1,2) by (cases "laTree l") (auto simp: layout_ok_def ids_of_def)
  then obtain t where t: "laTree l = Some t" by auto
  have "layout_version (layout_json l) = Some 2" by (simp add: layout_version_def layout_json_def)
  moreover have "getp (layout_json l) ''openIds'' = Arr (map Str (laOpen l))"
    "getp (layout_json l) ''tree'' = node_json t"
    "(getp (layout_json l) ''mode'' = Str (js ''split'')) = (laMode l = SplitMode)"
    using t by (auto simp: layout_json_def split: workspace_mode.splits)
  ultimately show ?thesis
    using assms(2-4) t complete_tree_json [OF assms(1) t, of h]
    by (cases "laMode l") (simp_all add: restore_workspace_layout_def Let_def restored_ids_same [OF assms(1,2)]
        restored_focus_def)
qed

section \<open>Every operation keeps the layout well formed\<close>

definition keeps_order :: "session_layout \<Rightarrow> session_layout \<Rightarrow> bool" where
  "keeps_order l l' = (tab_order l \<longrightarrow> tab_order l')"

interpretation layouts: monitored_machine layout_step layout_ok keeps_order
  by unfold_locales (use layout_step_ok in \<open>auto simp: keeps_order_def\<close>)

text \<open>C31: Whatever text was stored, the restored layout and every layout after it, through any sequence of
  openings, closings, moves, splits, resizes, arrangements and balancings, has distinct valid tabs within
  the limit, a tree whose leaves are exactly the tabs with ratios between 0.2 and 0.8, and its focus on a
  tab; and once the tabs follow the leaves in split mode they keep doing so.\<close>

theorem layout_stays_well_formed:
  "let l0 = restore_workspace_layout h value selected; l = foldl layout_step l0 ops in
     layout_ok l \<and> (tab_order l0 \<longrightarrow> tab_order l)"
proof -
  have "layout_ok (restore_workspace_layout h value selected)" by (rule restore_ok)
  then show ?thesis
    using layouts.run_inv layouts.run_rel unfolding Let_def keeps_order_def by blast
qed

section \<open>Panels\<close>

fun rects :: "workspace_node \<Rightarrow> workspace_rect \<Rightarrow> (session_id, workspace_rect) jsmap" where
  "rects (LeafNode i) rect = [(i, rect)]"
| "rects (SplitNode a r t u) rect =
     rects t (first_rect a (clamp_ratio r) rect) @ rects u (second_rect a (clamp_ratio r) rect)"

lemma rects_ids [simp]: "map fst (rects t r) = tree_ids t"
  by (induction t arbitrary: r) auto

lemma visit_node_rects:
  "distinct (map fst ps @ tree_ids t) \<Longrightarrow> fst (visit_node t r path (ps, ds)) = ps @ rects t r"
proof (induction t arbitrary: r path ps ds)
  case (LeafNode i)
  then have "map_of ps i = None" by (auto simp: map_of_eq_None_iff)
  then show ?case by (simp add: jm_update_absent)
next
  case (SplitNode a q t u)
  let ?g = "visit_node t (first_rect a (clamp_ratio q) r) (path @ ''0'') (ps, ds)"
  have "fst ?g = ps @ rects t (first_rect a (clamp_ratio q) r)"
    using SplitNode.prems by (intro SplitNode.IH(1)) auto
  then obtain ds' where g: "?g = (ps @ rects t (first_rect a (clamp_ratio q) r), ds')"
    by (cases ?g) auto
  have "fst (visit_node u (second_rect a (clamp_ratio q) r) (path @ ''1'')
      (ps @ rects t (first_rect a (clamp_ratio q) r), ds')) =
      (ps @ rects t (first_rect a (clamp_ratio q) r)) @ rects u (second_rect a (clamp_ratio q) r)"
    using SplitNode.prems by (intro SplitNode.IH(2)) auto
  then show ?case by (cases "visit_node u (second_rect a (clamp_ratio q) r) (path @ ''1'')
      (ps @ rects t (first_rect a (clamp_ratio q) r), ds')") (simp add: Let_def g)
qed

lemma geometry_rects:
  assumes "layout_ok l" "laTree l = Some t"
  shows "fst (workspace_geometry (laTree l)) = rects t full_rect" "jm_wf (rects t full_rect)"
    "set (tree_ids t) = set (laOpen l)"
proof -
  have m: "mset (tree_ids t) = mset (laOpen l)" using assms by (simp add: layout_ok_def ids_of_def)
  then show "set (tree_ids t) = set (laOpen l)" by (rule mset_set)
  have "distinct (tree_ids t)" using mset_eq_imp_distinct_iff [OF m] assms by (simp add: layout_ok_def)
  then show "jm_wf (rects t full_rect)" "fst (workspace_geometry (laTree l)) = rects t full_rect"
    using visit_node_rects [of "[]" t full_rect "''''" "[]"] assms(2)
    by (simp_all add: jm_wf_def workspace_geometry_def)
qed

definition inside :: "workspace_rect \<Rightarrow> rat \<Rightarrow> rat \<Rightarrow> bool" where
  "inside r x y = (rcX r \<le> x \<and> x < rcX r + rcWidth r \<and> rcY r \<le> y \<and> y < rcY r + rcHeight r)"

lemma part_rects:
  assumes "0 \<le> rcWidth r" "0 \<le> rcHeight r" "0 < q" "q < 1"
  shows "0 \<le> rcWidth (first_rect a q r)" "0 \<le> rcHeight (first_rect a q r)"
    "0 \<le> rcWidth (second_rect a q r)" "0 \<le> rcHeight (second_rect a q r)"
    "inside r x y \<longleftrightarrow> inside (first_rect a q r) x y \<or> inside (second_rect a q r) x y"
    "\<not> (inside (first_rect a q r) x y \<and> inside (second_rect a q r) x y)"
proof -
  have w: "0 \<le> rcWidth r * q" "rcWidth r * q \<le> rcWidth r" "0 \<le> rcHeight r * q" "rcHeight r * q \<le> rcHeight r"
    using assms by (simp_all add: mult_left_le)
  then show "0 \<le> rcWidth (first_rect a q r)" "0 \<le> rcHeight (first_rect a q r)"
    "0 \<le> rcWidth (second_rect a q r)" "0 \<le> rcHeight (second_rect a q r)"
    using assms by (cases a; simp add: first_rect_def second_rect_def)+
  show "inside r x y \<longleftrightarrow> inside (first_rect a q r) x y \<or> inside (second_rect a q r) x y"
    "\<not> (inside (first_rect a q r) x y \<and> inside (second_rect a q r) x y)"
    using w by (cases a; auto simp: inside_def first_rect_def second_rect_def)+
qed

lemma rects_cover:
  "0 \<le> rcWidth r \<Longrightarrow> 0 \<le> rcHeight r \<Longrightarrow>
   length (filter (\<lambda>p. inside (snd p) x y) (rects t r)) = (if inside r x y then 1 else 0)"
proof (induction t arbitrary: r)
  case (SplitNode a q t u)
  note parts = part_rects [OF SplitNode.prems, of "clamp_ratio q"]
  show ?case using SplitNode.IH(1) [of "first_rect a (clamp_ratio q) r"]
      SplitNode.IH(2) [of "second_rect a (clamp_ratio q) r"] parts(1-4) [of a] parts(5) [of x y a] parts(6) [of a x y]
    by auto
qed simp

text \<open>The panels tile the workspace: they are those of the open sessions, and every point of the
  100 by 100 area lies in exactly one of them.\<close>

theorem panels_tile_workspace:
  assumes "layout_ok l" and "laTree l = Some t" and "0 \<le> x" "x < 100" "0 \<le> y" "y < 100"
  shows "fst ` set (fst (workspace_geometry (laTree l))) = set (laOpen l) \<and>
    (\<exists>!i. \<exists>r. map_of (fst (workspace_geometry (laTree l))) i = Some r \<and> inside r x y)"
proof -
  note g = geometry_rects [OF assms(1,2)]
  have "length (filter (\<lambda>p. inside (snd p) x y) (rects t full_rect)) = 1"
    using rects_cover [of full_rect x y t] assms by (simp add: full_rect_def inside_def)
  then obtain p where p: "filter (\<lambda>p. inside (snd p) x y) (rects t full_rect) = [p]"
    by (auto simp: length_Suc_conv)
  then have one: "q \<in> set (rects t full_rect) \<and> inside (snd q) x y \<longleftrightarrow> q = p" for q
  proof -
    have "q \<in> set (filter (\<lambda>p. inside (snd p) x y) (rects t full_rect)) \<longleftrightarrow> q = p" unfolding p by simp
    then show ?thesis by simp
  qed
  have "\<exists>!i. \<exists>r. map_of (rects t full_rect) i = Some r \<and> inside r x y"
  proof
    show "\<exists>r. map_of (rects t full_rect) (fst p) = Some r \<and> inside r x y"
      using one [of p] g(2) by (auto intro!: exI [of _ "snd p"] jm_in_get)
    show "i = fst p" if ex: "\<exists>r. map_of (rects t full_rect) i = Some r \<and> inside r x y" for i
    proof -
      obtain r where "(i, r) \<in> set (rects t full_rect)" "inside r x y" using ex by (auto dest: jm_get_in)
      with one [of "(i, r)"] show ?thesis by auto
    qed
  qed
  moreover have "fst ` set (rects t full_rect) = set (laOpen l)"
    using g(3) by (metis list.set_map rects_ids)
  ultimately show ?thesis by (simp add: g(1))
qed

section \<open>Sizes\<close>

lemma rects_required:
  assumes "fst (workspace_required_size t) \<le> rcWidth r * sx" "snd (workspace_required_size t) \<le> rcHeight r * sy"
    and "p \<in> set (rects t r)"
  shows "360 \<le> rcWidth (snd p) * sx \<and> 280 \<le> rcHeight (snd p) * sy"
  using assms
proof (induction t arbitrary: r)
  case (SplitNode a q t u)
  let ?q = "clamp_ratio q"
  obtain w1 h1 where 1: "workspace_required_size t = (w1, h1)" by force
  obtain w2 h2 where 2: "workspace_required_size u = (w2, h2)" by force
  have fits: "z1 \<le> s * ?q \<and> z2 \<le> s - s * ?q" if "of_int \<lceil>max (z1 / ?q) (z2 / (1 - ?q))\<rceil> \<le> s" for z1 z2 s :: rat
  proof -
    have "z1 / ?q \<le> s" "z2 / (1 - ?q) \<le> s"
      using that le_of_int_ceiling [of "max (z1 / ?q) (z2 / (1 - ?q))"] by linarith+
    then show ?thesis using clamp_ratio_pos [of q] by (simp add: pos_divide_le_eq) (simp add: algebra_simps)
  qed
  have "fst (workspace_required_size t) \<le> rcWidth (first_rect a ?q r) * sx \<and>
      snd (workspace_required_size t) \<le> rcHeight (first_rect a ?q r) * sy \<and>
      fst (workspace_required_size u) \<le> rcWidth (second_rect a ?q r) * sx \<and>
      snd (workspace_required_size u) \<le> rcHeight (second_rect a ?q r) * sy"
    using SplitNode.prems(1,2) fits [of w1 w2 "rcWidth r * sx"] fits [of h1 h2 "rcHeight r * sy"]
    by (cases a) (auto simp: 1 2 Let_def first_rect_def second_rect_def algebra_simps)
  then show ?case using SplitNode.IH SplitNode.prems(3) by auto
qed simp


lemma arranged_rects:
  assumes "arranged_tree ids axis = Some t" "p \<in> set (rects t r)"
  shows "(rcWidth (snd p), rcHeight (snd p)) =
    (case axis of Horizontal \<Rightarrow> (rcWidth r / of_nat (length ids), rcHeight r)
     | Vertical \<Rightarrow> (rcWidth r, rcHeight r / of_nat (length ids)))"
  using assms
proof (induction ids axis arbitrary: t r rule: arranged_tree.induct)
  case (1 ids axis)
  show ?case
  proof (cases "length ids < 2")
    case True
    then show ?thesis using "1.prems" by (cases ids; cases "tl ids") (auto split: split_axis.split)
  next
    case False
    then obtain i j rest where ids: "ids = i # j # rest" by (cases ids; cases "tl ids") auto
    define m n where m: "m = (length ids + 1) div 2" and n: "n = length ids"
    obtain t1 t2 where t12: "arranged_tree (take m ids) axis = Some t1" "arranged_tree (drop m ids) axis = Some t2"
      and t: "t = SplitNode axis (of_nat m / of_nat n) t1 t2"
      using "1.prems"(1) unfolding m n
      by (subst (asm) arranged_tree.simps) (auto simp: ids Let_def split: option.splits)
    define q :: rat where q: "q = of_nat m / of_nat n"
    have clamp: "clamp_ratio q = q" unfolding q m n using arranged_ratio [of "length ids"] False by simp
    have len: "length (take m ids) = m" "length (drop m ids) = n - m" "m < n" "0 < m"
      unfolding m n using ids by auto
    then have pos: "(0 :: rat) < of_nat n - of_nat m" "(0 :: rat) < of_nat n" "(0 :: rat) < of_nat m" by simp_all
    have share1: "z * q / of_nat m = z / of_nat n" for z using pos by (simp add: q)
    have share2: "(z - z * q) / of_nat (n - m) = z / of_nat n" for z
    proof -
      have "z - z * q = z * (of_nat n - of_nat m) / of_nat n" using pos(2) by (simp add: q field_simps)
      then show ?thesis using pos len(3) by (simp add: of_nat_diff)
    qed
    have "p \<in> set (rects t1 (first_rect axis q r)) \<or> p \<in> set (rects t2 (second_rect axis q r))"
      using "1.prems"(2) by (auto simp: t clamp [unfolded q] q)
    then show ?thesis
      using "1.IH"(1) [OF ids refl m t12(1)] "1.IH"(2) [OF ids refl m t12(2)] share1 share2 min.absorb2 [of m n] len(3)
      by (cases axis) (auto simp: len(1,2) first_rect_def second_rect_def n [symmetric])
  qed
qed

text \<open>After an arrangement of the open sessions along an axis every panel has the same share: all
  of one extent and an equal part of the other.\<close>

theorem arrangement_is_even:
  assumes "layout_ok l" and "map_of (fst (workspace_geometry (laTree (arrange_workspace_sessions l axis)))) i = Some r"
  shows "(rcWidth r, rcHeight r) =
    (case axis of Horizontal \<Rightarrow> (100 / of_nat (length (laOpen l)), 100)
     | Vertical \<Rightarrow> (100, 100 / of_nat (length (laOpen l))))"
proof -
  let ?l = "arrange_workspace_sessions l axis"
  have ok: "layout_ok ?l" using layout_step_ok [OF assms(1), of "LoArrange axis"] by simp
  have "laTree ?l \<noteq> None" using assms(2) by (cases "laTree ?l") (auto simp: workspace_geometry_def)
  then obtain t where t: "laTree ?l = Some t" by auto
  then have a: "arranged_tree (laOpen l) axis = Some t" by (simp add: arrange_workspace_sessions_def)
  have "(i, r) \<in> set (rects t full_rect)"
    using assms(2) geometry_rects(1) [OF ok t] by (simp add: jm_get_in)
  from arranged_rects [OF a this] show ?thesis by (simp add: full_rect_def split: split_axis.split)
qed

section \<open>A sample layout\<close>

definition sample_layout :: session_layout where
  "sample_layout = \<lparr>laOpen = [js ''a'', js ''b''], laFocused = js ''a'', laMode = SplitMode,
     laTree = Some (SplitNode Horizontal (1 / 2) (LeafNode (js ''a'')) (LeafNode (js ''b'')))\<rparr>"

definition sample_json_host :: json_host where
  "sample_json_host = \<lparr>jhParse = (\<lambda>s. Some (layout_json sample_layout)), jhNumber = (\<lambda>v. NaN)\<rparr>"

lemma sample_layout_ok: "layout_ok sample_layout"
  by (simp add: layout_ok_def sample_layout_def ids_of_def tree_ok_def valid_id_def id_unit_def max_open_panels_def)

lemma sample_tree: "laTree sample_layout = Some (SplitNode Horizontal (1 / 2) (LeafNode (js ''a'')) (LeafNode (js ''b'')))"
  by (simp add: sample_layout_def)

lemma sample_panels:
  "map_of (fst (workspace_geometry (laTree sample_layout))) (js ''b'') =
    Some \<lparr>rcX = 50, rcY = 0, rcWidth = 50, rcHeight = 100\<rparr>"
  by (simp add: sample_tree workspace_geometry_def Let_def second_rect_def first_rect_def full_rect_def)

theorem saved_layout_restored_witness:
  "restore_workspace_layout sample_json_host (Some (js ''saved'')) (js ''b'') = sample_layout\<lparr>laFocused := js ''b''\<rparr>"
  by (rule saved_layout_restored [OF sample_layout_ok]) (simp_all add: sample_layout_def sample_json_host_def)

definition sample_ops :: "layout_op list" where
  "sample_ops = [LoOpen (js ''b''), LoSplit (js ''a'') (js ''b'') Vertical, LoMove (js ''a'') True]"

theorem layout_stays_well_formed_witness:
  "layout_ok (foldl layout_step (restore_workspace_layout sample_json_host None (js ''a'')) sample_ops) \<and>
   tab_order (foldl layout_step (restore_workspace_layout sample_json_host None (js ''a'')) sample_ops)"
proof -
  have "tab_order (restore_workspace_layout sample_json_host None (js ''a''))"
    by (simp add: restore_workspace_layout_def layout_version_def fallback_layout_def tab_order_def)
  then show ?thesis
    using layout_stays_well_formed [of sample_json_host None "js ''a''" sample_ops] unfolding Let_def by blast
qed

theorem panels_tile_workspace_witness:
  "\<exists>!i. \<exists>r. map_of (fst (workspace_geometry (laTree sample_layout))) i = Some r \<and> inside r 70 30"
  using panels_tile_workspace [OF sample_layout_ok sample_tree, of 70 30] by simp


theorem arrangement_is_even_witness:
  "\<exists>r. map_of (fst (workspace_geometry (laTree (arrange_workspace_sessions sample_layout Vertical)))) (js ''b'') = Some r \<and>
    (rcWidth r, rcHeight r) = (100, 50)"
proof -
  have tree: "laTree (arrange_workspace_sessions sample_layout Vertical) =
      Some (SplitNode Vertical (1 / 2) (LeafNode (js ''a'')) (LeafNode (js ''b'')))"
    unfolding arrange_workspace_sessions_def by (simp add: sample_layout_def) (subst arranged_tree.simps, simp)
  then obtain r where "map_of (fst (workspace_geometry (laTree (arrange_workspace_sessions sample_layout Vertical))))
      (js ''b'') = Some r"
    by (simp add: workspace_geometry_def Let_def)
  with arrangement_is_even [OF sample_layout_ok this] show ?thesis by (simp add: sample_layout_def)
qed

end
