(* ===== verification/FuzzyMatch.thy ===== *)
theory FuzzyMatch
  imports JsValue
begin

text \<open>
  \<open>src/packages/agent/src/services/fuzzy-patch/matching.ts\<close>: the comparison of lines the fuzzy patch
  engine uses. The two-row table of \<open>editDistance\<close> is shown to be the least number of one-unit edits
  (insert, delete or replace one UTF-16 unit) that lead from one text to the other.
\<close>

section \<open>The code\<close>

text \<open>
  The inner loop of \<open>editDistance\<close> extends the row of \<open>t[j - 1]\<close> cell by cell; the outer loop keeps
  the previous row only.
\<close>

definition edit_cell :: "jstr \<Rightarrow> nat \<Rightarrow> nat list \<Rightarrow> nat list \<Rightarrow> nat \<Rightarrow> nat" where
  "edit_cell s u prev row i =
     min (min (prev ! i + 1) (row ! (i - 1) + 1))
       (prev ! (i - 1) + (if s ! (i - 1) = u then 0 else 1))"

definition edit_row :: "jstr \<Rightarrow> nat \<Rightarrow> nat \<Rightarrow> nat list \<Rightarrow> nat list" where
  "edit_row s u j prev =
     foldl (\<lambda>row i. row @ [edit_cell s u prev row i]) [j] [1..<Suc (length s)]"

definition edit_rows :: "jstr \<Rightarrow> jstr \<Rightarrow> nat list" where
  "edit_rows s t =
     foldl (\<lambda>prev j. edit_row s (t ! (j - 1)) j prev) [0..<Suc (length s)] [1..<Suc (length t)]"

definition edit_distance :: "jstr \<Rightarrow> jstr \<Rightarrow> nat" where
  "edit_distance a b =
     (if a = b then 0
      else if a = [] then length b
      else if b = [] then length a
      else let (s, t) = (if length a \<le> length b then (a, b) else (b, a)) in
        edit_rows s t ! length s)"

text \<open>\<open>replace(/\\s+/g, " ")\<close>\<close>

lemma dropWhile_shorter [termination_simp]: "length (dropWhile P xs) < Suc (length xs)"
  by (simp add: length_dropWhile_le less_Suc_eq_le)

fun collapse_blanks :: "jstr \<Rightarrow> jstr" where
  "collapse_blanks [] = []"
| "collapse_blanks (u # us) =
     (if js_blank u then 32 # collapse_blanks (dropWhile js_blank us) else u # collapse_blanks us)"

definition trim_end :: "jstr \<Rightarrow> jstr" where
  "trim_end s = rev (dropWhile js_blank (rev s))"

definition normalise_line :: "jstr \<Rightarrow> jstr" where
  "normalise_line line = collapse_blanks (trim_end line)"

definition fuzzy_match :: "jstr \<Rightarrow> jstr \<Rightarrow> rat \<Rightarrow> bool" where
  "fuzzy_match a b max_dist =
     (let na = normalise_line a; nb = normalise_line b in
      if na = nb then True
      else if of_int \<bar>int (length na) - int (length nb)\<bar> > max_dist * 2 then False
      else of_nat (edit_distance na nb) \<le> max_dist)"

section \<open>The specification: one edit at a time\<close>

definition one_edit :: "(jstr \<times> jstr) set" where
  "one_edit = {(p @ c @ q, p @ d @ q) | p c d q. length c \<le> 1 \<and> length d \<le> 1}"

text \<open>The textbook recurrence, on prefixes of lengths \<open>i\<close> and \<open>j\<close>.\<close>

fun prefix_distance :: "jstr \<Rightarrow> jstr \<Rightarrow> nat \<Rightarrow> nat \<Rightarrow> nat" where
  "prefix_distance s t 0 j = j"
| "prefix_distance s t (Suc i) 0 = Suc i"
| "prefix_distance s t (Suc i) (Suc j) =
     min (min (prefix_distance s t (Suc i) j + 1) (prefix_distance s t i (Suc j) + 1))
       (prefix_distance s t i j + (if s ! i = t ! j then 0 else 1))"

text \<open>An alignment of two texts that pays one for every unit it does not pair with an equal one.\<close>

inductive aligned :: "jstr \<Rightarrow> jstr \<Rightarrow> nat \<Rightarrow> bool" where
  empty: "aligned [] [] 0"
| keep: "aligned a b n \<Longrightarrow> aligned (a @ [u]) (b @ [u]) n"
| swap: "aligned a b n \<Longrightarrow> aligned (a @ [u]) (b @ [v]) (Suc n)"
| drop_unit: "aligned a b n \<Longrightarrow> aligned (a @ [u]) b (Suc n)"
| put_unit: "aligned a b n \<Longrightarrow> aligned a (b @ [v]) (Suc n)"

section \<open>The table holds the recurrence\<close>

lemma prefix_distance_0 [simp]: "prefix_distance s t i 0 = i"
  by (cases i) simp_all

lemma edit_row_prefix:
  assumes "i \<le> length s"
  shows "foldl (\<lambda>row i. row @ [edit_cell s (t ! j) (map (\<lambda>i. prefix_distance s t i j) [0..<Suc (length s)]) row i])
      [Suc j] [1..<Suc i] = map (\<lambda>i. prefix_distance s t i (Suc j)) [0..<Suc i]"
  using assms
proof (induction i)
  case (Suc i)
  have cell: "edit_cell s (t ! j) (map (\<lambda>i. prefix_distance s t i j) [0..<Suc (length s)])
      (map (\<lambda>i. prefix_distance s t i (Suc j)) [0..<Suc i]) (Suc i) = prefix_distance s t (Suc i) (Suc j)"
    using Suc.prems by (simp add: edit_cell_def nth_append del: upt_Suc)
  have "[1..<Suc (Suc i)] = [1..<Suc i] @ [Suc i]" "[0..<Suc (Suc i)] = [0..<Suc i] @ [Suc i]" by simp_all
  then show ?case using Suc cell by (simp del: upt_Suc prefix_distance.simps)
qed simp

lemma edit_row_holds:
  "edit_row s (t ! j) (Suc j) (map (\<lambda>i. prefix_distance s t i j) [0..<Suc (length s)]) =
    map (\<lambda>i. prefix_distance s t i (Suc j)) [0..<Suc (length s)]"
  unfolding edit_row_def by (rule edit_row_prefix) simp

lemma edit_rows_hold: "edit_rows s t = map (\<lambda>i. prefix_distance s t i (length t)) [0..<Suc (length s)]"
proof -
  have "foldl (\<lambda>prev j. edit_row s (t ! (j - 1)) j prev) [0..<Suc (length s)] [1..<Suc j] =
      map (\<lambda>i. prefix_distance s t i j) [0..<Suc (length s)]" for j
  proof (induction j)
    case (Suc j)
    have "[1..<Suc (Suc j)] = [1..<Suc j] @ [Suc j]" by simp
    with Suc show ?case by (simp add: edit_row_holds del: upt_Suc prefix_distance.simps)
  qed (simp add: map_idI)
  then show ?thesis by (simp add: edit_rows_def)
qed

section \<open>The recurrence is the cheapest alignment\<close>

lemma aligned_take:
  "i \<le> length s \<Longrightarrow> j \<le> length t \<Longrightarrow> aligned (take i s) (take j t) (prefix_distance s t i j)"
proof (induction s t i j rule: prefix_distance.induct)
  case (1 s t j)
  then show ?case by (induction j) (auto simp: take_Suc_conv_app_nth intro: aligned.intros)
next
  case (2 s t i)
  have "i \<le> length s \<Longrightarrow> aligned (take i s) [] i" for i
    by (induction i) (auto simp: take_Suc_conv_app_nth intro: aligned.intros)
  from this [of "Suc i"] 2 show ?case by simp
next
  case (3 s t i j)
  have less: "i < length s" "j < length t" using 3 by simp_all
  have "aligned (take (Suc i) s) (take (Suc j) t) (prefix_distance s t (Suc i) j + 1)"
    "aligned (take (Suc i) s) (take (Suc j) t) (prefix_distance s t i (Suc j) + 1)"
    "aligned (take (Suc i) s) (take (Suc j) t) (prefix_distance s t i j + (if s ! i = t ! j then 0 else 1))"
    using 3 less by (auto simp: take_Suc_conv_app_nth [OF less(1)] take_Suc_conv_app_nth [OF less(2)]
        simp del: prefix_distance.simps intro: aligned.intros)
  then show ?case by (simp add: min_def)
qed

lemma prefix_distance_least:
  "aligned a b n \<Longrightarrow> prefix a s \<Longrightarrow> prefix b t \<Longrightarrow> prefix_distance s t (length a) (length b) \<le> n"
proof (induction rule: aligned.induct)
  case (keep a b n u)
  then have "s ! length a = t ! length b" "prefix a s" "prefix b t"
    by (auto simp: prefix_def)
  with keep.IH show ?case by simp
next
  case (swap a b n u v)
  then have "prefix a s" "prefix b t" by (auto simp: prefix_def)
  with swap.IH show ?case by (simp add: min_le_iff_disj)
next
  case (drop_unit a b n u)
  then have "prefix a s" by (auto simp: prefix_def)
  with drop_unit show ?case by (cases "length b") (auto simp: min_le_iff_disj)
next
  case (put_unit a b n v)
  then have "prefix b t" by (auto simp: prefix_def)
  with put_unit show ?case by (cases "length a") (auto simp: min_le_iff_disj)
qed simp

section \<open>Alignments and sequences of edits\<close>

lemma one_edit_sym: "(a, b) \<in> one_edit \<Longrightarrow> (b, a) \<in> one_edit"
  unfolding one_edit_def by blast

lemma one_edit_snoc: "(a, b) \<in> one_edit \<Longrightarrow> (a @ [u], b @ [u]) \<in> one_edit"
proof -
  assume "(a, b) \<in> one_edit"
  then obtain p c d q where "a = p @ c @ q" "b = p @ d @ q" "length c \<le> 1" "length d \<le> 1"
    by (auto simp: one_edit_def)
  then have "a @ [u] = p @ c @ (q @ [u])" "b @ [u] = p @ d @ (q @ [u])" by simp_all
  with \<open>length c \<le> 1\<close> \<open>length d \<le> 1\<close> show ?thesis unfolding one_edit_def by blast
qed

lemma one_edit_last: "length c \<le> 1 \<Longrightarrow> length d \<le> 1 \<Longrightarrow> (p @ c, p @ d) \<in> one_edit"
  unfolding one_edit_def by (rule CollectI, rule exI [of _ p], rule exI [of _ c], rule exI [of _ d],
      rule exI [of _ "[]"]) simp

lemma edits_snoc: "(a, b) \<in> one_edit ^^ n \<Longrightarrow> (a @ [u], b @ [u]) \<in> one_edit ^^ n"
  by (induction n arbitrary: b) (auto dest: one_edit_snoc)

lemma aligned_edits: "aligned a b n \<Longrightarrow> (a, b) \<in> one_edit ^^ n"
proof (induction rule: aligned.induct)
  case (swap a b n u v)
  then show ?case using edits_snoc [OF swap.IH, of u] one_edit_last [of "[u]" "[v]" b] by auto
next
  case (drop_unit a b n u)
  then show ?case using edits_snoc [OF drop_unit.IH, of u] one_edit_last [of "[u]" "[]" b] by auto
next
  case (put_unit a b n v)
  then show ?case using one_edit_last [of "[]" "[v]" b] by auto
qed (auto intro: edits_snoc)

lemma aligned_sym: "aligned a b n \<Longrightarrow> aligned b a n"
  by (induction rule: aligned.induct) (auto intro: aligned.intros)

text \<open>
  Editing the second text changes the cost of an alignment by at most one: the alignment is followed
  back to the place of the edit.
\<close>

lemma short_list: "length c \<le> 1 \<Longrightarrow> c = [] \<or> (\<exists>x. c = [x])"
  by (cases c) auto

lemma aligned_put: "aligned a b n \<Longrightarrow> length c \<le> 1 \<Longrightarrow> \<exists>m \<le> Suc n. aligned a (b @ c) m"
  using short_list [of c] by (auto intro: put_unit le_SucI)

lemma aligned_cost_below: "\<exists>m \<le> Suc n. aligned a b m \<Longrightarrow> \<exists>m \<le> Suc (Suc n). aligned (a @ [u]) b m"
  using drop_unit by fastforce

lemma aligned_extend: "aligned a p n \<Longrightarrow> length c \<le> 1 \<Longrightarrow> aligned (a @ [u]) (p @ c) (Suc n)"
  using short_list [of c] by (auto intro: drop_unit swap)

lemma aligned_replace_last:
  assumes "aligned a b n" "b = p @ [x]" "length c \<le> 1"
  shows "\<exists>m \<le> Suc n. aligned a (p @ c) m"
  using assms
proof (induction rule: aligned.induct)
  case (keep a b n u)
  then have "aligned a p n" by simp
  with aligned_extend [OF _ keep.prems(2)] show ?case by blast
next
  case (swap a b n u v)
  then have "aligned a p n" by simp
  with aligned_extend [OF _ swap.prems(2)] show ?case by (blast intro: le_SucI)
next
  case (drop_unit a b n u)
  then show ?case using aligned_cost_below by blast
next
  case (put_unit a b n v)
  then show ?case using aligned_put [of a p n c] by (auto intro: le_SucI)
qed simp

lemma aligned_edit_back:
  assumes "aligned a b n" "b = p @ d @ q" "length c \<le> 1" "length d \<le> 1"
  shows "\<exists>m \<le> Suc n. aligned a (p @ c @ q) m"
  using assms
proof (induction arbitrary: q rule: aligned.induct)
  case (keep a b n u)
  then show ?case
  proof (cases q rule: rev_cases)
    case (snoc q' x)
    with keep have "\<exists>m \<le> Suc n. aligned a (p @ c @ q') m" by auto
    with snoc keep.prems show ?thesis using aligned.keep by fastforce
  next
    case Nil
    with keep.hyps have "aligned (a @ [u]) (b @ [u]) n" by (auto intro: aligned.keep)
    with Nil keep.prems show ?thesis
      using aligned_put aligned_replace_last short_list [of d] by auto
  qed
next
  case (swap a b n u v)
  then show ?case
  proof (cases q rule: rev_cases)
    case (snoc q' x)
    with swap have "\<exists>m \<le> Suc n. aligned a (p @ c @ q') m" by auto
    with snoc swap.prems show ?thesis using aligned.swap by fastforce
  next
    case Nil
    with swap.hyps have "aligned (a @ [u]) (b @ [v]) (Suc n)" by (auto intro: aligned.swap)
    with Nil swap.prems show ?thesis
      using aligned_put aligned_replace_last short_list [of d] by auto
  qed
next
  case (drop_unit a b n u)
  then show ?case using aligned_cost_below by blast
next
  case (put_unit a b n v)
  then show ?case
  proof (cases q rule: rev_cases)
    case (snoc q' x)
    with put_unit have "\<exists>m \<le> Suc n. aligned a (p @ c @ q') m" by auto
    with snoc put_unit.prems show ?thesis using aligned.put_unit by fastforce
  next
    case Nil
    with put_unit.hyps have "aligned a (b @ [v]) (Suc n)" by (auto intro: aligned.put_unit)
    with Nil put_unit.prems show ?thesis
      using aligned_put aligned_replace_last short_list [of d] by auto
  qed
qed (auto simp: short_list intro: aligned_put [OF aligned.empty, simplified])

lemma aligned_refl: "aligned a a 0"
  by (induction a rule: rev_induct) (auto intro: aligned.intros)

lemma edits_aligned: "(a, b) \<in> one_edit ^^ n \<Longrightarrow> \<exists>m \<le> n. aligned a b m"
proof (induction n arbitrary: b)
  case (Suc n)
  then obtain b' where "(a, b') \<in> one_edit ^^ n" "(b', b) \<in> one_edit" by auto
  from Suc.IH [OF this(1)] obtain m where m: "m \<le> n" "aligned a b' m" by blast
  from \<open>(b', b) \<in> one_edit\<close> obtain p c d q where
    "b' = p @ d @ q" "b = p @ c @ q" "length c \<le> 1" "length d \<le> 1"
    by (auto simp: one_edit_def)
  with aligned_edit_back [OF m(2)] have "\<exists>k \<le> Suc m. aligned a b k" by blast
  with m(1) show ?case by (meson Suc_le_mono le_trans)
qed (auto intro: aligned_refl)

section \<open>The distance of the code\<close>

lemma edit_rows_distance: "edit_rows s t ! length s = prefix_distance s t (length s) (length t)"
  by (simp add: edit_rows_hold nth_append)

lemma prefix_distance_aligned: "aligned s t (prefix_distance s t (length s) (length t))"
  using aligned_take [of "length s" s "length t" t] by simp

lemma edit_distance_cases:
  "edit_distance a b =
     (if a = b then 0
      else if length a \<le> length b then prefix_distance a b (length a) (length b)
      else prefix_distance b a (length b) (length a))"
  by (auto simp: edit_distance_def edit_rows_distance)

lemma edit_distance_aligned: "aligned a b (edit_distance a b)"
  by (auto simp: edit_distance_cases intro: aligned_refl prefix_distance_aligned aligned_sym)

lemma edit_distance_least: "aligned a b n \<Longrightarrow> edit_distance a b \<le> n"
  using prefix_distance_least [of a b n a b] prefix_distance_least [OF aligned_sym, of a b n b a]
  by (simp add: edit_distance_cases)

lemma edit_distance_edits: "(a, b) \<in> one_edit ^^ edit_distance a b"
  by (rule aligned_edits [OF edit_distance_aligned])

lemma edit_distance_minimal: "(a, b) \<in> one_edit ^^ n \<Longrightarrow> edit_distance a b \<le> n"
  using edits_aligned edit_distance_least le_trans by blast

lemma edits_length: "(a, b) \<in> one_edit ^^ n \<Longrightarrow> \<bar>int (length a) - int (length b)\<bar> \<le> int n"
proof (induction n arbitrary: b)
  case (Suc n)
  then obtain b' where b': "(a, b') \<in> one_edit ^^ n" "(b', b) \<in> one_edit" by auto
  from b'(2) have "\<bar>int (length b') - int (length b)\<bar> \<le> 1" by (auto simp: one_edit_def)
  with Suc.IH [OF b'(1)] show ?case by simp
qed simp

lemma edit_distance_length: "\<bar>int (length a) - int (length b)\<bar> \<le> int (edit_distance a b)"
  by (rule edits_length [OF edit_distance_edits])

lemma edit_distance_self [simp]: "edit_distance a a = 0"
  by (simp add: edit_distance_def)

lemma edit_distance_pos: "a \<noteq> b \<Longrightarrow> 0 < edit_distance a b"
  using edit_distance_edits [of a b] by (cases "edit_distance a b") auto

lemma fuzzy_match_refl [simp]: "fuzzy_match a a d"
  by (simp add: fuzzy_match_def)

section \<open>Properties\<close>

text \<open>
  C39: \<open>editDistance\<close>, which keeps one row of the table over the shorter text, returns the Levenshtein
  distance: the least number of insertions, deletions and replacements of one UTF-16 unit that lead from
  the first text to the second. That many edits do lead there.
\<close>

theorem edit_distance_is_levenshtein:
  "edit_distance a b = (LEAST n. (a, b) \<in> one_edit ^^ n) \<and> (a, b) \<in> one_edit ^^ edit_distance a b"
proof -
  have "(LEAST n. (a, b) \<in> one_edit ^^ n) = edit_distance a b"
    by (rule Least_equality) (simp_all add: edit_distance_edits edit_distance_minimal)
  then show ?thesis by (simp add: edit_distance_edits)
qed

text \<open>
  \<open>fuzzyMatch\<close> accepts two lines exactly when, trailing blanks removed and inner runs of blanks
  collapsed, they are equal or at most \<open>maxDist\<close> edits apart. In particular the early exit on the
  difference of the lengths rejects no pair that the distance would accept.
\<close>

theorem fuzzy_match_within_edits:
  "fuzzy_match a b max_dist \<longleftrightarrow>
     normalise_line a = normalise_line b \<or>
     (\<exists>n. of_nat n \<le> max_dist \<and> (normalise_line a, normalise_line b) \<in> one_edit ^^ n)"
proof (cases "normalise_line a = normalise_line b")
  case False
  define na nb where "na = normalise_line a" and "nb = normalise_line b"
  have early: "\<not> of_nat (edit_distance na nb) \<le> max_dist"
    if "of_int \<bar>int (length na) - int (length nb)\<bar> > max_dist * 2"
  proof
    assume le: "of_nat (edit_distance na nb) \<le> max_dist"
    have "of_int \<bar>int (length na) - int (length nb)\<bar> \<le> (of_nat (edit_distance na nb) :: rat)"
      by (metis edit_distance_length of_int_le_iff of_int_of_nat_eq)
    with that le show False by linarith
  qed
  have "of_nat (edit_distance na nb) \<le> max_dist \<longleftrightarrow> (\<exists>n. of_nat n \<le> max_dist \<and> (na, nb) \<in> one_edit ^^ n)"
    using edit_distance_edits [of na nb] edit_distance_minimal [of na nb]
    by (meson of_nat_mono order_trans)
  with early False show ?thesis unfolding fuzzy_match_def Let_def na_def nb_def by auto
qed (simp add: fuzzy_match_def)

end
