(* ===== verification/FuzzyPatch.thy ===== *)
theory FuzzyPatch
  imports FuzzyMatch
begin

text \<open>
  \<open>src/packages/agent/src/services/fuzzy-patch\<close>: the parsers (\<open>parsers.ts\<close>), the engine that locates and
  replaces a block of lines (\<open>engine.ts\<close>) and the service on top of them (\<open>service.ts\<close>). Files are a map from
  paths to decoded contents; the reports are values rather than rendered text; the ratio and the distance
  bound are exact rationals. \<open>JSON.parse\<close> is a parameter (\<open>None\<close> when it throws).
\<close>

section \<open>Lines of a text\<close>

text \<open>\<open>split("\n")\<close> and \<open>join("\n")\<close>\<close>

fun split_lines :: "jstr \<Rightarrow> jstr list" where
  "split_lines [] = [[]]"
| "split_lines (u # us) =
     (if u = 10 then [] # split_lines us
      else (case split_lines us of [] \<Rightarrow> [[u]] | l # ls \<Rightarrow> (u # l) # ls))"

fun join_lines :: "jstr list \<Rightarrow> jstr" where
  "join_lines [] = []"
| "join_lines [l] = l"
| "join_lines (l # ls) = l @ 10 # join_lines ls"

section \<open>types.ts\<close>

record patch_operation =
  opSearch :: "jstr list"
  opReplace :: "jstr list"

record patch_options =
  poMaxEditDistance :: rat
  poContextMatchRatio :: rat
  poWrite :: bool
  poDryRun :: bool

text \<open>The options a caller passes: \<open>None\<close> is an absent property.\<close>

record given_options =
  goMaxEditDistance :: "rat option"
  goContextMatchRatio :: "rat option"
  goWrite :: "bool option"
  goDryRun :: "bool option"

datatype patch_error =
    CannotLocate jstr
  | FileNotFound string
  | NothingParsed

datatype hunk_report = HunkApplied nat | HunkFailed nat patch_error

datatype patch_report =
    PatchReport string nat nat "hunk_report list"
  | FailReport patch_error

record patch_result =
  prSuccess :: bool
  prAppliedHunks :: nat
  prFailedHunks :: nat
  prContent :: jstr
  prReport :: patch_report
  prErrors :: "patch_error list"

section \<open>parsers.ts\<close>

record hunk =
  huHeader :: jstr
  huLines :: "jstr list"

definition begins_with :: "jstr \<Rightarrow> jstr \<Rightarrow> bool" where
  "begins_with s p = (take (length p) s = p)"

fun collect_hunks :: "jstr list \<Rightarrow> hunk list \<Rightarrow> hunk option \<Rightarrow> hunk list" where
  "collect_hunks [] hunks cur = hunks @ (case cur of None \<Rightarrow> [] | Some h \<Rightarrow> [h])"
| "collect_hunks (raw # raws) hunks cur =
     (if begins_with raw (js ''@@'')
      then collect_hunks raws (hunks @ (case cur of None \<Rightarrow> [] | Some h \<Rightarrow> [h]))
             (Some \<lparr>huHeader = raw, huLines = []\<rparr>)
      else (case cur of
          Some h \<Rightarrow> collect_hunks raws hunks (Some (h\<lparr>huLines := huLines h @ [raw]\<rparr>))
        | None \<Rightarrow> collect_hunks raws hunks None))"

definition hunk_line :: "patch_operation \<Rightarrow> jstr \<Rightarrow> patch_operation" where
  "hunk_line op line =
     (if begins_with line (js ''-'') then op\<lparr>opSearch := opSearch op @ [drop 1 line]\<rparr>
      else if begins_with line (js ''+'') then op\<lparr>opReplace := opReplace op @ [drop 1 line]\<rparr>
      else if begins_with line (js '' '')
        then \<lparr>opSearch = opSearch op @ [drop 1 line], opReplace = opReplace op @ [drop 1 line]\<rparr>
      else op)"

definition hunk_operation :: "hunk \<Rightarrow> patch_operation" where
  "hunk_operation h = foldl hunk_line \<lparr>opSearch = [], opReplace = []\<rparr> (huLines h)"

definition parse_unified_diff :: "jstr \<Rightarrow> patch_operation list" where
  "parse_unified_diff patch = map hunk_operation (collect_hunks (split_lines patch) [] None)"

text \<open>
  The regular expressions of the parser, as lists of items: one unit of a class, an optional unit,
  a greedy \<open>*\<close> over a class, and the lazy capture \<open>([\s\S]*?)\<close>. The matcher tries the alternatives in the
  order a backtracking engine tries them, and returns the captures and the rest of the text.
\<close>

datatype rx_item =
    One "nat \<Rightarrow> bool"
  | Optional "nat \<Rightarrow> bool"
  | Greedy "nat \<Rightarrow> bool"
  | LazyCapture

fun rx_match :: "rx_item list \<Rightarrow> jstr \<Rightarrow> (jstr list \<times> jstr) option" where
  "rx_match [] s = Some ([], s)"
| "rx_match (One P # r) [] = None"
| "rx_match (One P # r) (u # us) = (if P u then rx_match r us else None)"
| "rx_match (Optional P # r) [] = rx_match r []"
| "rx_match (Optional P # r) (u # us) =
     (if P u then (case rx_match r us of Some m \<Rightarrow> Some m | None \<Rightarrow> rx_match r (u # us))
      else rx_match r (u # us))"
| "rx_match (Greedy P # r) [] = rx_match r []"
| "rx_match (Greedy P # r) (u # us) =
     (if P u then (case rx_match (Greedy P # r) us of Some m \<Rightarrow> Some m | None \<Rightarrow> rx_match r (u # us))
      else rx_match r (u # us))"
| "rx_match (LazyCapture # r) [] =
     (case rx_match r [] of Some (caps, rest) \<Rightarrow> Some ([] # caps, rest) | None \<Rightarrow> None)"
| "rx_match (LazyCapture # r) (u # us) =
     (case rx_match r (u # us) of
        Some (caps, rest) \<Rightarrow> Some ([] # caps, rest)
      | None \<Rightarrow>
          (case rx_match (LazyCapture # r) us of
             Some (c # caps, rest) \<Rightarrow> Some ((u # c) # caps, rest)
           | _ \<Rightarrow> None))"

definition lower_unit :: "nat \<Rightarrow> nat" where
  "lower_unit u = (if 65 \<le> u \<and> u \<le> 90 then u + 32 else u)"

text \<open>A word under the flag \<open>i\<close>, and \<open>x{3,}\<close>.\<close>

definition rx_word :: "string \<Rightarrow> rx_item list" where
  "rx_word w = map (\<lambda>c. One (\<lambda>u. lower_unit u = lower_unit (of_char c))) w"

definition rx_three :: "nat \<Rightarrow> rx_item list" where
  "rx_three c = [One ((=) c), One ((=) c), One ((=) c), Greedy ((=) c)]"

definition search_marker :: "rx_item list" where
  "search_marker = rx_three 60 @ Greedy js_blank # rx_word ''SEARCH''"

definition block_re :: "rx_item list" where
  "block_re = search_marker @ [Greedy js_blank, One ((=) 10), LazyCapture, Optional ((=) 10)] @
     rx_three 61 @ [One ((=) 10), LazyCapture, Optional ((=) 10)] @
     rx_three 62 @ Greedy js_blank # rx_word ''REPLACE''"

fun rx_test :: "rx_item list \<Rightarrow> jstr \<Rightarrow> bool" where
  "rx_test r [] = (rx_match r [] \<noteq> None)"
| "rx_test r (u # us) = (rx_match r (u # us) \<noteq> None \<or> rx_test r us)"

lemma rx_match_rest: "rx_match r s = Some (caps, rest) \<Longrightarrow> length rest \<le> length s"
  by (induction r s arbitrary: caps rest rule: rx_match.induct)
    (auto split: if_splits option.splits list.splits intro: le_SucI)

lemma rx_one_consumes: "rx_match (One P # r) s = Some (caps, rest) \<Longrightarrow> length rest < length s"
  by (cases s) (auto split: if_splits dest!: rx_match_rest)

text \<open>
  \<open>patch.matchAll(blockRe)\<close>: the captures of the successive matches. Every match consumes at least
  the units of its marker.
\<close>

lemma block_re_consumes: "rx_match block_re s = Some (caps, rest) \<Longrightarrow> length rest < length s"
  unfolding block_re_def search_marker_def rx_three_def append_Cons by (rule rx_one_consumes)

function match_all_blocks :: "jstr \<Rightarrow> jstr list list" where
  "match_all_blocks s =
     (case rx_match block_re s of
        Some (caps, rest) \<Rightarrow> caps # match_all_blocks rest
      | None \<Rightarrow> (case s of [] \<Rightarrow> [] | _ # us \<Rightarrow> match_all_blocks us))"
  by pat_completeness auto
termination
  by (relation "measure length") (auto dest: block_re_consumes)

declare match_all_blocks.simps [simp del]

definition block_operation :: "jstr list \<Rightarrow> patch_operation" where
  "block_operation caps =
     \<lparr>opSearch = split_lines (case caps of c # _ \<Rightarrow> c | [] \<Rightarrow> []),
      opReplace = split_lines (case caps of _ # c # _ \<Rightarrow> c | _ \<Rightarrow> [])\<rparr>"

definition parse_search_replace_blocks :: "jstr \<Rightarrow> patch_operation list" where
  "parse_search_replace_blocks patch = map block_operation (match_all_blocks patch)"

text \<open>
  The guard on parsed JSON looks at the two arrays and not at their elements, so what it lets through
  need not be operations on lines of text; \<open>typed_operations\<close> is \<open>None\<close> then.
\<close>

definition json_operation_guard :: "jsval \<Rightarrow> bool" where
  "json_operation_guard v =
     ((is_record v \<or> is_array v) \<and> is_array (getp v ''search'') \<and> is_array (getp v ''replace''))"

definition json_operations :: "(jstr \<Rightarrow> jsval option) \<Rightarrow> jstr \<Rightarrow> jsval list option" where
  "json_operations json patch =
     (if begins_with (dropWhile js_blank patch) (js ''['') then
        (case json patch of
           Some (Arr vs) \<Rightarrow> if list_all json_operation_guard vs then Some vs else None
         | _ \<Rightarrow> None)
      else None)"

definition text_lines :: "jsval \<Rightarrow> jstr list option" where
  "text_lines v = (case v of
       Arr vs \<Rightarrow> those (map (\<lambda>e. case e of Str s \<Rightarrow> Some s | _ \<Rightarrow> None) vs)
     | _ \<Rightarrow> None)"

definition typed_operation :: "jsval \<Rightarrow> patch_operation option" where
  "typed_operation v =
     (case (text_lines (getp v ''search''), text_lines (getp v ''replace'')) of
        (Some s, Some r) \<Rightarrow> Some \<lparr>opSearch = s, opReplace = r\<rparr>
      | _ \<Rightarrow> None)"

definition typed_operations :: "jsval list \<Rightarrow> patch_operation list option" where
  "typed_operations vs = those (map typed_operation vs)"

fun includes_text :: "jstr \<Rightarrow> jstr \<Rightarrow> bool" where
  "includes_text [] p = (p = [])"
| "includes_text (u # us) p = (begins_with (u # us) p \<or> includes_text us p)"

definition parse_patch_operations :: "(jstr \<Rightarrow> jsval option) \<Rightarrow> jstr \<Rightarrow> patch_operation list option" where
  "parse_patch_operations json patch =
     (case json_operations json patch of
        Some vs \<Rightarrow> typed_operations vs
      | None \<Rightarrow>
          if rx_test search_marker patch then Some (parse_search_replace_blocks patch)
          else if includes_text patch (js ''@@'') then Some (parse_unified_diff patch)
          else Some [])"

section \<open>engine.ts\<close>

text \<open>The number of matching lines of the window at \<open>start\<close>, and the loop over the windows.\<close>

definition window_matches :: "jstr list \<Rightarrow> jstr list \<Rightarrow> rat \<Rightarrow> nat \<Rightarrow> nat" where
  "window_matches ls search d start =
     (let window = take (length search) (drop start ls) in
      length (filter
        (\<lambda>i. fuzzy_match (if i < length window then window ! i else []) (search ! i) d)
        [0..<length search]))"

definition required_matches :: "jstr list \<Rightarrow> rat \<Rightarrow> int" where
  "required_matches search ratio = ceiling (of_nat (length search) * ratio)"

definition locate_block :: "jstr list \<Rightarrow> jstr list \<Rightarrow> patch_options \<Rightarrow> nat option" where
  "locate_block ls search opts =
     find (\<lambda>start. int (window_matches ls search (poMaxEditDistance opts) start) \<ge>
             required_matches search (poContextMatchRatio opts))
       [0..<Suc (length ls) - length search]"

record operation_result =
  orLines :: "jstr list"
  orApplied :: bool
  orError :: "patch_error option"

definition apply_operation :: "jstr list \<Rightarrow> patch_operation \<Rightarrow> patch_options \<Rightarrow> operation_result" where
  "apply_operation ls op opts =
     (let search = opSearch op in
      if search = [] then \<lparr>orLines = ls @ opReplace op, orApplied = True, orError = None\<rparr>
      else (case locate_block ls search opts of
          Some start \<Rightarrow>
            \<lparr>orLines = take start ls @ opReplace op @ drop (start + length search) ls,
             orApplied = True, orError = None\<rparr>
        | None \<Rightarrow>
            \<lparr>orLines = ls, orApplied = False, orError = Some (CannotLocate (take 80 (hd search)))\<rparr>))"

record patch_run =
  puLines :: "jstr list"
  puApplied :: nat
  puErrors :: "patch_error list"
  puReport :: "hunk_report list"

definition apply_hunk :: "patch_options \<Rightarrow> patch_run \<Rightarrow> nat \<times> patch_operation \<Rightarrow> patch_run" where
  "apply_hunk opts st = (\<lambda>(i, op).
     let result = apply_operation (puLines st) op opts in
     if orApplied result
     then st\<lparr>puLines := orLines result, puApplied := puApplied st + 1,
             puReport := puReport st @ [HunkApplied (i + 1)]\<rparr>
     else (case orError result of
         Some e \<Rightarrow> st\<lparr>puErrors := puErrors st @ [e], puReport := puReport st @ [HunkFailed (i + 1) e]\<rparr>
       | None \<Rightarrow> st))"

definition apply_operations_to_lines :: "jstr \<Rightarrow> patch_operation list \<Rightarrow> patch_options \<Rightarrow> patch_run" where
  "apply_operations_to_lines original ops opts =
     foldl (apply_hunk opts)
       \<lparr>puLines = split_lines original, puApplied = 0, puErrors = [], puReport = []\<rparr>
       (enumerate 0 ops)"

definition run_content :: "patch_run \<Rightarrow> jstr" where
  "run_content st = join_lines (puLines st)"

definition run_failed :: "patch_operation list \<Rightarrow> patch_run \<Rightarrow> nat" where
  "run_failed ops st = length ops - puApplied st"

definition run_success :: "patch_operation list \<Rightarrow> patch_run \<Rightarrow> bool" where
  "run_success ops st = (0 < puApplied st \<and> run_failed ops st = 0)"

section \<open>service.ts\<close>

type_synonym files = "string \<Rightarrow> jstr option"

definition or_default :: "'a option \<Rightarrow> 'a \<Rightarrow> 'a" where
  "or_default g d = (case g of Some x \<Rightarrow> x | None \<Rightarrow> d)"

definition no_options :: given_options where
  "no_options = \<lparr>goMaxEditDistance = None, goContextMatchRatio = None, goWrite = None, goDryRun = None\<rparr>"

definition new_patcher :: "given_options \<Rightarrow> patch_options" where
  "new_patcher g =
     \<lparr>poMaxEditDistance = or_default (goMaxEditDistance g) 4,
      poContextMatchRatio = or_default (goContextMatchRatio g) (3/5),
      poWrite = (goWrite g \<noteq> Some False),
      poDryRun = or_default (goDryRun g) False\<rparr>"

definition merged_options :: "patch_options \<Rightarrow> given_options \<Rightarrow> patch_options" where
  "merged_options d g =
     \<lparr>poMaxEditDistance = or_default (goMaxEditDistance g) (poMaxEditDistance d),
      poContextMatchRatio = or_default (goContextMatchRatio g) (poContextMatchRatio d),
      poWrite = or_default (goWrite g) (poWrite d),
      poDryRun = or_default (goDryRun g) (poDryRun d)\<rparr>"

definition patch_fail :: "patch_error \<Rightarrow> patch_result" where
  "patch_fail e =
     \<lparr>prSuccess = False, prAppliedHunks = 0, prFailedHunks = 0, prContent = [],
      prReport = FailReport e, prErrors = [e]\<rparr>"

definition apply_operations ::
  "patch_options \<Rightarrow> string \<Rightarrow> jstr \<Rightarrow> patch_operation list \<Rightarrow> given_options \<Rightarrow> files \<Rightarrow> patch_result \<times> files" where
  "apply_operations defaults path original ops given fs =
     (let opts = merged_options defaults given;
          st = apply_operations_to_lines original ops opts;
          fs' = (if \<not> poDryRun opts \<and> poWrite opts \<and> 0 < puApplied st
                 then fs(path \<mapsto> run_content st) else fs) in
      (\<lparr>prSuccess = run_success ops st, prAppliedHunks = puApplied st,
        prFailedHunks = run_failed ops st, prContent = run_content st,
        prReport = PatchReport path (puApplied st) (length ops) (puReport st),
        prErrors = puErrors st\<rparr>, fs'))"

text \<open>\<open>None\<close>: the patch is JSON whose lines are not all strings, and the call leaves the typed program.\<close>

definition apply_patch ::
  "(jstr \<Rightarrow> jsval option) \<Rightarrow> patch_options \<Rightarrow> string \<Rightarrow> jstr \<Rightarrow> given_options \<Rightarrow> files \<Rightarrow>
     (patch_result \<times> files) option" where
  "apply_patch json defaults path patch given fs =
     (case fs path of
        None \<Rightarrow> Some (patch_fail (FileNotFound path), fs)
      | Some original \<Rightarrow>
          (case parse_patch_operations json patch of
             None \<Rightarrow> None
           | Some ops \<Rightarrow>
               if ops = [] then Some (patch_fail NothingParsed, fs)
               else Some (apply_operations defaults path original ops given fs)))"

definition find_and_replace ::
  "patch_options \<Rightarrow> string \<Rightarrow> jstr \<Rightarrow> jstr \<Rightarrow> given_options \<Rightarrow> files \<Rightarrow> patch_result \<times> files" where
  "find_and_replace defaults path search_text replace_text given fs =
     (case fs path of
        None \<Rightarrow> (patch_fail (FileNotFound path), fs)
      | Some original \<Rightarrow>
          apply_operations defaults path original
            [\<lparr>opSearch = split_lines search_text, opReplace = split_lines replace_text\<rparr>] given fs)"

definition apply_to_string ::
  "patch_options \<Rightarrow> jstr \<Rightarrow> patch_operation list \<Rightarrow> given_options \<Rightarrow>
     jstr \<times> nat \<times> nat \<times> patch_error list" where
  "apply_to_string defaults content ops given =
     (let opts = (merged_options defaults given)\<lparr>poWrite := False\<rparr>;
          st = apply_operations_to_lines content ops opts in
      (run_content st, puApplied st, run_failed ops st, puErrors st))"

text \<open>The counts \<open>describeDiff\<close> prints: added and removed lines, and the lines before and after.\<close>

definition describe_diff :: "jstr \<Rightarrow> jstr \<Rightarrow> nat \<times> nat \<times> nat \<times> nat" where
  "describe_diff original updated =
     (let orig_lines = split_lines original; upd_lines = split_lines updated in
      (length (filter (\<lambda>l. l \<notin> set orig_lines) upd_lines),
       length (filter (\<lambda>l. l \<notin> set upd_lines) orig_lines),
       length orig_lines, length upd_lines))"

end
