(* ===== verification/FuzzyPatchFacts.thy ===== *)
theory FuzzyPatchFacts
  imports FuzzyPatch Interfaces
begin

text \<open>
  What the fuzzy patch engine promises: both textual formats are read back as written, an operation
  replaces the first block of lines that is close enough, and a call changes at most its own file.
\<close>

section \<open>Lines\<close>

definition plain_line :: "jstr \<Rightarrow> bool" where
  "plain_line l = (10 \<notin> set l)"

lemma split_lines_nonempty [simp]: "split_lines s \<noteq> []"
  by (cases s) (auto split: list.splits)

lemma split_lines_plain: "list_all plain_line (split_lines s)"
  by (induction s) (auto simp: plain_line_def split: list.splits)

lemma join_lines_Cons: "ls \<noteq> [] \<Longrightarrow> join_lines (l # ls) = l @ 10 # join_lines ls"
  by (cases ls) simp_all

lemma split_join_last: "plain_line l \<Longrightarrow> split_lines l = [l]"
  by (induction l) (auto simp: plain_line_def)

lemma split_join_more: "plain_line l \<Longrightarrow> split_lines (l @ 10 # s) = l # split_lines s"
  by (induction l) (auto simp: plain_line_def)

lemma split_join: "ls \<noteq> [] \<Longrightarrow> list_all plain_line ls \<Longrightarrow> split_lines (join_lines ls) = ls"
  by (induction ls rule: join_lines.induct) (simp_all add: split_join_last split_join_more)

lemma join_split: "join_lines (split_lines s) = s"
proof (induction s)
  case (Cons u us)
  then show ?case
    by (cases "split_lines us") (auto simp: join_lines_Cons, metis append_Cons join_lines.simps join_lines_Cons)
qed simp

interpretation line_text: text_format join_lines split_lines "\<lambda>ls. ls \<noteq> [] \<and> list_all plain_line ls"
  by unfold_locales (simp add: split_join)

section \<open>Unified diffs\<close>

definition render_hunk :: "patch_operation \<Rightarrow> jstr list" where
  "render_hunk op = js ''@@'' # map ((#) 45) (opSearch op) @ map ((#) 43) (opReplace op)"

definition render_diff :: "patch_operation list \<Rightarrow> jstr" where
  "render_diff ops = join_lines (concat (map render_hunk ops))"

definition plain_operation :: "patch_operation \<Rightarrow> bool" where
  "plain_operation op = (list_all plain_line (opSearch op) \<and> list_all plain_line (opReplace op))"

lemma collect_hunk_body:
  "list_all (\<lambda>l. \<not> begins_with l (js ''@@'')) ls \<Longrightarrow>
    collect_hunks (ls @ raws) hs (Some h) = collect_hunks raws hs (Some (h\<lparr>huLines := huLines h @ ls\<rparr>))"
  by (induction ls arbitrary: h) simp_all

definition rendered_hunk :: "patch_operation \<Rightarrow> hunk" where
  "rendered_hunk op =
     \<lparr>huHeader = js ''@@'', huLines = map ((#) 45) (opSearch op) @ map ((#) 43) (opReplace op)\<rparr>"

lemma collect_rendered_hunk:
  "collect_hunks (render_hunk op @ raws) hs cur =
     collect_hunks raws (hs @ (case cur of None \<Rightarrow> [] | Some h \<Rightarrow> [h])) (Some (rendered_hunk op))"
proof -
  have marked: "list_all (\<lambda>l. \<not> begins_with l (js ''@@''))
      (map ((#) 45) (opSearch op) @ map ((#) 43) (opReplace op))"
    by (auto simp: list_all_iff begins_with_def)
  show ?thesis
    using collect_hunk_body [OF marked] by (simp add: render_hunk_def rendered_hunk_def begins_with_def)
qed

lemma collect_rendered:
  "collect_hunks (concat (map render_hunk ops)) hs cur =
     hs @ (case cur of None \<Rightarrow> [] | Some h \<Rightarrow> [h]) @ map rendered_hunk ops"
  by (induction ops arbitrary: hs cur) (simp_all add: collect_rendered_hunk)

lemma hunk_search_lines:
  "foldl hunk_line op (map ((#) 45) ls) = op\<lparr>opSearch := opSearch op @ ls\<rparr>"
  by (induction ls arbitrary: op) (simp_all add: hunk_line_def begins_with_def)

lemma hunk_replace_lines:
  "foldl hunk_line op (map ((#) 43) ls) = op\<lparr>opReplace := opReplace op @ ls\<rparr>"
  by (induction ls arbitrary: op) (simp_all add: hunk_line_def begins_with_def)

lemma plain_rendered: "list_all plain_operation ops \<Longrightarrow> list_all plain_line (concat (map render_hunk ops))"
  by (induction ops) (auto simp: render_hunk_def plain_operation_def plain_line_def list_all_iff)

lemma parse_rendered_diff:
  assumes "ops \<noteq> []" "list_all plain_operation ops"
  shows "parse_unified_diff (render_diff ops) = ops"
proof -
  have "concat (map render_hunk ops) \<noteq> []" using assms(1) by (cases ops) (simp_all add: render_hunk_def)
  then have "split_lines (render_diff ops) = concat (map render_hunk ops)"
    unfolding render_diff_def by (simp add: split_join plain_rendered assms(2))
  moreover have "hunk_operation (rendered_hunk op) = op" for op
    by (simp add: hunk_operation_def rendered_hunk_def hunk_search_lines hunk_replace_lines)
  ultimately show ?thesis
    by (simp add: parse_unified_diff_def collect_rendered comp_def)
qed

interpretation diff_text: text_format render_diff parse_unified_diff
  "\<lambda>ops. ops \<noteq> [] \<and> list_all plain_operation ops"
  by unfold_locales (simp add: parse_rendered_diff)

section \<open>Search and replace blocks\<close>

definition render_block :: "patch_operation \<Rightarrow> jstr" where
  "render_block op =
     js ''<<<<<<< SEARCH'' @ 10 # join_lines (opSearch op) @ 10 # js ''======='' @
     10 # join_lines (opReplace op) @ 10 # js ''>>>>>>> REPLACE''"

definition render_blocks :: "patch_operation list \<Rightarrow> jstr" where
  "render_blocks ops = concat (map (\<lambda>op. render_block op @ [10]) ops)"

text \<open>
  What the format can express: at least one line on both sides, a first line to search for that is not
  blank, and no line that contains a marker.
\<close>

definition block_expressible :: "patch_operation \<Rightarrow> bool" where
  "block_expressible op =
     (plain_operation op \<and> opSearch op \<noteq> [] \<and> opReplace op \<noteq> [] \<and>
      \<not> list_all js_blank (hd (opSearch op)) \<and>
      list_all (\<lambda>l. \<not> includes_text l (js ''==='')) (opSearch op) \<and>
      list_all (\<lambda>l. \<not> includes_text l (js ''>>>'')) (opReplace op))"

text \<open>How the items of an expression behave on the texts the format prints.\<close>

lemma rx_word_match: "rx_match (rx_word w @ r) (js w @ s) = rx_match r s"
  by (induction w) (simp_all add: rx_word_def)

lemma rx_greedy_stop: "s = [] \<or> \<not> P (hd s) \<Longrightarrow> rx_match (Greedy P # r) s = rx_match r s"
  by (cases s) simp_all

lemma rx_greedy_run:
  "list_all P w \<Longrightarrow> rx_match (Greedy P # r) s = Some m \<Longrightarrow> rx_match (Greedy P # r) (w @ s) = Some m"
  by (induction w) simp_all

lemma rx_three_match:
  "s = [] \<or> hd s \<noteq> k \<Longrightarrow> rx_match r s = Some m \<Longrightarrow>
    rx_match (rx_three k @ r) (k # k # k # replicate n k @ s) = Some m"
  using rx_greedy_run [of "(=) k" "replicate n k" r s m]
  by (auto simp: rx_three_def rx_greedy_stop list_all_iff)

lemma rx_three_none: "\<not> begins_with s [k, k, k] \<Longrightarrow> rx_match (rx_three k @ r) s = None"
  unfolding rx_three_def begins_with_def
  by (cases s; cases "tl s"; cases "tl (tl s)") auto

lemma rx_lazy_capture:
  "(\<And>i. i < length c \<Longrightarrow> rx_match r (drop i c @ z) = None) \<Longrightarrow> rx_match r z = Some (caps, rest) \<Longrightarrow>
    rx_match (LazyCapture # r) (c @ z) = Some (c # caps, rest)"
proof (induction c)
  case Nil
  then show ?case by (cases z) simp_all
next
  case (Cons u c)
  have "rx_match (LazyCapture # r) (c @ z) = Some (c # caps, rest)"
    using Cons.prems(1) [of "Suc i" for i] by (intro Cons.IH Cons.prems(2)) simp
  with Cons.prems(1) [of 0] show ?case by simp
qed

text \<open>A marker inside a text is a marker inside one of its lines.\<close>

lemma includes_text_drop: "includes_text c p \<longleftrightarrow> p = [] \<or> (\<exists>i < length c. begins_with (drop i c) p)"
proof (induction c)
  case (Cons u c)
  then show ?case
    by (cases p) (auto simp: begins_with_def less_Suc_eq_0_disj)
qed auto

lemma begins_with_line:
  "k \<noteq> 10 \<Longrightarrow> begins_with (l @ 10 # s) [k, k, k] \<longleftrightarrow> begins_with l [k, k, k]"
  unfolding begins_with_def by (cases l; cases "tl l"; cases "tl (tl l)") auto

lemma includes_join:
  "k \<noteq> 10 \<Longrightarrow> ls \<noteq> [] \<Longrightarrow>
    includes_text (join_lines ls) [k, k, k] \<longleftrightarrow> list_ex (\<lambda>l. includes_text l [k, k, k]) ls"
proof (induction ls rule: join_lines.induct)
  case (3 l l' ls)
  have "includes_text (l @ 10 # s) [k, k, k] \<longleftrightarrow> includes_text l [k, k, k] \<or> includes_text s [k, k, k]" for s
    using \<open>k \<noteq> 10\<close> begins_with_line [of k "_ # _"]
    by (induction l) (auto simp: begins_with_def)
  with 3 show ?case by (simp add: join_lines_Cons)
qed simp_all

lemma no_close_inside:
  assumes "\<not> includes_text c [k, k, k]" "k \<noteq> 10" "i < length c"
  shows "rx_match (Optional ((=) 10) # rx_three k @ r) (drop i c @ 10 # z) = None"
proof -
  have here: "\<not> begins_with (drop j c @ 10 # z) [k, k, k]" for j
  proof (cases "j < length c")
    case True
    with assms(1) have "\<not> begins_with (drop j c) [k, k, k]" by (auto simp: includes_text_drop)
    then show ?thesis by (simp add: begins_with_line assms(2))
  next
    case False
    then show ?thesis using assms(2) by (simp add: begins_with_def)
  qed
  obtain u where u: "drop i c = u # drop (Suc i) c" using assms(3) by (metis Cons_nth_drop_Suc)
  show ?thesis
    using rx_three_none [OF here [of i], of r] rx_three_none [OF here [of "Suc i"], of r] u
    by (cases "u = 10") auto
qed

text \<open>The blanks after the opening marker stop at the end of its line when the next one is not blank.\<close>

lemma header_gap_stuck:
  "list_all js_blank ind \<Longrightarrow> plain_line ind \<Longrightarrow> v \<noteq> 10 \<Longrightarrow> \<not> js_blank v \<Longrightarrow>
    rx_match (Greedy js_blank # One ((=) 10) # r) (ind @ v # z) = None"
  by (induction ind) (auto simp: plain_line_def)

lemma header_gap:
  assumes "plain_line l" "\<not> list_all js_blank l"
  shows "rx_match (Greedy js_blank # One ((=) 10) # r) (10 # l @ z) = rx_match r (l @ z)"
proof -
  define ind where "ind = takeWhile js_blank l"
  obtain v l' where v: "dropWhile js_blank l = v # l'"
    using assms(2) by (cases "dropWhile js_blank l") (auto simp: dropWhile_eq_Nil_conv list_all_iff)
  have l: "l = ind @ v # l'" unfolding ind_def using v by (metis takeWhile_dropWhile_id)
  have "\<not> js_blank v" using v by (metis hd_dropWhile list.discI list.sel(1))
  moreover have "list_all js_blank ind" unfolding ind_def by (auto simp: list_all_iff dest: set_takeWhileD)
  moreover have "plain_line ind" "v \<noteq> 10" using assms(1) unfolding l by (auto simp: plain_line_def)
  ultimately have "rx_match (Greedy js_blank # One ((=) 10) # r) (l @ z) = None"
    unfolding l by (simp add: header_gap_stuck)
  then show ?thesis by (simp add: js_blank_def)
qed

lemma spaced_word:
  assumes "rx_match r s = Some m" "\<not> js_blank (of_char x)"
  shows "rx_match (Greedy js_blank # rx_word (x # w) @ r) (32 # js (x # w) @ s) = Some m"
proof -
  have "rx_match (Greedy js_blank # rx_word (x # w) @ r) (js (x # w) @ s) = Some m"
    using assms rx_word_match [of "x # w" r s] by (simp add: rx_greedy_stop)
  then show ?thesis by (simp add: js_blank_def)
qed

lemma close_marker:
  "rx_match (Optional ((=) 10) # rx_three 62 @ Greedy js_blank # rx_word ''REPLACE'')
     (10 # js ''>>>>>>> REPLACE'' @ s) = Some ([], s)"
proof -
  have marks: "js ''>>>>>>> REPLACE'' @ s = 62 # 62 # 62 # replicate 4 62 @ 32 # js ''REPLACE'' @ s"
    by (simp add: numeral_eq_Suc)
  have "rx_match (Greedy js_blank # rx_word ''REPLACE'') (32 # js ''REPLACE'' @ s) = Some ([], s)"
    using spaced_word [of "[]" s "([], s)" "CHR ''R''" "''EPLACE''"] by (simp only: append_Nil2, simp add: js_blank_def)
  then have "rx_match (rx_three 62 @ Greedy js_blank # rx_word ''REPLACE'')
      (js ''>>>>>>> REPLACE'' @ s) = Some ([], s)"
    unfolding marks by (intro rx_three_match) simp_all
  then show ?thesis by simp
qed

lemma replace_part:
  assumes "\<not> includes_text c [62, 62, 62]"
  shows "rx_match (One ((=) 10) # LazyCapture # Optional ((=) 10) # rx_three 62 @ Greedy js_blank # rx_word ''REPLACE'')
     (10 # c @ 10 # js ''>>>>>>> REPLACE'' @ s) = Some ([c], s)"
  using rx_lazy_capture [OF no_close_inside [OF assms] close_marker] by simp

lemma middle_marker:
  assumes "rx_match r (10 # s) = Some m"
  shows "rx_match (Optional ((=) 10) # rx_three 61 @ r) (10 # js ''======='' @ 10 # s) = Some m"
proof -
  have marks: "js ''======='' @ 10 # s = 61 # 61 # 61 # replicate 4 61 @ 10 # s"
    by (simp add: numeral_eq_Suc)
  have "rx_match (rx_three 61 @ r) (js ''======='' @ 10 # s) = Some m"
    unfolding marks by (intro rx_three_match assms) simp
  then show ?thesis by simp
qed

lemma search_header:
  assumes "rx_match r s = Some m"
  shows "rx_match (search_marker @ r) (js ''<<<<<<< SEARCH'' @ s) = Some m"
proof -
  have marks: "js ''<<<<<<< SEARCH'' @ s = 60 # 60 # 60 # replicate 4 60 @ 32 # js ''SEARCH'' @ s"
    by (simp add: numeral_eq_Suc)
  have "rx_match (Greedy js_blank # rx_word ''SEARCH'' @ r) (32 # js ''SEARCH'' @ s) = Some m"
    by (rule spaced_word [OF assms]) (simp add: js_blank_def)
  then show ?thesis
    unfolding search_marker_def marks append_assoc append_Cons by (intro rx_three_match) simp_all
qed

lemma js_markers: "js ''==='' = [61, 61, 61]" "js ''>>>'' = [62, 62, 62]"
  by simp_all

lemma match_rendered_block:
  assumes "block_expressible op"
  shows "rx_match block_re (render_block op @ s) = Some ([join_lines (opSearch op), join_lines (opReplace op)], s)"
proof -
  define c where "c = join_lines (opSearch op)"
  define d where "d = join_lines (opReplace op)"
  let ?repl = "One ((=) 10) # LazyCapture # Optional ((=) 10) # rx_three 62 @ Greedy js_blank # rx_word ''REPLACE''"
  let ?tail = "js ''======='' @ 10 # d @ 10 # js ''>>>>>>> REPLACE'' @ s"
  from assms have c: "\<not> includes_text c [61, 61, 61]" and d: "\<not> includes_text d [62, 62, 62]"
    unfolding block_expressible_def c_def d_def js_markers
    by (auto simp: includes_join list_ex_iff list_all_iff)
  have body: "rx_match (LazyCapture # Optional ((=) 10) # rx_three 61 @ ?repl) (c @ 10 # ?tail) = Some ([c, d], s)"
    by (rule rx_lazy_capture, rule no_close_inside [OF c], simp, assumption)
      (rule middle_marker [OF replace_part [OF d]])
  obtain l z where lz: "c = l @ z" "plain_line l" "\<not> list_all js_blank l"
  proof -
    obtain l ls where "opSearch op = l # ls" using assms by (cases "opSearch op") (auto simp: block_expressible_def)
    with assms that [of l] show ?thesis
      by (cases ls) (auto simp: c_def block_expressible_def plain_operation_def)
  qed
  have gap: "rx_match (Greedy js_blank # One ((=) 10) # LazyCapture # Optional ((=) 10) # rx_three 61 @ ?repl)
      (10 # c @ 10 # ?tail) = Some ([c, d], s)"
    using header_gap [OF lz(2,3), of _ "z @ 10 # ?tail"] body unfolding lz(1) append_assoc by (rule trans)
  have "render_block op @ s = js ''<<<<<<< SEARCH'' @ 10 # c @ 10 # ?tail"
    unfolding render_block_def c_def d_def by (simp del: js_simps(2))
  moreover have "block_re = search_marker @ Greedy js_blank # One ((=) 10) # LazyCapture # Optional ((=) 10) # rx_three 61 @ ?repl"
    unfolding block_re_def by simp
  ultimately show ?thesis using search_header [OF gap] unfolding c_def d_def by simp
qed

lemma block_re_not_here: "s = [] \<or> hd s \<noteq> 60 \<Longrightarrow> rx_match block_re s = None"
  by (cases s) (auto simp: block_re_def search_marker_def rx_three_def)

lemma match_all_hit:
  "rx_match block_re s = Some (caps, rest) \<Longrightarrow> match_all_blocks s = caps # match_all_blocks rest"
  by (simp add: match_all_blocks.simps [of s])

lemma match_all_Nil: "match_all_blocks [] = []"
  by (simp add: match_all_blocks.simps [of "[]"] block_re_not_here)

lemma match_all_skip: "u \<noteq> 60 \<Longrightarrow> match_all_blocks (u # s) = match_all_blocks s"
  by (simp add: match_all_blocks.simps [of "u # s"] block_re_not_here)

lemma match_all_rendered:
  "list_all block_expressible ops \<Longrightarrow>
    match_all_blocks (render_blocks ops) = map (\<lambda>op. [join_lines (opSearch op), join_lines (opReplace op)]) ops"
proof (induction ops)
  case (Cons op ops)
  then show ?case
    by (simp add: render_blocks_def match_all_hit [OF match_rendered_block] match_all_skip)
qed (simp add: render_blocks_def match_all_Nil)

lemma parse_rendered_blocks:
  assumes "list_all block_expressible ops"
  shows "parse_search_replace_blocks (render_blocks ops) = ops"
proof -
  have "block_operation [join_lines (opSearch op), join_lines (opReplace op)] = op" if "op \<in> set ops" for op
    using that assms
    by (simp add: block_operation_def split_join block_expressible_def plain_operation_def list_all_iff)
  then show ?thesis
    by (simp add: parse_search_replace_blocks_def match_all_rendered [OF assms] comp_def map_idI)
qed

interpretation block_text: text_format render_blocks parse_search_replace_blocks "list_all block_expressible"
  by unfold_locales (rule parse_rendered_blocks)

end
