(* ===== verification/FuzzyPatchEdits.thy ===== *)
theory FuzzyPatchEdits
  imports FuzzyPatchFacts
begin

text \<open>
  What an edit does to the lines and to the files: the engine replaces the first block of lines that is
  close enough to the searched one and nothing else, and the service writes at most the file it was given.
\<close>

section \<open>Blocks\<close>

text \<open>The specification of a close block, on the lines themselves.\<close>

definition close_block :: "jstr list \<Rightarrow> jstr list \<Rightarrow> patch_options \<Rightarrow> nat \<Rightarrow> bool" where
  "close_block ls search opts start =
     (start + length search \<le> length ls \<and>
      of_nat (card {i. i < length search \<and> fuzzy_match (ls ! (start + i)) (search ! i) (poMaxEditDistance opts)})
        \<ge> of_nat (length search) * poContextMatchRatio opts)"

lemma window_matches_card:
  assumes "start + length search \<le> length ls"
  shows "window_matches ls search d start =
    card {i. i < length search \<and> fuzzy_match (ls ! (start + i)) (search ! i) d}"
proof -
  have line: "(if i < length (take (length search) (drop start ls)) then take (length search) (drop start ls) ! i else []) =
      ls ! (start + i)" if "i < length search" for i
    using that assms by simp
  have "window_matches ls search d start =
      length (filter (\<lambda>i. fuzzy_match (ls ! (start + i)) (search ! i) d) [0..<length search])"
    unfolding window_matches_def Let_def
    by (rule arg_cong [of _ _ length], rule filter_cong) (simp_all add: line del: length_take length_drop)
  then show ?thesis by (simp add: length_filter_conv_card cong: conj_cong)
qed

lemma ceiling_le_nat: "ceiling (x :: rat) \<le> int n \<longleftrightarrow> x \<le> of_nat n"
  by (simp add: ceiling_le_iff)

lemma window_close:
  "start < Suc (length ls) - length search \<Longrightarrow>
    (required_matches search (poContextMatchRatio opts) \<le>
      int (window_matches ls search (poMaxEditDistance opts) start)) = close_block ls search opts start"
proof -
  assume "start < Suc (length ls) - length search"
  then have "start + length search \<le> length ls" by simp
  then show ?thesis
    by (simp add: window_matches_card close_block_def required_matches_def ceiling_le_nat)
qed

lemma close_block_in_range: "close_block ls search opts start \<Longrightarrow> start < Suc (length ls) - length search"
  by (auto simp: close_block_def)

lemma locate_block_None: "locate_block ls search opts = None \<longleftrightarrow> (\<nexists>start. close_block ls search opts start)"
  unfolding locate_block_def find_None_iff
  by (auto simp: window_close dest: close_block_in_range)

lemma locate_block_Some:
  "locate_block ls search opts = Some s \<longleftrightarrow>
     close_block ls search opts s \<and> (\<forall>s' < s. \<not> close_block ls search opts s')"
  (is "?l = ?r")
proof
  assume ?l
  then show ?r
    unfolding locate_block_def find_Some_iff
    by (auto simp: window_close)
next
  assume r: ?r
  then have "s < Suc (length ls) - length search" by (auto dest: close_block_in_range)
  with r show ?l
    unfolding locate_block_def find_Some_iff
    by (intro exI [of _ s]) (auto simp: window_close)
qed

lemma verbatim_close:
  assumes "poContextMatchRatio opts \<le> 1"
  shows "close_block (pre @ search @ post) search opts (length pre)"
proof -
  have "{i. i < length search \<and> fuzzy_match ((pre @ search @ post) ! (length pre + i)) (search ! i) d} =
      {..<length search}" for d
    by (auto simp: nth_append)
  with assms show ?thesis by (simp add: close_block_def mult_left_le)
qed

lemma close_block_single:
  "close_block ls [l] opts start \<longleftrightarrow> start < length ls \<and>
     poContextMatchRatio opts \<le> (if fuzzy_match (ls ! start) l (poMaxEditDistance opts) then 1 else 0)"
proof -
  have "{i. i < length [l] \<and> fuzzy_match (ls ! (start + i)) ([l] ! i) (poMaxEditDistance opts)} =
      (if fuzzy_match (ls ! start) l (poMaxEditDistance opts) then {0} else {})"
    by auto
  then have card: "card {i. i < length [l] \<and> fuzzy_match (ls ! (start + i)) ([l] ! i) (poMaxEditDistance opts)} =
      (if fuzzy_match (ls ! start) l (poMaxEditDistance opts) then 1 else 0)"
    by simp
  show ?thesis unfolding close_block_def card by (simp add: Suc_le_eq)
qed

section \<open>One call\<close>

lemma apply_hunk_counts:
  "puApplied (apply_hunk opts st p) + length (puErrors (apply_hunk opts st p)) =
     Suc (puApplied st + length (puErrors st))"
  by (simp add: apply_hunk_def apply_operation_def Let_def split: prod.split option.split)

lemma apply_hunks_counts:
  "puApplied (foldl (apply_hunk opts) st ps) + length (puErrors (foldl (apply_hunk opts) st ps)) =
     length ps + puApplied st + length (puErrors st)"
  by (induction ps arbitrary: st) (simp_all add: apply_hunk_counts)

lemma run_counts:
  "puApplied (apply_operations_to_lines original ops opts) +
     length (puErrors (apply_operations_to_lines original ops opts)) = length ops"
  by (simp add: apply_operations_to_lines_def apply_hunks_counts)

lemma apply_operations_single:
  "apply_operations_to_lines original [op] opts =
     apply_hunk opts \<lparr>puLines = split_lines original, puApplied = 0, puErrors = [], puReport = []\<rparr> (0, op)"
  by (simp add: apply_operations_to_lines_def)

lemma parse_diff_text:
  assumes "ops \<noteq> []" "list_all plain_operation ops" "\<not> rx_test search_marker (render_diff ops)"
  shows "parse_patch_operations json (render_diff ops) = Some ops"
proof -
  obtain t where t: "render_diff ops = 64 # 64 # t"
  proof -
    obtain op ops' where ops: "ops = op # ops'" using assms(1) by (cases ops) simp_all
    then obtain ls where "concat (map render_hunk ops) = js ''@@'' # ls" by (simp add: render_hunk_def)
    then show ?thesis using that unfolding render_diff_def by (cases ls) simp_all
  qed
  have "json_operations json (render_diff ops) = None"
    by (simp add: json_operations_def t js_blank_def begins_with_def)
  moreover have "includes_text (render_diff ops) (js ''@@'')"
    by (simp add: t begins_with_def)
  ultimately show ?thesis
    using assms by (simp add: parse_patch_operations_def parse_rendered_diff)
qed

lemma parse_blocks_text:
  assumes "ops \<noteq> []" "list_all block_expressible ops"
  shows "parse_patch_operations json (render_blocks ops) = Some ops"
proof -
  obtain op ops' where ops: "ops = op # ops'" using assms(1) by (cases ops) simp_all
  then obtain t where t: "render_blocks ops = 60 # t"
    by (simp add: render_blocks_def render_block_def)
  obtain s where s: "render_blocks ops = js ''<<<<<<< SEARCH'' @ s"
    by (simp add: ops render_blocks_def render_block_def del: js_simps(2))
  have "rx_match search_marker (render_blocks ops) \<noteq> None"
    using search_header [of "[]" s "([], s)"] unfolding s by (simp del: js_simps(2))
  then have "rx_test search_marker (render_blocks ops)" by (simp add: t)
  moreover have "json_operations json (render_blocks ops) = None"
    by (simp add: json_operations_def t js_blank_def begins_with_def)
  ultimately show ?thesis
    using assms(2) by (simp add: parse_patch_operations_def parse_rendered_blocks)
qed

lemma apply_patch_cases:
  assumes "apply_patch json defaults path patch given fs = Some (res, fs')"
  obtains (refused) e where "res = patch_fail e" "fs' = fs"
    | (ran) original ops where "fs path = Some original" "ops \<noteq> []"
        "(res, fs') = apply_operations defaults path original ops given fs"
  using assms by (auto simp: apply_patch_def split: option.splits if_splits)

section \<open>Properties\<close>



text \<open>
  An operation with nothing to search for appends its lines. Any other replaces the first block of consecutive lines of which at
  least the required share is close to the searched lines, and keeps every other line; when no block is
  close enough, the lines stay as they are and the error names the first line.
\<close>

theorem operation_replaces_first_close_block:
  "apply_operation ls op opts =
    (if opSearch op = [] then \<lparr>orLines = ls @ opReplace op, orApplied = True, orError = None\<rparr>
     else if \<exists>start. close_block ls (opSearch op) opts start then
       let start = (LEAST start. close_block ls (opSearch op) opts start) in
         \<lparr>orLines = take start ls @ opReplace op @ drop (start + length (opSearch op)) ls,
          orApplied = True, orError = None\<rparr>
     else \<lparr>orLines = ls, orApplied = False, orError = Some (CannotLocate (take 80 (hd (opSearch op))))\<rparr>)"
proof (cases "locate_block ls (opSearch op) opts")
  case None
  then have "\<nexists>start. close_block ls (opSearch op) opts start" by (simp add: locate_block_None)
  with None show ?thesis by (simp add: apply_operation_def Let_def)
next
  case (Some s)
  then have s: "close_block ls (opSearch op) opts s" "\<forall>s' < s. \<not> close_block ls (opSearch op) opts s'"
    by (simp_all add: locate_block_Some)
  then have "(LEAST start. close_block ls (opSearch op) opts start) = s"
    by (intro Least_equality) (auto simp: not_less [symmetric])
  moreover have "\<exists>start. close_block ls (opSearch op) opts start" using s(1) by blast
  ultimately show ?thesis using Some by (simp add: apply_operation_def Let_def)
qed



text \<open>
  A call changes at most the file it was given, and only when the file exists, a hunk was applied and
  the options ask for writing; the content written is the content reported. Success means that there were
  no errors.
\<close>

theorem patch_touches_only_its_file:
  assumes "apply_patch json defaults path patch given fs = Some (res, fs')"
  shows "fs' = (if fs path \<noteq> None \<and> 0 < prAppliedHunks res \<and> poWrite (merged_options defaults given) \<and>
            \<not> poDryRun (merged_options defaults given)
          then fs(path \<mapsto> prContent res) else fs) \<and>
    prSuccess res = (prErrors res = [])"
  using assms
proof (cases rule: apply_patch_cases)
  case (refused e)
  then show ?thesis by (simp add: patch_fail_def)
next
  case (ran original ops)
  let ?st = "apply_operations_to_lines original ops (merged_options defaults given)"
  have "length ops - puApplied ?st = length (puErrors ?st)"
    using run_counts [of original ops "merged_options defaults given"] by linarith
  moreover have "puErrors ?st = [] \<Longrightarrow> 0 < puApplied ?st"
    using run_counts [of original ops "merged_options defaults given"] ran(2) by (cases ops) auto
  ultimately show ?thesis
    using ran by (auto simp: apply_operations_def Let_def run_success_def run_failed_def)
qed

theorem patch_touches_only_its_file_witness:
  "\<exists>res fs'. apply_patch (\<lambda>_. None) (new_patcher no_options) ''f''
        (render_diff [\<lparr>opSearch = [js ''a''], opReplace = [js ''b'']\<rparr>]) no_options
        [''f'' \<mapsto> js ''a'', ''g'' \<mapsto> js ''a''] = Some (res, fs') \<and>
    prSuccess res \<and> fs' = [''f'' \<mapsto> js ''b'', ''g'' \<mapsto> js ''a'']"
proof -
  let ?op = "\<lparr>opSearch = [js ''a''], opReplace = [js ''b'']\<rparr>"
  let ?fs = "[''f'' \<mapsto> js ''a'', ''g'' \<mapsto> js ''a'']"
  let ?opts = "merged_options (new_patcher no_options) no_options"
  have opts: "poContextMatchRatio ?opts \<le> 1" "poWrite ?opts" "\<not> poDryRun ?opts"
    by (simp_all add: merged_options_def new_patcher_def no_options_def or_default_def)
  have parsed: "parse_patch_operations (\<lambda>_. None) (render_diff [?op]) = Some [?op]"
    by (rule parse_diff_text)
      (simp_all add: plain_operation_def plain_line_def render_diff_def render_hunk_def search_marker_def rx_three_def)
  obtain res fs' where run: "apply_operations (new_patcher no_options) ''f'' (js ''a'') [?op] no_options ?fs = (res, fs')"
    by (cases "apply_operations (new_patcher no_options) ''f'' (js ''a'') [?op] no_options ?fs")
  then have call: "apply_patch (\<lambda>_. None) (new_patcher no_options) ''f'' (render_diff [?op]) no_options ?fs = Some (res, fs')"
    by (simp add: apply_patch_def parsed del: js_simps(2))
  have "locate_block [js ''a''] [js ''a''] ?opts = Some 0"
    using verbatim_close [OF opts(1), of "[]" "[js ''a'']" "[]"] by (simp add: locate_block_Some)
  then have "prAppliedHunks res = 1 \<and> prContent res = js ''b'' \<and> prErrors res = []"
    using run by (auto simp: apply_operations_def apply_operations_single apply_hunk_def apply_operation_def
        run_content_def Let_def)
  with patch_touches_only_its_file [OF call] opts call show ?thesis by auto
qed

section \<open>Texts that do not mean what they say\<close>

lemmas rx_evaluation =
  block_re_def search_marker_def rx_three_def rx_word_def lower_unit_def js_blank_def

lemma parse_one_block:
  "rx_match block_re s = Some ([c, d], []) \<Longrightarrow>
    parse_search_replace_blocks s = [\<lparr>opSearch = split_lines c, opReplace = split_lines d\<rparr>]"
  by (simp add: parse_search_replace_blocks_def match_all_hit match_all_Nil block_operation_def)

text \<open>
  A SEARCH/REPLACE block cannot delete lines: an empty replacement is one empty line, which stays in the
  place of the block.
\<close>

lemma deletion_block_leaves_empty_line:
  "parse_search_replace_blocks
     (js ''<<<<<<< SEARCH'' @ 10 # js ''a'' @ 10 # js ''======='' @ 10 # js ''>>>>>>> REPLACE'') =
     [\<lparr>opSearch = [js ''a''], opReplace = [[]]\<rparr>]"
proof -
  have "rx_match block_re (js ''<<<<<<< SEARCH'' @ 10 # js ''a'' @ 10 # js ''======='' @ 10 # js ''>>>>>>> REPLACE'') =
      Some ([js ''a'', []], [])"
    by (simp add: rx_evaluation)
  from parse_one_block [OF this] show ?thesis by simp
qed

text \<open>
  Nor can it append: an empty search part is one empty line, and is close to any line of at most
  \<open>maxEditDistance\<close> units, which is replaced.
\<close>

lemma empty_search_block_replaces_short_line:
  "run_content (apply_operations_to_lines (js ''}'' @ 10 # js ''end'')
     (parse_search_replace_blocks
       (js ''<<<<<<< SEARCH'' @ 10 # js ''======='' @ 10 # js ''b'' @ 10 # js ''>>>>>>> REPLACE''))
     (merged_options (new_patcher no_options) no_options)) = js ''b'' @ 10 # js ''end''"
proof -
  have "rx_match block_re (js ''<<<<<<< SEARCH'' @ 10 # js ''======='' @ 10 # js ''b'' @ 10 # js ''>>>>>>> REPLACE'') =
      Some ([[], js ''b''], [])"
    by (simp add: rx_evaluation)
  moreover have "fuzzy_match (js ''}'') [] 4"
    by (simp add: fuzzy_match_def normalise_line_def trim_end_def js_blank_def edit_distance_def)
  moreover from this have "locate_block [js ''}'', js ''end''] [[]] (merged_options (new_patcher no_options) no_options) = Some 0"
    by (simp add: locate_block_Some close_block_single merged_options_def new_patcher_def no_options_def or_default_def)
  ultimately show ?thesis
    by (simp add: parse_one_block apply_operations_single apply_hunk_def apply_operation_def run_content_def)
qed

text \<open>The blank lines a search part starts with are taken for the end of its marker.\<close>

lemma leading_blank_line_lost:
  "parse_search_replace_blocks
     (js ''<<<<<<< SEARCH'' @ 10 # 10 # js ''a'' @ 10 # js ''======='' @ 10 # js ''b'' @ 10 # js ''>>>>>>> REPLACE'') =
     [\<lparr>opSearch = [js ''a''], opReplace = [js ''b'']\<rparr>]"
proof -
  have "rx_match block_re
      (js ''<<<<<<< SEARCH'' @ 10 # 10 # js ''a'' @ 10 # js ''======='' @ 10 # js ''b'' @ 10 # js ''>>>>>>> REPLACE'') =
      Some ([js ''a'', js ''b''], [])"
    by (simp add: rx_evaluation)
  from parse_one_block [OF this] show ?thesis by simp
qed

text \<open>The header of the second file of a diff is read as a removed and an added line of the last hunk.\<close>

lemma second_file_header_in_hunk:
  "parse_unified_diff
     (js ''@@ -1 +1 @@'' @ 10 # js ''-a'' @ 10 # js ''+b'' @ 10 # js ''--- a/y'' @ 10 # js ''+++ b/y'') =
     [\<lparr>opSearch = [js ''a'', js ''-- a/y''], opReplace = [js ''b'', js ''++ b/y'']\<rparr>]"
  by (simp add: parse_unified_diff_def begins_with_def hunk_operation_def hunk_line_def)

end
