(* ===== verification/WorkerHost.thy ===== *)
theory WorkerHost
  imports JsValue Interfaces
begin

text \<open>
  \<open>src/packages/contracts/src/worker-host.ts\<close>: the messages between the engine (the child process) and the
  desktop host. Guards work on values of type \<open>unknown\<close>; what passes one is read into a datatype
  with one constructor per form of message. \<open>JSON.stringify\<close> is a parameter that returns the number of bytes
  of the encoding, or \<open>None\<close> when it throws or encodes nothing.
\<close>

section \<open>Vocabulary\<close>

definition max_message_bytes :: nat where "max_message_bytes = 1000000"
definition max_pending_requests :: nat where "max_pending_requests = 32"
definition max_pending_claims :: nat where "max_pending_claims = 16"

datatype host_operation =
    CodexAuth | ClaudeInvoke | WorkspaceResolve | ExecutionClaim | ExecutionRelease
  | ConsultDispatch | ConsultWait | ConsultCancel
  | AutomationValidate | AutomationDispatch | AutomationWait | AutomationStatus | AutomationCancel

definition host_operations :: "(string \<times> host_operation) list" where
  "host_operations =
     [(''codex.auth'', CodexAuth), (''claude.invoke'', ClaudeInvoke),
      (''workspace.resolve'', WorkspaceResolve), (''execution.claim'', ExecutionClaim),
      (''execution.release'', ExecutionRelease), (''consult.dispatch'', ConsultDispatch),
      (''consult.wait'', ConsultWait), (''consult.cancel'', ConsultCancel),
      (''automation.validate'', AutomationValidate), (''automation.dispatch'', AutomationDispatch),
      (''automation.wait'', AutomationWait), (''automation.status'', AutomationStatus),
      (''automation.cancel'', AutomationCancel)]"

definition operation_name :: "host_operation \<Rightarrow> jstr" where
  "operation_name op = (case find (\<lambda>p. snd p = op) host_operations of Some p \<Rightarrow> js (fst p) | None \<Rightarrow> [])"

text \<open>\<open>isWorkerHostOperation\<close>, with the operation it recognises.\<close>

definition read_operation :: "jsval \<Rightarrow> host_operation option" where
  "read_operation v = (case v of
       Str t \<Rightarrow> map_option snd (find (\<lambda>p. js (fst p) = t) host_operations)
     | _ \<Rightarrow> None)"

definition hex_digit :: "nat \<Rightarrow> bool" where
  "hex_digit u = (48 \<le> u \<and> u \<le> 57 \<or> 65 \<le> u \<and> u \<le> 70 \<or> 97 \<le> u \<and> u \<le> 102)"

text \<open>\<open>WORKER_HOST_REQUEST_ID_PATTERN\<close>: a UUID of version 4, in either case.\<close>

definition uuid_unit :: "nat \<Rightarrow> nat \<Rightarrow> bool" where
  "uuid_unit i u =
     (if i \<in> {8, 13, 18, 23} then u = 45
      else if i = 14 then u = 52
      else if i = 19 then u \<in> {56, 57, 65, 66, 97, 98}
      else hex_digit u)"

definition uuid_v4 :: "jstr \<Rightarrow> bool" where
  "uuid_v4 t = (length t = 36 \<and> list_all (\<lambda>p. uuid_unit (fst p) (snd p)) (enumerate 0 t))"

definition bot_id_unit :: "nat \<Rightarrow> bool" where
  "bot_id_unit u = (97 \<le> u \<and> u \<le> 122 \<or> 48 \<le> u \<and> u \<le> 57)"

definition bot_id_text :: "jstr \<Rightarrow> bool" where
  "bot_id_text t = (case t of
       [] \<Rightarrow> False
     | u # us \<Rightarrow> bot_id_unit u \<and> length us \<le> 63 \<and> list_all (\<lambda>v. bot_id_unit v \<or> v = 95 \<or> v = 45) us)"

section \<open>Messages\<close>

record message_identity =
  miId :: jstr
  miBot :: jstr
  miSequence :: nat

record host_request =
  hqOperation :: host_operation
  hqPayload :: jsval

datatype client_message =
    CallMessage message_identity host_request
  | CancelMessage message_identity
  | AckMessage message_identity

datatype response_message =
    SuccessMessage message_identity jsval
  | FailureMessage message_identity "jstr option" "jstr option"

section \<open>Guards\<close>

definition has_message_identity :: "jsval \<Rightarrow> bool" where
  "has_message_identity v =
     (getp v ''protocol'' = Str (js ''doolittle-worker-host-v1'') \<and>
      (case getp v ''id'' of Str t \<Rightarrow> uuid_v4 t | _ \<Rightarrow> False) \<and>
      (case getp v ''botId'' of Str t \<Rightarrow> bot_id_text t | _ \<Rightarrow> False) \<and>
      is_safe_integer (getp v ''sequence'') \<and> positive_number (getp v ''sequence''))"

definition is_client_message :: "jsval \<Rightarrow> bool" where
  "is_client_message v =
     (if \<not> is_record v \<or> \<not> has_message_identity v \<or> getp v ''ok'' \<noteq> Undef then False
      else if getp v ''cancel'' = JBool True then getp v ''ack'' = Undef \<and> getp v ''operation'' = Undef
      else if getp v ''ack'' = JBool True then getp v ''cancel'' = Undef \<and> getp v ''operation'' = Undef
      else getp v ''cancel'' = Undef \<and> getp v ''ack'' = Undef \<and> read_operation (getp v ''operation'') \<noteq> None)"

definition optional_string :: "jsval \<Rightarrow> bool" where
  "optional_string v = (v = Undef \<or> is_string v)"

definition is_response_message :: "jsval \<Rightarrow> bool" where
  "is_response_message v =
     (if \<not> is_record v \<or> \<not> has_message_identity v \<or> getp v ''cancel'' \<noteq> Undef \<or> getp v ''ack'' \<noteq> Undef \<or>
        getp v ''operation'' \<noteq> Undef then False
      else if getp v ''ok'' = JBool True then getp v ''code'' = Undef \<and> getp v ''error'' = Undef
      else getp v ''ok'' = JBool False \<and> optional_string (getp v ''code'') \<and> optional_string (getp v ''error''))"

definition within_limit :: "(jsval \<Rightarrow> nat option) \<Rightarrow> jsval \<Rightarrow> bool" where
  "within_limit json_bytes v = (case json_bytes v of Some n \<Rightarrow> n \<le> max_message_bytes | None \<Rightarrow> False)"

section \<open>Reading and writing messages\<close>

definition value_text :: "jsval \<Rightarrow> jstr" where
  "value_text v = (case v of Str t \<Rightarrow> t | _ \<Rightarrow> [])"

definition value_nat :: "jsval \<Rightarrow> nat" where
  "value_nat v = (case v of Num (Fin r) \<Rightarrow> nat (floor r) | _ \<Rightarrow> 0)"

definition optional_text :: "jsval \<Rightarrow> jstr option" where
  "optional_text v = (case v of Str t \<Rightarrow> Some t | _ \<Rightarrow> None)"

definition read_identity :: "jsval \<Rightarrow> message_identity" where
  "read_identity v =
     \<lparr>miId = value_text (getp v ''id''), miBot = value_text (getp v ''botId''),
      miSequence = value_nat (getp v ''sequence'')\<rparr>"

definition read_client_message :: "(jsval \<Rightarrow> nat option) \<Rightarrow> jsval \<Rightarrow> client_message option" where
  "read_client_message json_bytes v =
     (if \<not> is_client_message v \<or> \<not> within_limit json_bytes v then None
      else if getp v ''cancel'' = JBool True then Some (CancelMessage (read_identity v))
      else if getp v ''ack'' = JBool True then Some (AckMessage (read_identity v))
      else (case read_operation (getp v ''operation'') of
          None \<Rightarrow> None
        | Some op \<Rightarrow>
            Some (CallMessage (read_identity v) \<lparr>hqOperation = op, hqPayload = getp v ''payload''\<rparr>)))"

definition read_response_message :: "(jsval \<Rightarrow> nat option) \<Rightarrow> jsval \<Rightarrow> response_message option" where
  "read_response_message json_bytes v =
     (if \<not> is_response_message v \<or> \<not> within_limit json_bytes v then None
      else if getp v ''ok'' = JBool True then Some (SuccessMessage (read_identity v) (getp v ''result''))
      else Some (FailureMessage (read_identity v) (optional_text (getp v ''code'')) (optional_text (getp v ''error''))))"

definition identity_fields :: "message_identity \<Rightarrow> (string \<times> jsval) list" where
  "identity_fields i =
     [(''protocol'', Str (js ''doolittle-worker-host-v1'')), (''id'', Str (miId i)),
      (''botId'', Str (miBot i)), (''sequence'', Num (Fin (of_nat (miSequence i))))]"

definition envelope :: "message_identity \<Rightarrow> (string \<times> jsval) list \<Rightarrow> jsval" where
  "envelope i fs = Obj (identity_fields i @ fs)"

fun client_value :: "client_message \<Rightarrow> jsval" where
  "client_value (CallMessage i q) =
     envelope i [(''operation'', Str (operation_name (hqOperation q))), (''payload'', hqPayload q)]"
| "client_value (CancelMessage i) = envelope i [(''cancel'', JBool True)]"
| "client_value (AckMessage i) = envelope i [(''ack'', JBool True)]"

definition optional_field :: "string \<Rightarrow> jstr option \<Rightarrow> (string \<times> jsval) list" where
  "optional_field k t = (case t of None \<Rightarrow> [] | Some s \<Rightarrow> [(k, Str s)])"

fun response_value :: "response_message \<Rightarrow> jsval" where
  "response_value (SuccessMessage i r) = envelope i [(''ok'', JBool True), (''result'', r)]"
| "response_value (FailureMessage i c e) =
     envelope i ((''ok'', JBool False) # optional_field ''code'' c @ optional_field ''error'' e)"

section \<open>Round trips\<close>

definition valid_identity :: "message_identity \<Rightarrow> bool" where
  "valid_identity i =
     (uuid_v4 (miId i) \<and> bot_id_text (miBot i) \<and> 0 < miSequence i \<and> int (miSequence i) \<le> 2 ^ 53 - 1)"

lemma read_operation_name: "read_operation (Str (operation_name op)) = Some op"
  by (cases op) (simp_all add: read_operation_def operation_name_def host_operations_def del: js_simps(2))

lemma envelope_guard: "has_message_identity (envelope i fs) = valid_identity i"
  using is_safe_integer_int [of "int (miSequence i)"]
  by (auto simp: envelope_def has_message_identity_def identity_fields_def valid_identity_def positive_number_def
      is_number_def simp del: js_simps(2))

lemma envelope_read: "read_identity (envelope i fs) = i"
  by (simp add: envelope_def read_identity_def identity_fields_def value_text_def value_nat_def)

lemma envelope_record: "is_record (envelope i fs)"
  by (simp add: envelope_def is_record_def)

lemma envelope_others:
  "k \<notin> {''protocol'', ''id'', ''botId'', ''sequence''} \<Longrightarrow> getp (envelope i fs) k = getp (Obj fs) k"
  by (auto simp: envelope_def identity_fields_def)

lemmas envelope_simps = envelope_guard envelope_read envelope_record envelope_others

fun client_identity :: "client_message \<Rightarrow> message_identity" where
  "client_identity (CallMessage i q) = i"
| "client_identity (CancelMessage i) = i"
| "client_identity (AckMessage i) = i"

fun response_identity :: "response_message \<Rightarrow> message_identity" where
  "response_identity (SuccessMessage i r) = i"
| "response_identity (FailureMessage i c e) = i"

lemma client_value_accepted: "is_client_message (client_value m) = valid_identity (client_identity m)"
  by (cases m) (simp_all add: is_client_message_def envelope_simps read_operation_name)

lemma read_client_value:
  "valid_identity (client_identity m) \<Longrightarrow> within_limit b (client_value m) \<Longrightarrow>
    read_client_message b (client_value m) = Some m"
  by (cases m) (simp_all add: read_client_message_def client_value_accepted [simplified] envelope_simps
      read_operation_name is_client_message_def)

lemma response_value_accepted: "is_response_message (response_value m) = valid_identity (response_identity m)"
  by (cases m) (simp_all add: is_response_message_def envelope_simps optional_field_def optional_string_def
      is_string_def split: option.split)

lemma read_response_value:
  "valid_identity (response_identity m) \<Longrightarrow> within_limit b (response_value m) \<Longrightarrow>
    read_response_message b (response_value m) = Some m"
  unfolding read_response_message_def response_value_accepted
  by (cases m) (simp_all add: envelope_simps optional_field_def optional_text_def split: option.split)

interpretation client_format: text_format client_value "\<lambda>v. the (read_client_message b v)"
  "\<lambda>m. valid_identity (client_identity m) \<and> within_limit b (client_value m)" for b
  by unfold_locales (simp add: read_client_value)

interpretation response_format: text_format response_value "\<lambda>v. the (read_response_message b v)"
  "\<lambda>m. valid_identity (response_identity m) \<and> within_limit b (response_value m)" for b
  by unfold_locales (simp add: read_response_value)

section \<open>What the guards let through\<close>

lemma safe_integer_value:
  assumes "is_safe_integer v" "positive_number v"
  shows "0 < value_nat v" "int (value_nat v) \<le> 2 ^ 53 - 1"
proof -
  from assms obtain r where v: "v = Num (Fin r)" "snd (quotient_of r) = 1" "\<bar>fst (quotient_of r)\<bar> \<le> 2 ^ 53 - 1" "0 < r"
    by (auto simp: is_safe_integer_def positive_number_def split: jsval.splits number.splits)
  have r: "r = of_int (fst (quotient_of r))"
    using quotient_of_div [of r "fst (quotient_of r)" 1] v(2) by (metis div_by_1 of_int_1 prod.collapse)
  define n where "n = fst (quotient_of r)"
  have n: "r = of_int n" unfolding n_def by (rule r)
  have "0 < n" using v(4) unfolding n by simp
  moreover have "n \<le> 2 ^ 53 - 1" using v(3) unfolding n_def by (rule abs_le_D1)
  moreover have "value_nat v = nat n" by (simp add: v(1) value_nat_def n)
  ultimately show "0 < value_nat v" "int (value_nat v) \<le> 2 ^ 53 - 1" by simp_all
qed

lemma read_identity_valid: "has_message_identity v \<Longrightarrow> valid_identity (read_identity v)"
  using safe_integer_value [of "getp v ''sequence''"]
  by (auto simp: has_message_identity_def valid_identity_def read_identity_def value_text_def split: jsval.splits)

section \<open>Properties\<close>


definition sample_valid_identity :: message_identity where
  "sample_valid_identity =
     \<lparr>miId = js ''00000000-0000-4000-8000-000000000000'', miBot = js ''lead'', miSequence = 7\<rparr>"

lemma sample_valid: "valid_identity sample_valid_identity"
  by (simp add: sample_valid_identity_def valid_identity_def uuid_v4_def uuid_unit_def hex_digit_def
      bot_id_text_def bot_id_unit_def)


end
