(* ===== verification/WorkerHostRpc.thy ===== *)
theory WorkerHostRpc
  imports WorkerHost
begin

text \<open>
  The two ends of the worker-to-host calls: \<open>attachWorkerHostRpc\<close> in
  \<open>src/apps/desktop/src/main/worker-host-rpc.ts\<close> and \<open>requestWorkerHost\<close> in
  \<open>src/packages/agent/src/runtime/bootstrap/worker-host-rpc.ts\<close>, and a link that connects them by two
  channels which may lose and reorder messages but do not invent them.

  A pending request of the host is an object that the map, the timer and the promise of the handler
  share; the objects are kept in a store by their sequence, the map leads from the identifier to the sequence.
  Ghosts: \<open>heRunning\<close> (the handler's promise has not settled), \<open>hrRolled\<close> (the calls of \<open>onAbandonedResult\<close>),
  \<open>rcSettled\<close> (how the promises of the client were settled).
\<close>

section \<open>The host\<close>

record host_entry =
  heId :: jstr
  heRequest :: host_request
  heAborted :: bool
  heResultKnown :: bool
  heResult :: jsval
  heAbandoned :: bool
  heAcknowledged :: bool
  heRolledBack :: bool
  heTimer :: bool
  heRunning :: bool

record host_rpc =
  hrBot :: jstr
  hrConnected :: bool
  hrDisposed :: bool
  hrLastSequence :: nat
  hrRequests :: "(jstr, nat) jsmap"
  hrEntries :: "nat \<Rightarrow> host_entry option"
  hrRolled :: "nat list"

definition attach_worker_host_rpc :: "jstr \<Rightarrow> host_rpc" where
  "attach_worker_host_rpc botId =
     \<lparr>hrBot = botId, hrConnected = True, hrDisposed = False, hrLastSequence = 0, hrRequests = [],
      hrEntries = Map.empty, hrRolled = []\<rparr>"

definition new_host_entry :: "jstr \<Rightarrow> host_request \<Rightarrow> host_entry" where
  "new_host_entry i q =
     \<lparr>heId = i, heRequest = q, heAborted = False, heResultKnown = False, heResult = Undef,
      heAbandoned = False, heAcknowledged = False, heRolledBack = False, heTimer = False, heRunning = True\<rparr>"

definition update_entry :: "nat \<Rightarrow> (host_entry \<Rightarrow> host_entry) \<Rightarrow> host_rpc \<Rightarrow> host_rpc" where
  "update_entry q f s = s\<lparr>hrEntries := (hrEntries s)(q := map_option f (hrEntries s q))\<rparr>"

definition message_to_child :: "host_rpc \<Rightarrow> jstr \<Rightarrow> nat \<Rightarrow> message_identity" where
  "message_to_child s i q = \<lparr>miId = i, miBot = hrBot s, miSequence = q\<rparr>"

definition reject_request :: "jstr \<Rightarrow> nat \<Rightarrow> host_rpc \<Rightarrow> response_message list" where
  "reject_request i q s =
     (if \<not> hrConnected s then []
      else [FailureMessage (message_to_child s i q) (Some (js ''host_backpressure'')) None])"

definition finish_call :: "nat \<Rightarrow> host_rpc \<Rightarrow> host_rpc" where
  "finish_call q s =
     (case hrEntries s q of
        None \<Rightarrow> s
      | Some e \<Rightarrow>
          let s1 = (if map_of (hrRequests s) (heId e) = Some q
              then s\<lparr>hrRequests := AList.delete (heId e) (hrRequests s)\<rparr> else s)
          in update_entry q (heTimer_update (\<lambda>_. False)) s1)"

definition rollback_request :: "nat \<Rightarrow> host_rpc \<Rightarrow> host_rpc" where
  "rollback_request q s =
     (case hrEntries s q of
        None \<Rightarrow> s
      | Some e \<Rightarrow>
          if \<not> heResultKnown e \<or> heRolledBack e then s
          else (update_entry q (heRolledBack_update (\<lambda>_. True)) s)\<lparr>hrRolled := hrRolled s @ [q]\<rparr>)"

definition abandon_request :: "nat \<Rightarrow> host_rpc \<Rightarrow> host_rpc" where
  "abandon_request q s =
     (case hrEntries s q of
        None \<Rightarrow> s
      | Some e \<Rightarrow>
          if heAcknowledged e \<or> heAbandoned e then s
          else finish_call q (rollback_request q
                 (update_entry q (\<lambda>e. e\<lparr>heAbandoned := True, heAborted := True\<rparr>) s)))"

definition claims_in_flight :: "host_rpc \<Rightarrow> nat" where
  "claims_in_flight s =
     length (filter (\<lambda>p. case hrEntries s (snd p) of
         Some e \<Rightarrow> hqOperation (heRequest e) = ExecutionClaim | None \<Rightarrow> False) (hrRequests s))"

text \<open>\<open>onMessage\<close>, on a message that passed the guards.\<close>

definition host_call :: "message_identity \<Rightarrow> host_request \<Rightarrow> host_rpc \<Rightarrow> host_rpc \<times> response_message list" where
  "host_call i request s =
     (if miSequence i \<le> hrLastSequence s then (s, reject_request (miId i) (miSequence i) s)
      else
        let s1 = s\<lparr>hrLastSequence := miSequence i\<rparr> in
        if jm_has (hrRequests s1) (miId i) \<or> max_pending_requests \<le> length (hrRequests s1) \<or>
          (hqOperation request = ExecutionClaim \<and> max_pending_claims \<le> claims_in_flight s1)
        then (s1, reject_request (miId i) (miSequence i) s1)
        else (s1\<lparr>hrRequests := AList.update (miId i) (miSequence i) (hrRequests s1),
                 hrEntries := (hrEntries s1)(miSequence i \<mapsto> new_host_entry (miId i) request)\<rparr>, []))"

definition host_cancel :: "message_identity \<Rightarrow> host_rpc \<Rightarrow> host_rpc" where
  "host_cancel i s =
     (case map_of (hrRequests s) (miId i) of
        Some q \<Rightarrow> if q = miSequence i then abandon_request q s else s
      | None \<Rightarrow> s)"

definition host_ack :: "message_identity \<Rightarrow> host_rpc \<Rightarrow> host_rpc" where
  "host_ack i s =
     (case map_of (hrRequests s) (miId i) of
        Some q \<Rightarrow>
          (case hrEntries s q of
             Some e \<Rightarrow>
               if q = miSequence i \<and> heResultKnown e \<and> \<not> heAbandoned e
               then finish_call q (update_entry q (heAcknowledged_update (\<lambda>_. True)) s) else s
           | None \<Rightarrow> s)
      | None \<Rightarrow> s)"

definition host_message :: "client_message \<Rightarrow> host_rpc \<Rightarrow> host_rpc \<times> response_message list" where
  "host_message m s =
     (case m of
        CancelMessage i \<Rightarrow> if hrDisposed s \<or> miBot i \<noteq> hrBot s then (s, []) else (host_cancel i s, [])
      | AckMessage i \<Rightarrow> if hrDisposed s \<or> miBot i \<noteq> hrBot s then (s, []) else (host_ack i s, [])
      | CallMessage i request \<Rightarrow>
          if hrDisposed s \<or> miBot i \<noteq> hrBot s then (s, []) else host_call i request s)"

text \<open>The guards in front of it.\<close>

definition host_on_value ::
  "(jsval \<Rightarrow> nat option) \<Rightarrow> jsval \<Rightarrow> host_rpc \<Rightarrow> host_rpc \<times> response_message list" where
  "host_on_value json_bytes v s =
     (case read_client_message json_bytes v of None \<Rightarrow> (s, []) | Some m \<Rightarrow> host_message m s)"

text \<open>The two settlements of the handler's promise; \<open>throws\<close> tells whether \<open>child.send\<close> throws.\<close>

definition host_result :: "nat \<Rightarrow> jsval \<Rightarrow> bool \<Rightarrow> host_rpc \<Rightarrow> host_rpc \<times> response_message list" where
  "host_result q r throws s =
     (case hrEntries s q of
        None \<Rightarrow> (s, [])
      | Some e \<Rightarrow>
          if \<not> heRunning e then (s, [])
          else
            let s1 = update_entry q (\<lambda>e. e\<lparr>heRunning := False, heResultKnown := True, heResult := r\<rparr>) s in
            if heAbandoned e \<or> hrDisposed s \<or> \<not> hrConnected s
            then (rollback_request q (abandon_request q s1), [])
            else
              let s2 = update_entry q (heTimer_update (\<lambda>_. True)) s1 in
              if throws then (abandon_request q s2, [])
              else (s2, [SuccessMessage (message_to_child s (heId e) q) r]))"

definition automation_failure_text :: jstr where
  "automation_failure_text = js ''Named automation approval, grant, or worker is unavailable. Review the target and saved fire identity before retrying; uncertain submissions are never replayed.''"

definition is_automation :: "host_operation \<Rightarrow> bool" where
  "is_automation op =
     (op \<in> {AutomationValidate, AutomationDispatch, AutomationWait, AutomationStatus, AutomationCancel})"

definition host_failure :: "nat \<Rightarrow> bool \<Rightarrow> host_rpc \<Rightarrow> host_rpc \<times> response_message list" where
  "host_failure q throws s =
     (case hrEntries s q of
        None \<Rightarrow> (s, [])
      | Some e \<Rightarrow>
          if \<not> heRunning e then (s, [])
          else
            let s1 = update_entry q (heRunning_update (\<lambda>_. False)) s in
            if heAbandoned e \<or> hrDisposed s \<or> \<not> hrConnected s then (finish_call q s1, [])
            else
              (finish_call q s1,
               if throws then []
               else [if is_automation (hqOperation (heRequest e))
                 then FailureMessage (message_to_child s (heId e) q)
                   (Some (js ''automation_host_failure'')) (Some automation_failure_text)
                 else FailureMessage (message_to_child s (heId e) q) None None]))"

definition host_receipt_timeout :: "nat \<Rightarrow> host_rpc \<Rightarrow> host_rpc" where
  "host_receipt_timeout q s =
     (case hrEntries s q of Some e \<Rightarrow> if heTimer e then abandon_request q s else s | None \<Rightarrow> s)"

text \<open>The error callback of \<open>child.send\<close> for a result, and the function that detaches the child.\<close>

definition host_send_failed :: "nat \<Rightarrow> host_rpc \<Rightarrow> host_rpc" where
  "host_send_failed q s =
     (case hrEntries s q of Some e \<Rightarrow> if heResultKnown e then abandon_request q s else s | None \<Rightarrow> s)"

definition host_dispose :: "host_rpc \<Rightarrow> host_rpc" where
  "host_dispose s =
     foldl (\<lambda>t p. abandon_request (snd p) t) (s\<lparr>hrDisposed := True\<rparr>) (hrRequests s)"

datatype host_event =
    HostMessage client_message
  | HostResult nat jsval bool
  | HostFailure nat bool
  | HostReceiptTimeout nat
  | HostSendFailed nat
  | HostDispose
  | HostDisconnect

fun host_event_step :: "host_rpc \<Rightarrow> host_event \<Rightarrow> host_rpc \<times> response_message list" where
  "host_event_step s (HostMessage m) = host_message m s"
| "host_event_step s (HostResult q r throws) = host_result q r throws s"
| "host_event_step s (HostFailure q throws) = host_failure q throws s"
| "host_event_step s (HostReceiptTimeout q) = (host_receipt_timeout q s, [])"
| "host_event_step s (HostSendFailed q) = (host_send_failed q s, [])"
| "host_event_step s HostDispose = (host_dispose s, [])"
| "host_event_step s HostDisconnect = (s\<lparr>hrConnected := False\<rparr>, [])"

definition host_step :: "host_rpc \<Rightarrow> host_event \<Rightarrow> host_rpc" where
  "host_step s ev = fst (host_event_step s ev)"

section \<open>The client\<close>

datatype rpc_error =
    OperationUnavailable | HostUnavailable | TooManyRequests | TooManyClaims | SequenceExhausted
  | RequestCancelled | NotSerializable | RequestTimedOut | ConnectionUnavailable
  | HostReported jstr | HostBackpressure | HostDisconnected

datatype client_outcome = Resolved jsval | Rejected rpc_error

record client_request =
  cqOperation :: host_operation
  cqSequence :: nat

record rpc_client =
  rcBot :: "jstr option"
  rcChannel :: bool
  rcPending :: "(jstr, client_request) jsmap"
  rcLast :: nat
  rcSettled :: "(nat \<times> client_outcome) list"

definition new_rpc_client :: "jstr option \<Rightarrow> bool \<Rightarrow> rpc_client" where
  "new_rpc_client botId channel =
     \<lparr>rcBot = botId, rcChannel = channel, rcPending = [], rcLast = 0, rcSettled = []\<rparr>"

text \<open>
  \<open>requestWorkerHost\<close>: a rejection, or the sequence of the promise that is now pending. \<open>request_id\<close> is the
  fresh UUID, \<open>aborted\<close> the state of the signal.
\<close>

definition request_worker_host ::
  "(jsval \<Rightarrow> nat option) \<Rightarrow> jsval \<Rightarrow> jsval \<Rightarrow> bool \<Rightarrow> jstr \<Rightarrow> rpc_client \<Rightarrow>
     ((rpc_error + nat) \<times> rpc_client) \<times> client_message list" where
  "request_worker_host json_bytes operation payload aborted request_id c =
     (case read_operation operation of
        None \<Rightarrow> ((Inl OperationUnavailable, c), [])
      | Some op \<Rightarrow>
          (case rcBot c of
             None \<Rightarrow> ((Inl HostUnavailable, c), [])
           | Some botId \<Rightarrow>
               if \<not> rcChannel c then ((Inl HostUnavailable, c), [])
               else if max_pending_requests \<le> length (rcPending c) then ((Inl TooManyRequests, c), [])
               else if op = ExecutionClaim \<and>
                 max_pending_claims \<le> length (filter (\<lambda>p. cqOperation (snd p) = ExecutionClaim) (rcPending c))
               then ((Inl TooManyClaims, c), [])
               else if 2 ^ 53 - 1 \<le> rcLast c then ((Inl SequenceExhausted, c), [])
               else if aborted then ((Inl RequestCancelled, c), [])
               else
                 let q = rcLast c + 1;
                     m = CallMessage \<lparr>miId = request_id, miBot = botId, miSequence = q\<rparr>
                           \<lparr>hqOperation = op, hqPayload = payload\<rparr>
                 in
                 if \<not> within_limit json_bytes (client_value m)
                 then ((Inl NotSerializable, c\<lparr>rcLast := q\<rparr>), [])
                 else
                   ((Inr q, c\<lparr>rcLast := q,
                       rcPending := AList.update request_id \<lparr>cqOperation = op, cqSequence = q\<rparr> (rcPending c)\<rparr>),
                    [m])))"

definition settle_request :: "jstr \<Rightarrow> nat \<Rightarrow> client_outcome \<Rightarrow> rpc_client \<Rightarrow> rpc_client" where
  "settle_request i q out c =
     c\<lparr>rcPending := AList.delete i (rcPending c), rcSettled := rcSettled c @ [(q, out)]\<rparr>"

definition failure_error :: "jstr option \<Rightarrow> jstr option \<Rightarrow> rpc_error" where
  "failure_error code msg =
     (if code = Some (js ''automation_host_failure'') \<and>
         (case msg of Some t \<Rightarrow> length t \<le> 512 | None \<Rightarrow> False)
      then HostReported (case msg of Some t \<Rightarrow> t | None \<Rightarrow> [])
      else if code = Some (js ''host_backpressure'') then HostBackpressure
      else ConnectionUnavailable)"

fun response_outcome :: "response_message \<Rightarrow> client_outcome" where
  "response_outcome (SuccessMessage i r) = Resolved r"
| "response_outcome (FailureMessage i code msg) = Rejected (failure_error code msg)"

text \<open>
  The listener, on a response that passed the guards; \<open>throws\<close> tells whether sending the
  acknowledgement throws.
\<close>

definition client_response ::
  "bool \<Rightarrow> response_message \<Rightarrow> rpc_client \<Rightarrow> rpc_client \<times> client_message list" where
  "client_response throws m c =
     (let i = response_identity m in
      if rcBot c \<noteq> Some (miBot i) then (c, [])
      else
        (case map_of (rcPending c) (miId i) of
           None \<Rightarrow> (c, [CancelMessage i])
         | Some q \<Rightarrow>
             if miSequence i \<noteq> cqSequence q then (c, [CancelMessage i])
             else if throws then (settle_request (miId i) (cqSequence q) (Rejected ConnectionUnavailable) c, [])
             else (settle_request (miId i) (cqSequence q) (response_outcome m) c, [AckMessage i])))"

definition client_on_value ::
  "(jsval \<Rightarrow> nat option) \<Rightarrow> bool \<Rightarrow> jsval \<Rightarrow> rpc_client \<Rightarrow> rpc_client \<times> client_message list" where
  "client_on_value json_bytes throws v c =
     (case read_response_message json_bytes v of None \<Rightarrow> (c, []) | Some m \<Rightarrow> client_response throws m c)"

text \<open>The timer and the abort listener of a pending request; both tell the host.\<close>

definition client_give_up :: "rpc_error \<Rightarrow> jstr \<Rightarrow> rpc_client \<Rightarrow> rpc_client \<times> client_message list" where
  "client_give_up err i c =
     (case (map_of (rcPending c) i, rcBot c) of
        (Some q, Some botId) \<Rightarrow>
          (settle_request i (cqSequence q) (Rejected err) c,
           [CancelMessage \<lparr>miId = i, miBot = botId, miSequence = cqSequence q\<rparr>])
      | _ \<Rightarrow> (c, []))"

definition client_send_failed :: "jstr \<Rightarrow> rpc_client \<Rightarrow> rpc_client" where
  "client_send_failed i c =
     (case map_of (rcPending c) i of
        Some q \<Rightarrow> settle_request i (cqSequence q) (Rejected ConnectionUnavailable) c
      | None \<Rightarrow> c)"

definition client_disconnect :: "rpc_client \<Rightarrow> rpc_client" where
  "client_disconnect c =
     foldl (\<lambda>c p. settle_request (fst p) (cqSequence (snd p)) (Rejected HostDisconnected) c) c (rcPending c)"

datatype client_event =
    ClientCall jsval jsval bool jstr
  | ClientResponse bool response_message
  | ClientTimeout jstr
  | ClientAbort jstr
  | ClientSendFailed jstr
  | ClientDisconnect

fun client_event_step ::
  "(jsval \<Rightarrow> nat option) \<Rightarrow> rpc_client \<Rightarrow> client_event \<Rightarrow> rpc_client \<times> client_message list" where
  "client_event_step b c (ClientCall op payload aborted i) =
     (case request_worker_host b op payload aborted i c of ((_, c'), ms) \<Rightarrow> (c', ms))"
| "client_event_step b c (ClientResponse throws m) = client_response throws m c"
| "client_event_step b c (ClientTimeout i) = client_give_up RequestTimedOut i c"
| "client_event_step b c (ClientAbort i) = client_give_up RequestCancelled i c"
| "client_event_step b c (ClientSendFailed i) = (client_send_failed i c, [])"
| "client_event_step b c ClientDisconnect = (client_disconnect c, [])"

section \<open>Both ends over two channels\<close>

record rpc_link =
  lkClient :: rpc_client
  lkHost :: host_rpc
  lkUp :: "client_message list"
  lkDown :: "response_message list"

text \<open>
  A message in a channel is delivered or lost, in any order. The other events of the two ends are
  those that are not the arrival of a message.
\<close>

datatype link_event =
    DeliverUp nat
  | DeliverDown nat bool
  | LoseUp nat
  | LoseDown nat
  | AtClient client_event
  | AtHost host_event

definition remove_nth :: "nat \<Rightarrow> 'a list \<Rightarrow> 'a list" where
  "remove_nth n xs = take n xs @ drop (Suc n) xs"

definition link_client :: "(jsval \<Rightarrow> nat option) \<Rightarrow> client_event \<Rightarrow> rpc_link \<Rightarrow> rpc_link" where
  "link_client b ev l =
     (case client_event_step b (lkClient l) ev of (c, ms) \<Rightarrow> l\<lparr>lkClient := c, lkUp := lkUp l @ ms\<rparr>)"

definition link_host :: "host_event \<Rightarrow> rpc_link \<Rightarrow> rpc_link" where
  "link_host ev l =
     (case host_event_step (lkHost l) ev of (h, ms) \<Rightarrow> l\<lparr>lkHost := h, lkDown := lkDown l @ ms\<rparr>)"

definition arrival :: "link_event \<Rightarrow> bool" where
  "arrival ev = (case ev of
       AtClient (ClientResponse _ _) \<Rightarrow> True | AtHost (HostMessage _) \<Rightarrow> True | _ \<Rightarrow> False)"

fun link_step :: "(jsval \<Rightarrow> nat option) \<Rightarrow> rpc_link \<Rightarrow> link_event \<Rightarrow> rpc_link" where
  "link_step b l (DeliverUp n) =
     (if n < length (lkUp l)
      then link_host (HostMessage (lkUp l ! n)) (l\<lparr>lkUp := remove_nth n (lkUp l)\<rparr>) else l)"
| "link_step b l (DeliverDown n throws) =
     (if n < length (lkDown l)
      then link_client b (ClientResponse throws (lkDown l ! n)) (l\<lparr>lkDown := remove_nth n (lkDown l)\<rparr>) else l)"
| "link_step b l (LoseUp n) = l\<lparr>lkUp := remove_nth n (lkUp l)\<rparr>"
| "link_step b l (LoseDown n) = l\<lparr>lkDown := remove_nth n (lkDown l)\<rparr>"
| "link_step b l (AtClient ev) = (if arrival (AtClient ev) then l else link_client b ev l)"
| "link_step b l (AtHost ev) = (if arrival (AtHost ev) then l else link_host ev l)"

definition new_link :: "jstr \<Rightarrow> rpc_link" where
  "new_link botId =
     \<lparr>lkClient = new_rpc_client (Some botId) True, lkHost = attach_worker_host_rpc botId, lkUp = [], lkDown = []\<rparr>"

end
