(* ===== verification/ExecutionLease.thy ===== *)
theory ExecutionLease
  imports Admission WorkerHostRpc
begin

text \<open>
  The lease an execution of the engine holds at the desktop host: \<open>acquireExecutionLease\<close> and the object it returns
  (\<open>src/packages/agent/src/runtime/execution-admission.ts\<close>), and the release of a claim whose result
  the worker never acknowledged (\<open>src/apps/desktop/src/main/execution-receipt.ts\<close>).

  The closures share four variables, which are the fields of the record. \<open>yieldFor\<close> is cut where it
  awaits the work and the new claim: it starts with \<open>LeaseYield\<close> and goes on with \<open>LeaseReturn\<close>, whose arguments are
  the answer to the new claim (an error stands for a failed or omitted claim as well) and whether
  the signal is aborted by then. Ghosts: the lease identifiers received and the identifiers sent back.
\<close>

section \<open>Answers of the host\<close>

datatype lease_error =
    InvalidRunIdentity
  | AdmissionUnavailable
  | AdmissionLimit refusal
  | InvalidReceipt
  | NotHolding
  | DeadlinePassed
  | LeaseAborted
  | RequestFailed rpc_error

definition refusal_texts :: "(string \<times> refusal) list" where
  "refusal_texts =
     [(''total_limit'', TotalLimit), (''automatic_acp_limit'', AutomaticAcpLimit), (''bot_limit'', BotLimit),
      (''mutation_conflict'', MutationConflict), (''run_exists'', RunExistsAlready), (''queue_full'', QueueFull),
      (''queue_timeout'', QueueTimeout), (''bot_stopped'', BotStopped)]"

definition read_refusal :: "jsval \<Rightarrow> refusal option" where
  "read_refusal v = (case v of
       Str t \<Rightarrow> map_option snd (find (\<lambda>p. js (fst p) = t) refusal_texts)
     | _ \<Rightarrow> None)"

definition refusal_text :: "refusal \<Rightarrow> jstr" where
  "refusal_text r = (case find (\<lambda>p. snd p = r) refusal_texts of Some p \<Rightarrow> js (fst p) | None \<Rightarrow> [])"

definition parse_admission_decision :: "jsval \<Rightarrow> lease_error + jstr" where
  "parse_admission_decision result =
     (if \<not> is_record result \<and> \<not> is_array result then Inl AdmissionUnavailable
      else if getp result ''accepted'' = JBool False
      then (case read_refusal (getp result ''reason'') of
          Some r \<Rightarrow> Inl (AdmissionLimit r)
        | None \<Rightarrow> Inl AdmissionUnavailable)
      else if getp result ''accepted'' \<noteq> JBool True \<or>
        \<not> string_matching uuid_v4 (getp result ''leaseId'')
      then Inl InvalidReceipt
      else Inr (text_of (getp result ''leaseId'')))"

text \<open>What the host sends for an admission result: the result itself.\<close>

fun admission_value :: "admission_result \<Rightarrow> jsval" where
  "admission_value (Admitted leaseId) = Obj [(''accepted'', JBool True), (''leaseId'', Str (js leaseId))]"
| "admission_value (Refused r) = Obj [(''accepted'', JBool False), (''reason'', Str (refusal_text r))]"

section \<open>The lease object\<close>

record execution_lease =
  xlRun :: jstr
  xlSession :: jstr
  xlLeaseId :: "jstr option"
  xlLastLeaseId :: jstr
  xlYielded :: bool
  xlClosed :: bool
  xlReceived :: "jstr list"
  xlSent :: "jstr list"

record lease_input =
  liRun :: jstr
  liSession :: jstr
  liKind :: admission_kind
  liParent :: "jstr option"

definition kind_text :: "admission_kind \<Rightarrow> jstr" where
  "kind_text k = (case k of Foreground \<Rightarrow> js ''foreground'' | AutomaticAcp \<Rightarrow> js ''automatic-acp'')"

definition claim_payload :: "lease_input \<Rightarrow> jsval" where
  "claim_payload input =
     Obj ([(''runId'', Str (liRun input)), (''sessionId'', Str (liSession input)),
           (''kind'', Str (kind_text (liKind input)))] @
          (case liParent input of Some p \<Rightarrow> if p = [] then [] else [(''parentRunId'', Str p)] | None \<Rightarrow> []))"

definition release_payload :: "jstr \<Rightarrow> jstr \<Rightarrow> bool \<Rightarrow> jsval" where
  "release_payload run leaseId yielding =
     Obj ([(''runId'', Str run), (''leaseId'', Str leaseId)] @ (if yielding then [(''yielding'', JBool True)] else []))"

text \<open>
  \<open>release(yielding)\<close> up to its request: the new variables and the payload that is sent. What the host answers, or
  that it does not answer, is ignored.
\<close>

definition release_lease :: "bool \<Rightarrow> execution_lease \<Rightarrow> execution_lease \<times> jsval option" where
  "release_lease yielding st =
     (if xlClosed st \<and> \<not> yielding then (st, None)
      else
        let st1 = (if yielding then st else st\<lparr>xlClosed := True\<rparr>) in
        if xlLeaseId st1 = None \<and> yielding then (st1, None)
        else
          let current = (case xlLeaseId st1 of Some i \<Rightarrow> i | None \<Rightarrow> xlLastLeaseId st1) in
          if current = [] then (st1, None)
          else (st1\<lparr>xlLeaseId := None, xlSent := xlSent st1 @ [current]\<rparr>,
                Some (release_payload (xlRun st1) current yielding)))"

definition lease_active :: "execution_lease \<Rightarrow> bool" where
  "lease_active st = (\<not> xlClosed st)"

text \<open>
  \<open>acquireExecutionLease\<close> before and after its claim. Outside the desktop there is no lease; \<open>None\<close> is the
  value \<open>null\<close>.
\<close>

definition acquire_start :: "bool \<Rightarrow> lease_input \<Rightarrow> lease_error + jsval option" where
  "acquire_start desktop input =
     (if \<not> desktop then Inr None
      else if \<not> (1 \<le> length (liRun input) \<and> length (liRun input) \<le> 128 \<and> list_all word_unit (liRun input))
      then Inl InvalidRunIdentity
      else Inr (Some (claim_payload input)))"

definition new_lease :: "lease_input \<Rightarrow> jstr \<Rightarrow> execution_lease" where
  "new_lease input leaseId =
     \<lparr>xlRun = liRun input, xlSession = liSession input, xlLeaseId = Some leaseId, xlLastLeaseId = leaseId,
      xlYielded = False, xlClosed = False, xlReceived = [leaseId], xlSent = []\<rparr>"

definition claim_answer :: "rpc_error + jsval \<Rightarrow> lease_error + jstr" where
  "claim_answer answer =
     (case answer of Inl e \<Rightarrow> Inl (RequestFailed e) | Inr v \<Rightarrow> parse_admission_decision v)"

definition acquire_finish ::
  "lease_input \<Rightarrow> rpc_error + jsval \<Rightarrow> bool \<Rightarrow> (lease_error + execution_lease) \<times> jsval option" where
  "acquire_finish input answer aborted =
     (case claim_answer answer of
        Inl e \<Rightarrow> (Inl e, None)
      | Inr leaseId \<Rightarrow>
          if aborted then (Inl LeaseAborted, snd (release_lease False (new_lease input leaseId)))
          else (Inr (new_lease input leaseId), None))"

text \<open>\<open>yieldFor\<close> up to the call of \<open>work\<close>.\<close>

definition yield_start :: "execution_lease \<Rightarrow> lease_error + execution_lease \<times> jsval option" where
  "yield_start st =
     (if xlYielded st \<or> xlLeaseId st = None \<or> xlClosed st then Inl NotHolding
      else Inr (release_lease True (st\<lparr>xlYielded := True\<rparr>)))"

text \<open>The time left for the new claim, or the error when there is none.\<close>

definition claim_rpc_timeout_ms :: int where "claim_rpc_timeout_ms = 150000"

definition reclaim_timeout :: "time \<Rightarrow> time \<Rightarrow> lease_error + int" where
  "reclaim_timeout deadline now =
     (let remaining = deadline - now in
      if remaining \<le> 0 then Inl DeadlinePassed else Inr (min claim_rpc_timeout_ms remaining))"

text \<open>
  \<open>yieldFor\<close> from the answer to the new claim on. \<open>outcome\<close> is what the work returned or threw; the result
  is the error of the claim, or else that outcome.
\<close>

definition reclaimed :: "lease_error + jstr \<Rightarrow> bool \<Rightarrow> execution_lease \<Rightarrow> lease_error option \<times> execution_lease" where
  "reclaimed answer aborted st =
     (case answer of
        Inl e \<Rightarrow> (Some e, st)
      | Inr i \<Rightarrow>
          let st1 = st\<lparr>xlLeaseId := Some i, xlLastLeaseId := i, xlReceived := xlReceived st @ [i]\<rparr>
          in (if aborted then Some LeaseAborted else None, st1))"

definition yield_finish ::
  "lease_error + jstr \<Rightarrow> bool \<Rightarrow> 'e + 'a \<Rightarrow> execution_lease \<Rightarrow>
     (lease_error + ('e + 'a)) \<times> execution_lease \<times> jsval option" where
  "yield_finish answer aborted outcome st =
     (case reclaimed answer aborted st of
        (err, st1) \<Rightarrow>
          let st2 = st1\<lparr>xlYielded := False\<rparr> in
          (case err of
             Some e \<Rightarrow> (Inl e, release_lease False st2)
           | None \<Rightarrow> (Inr outcome, st2, None)))"

section \<open>A lease in use\<close>

datatype lease_event =
    LeaseRelease
  | LeaseYield
  | LeaseReturn "lease_error + jstr" bool

text \<open>The continuation of a yield runs only while one is under way.\<close>

fun lease_step :: "execution_lease \<Rightarrow> lease_event \<Rightarrow> execution_lease" where
  "lease_step st LeaseRelease = fst (release_lease False st)"
| "lease_step st LeaseYield = (case yield_start st of Inl _ \<Rightarrow> st | Inr (st', _) \<Rightarrow> st')"
| "lease_step st (LeaseReturn answer aborted) =
     (if \<not> xlYielded st then st
      else fst (snd (yield_finish answer aborted (Inr () :: unit + unit) st)))"

section \<open>Results the worker never acknowledged\<close>

definition release_abandoned_execution_claim ::
  "fresh_supply \<Rightarrow> string \<Rightarrow> host_request \<Rightarrow> jsval \<Rightarrow> admission \<Rightarrow> admission" where
  "release_abandoned_execution_claim fresh botId request result s =
     (if hqOperation request \<noteq> ExecutionClaim then s
      else if \<not> is_string (getp (hqPayload request) ''runId'') \<or> getp result ''accepted'' \<noteq> JBool True \<or>
        \<not> is_string (getp result ''leaseId'')
      then s
      else snd (release fresh botId (text_of (getp (hqPayload request) ''runId''))
                  (map char_of (text_of (getp result ''leaseId''))) s))"

end
