(* ===== verification/WorkerHostFacts.thy ===== *)
theory WorkerHostFacts
  imports WorkerHostRpc
begin

text \<open>
  Every result the host computes for a worker is acknowledged or rolled back exactly once, however the
  channels lose and reorder messages; and what is acknowledged is what the worker's promise resolved to.
\<close>

section \<open>What one operation does to the store of the host\<close>

lemma update_entry_entries:
  "hrEntries (update_entry q f s) q' = (if q' = q then map_option f (hrEntries s q) else hrEntries s q')"
  by (simp add: update_entry_def)

lemma update_entry_others [simp]:
  "hrBot (update_entry q f s) = hrBot s" "hrConnected (update_entry q f s) = hrConnected s"
  "hrDisposed (update_entry q f s) = hrDisposed s" "hrLastSequence (update_entry q f s) = hrLastSequence s"
  "hrRequests (update_entry q f s) = hrRequests s" "hrRolled (update_entry q f s) = hrRolled s"
  by (simp_all add: update_entry_def)

definition drop_request :: "jstr \<Rightarrow> nat \<Rightarrow> (jstr, nat) jsmap \<Rightarrow> (jstr, nat) jsmap" where
  "drop_request i q rs = (if map_of rs i = Some q then AList.delete i rs else rs)"

lemma finish_call_some:
  "hrEntries s q = Some e \<Longrightarrow> finish_call q s =
     s\<lparr>hrRequests := drop_request (heId e) q (hrRequests s), hrEntries := (hrEntries s)(q \<mapsto> e\<lparr>heTimer := False\<rparr>)\<rparr>"
  by (simp add: finish_call_def drop_request_def update_entry_def Let_def)

lemma rollback_request_some:
  "hrEntries s q = Some e \<Longrightarrow> heResultKnown e \<Longrightarrow> \<not> heRolledBack e \<Longrightarrow> rollback_request q s =
     s\<lparr>hrEntries := (hrEntries s)(q \<mapsto> e\<lparr>heRolledBack := True\<rparr>), hrRolled := hrRolled s @ [q]\<rparr>"
  by (simp add: rollback_request_def update_entry_def)

lemma rollback_request_idle:
  "hrEntries s q = Some e \<Longrightarrow> \<not> heResultKnown e \<or> heRolledBack e \<Longrightarrow> rollback_request q s = s"
  by (simp add: rollback_request_def)

definition abandoned_entry :: "host_entry \<Rightarrow> host_entry" where
  "abandoned_entry e = e\<lparr>heAbandoned := True, heAborted := True, heTimer := False,
     heRolledBack := heResultKnown e \<or> heRolledBack e\<rparr>"

lemma abandon_request_idle:
  "hrEntries s q = Some e \<Longrightarrow> heAcknowledged e \<or> heAbandoned e \<Longrightarrow> abandon_request q s = s"
  "hrEntries s q = None \<Longrightarrow> abandon_request q s = s"
  by (simp_all add: abandon_request_def)

lemma abandon_request_some:
  "hrEntries s q = Some e \<Longrightarrow> \<not> heAcknowledged e \<Longrightarrow> \<not> heAbandoned e \<Longrightarrow> abandon_request q s =
     s\<lparr>hrRequests := drop_request (heId e) q (hrRequests s),
       hrEntries := (hrEntries s)(q \<mapsto> abandoned_entry e),
       hrRolled := hrRolled s @ (if heResultKnown e \<and> \<not> heRolledBack e then [q] else [])\<rparr>"
  by (cases "heResultKnown e \<and> \<not> heRolledBack e"; cases e; cases s)
    (auto simp: abandon_request_def update_entry_def rollback_request_some rollback_request_idle
      finish_call_some abandoned_entry_def)

section \<open>The invariant of the host\<close>

definition entry_ok :: "host_entry \<Rightarrow> bool" where
  "entry_ok e \<longleftrightarrow>
     (heRunning e \<longrightarrow> \<not> heResultKnown e \<and> \<not> heTimer e \<and> \<not> heAcknowledged e) \<and>
     (heAcknowledged e \<longrightarrow> heResultKnown e \<and> \<not> heAbandoned e) \<and>
     (heTimer e \<longrightarrow> heResultKnown e \<and> \<not> heAcknowledged e \<and> \<not> heAbandoned e) \<and>
     (heRolledBack e \<longleftrightarrow> heResultKnown e \<and> heAbandoned e) \<and>
     (heResultKnown e \<longrightarrow> heAcknowledged e \<or> heAbandoned e \<or> heTimer e)"

definition entry_live :: "host_entry \<Rightarrow> bool" where
  "entry_live e \<longleftrightarrow> heTimer e \<or> heRunning e \<and> \<not> heAbandoned e"

definition host_inv :: "host_rpc \<Rightarrow> bool" where
  "host_inv s \<longleftrightarrow>
     jm_wf (hrRequests s) \<and>
     (\<forall>q e. hrEntries s q = Some e \<longrightarrow> entry_ok e \<and> q \<le> hrLastSequence s) \<and>
     (\<forall>i q. map_of (hrRequests s) i = Some q \<longleftrightarrow>
        (\<exists>e. hrEntries s q = Some e \<and> heId e = i \<and> entry_live e)) \<and>
     distinct (hrRolled s) \<and>
     (\<forall>q. q \<in> set (hrRolled s) \<longleftrightarrow> (\<exists>e. hrEntries s q = Some e \<and> heRolledBack e)) \<and>
     length (hrRequests s) \<le> max_pending_requests \<and> claims_in_flight s \<le> max_pending_claims"

lemma host_invD:
  assumes "host_inv s"
  shows "jm_wf (hrRequests s)"
    and "hrEntries s q = Some e \<Longrightarrow> entry_ok e" "hrEntries s q = Some e \<Longrightarrow> q \<le> hrLastSequence s"
    and "map_of (hrRequests s) i = Some q \<longleftrightarrow> (\<exists>e. hrEntries s q = Some e \<and> heId e = i \<and> entry_live e)"
    and "distinct (hrRolled s)"
    and "q \<in> set (hrRolled s) \<longleftrightarrow> (\<exists>e. hrEntries s q = Some e \<and> heRolledBack e)"
    and "length (hrRequests s) \<le> max_pending_requests" "claims_in_flight s \<le> max_pending_claims"
  using assms unfolding host_inv_def by blast+

lemma entry_unknown: "hrLastSequence s < q \<Longrightarrow> host_inv s \<Longrightarrow> hrEntries s q = None"
  using host_invD(3) [of s q] by (cases "hrEntries s q") force+

text \<open>Dropping a request from the map frees capacity and nothing else.\<close>

lemma drop_request_get:
  "map_of (drop_request i q rs) j = (if j = i \<and> map_of rs i = Some q then None else map_of rs j)"
  by (simp add: drop_request_def)

lemma drop_request_wf: "jm_wf rs \<Longrightarrow> jm_wf (drop_request i q rs)"
  by (simp add: drop_request_def)

lemma drop_request_length: "length (drop_request i q rs) \<le> length rs"
  by (simp add: drop_request_def jm_delete_length_le)

lemma drop_request_filter: "length (filter P (drop_request i q rs)) \<le> length (filter P rs)"
proof -
  have "length (filter P (filter Q rs)) \<le> length (filter P rs)" for Q
    by (induction rs) auto
  then show ?thesis by (simp add: drop_request_def jm_delete_filter del: filter_filter)
qed

section \<open>What no later event changes\<close>

definition entry_keeps :: "host_entry \<Rightarrow> host_entry \<Rightarrow> bool" where
  "entry_keeps e e' \<longleftrightarrow> heId e' = heId e \<and> heRequest e' = heRequest e \<and>
     (\<not> heRunning e \<longrightarrow> \<not> heRunning e' \<and> heResultKnown e' = heResultKnown e \<and> heResult e' = heResult e) \<and>
     (heAcknowledged e \<longrightarrow> heAcknowledged e') \<and> (heRolledBack e \<longrightarrow> heRolledBack e') \<and>
     (heAbandoned e \<longrightarrow> heAbandoned e')"

definition host_keeps :: "host_rpc \<Rightarrow> host_rpc \<Rightarrow> bool" where
  "host_keeps s s' \<longleftrightarrow> hrLastSequence s \<le> hrLastSequence s' \<and> hrBot s' = hrBot s \<and>
     (\<forall>q \<le> hrLastSequence s. rel_option entry_keeps (hrEntries s q) (hrEntries s' q))"

lemma entry_keeps_refl [simp]: "entry_keeps e e"
  by (simp add: entry_keeps_def)

lemma entry_keeps_trans: "entry_keeps e f \<Longrightarrow> entry_keeps f g \<Longrightarrow> entry_keeps e g"
  by (auto simp: entry_keeps_def)

lemma host_keeps_refl [simp]: "host_keeps s s"
  by (simp add: host_keeps_def option.rel_refl)

lemma rel_entries_trans:
  "rel_option entry_keeps a b \<Longrightarrow> rel_option entry_keeps b c \<Longrightarrow> rel_option entry_keeps a c"
  by (cases a; cases b; cases c) (auto intro: entry_keeps_trans)

lemma host_keeps_trans: "host_keeps s t \<Longrightarrow> host_keeps t u \<Longrightarrow> host_keeps s u"
  unfolding host_keeps_def by (metis le_trans rel_entries_trans)

lemma host_keeps_entry:
  "host_keeps s s' \<Longrightarrow> q \<le> hrLastSequence s \<Longrightarrow> hrEntries s q = Some e \<Longrightarrow>
    \<exists>e'. hrEntries s' q = Some e' \<and> entry_keeps e e'"
  "host_keeps s s' \<Longrightarrow> q \<le> hrLastSequence s \<Longrightarrow> hrEntries s q = None \<Longrightarrow> hrEntries s' q = None"
  unfolding host_keeps_def by (metis option_rel_Some1) (metis rel_option_None1)

definition host_ok :: "host_rpc \<Rightarrow> host_rpc \<Rightarrow> bool" where
  "host_ok s s' \<longleftrightarrow> host_inv s' \<and> host_keeps s s'"

lemma host_ok_trans: "host_ok s t \<Longrightarrow> host_ok t u \<Longrightarrow> host_ok s u"
  by (auto simp: host_ok_def intro: host_keeps_trans)

lemma host_ok_refl: "host_inv s \<Longrightarrow> host_ok s s"
  by (simp add: host_ok_def)

text \<open>Replacing one entry: the rule all operations on an entry go through.\<close>

lemma replace_entry_ok:
  assumes inv: "host_inv s" and e: "hrEntries s q = Some e"
    and e': "entry_ok e'" "entry_keeps e e'" "entry_live e' \<Longrightarrow> entry_live e"
    and s': "hrBot s' = hrBot s" "hrLastSequence s' = hrLastSequence s"
      "hrEntries s' = (hrEntries s)(q \<mapsto> e')"
      "hrRequests s' = (if entry_live e' then hrRequests s else drop_request (heId e) q (hrRequests s))"
      "hrRolled s' = hrRolled s @ (if heRolledBack e' \<and> \<not> heRolledBack e then [q] else [])"
  shows "host_ok s s'"
proof -
  note d = host_invD [OF inv]
  have ids: "heId e' = heId e" "heRequest e' = heRequest e" "heRolledBack e \<Longrightarrow> heRolledBack e'"
    using e'(2) by (simp_all add: entry_keeps_def)
  have claim: "(case hrEntries s' k of Some e \<Rightarrow> hqOperation (heRequest e) = ExecutionClaim | None \<Rightarrow> False) =
      (case hrEntries s k of Some e \<Rightarrow> hqOperation (heRequest e) = ExecutionClaim | None \<Rightarrow> False)" for k
    using e ids by (simp add: s'(3))
  have "claims_in_flight s' \<le> claims_in_flight s"
    unfolding claims_in_flight_def claim s'(4) by (simp add: drop_request_filter)
  then have "claims_in_flight s' \<le> max_pending_claims" using d(8) by linarith
  moreover have "length (hrRequests s') \<le> max_pending_requests"
    using d(7) drop_request_length [of "heId e" q "hrRequests s"] unfolding s'(4) by simp
  moreover have "jm_wf (hrRequests s')" unfolding s'(4) by (simp add: d(1) drop_request_wf)
  moreover have "map_of (hrRequests s') i = Some k \<longleftrightarrow>
      (\<exists>e. hrEntries s' k = Some e \<and> heId e = i \<and> entry_live e)" for i k
  proof (cases "k = q")
    case True
    have "map_of (hrRequests s) i = Some q \<longleftrightarrow> heId e = i \<and> entry_live e" using d(4) [of i q] e by simp
    with True e'(3) ids show ?thesis unfolding s'(3,4) by (auto simp: drop_request_get)
  next
    case False
    then have "map_of (hrRequests s') i = Some k \<longleftrightarrow> map_of (hrRequests s) i = Some k"
      unfolding s'(4) by (auto simp: drop_request_get)
    with False d(4) [of i k] show ?thesis by (simp add: s'(3))
  qed
  moreover have "distinct (hrRolled s')" using d(5,6) e unfolding s'(5) by auto
  moreover have "k \<in> set (hrRolled s') \<longleftrightarrow> (\<exists>e. hrEntries s' k = Some e \<and> heRolledBack e)" for k
    using d(6) [of k] e ids(3) unfolding s'(3,5) by auto
  moreover have "hrEntries s' k = Some f \<longrightarrow> entry_ok f \<and> k \<le> hrLastSequence s'" for k f
    using d(2,3) e e'(1) unfolding s'(2,3) by auto
  ultimately have "host_inv s'" unfolding host_inv_def by blast
  moreover have "host_keeps s s'"
    using e e'(2) unfolding host_keeps_def s'(1-3) by (auto intro: option.rel_refl)
  ultimately show ?thesis by (simp add: host_ok_def)
qed

lemma abandoned_entry_ok: "entry_ok e \<Longrightarrow> \<not> heAcknowledged e \<Longrightarrow> entry_ok (abandoned_entry e)"
  by (auto simp: entry_ok_def abandoned_entry_def)

lemma abandoned_entry_keeps: "entry_keeps e (abandoned_entry e)"
  by (simp add: entry_keeps_def abandoned_entry_def)

lemma abandoned_entry_dead: "entry_ok e \<Longrightarrow> \<not> entry_live (abandoned_entry e)"
  by (simp add: entry_live_def abandoned_entry_def)

lemma abandon_request_ok: "host_inv s \<Longrightarrow> host_ok s (abandon_request q s)"
proof (cases "hrEntries s q")
  case (Some e)
  assume inv: "host_inv s"
  show ?thesis
  proof (cases "heAcknowledged e \<or> heAbandoned e")
    case True
    with Some inv show ?thesis by (simp add: abandon_request_idle host_ok_refl)
  next
    case False
    then show ?thesis
      using Some host_invD(2) [OF inv Some] abandoned_entry_ok [of e] abandoned_entry_dead [of e]
      by (intro replace_entry_ok [OF inv Some _ abandoned_entry_keeps])
        (simp_all add: abandon_request_some, simp add: abandoned_entry_def entry_ok_def)
  qed
qed (simp add: abandon_request_idle host_ok_refl)

lemma host_flags_ok:
  assumes "host_inv s"
  shows "host_ok s (s\<lparr>hrDisposed := d\<rparr>)" "host_ok s (s\<lparr>hrConnected := c\<rparr>)"
  using assms unfolding host_ok_def host_inv_def host_keeps_def claims_in_flight_def
  by (simp_all add: option.rel_refl)

section \<open>Every event\<close>

lemma host_ack_entry:
  assumes inv: "host_inv s" and r: "map_of (hrRequests s) j = Some q"
    and e: "hrEntries s q = Some e" "heResultKnown e" "\<not> heAbandoned e"
  shows "host_ok s (finish_call q (update_entry q (heAcknowledged_update (\<lambda>_. True)) s))"
proof -
  have "entry_live e" using host_invD(4) [OF inv, of j q] r e(1) by auto
  with e have "entry_ok e" "heTimer e" "\<not> heRunning e" "\<not> heRolledBack e"
    using host_invD(2) [OF inv e(1)] by (auto simp: entry_ok_def entry_live_def)
  with e show ?thesis
    by (intro replace_entry_ok [OF inv e(1), of "e\<lparr>heAcknowledged := True, heTimer := False\<rparr>"])
      (auto simp: entry_ok_def entry_keeps_def entry_live_def finish_call_some update_entry_def)
qed

lemma host_ack_ok: "host_inv s \<Longrightarrow> host_ok s (host_ack i s)"
  by (auto simp: host_ack_def host_ok_refl split: option.split intro: host_ack_entry)

lemma host_cancel_ok: "host_inv s \<Longrightarrow> host_ok s (host_cancel i s)"
  by (auto simp: host_cancel_def abandon_request_ok host_ok_refl split: option.split)

text \<open>A new call takes a sequence no entry has.\<close>

lemma new_entry_ok:
  assumes inv: "host_inv s" and q: "hrLastSequence s < q" and i: "map_of (hrRequests s) i = None"
    and room: "length (hrRequests s) < max_pending_requests"
    and claims: "hqOperation r = ExecutionClaim \<longrightarrow> claims_in_flight s < max_pending_claims"
    and s': "s' = s\<lparr>hrLastSequence := q, hrRequests := AList.update i q (hrRequests s),
        hrEntries := (hrEntries s)(q \<mapsto> new_host_entry i r)\<rparr>"
  shows "host_ok s s'"
proof -
  note d = host_invD [OF inv]
  have none: "hrEntries s q = None" by (rule entry_unknown [OF q inv])
  have absent: "q \<notin> snd ` set (hrRequests s)"
  proof
    assume "q \<in> snd ` set (hrRequests s)"
    then obtain j where "(j, q) \<in> set (hrRequests s)" by auto
    then have "map_of (hrRequests s) j = Some q" using d(1) by (simp add: jm_in_get)
    with d(4) [of j q] none show False by simp
  qed
  have rs: "hrRequests s' = hrRequests s @ [(i, q)]" by (simp add: s' jm_update_absent [OF i])
  have keep: "filter (\<lambda>p. case hrEntries s' (snd p) of Some e \<Rightarrow> hqOperation (heRequest e) = ExecutionClaim | None \<Rightarrow> False) (hrRequests s) =
      filter (\<lambda>p. case hrEntries s (snd p) of Some e \<Rightarrow> hqOperation (heRequest e) = ExecutionClaim | None \<Rightarrow> False) (hrRequests s)"
    using absent by (intro filter_cong) (auto simp: s')
  have "claims_in_flight s' \<le> max_pending_claims"
    using claims d(8) keep unfolding claims_in_flight_def rs by (auto simp: s' new_host_entry_def)
  moreover have "length (hrRequests s') \<le> max_pending_requests" using room by (simp add: rs)
  moreover have "jm_wf (hrRequests s')" using d(1) by (simp add: s')
  moreover have "map_of (hrRequests s') j = Some k \<longleftrightarrow>
      (\<exists>e. hrEntries s' k = Some e \<and> heId e = j \<and> entry_live e)" for j k
    using d(4) [of j k] d(4) [of j q] i none
    by (auto simp: s' new_host_entry_def entry_live_def)
  moreover have "q \<notin> set (hrRolled s)" using d(6) [of q] none by simp
  then have "k \<in> set (hrRolled s') \<longleftrightarrow> (\<exists>e. hrEntries s' k = Some e \<and> heRolledBack e)" for k
    using d(6) [of k] by (auto simp: s' new_host_entry_def)
  moreover have "distinct (hrRolled s')" using d(5) by (simp add: s')
  moreover have "hrEntries s' k = Some f \<longrightarrow> entry_ok f \<and> k \<le> hrLastSequence s'" for k f
    using d(2,3) [of k f] q by (auto simp: s' new_host_entry_def entry_ok_def)
  ultimately have "host_inv s'" unfolding host_inv_def by blast
  moreover have "host_keeps s s'"
    using q unfolding host_keeps_def by (auto simp: s' intro: option.rel_refl)
  ultimately show ?thesis by (simp add: host_ok_def)
qed

lemma skip_sequence_ok:
  assumes "host_inv s" "hrLastSequence s \<le> q"
  shows "host_ok s (s\<lparr>hrLastSequence := q\<rparr>)"
proof -
  have "host_inv (s\<lparr>hrLastSequence := q\<rparr>)"
    using assms host_invD(3) [OF assms(1)] unfolding host_inv_def claims_in_flight_def by (auto intro: le_trans)
  with assms(2) show ?thesis by (simp add: host_ok_def host_keeps_def option.rel_refl)
qed

lemma host_call_ok:
  assumes inv: "host_inv s"
  shows "host_ok s (fst (host_call i r s))"
proof (cases "miSequence i \<le> hrLastSequence s")
  case False
  let ?s1 = "s\<lparr>hrLastSequence := miSequence i\<rparr>"
  show ?thesis
  proof (cases "jm_has (hrRequests s) (miId i) \<or> max_pending_requests \<le> length (hrRequests s) \<or>
      (hqOperation r = ExecutionClaim \<and> max_pending_claims \<le> claims_in_flight ?s1)")
    case True
    with False show ?thesis using skip_sequence_ok [OF inv, of "miSequence i"] by (auto simp: host_call_def Let_def)
  next
    case room: False
    moreover have "claims_in_flight ?s1 = claims_in_flight s" by (simp add: claims_in_flight_def)
    ultimately show ?thesis using False
      by (intro new_entry_ok [OF inv, of "miSequence i" "miId i" r])
        (auto simp: host_call_def Let_def jm_has_def)
  qed
qed (simp add: host_call_def host_ok_refl inv)

lemma host_message_ok: "host_inv s \<Longrightarrow> host_ok s (fst (host_message m s))"
  by (simp add: host_message_def host_ok_refl host_cancel_ok host_ack_ok host_call_ok split: client_message.split)

lemma host_result_ok:
  assumes inv: "host_inv s"
  shows "host_ok s (fst (host_result q r throws s))"
proof (cases "hrEntries s q")
  case (Some e)
  show ?thesis
  proof (cases "heRunning e")
    case True
    have ok: "entry_ok e" by (rule host_invD(2) [OF inv Some])
    define e1 where "e1 = e\<lparr>heRunning := False, heResultKnown := True, heResult := r\<rparr>"
    define s1 where "s1 = update_entry q (\<lambda>e. e\<lparr>heRunning := False, heResultKnown := True, heResult := r\<rparr>) s"
    have s1: "s1 = s\<lparr>hrEntries := (hrEntries s)(q \<mapsto> e1)\<rparr>" "hrEntries s1 q = Some e1"
      by (simp_all add: s1_def e1_def update_entry_def Some)
    have flags: "\<not> heAcknowledged e1" "heResultKnown e1" "\<not> heRolledBack e1" "heAbandoned e1 = heAbandoned e" "heId e1 = heId e"
      using ok True by (auto simp: e1_def entry_ok_def)
    have gone: "host_ok s (rollback_request q (abandon_request q s1))"
    proof (cases "heAbandoned e")
      case True
      have "\<not> entry_live e" using True ok by (auto simp: entry_live_def entry_ok_def)
      then have "map_of (hrRequests s) (heId e) \<noteq> Some q" using host_invD(4) [OF inv] Some by auto
      then have idle: "drop_request (heId e) q (hrRequests s) = hrRequests s" by (simp add: drop_request_def)
      have ab: "abandon_request q s1 = s1" using True flags by (intro abandon_request_idle(1) [OF s1(2)]) simp
      show ?thesis unfolding ab rollback_request_some [OF s1(2) flags(2,3)]
        using ok True flags \<open>heRunning e\<close>
        by (intro replace_entry_ok [OF inv Some, of "e1\<lparr>heRolledBack := True\<rparr>"])
          (auto simp: s1(1) idle entry_ok_def entry_keeps_def entry_live_def e1_def)
    next
      case False
      have ab: "abandon_request q s1 = s1\<lparr>hrRequests := drop_request (heId e1) q (hrRequests s1),
         hrEntries := (hrEntries s1)(q \<mapsto> abandoned_entry e1), hrRolled := hrRolled s1 @ [q]\<rparr>"
        using False flags by (simp add: abandon_request_some [OF s1(2)])
      have "rollback_request q (abandon_request q s1) = abandon_request q s1"
        unfolding ab by (rule rollback_request_idle [of _ _ "abandoned_entry e1"]) (simp_all add: abandoned_entry_def flags)
      then show ?thesis
        using ok False flags \<open>heRunning e\<close> unfolding ab
        by (intro replace_entry_ok [OF inv Some, of "abandoned_entry e1"])
          (auto simp: s1(1) entry_ok_def entry_keeps_def entry_live_def abandoned_entry_def e1_def)
    qed
    show ?thesis
    proof (cases "heAbandoned e \<or> hrDisposed s \<or> \<not> hrConnected s")
      case True
      then show ?thesis using gone Some \<open>heRunning e\<close> by (simp add: host_result_def Let_def s1_def)
    next
      case False
      define s2 where "s2 = update_entry q (heTimer_update (\<lambda>_. True)) s1"
      have s2: "s2 = s\<lparr>hrEntries := (hrEntries s)(q \<mapsto> e1\<lparr>heTimer := True\<rparr>)\<rparr>"
        by (simp add: s2_def s1(1) update_entry_def)
      have ok2: "host_ok s s2"
        using ok False flags \<open>heRunning e\<close>
        by (intro replace_entry_ok [OF inv Some, of "e1\<lparr>heTimer := True\<rparr>"])
          (auto simp: s2 entry_ok_def entry_keeps_def entry_live_def e1_def)
      then have "host_ok s2 (abandon_request q s2)" by (intro abandon_request_ok) (simp add: host_ok_def)
      then have "host_ok s (abandon_request q s2)" by (rule host_ok_trans [OF ok2])
      with ok2 False Some \<open>heRunning e\<close> show ?thesis by (simp add: host_result_def Let_def s1_def s2_def)
    qed
  qed (simp add: host_result_def Some host_ok_refl inv)
qed (simp add: host_result_def host_ok_refl inv)

lemma host_failure_ok:
  assumes inv: "host_inv s"
  shows "host_ok s (fst (host_failure q throws s))"
proof (cases "hrEntries s q")
  case (Some e)
  show ?thesis
  proof (cases "heRunning e")
    case True
    have ok: "entry_ok e" by (rule host_invD(2) [OF inv Some])
    have "host_ok s (finish_call q (update_entry q (heRunning_update (\<lambda>_. False)) s))"
      using ok True Some
      by (intro replace_entry_ok [OF inv Some, of "e\<lparr>heRunning := False, heTimer := False\<rparr>"])
        (auto simp: finish_call_some update_entry_def entry_ok_def entry_keeps_def entry_live_def)
    with Some True show ?thesis by (simp add: host_failure_def Let_def)
  qed (simp add: host_failure_def Some host_ok_refl inv)
qed (simp add: host_failure_def host_ok_refl inv)

lemma abandon_all_ok:
  "host_inv s \<Longrightarrow> host_ok s (foldl (\<lambda>t p. abandon_request (snd p) t) s ps)"
proof (induction ps arbitrary: s)
  case (Cons p ps)
  then have "host_ok s (abandon_request (snd p) s)" by (simp add: abandon_request_ok)
  moreover from this have "host_inv (abandon_request (snd p) s)" by (simp add: host_ok_def)
  from Cons.IH [OF this] have "host_ok (abandon_request (snd p) s)
      (foldl (\<lambda>t p. abandon_request (snd p) t) (abandon_request (snd p) s) ps)" .
  ultimately show ?case by (auto intro: host_ok_trans)
qed (simp add: host_ok_refl)

lemma host_dispose_ok: "host_inv s \<Longrightarrow> host_ok s (host_dispose s)"
proof -
  assume inv: "host_inv s"
  have d: "host_ok s (s\<lparr>hrDisposed := True\<rparr>)" by (rule host_flags_ok [OF inv])
  then have "host_inv (s\<lparr>hrDisposed := True\<rparr>)" by (simp add: host_ok_def)
  from abandon_all_ok [OF this] d show ?thesis unfolding host_dispose_def by (rule host_ok_trans [rotated])
qed

lemma host_receipt_timeout_ok: "host_inv s \<Longrightarrow> host_ok s (host_receipt_timeout q s)"
  by (simp add: host_receipt_timeout_def abandon_request_ok host_ok_refl split: option.split)

lemma host_send_failed_ok: "host_inv s \<Longrightarrow> host_ok s (host_send_failed q s)"
  by (simp add: host_send_failed_def abandon_request_ok host_ok_refl split: option.split)

lemma host_event_step_ok: "host_inv s \<Longrightarrow> host_ok s (fst (host_event_step s ev))"
  by (cases ev) (simp_all add: host_message_ok host_result_ok host_failure_ok host_dispose_ok
      host_receipt_timeout_ok host_send_failed_ok host_flags_ok)

lemma host_step_ok: "host_inv s \<Longrightarrow> host_inv (host_step s ev) \<and> host_keeps s (host_step s ev)"
  using host_event_step_ok [of s ev] by (simp add: host_step_def host_ok_def)

interpretation host_calls: monitored_machine host_step host_inv host_keeps
  by unfold_locales (use host_step_ok in \<open>auto intro: host_keeps_trans\<close>)

lemma attach_inv: "host_inv (attach_worker_host_rpc botId)"
  by (simp add: attach_worker_host_rpc_def host_inv_def claims_in_flight_def)

section \<open>Properties\<close>

text \<open>
  C28: After any events, a result the host has computed for a call is in exactly one of three states: the
  worker acknowledged it; it was rolled back, once; or its receipt timer is armed and the call is still
  registered, so that an acknowledgement, a cancellation or the timer will decide. No result is lost and
  none is both kept and rolled back.
\<close>

theorem result_acked_or_rolled_back:
  assumes "hrEntries (foldl host_step (attach_worker_host_rpc botId) evs) q = Some e" and "heResultKnown e"
  shows "count_list (hrRolled (foldl host_step (attach_worker_host_rpc botId) evs)) q +
      (if heAcknowledged e then 1 else 0) + (if heTimer e then 1 else 0) = 1 \<and>
    (heTimer e \<longrightarrow>
      map_of (hrRequests (foldl host_step (attach_worker_host_rpc botId) evs)) (heId e) = Some q)"
proof -
  let ?s = "foldl host_step (attach_worker_host_rpc botId) evs"
  have inv: "host_inv ?s" by (rule host_calls.run_inv [OF attach_inv])
  have ok: "entry_ok e" by (rule host_invD(2) [OF inv assms(1)])
  have "count_list (hrRolled ?s) q = (if heRolledBack e then 1 else 0)"
    using host_invD(5,6) [OF inv] assms(1) by (simp add: count_list_0_iff distinct_count_list)
  moreover have "heTimer e \<Longrightarrow> map_of (hrRequests ?s) (heId e) = Some q"
    using host_invD(4) [OF inv] assms(1) by (auto simp: entry_live_def)
  ultimately show ?thesis using ok assms(2) by (auto simp: entry_ok_def)
qed

definition sample_identity :: message_identity where
  "sample_identity = \<lparr>miId = js ''a'', miBot = js ''b'', miSequence = 1\<rparr>"

definition sample_request :: host_request where
  "sample_request = \<lparr>hqOperation = ExecutionClaim, hqPayload = Obj [(''runId'', Str (js ''r''))]\<rparr>"

theorem result_acked_or_rolled_back_witness:
  "count_list (hrRolled (foldl host_step (attach_worker_host_rpc (js ''b''))
     [HostMessage (CallMessage sample_identity sample_request), HostResult 1 Null False, HostReceiptTimeout 1])) 1 = 1"
proof -
  let ?s = "foldl host_step (attach_worker_host_rpc (js ''b''))
     [HostMessage (CallMessage sample_identity sample_request), HostResult 1 Null False, HostReceiptTimeout 1]"
  have "\<exists>e. hrEntries ?s 1 = Some e \<and> heResultKnown e \<and> \<not> heAcknowledged e \<and> \<not> heTimer e"
    by (simp add: attach_worker_host_rpc_def host_step_def host_message_def sample_identity_def host_call_def
        jm_has_def max_pending_requests_def claims_in_flight_def max_pending_claims_def new_host_entry_def
        host_result_def host_receipt_timeout_def abandon_request_def rollback_request_def finish_call_def
        update_entry_def Let_def)
  then obtain e where "hrEntries ?s 1 = Some e" "heResultKnown e" "\<not> heAcknowledged e" "\<not> heTimer e" by blast
  with result_acked_or_rolled_back [OF this(1,2)] show ?thesis by simp
qed

end
