(* ===== verification/WorkerHostLink.thy ===== *)
theory WorkerHostLink
  imports WorkerHostFacts
begin

text \<open>
  The two ends together: what the host takes as acknowledged is what the worker's promise resolved to, so
  a request the worker gave up is never kept by the host.
\<close>

section \<open>The client\<close>

definition client_inv :: "rpc_client \<Rightarrow> bool" where
  "client_inv c \<longleftrightarrow>
     jm_wf (rcPending c) \<and> distinct (map (\<lambda>p. cqSequence (snd p)) (rcPending c)) \<and>
     (\<forall>p \<in> set (rcPending c). cqSequence (snd p) \<le> rcLast c \<and> cqSequence (snd p) \<notin> fst ` set (rcSettled c)) \<and>
     distinct (map fst (rcSettled c)) \<and> (\<forall>p \<in> set (rcSettled c). fst p \<le> rcLast c) \<and>
     length (rcPending c) \<le> max_pending_requests \<and>
     length (filter (\<lambda>p. cqOperation (snd p) = ExecutionClaim) (rcPending c)) \<le> max_pending_claims"

lemma client_invD:
  assumes "client_inv c"
  shows "jm_wf (rcPending c)" "distinct (map (\<lambda>p. cqSequence (snd p)) (rcPending c))"
    "\<forall>p \<in> set (rcPending c). cqSequence (snd p) \<le> rcLast c \<and> cqSequence (snd p) \<notin> fst ` set (rcSettled c)"
    "distinct (map fst (rcSettled c))" "\<forall>p \<in> set (rcSettled c). fst p \<le> rcLast c"
    "length (rcPending c) \<le> max_pending_requests"
    "length (filter (\<lambda>p. cqOperation (snd p) = ExecutionClaim) (rcPending c)) \<le> max_pending_claims"
  using assms unfolding client_inv_def by blast+

definition client_grows :: "rpc_client \<Rightarrow> rpc_client \<Rightarrow> bool" where
  "client_grows c c' \<longleftrightarrow> rcLast c \<le> rcLast c' \<and> prefix (rcSettled c) (rcSettled c')"

lemma client_grows_refl [simp]: "client_grows c c"
  by (simp add: client_grows_def)

lemma client_grows_trans: "client_grows c d \<Longrightarrow> client_grows d e \<Longrightarrow> client_grows c e"
  by (auto simp: client_grows_def intro: prefix_order.trans)

lemma delete_distinct_values: "distinct (map f m) \<Longrightarrow> distinct (map f (AList.delete k m))"
  by (simp add: jm_delete_filter distinct_map_filter)

lemma delete_filter_length: "length (filter P (AList.delete k m)) \<le> length (filter P m)"
  unfolding jm_delete_filter by (induction m) auto

lemma settle_request_inv:
  assumes inv: "client_inv c" and r: "map_of (rcPending c) i = Some r"
  shows "client_inv (settle_request i (cqSequence r) out c) \<and> client_grows c (settle_request i (cqSequence r) out c)"
proof -
  have mem: "(i, r) \<in> set (rcPending c)" by (rule jm_get_in [OF r])
  have others: "cqSequence (snd p) \<noteq> cqSequence r" if "p \<in> set (AList.delete i (rcPending c))" for p
  proof -
    from that have p: "p \<in> set (rcPending c)" "fst p \<noteq> i" by (auto simp: jm_set_delete)
    have "inj_on (\<lambda>p. cqSequence (snd p)) (set (rcPending c))"
      using inv by (simp add: client_inv_def distinct_map)
    with p mem show ?thesis by (metis fst_conv inj_onD snd_conv)
  qed
  have "length (AList.delete i (rcPending c)) \<le> max_pending_requests"
    using inv jm_delete_length_le [of i "rcPending c"] by (simp add: client_inv_def)
  moreover have "length (filter (\<lambda>p. cqOperation (snd p) = ExecutionClaim) (AList.delete i (rcPending c))) \<le> max_pending_claims"
    using inv delete_filter_length [of _ i "rcPending c"] unfolding client_inv_def by (meson le_trans)
  moreover have "cqSequence r \<le> rcLast c" "cqSequence r \<notin> fst ` set (rcSettled c)"
    using bspec [OF client_invD(3) [OF inv] mem] by simp_all
  ultimately have "client_inv (settle_request i (cqSequence r) out c)"
    using inv mem others
    by (auto simp: client_inv_def settle_request_def delete_distinct_values jm_set_delete)
  moreover have "client_grows c (settle_request i (cqSequence r) out c)"
    by (simp add: client_grows_def settle_request_def)
  ultimately show ?thesis ..
qed

text \<open>What an event of the client sends: nothing, a call with a fresh sequence, or the answer to a response.\<close>

definition sent_ok :: "rpc_client \<Rightarrow> client_event \<Rightarrow> rpc_client \<Rightarrow> client_message list \<Rightarrow> bool" where
  "sent_ok c ev c' ms \<longleftrightarrow>
     (\<forall>m \<in> set ms. case m of
        CallMessage i r \<Rightarrow> ms = [m] \<and> miSequence i = Suc (rcLast c) \<and> rcLast c' = Suc (rcLast c)
      | AckMessage i \<Rightarrow> (\<exists>throws a. ev = ClientResponse throws a \<and> i = response_identity a \<and>
          (miSequence i, response_outcome a) \<in> set (rcSettled c'))
      | CancelMessage i \<Rightarrow> True)"

lemma request_worker_host_ok:
  assumes inv: "client_inv c" and r: "request_worker_host b op payload aborted i c = ((res, c'), ms)"
  shows "client_inv c' \<and> client_grows c c' \<and> sent_ok c ev c' ms"
proof -
  consider "c' = c" "ms = []" | "c' = c\<lparr>rcLast := Suc (rcLast c)\<rparr>" "ms = []"
    | op' botId where "c' = c\<lparr>rcLast := Suc (rcLast c),
          rcPending := AList.update i \<lparr>cqOperation = op', cqSequence = Suc (rcLast c)\<rparr> (rcPending c)\<rparr>"
        "ms = [CallMessage \<lparr>miId = i, miBot = botId, miSequence = Suc (rcLast c)\<rparr>
           \<lparr>hqOperation = op', hqPayload = payload\<rparr>]"
        "length (rcPending c) < max_pending_requests"
        "op' = ExecutionClaim \<longrightarrow>
           length (filter (\<lambda>p. cqOperation (snd p) = ExecutionClaim) (rcPending c)) < max_pending_claims"
    using r by (auto simp: request_worker_host_def Let_def split: option.splits if_splits)
  then show ?thesis
  proof cases
    case 1
    with inv show ?thesis by (simp add: sent_ok_def)
  next
    case 2
    with inv show ?thesis by (auto simp: client_inv_def client_grows_def sent_ok_def)
  next
    case 3
    let ?v = "\<lparr>cqOperation = op', cqSequence = Suc (rcLast c)\<rparr>"
    let ?P = "\<lambda>p. cqOperation (snd p) = ExecutionClaim"
    note d = client_invD [OF inv]
    have "distinct (map (\<lambda>p. cqSequence (snd p)) (AList.update i ?v (rcPending c)))"
      using d(2,3) by (intro update_distinct_values) auto
    moreover have "length (AList.update i ?v (rcPending c)) \<le> max_pending_requests"
      using 3(3) by (simp add: jm_length_update)
    moreover have "length (filter ?P (AList.update i ?v (rcPending c))) \<le> max_pending_claims"
      using 3(4) d(7) update_filter_length [of "\<lambda>r. cqOperation r = ExecutionClaim" i ?v "rcPending c"]
      by (auto simp: filter_map comp_def split: if_splits)
    moreover have fresh: "Suc (rcLast c) \<notin> fst ` set (rcSettled c)" using d(5) by auto
    have "\<forall>p \<in> set (AList.update i ?v (rcPending c)).
        cqSequence (snd p) \<le> Suc (rcLast c) \<and> cqSequence (snd p) \<notin> fst ` set (rcSettled c)"
    proof
      fix p assume "p \<in> set (AList.update i ?v (rcPending c))"
      then consider "p = (i, ?v)" | "p \<in> set (rcPending c)" using jm_set_update [of i ?v "rcPending c"] by (meson insertE subsetD)
      then show "cqSequence (snd p) \<le> Suc (rcLast c) \<and> cqSequence (snd p) \<notin> fst ` set (rcSettled c)"
        using d(3) fresh by cases (simp_all add: le_SucI)
    qed
    moreover have "\<forall>p \<in> set (rcSettled c). fst p \<le> Suc (rcLast c)" using d(5) by (simp add: le_SucI)
    moreover have "jm_wf (AList.update i ?v (rcPending c))" using d(1) by simp
    moreover have eqs: "rcPending c' = AList.update i ?v (rcPending c)" "rcLast c' = Suc (rcLast c)" "rcSettled c' = rcSettled c"
      by (simp_all add: 3(1))
    ultimately have "client_inv c'" using d(4) unfolding client_inv_def eqs by (intro conjI) assumption+
    then show ?thesis using 3(1,2) by (simp add: client_grows_def sent_ok_def)
  qed
qed

lemma client_response_ok:
  assumes inv: "client_inv c"
  shows "client_inv (fst (client_response throws m c)) \<and> client_grows c (fst (client_response throws m c)) \<and>
    sent_ok c (ClientResponse throws m) (fst (client_response throws m c)) (snd (client_response throws m c))"
proof (cases "rcBot c = Some (miBot (response_identity m))")
  case True
  show ?thesis
  proof (cases "map_of (rcPending c) (miId (response_identity m))")
    case (Some r)
    then show ?thesis
      using True settle_request_inv [OF inv Some]
      by (auto simp: client_response_def Let_def sent_ok_def inv settle_request_def)
  qed (simp add: client_response_def True Let_def sent_ok_def inv)
qed (simp add: client_response_def Let_def sent_ok_def inv)

lemma client_give_up_ok:
  "client_inv c \<Longrightarrow> client_inv (fst (client_give_up err i c)) \<and> client_grows c (fst (client_give_up err i c)) \<and>
    sent_ok c ev (fst (client_give_up err i c)) (snd (client_give_up err i c))"
  by (simp add: client_give_up_def sent_ok_def settle_request_inv split: option.split)

lemma client_send_failed_ok:
  "client_inv c \<Longrightarrow> client_inv (client_send_failed i c) \<and> client_grows c (client_send_failed i c)"
  by (simp add: client_send_failed_def settle_request_inv split: option.split)

lemma settle_all_ok:
  "client_inv c \<Longrightarrow> jm_wf ps \<Longrightarrow> set ps \<subseteq> set (rcPending c) \<Longrightarrow>
    client_inv (foldl (\<lambda>c p. settle_request (fst p) (cqSequence (snd p)) out c) c ps) \<and>
    client_grows c (foldl (\<lambda>c p. settle_request (fst p) (cqSequence (snd p)) out c) c ps)"
proof (induction ps arbitrary: c)
  case (Cons p ps)
  let ?c = "settle_request (fst p) (cqSequence (snd p)) out c"
  have "map_of (rcPending c) (fst p) = Some (snd p)"
    using Cons.prems by (intro jm_in_get) (simp_all add: client_invD(1))
  from settle_request_inv [OF Cons.prems(1) this] have one: "client_inv ?c" "client_grows c ?c" by simp_all
  have "jm_wf ps" "fst p \<notin> fst ` set ps" using Cons.prems(2) by (simp_all add: jm_wf_def)
  moreover from this Cons.prems(3) have "set ps \<subseteq> set (rcPending ?c)"
    by (auto simp: settle_request_def jm_set_delete) (metis fst_conv image_eqI)
  ultimately show ?case using Cons.IH [OF one(1)] one(2) by (auto intro: client_grows_trans)
qed simp

lemma client_event_step_ok:
  assumes inv: "client_inv c"
  shows "client_inv (fst (client_event_step b c ev)) \<and> client_grows c (fst (client_event_step b c ev)) \<and>
    sent_ok c ev (fst (client_event_step b c ev)) (snd (client_event_step b c ev))"
proof (cases ev)
  case (ClientCall op payload aborted i)
  obtain res c' ms where r: "request_worker_host b op payload aborted i c = ((res, c'), ms)"
    by (metis prod.collapse)
  with request_worker_host_ok [OF inv r, of ev] ClientCall show ?thesis by simp
next
  case (ClientResponse throws m)
  then show ?thesis using client_response_ok [OF inv] by simp
next
  case (ClientTimeout i)
  then show ?thesis using client_give_up_ok [OF inv] by simp
next
  case (ClientAbort i)
  then show ?thesis using client_give_up_ok [OF inv] by simp
next
  case (ClientSendFailed i)
  then show ?thesis using client_send_failed_ok [OF inv] by (simp add: sent_ok_def)
next
  case ClientDisconnect
  then show ?thesis using settle_all_ok [OF inv client_invD(1) [OF inv] order_refl]
    by (simp add: sent_ok_def client_disconnect_def)
qed

section \<open>What the host has answered\<close>

text \<open>
  \<open>answered h q out\<close>: the host will never compute another result for the call \<open>q\<close>, and the one it has
  computed, if it has, is what \<open>out\<close> says. No later event of the host changes that.
\<close>

definition answered :: "host_rpc \<Rightarrow> nat \<Rightarrow> client_outcome \<Rightarrow> bool" where
  "answered h q out \<longleftrightarrow> q \<le> hrLastSequence h \<and>
     (case hrEntries h q of
        None \<Rightarrow> True
      | Some e \<Rightarrow> \<not> heRunning e \<and> (heResultKnown e \<longrightarrow> out = Resolved (heResult e)))"

lemma answered_stable: "answered h q out \<Longrightarrow> host_keeps h h' \<Longrightarrow> answered h' q out"
proof -
  assume a: "answered h q out" and k: "host_keeps h h'"
  have q: "q \<le> hrLastSequence h" "q \<le> hrLastSequence h'" using a k by (auto simp: answered_def host_keeps_def)
  show ?thesis
  proof (cases "hrEntries h q")
    case None
    with host_keeps_entry(2) [OF k q(1)] q(2) show ?thesis by (simp add: answered_def)
  next
    case (Some e)
    from host_keeps_entry(1) [OF k q(1) Some] obtain e' where
      "hrEntries h' q = Some e'" "entry_keeps e e'" by blast
    with a Some q(2) show ?thesis by (auto simp: answered_def entry_keeps_def)
  qed
qed

lemma reject_request_responses: "m \<in> set (reject_request i q s) \<Longrightarrow> miSequence (response_identity m) = q"
  by (auto simp: reject_request_def message_to_child_def split: if_splits)

lemma finish_call_entries:
  "hrEntries (finish_call q s) q' =
     (if q' = q then map_option (heTimer_update (\<lambda>_. False)) (hrEntries s q) else hrEntries s q')"
  "hrLastSequence (finish_call q s) = hrLastSequence s"
  by (auto simp: finish_call_def update_entry_def Let_def split: option.split)

text \<open>Every response the host sends is an answer in this sense.\<close>

lemma host_call_answers:
  assumes "host_inv h" "hrEntries h (miSequence i) = None" "m \<in> set (snd (host_call i r h))"
  shows "answered (fst (host_call i r h)) (miSequence (response_identity m)) (response_outcome m)"
  using assms(2,3)
  by (auto simp: host_call_def Let_def answered_def dest!: reject_request_responses split: if_splits option.split)

lemma host_result_answers:
  assumes "host_inv h" "m \<in> set (snd (host_result q r throws h))"
  shows "answered (fst (host_result q r throws h)) (miSequence (response_identity m)) (response_outcome m)"
proof -
  obtain e where e: "hrEntries h q = Some e" "m = SuccessMessage (message_to_child h (heId e) q) r"
      "fst (host_result q r throws h) = update_entry q (heTimer_update (\<lambda>_. True))
         (update_entry q (\<lambda>e. e\<lparr>heRunning := False, heResultKnown := True, heResult := r\<rparr>) h)"
    using assms(2) by (auto simp: host_result_def Let_def split: option.splits if_splits)
  with host_invD(3) [OF assms(1) e(1)] show ?thesis
    by (simp add: answered_def update_entry_entries message_to_child_def)
qed

lemma host_failure_answers:
  assumes "host_inv h" "m \<in> set (snd (host_failure q throws h))"
  shows "answered (fst (host_failure q throws h)) (miSequence (response_identity m)) (response_outcome m)"
proof -
  obtain e where e: "hrEntries h q = Some e" "heRunning e" "miSequence (response_identity m) = q"
      "fst (host_failure q throws h) = finish_call q (update_entry q (heRunning_update (\<lambda>_. False)) h)"
    using assms(2) by (auto simp: host_failure_def Let_def message_to_child_def split: option.splits if_splits)
  have "\<not> heResultKnown e" using host_invD(2) [OF assms(1) e(1)] e(2) by (simp add: entry_ok_def)
  with e host_invD(3) [OF assms(1) e(1)] show ?thesis
    by (simp add: answered_def finish_call_entries update_entry_entries)
qed

definition call_seqs :: "client_message list \<Rightarrow> nat list" where
  "call_seqs ms = concat (map (\<lambda>m. case m of CallMessage i r \<Rightarrow> [miSequence i] | _ \<Rightarrow> []) ms)"

definition unheard :: "host_rpc \<Rightarrow> host_event \<Rightarrow> bool" where
  "unheard h ev = (case ev of
       HostMessage (CallMessage i r) \<Rightarrow> hrEntries h (miSequence i) = None | _ \<Rightarrow> True)"

lemma host_answers:
  assumes "host_inv h" "unheard h ev" "m \<in> set (snd (host_event_step h ev))"
  shows "answered (fst (host_event_step h ev)) (miSequence (response_identity m)) (response_outcome m)"
proof (cases ev)
  case (HostMessage cm)
  then obtain i r where c: "cm = CallMessage i r" "\<not> (hrDisposed h \<or> miBot i \<noteq> hrBot h)"
    using assms(3) by (auto simp: host_message_def split: client_message.splits if_splits)
  with HostMessage assms host_call_answers [OF assms(1), of i m r] show ?thesis
    by (simp add: host_message_def unheard_def)
next
  case (HostResult q r throws)
  with host_result_answers assms show ?thesis by simp
next
  case (HostFailure q throws)
  with host_failure_answers assms show ?thesis by simp
qed (use assms(3) in simp_all)

section \<open>Only an acknowledgement acknowledges\<close>

definition acked :: "host_rpc \<Rightarrow> nat \<Rightarrow> bool" where
  "acked h q = (case hrEntries h q of Some e \<Rightarrow> heAcknowledged e | None \<Rightarrow> False)"

lemma acked_update: "(\<And>e. heAcknowledged (f e) = heAcknowledged e) \<Longrightarrow> acked (update_entry k f h) q = acked h q"
  by (simp add: acked_def update_entry_entries split: option.split)

lemma acked_finish: "acked (finish_call k h) q = acked h q"
  by (auto simp: acked_def finish_call_entries split: option.split)

lemma acked_rollback: "acked (rollback_request k h) q = acked h q"
  by (auto simp: acked_def rollback_request_def update_entry_def split: option.split)

lemma acked_abandon: "acked (abandon_request k h) q = acked h q"
  by (simp add: abandon_request_def acked_finish acked_rollback acked_update split: option.split)

lemma acked_abandon_all: "acked (foldl (\<lambda>t p. abandon_request (snd p) t) h ps) q = acked h q"
  by (induction ps arbitrary: h) (simp_all add: acked_abandon)

lemma acked_flag: "acked (h\<lparr>hrDisposed := d\<rparr>) q = acked h q" "acked (h\<lparr>hrConnected := d\<rparr>) q = acked h q"
  "acked (h\<lparr>hrLastSequence := n\<rparr>) q = acked h q"
  by (simp_all add: acked_def)

lemma acked_call: "hrEntries h (miSequence i) = None \<Longrightarrow> acked (fst (host_call i r h)) q = acked h q"
  by (auto simp: host_call_def Let_def acked_def new_host_entry_def)

lemma acked_ack: "acked (host_ack i h) q \<Longrightarrow> acked h q \<or>
    (q = miSequence i \<and> (\<exists>e. hrEntries h q = Some e \<and> heResultKnown e))"
  by (auto simp: host_ack_def acked_def finish_call_entries update_entry_entries split: option.splits if_splits)

lemma acked_step:
  assumes "unheard h ev" "acked (fst (host_event_step h ev)) q"
  shows "acked h q \<or> (\<exists>i e. ev = HostMessage (AckMessage i) \<and> q = miSequence i \<and> hrEntries h q = Some e \<and> heResultKnown e)"
proof (cases ev)
  case (HostMessage cm)
  then show ?thesis using assms acked_ack
    by (cases cm) (auto simp: host_message_def host_cancel_def acked_abandon acked_call unheard_def
        split: option.splits if_splits)
next
  case (HostResult k r throws)
  then show ?thesis using assms(2)
    by (simp add: host_result_def Let_def acked_rollback acked_abandon acked_update split: option.splits if_splits)
next
  case (HostFailure k throws)
  then show ?thesis using assms(2)
    by (simp add: host_failure_def Let_def acked_finish acked_update split: option.splits if_splits)
qed (use assms(2) in \<open>auto simp: host_receipt_timeout_def host_send_failed_def host_dispose_def acked_abandon
      acked_abandon_all acked_flag split: option.splits if_splits\<close>)

section \<open>The invariant of the link\<close>

definition link_inv :: "rpc_link \<Rightarrow> bool" where
  "link_inv l \<longleftrightarrow>
     host_inv (lkHost l) \<and> client_inv (lkClient l) \<and>
     hrLastSequence (lkHost l) \<le> rcLast (lkClient l) \<and>
     distinct (call_seqs (lkUp l)) \<and>
     (\<forall>q \<in> set (call_seqs (lkUp l)). q \<le> rcLast (lkClient l) \<and> hrEntries (lkHost l) q = None) \<and>
     (\<forall>i. AckMessage i \<in> set (lkUp l) \<longrightarrow>
        (\<exists>out. (miSequence i, out) \<in> set (rcSettled (lkClient l)) \<and> answered (lkHost l) (miSequence i) out)) \<and>
     (\<forall>m \<in> set (lkDown l). answered (lkHost l) (miSequence (response_identity m)) (response_outcome m)) \<and>
     (\<forall>q e. hrEntries (lkHost l) q = Some e \<and> heAcknowledged e \<longrightarrow>
        (q, Resolved (heResult e)) \<in> set (rcSettled (lkClient l)))"

lemma link_invD:
  assumes "link_inv l"
  shows "host_inv (lkHost l)" "client_inv (lkClient l)" "hrLastSequence (lkHost l) \<le> rcLast (lkClient l)"
    "distinct (call_seqs (lkUp l))"
    "q \<in> set (call_seqs (lkUp l)) \<Longrightarrow> q \<le> rcLast (lkClient l) \<and> hrEntries (lkHost l) q = None"
    "AckMessage i \<in> set (lkUp l) \<Longrightarrow>
       \<exists>out. (miSequence i, out) \<in> set (rcSettled (lkClient l)) \<and> answered (lkHost l) (miSequence i) out"
    "m \<in> set (lkDown l) \<Longrightarrow> answered (lkHost l) (miSequence (response_identity m)) (response_outcome m)"
    "hrEntries (lkHost l) q = Some e \<Longrightarrow> heAcknowledged e \<Longrightarrow>
       (q, Resolved (heResult e)) \<in> set (rcSettled (lkClient l))"
  using assms unfolding link_inv_def by blast+

lemma set_remove_nth: "set (remove_nth n xs) \<subseteq> set xs"
  unfolding remove_nth_def by (auto dest: in_set_takeD in_set_dropD)

lemma call_seqs_append [simp]: "call_seqs (xs @ ys) = call_seqs xs @ call_seqs ys"
  by (simp add: call_seqs_def)

lemma call_seqs_remove:
  "n < length xs \<Longrightarrow> call_seqs xs = call_seqs (take n xs) @ call_seqs [xs ! n] @ call_seqs (drop (Suc n) xs)"
  "call_seqs (remove_nth n xs) = call_seqs (take n xs) @ call_seqs (drop (Suc n) xs)"
proof -
  assume "n < length xs"
  then have "xs = take n xs @ [xs ! n] @ drop (Suc n) xs" by (simp add: id_take_nth_drop)
  then show "call_seqs xs = call_seqs (take n xs) @ call_seqs [xs ! n] @ call_seqs (drop (Suc n) xs)"
    by (metis call_seqs_append)
qed (simp add: remove_nth_def)

lemma call_seqs_sub: "set (call_seqs (remove_nth n xs)) \<subseteq> set (call_seqs xs)"
  "distinct (call_seqs xs) \<Longrightarrow> distinct (call_seqs (remove_nth n xs))"
proof -
  show "set (call_seqs (remove_nth n xs)) \<subseteq> set (call_seqs xs)"
    unfolding call_seqs_def using set_remove_nth [of n xs] by auto
  assume d: "distinct (call_seqs xs)"
  show "distinct (call_seqs (remove_nth n xs))"
  proof (cases "n < length xs")
    case True
    with d call_seqs_remove [of n xs] show ?thesis by auto
  next
    case False
    then show ?thesis using d by (simp add: remove_nth_def)
  qed
qed

text \<open>Losing messages keeps it.\<close>

lemma link_inv_lose:
  assumes "link_inv l"
  shows "link_inv (l\<lparr>lkUp := remove_nth n (lkUp l)\<rparr>)" "link_inv (l\<lparr>lkDown := remove_nth n (lkDown l)\<rparr>)"
proof -
  note d = link_invD [OF assms]
  show "link_inv (l\<lparr>lkUp := remove_nth n (lkUp l)\<rparr>)"
    using assms set_remove_nth [of n "lkUp l"] call_seqs_sub [where n = n and xs = "lkUp l"] unfolding link_inv_def by auto
  show "link_inv (l\<lparr>lkDown := remove_nth n (lkDown l)\<rparr>)"
    using assms set_remove_nth [of n "lkDown l"] unfolding link_inv_def by auto
qed

text \<open>
  An event of the host, the message it consumes already taken from the channel: the calls still under
  way are not the one it consumes, and an acknowledgement it consumes was answered.
\<close>

definition consumed_ok :: "host_event \<Rightarrow> rpc_link \<Rightarrow> bool" where
  "consumed_ok ev l \<longleftrightarrow> (case ev of
       HostMessage (CallMessage i r) \<Rightarrow> miSequence i \<le> rcLast (lkClient l) \<and>
         hrEntries (lkHost l) (miSequence i) = None \<and> miSequence i \<notin> set (call_seqs (lkUp l))
     | HostMessage (AckMessage i) \<Rightarrow>
         \<exists>out. (miSequence i, out) \<in> set (rcSettled (lkClient l)) \<and> answered (lkHost l) (miSequence i) out
     | _ \<Rightarrow> True)"

definition calls_of :: "host_event \<Rightarrow> nat list" where
  "calls_of ev = (case ev of HostMessage m \<Rightarrow> call_seqs [m] | _ \<Rightarrow> [])"

text \<open>Only the call it consumes gets an entry, and only that call moves the last sequence.\<close>

lemma entries_none_abandon: "hrEntries (abandon_request k h) q = None \<longleftrightarrow> hrEntries h q = None"
  "hrLastSequence (abandon_request k h) = hrLastSequence h"
  by (auto simp: abandon_request_def finish_call_entries rollback_request_def update_entry_def split: option.split)

lemma entries_none_rollback: "hrEntries (rollback_request k h) q = None \<longleftrightarrow> hrEntries h q = None"
  "hrLastSequence (rollback_request k h) = hrLastSequence h"
  by (auto simp: rollback_request_def update_entry_def split: option.split)

lemma entries_none_finish: "hrEntries (finish_call k h) q = None \<longleftrightarrow> hrEntries h q = None"
  by (simp add: finish_call_entries)

lemma entries_none_update: "hrEntries (update_entry k f h) q = None \<longleftrightarrow> hrEntries h q = None"
  by (simp add: update_entry_entries)

lemma entries_none_all: "hrEntries (foldl (\<lambda>t p. abandon_request (snd p) t) h ps) q = None \<longleftrightarrow> hrEntries h q = None"
  "hrLastSequence (foldl (\<lambda>t p. abandon_request (snd p) t) h ps) = hrLastSequence h"
  by (induction ps arbitrary: h) (simp_all add: entries_none_abandon)

lemmas entries_none = entries_none_abandon entries_none_rollback entries_none_finish entries_none_update
  entries_none_all finish_call_entries(2)

lemma entries_none_step:
  assumes "hrEntries h q = None" "q \<notin> set (calls_of ev)"
  shows "hrEntries (fst (host_event_step h ev)) q = None"
proof (cases ev)
  case (HostMessage m)
  then show ?thesis using assms
    by (cases m) (auto simp: host_message_def host_cancel_def host_ack_def host_call_def Let_def calls_of_def
        call_seqs_def entries_none split: option.split)
next
  case (HostResult k r throws)
  with assms show ?thesis by (simp add: host_result_def Let_def entries_none split: option.split)
next
  case (HostFailure k throws)
  with assms show ?thesis by (simp add: host_failure_def Let_def entries_none split: option.split)
qed (use assms in \<open>simp_all add: host_receipt_timeout_def host_send_failed_def host_dispose_def entries_none
      split: option.split\<close>)

lemma last_sequence_step:
  "hrLastSequence (fst (host_event_step h ev)) = hrLastSequence h \<or>
   hrLastSequence (fst (host_event_step h ev)) \<in> set (calls_of ev)"
proof (cases ev)
  case (HostMessage m)
  then show ?thesis
    by (cases m) (auto simp: host_message_def host_cancel_def host_ack_def host_call_def Let_def calls_of_def
        call_seqs_def entries_none split: option.split)
next
  case (HostResult k r throws)
  then show ?thesis by (simp add: host_result_def Let_def entries_none split: option.split)
next
  case (HostFailure k throws)
  then show ?thesis by (simp add: host_failure_def Let_def entries_none split: option.split)
qed (simp_all add: host_receipt_timeout_def host_send_failed_def host_dispose_def entries_none split: option.split)

text \<open>An event of the host keeps the invariant.\<close>

lemma link_host_inv:
  assumes inv: "link_inv l" and con: "consumed_ok ev l"
  shows "link_inv (link_host ev l)"
proof -
  note d = link_invD [OF inv]
  define h where "h = lkHost l"
  define h' where "h' = fst (host_event_step h ev)"
  define ms where "ms = snd (host_event_step h ev)"
  have l': "link_host ev l = l\<lparr>lkHost := h', lkDown := lkDown l @ ms\<rparr>"
    by (simp add: link_host_def h'_def ms_def h_def split: prod.split)
  have ok: "host_inv h'" "host_keeps h h'"
    using host_event_step_ok [OF d(1), of ev] by (simp_all add: h'_def h_def host_ok_def)
  have unheard: "unheard h ev" using con by (auto simp: unheard_def consumed_ok_def h_def split: host_event.split client_message.split)
  have calls: "q \<in> set (calls_of ev) \<Longrightarrow> q \<le> rcLast (lkClient l) \<and> q \<notin> set (call_seqs (lkUp l))" for q
    using con by (auto simp: calls_of_def call_seqs_def consumed_ok_def split: host_event.splits client_message.splits)
  have "hrLastSequence h' \<le> rcLast (lkClient l)"
    using last_sequence_step [of h ev] d(3) calls by (auto simp: h'_def h_def)
  moreover have "q \<le> rcLast (lkClient l) \<and> hrEntries h' q = None" if "q \<in> set (call_seqs (lkUp l))" for q
    using d(5) [OF that] that calls [of q] entries_none_step [of h q ev] by (auto simp: h'_def h_def)
  moreover have "\<exists>out. (miSequence i, out) \<in> set (rcSettled (lkClient l)) \<and> answered h' (miSequence i) out"
    if "AckMessage i \<in> set (lkUp l)" for i
    using d(6) [OF that] answered_stable [OF _ ok(2)] by (auto simp: h_def)
  moreover have "answered h' (miSequence (response_identity m)) (response_outcome m)" if "m \<in> set (lkDown l @ ms)" for m
    using that d(7) [of m] answered_stable [OF _ ok(2)] host_answers [OF d(1), of ev m] unheard
    by (auto simp: h'_def h_def ms_def)
  moreover have "(q, Resolved (heResult e)) \<in> set (rcSettled (lkClient l))"
    if e: "hrEntries h' q = Some e" "heAcknowledged e" for q e
  proof -
    have "acked h' q" using e by (simp add: acked_def)
    then consider (old) "acked h q"
      | (new) i e0 where "ev = HostMessage (AckMessage i)" "q = miSequence i" "hrEntries h q = Some e0" "heResultKnown e0"
      using acked_step [OF unheard] unfolding h'_def by blast
    then show ?thesis
    proof cases
      case old
      then obtain e0 where e0: "hrEntries h q = Some e0" "heAcknowledged e0"
        by (auto simp: acked_def split: option.splits)
      then have "entry_ok e0" "q \<le> hrLastSequence h" using host_invD(2,3) [OF d(1)] by (auto simp: h_def)
      with e0 e host_keeps_entry(1) [OF ok(2), of q e0] have "heResult e = heResult e0"
        by (auto simp: entry_keeps_def entry_ok_def)
      with d(8) [of q e0] e0 show ?thesis by (simp add: h_def)
    next
      case new
      from con new obtain out where out: "(q, out) \<in> set (rcSettled (lkClient l))" "answered h q out"
        by (auto simp: consumed_ok_def h_def)
      with new have "out = Resolved (heResult e0)" "\<not> heRunning e0" "q \<le> hrLastSequence h"
        by (auto simp: answered_def)
      moreover from this e host_keeps_entry(1) [OF ok(2) _ new(3)] have "heResult e = heResult e0"
        by (auto simp: entry_keeps_def)
      ultimately show ?thesis using out(1) by simp
    qed
  qed
  ultimately show ?thesis using ok(1) d(2,4) unfolding link_inv_def l' by simp
qed

text \<open>So does an event of the client, a response it consumes being an answer of the host.\<close>

lemma link_client_inv:
  assumes inv: "link_inv l"
    and con: "\<And>throws m. ev = ClientResponse throws m \<Longrightarrow>
      answered (lkHost l) (miSequence (response_identity m)) (response_outcome m)"
  shows "link_inv (link_client b ev l)"
proof -
  note d = link_invD [OF inv]
  define c where "c = lkClient l"
  define c' where "c' = fst (client_event_step b c ev)"
  define ms where "ms = snd (client_event_step b c ev)"
  have l': "link_client b ev l = l\<lparr>lkClient := c', lkUp := lkUp l @ ms\<rparr>"
    by (simp add: link_client_def c'_def ms_def c_def split: prod.split)
  have ok: "client_inv c'" "client_grows c c'" "sent_ok c ev c' ms"
    using client_event_step_ok [of c b ev] d(2) by (simp_all add: c'_def ms_def c_def)
  have grows: "rcLast c \<le> rcLast c'" "set (rcSettled c) \<subseteq> set (rcSettled c')"
    using ok(2) by (auto simp: client_grows_def prefix_def)
  have new: "call_seqs ms = [] \<or> call_seqs ms = [Suc (rcLast c)] \<and> rcLast c' = Suc (rcLast c)"
  proof (cases "\<exists>i r. CallMessage i r \<in> set ms")
    case True
    with ok(3) show ?thesis by (fastforce simp: sent_ok_def call_seqs_def)
  next
    case False
    then have "call_seqs ms = []" by (auto simp: call_seqs_def split: client_message.split)
    then show ?thesis ..
  qed
  have unknown: "hrEntries (lkHost l) (Suc (rcLast c)) = None"
    using entry_unknown [OF _ d(1), of "Suc (rcLast c)"] d(3) by (simp add: c_def)
  have "hrLastSequence (lkHost l) \<le> rcLast c'" using d(3) grows(1) by (simp add: c_def)
  moreover have "distinct (call_seqs (lkUp l @ ms))"
    using d(4) d(5) [of "Suc (rcLast c)"] new by (auto simp: c_def)
  moreover have "q \<le> rcLast c' \<and> hrEntries (lkHost l) q = None" if "q \<in> set (call_seqs (lkUp l @ ms))" for q
    using that d(5) [of q] new unknown grows(1) by (auto simp: c_def)
  moreover have "\<exists>out. (miSequence i, out) \<in> set (rcSettled c') \<and> answered (lkHost l) (miSequence i) out"
    if "AckMessage i \<in> set (lkUp l @ ms)" for i
  proof (cases "AckMessage i \<in> set ms")
    case True
    with ok(3) obtain throws a where "ev = ClientResponse throws a" "i = response_identity a"
        "(miSequence i, response_outcome a) \<in> set (rcSettled c')"
      by (fastforce simp: sent_ok_def)
    with con show ?thesis by blast
  next
    case False
    with that d(6) [of i] grows(2) show ?thesis by (auto simp: c_def)
  qed
  moreover have "(q, Resolved (heResult e)) \<in> set (rcSettled c')"
    if "hrEntries (lkHost l) q = Some e" "heAcknowledged e" for q e
    using d(8) [OF that] grows(2) by (auto simp: c_def)
  ultimately show ?thesis using ok(1) d(1,7) unfolding link_inv_def l' by simp
qed

lemma link_step_inv: "link_inv l \<Longrightarrow> link_inv (link_step b l ev)"
proof (cases ev)
  case (DeliverUp n)
  assume inv: "link_inv l"
  note d = link_invD [OF inv]
  show ?thesis
  proof (cases "n < length (lkUp l)")
    case True
    let ?l = "l\<lparr>lkUp := remove_nth n (lkUp l)\<rparr>"
    have mem: "lkUp l ! n \<in> set (lkUp l)" using True by simp
    have "consumed_ok (HostMessage (lkUp l ! n)) ?l"
    proof (cases "lkUp l ! n")
      case (CallMessage i r)
      then have "set (call_seqs [lkUp l ! n]) = {miSequence i}" by (simp add: call_seqs_def)
      with call_seqs_remove(1) [OF True] d(4) have "miSequence i \<in> set (call_seqs (lkUp l))"
        "miSequence i \<notin> set (call_seqs (remove_nth n (lkUp l)))"
        by (auto simp: call_seqs_remove(2))
      with d(5) CallMessage show ?thesis by (simp add: consumed_ok_def)
    next
      case (AckMessage i)
      with d(6) [of i] mem show ?thesis by (simp add: consumed_ok_def)
    qed (simp add: consumed_ok_def)
    with link_host_inv [OF link_inv_lose(1) [OF inv]] DeliverUp True show ?thesis by simp
  qed (use DeliverUp inv in simp)
next
  case (DeliverDown n throws)
  assume inv: "link_inv l"
  show ?thesis
  proof (cases "n < length (lkDown l)")
    case True
    then have "lkDown l ! n \<in> set (lkDown l)" by simp
    then have "link_inv (link_client b (ClientResponse throws (lkDown l ! n)) (l\<lparr>lkDown := remove_nth n (lkDown l)\<rparr>))"
      using link_invD(7) [OF inv] by (intro link_client_inv link_inv_lose(2) [OF inv]) auto
    with True DeliverDown show ?thesis by simp
  qed (use DeliverDown inv in simp)
next
  case (AtClient cev)
  assume "link_inv l"
  then show ?thesis using AtClient by (auto simp: arrival_def intro!: link_client_inv split: client_event.splits)
next
  case (AtHost hev)
  assume "link_inv l"
  then show ?thesis using AtHost
    by (auto simp: arrival_def consumed_ok_def intro!: link_host_inv split: host_event.splits)
qed (simp_all add: link_inv_lose)

lemma new_link_inv: "link_inv (new_link botId)"
  using attach_inv [of botId]
  by (simp add: link_inv_def new_link_def new_rpc_client_def client_inv_def attach_worker_host_rpc_def call_seqs_def)

interpretation links: invariant_machine "link_step b" link_inv for b
  by unfold_locales (rule link_step_inv)

section \<open>Properties\<close>

text \<open>
  C7: Over channels that lose and reorder messages: when the host counts a result as acknowledged, the
  worker's promise for that call was resolved with exactly that result and was never settled otherwise. So a
  call that timed out, was cancelled or failed on the worker's side is never kept by the host.
\<close>

theorem acknowledged_result_was_received:
  assumes "hrEntries (lkHost (foldl (link_step b) (new_link botId) evs)) q = Some e" and "heAcknowledged e"
  shows "(q, out) \<in> set (rcSettled (lkClient (foldl (link_step b) (new_link botId) evs))) \<longleftrightarrow>
    out = Resolved (heResult e)"
proof -
  have inv: "link_inv (foldl (link_step b) (new_link botId) evs)" by (rule links.run_inv [OF new_link_inv])
  have "(q, Resolved (heResult e)) \<in> set (rcSettled (lkClient (foldl (link_step b) (new_link botId) evs)))"
    by (rule link_invD(8) [OF inv assms])
  moreover have "distinct (map fst (rcSettled (lkClient (foldl (link_step b) (new_link botId) evs))))"
    by (rule client_invD(4) [OF link_invD(2) [OF inv]])
  ultimately show ?thesis by (metis eq_key_imp_eq_value)
qed

definition sample_claim_call :: link_event where
  "sample_claim_call =
     AtClient (ClientCall (Str (operation_name ExecutionClaim)) (hqPayload sample_request) False (js ''a''))"

lemmas link_evaluation = new_link_def new_rpc_client_def attach_worker_host_rpc_def sample_claim_call_def
  link_client_def link_host_def request_worker_host_def read_operation_name max_pending_requests_def
  max_pending_claims_def max_message_bytes_def within_limit_def arrival_def remove_nth_def host_message_def
  host_call_def jm_has_def claims_in_flight_def new_host_entry_def host_result_def message_to_child_def
  client_response_def settle_request_def host_ack_def host_cancel_def client_give_up_def abandon_request_def
  rollback_request_def finish_call_def update_entry_def sample_request_def Let_def

theorem acknowledged_result_was_received_witness:
  "(1, Resolved Null) \<in> set (rcSettled (lkClient (foldl (link_step (\<lambda>_. Some 0)) (new_link (js ''b''))
     [sample_claim_call, DeliverUp 0, AtHost (HostResult 1 Null False), DeliverDown 0 False, DeliverUp 0])))"
proof -
  let ?l = "foldl (link_step (\<lambda>_. Some 0)) (new_link (js ''b''))
     [sample_claim_call, DeliverUp 0, AtHost (HostResult 1 Null False), DeliverDown 0 False, DeliverUp 0]"
  have "\<exists>e. hrEntries (lkHost ?l) 1 = Some e \<and> heAcknowledged e \<and> heResult e = Null"
    by (simp add: link_evaluation)
  then obtain e where e: "hrEntries (lkHost ?l) 1 = Some e" "heAcknowledged e" "heResult e = Null" by blast
  show ?thesis using acknowledged_result_was_received [OF e(1,2), of "Resolved Null"] e(3) by simp
qed

text \<open>
  Whatever happens, at most 32 calls and at most 16 claims are in flight, on the worker's side and on the
  host's side.
\<close>

theorem calls_in_flight_bounded:
  "length (hrRequests (lkHost (foldl (link_step b) (new_link botId) evs))) \<le> 32 \<and>
   claims_in_flight (lkHost (foldl (link_step b) (new_link botId) evs)) \<le> 16 \<and>
   length (rcPending (lkClient (foldl (link_step b) (new_link botId) evs))) \<le> 32 \<and>
   length (filter (\<lambda>p. cqOperation (snd p) = ExecutionClaim)
     (rcPending (lkClient (foldl (link_step b) (new_link botId) evs)))) \<le> 16"
proof -
  have inv: "link_inv (foldl (link_step b) (new_link botId) evs)" by (rule links.run_inv [OF new_link_inv])
  show ?thesis
    using host_invD(7,8) [OF link_invD(1) [OF inv]] client_invD(6,7) [OF link_invD(2) [OF inv]]
    by (simp add: max_pending_requests_def max_pending_claims_def)
qed

end
