(* ===== verification/ExecutionLeaseFacts.thy ===== *)
theory ExecutionLeaseFacts
  imports ExecutionLease AdmissionFacts WorkerHostLink
begin

text \<open>
  A lease that is released outside a yield gives back everything it was granted; one that is released
  while a yield is under way keeps what the yield claims again. A refused or lost reclaim gives the last
  lease back to the host.
\<close>

section \<open>The lease object\<close>

definition lease_inv :: "execution_lease \<Rightarrow> bool" where
  "lease_inv st \<longleftrightarrow>
     xlLastLeaseId st \<noteq> [] \<and> (\<forall>i. xlLeaseId st = Some i \<longrightarrow> i = xlLastLeaseId st) \<and>
     xlLastLeaseId st \<in> set (xlReceived st) \<and>
     (\<forall>i \<in> set (xlReceived st). i \<in> set (xlSent st) \<or> xlLeaseId st = Some i) \<and>
     (xlYielded st \<longrightarrow> xlLeaseId st = None \<and> \<not> xlClosed st) \<and>
     (\<not> xlYielded st \<longrightarrow> (xlLeaseId st = None \<longleftrightarrow> xlClosed st))"

text \<open>An event that respects the lease: no release while a yield waits, and identifiers are not empty.\<close>

definition lease_event_ok :: "execution_lease \<Rightarrow> lease_event \<Rightarrow> bool" where
  "lease_event_ok st ev = (case ev of
       LeaseRelease \<Rightarrow> \<not> xlYielded st
     | LeaseYield \<Rightarrow> True
     | LeaseReturn answer aborted \<Rightarrow> (case answer of Inr i \<Rightarrow> i \<noteq> [] | Inl _ \<Rightarrow> True))"

fun lease_run_ok :: "execution_lease \<Rightarrow> lease_event list \<Rightarrow> bool" where
  "lease_run_ok st [] = True"
| "lease_run_ok st (ev # evs) = (lease_event_ok st ev \<and> lease_run_ok (lease_step st ev) evs)"

lemma new_lease_inv: "i \<noteq> [] \<Longrightarrow> lease_inv (new_lease input i)"
  by (simp add: lease_inv_def new_lease_def)

lemma release_lease_inv:
  assumes "lease_inv st" "\<not> xlYielded st"
  shows "lease_inv (fst (release_lease False st)) \<and> xlClosed (fst (release_lease False st))"
  using assms by (cases "xlLeaseId st") (auto simp: lease_inv_def release_lease_def Let_def)

lemma lease_step_inv:
  assumes inv: "lease_inv st" and ok: "lease_event_ok st ev"
  shows "lease_inv (lease_step st ev)"
proof (cases ev)
  case LeaseRelease
  with ok release_lease_inv [OF inv] show ?thesis by (simp add: lease_event_ok_def)
next
  case LeaseYield
  show ?thesis
  proof (cases "xlYielded st \<or> xlLeaseId st = None \<or> xlClosed st")
    case False
    with inv LeaseYield show ?thesis
      by (auto simp: yield_start_def release_lease_def Let_def lease_inv_def)
  qed (use LeaseYield inv in \<open>simp add: yield_start_def\<close>)
next
  case (LeaseReturn answer aborted)
  show ?thesis
  proof (cases "xlYielded st")
    case True
    show ?thesis
    proof (cases answer)
      case (Inl e)
      with inv True LeaseReturn show ?thesis
        by (auto simp: yield_finish_def reclaimed_def release_lease_def Let_def lease_inv_def)
    next
      case (Inr i)
      let ?st = "st\<lparr>xlLeaseId := Some i, xlLastLeaseId := i, xlReceived := xlReceived st @ [i], xlYielded := False\<rparr>"
      have "lease_inv ?st" using inv True ok Inr LeaseReturn by (auto simp: lease_inv_def lease_event_ok_def)
      with release_lease_inv [OF this] Inr True LeaseReturn show ?thesis
        by (auto simp: yield_finish_def reclaimed_def)
    qed
  qed (use LeaseReturn inv in simp)
qed

lemma lease_run_inv: "lease_inv st \<Longrightarrow> lease_run_ok st evs \<Longrightarrow> lease_inv (foldl lease_step st evs)"
  by (induction evs arbitrary: st) (simp_all add: lease_step_inv)

text \<open>A closed lease sends nothing more, whatever happens to it.\<close>

definition lease_stuck :: "execution_lease \<Rightarrow> bool" where
  "lease_stuck st \<longleftrightarrow> xlClosed st \<and> \<not> xlYielded st"

lemma lease_stuck_step: "lease_stuck st \<Longrightarrow> lease_step st ev = st"
  by (cases ev) (simp_all add: lease_stuck_def release_lease_def yield_start_def)

interpretation stuck_lease: absorbing_machine lease_step lease_stuck
  by unfold_locales (rule lease_stuck_step)

section \<open>The host's side\<close>

lemma read_refusal_text: "read_refusal (Str (refusal_text r)) = Some r"
  by (cases r) (simp_all add: read_refusal_def refusal_text_def refusal_texts_def del: js_simps(2))

lemma parse_admission_value:
  "parse_admission_decision (admission_value (Refused r)) = Inl (AdmissionLimit r)"
  "uuid_v4 (js i) \<Longrightarrow> parse_admission_decision (admission_value (Admitted i)) = Inr (js i)"
  by (simp_all add: parse_admission_decision_def is_record_def read_refusal_text string_matching_def text_of_def)

text \<open>A drain grants only leases with fresh identifiers.\<close>

definition avoids :: "fresh_supply \<Rightarrow> string \<Rightarrow> bool" where
  "avoids fresh i \<longleftrightarrow> (\<forall>n. fst (fresh n) \<noteq> i)"

lemma drain_once_absent:
  "drain_once fr s = Some t \<Longrightarrow> fst fr \<noteq> i \<Longrightarrow> map_of (adLeases s) i = None \<Longrightarrow> map_of (adLeases t) i = None"
  by (auto simp: drain_once_def serve_bot_def remove_pending_def grant_def settle_def Let_def split: option.splits if_splits)

lemma drain_loop_absent:
  "avoids fresh i \<Longrightarrow> map_of (adLeases s) i = None \<Longrightarrow> map_of (adLeases (drain_loop n fresh s)) i = None"
  by (induction n fresh s rule: drain_loop.induct) (auto simp: avoids_def split: option.split dest: drain_once_absent)

lemma release_frees:
  assumes "map_of (adLeases s) i = Some l" "clBot l = botId" "clRun l = run" "avoids fresh i"
  shows "fst (release fresh botId run i s) \<and> map_of (adLeases (snd (release fresh botId run i s))) i = None"
  using assms drain_loop_absent [OF assms(4)] by (simp add: release_def drain_def)

lemma char_of_js [simp]: "map char_of (js s) = s"
  by (simp add: js_def comp_def)

lemma release_payload_read:
  "is_record (release_payload run i y)" "getp (release_payload run i y) ''runId'' = Str run"
  "getp (release_payload run i y) ''leaseId'' = Str i"
  by (auto simp: release_payload_def is_record_def)

text \<open>A version 4 UUID passes the looser test of the host's release handler.\<close>

lemma uuid_unit_hex: "uuid_unit i u \<Longrightarrow> hex_unit u"
  by (auto simp: uuid_unit_def hex_unit_def hex_digit_def split: if_splits)

lemma uuid_hex: "uuid_v4 t \<Longrightarrow> length t = 36 \<and> list_all hex_unit t"
proof -
  assume u: "uuid_v4 t"
  have "hex_unit x" if "x \<in> set t" for x
  proof -
    from that obtain i where "i < length t" "x = t ! i" by (auto simp: in_set_conv_nth)
    then have "(i, x) \<in> set (enumerate 0 t)" by (simp add: in_set_enumerate_eq)
    moreover have "\<forall>p \<in> set (enumerate 0 t). uuid_unit (fst p) (snd p)"
      using u by (simp add: uuid_v4_def list_all_iff)
    ultimately have "uuid_unit (fst (i, x)) (snd (i, x))" by blast
    then show ?thesis by (auto intro: uuid_unit_hex)
  qed
  with u show ?thesis by (simp add: uuid_v4_def list_all_iff)
qed

lemma handle_release_frees:
  assumes "map_of (adLeases s) i = Some l" "clBot l = botId" "clRun l = run" "uuid_v4 (js i)"
    and "avoids fresh i"
  shows "fst (handle_release fresh botId (release_payload run (js i) y) s) = Inr (Released True) \<and>
    map_of (adLeases (snd (handle_release fresh botId (release_payload run (js i) y) s))) i = None"
  using release_frees [OF assms(1-3,5)] uuid_hex [OF assms(4)]
  by (cases "release fresh botId run i s")
    (auto simp: handle_release_def release_payload_read string_matching_def text_of_def is_string_def)

section \<open>Properties\<close>

text \<open>
  C29: A lease that is not released while a yield waits gives everything back: every identifier the host
  granted has been sent back or is the one held now, and once the lease is closed all of them have been sent.
\<close>

theorem lease_gives_back:
  assumes "i \<noteq> []" and "lease_run_ok (new_lease input i) evs"
  shows "list_all (\<lambda>k. k \<in> set (xlSent (foldl lease_step (new_lease input i) evs)) \<or>
      xlLeaseId (foldl lease_step (new_lease input i) evs) = Some k)
    (xlReceived (foldl lease_step (new_lease input i) evs)) \<and>
    (xlClosed (foldl lease_step (new_lease input i) evs) \<longrightarrow>
       xlLeaseId (foldl lease_step (new_lease input i) evs) = None)"
proof -
  have "lease_inv (foldl lease_step (new_lease input i) evs)"
    by (rule lease_run_inv [OF new_lease_inv [OF assms(1)] assms(2)])
  then show ?thesis by (auto simp: lease_inv_def list_all_iff)
qed

definition sample_lease_input :: lease_input where
  "sample_lease_input = \<lparr>liRun = js ''r'', liSession = js ''s'', liKind = Foreground, liParent = None\<rparr>"

theorem lease_gives_back_witness:
  "list_all (\<lambda>k. k \<in> {[1], [2]})
    (xlReceived (foldl lease_step (new_lease sample_lease_input [1]) [LeaseYield, LeaseReturn (Inr [2]) False, LeaseRelease]))"
  using lease_gives_back [of "[1]" sample_lease_input "[LeaseYield, LeaseReturn (Inr [2]) False, LeaseRelease]"]
  by (simp add: lease_event_ok_def new_lease_def yield_start_def release_lease_def yield_finish_def reclaimed_def
      Let_def)

text \<open>
  A lease that is released while a yield waits keeps what the yield claims again: the object is
  closed, holds the new identifier, and no later event sends it back. The host counts the execution as active
  until the bot's process ends.
\<close>

theorem release_during_yield_leaks:
  assumes "i \<noteq> []" and "lease_run_ok (new_lease input i) before"
    and "xlLeaseId (foldl lease_step (new_lease input i) before) = Some held"
    and "k \<noteq> held" and "k \<notin> set (xlSent (foldl lease_step (new_lease input i) before))"
  shows "let st = foldl lease_step (new_lease input i)
        (before @ [LeaseYield, LeaseRelease, LeaseReturn (Inr k) aborted] @ later) in
      xlClosed st \<and> xlLeaseId st = Some k \<and> k \<notin> set (xlSent st)"
proof -
  let ?st = "foldl lease_step (new_lease input i) before"
  let ?leaked = "foldl lease_step ?st [LeaseYield, LeaseRelease, LeaseReturn (Inr k) aborted]"
  have inv: "lease_inv ?st" by (rule lease_run_inv [OF new_lease_inv [OF assms(1)] assms(2)])
  then have free: "\<not> xlYielded ?st" "\<not> xlClosed ?st" "xlLastLeaseId ?st = held" "held \<noteq> []"
    using assms(3) by (auto simp: lease_inv_def)
  have leaked: "xlClosed ?leaked \<and> \<not> xlYielded ?leaked \<and> xlLeaseId ?leaked = Some k \<and> k \<notin> set (xlSent ?leaked)"
    using free assms(3-5)
    by (cases aborted) (simp_all add: yield_start_def release_lease_def yield_finish_def reclaimed_def Let_def)
  then have "foldl lease_step ?leaked later = ?leaked"
    by (intro stuck_lease.run_final) (simp add: lease_stuck_def)
  with leaked show ?thesis unfolding Let_def foldl_append by simp
qed

theorem release_during_yield_leaks_witness:
  "xlLeaseId (foldl lease_step (new_lease sample_lease_input [1])
     [LeaseYield, LeaseRelease, LeaseReturn (Inr [2]) False, LeaseRelease]) = Some [2]"
  using release_during_yield_leaks [of "[1]" sample_lease_input "[]" "[1]" "[2]" False "[LeaseRelease]"]
  by (simp add: Let_def new_lease_def del: foldl_Cons)

text \<open>
  When the host never received the release of a yield it still holds the lease, and refuses the new
  claim of the same run; the worker then sends back the last lease it had, and the host frees it.
\<close>

theorem lost_yield_release_is_recovered:
  assumes "xlLeaseId st = Some (js i)" and "xlLastLeaseId st = js i" and "\<not> xlYielded st" and "\<not> xlClosed st"
    and "uuid_v4 (js i)" and "map_of (adLeases s) i = Some l" and "clBot l = botId" and "clRun l = xlRun st"
    and "clRun c = xlRun st" and "clRoot c = None" and "avoids fresh i"
  shows "case yield_start st of
      Inl err \<Rightarrow> False
    | Inr (st1, first_release) \<Rightarrow>
        first_release = Some (release_payload (xlRun st) (js i) True) \<and>
        (let s1 = snd (acquire fresh False None now c s) in
          adSettled s1 = adSettled s @ [(adTickets s, Inr (Refused RunExistsAlready))] \<and>
          (case yield_finish (parse_admission_decision (admission_value (Refused RunExistsAlready))) False outcome st1 of
             (result, st2, second_release) \<Rightarrow>
               result = Inl (AdmissionLimit RunExistsAlready) \<and> xlClosed st2 \<and>
               second_release = Some (release_payload (xlRun st) (js i) False) \<and>
               fst (handle_release fresh botId (release_payload (xlRun st) (js i) False) s1) = Inr (Released True) \<and>
               map_of (adLeases (snd (handle_release fresh botId (release_payload (xlRun st) (js i) False) s1))) i = None))"
proof -
  have "length (js i) = 36" using assms(5) by (simp add: uuid_v4_def)
  then have i: "js i \<noteq> []" by (metis list.size(3) zero_neq_numeral)
  have "list_ex (\<lambda>p. clRun (snd p) = clRun c) (adLeases s)"
    using jm_get_in [OF assms(6)] assms(8,9) by (force simp: list_ex_iff)
  then have s1: "snd (acquire fresh False None now c s) = new_ticket (Inr (Refused RunExistsAlready)) s"
    using assms(10) by (simp add: acquire_def validated_root_def)
  have "map_of (adLeases (new_ticket (Inr (Refused RunExistsAlready)) s)) i = Some l"
    using assms(6) by (simp add: new_ticket_def settle_def)
  from handle_release_frees [OF this assms(7,8,5,11), of False] i assms(1-4) show ?thesis
    unfolding s1
    by (simp add: yield_start_def release_lease_def Let_def yield_finish_def reclaimed_def parse_admission_value
        new_ticket_def settle_def del: js_simps admission_value.simps)
qed

definition sample_uuid :: string where
  "sample_uuid = ''00000000-0000-4000-8000-000000000000''"

definition sample_held :: admission where
  "sample_held = sample_admission\<lparr>adLeases := [(sample_uuid,
     make_lease (sample_uuid, 0) (sample_input_claim 1))]\<rparr>"

theorem lost_yield_release_is_recovered_witness:
  "\<exists>st1 m. yield_start (new_lease (sample_lease_input\<lparr>liRun := clRun (sample_input_claim 1)\<rparr>) (js sample_uuid)) = Inr (st1, m) \<and>
     fst (yield_finish (parse_admission_decision (admission_value (Refused RunExistsAlready))) False
       (Inr () :: unit + unit) st1) = Inl (AdmissionLimit RunExistsAlready)"
proof -
  let ?st = "new_lease (sample_lease_input\<lparr>liRun := clRun (sample_input_claim 1)\<rparr>) (js sample_uuid)"
  have u: "uuid_v4 (js sample_uuid)"
    by (simp add: uuid_v4_def sample_uuid_def uuid_unit_def hex_digit_def)
  have "case yield_start ?st of
      Inl err \<Rightarrow> False
    | Inr (st1, first_release) \<Rightarrow>
        first_release = Some (release_payload (xlRun ?st) (js sample_uuid) True) \<and>
        (let s1 = snd (acquire sample_supply False None 0 (sample_input_claim 1) sample_held) in
          adSettled s1 = adSettled sample_held @ [(adTickets sample_held, Inr (Refused RunExistsAlready))] \<and>
          (case yield_finish (parse_admission_decision (admission_value (Refused RunExistsAlready))) False
              (Inr () :: unit + unit) st1 of
             (result, st2, second_release) \<Rightarrow>
               result = Inl (AdmissionLimit RunExistsAlready) \<and> xlClosed st2 \<and>
               second_release = Some (release_payload (xlRun ?st) (js sample_uuid) False) \<and>
               fst (handle_release sample_supply (clBot (sample_input_claim 1)) (release_payload (xlRun ?st) (js sample_uuid) False) s1) = Inr (Released True) \<and>
               map_of (adLeases (snd (handle_release sample_supply (clBot (sample_input_claim 1)) (release_payload (xlRun ?st) (js sample_uuid) False) s1))) sample_uuid = None))"
    by (rule lost_yield_release_is_recovered [OF _ _ _ _ u, of _ _ "make_lease (sample_uuid, 0) (sample_input_claim 1)"])
      (simp_all add: new_lease_def sample_held_def sample_input_claim_def avoids_def sample_supply_def sample_uuid_def)
  then show ?thesis
    unfolding Let_def by (cases "yield_start ?st") (auto simp del: admission_value.simps split: prod.splits)
qed

text \<open>
  C6: End to end: when the worker gave up a claim (timeout, cancellation, broken connection) and the
  receipt timer of the host is no longer armed, a lease the host granted for that claim has been rolled back
  exactly once, and the rollback frees it in the admission.
\<close>

theorem given_up_claim_holds_no_lease:
  assumes "(q, Rejected err) \<in> set (rcSettled (lkClient (foldl (link_step b) (new_link bot_id) evs)))"
    and "hrEntries (lkHost (foldl (link_step b) (new_link bot_id) evs)) q = Some e"
    and "heResultKnown e" and "\<not> heTimer e" and "heResult e = admission_value (Admitted i)"
    and "hqOperation (heRequest e) = ExecutionClaim" and "getp (hqPayload (heRequest e)) ''runId'' = Str run"
    and "map_of (adLeases s) i = Some l" and "clBot l = botId" and "clRun l = run" and "avoids fresh i"
  shows "count_list (hrRolled (lkHost (foldl (link_step b) (new_link bot_id) evs))) q = 1 \<and>
    map_of (adLeases (release_abandoned_execution_claim fresh botId (heRequest e) (heResult e) s)) i = None"
proof -
  let ?l = "foldl (link_step b) (new_link bot_id) evs"
  have inv: "link_inv ?l" by (rule links.run_inv [OF new_link_inv])
  note h = link_invD(1) [OF inv]
  have "\<not> heAcknowledged e"
  proof
    assume "heAcknowledged e"
    from link_invD(8) [OF inv assms(2) this] assms(1) client_invD(4) [OF link_invD(2) [OF inv]] show False
      by (metis client_outcome.distinct(1) eq_key_imp_eq_value)
  qed
  with host_invD(2) [OF h assms(2)] assms(3,4) have "heRolledBack e" by (auto simp: entry_ok_def)
  then have "count_list (hrRolled (lkHost ?l)) q = 1"
    using host_invD(5,6) [OF h] assms(2) by (simp add: distinct_count_list)
  moreover have "release_abandoned_execution_claim fresh botId (heRequest e) (heResult e) s =
      snd (release fresh botId run i s)"
    using assms(5-7) by (simp add: release_abandoned_execution_claim_def is_string_def text_of_def)
  ultimately show ?thesis using release_frees [OF assms(8-11)] by simp
qed

definition given_up_events :: "link_event list" where
  "given_up_events =
     [sample_claim_call, DeliverUp 0, AtClient (ClientTimeout (js ''a'')),
      AtHost (HostResult 1 (admission_value (Admitted ''L'')) False), DeliverUp 0]"

theorem given_up_claim_holds_no_lease_witness:
  "count_list (hrRolled (lkHost (foldl (link_step (\<lambda>_. Some 0)) (new_link (js ''b'')) given_up_events))) 1 = 1"
proof -
  let ?l = "foldl (link_step (\<lambda>_. Some 0)) (new_link (js ''b'')) given_up_events"
  let ?c = "\<lparr>clBot = ''b'', clRun = js ''r'', clSession = js ''s'', clKind = Foreground, clRoot = None\<rparr>"
  have "\<exists>e. hrEntries (lkHost ?l) 1 = Some e \<and> heResultKnown e \<and> \<not> heTimer e \<and>
      heResult e = admission_value (Admitted ''L'') \<and> hqOperation (heRequest e) = ExecutionClaim \<and>
      getp (hqPayload (heRequest e)) ''runId'' = Str (js ''r'')"
    by (simp add: link_evaluation given_up_events_def)
  then obtain e where e: "hrEntries (lkHost ?l) 1 = Some e" "heResultKnown e" "\<not> heTimer e"
      "heResult e = admission_value (Admitted ''L'')" "hqOperation (heRequest e) = ExecutionClaim"
      "getp (hqPayload (heRequest e)) ''runId'' = Str (js ''r'')" by blast
  have rejected: "(1, Rejected RequestTimedOut) \<in> set (rcSettled (lkClient ?l))"
    by (simp add: link_evaluation given_up_events_def)
  have "map_of (adLeases (sample_admission\<lparr>adLeases := [(''L'', make_lease (''L'', 0) ?c)]\<rparr>)) ''L'' =
      Some (make_lease (''L'', 0) ?c)" by simp
  from given_up_claim_holds_no_lease [OF rejected e this, of "''b''" "\<lambda>_. (''M'', 0)"]
  show ?thesis by (simp add: avoids_def)
qed

end
