(* ===== verification/JsonText.thy ===== *)
theory JsonText
  imports JsValue
begin

text \<open>
  What the ledgers of the desktop use of the standard library on JSON values: spread with an
  overwritten property, \<open>JSON.stringify\<close> with and without indentation, the value that comes back from
  \<open>JSON.parse (JSON.stringify v)\<close>, the conversion of a value to a string that \<open>RegExp.test\<close> makes,
  the equality a \<open>Set\<close> uses, and \<open>path.resolve\<close> of an absolute POSIX path. \<open>Number.toString\<close> of what
  is not a small integer is the argument \<open>shortest\<close>.
\<close>

section \<open>Objects\<close>

text \<open>\<open>{ ...v, k: x }\<close>; the spread of a primitive adds nothing.\<close>

definition setp :: "jsval \<Rightarrow> string \<Rightarrow> jsval \<Rightarrow> jsval" where
  "setp v k x = (case v of Obj fs \<Rightarrow> Obj (AList.update k x fs) | _ \<Rightarrow> Obj [(k, x)])"

lemma is_record_setp [simp]: "is_record (setp v k x)"
  by (simp add: is_record_def setp_def split: jsval.splits)

lemma getp_setp [simp]: "getp (setp v k x) j = (if j = k then x else getp (if is_record v then v else Obj []) j)"
  by (cases v) (auto simp: setp_def is_record_def)

lemma getp_not_record: "\<not> is_record v \<Longrightarrow> getp v k = Undef"
  by (cases v) (auto simp: is_record_def)

lemma getp_Some_record: "getp v k \<noteq> Undef \<Longrightarrow> is_record v"
  using getp_not_record by blast

lemma setp_setp [simp]: "setp (setp v k x) k y = setp v k y"
  by (cases v) (auto simp: setp_def)

lemma setp_same: "getp v k = x \<Longrightarrow> x \<noteq> Undef \<Longrightarrow> setp v k x = v"
  by (cases v) (auto simp: setp_def update_triv split: option.splits)

definition elements :: "jsval \<Rightarrow> jsval list" where
  "elements v = (case v of Arr vs \<Rightarrow> vs | _ \<Rightarrow> [])"

lemma elements_Arr [simp]: "elements (Arr vs) = vs"
  by (simp add: elements_def)

text \<open>\<open>===\<close> and the \<open>SameValueZero\<close> of \<open>Set\<close> on values of a JSON tree: primitives by value; two objects
  at different places are different objects.\<close>

definition is_primitive :: "jsval \<Rightarrow> bool" where
  "is_primitive v = (case v of Arr _ \<Rightarrow> False | Obj _ \<Rightarrow> False | _ \<Rightarrow> True)"

definition strict_equal :: "jsval \<Rightarrow> jsval \<Rightarrow> bool" where
  "strict_equal v w = (is_primitive v \<and> v \<noteq> Num NaN \<and> v = w)"

lemma strict_equalD: "strict_equal v w \<Longrightarrow> v = w"
  by (simp add: strict_equal_def)

lemma strict_equal_Str [simp]:
  "strict_equal (Str s) v \<longleftrightarrow> v = Str s" "strict_equal v (Str s) \<longleftrightarrow> v = Str s"
  by (auto simp: strict_equal_def is_primitive_def)

text \<open>The record a lookup by a distinct property finds.\<close>

lemma find_unique: "x \<in> set xs \<Longrightarrow> P x \<Longrightarrow> (\<And>y. y \<in> set xs \<Longrightarrow> P y \<Longrightarrow> y = x) \<Longrightarrow> find P xs = Some x"
  by (metis find_None_iff find_Some_iff not_None_eq nth_mem)

lemma distinct_map_eq: "distinct (map f xs) \<Longrightarrow> x \<in> set xs \<Longrightarrow> y \<in> set xs \<Longrightarrow> f y = f x \<Longrightarrow> y = x"
  by (auto simp: distinct_map inj_on_def)

lemma find_text_None: "find (\<lambda>r. strict_equal (getp r k) (Str d)) rs = None \<longleftrightarrow> Str d \<notin> (\<lambda>r. getp r k) ` set rs"
  by (induction rs) auto

fun all_different :: "jsval list \<Rightarrow> bool" where
  "all_different [] = True"
| "all_different (v # vs) = (\<not> (is_primitive v \<and> v \<in> set vs) \<and> all_different vs)"

lemma all_different_strings: "all_different (map Str xs) = distinct xs"
  by (induction xs) (auto simp: is_primitive_def)

lemma all_different_distinct: "distinct vs \<Longrightarrow> all_different vs"
  by (induction vs) auto

lemma all_different_primitives: "list_all is_primitive vs \<Longrightarrow> all_different vs \<Longrightarrow> distinct vs"
  by (induction vs) auto

section \<open>JSON text\<close>

fun digits_acc :: "nat \<Rightarrow> jstr \<Rightarrow> jstr" where
  "digits_acc n acc =
     (if n < 10 then (48 + n) # acc else digits_acc (n div 10) ((48 + n mod 10) # acc))"

declare digits_acc.simps [simp del]

text \<open>Integers below \<open>10 ^ 21\<close> print as their digits, all other numbers as \<open>shortest\<close> says.\<close>

definition number_text :: "(number \<Rightarrow> jstr) \<Rightarrow> number \<Rightarrow> jstr" where
  "number_text shortest n = (case n of
     Fin q \<Rightarrow>
       let (a, b) = quotient_of q in
       if b = 1 \<and> \<bar>a\<bar> < 10 ^ 21
       then (if a < 0 then [45] else []) @ digits_acc (nat \<bar>a\<bar>) []
       else shortest n
   | NaN \<Rightarrow> js ''NaN'' | PosInf \<Rightarrow> js ''Infinity'' | NegInf \<Rightarrow> js ''-Infinity'')"

lemma number_text_small:
  "number_text shortest (Fin 1) = [49]" "number_text shortest (Fin 0) = [48]" "number_text shortest (Fin 2) = [50]"
  by (simp_all add: number_text_def digits_acc.simps)

definition hex_unit :: "nat \<Rightarrow> nat" where
  "hex_unit d = (if d < 10 then 48 + d else 87 + d)"

definition unicode_escape :: "nat \<Rightarrow> jstr" where
  "unicode_escape u =
     [92, 117, hex_unit (u div 4096), hex_unit (u div 256 mod 16), hex_unit (u div 16 mod 16),
      hex_unit (u mod 16)]"

fun quoted_units :: "jstr \<Rightarrow> jstr" where
  "quoted_units [] = []"
| "quoted_units (u # us) =
     (if u = 34 then [92, 34] @ quoted_units us
      else if u = 92 then [92, 92] @ quoted_units us
      else if u = 8 then [92, 98] @ quoted_units us
      else if u = 9 then [92, 116] @ quoted_units us
      else if u = 10 then [92, 110] @ quoted_units us
      else if u = 12 then [92, 102] @ quoted_units us
      else if u = 13 then [92, 114] @ quoted_units us
      else if u < 32 then unicode_escape u @ quoted_units us
      else if high_surrogate u then
        (case us of
           v # vs \<Rightarrow> if low_surrogate v then u # v # quoted_units vs
                     else unicode_escape u @ quoted_units us
         | [] \<Rightarrow> unicode_escape u)
      else if low_surrogate u then unicode_escape u @ quoted_units us
      else u # quoted_units us)"

definition quoted :: "jstr \<Rightarrow> jstr" where
  "quoted s = 34 # quoted_units s @ [34]"

fun join_texts :: "jstr \<Rightarrow> jstr list \<Rightarrow> jstr" where
  "join_texts sep [] = []"
| "join_texts sep [t] = t"
| "join_texts sep (t # u # ts) = t @ sep @ join_texts sep (u # ts)"

text \<open>With an empty \<open>gap\<close> the text is compact, otherwise \<open>gap\<close> is added to the indentation per level.\<close>

definition line_break :: "jstr \<Rightarrow> jstr \<Rightarrow> jstr" where
  "line_break gap ind = (if gap = [] then [] else 10 # ind)"

definition bracketed :: "nat \<Rightarrow> nat \<Rightarrow> jstr \<Rightarrow> jstr \<Rightarrow> jstr list \<Rightarrow> jstr" where
  "bracketed l r gap ind ts =
     (if ts = [] then [l, r]
      else l # line_break gap (ind @ gap) @ join_texts (44 # line_break gap (ind @ gap)) ts @
        line_break gap ind @ [r])"

fun json_text :: "(number \<Rightarrow> jstr) \<Rightarrow> jstr \<Rightarrow> jstr \<Rightarrow> jsval \<Rightarrow> jstr"
  and json_items :: "(number \<Rightarrow> jstr) \<Rightarrow> jstr \<Rightarrow> jstr \<Rightarrow> jsval list \<Rightarrow> jstr list"
  and json_properties :: "(number \<Rightarrow> jstr) \<Rightarrow> jstr \<Rightarrow> jstr \<Rightarrow> (string \<times> jsval) list \<Rightarrow> jstr list" where
  "json_text shortest gap ind Undef = js ''null''"
| "json_text shortest gap ind Null = js ''null''"
| "json_text shortest gap ind (JBool b) = js (if b then ''true'' else ''false'')"
| "json_text shortest gap ind (Num n) =
     (case n of Fin q \<Rightarrow> number_text shortest n | _ \<Rightarrow> js ''null'')"
| "json_text shortest gap ind (Str s) = quoted s"
| "json_text shortest gap ind (Arr vs) =
     bracketed 91 93 gap ind (json_items shortest gap (ind @ gap) vs)"
| "json_text shortest gap ind (Obj fs) =
     bracketed 123 125 gap ind (json_properties shortest gap (ind @ gap) fs)"
| "json_items shortest gap ind [] = []"
| "json_items shortest gap ind (v # vs) =
     json_text shortest gap ind v # json_items shortest gap ind vs"
| "json_properties shortest gap ind [] = []"
| "json_properties shortest gap ind ((k, v) # fs) =
     (if v = Undef then []
      else [quoted (js k) @ 58 # (if gap = [] then [] else [32]) @ json_text shortest gap ind v]) @
     json_properties shortest gap ind fs"

text \<open>\<open>JSON.stringify(v)\<close>, and \<open>Buffer.byteLength(JSON.stringify(v, null, 2))\<close>.\<close>

definition stringify :: "(number \<Rightarrow> jstr) \<Rightarrow> jsval \<Rightarrow> jstr" where
  "stringify shortest v = json_text shortest [] [] v"

definition pretty_bytes :: "(number \<Rightarrow> jstr) \<Rightarrow> jsval \<Rightarrow> nat" where
  "pretty_bytes shortest v = utf8_length (json_text shortest [32, 32] [] v)"

text \<open>A bound of the size of a text that counts lengths only.\<close>

lemma utf8_length_bound: "utf8_length us \<le> 3 * length us"
proof (induction us rule: utf8_length.induct)
  case (2 u) then show ?case using unit_bytes_bounds(2)[of u] by simp
next
  case (3 u v us) then show ?case using unit_bytes_bounds(2)[of u] by auto
qed simp

lemma quoted_units_length: "length (quoted_units us) \<le> 6 * length us"
proof (induction us rule: length_induct)
  case (1 us)
  show ?case
  proof (cases us)
    case (Cons u vs)
    have a: "length (quoted_units vs) \<le> 6 * length vs" using 1 Cons by simp
    have b: "vs = w # ws \<Longrightarrow> length (quoted_units ws) \<le> 6 * length ws" for w ws using 1 Cons by simp
    show ?thesis
      unfolding Cons using a b by (cases vs) (simp_all add: unicode_escape_def)
  qed simp
qed

fun json_weight :: "(number \<Rightarrow> jstr) \<Rightarrow> nat \<Rightarrow> jsval \<Rightarrow> nat"
  and items_weight :: "(number \<Rightarrow> jstr) \<Rightarrow> nat \<Rightarrow> jsval list \<Rightarrow> nat"
  and properties_weight :: "(number \<Rightarrow> jstr) \<Rightarrow> nat \<Rightarrow> (string \<times> jsval) list \<Rightarrow> nat" where
  "json_weight shortest n Undef = 4"
| "json_weight shortest n Null = 4"
| "json_weight shortest n (JBool b) = 5"
| "json_weight shortest n (Num x) = (case x of Fin q \<Rightarrow> length (number_text shortest x) | _ \<Rightarrow> 4)"
| "json_weight shortest n (Str s) = 6 * length s + 2"
| "json_weight shortest n (Arr vs) = 4 + 2 * (n + 2) + items_weight shortest (n + 2) vs"
| "json_weight shortest n (Obj fs) = 4 + 2 * (n + 2) + properties_weight shortest (n + 2) fs"
| "items_weight shortest n [] = 0"
| "items_weight shortest n (v # vs) = json_weight shortest n v + 2 + n + items_weight shortest n vs"
| "properties_weight shortest n [] = 0"
| "properties_weight shortest n ((k, v) # fs) =
     6 * length k + 6 + n + json_weight shortest n v + properties_weight shortest n fs"

lemma join_texts_length: "length (join_texts sep ts) \<le> sum_list (map (\<lambda>t. length t + length sep) ts)"
  by (induction sep ts rule: join_texts.induct) auto

lemma bracketed_length:
  "length (bracketed l r gap ind ts) \<le>
   4 + 2 * (length ind + length gap) + sum_list (map (\<lambda>t. length t + 2 + length ind + length gap) ts)"
proof -
  have "length (join_texts (44 # line_break gap (ind @ gap)) ts) \<le>
      sum_list (map (\<lambda>t. length t + length (44 # line_break gap (ind @ gap))) ts)"
    by (rule join_texts_length)
  also have "\<dots> \<le> sum_list (map (\<lambda>t. length t + 2 + length ind + length gap) ts)"
    by (intro sum_list_mono) (simp add: line_break_def)
  finally show ?thesis by (auto simp: bracketed_def line_break_def)
qed

lemma json_text_length:
  "length (json_text shortest [32, 32] ind v) \<le> json_weight shortest (length ind) v"
  "sum_list (map (\<lambda>t. length t + 2 + length ind) (json_items shortest [32, 32] ind vs)) \<le> items_weight shortest (length ind) vs"
  "sum_list (map (\<lambda>t. length t + 2 + length ind) (json_properties shortest [32, 32] ind fs)) \<le> properties_weight shortest (length ind) fs"
proof (induction shortest "[32, 32] :: jstr" ind v and shortest "[32, 32] :: jstr" ind vs and shortest "[32, 32] :: jstr" ind fs
    rule: json_text_json_items_json_properties.induct)
  case (5 shortest ind s)
  then show ?case using quoted_units_length [of s] by (simp add: quoted_def)
next
  case (6 shortest ind vs)
  then show ?case
    using bracketed_length [of 91 93 "[32, 32]" ind "json_items shortest [32, 32] (ind @ [32, 32]) vs"]
    by (simp add: add.assoc)
next
  case (7 shortest ind fs)
  then show ?case
    using bracketed_length [of 123 125 "[32, 32]" ind "json_properties shortest [32, 32] (ind @ [32, 32]) fs"]
    by (simp add: add.assoc)
next
  case (11 shortest ind k v fs)
  then show ?case using quoted_units_length [of "js k"] by (auto simp: quoted_def)
qed (auto split: number.splits)

lemma pretty_bytes_bound: "pretty_bytes shortest v \<le> 3 * json_weight shortest 0 v"
  using utf8_length_bound [of "json_text shortest [32, 32] [] v"] json_text_length(1) [of shortest "[]" v]
  by (simp add: pretty_bytes_def)

text \<open>\<open>JSON.parse (JSON.stringify v)\<close>: undefined properties are gone, what has no JSON form is null.\<close>

fun json_clean :: "jsval \<Rightarrow> jsval"
  and clean_items :: "jsval list \<Rightarrow> jsval list"
  and clean_properties :: "(string \<times> jsval) list \<Rightarrow> (string \<times> jsval) list" where
  "json_clean Undef = Null"
| "json_clean Null = Null"
| "json_clean (JBool b) = JBool b"
| "json_clean (Num n) = (case n of Fin q \<Rightarrow> Num n | _ \<Rightarrow> Null)"
| "json_clean (Str s) = Str s"
| "json_clean (Arr vs) = Arr (clean_items vs)"
| "json_clean (Obj fs) = Obj (clean_properties fs)"
| "clean_items [] = []"
| "clean_items (v # vs) = json_clean v # clean_items vs"
| "clean_properties [] = []"
| "clean_properties ((k, v) # fs) =
     (if v = Undef then [] else [(k, json_clean v)]) @ clean_properties fs"

lemma clean_items_map: "clean_items vs = map json_clean vs"
  by (induction vs) auto

lemma clean_not_undef [simp]: "json_clean v \<noteq> Undef"
  by (cases v) (auto split: number.splits)

lemma is_record_clean [simp]: "is_record (json_clean v) = is_record v"
  by (cases v) (auto simp: is_record_def split: number.splits)

text \<open>Well-formed objects have each property once.\<close>

lemma map_of_clean:
  "distinct (map fst fs) \<Longrightarrow>
   map_of (clean_properties fs) k =
     (case map_of fs k of None \<Rightarrow> None | Some v \<Rightarrow> if v = Undef then None else Some (json_clean v))"
proof (induction fs)
  case (Cons p fs)
  obtain j v where p: "p = (j, v)" by fastforce
  have "map_of fs j = None" using Cons.prems by (simp add: p map_of_eq_None_iff)
  with Cons show ?case by (auto simp: p)
qed simp

definition object_wf :: "jsval \<Rightarrow> bool" where
  "object_wf v = (case v of Obj fs \<Rightarrow> distinct (map fst fs) | _ \<Rightarrow> False)"

lemma object_wf_record: "object_wf v \<Longrightarrow> is_record v"
  by (simp add: object_wf_def is_record_def split: jsval.splits)

lemma object_wf_setp [simp]: "object_wf v \<Longrightarrow> object_wf (setp v k x)"
  by (simp add: object_wf_def setp_def distinct_update split: jsval.splits)

lemma clean_properties_keys: "set (map fst (clean_properties fs)) \<subseteq> set (map fst fs)"
proof (induction fs)
  case (Cons p fs)
  have "set (map fst (clean_properties (p # fs))) \<subseteq> insert (fst p) (set (map fst (clean_properties fs)))"
    by (cases p) auto
  moreover have "set (map fst (p # fs)) = insert (fst p) (set (map fst fs))" by simp
  ultimately show ?case using Cons.IH by blast
qed simp

lemma object_wf_clean [simp]: "object_wf v \<Longrightarrow> object_wf (json_clean v)"
proof (cases v)
  case (Obj fs)
  have "distinct (map fst fs) \<Longrightarrow> distinct (map fst (clean_properties fs))"
  proof (induction fs)
    case (Cons p fs)
    have "fst p \<notin> set (map fst (clean_properties fs))"
      using Cons.prems clean_properties_keys [of fs] by (metis distinct.simps(2) list.simps(9) subsetD)
    with Cons show ?case by (cases p) simp
  qed simp
  then show "object_wf v \<Longrightarrow> ?thesis" by (simp add: object_wf_def Obj)
qed (auto simp: object_wf_def)

lemma getp_clean:
  "object_wf v \<Longrightarrow> getp (json_clean v) k = (if getp v k = Undef then Undef else json_clean (getp v k))"
  by (cases v) (auto simp: object_wf_def map_of_clean split: option.splits)

lemma getp_kept: "object_wf r \<Longrightarrow> json_clean (getp r k) = getp r k \<Longrightarrow> getp (json_clean r) k = getp r k"
  by (metis clean_not_undef getp_clean)

lemma elements_clean [simp]: "elements (json_clean v) = map json_clean (elements v)"
  by (cases v) (auto simp: elements_def clean_items_map split: number.splits)

lemma json_clean_idem [simp]: "json_clean (json_clean v) = json_clean v"
proof -
  have "json_clean (json_clean v) = json_clean v"
    and "clean_items (clean_items vs) = clean_items vs"
    and "clean_properties (clean_properties fs) = clean_properties fs" for vs fs
    by (induction v and vs and fs rule: json_clean_clean_items_clean_properties.induct)
      (auto split: number.splits)
  then show ?thesis by blast
qed

text \<open>A value that is its own JSON form stays one when a property is overwritten.\<close>

lemma clean_properties_length: "length (clean_properties fs) \<le> length fs"
proof (induction fs)
  case (Cons p fs)
  then show ?case by (cases p) auto
qed simp

lemma clean_properties_Cons:
  "clean_properties ((k, v) # fs) = (k, v) # fs \<longleftrightarrow> v \<noteq> Undef \<and> json_clean v = v \<and> clean_properties fs = fs"
  using clean_properties_length [of fs] by auto

lemma clean_update:
  "clean_properties fs = fs \<Longrightarrow> json_clean x = x \<Longrightarrow> clean_properties (AList.update k x fs) = AList.update k x fs"
proof (induction fs)
  case Nil
  then show ?case using clean_not_undef [of x] by auto
next
  case (Cons p fs)
  obtain j v where p: "p = (j, v)" by fastforce
  with Cons.prems have "v \<noteq> Undef" "json_clean v = v" "clean_properties fs = fs" "x \<noteq> Undef"
    using clean_properties_Cons clean_not_undef [of x] by auto
  with Cons show ?case by (simp add: p)
qed

lemma clean_setp: "json_clean r = r \<Longrightarrow> json_clean x = x \<Longrightarrow> json_clean (setp r k x) = setp r k x"
  using clean_not_undef [of x] by (cases r) (auto simp: setp_def clean_update)

section \<open>Identifiers and paths\<close>

text \<open>The string \<open>RegExp.test\<close> makes of its argument.\<close>

fun coerced :: "(number \<Rightarrow> jstr) \<Rightarrow> jsval \<Rightarrow> jstr"
  and coerced_items :: "(number \<Rightarrow> jstr) \<Rightarrow> jsval list \<Rightarrow> jstr list" where
  "coerced shortest Undef = js ''undefined''"
| "coerced shortest Null = js ''null''"
| "coerced shortest (JBool b) = js (if b then ''true'' else ''false'')"
| "coerced shortest (Num n) = number_text shortest n"
| "coerced shortest (Str s) = s"
| "coerced shortest (Arr vs) = join_texts [44] (coerced_items shortest vs)"
| "coerced shortest (Obj fs) = js ''[object Object]''"
| "coerced_items shortest [] = []"
| "coerced_items shortest (v # vs) =
     (if v = Undef \<or> v = Null then [] else coerced shortest v) # coerced_items shortest vs"

definition alphanumeric :: "nat \<Rightarrow> bool" where
  "alphanumeric u = (48 \<le> u \<and> u \<le> 57 \<or> 65 \<le> u \<and> u \<le> 90 \<or> 97 \<le> u \<and> u \<le> 122)"

text \<open>\<open>/^[A-Za-z0-9:_-]{1,128}$/u\<close>.\<close>

definition id_text :: "jstr \<Rightarrow> bool" where
  "id_text s = (0 < length s \<and> length s \<le> 128 \<and>
     list_all (\<lambda>u. alphanumeric u \<or> u = 58 \<or> u = 95 \<or> u = 45) s)"

definition id_test :: "(number \<Rightarrow> jstr) \<Rightarrow> jsval \<Rightarrow> bool" where
  "id_test shortest v = id_text (coerced shortest v)"

lemma id_test_Str [simp]: "id_test shortest (Str s) = id_text s"
  by (simp add: id_test_def)

definition string_id :: "jsval \<Rightarrow> bool" where
  "string_id v = (case v of Str s \<Rightarrow> id_text s | _ \<Rightarrow> False)"

lemma string_id_Str: "string_id v \<longleftrightarrow> (\<exists>s. v = Str s \<and> id_text s)"
  by (auto simp: string_id_def split: jsval.splits)

lemma string_id_test: "string_id v \<Longrightarrow> is_string v \<and> id_test shortest v"
  by (auto simp: string_id_Str is_string_def)

lemma string_id_clean: "string_id v \<Longrightarrow> json_clean v = v"
  by (auto simp: string_id_Str)

lemma string_ids_test: "list_all string_id vs \<Longrightarrow> list_all (\<lambda>i. is_string i \<and> id_test shortest i) vs"
  using string_id_test by (auto simp: list_all_iff)

text \<open>\<open>isAbsolute(p)\<close> and \<open>resolve(p)\<close> of an absolute \<open>p\<close>, on POSIX.\<close>

fun split_path :: "jstr \<Rightarrow> jstr list" where
  "split_path [] = [[]]"
| "split_path (u # us) =
     (if u = 47 then [] # split_path us
      else case split_path us of p # ps \<Rightarrow> (u # p) # ps | [] \<Rightarrow> [[u]])"

fun resolve_segments :: "jstr list \<Rightarrow> jstr list \<Rightarrow> jstr list" where
  "resolve_segments acc [] = rev acc"
| "resolve_segments acc (p # ps) =
     (if p = [] \<or> p = [46] then resolve_segments acc ps
      else if p = [46, 46] then resolve_segments (tl acc) ps
      else resolve_segments (p # acc) ps)"

definition absolute_path :: "jstr \<Rightarrow> bool" where
  "absolute_path p = (take 1 p = [47])"

definition resolved :: "jstr \<Rightarrow> jstr" where
  "resolved p = 47 # join_texts [47] (resolve_segments [] (split_path p))"

definition canonical_path :: "jsval \<Rightarrow> bool" where
  "canonical_path v = (case v of Str p \<Rightarrow> absolute_path p \<and> resolved p = p | _ \<Rightarrow> False)"

section \<open>Checked properties\<close>

definition text_with :: "(jstr \<Rightarrow> bool) \<Rightarrow> jsval \<Rightarrow> bool" where
  "text_with P v = (case v of Str s \<Rightarrow> P s | _ \<Rightarrow> False)"

lemma text_with_Str: "text_with P v \<longleftrightarrow> (\<exists>s. v = Str s \<and> P s)"
  by (auto simp: text_with_def split: jsval.splits)

text \<open>\<open>date\<close> is \<open>Date.parse\<close>, \<open>None\<close> for \<open>NaN\<close>.\<close>

definition valid_date :: "(jstr \<Rightarrow> int option) \<Rightarrow> jsval \<Rightarrow> bool" where
  "valid_date date v = text_with (\<lambda>s. date s \<noteq> None) v"

lemma valid_date_Str: "valid_date date v \<longleftrightarrow> (\<exists>s t. v = Str s \<and> date s = Some t)"
  by (auto simp: valid_date_def text_with_Str)

definition bare_text :: "jsval \<Rightarrow> jstr" where
  "bare_text v = (case v of Str s \<Rightarrow> s | _ \<Rightarrow> [])"

lemma bare_text_Str [simp]: "bare_text (Str s) = s"
  by (simp add: bare_text_def)

text \<open>Truth of a value.\<close>

definition truthy_text :: "jsval \<Rightarrow> bool" where
  "truthy_text v = (case v of Undef \<Rightarrow> False | Null \<Rightarrow> False | JBool b \<Rightarrow> b | Str s \<Rightarrow> s \<noteq> []
     | Num n \<Rightarrow> n \<noteq> Fin 0 \<and> n \<noteq> NaN | _ \<Rightarrow> True)"

end
