(* ===== verification/LedgerCopies.thy ===== *)
theory LedgerCopies
  imports JsonText Interfaces
begin

text \<open>
  A ledger kept in two files. Four classes of \<open>apps/desktop/src/main\<close> share this protocol: the value is
  an object with a \<open>revision\<close>; a save writes it with the next revision to the primary file, then to
  the backup; the constructor reads both and takes the copy with the larger revision. A file is
  what the next process finds: nothing, something that is not readable JSON, or a value with the number of bytes
  of its text. \<open>writeJsonAtomicSync\<close> of the elizaOS core is atomic: a write that throws leaves the
  file as it was; \<open>save_point\<close> says which statement of the save throws.
\<close>

section \<open>Files and revisions\<close>

datatype copy = Missing | Damaged | Copy nat jsval

record copies =
  cpPrimary :: copy
  cpBackup :: copy

datatype save_point = AtDirectory | AtPrimary | AtPrimaryMode | AtBackup | AtBackupMode

datatype copy_error =
    UnreadableCopy | InvalidCopy | CopiesUnavailable | CopiesDisagree | NeedsRecovery | LedgerFull
  | WriteFailed save_point

record ledger =
  lgStored :: jsval
  lgFailed :: bool
  lgDisk :: copies

definition revision :: "jsval \<Rightarrow> rat" where
  "revision v = (case getp v ''revision'' of Num (Fin q) \<Rightarrow> q | _ \<Rightarrow> 0)"

definition valid_revision :: "jsval \<Rightarrow> bool" where
  "valid_revision v = (is_safe_integer (getp v ''revision'') \<and> 0 \<le> revision v)"

definition with_revision :: "jsval \<Rightarrow> rat \<Rightarrow> jsval" where
  "with_revision v q = setp v ''revision'' (Num (Fin q))"

lemma revision_with_revision [simp]: "revision (with_revision v q) = q"
  by (simp add: revision_def with_revision_def)

text \<open>A revision that counts saves, and what a save makes of it.\<close>

definition natural_revision :: "jsval \<Rightarrow> bool" where
  "natural_revision v \<longleftrightarrow> (\<exists>n. getp v ''revision'' = Num (Fin (of_nat n)))"

lemma natural_revision_bump:
  assumes "natural_revision v"
  shows "natural_revision (with_revision v (revision v + 1))"
proof -
  obtain n where "revision v = of_nat n" using assms by (auto simp: natural_revision_def revision_def)
  then have "revision v + 1 = of_nat (Suc n)" by simp
  then show ?thesis unfolding natural_revision_def with_revision_def by (auto simp del: of_nat_Suc)
qed

lemma natural_revision_setp: "natural_revision v \<Longrightarrow> k \<noteq> ''revision'' \<Longrightarrow> natural_revision (setp v k x)"
  using getp_Some_record [of v "''revision''"] by (auto simp: natural_revision_def)

lemma natural_revision_same: "natural_revision v \<Longrightarrow> getp w ''revision'' = getp v ''revision'' \<Longrightarrow> natural_revision w"
  by (simp add: natural_revision_def)

lemma natural_revision_zero: "getp v ''revision'' = Num (Fin 0) \<Longrightarrow> natural_revision v"
  by (auto simp: natural_revision_def intro: exI [of _ 0])

lemma revision_kept:
  "object_wf v \<Longrightarrow> natural_revision v \<Longrightarrow> getp (json_clean v) ''revision'' = getp v ''revision''"
  by (auto simp: natural_revision_def getp_clean)

lemma natural_valid_revision:
  assumes "natural_revision v" "revision v \<le> of_nat n" "n < 2 ^ 53"
  shows "valid_revision v"
proof -
  from assms(1) obtain m where m: "getp v ''revision'' = Num (Fin (of_nat m))" "revision v = of_nat m"
    by (auto simp: natural_revision_def revision_def)
  with assms have "m < 2 ^ 53" by simp
  then have "int m \<le> 2 ^ 53 - 1" by simp
  then have "is_safe_integer (Num (Fin (of_int (int m))))" by (subst is_safe_integer_int) simp
  with m show ?thesis by (simp add: valid_revision_def)
qed

section \<open>Reading and choosing a copy\<close>

text \<open>\<open>parse(path)\<close> with the guard of the ledger.\<close>

definition read_copy :: "(jsval \<Rightarrow> bool) \<Rightarrow> nat \<Rightarrow> copy \<Rightarrow> copy_error + jsval option" where
  "read_copy valid limit c = (case c of
     Missing \<Rightarrow> Inr None
   | Damaged \<Rightarrow> Inl UnreadableCopy
   | Copy n v \<Rightarrow>
       if limit < n then Inl UnreadableCopy else if valid v then Inr (Some v) else Inl InvalidCopy)"

definition copy_value :: "copy_error + jsval option \<Rightarrow> jsval option" where
  "copy_value r = (case r of Inl _ \<Rightarrow> None | Inr c \<Rightarrow> c)"

definition open_copies ::
  "(number \<Rightarrow> jstr) \<Rightarrow> (jsval \<Rightarrow> bool) \<Rightarrow> nat \<Rightarrow> jsval \<Rightarrow> copies \<Rightarrow> copy_error + jsval" where
  "open_copies shortest valid limit initial d =
     (let p = read_copy valid limit (cpPrimary d); b = read_copy valid limit (cpBackup d) in
      if (isl p \<or> isl b) \<and> copy_value p = None \<and> copy_value b = None then Inl CopiesUnavailable
      else case (copy_value p, copy_value b) of
        (Some v, Some w) \<Rightarrow>
          if revision v = revision w \<and> stringify shortest v \<noteq> stringify shortest w
          then Inl CopiesDisagree
          else if revision v \<ge> revision w then Inr v else Inr w
      | (Some v, None) \<Rightarrow> Inr v
      | (None, Some w) \<Rightarrow> Inr w
      | (None, None) \<Rightarrow> Inr initial)"

section \<open>Writing both copies\<close>

definition file_of :: "(number \<Rightarrow> jstr) \<Rightarrow> jsval \<Rightarrow> copy" where
  "file_of shortest v = Copy (pretty_bytes shortest v + 1) (json_clean v)"

definition write_copies :: "save_point option \<Rightarrow> copy \<Rightarrow> copies \<Rightarrow> copies" where
  "write_copies fault c d = (case fault of
     Some AtDirectory \<Rightarrow> d
   | Some AtPrimary \<Rightarrow> d
   | Some AtPrimaryMode \<Rightarrow> d\<lparr>cpPrimary := c\<rparr>
   | Some AtBackup \<Rightarrow> d\<lparr>cpPrimary := c\<rparr>
   | Some AtBackupMode \<Rightarrow> \<lparr>cpPrimary = c, cpBackup = c\<rparr>
   | None \<Rightarrow> \<lparr>cpPrimary = c, cpBackup = c\<rparr>)"

definition commit_value ::
  "(number \<Rightarrow> jstr) \<Rightarrow> save_point option \<Rightarrow> jsval \<Rightarrow> ledger \<Rightarrow> (copy_error, unit, ledger) outcome" where
  "commit_value shortest fault v s =
     (let d = write_copies fault (file_of shortest v) (lgDisk s) in
      case fault of
        None \<Rightarrow> (Inr (), s\<lparr>lgStored := v, lgDisk := d\<rparr>)
      | Some p \<Rightarrow> (Inl (WriteFailed p), s\<lparr>lgFailed := True, lgDisk := d\<rparr>))"

lemma write_copies_cases:
  obtains "write_copies fault c d = d" "fault \<noteq> None"
  | "write_copies fault c d = d\<lparr>cpPrimary := c\<rparr>" "fault \<noteq> None"
  | "write_copies fault c d = \<lparr>cpPrimary = c, cpBackup = c\<rparr>"
  by (cases fault; cases "the fault") (auto simp: write_copies_def)

text \<open>A file is lost or damaged from outside, while the other one still holds a value.\<close>

definition lose_copy :: "bool \<Rightarrow> copy \<Rightarrow> copies \<Rightarrow> copies" where
  "lose_copy primary c d =
     (let other = if primary then cpBackup d else cpPrimary d in
      if (case other of Copy _ _ \<Rightarrow> False | _ \<Rightarrow> True) \<or> (case c of Copy _ _ \<Rightarrow> True | _ \<Rightarrow> False) then d
      else if primary then d\<lparr>cpPrimary := c\<rparr> else d\<lparr>cpBackup := c\<rparr>)"

lemma lose_copy_result:
  "lose_copy primary c d \<in> {d, d\<lparr>cpPrimary := Missing\<rparr>, d\<lparr>cpPrimary := Damaged\<rparr>, d\<lparr>cpBackup := Missing\<rparr>, d\<lparr>cpBackup := Damaged\<rparr>}"
  by (cases c) (simp_all add: lose_copy_def)

lemma lose_copy_cases:
  obtains "lose_copy primary c d = d"
  | x n v where "x \<in> {Missing, Damaged}" "lose_copy primary c d = d\<lparr>cpPrimary := x\<rparr>" "cpBackup d = Copy n v"
  | x n v where "x \<in> {Missing, Damaged}" "lose_copy primary c d = d\<lparr>cpBackup := x\<rparr>" "cpPrimary d = Copy n v"
  by (cases c; cases primary; cases "cpPrimary d"; cases "cpBackup d") (auto simp: lose_copy_def)

section \<open>The contract of a ledger in two copies\<close>

text \<open>
  \<open>sound\<close> is what the operations keep of the value, \<open>facts\<close> what of it must not be lost. \<open>durable A s\<close>
  says that memory and every file hold the facts \<open>A\<close>, that two readable copies of one revision are
  equal, and that no readable copy is newer than the memory that may still write.
\<close>

locale copied_ledger =
  fixes shortest :: "number \<Rightarrow> jstr" and valid :: "jsval \<Rightarrow> bool" and limit :: nat
    and initial :: jsval and sound :: "jsval \<Rightarrow> bool" and facts :: "jsval \<Rightarrow> 'f set"
  assumes sound_initial: "sound initial"
    and clean_initial: "json_clean initial = initial"
    and sound_clean: "sound v \<Longrightarrow> sound (json_clean v)"
    and facts_clean: "sound v \<Longrightarrow> facts (json_clean v) = facts v"
    and revision_clean: "sound v \<Longrightarrow> revision (json_clean v) = revision v"
    and sound_valid: "sound v \<Longrightarrow> valid_revision v \<Longrightarrow> valid (json_clean v)"
begin

definition readable :: "copy \<Rightarrow> jsval \<Rightarrow> bool" where
  "readable c v = (read_copy valid limit c = Inr (Some v))"

definition held :: "'f set \<Rightarrow> copy \<Rightarrow> bool" where
  "held A c = (case c of Copy n v \<Rightarrow> n \<le> limit \<and> sound v \<and> json_clean v = v \<and> A \<subseteq> facts v | _ \<Rightarrow> True)"

definition present :: "copy \<Rightarrow> bool" where
  "present c = (case c of Copy n v \<Rightarrow> True | _ \<Rightarrow> False)"

definition durable :: "'f set \<Rightarrow> ledger \<Rightarrow> bool" where
  "durable A s =
     (let p = cpPrimary (lgDisk s); b = cpBackup (lgDisk s) in
      sound (lgStored s) \<and> A \<subseteq> facts (lgStored s) \<and> held A p \<and> held A b \<and>
      (\<forall>v w. readable p v \<longrightarrow> readable b w \<longrightarrow> revision v = revision w \<longrightarrow> v = w) \<and>
      (\<not> lgFailed s \<longrightarrow> (\<forall>v. readable p v \<or> readable b v \<longrightarrow> revision v \<le> revision (lgStored s))) \<and>
      (present p \<or> present b \<or> A = {} \<and> p = Missing \<and> b = Missing))"

definition admits :: "ledger \<Rightarrow> jsval \<Rightarrow> bool" where
  "admits s v = (\<not> lgFailed s \<and> sound v \<and> revision v = revision (lgStored s) + 1 \<and>
     facts (lgStored s) \<subseteq> facts v \<and> pretty_bytes shortest v + 1 \<le> limit)"

definition settled :: "ledger \<Rightarrow> bool" where
  "settled s = (open_copies shortest valid limit initial (lgDisk s) = Inr (json_clean (lgStored s)))"

lemma readable_Copy: "readable c v \<Longrightarrow> \<exists>n. c = Copy n v \<and> n \<le> limit \<and> valid v"
  by (auto simp: readable_def read_copy_def split: copy.splits if_splits)

lemma held_readable: "held A c \<Longrightarrow> readable c v \<Longrightarrow> sound v \<and> json_clean v = v \<and> A \<subseteq> facts v"
  by (auto dest!: readable_Copy simp: held_def)

lemma held_file: "admits s v \<Longrightarrow> A \<subseteq> facts v \<Longrightarrow> held A (file_of shortest v)"
  by (auto simp: admits_def held_def file_of_def sound_clean facts_clean)

lemma readable_file: "sound v \<Longrightarrow> readable (file_of shortest v) w \<Longrightarrow> w = json_clean v \<and> revision w = revision v"
  by (auto dest!: readable_Copy simp: file_of_def revision_clean)

lemma copy_value_readable: "copy_value (read_copy valid limit c) = Some v \<longleftrightarrow> readable c v"
  by (auto simp: copy_value_def readable_def split: sum.splits)

lemma open_source:
  assumes "open_copies shortest valid limit initial d = Inr v"
  shows "readable (cpPrimary d) v \<or> readable (cpBackup d) v \<or>
    v = initial \<and> cpPrimary d = Missing \<and> cpBackup d = Missing"
proof -
  have m: "c = Missing" if "\<not> isl (read_copy valid limit c)" "copy_value (read_copy valid limit c) = None" for c
    using that by (auto simp: read_copy_def copy_value_def split: copy.splits if_splits)
  show ?thesis
    using assms m [of "cpPrimary d"] m [of "cpBackup d"]
    by (cases "copy_value (read_copy valid limit (cpPrimary d))";
      cases "copy_value (read_copy valid limit (cpBackup d))")
      (auto simp: open_copies_def Let_def simp flip: copy_value_readable split: if_splits)
qed

lemma open_newest:
  assumes "open_copies shortest valid limit initial d = Inr v"
    and "readable (cpPrimary d) w \<or> readable (cpBackup d) w"
  shows "revision w \<le> revision v"
  using assms(2)
proof
  assume r: "readable (cpPrimary d) w"
  then have "copy_value (read_copy valid limit (cpPrimary d)) = Some w" by (simp add: copy_value_readable)
  with assms(1) show ?thesis by (auto simp: open_copies_def Let_def split: if_splits option.splits)
next
  assume r: "readable (cpBackup d) w"
  then have "copy_value (read_copy valid limit (cpBackup d)) = Some w" by (simp add: copy_value_readable)
  with assms(1) show ?thesis by (auto simp: open_copies_def Let_def split: if_splits option.splits)
qed

lemma durable_initial: "durable {} \<lparr>lgStored = initial, lgFailed = False, lgDisk = \<lparr>cpPrimary = Missing, cpBackup = Missing\<rparr>\<rparr>"
  by (auto simp: durable_def held_def sound_initial dest: readable_Copy)

text \<open>What a commit does to memory and to each file, by the three cases of the disk.\<close>

lemma durable_commit:
  assumes d: "durable A s" and v: "admits s v"
  shows "durable A (snd (commit_value shortest fault v s))"
    and "fst (commit_value shortest fault v s) = Inr () \<Longrightarrow> durable (facts v) (snd (commit_value shortest fault v s))"
proof -
  let ?c = "file_of shortest v"
  let ?t = "snd (commit_value shortest fault v s)"
  have a: "A \<subseteq> facts v" using d v by (auto simp: durable_def admits_def Let_def)
  have hc: "held A ?c" "held (facts v) ?c" using held_file [OF v] a by auto
  have sv: "sound v" using v by (simp add: admits_def)
  have rv: "\<And>w. readable ?c w \<Longrightarrow> w = json_clean v \<and> revision w = revision v"
    using readable_file [OF sv] by blast
  have rb: "revision w < revision v" if "readable (cpBackup (lgDisk s)) w" for w
  proof -
    have "revision w \<le> revision (lgStored s)" using that d v by (auto simp: durable_def admits_def Let_def)
    with v show ?thesis by (simp add: admits_def)
  qed
  have pc: "present ?c" by (simp add: present_def file_of_def)
  have both: "durable B (t\<lparr>lgDisk := \<lparr>cpPrimary = ?c, cpBackup = ?c\<rparr>\<rparr>)"
    if "sound (lgStored t)" "B \<subseteq> facts (lgStored t)" "lgFailed t \<or> lgStored t = v" "held B ?c" for t B
    using that rv pc by (auto simp: durable_def Let_def)
  show "durable A ?t"
  proof (cases fault)
    case None
    then have "?t = (s\<lparr>lgStored := v\<rparr>)\<lparr>lgDisk := \<lparr>cpPrimary = ?c, cpBackup = ?c\<rparr>\<rparr>"
      by (simp add: commit_value_def Let_def write_copies_def)
    moreover have "durable A ..." by (rule both) (use v a hc in \<open>auto simp: admits_def\<close>)
    ultimately show ?thesis by simp
  next
    case (Some q)
    then have t: "?t = s\<lparr>lgFailed := True, lgDisk := write_copies fault ?c (lgDisk s)\<rparr>"
      by (simp add: commit_value_def Let_def)
    show ?thesis
    proof (rule write_copies_cases [of fault ?c "lgDisk s"])
      assume "write_copies fault ?c (lgDisk s) = lgDisk s"
      with t d show ?thesis by (simp add: durable_def Let_def)
    next
      assume w: "write_copies fault ?c (lgDisk s) = (lgDisk s)\<lparr>cpPrimary := ?c\<rparr>"
      have "x = y" if "readable ?c x" "readable (cpBackup (lgDisk s)) y" "revision x = revision y" for x y
        using rv [OF that(1)] rb [OF that(2)] that(3) by simp
      with w t d hc pc show ?thesis by (auto simp: durable_def Let_def)
    next
      assume w: "write_copies fault ?c (lgDisk s) = \<lparr>cpPrimary = ?c, cpBackup = ?c\<rparr>"
      then have "?t = (s\<lparr>lgFailed := True\<rparr>)\<lparr>lgDisk := \<lparr>cpPrimary = ?c, cpBackup = ?c\<rparr>\<rparr>"
        using t by simp
      moreover have "durable A ..." by (rule both) (use d hc in \<open>auto simp: durable_def Let_def\<close>)
      ultimately show ?thesis by simp
    qed
  qed
  assume "fst (commit_value shortest fault v s) = Inr ()"
  then have "fault = None" by (auto simp: commit_value_def Let_def split: option.splits)
  then have "?t = (s\<lparr>lgStored := v\<rparr>)\<lparr>lgDisk := \<lparr>cpPrimary = ?c, cpBackup = ?c\<rparr>\<rparr>"
    by (simp add: commit_value_def Let_def write_copies_def)
  moreover have "durable (facts v) ..." by (rule both) (use v hc in \<open>auto simp: admits_def\<close>)
  ultimately show "durable (facts v) ?t" by simp
qed

lemma durable_open:
  assumes d: "durable A s" and v: "open_copies shortest valid limit initial (lgDisk s) = Inr v"
  shows "durable A (s\<lparr>lgStored := v, lgFailed := False\<rparr>)"
proof -
  have "sound v \<and> A \<subseteq> facts v"
    using open_source [OF v] d sound_initial held_readable
    by (auto simp: durable_def Let_def present_def)
  with d open_newest [OF v] show ?thesis by (auto simp: durable_def Let_def)
qed

lemma durable_lose: "durable A s \<Longrightarrow> durable A (s\<lparr>lgDisk := lose_copy primary c (lgDisk s)\<rparr>)"
  by (cases c; cases "cpPrimary (lgDisk s)"; cases "cpBackup (lgDisk s)")
    (auto simp: durable_def Let_def lose_copy_def held_def present_def dest: readable_Copy)

lemma durable_memory:
  "durable A s \<Longrightarrow> sound v \<Longrightarrow> A \<subseteq> facts v \<Longrightarrow> revision v = revision (lgStored s) \<Longrightarrow>
   durable A (s\<lparr>lgStored := v\<rparr>)"
  by (simp add: durable_def Let_def)

lemma durable_mono: "durable A s \<Longrightarrow> B \<subseteq> A \<Longrightarrow> durable B s"
  by (auto simp: durable_def held_def Let_def split: copy.splits)

lemma durable_holds:
  assumes "durable A s"
  shows "A \<subseteq> facts (lgStored s)" "sound (lgStored s)"
  using assms by (auto simp: durable_def Let_def)

lemma commit_stored:
  "fst (commit_value shortest fault v s) = Inr () \<Longrightarrow> lgStored (snd (commit_value shortest fault v s)) = v"
  "fst (commit_value shortest fault v s) = Inl e \<Longrightarrow> lgStored (snd (commit_value shortest fault v s)) = lgStored s"
  by (auto simp: commit_value_def Let_def split: option.splits)

text \<open>A save of a value that was built beside the one in memory.\<close>

lemma durable_next:
  assumes d: "durable A s" and v: "sound v" "facts (lgStored s) \<subseteq> facts v" "revision v = revision (lgStored s) + 1"
    and sv: "(if lgFailed s then (Inl NeedsRecovery, s)
      else if full \<or> limit < pretty_bytes shortest v + 1 then (Inl LedgerFull, s)
      else commit_value shortest fault v s) = (res, t)"
  shows "durable A t"
    and "res = Inr () \<Longrightarrow> durable (facts v) t \<and> lgStored t = v"
    and "res = Inl e \<Longrightarrow> lgStored t = lgStored s"
proof -
  have c: "commit_value shortest fault v s = (res, t) \<Longrightarrow> admits s v \<Longrightarrow>
      durable A t \<and> (res = Inr () \<longrightarrow> durable (facts v) t \<and> lgStored t = v) \<and>
      (\<forall>e. res = Inl e \<longrightarrow> lgStored t = lgStored s)"
    using durable_commit [OF d, of v fault] commit_stored [of fault v s] by auto
  have "durable A t \<and> (res = Inr () \<longrightarrow> durable (facts v) t \<and> lgStored t = v) \<and>
      (\<forall>e. res = Inl e \<longrightarrow> lgStored t = lgStored s)"
  proof (cases "lgFailed s \<or> full \<or> limit < pretty_bytes shortest v + 1")
    case True
    with d sv show ?thesis by (auto split: if_splits)
  next
    case False
    with sv v show ?thesis by (intro c) (auto simp: admits_def)
  qed
  then show "durable A t" "res = Inr () \<Longrightarrow> durable (facts v) t \<and> lgStored t = v"
    "res = Inl e \<Longrightarrow> lgStored t = lgStored s" by blast+
qed

text \<open>Starting again after a commit: the value before it, or the value it wrote.\<close>

lemma open_both: "readable p v \<Longrightarrow> open_copies shortest valid limit initial \<lparr>cpPrimary = p, cpBackup = p\<rparr> = Inr v"
  by (simp add: open_copies_def readable_def copy_value_def Let_def)

lemma open_either:
  assumes "readable p v" "\<not> present q"
  shows "open_copies shortest valid limit initial \<lparr>cpPrimary = p, cpBackup = q\<rparr> = Inr v"
    and "open_copies shortest valid limit initial \<lparr>cpPrimary = q, cpBackup = p\<rparr> = Inr v"
  using assms by (cases q; simp add: open_copies_def readable_def read_copy_def copy_value_def present_def Let_def)+

lemma file_readable: "admits s v \<Longrightarrow> valid_revision v \<Longrightarrow> readable (file_of shortest v) (json_clean v)"
  by (simp add: admits_def readable_def read_copy_def file_of_def sound_valid)

lemma commit_recovers:
  assumes d: "durable A s" and o: "open_copies shortest valid limit initial (lgDisk s) = Inr w"
    and v: "admits s v" and r: "valid_revision v"
  shows "open_copies shortest valid limit initial (lgDisk (snd (commit_value shortest fault v s)))
      \<in> {Inr w, Inr (json_clean v)}"
    and "fault = None \<Longrightarrow> settled (snd (commit_value shortest fault v s))"
proof -
  let ?c = "file_of shortest v"
  have disk: "lgDisk (snd (commit_value shortest fault v s)) = write_copies fault ?c (lgDisk s)"
    by (simp add: commit_value_def Let_def split: option.splits)
  have c: "readable ?c (json_clean v)" using v r by (rule file_readable)
  have rc: "revision (json_clean v) = revision (lgStored s) + 1"
    using v by (simp add: admits_def revision_clean)
  show "open_copies shortest valid limit initial (lgDisk (snd (commit_value shortest fault v s)))
      \<in> {Inr w, Inr (json_clean v)}"
  proof (rule write_copies_cases [of fault ?c "lgDisk s"])
    assume "write_copies fault ?c (lgDisk s) = lgDisk s"
    with o disk show ?thesis by simp
  next
    assume c': "write_copies fault ?c (lgDisk s) = (lgDisk s)\<lparr>cpPrimary := ?c\<rparr>"
    have "copy_value (read_copy valid limit ?c) = Some (json_clean v)"
      using c by (simp add: copy_value_readable)
    moreover have "revision x \<le> revision (json_clean v) \<and> revision x \<noteq> revision (json_clean v)"
      if "copy_value (read_copy valid limit (cpBackup (lgDisk s))) = Some x" for x
    proof -
      have "readable (cpBackup (lgDisk s)) x" using that by (simp add: copy_value_readable)
      then have "revision x \<le> revision (lgStored s)" using d v by (auto simp: durable_def admits_def Let_def)
      with rc show ?thesis by simp
    qed
    ultimately have "open_copies shortest valid limit initial ((lgDisk s)\<lparr>cpPrimary := ?c\<rparr>) = Inr (json_clean v)"
      by (auto simp: open_copies_def Let_def split: option.splits)
    with disk c' show ?thesis by simp
  next
    assume "write_copies fault ?c (lgDisk s) = \<lparr>cpPrimary = ?c, cpBackup = ?c\<rparr>"
    with disk open_both [OF c] show ?thesis by simp
  qed
  show "settled (snd (commit_value shortest fault v s))" if "fault = None"
    using that open_both [OF c] by (simp add: settled_def commit_value_def Let_def write_copies_def)
qed

text \<open>After a commit that returned, either file alone is enough.\<close>

lemma commit_survives_loss:
  assumes v: "admits s v" and r: "valid_revision v"
    and c: "fst (commit_value shortest fault v s) = Inr ()"
  shows "open_copies shortest valid limit initial
    (lose_copy primary q (lgDisk (snd (commit_value shortest fault v s)))) = Inr (json_clean v)"
proof -
  have n: "fault = None" using c by (auto simp: commit_value_def Let_def split: option.splits)
  have f: "readable (file_of shortest v) (json_clean v)" using v r by (rule file_readable)
  show ?thesis
    using open_both [OF f] open_either [OF f, of q]
    by (cases q) (auto simp: n commit_value_def Let_def write_copies_def lose_copy_def present_def split: copy.splits)
qed

end

end
