(* ===== verification/ConsultationLedger.thy ===== *)
theory ConsultationLedger
  imports LedgerCopies
begin

text \<open>
  The consultation ledger, \<open>apps/desktop/src/main/bot-consultation-ledger.ts\<close>: one record per dispatch
  of one bot to another, written before the dispatch. A record is the JSON object the code keeps, since the
  guard of the file looks at some of its properties only; \<open>structuredClone\<close> is a copy. \<open>now\<close> is
  \<open>new Date().toISOString()\<close>.
\<close>

section \<open>Records and the guard of the file\<close>

datatype consultation_status =
  CsPrepared | CsAccepted | CsComplete | CsCancelled | CsError | CsTimeout

fun consultation_status_text :: "consultation_status \<Rightarrow> jstr" where
  "consultation_status_text CsPrepared = js ''prepared''"
| "consultation_status_text CsAccepted = js ''accepted''"
| "consultation_status_text CsComplete = js ''complete''"
| "consultation_status_text CsCancelled = js ''cancelled''"
| "consultation_status_text CsError = js ''error''"
| "consultation_status_text CsTimeout = js ''timeout''"

definition consultation_statuses :: "jsval list" where
  "consultation_statuses = map (\<lambda>s. Str (consultation_status_text s))
     [CsPrepared, CsAccepted, CsComplete, CsCancelled, CsError, CsTimeout]"

definition terminal_consultation :: "jsval \<Rightarrow> bool" where
  "terminal_consultation r = (getp r ''status'' \<in> set (map (\<lambda>s. Str (consultation_status_text s))
     [CsComplete, CsCancelled, CsError, CsTimeout]))"

definition max_consultations :: nat where "max_consultations = 10000"
definition max_consultation_bytes :: nat where "max_consultation_bytes = 8000000"

datatype consultation_error =
    LedgerError copy_error | IdentityExists | ConsultationLimit | ConsultationNotFound
  | ConsultationTerminal | InvalidIdentifier | ReadOfUndefined

definition consultation_row :: "(number \<Rightarrow> jstr) \<Rightarrow> jsval \<Rightarrow> bool" where
  "consultation_row shortest r =
     (is_record r \<and>
      id_test shortest (getp r ''dispatchId'') \<and>
      id_test shortest (getp r ''rootRunId'') \<and>
      id_test shortest (getp r ''targetRunId'') \<and>
      id_test shortest (getp r ''targetSessionId'') \<and>
      id_test shortest (getp r ''targetBotId'') \<and>
      (getp r ''workspacePath'' = Undef \<or> canonical_path (getp r ''workspacePath'')) \<and>
      id_test shortest (getp (getp r ''origin'') ''runId'') \<and>
      is_array (getp r ''ancestry'') \<and>
      list_all (\<lambda>i. is_string i \<and> id_test shortest i) (elements (getp r ''ancestry'')) \<and>
      is_safe_integer (getp r ''depth'') \<and>
      (case getp r ''depth'' of Num (Fin q) \<Rightarrow> 1 \<le> q \<and> q \<le> 2 | _ \<Rightarrow> False) \<and>
      getp r ''status'' \<in> set consultation_statuses)"

definition consultation_file :: "(number \<Rightarrow> jstr) \<Rightarrow> jsval \<Rightarrow> bool" where
  "consultation_file shortest v =
     (let rs = elements (getp v ''records'') in
      getp v ''version'' = Num (Fin 1) \<and> valid_revision v \<and> is_array (getp v ''records'') \<and>
      length rs \<le> max_consultations \<and> list_all (consultation_row shortest) rs \<and>
      all_different (map (\<lambda>r. getp r ''dispatchId'') rs) \<and>
      all_different (map (\<lambda>r. getp r ''targetRunId'') rs))"

section \<open>The ledger\<close>

definition empty_consultations :: jsval where
  "empty_consultations =
     Obj [(''version'', Num (Fin 1)), (''revision'', Num (Fin 0)), (''records'', Arr [])]"

definition open_consultations :: "(number \<Rightarrow> jstr) \<Rightarrow> copies \<Rightarrow> copy_error + jsval" where
  "open_consultations shortest d =
     open_copies shortest (consultation_file shortest) max_consultation_bytes empty_consultations d"

definition consultations :: "ledger \<Rightarrow> jsval list" where
  "consultations s = elements (getp (lgStored s) ''records'')"

definition set_consultations :: "jsval list \<Rightarrow> ledger \<Rightarrow> ledger" where
  "set_consultations rs s = s\<lparr>lgStored := setp (lgStored s) ''records'' (Arr rs)\<rparr>"

definition save_consultations ::
  "(number \<Rightarrow> jstr) \<Rightarrow> save_point option \<Rightarrow> ledger \<Rightarrow> (copy_error, unit, ledger) outcome" where
  "save_consultations shortest fault s =
     (if lgFailed s then (Inl NeedsRecovery, s)
      else
        let v = with_revision (lgStored s) (revision (lgStored s) + 1) in
        if max_consultations < length (elements (getp v ''records'')) \<or>
          max_consultation_bytes < pretty_bytes shortest v + 1 then (Inl LedgerFull, s)
        else commit_value shortest fault v s)"

definition get_consultation :: "ledger \<Rightarrow> jsval \<Rightarrow> jsval option" where
  "get_consultation s i = find (\<lambda>r. strict_equal (getp r ''dispatchId'') i) (consultations s)"

definition by_target_run :: "ledger \<Rightarrow> jsval \<Rightarrow> jsval option" where
  "by_target_run s i = find (\<lambda>r. strict_equal (getp r ''targetRunId'') i) (consultations s)"

definition count_root :: "ledger \<Rightarrow> jsval \<Rightarrow> nat" where
  "count_root s i = length (filter (\<lambda>r. strict_equal (getp r ''rootRunId'') i) (consultations s))"

definition for_root :: "ledger \<Rightarrow> jstr \<Rightarrow> consultation_error + jsval list" where
  "for_root s i =
     (if \<not> id_text i then Inl InvalidIdentifier
      else Inr (filter (\<lambda>r. strict_equal (getp r ''rootRunId'') (Str i)) (consultations s)))"

text \<open>\<open>entry.origin.botId\<close> throws for an absent \<open>origin\<close>.\<close>

definition active_for_bot :: "ledger \<Rightarrow> jstr \<Rightarrow> consultation_error + jsval list" where
  "active_for_bot s i =
     (if \<not> id_text i then Inl InvalidIdentifier
      else if list_ex (\<lambda>r. getp r ''origin'' \<in> {Undef, Null}) (consultations s) then Inl ReadOfUndefined
      else Inr (filter (\<lambda>r.
        (strict_equal (getp (getp r ''origin'') ''botId'') (Str i) \<or>
         strict_equal (getp r ''targetBotId'') (Str i)) \<and> \<not> terminal_consultation r) (consultations s)))"

definition prepare_consultation ::
  "(number \<Rightarrow> jstr) \<Rightarrow> save_point option \<Rightarrow> jsval \<Rightarrow> ledger \<Rightarrow> (consultation_error, jsval, ledger) outcome" where
  "prepare_consultation shortest fault r s =
     (if get_consultation s (getp r ''dispatchId'') \<noteq> None \<or> by_target_run s (getp r ''targetRunId'') \<noteq> None
      then (Inl IdentityExists, s)
      else if 3 \<le> count_root s (getp r ''rootRunId'') then (Inl ConsultationLimit, s)
      else case save_consultations shortest fault (set_consultations (consultations s @ [r]) s) of
        (Inr _, t) \<Rightarrow> (Inr r, t)
      | (Inl e, t) \<Rightarrow> (Inl (LedgerError e), set_consultations (butlast (consultations t)) t))"

fun index_where :: "('a \<Rightarrow> bool) \<Rightarrow> 'a list \<Rightarrow> nat option" where
  "index_where P [] = None"
| "index_where P (x # xs) = (if P x then Some 0 else map_option Suc (index_where P xs))"

definition next_consultation ::
  "consultation_status \<Rightarrow> jstr \<Rightarrow> jsval option \<Rightarrow> jsval \<Rightarrow> jsval" where
  "next_consultation status now result r =
     (let u = setp (setp r ''status'' (Str (consultation_status_text status))) ''updatedAt'' (Str now) in
      case result of None \<Rightarrow> u | Some x \<Rightarrow> setp u ''result'' x)"

definition update_consultation ::
  "(number \<Rightarrow> jstr) \<Rightarrow> save_point option \<Rightarrow> jstr \<Rightarrow> jstr \<Rightarrow> consultation_status \<Rightarrow> jsval option \<Rightarrow> ledger \<Rightarrow>
   (consultation_error, jsval, ledger) outcome" where
  "update_consultation shortest fault now i status result s =
     (case index_where (\<lambda>r. strict_equal (getp r ''dispatchId'') (Str i)) (consultations s) of
        None \<Rightarrow> (Inl ConsultationNotFound, s)
      | Some k \<Rightarrow>
          let current = consultations s ! k in
          if terminal_consultation current then (Inl ConsultationTerminal, s)
          else
            let r = next_consultation status now result current in
            case save_consultations shortest fault (set_consultations ((consultations s)[k := r]) s) of
              (Inr _, t) \<Rightarrow> (Inr r, t)
            | (Inl e, t) \<Rightarrow> (Inl (LedgerError e), set_consultations ((consultations t)[k := current]) t))"

section \<open>The life of a ledger\<close>

text \<open>
  Calls, the end of the process at any moment and the start of the next one, and the loss of one
  file. A process that cannot open the ledger does not run.
\<close>

datatype consultation_event =
    Prepare jsval "save_point option"
  | Update jstr consultation_status "jsval option" jstr "save_point option"
  | Restart
  | Lose bool copy

definition new_consultations :: ledger where
  "new_consultations =
     \<lparr>lgStored = empty_consultations, lgFailed = False, lgDisk = \<lparr>cpPrimary = Missing, cpBackup = Missing\<rparr>\<rparr>"

fun consultation_step :: "(number \<Rightarrow> jstr) \<Rightarrow> ledger \<Rightarrow> consultation_event \<Rightarrow> ledger" where
  "consultation_step shortest s (Prepare r fault) = snd (prepare_consultation shortest fault r s)"
| "consultation_step shortest s (Update i status result now fault) =
     snd (update_consultation shortest fault now i status result s)"
| "consultation_step shortest s Restart =
     (case open_consultations shortest (lgDisk s) of
        Inl _ \<Rightarrow> s
      | Inr v \<Rightarrow> s\<lparr>lgStored := v, lgFailed := False\<rparr>)"
| "consultation_step shortest s (Lose primary c) = s\<lparr>lgDisk := lose_copy primary c (lgDisk s)\<rparr>"

section \<open>What the types of the code promise\<close>

text \<open>A value of the interface \<open>BotConsultationRecord\<close> with valid identifiers, as the broker builds it.\<close>

definition typed_consultation :: "jsval \<Rightarrow> bool" where
  "typed_consultation r =
     (object_wf r \<and>
      list_all (\<lambda>k. string_id (getp r k))
        [''dispatchId'', ''rootRunId'', ''targetRunId'', ''targetSessionId'', ''targetBotId''] \<and>
      object_wf (getp r ''origin'') \<and> string_id (getp (getp r ''origin'') ''runId'') \<and>
      (getp r ''workspacePath'' = Undef \<or> canonical_path (getp r ''workspacePath'')) \<and>
      is_array (getp r ''ancestry'') \<and> list_all string_id (elements (getp r ''ancestry'')) \<and>
      getp r ''depth'' \<in> {Num (Fin 1), Num (Fin 2)} \<and>
      getp r ''status'' \<in> set consultation_statuses)"

fun typed_event :: "consultation_event \<Rightarrow> bool" where
  "typed_event (Prepare r fault) = typed_consultation r"
| "typed_event (Update i status result now fault) = True"
| "typed_event Restart = True"
| "typed_event (Lose primary c) = True"

end
