(* ===== verification/ConsultationBroker.thy ===== *)
theory ConsultationBroker
  imports ConsultationLedger RunTypes
begin

text \<open>
  The consultation broker, \<open>apps/desktop/src/main/bot-consultation-broker.ts\<close>. A dispatch runs from one \<open>await\<close> to the
  next as one step; its place between them is \<open>dispatch_phase\<close>. What the awaited calls answer (the registry of
  bots, the two runtimes, the workspace check) comes with the step. \<open>brPosts\<close> lists the submissions that
  were sent, in order.
\<close>

section \<open>Permissions\<close>

record bot_permissions =
  bpConnections :: "jstr list"
  bpPaths :: "jstr list"
  bpTools :: "jstr list"
  bpMutation :: bool
  bpDelegation :: bool

record bot_definition =
  bdId :: jstr
  bdAgent :: jstr
  bdDefault :: bool
  bdPermissions :: bot_permissions

datatype broker_error =
    LedgerRefused consultation_error | PathUnavailable | PathsOutside | ConnectionsOutside | ToolsOutside
  | MutationNotGranted | DelegationNotGranted | OriginInvalid | SelfConsultation | DelegationForbidden
  | ToolNotGranted | DepthLimit | RootLimit | ObjectiveInvalid | DeadlineInvalid | ProjectChanged
  | KnowledgeInvalid | CancelledDuringDispatch | NotPrepared | TargetRejected | ReceiptMismatch
  | NotFoundForBot | NoActiveBinding | RunOwnershipChanged | TranscriptInvalid | NoAssistantResult | EndedWithoutResult

fun first_of_each :: "'a list \<Rightarrow> 'a list" where
  "first_of_each [] = []"
| "first_of_each (x # xs) = x # filter (\<lambda>y. y \<noteq> x) (first_of_each xs)"

text \<open>\<open>realpath\<close> is \<open>realpathSync\<close>, which throws for a path that does not exist.\<close>

fun real_paths :: "(jstr \<Rightarrow> jstr option) \<Rightarrow> jstr list \<Rightarrow> jstr list option" where
  "real_paths realpath [] = Some []"
| "real_paths realpath (p # ps) =
     (case (realpath p, real_paths realpath ps) of (Some q, Some qs) \<Rightarrow> Some (q # qs) | _ \<Rightarrow> None)"

definition canonical_paths :: "(jstr \<Rightarrow> jstr option) \<Rightarrow> jstr list \<Rightarrow> jstr list option" where
  "canonical_paths realpath ps = map_option first_of_each (real_paths realpath ps)"

fun common_segments :: "jstr list \<Rightarrow> jstr list \<Rightarrow> nat" where
  "common_segments (x # xs) (y # ys) = (if x = y then Suc (common_segments xs ys) else 0)"
| "common_segments _ _ = 0"

text \<open>\<open>path.relative\<close> of absolute paths.\<close>

definition relative_to :: "jstr \<Rightarrow> jstr \<Rightarrow> jstr" where
  "relative_to root_path path =
     (let l = resolve_segments [] (split_path root_path); r = resolve_segments [] (split_path path);
        n = common_segments l r in
      join_texts [47] (replicate (length l - n) [46, 46] @ drop n r))"

definition path_within :: "jstr \<Rightarrow> jstr \<Rightarrow> bool" where
  "path_within root_path path =
     (let part = relative_to root_path path in part = [] \<or> take 2 part \<noteq> [46, 46] \<and> \<not> absolute_path part)"

definition target_paths ::
  "(jstr \<Rightarrow> jstr option) \<Rightarrow> bot_definition \<Rightarrow> bot_definition \<Rightarrow> jstr option \<Rightarrow> broker_error + jstr list" where
  "target_paths realpath origin target workspace = (case workspace of
     Some w \<Rightarrow> Inr [w]
   | None \<Rightarrow>
       (case (canonical_paths realpath (bpPaths (bdPermissions origin)),
              canonical_paths realpath (bpPaths (bdPermissions target))) of
          (Some os, Some ts) \<Rightarrow>
            if list_ex (\<lambda>t. \<not> list_ex (\<lambda>r. path_within r t) os) ts then Inl PathsOutside else Inr ts
        | _ \<Rightarrow> Inl PathUnavailable))"

definition effective_permissions ::
  "(jstr \<Rightarrow> jstr option) \<Rightarrow> bot_definition \<Rightarrow> bot_definition \<Rightarrow> jstr option \<Rightarrow> broker_error + bot_permissions" where
  "effective_permissions realpath origin target workspace =
     (let o_p = bdPermissions origin; t_p = bdPermissions target in
      case target_paths realpath origin target workspace of
        Inl e \<Rightarrow> Inl e
      | Inr paths \<Rightarrow>
          if \<not> bdDefault origin \<and> list_ex (\<lambda>c. c \<notin> set (bpConnections o_p)) (bpConnections t_p)
          then Inl ConnectionsOutside
          else if \<not> bdDefault origin \<and> list_ex (\<lambda>c. c \<notin> set (bpTools o_p)) (bpTools t_p)
          then Inl ToolsOutside
          else if bpMutation t_p \<and> \<not> bpMutation o_p then Inl MutationNotGranted
          else if bpDelegation t_p \<and> \<not> bpDelegation o_p then Inl DelegationNotGranted
          else Inr \<lparr>bpConnections = bpConnections t_p, bpPaths = paths, bpTools = bpTools t_p,
                 bpMutation = bpMutation t_p, bpDelegation = bpDelegation t_p\<rparr>)"

section \<open>The broker and its dispatches\<close>

datatype dispatch_phase =
    Verifying
  | Resolving jsval "jsval option" "jsval list" nat
  | Reserving jsval
  | Binding jsval
  | Answering jsval

record dispatch =
  dpInput :: jsval
  dpOrigin :: bot_definition
  dpTarget :: bot_definition
  dpGeneration :: nat
  dpOriginGeneration :: nat
  dpTargetGeneration :: nat
  dpPhase :: dispatch_phase

record broker =
  brLedger :: ledger
  brGeneration :: nat
  brBotGeneration :: "(jstr, nat) jsmap"
  brDispatches :: "(nat, dispatch) jsmap"
  brPosts :: "jsval list"

definition bot_generation :: "broker \<Rightarrow> jstr \<Rightarrow> nat" where
  "bot_generation s i = (case map_of (brBotGeneration s) i of None \<Rightarrow> 0 | Some n \<Rightarrow> n)"

text \<open>\<open>assertPending\<close>; \<open>aborted\<close> says whether the caller's signal was.\<close>

definition assert_pending :: "bool \<Rightarrow> broker \<Rightarrow> dispatch \<Rightarrow> bool" where
  "assert_pending aborted s d =
     (\<not> aborted \<and> dpGeneration d = brGeneration s \<and>
      dpOriginGeneration d = bot_generation s (bdId (dpOrigin d)) \<and>
      dpTargetGeneration d = bot_generation s (bdId (dpTarget d)))"

text \<open>
  The first stretch, up to \<open>assertRunOwner\<close>: \<open>origin\<close> and \<open>target\<close> are what the registry knows of the
  two bots, \<open>owns\<close> the answer of \<open>assertConversationOwner\<close>.
\<close>

definition check_dispatch ::
  "bot_definition \<Rightarrow> bot_definition \<Rightarrow> bool \<Rightarrow> jsval \<Rightarrow> broker_error + unit" where
  "check_dispatch origin target owns input =
     (let o_v = getp input ''origin'' in
      if \<not> (is_record input \<or> is_array input) \<or> getp o_v ''botId'' \<noteq> Str (bdId origin) then Inl OriginInvalid
      else if bdId origin = bdId target then Inl SelfConsultation
      else if \<not> bpDelegation (bdPermissions origin) then Inl DelegationForbidden
      else if \<not> bdDefault origin \<and> js ''DOOLITTLE_CONSULT_BOT'' \<notin> set (bpTools (bdPermissions origin))
      then Inl ToolNotGranted
      else if getp o_v ''agentId'' \<noteq> Str (bdAgent origin) \<or> \<not> truthy_text (getp o_v ''sessionId'') \<or>
        \<not> truthy_text (getp o_v ''runId'') \<or> \<not> owns then Inl OriginInvalid
      else Inr ())"

definition begin_dispatch ::
  "nat \<Rightarrow> bot_definition \<Rightarrow> bot_definition \<Rightarrow> bool \<Rightarrow> jsval \<Rightarrow> broker \<Rightarrow> (broker_error, unit, broker) outcome" where
  "begin_dispatch t origin target owns input s = (case check_dispatch origin target owns input of
     Inl e \<Rightarrow> (Inl e, s)
   | Inr _ \<Rightarrow>
       (Inr (), s\<lparr>brDispatches := AList.update t
          \<lparr>dpInput = input, dpOrigin = origin, dpTarget = target, dpGeneration = brGeneration s,
           dpOriginGeneration = bot_generation s (bdId origin), dpTargetGeneration = bot_generation s (bdId target),
           dpPhase = Verifying\<rparr> (brDispatches s)\<rparr>))"

definition drop_dispatch :: "nat \<Rightarrow> broker \<Rightarrow> broker" where
  "drop_dispatch t s = s\<lparr>brDispatches := AList.delete t (brDispatches s)\<rparr>"

definition set_phase :: "nat \<Rightarrow> dispatch \<Rightarrow> dispatch_phase \<Rightarrow> broker \<Rightarrow> broker" where
  "set_phase t d p s = s\<lparr>brDispatches := AList.update t (d\<lparr>dpPhase := p\<rparr>) (brDispatches s)\<rparr>"

definition context_entry :: "jsval \<Rightarrow> bool" where
  "context_entry e =
     ((case getp e ''text'' of Str u \<Rightarrow> length u \<le> 12000 | _ \<Rightarrow> False) \<and>
      (case getp e ''source'' of Str u \<Rightarrow> length u \<le> 512 | _ \<Rightarrow> False))"

definition objective_valid :: "jsval \<Rightarrow> bool" where
  "objective_valid input =
     ((case getp input ''objective'' of Str u \<Rightarrow> trim_text u \<noteq> [] \<and> length u \<le> 32000 | _ \<Rightarrow> False) \<and>
      is_array (getp input ''context'') \<and> length (elements (getp input ''context'')) \<le> 8 \<and>
      list_all context_entry (elements (getp input ''context'')))"

text \<open>\<open>date\<close> is \<open>Date.parse\<close>, \<open>None\<close> for \<open>NaN\<close>; the clock is read twice.\<close>

definition deadline_valid :: "(jsval \<Rightarrow> int option) \<Rightarrow> clock \<Rightarrow> jsval \<Rightarrow> bool" where
  "deadline_valid date clock input = (case date (getp input ''deadline'') of
     Some d \<Rightarrow> clock 0 < d \<and> d - clock 1 \<le> 600000 | None \<Rightarrow> False)"

text \<open>
  The second stretch, once the registry and the origin's runtime have confirmed the run: the place
  in the tree of consultations, from the ledger.
\<close>

definition place_dispatch :: "(jsval \<Rightarrow> int option) \<Rightarrow> clock \<Rightarrow> dispatch \<Rightarrow> ledger \<Rightarrow> broker_error + dispatch_phase" where
  "place_dispatch date clock d l =
     (let run = getp (getp (dpInput d) ''origin'') ''runId''; parent = by_target_run l run;
        root_run = (case parent of Some p \<Rightarrow> getp p ''rootRunId'' | None \<Rightarrow> run);
        depth = (case parent of Some p \<Rightarrow> (if getp p ''depth'' = Num (Fin 1) then 2 else 3) | None \<Rightarrow> 1);
        ancestry = (case parent of Some p \<Rightarrow> elements (getp p ''ancestry'') @ [getp p ''targetBotId'']
          | None \<Rightarrow> [Str (bdId (dpOrigin d))]) in
      if 2 < depth \<or> Str (bdId (dpTarget d)) \<in> set ancestry then Inl DepthLimit
      else if 3 \<le> count_root l root_run then Inl RootLimit
      else if \<not> objective_valid (dpInput d) then Inl ObjectiveInvalid
      else if \<not> deadline_valid date clock (dpInput d) then Inl DeadlineInvalid
      else Inr (Resolving root_run (map_option (\<lambda>p. getp p ''dispatchId'') parent) ancestry depth))"

definition permissions_json :: "bot_permissions \<Rightarrow> jsval" where
  "permissions_json p =
     Obj [(''connectionIds'', Arr (map Str (bpConnections p))), (''workspacePaths'', Arr (map Str (bpPaths p))),
       (''toolIds'', Arr (map Str (bpTools p))), (''allowMutation'', JBool (bpMutation p)),
       (''allowDelegation'', JBool (bpDelegation p))]"

definition consult_prefix :: jstr where "consult_prefix = js ''consult:''"

definition dispatch_record ::
  "dispatch \<Rightarrow> jsval \<Rightarrow> jsval option \<Rightarrow> jsval list \<Rightarrow> nat \<Rightarrow> bot_permissions \<Rightarrow> jstr \<Rightarrow> jstr \<Rightarrow> jstr \<Rightarrow> jsval" where
  "dispatch_record d root_run parent ancestry depth perms uuid workspace now =
     Obj ([(''dispatchId'', Str uuid), (''rootRunId'', root_run)] @
       (case parent of Some p \<Rightarrow> [(''parentDispatchId'', p)] | None \<Rightarrow> []) @
       [(''ancestry'', Arr ancestry), (''depth'', Num (Fin (of_nat depth))),
        (''origin'', getp (dpInput d) ''origin''), (''targetBotId'', Str (bdId (dpTarget d))),
        (''targetSessionId'', Str (consult_prefix @ uuid)), (''targetRunId'', Str (consult_prefix @ uuid)),
        (''workspacePath'', Str workspace), (''permissions'', permissions_json perms),
        (''deadline'', getp (dpInput d) ''deadline''),
        (''knowledgeIds'', if getp (dpInput d) ''knowledgeIds'' \<in> {Undef, Null} then Arr []
           else getp (dpInput d) ''knowledgeIds''),
        (''status'', Str (consultation_status_text CsPrepared)), (''createdAt'', Str now), (''updatedAt'', Str now)])"

text \<open>
  The third stretch, with the verified workspace of the origin's conversation (\<open>project\<close>
  its project), the resolved knowledge, \<open>randomUUID()\<close> and the time.
\<close>

definition resolve_dispatch ::
  "(jstr \<Rightarrow> jstr option) \<Rightarrow> jstr \<Rightarrow> jsval \<Rightarrow> jstr \<Rightarrow> jstr \<Rightarrow> dispatch \<Rightarrow> broker_error + dispatch_phase" where
  "resolve_dispatch realpath workspace project uuid now d = (case dpPhase d of
     Resolving root_run parent ancestry depth \<Rightarrow>
       if project \<noteq> getp (getp (dpInput d) ''origin'') ''projectId'' then Inl ProjectChanged
       else
         (case effective_permissions realpath (dpOrigin d) (dpTarget d) (if workspace = [] then None else Some workspace) of
            Inl e \<Rightarrow> Inl e
          | Inr perms \<Rightarrow>
              if getp (dpInput d) ''knowledgeIds'' \<noteq> Undef \<and>
                (\<not> is_array (getp (dpInput d) ''knowledgeIds'') \<or>
                 \<not> list_all is_string (elements (getp (dpInput d) ''knowledgeIds'')))
              then Inl KnowledgeInvalid
              else Inr (Reserving (dispatch_record d root_run parent ancestry depth perms uuid workspace now)))
   | _ \<Rightarrow> Inl OriginInvalid)"

text \<open>The fourth stretch: the reservation in the ledger.\<close>

definition reserve_dispatch ::
  "(number \<Rightarrow> jstr) \<Rightarrow> save_point option \<Rightarrow> bool \<Rightarrow> nat \<Rightarrow> dispatch \<Rightarrow> jsval \<Rightarrow> broker \<Rightarrow> broker" where
  "reserve_dispatch shortest fault aborted t d r s =
     (if \<not> assert_pending aborted s d then drop_dispatch t s
      else case prepare_consultation shortest fault r (brLedger s) of
        (Inl _, l) \<Rightarrow> drop_dispatch t (s\<lparr>brLedger := l\<rparr>)
      | (Inr _, l) \<Rightarrow> set_phase t d (Binding r) (s\<lparr>brLedger := l\<rparr>))"

definition is_active_consultation :: "jsval option \<Rightarrow> bool" where
  "is_active_consultation r = (case r of None \<Rightarrow> False | Some x \<Rightarrow>
     getp x ''status'' \<in> {Str (consultation_status_text CsPrepared), Str (consultation_status_text CsAccepted)})"

definition fail_dispatch ::
  "(number \<Rightarrow> jstr) \<Rightarrow> save_point option \<Rightarrow> jstr \<Rightarrow> nat \<Rightarrow> jsval \<Rightarrow> broker \<Rightarrow> broker" where
  "fail_dispatch shortest fault now t i s =
     (if is_active_consultation (get_consultation (brLedger s) i)
      then drop_dispatch t (s\<lparr>brLedger :=
        snd (update_consultation shortest fault now (case i of Str u \<Rightarrow> u | _ \<Rightarrow> []) CsError None (brLedger s))\<rparr>)
      else drop_dispatch t s)"

text \<open>The fifth stretch: the last checks and the submission; \<open>bound\<close> says that the awaited bindings returned.\<close>

definition submit_dispatch ::
  "(number \<Rightarrow> jstr) \<Rightarrow> save_point option \<Rightarrow> jstr \<Rightarrow> bool \<Rightarrow> bool \<Rightarrow> nat \<Rightarrow> dispatch \<Rightarrow> jsval \<Rightarrow> broker \<Rightarrow> broker" where
  "submit_dispatch shortest fault now bound aborted t d r s =
     (if bound \<and> assert_pending aborted s d \<and>
        (case get_consultation (brLedger s) (getp r ''dispatchId'') of
           Some x \<Rightarrow> getp x ''status'' = Str (consultation_status_text CsPrepared) | None \<Rightarrow> False)
      then set_phase t d (Answering r) (s\<lparr>brPosts := brPosts s @ [r]\<rparr>)
      else fail_dispatch shortest fault now t (getp r ''dispatchId'') s)"

datatype submit_answer = NoAnswer | Rejected | Receipt jsval | Unreadable

definition answer_dispatch ::
  "(number \<Rightarrow> jstr) \<Rightarrow> save_point option \<Rightarrow> jstr \<Rightarrow> submit_answer \<Rightarrow> nat \<Rightarrow> jsval \<Rightarrow> broker \<Rightarrow>
   (broker_error, jsval, broker) outcome" where
  "answer_dispatch shortest fault now answer t r s =
     (let i = (case getp r ''dispatchId'' of Str u \<Rightarrow> u | _ \<Rightarrow> []); u = drop_dispatch t s in
      case answer of
        NoAnswer \<Rightarrow> (Inr r, u)
      | Rejected \<Rightarrow>
          (case update_consultation shortest fault now i CsError None (brLedger s) of
             (Inl e, l) \<Rightarrow> (Inl (LedgerRefused e), u\<lparr>brLedger := l\<rparr>)
           | (Inr _, l) \<Rightarrow> (Inl TargetRejected, u\<lparr>brLedger := l\<rparr>))
      | Unreadable \<Rightarrow> (Inl ReceiptMismatch, u)
      | Receipt v \<Rightarrow>
          if getp v ''run_id'' \<noteq> getp r ''targetRunId'' \<or> getp v ''room_id'' \<noteq> getp r ''targetSessionId''
          then (Inl ReceiptMismatch, u)
          else
            (case update_consultation shortest fault now i CsAccepted None (brLedger s) of
               (Inl e, l) \<Rightarrow> (Inl (LedgerRefused e), u\<lparr>brLedger := l\<rparr>)
             | (Inr x, l) \<Rightarrow> (Inr x, u\<lparr>brLedger := l\<rparr>)))"

section \<open>Cancelling, waiting and admission\<close>

text \<open>
  \<open>cancel\<close> up to its request to the target: \<open>caller\<close> is \<open>this.bots.get(callerBotId).id\<close>, \<open>None\<close> when that throws.
\<close>

definition cancel_consultation ::
  "(number \<Rightarrow> jstr) \<Rightarrow> save_point option \<Rightarrow> jstr \<Rightarrow> consultation_status \<Rightarrow> jstr option \<Rightarrow> jstr \<Rightarrow> broker \<Rightarrow>
   (broker_error, unit, broker) outcome" where
  "cancel_consultation shortest fault now ending caller i s =
     (case get_consultation (brLedger s) (Str i) of
        None \<Rightarrow> (Inl NotFoundForBot, s)
      | Some r \<Rightarrow>
          (case caller of
             None \<Rightarrow> (Inl NotFoundForBot, s)
           | Some b \<Rightarrow>
               if getp (getp r ''origin'') ''botId'' \<noteq> Str b then (Inl NotFoundForBot, s)
               else if terminal_consultation r then (Inr (), s)
               else
                 (case update_consultation shortest fault now i ending None (brLedger s) of
                    (Inl e, l) \<Rightarrow> (Inl (LedgerRefused e), s\<lparr>brLedger := l\<rparr>)
                  | (Inr _, l) \<Rightarrow> (Inr (), s\<lparr>brLedger := l\<rparr>))))"

text \<open>\<open>known\<close> is the registry's lookup of a bot id; every write of the loop may fail on its own.\<close>

fun cancel_records ::
  "(number \<Rightarrow> jstr) \<Rightarrow> (nat \<Rightarrow> save_point option) \<Rightarrow> jstr \<Rightarrow> (jsval \<Rightarrow> jstr option) \<Rightarrow> jsval list \<Rightarrow> broker \<Rightarrow> broker" where
  "cancel_records shortest fault now known [] s = s"
| "cancel_records shortest fault now known (r # rs) s =
     cancel_records shortest (\<lambda>n. fault (Suc n)) now known rs
       (snd (cancel_consultation shortest (fault 0) now CsCancelled (known (getp (getp r ''origin'') ''botId''))
         (case getp r ''dispatchId'' of Str u \<Rightarrow> u | _ \<Rightarrow> []) s))"

definition cancel_for_bot ::
  "(number \<Rightarrow> jstr) \<Rightarrow> (nat \<Rightarrow> save_point option) \<Rightarrow> jstr \<Rightarrow> (jsval \<Rightarrow> jstr option) \<Rightarrow> jstr \<Rightarrow> broker \<Rightarrow>
   (broker_error, unit, broker) outcome" where
  "cancel_for_bot shortest fault now known b s =
     (let u = s\<lparr>brBotGeneration := AList.update b (bot_generation s b + 1) (brBotGeneration s)\<rparr> in
      case active_for_bot (brLedger u) b of
        Inl e \<Rightarrow> (Inl (LedgerRefused e), u)
      | Inr rs \<Rightarrow> (Inr (), cancel_records shortest fault now known rs u))"

fun collect_active :: "ledger \<Rightarrow> jstr list \<Rightarrow> (jsval, jsval) jsmap \<Rightarrow> consultation_error + (jsval, jsval) jsmap" where
  "collect_active l [] m = Inr m"
| "collect_active l (b # bs) m = (case active_for_bot l b of
     Inl e \<Rightarrow> Inl e
   | Inr rs \<Rightarrow> collect_active l bs (foldl (\<lambda>m r. AList.update (getp r ''dispatchId'') r m) m rs))"

definition cancel_all ::
  "(number \<Rightarrow> jstr) \<Rightarrow> (nat \<Rightarrow> save_point option) \<Rightarrow> jstr \<Rightarrow> (jsval \<Rightarrow> jstr option) \<Rightarrow> jstr list \<Rightarrow> broker \<Rightarrow>
   (broker_error, unit, broker) outcome" where
  "cancel_all shortest fault now known bots s =
     (let u = s\<lparr>brGeneration := brGeneration s + 1\<rparr> in
      case collect_active (brLedger u) bots [] of
        Inl e \<Rightarrow> (Inl (LedgerRefused e), u)
      | Inr m \<Rightarrow> (Inr (), cancel_records shortest fault now known (map snd m) u))"

text \<open>\<open>wait\<close> up to its first poll: \<open>Inr (Some x)\<close> is the recorded result.\<close>

definition begin_wait :: "jstr option \<Rightarrow> jstr \<Rightarrow> broker \<Rightarrow> broker_error + jsval option" where
  "begin_wait caller i s =
     (case (get_consultation (brLedger s) (Str i), caller) of
        (Some r, Some b) \<Rightarrow>
          if getp (getp r ''origin'') ''botId'' \<noteq> Str b then Inl NotFoundForBot
          else if truthy_text (getp r ''result'') then Inr (Some (getp r ''result''))
          else if terminal_consultation r then Inl EndedWithoutResult
          else Inr None
      | _ \<Rightarrow> Inl NotFoundForBot)"

text \<open>
  One poll of \<open>wait\<close>: what it makes of the run the target's runtime answers and, for a completed run, of the
  transcript. \<open>Inr None\<close> is another round.
\<close>

definition assistant_text :: "jsval \<Rightarrow> jsval \<Rightarrow> broker_error + jstr" where
  "assistant_text r page =
     (if \<not> is_array (getp page ''messages'') \<or> getp page ''throughRunId'' \<noteq> getp r ''targetRunId''
      then Inl TranscriptInvalid
      else (case find (\<lambda>m. is_record m \<and> getp m ''role'' = Str (js ''assistant''))
                (rev (elements (getp page ''messages''))) of
        Some m \<Rightarrow> (case getp m ''text'' of Str u \<Rightarrow> Inr u | _ \<Rightarrow> Inl NoAssistantResult)
      | None \<Rightarrow> Inl NoAssistantResult))"

definition run_outcome :: "jsval \<Rightarrow> consultation_status option" where
  "run_outcome v = find (\<lambda>c. v = Str (consultation_status_text c)) [CsComplete, CsCancelled, CsError]"

definition consultation_result :: "jsval \<Rightarrow> jstr \<Rightarrow> consultation_status \<Rightarrow> jstr \<Rightarrow> jsval" where
  "consultation_result r agent outcome t =
     Obj [(''dispatchId'', getp r ''dispatchId''),
       (''owner'', Obj ([(''botId'', getp r ''targetBotId''), (''agentId'', Str agent),
          (''sessionId'', getp r ''targetSessionId''), (''runId'', getp r ''targetRunId'')] @
          (if truthy_text (getp (getp r ''origin'') ''projectId'')
           then [(''projectId'', getp (getp r ''origin'') ''projectId'')] else []))),
       (''outcome'', Str (consultation_status_text outcome)), (''text'', Str t), (''evidence'', Arr [])]"

definition poll_consultation ::
  "jsval \<Rightarrow> jstr \<Rightarrow> jsval \<Rightarrow> jsval \<Rightarrow> broker_error + (consultation_status \<times> jsval) option" where
  "poll_consultation r agent run page =
     (if getp run ''runId'' \<noteq> getp r ''targetRunId'' \<or> getp run ''sessionId'' \<noteq> getp r ''targetSessionId''
      then Inl RunOwnershipChanged
      else if \<not> is_terminal_run_status (getp run ''status'') then Inr None
      else case run_outcome (getp run ''status'') of
        None \<Rightarrow> Inr None
      | Some CsComplete \<Rightarrow>
          (case assistant_text r page of
             Inl e \<Rightarrow> Inl e
           | Inr t \<Rightarrow> Inr (Some (CsComplete, consultation_result r agent CsComplete t)))
      | Some c \<Rightarrow> Inr (Some (c, consultation_result r agent c [])))"

definition settle_consultation ::
  "(number \<Rightarrow> jstr) \<Rightarrow> save_point option \<Rightarrow> jstr \<Rightarrow> jstr \<Rightarrow> jsval \<Rightarrow> jsval \<Rightarrow> jsval \<Rightarrow> broker \<Rightarrow> broker" where
  "settle_consultation shortest fault now agent r run page s =
     (case poll_consultation r agent run page of
        Inr (Some (c, x)) \<Rightarrow>
          s\<lparr>brLedger := snd (update_consultation shortest fault now
            (case getp r ''dispatchId'' of Str u \<Rightarrow> u | _ \<Rightarrow> []) c (Some x) (brLedger s))\<rparr>
      | _ \<Rightarrow> s)"

text \<open>
  \<open>admission(botId, payload)\<close>: an execution may use a consultation's session only for its run. \<open>owner\<close> is the
  conversation ledger's record of the run.
\<close>

definition consultation_admission ::
  "(jsval \<Rightarrow> int option) \<Rightarrow> time \<Rightarrow> jstr \<Rightarrow> jsval option \<Rightarrow> jsval \<Rightarrow> ledger \<Rightarrow> broker_error + jsval" where
  "consultation_admission date now b owner payload l =
     (case getp payload ''sessionId'' of
        Str u \<Rightarrow>
          if take (length consult_prefix) u \<noteq> consult_prefix then Inr payload
          else
            (case get_consultation l (Str (drop (length consult_prefix) u)) of
               None \<Rightarrow> Inl NoActiveBinding
             | Some r \<Rightarrow>
                 let run_owner = (if is_string (getp payload ''runId'') then owner else None) in
                 if getp r ''targetBotId'' \<noteq> Str b \<or> getp r ''targetSessionId'' \<noteq> Str u \<or>
                   getp r ''targetRunId'' \<noteq> getp payload ''runId'' \<or>
                   (case run_owner of None \<Rightarrow> True
                    | Some x \<Rightarrow> getp x ''botId'' \<noteq> Str b \<or> getp x ''sessionId'' \<noteq> Str u) \<or>
                   \<not> is_active_consultation (Some r) \<or>
                   (case date (getp r ''deadline'') of Some d \<Rightarrow> d \<le> now | None \<Rightarrow> False)
                 then Inl NoActiveBinding else Inr payload)
      | _ \<Rightarrow> Inr payload)"

section \<open>The broker as a machine\<close>

datatype broker_event =
    Begin nat bot_definition bot_definition bool jsval
  | Place nat clock
  | Resolve nat jstr jsval jstr jstr
  | Reserve nat bool "save_point option"
  | Submit nat bool bool jstr "save_point option"
  | Answer nat submit_answer jstr "save_point option"
  | Abandon nat
  | Cancel consultation_status "jstr option" jstr jstr "save_point option"
  | CancelForBot jstr jstr "nat \<Rightarrow> save_point option"
  | CancelAll "jstr list" jstr "nat \<Rightarrow> save_point option"
  | Poll jstr jstr jsval jsval jstr "save_point option"
  | RestartHost
  | LoseFile bool copy

record broker_host =
  bhShortest :: "number \<Rightarrow> jstr"
  bhDate :: "jsval \<Rightarrow> int option"
  bhRealpath :: "jstr \<Rightarrow> jstr option"
  bhKnown :: "jsval \<Rightarrow> jstr option"

definition continue_with :: "nat \<Rightarrow> dispatch \<Rightarrow> broker_error + dispatch_phase \<Rightarrow> broker \<Rightarrow> broker" where
  "continue_with t d r s = (case r of Inl _ \<Rightarrow> drop_dispatch t s | Inr p \<Rightarrow> set_phase t d p s)"

text \<open>
  A step names its dispatch by a number of its own; a step that does not fit its phase does nothing. A host that
  cannot open the ledger would not run; letting it run on with the old memory only adds behaviours.
\<close>

fun broker_step :: "broker_host \<Rightarrow> broker \<Rightarrow> broker_event \<Rightarrow> broker" where
  "broker_step h s (Begin t origin target owns input) =
     (if jm_has (brDispatches s) t then s else snd (begin_dispatch t origin target owns input s))"
| "broker_step h s (Place t clock) =
     (case map_of (brDispatches s) t of
        Some d \<Rightarrow> if dpPhase d = Verifying then continue_with t d (place_dispatch (bhDate h) clock d (brLedger s)) s else s
      | None \<Rightarrow> s)"
| "broker_step h s (Resolve t workspace project uuid now) =
     (case map_of (brDispatches s) t of
        Some d \<Rightarrow>
          (case dpPhase d of
             Resolving _ _ _ _ \<Rightarrow> continue_with t d (resolve_dispatch (bhRealpath h) workspace project uuid now d) s
           | _ \<Rightarrow> s)
      | None \<Rightarrow> s)"
| "broker_step h s (Reserve t aborted fault) =
     (case map_of (brDispatches s) t of
        Some d \<Rightarrow>
          (case dpPhase d of Reserving r \<Rightarrow> reserve_dispatch (bhShortest h) fault aborted t d r s | _ \<Rightarrow> s)
      | None \<Rightarrow> s)"
| "broker_step h s (Submit t bound aborted now fault) =
     (case map_of (brDispatches s) t of
        Some d \<Rightarrow>
          (case dpPhase d of Binding r \<Rightarrow> submit_dispatch (bhShortest h) fault now bound aborted t d r s | _ \<Rightarrow> s)
      | None \<Rightarrow> s)"
| "broker_step h s (Answer t answer now fault) =
     (case map_of (brDispatches s) t of
        Some d \<Rightarrow>
          (case dpPhase d of Answering r \<Rightarrow> snd (answer_dispatch (bhShortest h) fault now answer t r s) | _ \<Rightarrow> s)
      | None \<Rightarrow> s)"
| "broker_step h s (Abandon t) =
     (case map_of (brDispatches s) t of
        Some d \<Rightarrow>
          (case dpPhase d of Binding _ \<Rightarrow> s | Answering _ \<Rightarrow> s | _ \<Rightarrow> drop_dispatch t s)
      | None \<Rightarrow> s)"
| "broker_step h s (Cancel ending caller i now fault) =
     snd (cancel_consultation (bhShortest h) fault now ending caller i s)"
| "broker_step h s (CancelForBot b now fault) = snd (cancel_for_bot (bhShortest h) fault now (bhKnown h) b s)"
| "broker_step h s (CancelAll bots now fault) = snd (cancel_all (bhShortest h) fault now (bhKnown h) bots s)"
| "broker_step h s (Poll i agent run page now fault) =
     (case get_consultation (brLedger s) (Str i) of
        Some r \<Rightarrow> settle_consultation (bhShortest h) fault now agent r run page s
      | None \<Rightarrow> s)"
| "broker_step h s RestartHost =
     \<lparr>brLedger = consultation_step (bhShortest h) (brLedger s) Restart, brGeneration = 0, brBotGeneration = [],
      brDispatches = [], brPosts = brPosts s\<rparr>"
| "broker_step h s (LoseFile primary c) = s\<lparr>brLedger := consultation_step (bhShortest h) (brLedger s) (Lose primary c)\<rparr>"

definition new_broker :: broker where
  "new_broker = \<lparr>brLedger = new_consultations, brGeneration = 0, brBotGeneration = [], brDispatches = [], brPosts = []\<rparr>"

end
