(* ===== verification/ConsultationLedgerFacts.thy ===== *)
theory ConsultationLedgerFacts
  imports ConsultationLedger
begin

text \<open>
  What the consultation ledger keeps: unique identities, the fan-out of a run, the records that were
  acknowledged and those that are settled, over calls, failed writes, restarts and the loss of a file.
\<close>

section \<open>Records\<close>

lemma statuses_clean: "v \<in> set consultation_statuses \<Longrightarrow> json_clean v = v \<and> v \<noteq> Undef"
  by (auto simp: consultation_statuses_def)

lemma typed_row: "typed_consultation r \<Longrightarrow> consultation_row shortest r"
  using string_ids_test [of "elements (getp r ''ancestry'')" shortest]
  by (auto simp: typed_consultation_def consultation_row_def object_wf_record string_id_test
      is_safe_integer_def simp del: js_simps)

lemma typed_getp_clean:
  assumes "typed_consultation r"
  shows "k \<in> {''dispatchId'', ''rootRunId'', ''targetRunId'', ''targetSessionId'', ''targetBotId'',
    ''status'', ''depth''} \<Longrightarrow> getp (json_clean r) k = getp r k"
  using assms by (auto intro!: getp_kept simp: typed_consultation_def string_id_clean statuses_clean)

lemma typed_clean:
  assumes t: "typed_consultation r"
  shows "typed_consultation (json_clean r)"
proof -
  have w: "object_wf r" "object_wf (getp r ''origin'')" and o: "string_id (getp (getp r ''origin'') ''runId'')"
    using t by (auto simp: typed_consultation_def)
  then have "getp r ''origin'' \<noteq> Undef" by (auto simp: object_wf_def)
  then have og: "getp (json_clean r) ''origin'' = json_clean (getp r ''origin'')" using w by (simp add: getp_clean)
  have "getp (json_clean (getp r ''origin'')) ''runId'' = getp (getp r ''origin'') ''runId''"
    using w o by (intro getp_kept) (auto simp: string_id_clean)
  moreover have "getp (json_clean r) ''ancestry'' = Arr (map json_clean (elements (getp r ''ancestry'')))"
    using t w(1) by (cases "getp r ''ancestry''")
      (auto simp: typed_consultation_def is_array_def getp_clean clean_items_map)
  moreover have "map json_clean (elements (getp r ''ancestry'')) = elements (getp r ''ancestry'')"
    using t by (auto simp: typed_consultation_def list_all_iff string_id_clean intro: map_idI)
  moreover have "getp (json_clean r) ''workspacePath'' = getp r ''workspacePath''"
    using t w(1) by (cases "getp r ''workspacePath''")
      (auto simp: typed_consultation_def getp_clean canonical_path_def)
  ultimately show ?thesis
    using t w o og typed_getp_clean [OF t]
    by (auto simp: typed_consultation_def is_array_def simp del: js_simps)
qed

lemma typed_ids:
  assumes "typed_consultation r"
  obtains d t q where "getp r ''dispatchId'' = Str d" "getp r ''targetRunId'' = Str t" "getp r ''rootRunId'' = Str q"
  using assms by (auto simp: typed_consultation_def string_id_Str)

lemma terminal_clean: "typed_consultation r \<Longrightarrow> terminal_consultation (json_clean r) = terminal_consultation r"
  by (simp add: terminal_consultation_def typed_getp_clean)

section \<open>The value of the ledger\<close>

definition records_sound :: "jsval list \<Rightarrow> bool" where
  "records_sound rs \<longleftrightarrow>
     length rs \<le> max_consultations \<and> list_all typed_consultation rs \<and>
     distinct (map (\<lambda>r. getp r ''dispatchId'') rs) \<and> distinct (map (\<lambda>r. getp r ''targetRunId'') rs) \<and>
     (\<forall>q. length (filter (\<lambda>r. strict_equal (getp r ''rootRunId'') q) rs) \<le> 3)"

definition consultations_sound :: "jsval \<Rightarrow> bool" where
  "consultations_sound v \<longleftrightarrow>
     object_wf v \<and> getp v ''version'' = Num (Fin 1) \<and> natural_revision v \<and>
     (\<exists>rs. getp v ''records'' = Arr rs \<and> records_sound rs)"

datatype consultation_fact =
    Identity jsval jsval jsval
  | SettledRecord jsval

definition record_facts :: "jsval list \<Rightarrow> consultation_fact set" where
  "record_facts rs =
     {Identity (getp r ''dispatchId'') (getp r ''targetRunId'') (getp r ''rootRunId'') | r. r \<in> set rs} \<union>
     {SettledRecord (json_clean r) | r. r \<in> set rs \<and> terminal_consultation r}"

definition consultation_facts :: "jsval \<Rightarrow> consultation_fact set" where
  "consultation_facts v = record_facts (elements (getp v ''records''))"

lemma record_facts_Nil [simp]: "record_facts [] = {}"
  by (simp add: record_facts_def)

lemma record_facts_Cons:
  "record_facts (r # rs) =
     insert (Identity (getp r ''dispatchId'') (getp r ''targetRunId'') (getp r ''rootRunId''))
       ((if terminal_consultation r then {SettledRecord (json_clean r)} else {}) \<union> record_facts rs)"
  unfolding record_facts_def by auto

lemma record_facts_append: "record_facts (rs @ us) = record_facts rs \<union> record_facts us"
  by (induction rs) (auto simp: record_facts_Cons)

lemma map_getp_clean:
  "list_all typed_consultation rs \<Longrightarrow>
   k \<in> {''dispatchId'', ''rootRunId'', ''targetRunId''} \<Longrightarrow>
   map (\<lambda>r. getp r k) (map json_clean rs) = map (\<lambda>r. getp r k) rs"
  by (auto simp: list_all_iff typed_getp_clean)

lemma filter_map_clean:
  "list_all typed_consultation rs \<Longrightarrow>
   length (filter (\<lambda>r. strict_equal (getp r ''rootRunId'') q) (map json_clean rs)) =
   length (filter (\<lambda>r. strict_equal (getp r ''rootRunId'') q) rs)"
  by (induction rs) (auto simp: typed_getp_clean)

lemma records_sound_clean: "records_sound rs \<Longrightarrow> records_sound (map json_clean rs)"
  unfolding records_sound_def
  using map_getp_clean [of rs] filter_map_clean [of rs]
  by (auto simp: list_all_iff typed_clean simp del: map_map)

lemma record_facts_clean: "list_all typed_consultation rs \<Longrightarrow> record_facts (map json_clean rs) = record_facts rs"
  by (induction rs) (simp_all add: record_facts_Cons typed_getp_clean terminal_clean)

lemma sound_parts:
  assumes "consultations_sound v"
  obtains n rs where "object_wf v" "getp v ''version'' = Num (Fin 1)"
    "getp v ''revision'' = Num (Fin (of_nat n))" "revision v = of_nat n"
    "getp v ''records'' = Arr rs" "records_sound rs"
  using assms by (auto simp: consultations_sound_def natural_revision_def revision_def)

lemma sound_clean_parts:
  assumes "consultations_sound v"
  shows "getp (json_clean v) ''version'' = getp v ''version''"
    "getp (json_clean v) ''revision'' = getp v ''revision''"
    "getp (json_clean v) ''records'' = Arr (map json_clean (elements (getp v ''records'')))"
  using assms by (auto elim!: sound_parts simp: getp_clean clean_items_map)

lemma consultations_sound_clean: "consultations_sound v \<Longrightarrow> consultations_sound (json_clean v)"
  using sound_clean_parts [of v]
  using natural_revision_same [of v "json_clean v"]
  by (auto simp: consultations_sound_def records_sound_clean)

lemma consultation_facts_clean:
  "consultations_sound v \<Longrightarrow> consultation_facts (json_clean v) = consultation_facts v"
  using sound_clean_parts [of v]
  by (auto elim!: sound_parts simp: consultation_facts_def record_facts_clean records_sound_def)

lemma consultations_sound_file:
  assumes s: "consultations_sound v" and r: "valid_revision v"
  shows "consultation_file shortest (json_clean v)"
proof -
  from consultations_sound_clean [OF s] obtain rs where
    p: "getp (json_clean v) ''version'' = Num (Fin 1)" "getp (json_clean v) ''records'' = Arr rs" "records_sound rs"
    by (auto elim: sound_parts)
  moreover have "valid_revision (json_clean v)"
    using r sound_clean_parts [OF s] by (simp add: valid_revision_def revision_def)
  ultimately show ?thesis
    by (auto simp: consultation_file_def is_array_def records_sound_def list_all_iff typed_row
        intro: all_different_distinct)
qed

interpretation consulted: copied_ledger shortest "consultation_file shortest" max_consultation_bytes
  empty_consultations consultations_sound consultation_facts
  for shortest
proof unfold_locales
  show "consultations_sound empty_consultations"
    by (auto simp: consultations_sound_def empty_consultations_def object_wf_def records_sound_def
        intro: natural_revision_zero)
  show "json_clean empty_consultations = empty_consultations"
    by (simp add: empty_consultations_def)
qed (auto simp: consultations_sound_clean consultation_facts_clean consultations_sound_file revision_def
    sound_clean_parts)

section \<open>The operations\<close>

lemma durable_sound:
  assumes "consulted.durable shortest A s"
  shows "consultations_sound (lgStored s)" "getp (lgStored s) ''records'' = Arr (consultations s)"
    "records_sound (consultations s)" "A \<subseteq> record_facts (consultations s)"
proof -
  show "consultations_sound (lgStored s)" using assms by (rule consulted.durable_holds)
  then show "getp (lgStored s) ''records'' = Arr (consultations s)" "records_sound (consultations s)"
    by (auto elim!: sound_parts simp: consultations_def)
  show "A \<subseteq> record_facts (consultations s)"
    using consulted.durable_holds(1) [OF assms] by (simp add: consultation_facts_def consultations_def)
qed

lemma consultations_set [simp]: "consultations (set_consultations rs s) = rs"
  by (simp add: consultations_def set_consultations_def)

lemma set_consultations_fields [simp]:
  "lgFailed (set_consultations rs s) = lgFailed s" "lgDisk (set_consultations rs s) = lgDisk s"
  by (simp_all add: set_consultations_def)

lemma set_consultations_twice [simp]: "set_consultations rs (set_consultations us s) = set_consultations rs s"
  by (simp add: set_consultations_def)

lemma set_consultations_id:
  "getp (lgStored s) ''records'' = Arr (consultations s) \<Longrightarrow> set_consultations (consultations s) s = s"
  by (cases s) (simp add: set_consultations_def setp_same)

lemma sound_setp:
  assumes "consultations_sound v" "records_sound rs"
  shows "consultations_sound (setp v ''records'' (Arr rs))"
    "revision (setp v ''records'' (Arr rs)) = revision v"
    "consultation_facts (setp v ''records'' (Arr rs)) = record_facts rs"
  using assms
  by (auto simp: consultations_sound_def object_wf_record revision_def consultation_facts_def natural_revision_setp)

lemma sound_bump:
  assumes "consultations_sound v"
  shows "consultations_sound (with_revision v (revision v + 1))"
    "consultation_facts (with_revision v (revision v + 1)) = consultation_facts v"
    "getp (with_revision v (revision v + 1)) ''records'' = getp v ''records''"
  using assms
  by (auto simp: consultations_sound_def natural_revision_bump)
    (auto simp: object_wf_record with_revision_def consultation_facts_def)

lemma durable_set:
  assumes d: "consulted.durable shortest A s" and r: "records_sound rs" and a: "A \<subseteq> record_facts rs"
  shows "consulted.durable shortest A (set_consultations rs s)"
  unfolding set_consultations_def
  using sound_setp [OF durable_sound(1) [OF d] r] a by (intro consulted.durable_memory [OF d]) auto

lemma save_cases:
  obtains e where "save_consultations shortest fault s = (Inl e, s)" "e = NeedsRecovery \<or> e = LedgerFull"
    "e = NeedsRecovery \<longleftrightarrow> lgFailed s"
  | "save_consultations shortest fault s =
       commit_value shortest fault (with_revision (lgStored s) (revision (lgStored s) + 1)) s"
    "\<not> lgFailed s"
    "pretty_bytes shortest (with_revision (lgStored s) (revision (lgStored s) + 1)) + 1 \<le> max_consultation_bytes"
proof (cases "lgFailed s")
  case True
  then show thesis using that(1) by (simp add: save_consultations_def)
next
  case False
  let ?v = "with_revision (lgStored s) (revision (lgStored s) + 1)"
  show thesis
  proof (cases "max_consultations < length (elements (getp ?v ''records'')) \<or>
      max_consultation_bytes < pretty_bytes shortest ?v + 1")
    case True
    then show thesis using False that(1) by (simp add: save_consultations_def Let_def)
  next
    case okay: False
    then have "save_consultations shortest fault s = commit_value shortest fault ?v s"
      using False by (simp add: save_consultations_def Let_def)
    with okay False show thesis using that(2) by simp
  qed
qed

lemma save_admits:
  assumes "consultations_sound (lgStored s)" "\<not> lgFailed s"
    "pretty_bytes shortest (with_revision (lgStored s) (revision (lgStored s) + 1)) + 1 \<le> max_consultation_bytes"
  shows "consulted.admits shortest s (with_revision (lgStored s) (revision (lgStored s) + 1))"
  using assms sound_bump [of "lgStored s"] by (simp add: consulted.admits_def)

text \<open>A save after the records were replaced in memory, returned or taken back.\<close>

lemma durable_save:
  assumes d: "consulted.durable shortest A s" and r: "records_sound us"
    and f: "record_facts (consultations s) \<subseteq> record_facts us"
    and sv: "save_consultations shortest fault (set_consultations us s) = (res, t)"
  shows "consultations t = us"
    and "res = Inr () \<Longrightarrow> consulted.durable shortest (record_facts us) t"
    and "consulted.durable shortest A t"
    and "consulted.durable shortest A (set_consultations (consultations s) t)"
proof -
  let ?u = "set_consultations us s"
  have a: "A \<subseteq> record_facts (consultations s)" using durable_sound [OF d] by simp
  have u: "consulted.durable shortest A ?u" using d r f a by (intro durable_set) auto
  have c: "consultations t = us \<and> (res = Inr () \<longrightarrow> consulted.durable shortest (record_facts us) t) \<and> consulted.durable shortest A t"
  proof (rule save_cases [of shortest fault ?u])
    fix e assume "save_consultations shortest fault ?u = (Inl e, ?u)"
    with sv u show ?thesis by auto
  next
    let ?v = "with_revision (lgStored ?u) (revision (lgStored ?u) + 1)"
    assume cv: "save_consultations shortest fault ?u = commit_value shortest fault ?v ?u"
      and "\<not> lgFailed ?u" "pretty_bytes shortest ?v + 1 \<le> max_consultation_bytes"
    then have ad: "consulted.admits shortest ?u ?v" using durable_sound(1) [OF u] by (intro save_admits)
    have fv: "consultation_facts ?v = record_facts us"
      using sound_bump(2) [OF durable_sound(1) [OF u]] by (simp add: consultation_facts_def flip: consultations_def)
    have rt: "commit_value shortest fault ?v ?u = (res, t)" using cv sv by simp
    have "consultations t = us"
    proof (cases res)
      case (Inl e)
      then show ?thesis using rt consulted.commit_stored(2) [of shortest fault ?v ?u e]
        by (simp add: consultations_def set_consultations_def)
    next
      case (Inr x)
      then have "lgStored t = ?v" using rt consulted.commit_stored(1) [of shortest fault ?v ?u] by simp
      then show ?thesis using sound_bump(3) [OF durable_sound(1) [OF u]]
        by (simp add: consultations_def) (metis consultations_def consultations_set)
    qed
    moreover have "consulted.durable shortest A t" using consulted.durable_commit(1) [OF u ad, of fault] rt by simp
    moreover have "res = Inr () \<longrightarrow> consulted.durable shortest (record_facts us) t"
      using consulted.durable_commit(2) [OF u ad, of fault] rt fv by simp
    ultimately show ?thesis by blast
  qed
  then show "consultations t = us" "res = Inr () \<Longrightarrow> consulted.durable shortest (record_facts us) t"
    "consulted.durable shortest A t" by blast+
  then show "consulted.durable shortest A (set_consultations (consultations s) t)"
    using durable_sound [OF d] by (intro durable_set) auto
qed

section \<open>New and changed records\<close>

lemma records_sound_snoc:
  assumes r: "records_sound rs" and t: "typed_consultation r" and n: "length rs < max_consultations"
    and d: "getp r ''dispatchId'' \<notin> (\<lambda>r. getp r ''dispatchId'') ` set rs"
    and u: "getp r ''targetRunId'' \<notin> (\<lambda>r. getp r ''targetRunId'') ` set rs"
    and c: "length (filter (\<lambda>x. strict_equal (getp x ''rootRunId'') (getp r ''rootRunId'')) rs) < 3"
  shows "records_sound (rs @ [r])"
proof -
  have "length (filter (\<lambda>r. strict_equal (getp r ''rootRunId'') q) (rs @ [r])) \<le> 3" for q
    using r c by (auto simp: records_sound_def strict_equal_def)
  then show ?thesis using r t n d u by (auto simp: records_sound_def)
qed

lemma index_where_Some: "index_where P xs = Some k \<Longrightarrow> k < length xs \<and> P (xs ! k)"
  by (induction xs arbitrary: k) (auto split: if_splits)

lemma index_where_None: "index_where P xs = None \<longleftrightarrow> (\<forall>x \<in> set xs. \<not> P x)"
  by (induction xs) auto

lemma next_consultation_kept:
  assumes "typed_consultation r"
  shows "k \<in> {''dispatchId'', ''rootRunId'', ''targetRunId'', ''targetSessionId'', ''targetBotId'',
      ''workspacePath'', ''origin'', ''ancestry'', ''depth''} \<Longrightarrow>
    getp (next_consultation status now result r) k = getp r k"
    and "getp (next_consultation status now result r) ''status'' = Str (consultation_status_text status)"
    and "object_wf (next_consultation status now result r)"
  using assms object_wf_record [of r]
  by (auto simp: next_consultation_def Let_def typed_consultation_def split: option.splits)

lemma status_known: "Str (consultation_status_text status) \<in> set consultation_statuses"
  by (cases status) (simp_all add: consultation_statuses_def del: js_simps)

lemma typed_next: "typed_consultation r \<Longrightarrow> typed_consultation (next_consultation status now result r)"
  using next_consultation_kept(1) [of r _ status now result] next_consultation_kept(2,3) [of r status now result]
    status_known [of status]
  by (simp add: typed_consultation_def)

lemma map_update_same: "k < length xs \<Longrightarrow> f y = f (xs ! k) \<Longrightarrow> map f (xs[k := y]) = map f xs"
  by (metis list_update_id map_update)

lemma list_all_update: "list_all P xs \<Longrightarrow> P y \<Longrightarrow> list_all P (xs[k := y])"
  by (induction xs arbitrary: k) (auto split: nat.splits)

lemma filter_length_map: "map P xs = map P ys \<Longrightarrow> length (filter P xs) = length (filter P ys)"
proof -
  have "length (filter P zs) = length (filter id (map P zs))" for zs by (induction zs) auto
  then show "map P xs = map P ys \<Longrightarrow> ?thesis" by metis
qed

lemma records_sound_update:
  assumes r: "records_sound rs" and k: "k < length rs"
  shows "records_sound (rs[k := next_consultation status now result (rs ! k)])"
proof -
  let ?y = "next_consultation status now result (rs ! k)"
  have t: "typed_consultation (rs ! k)" using r k by (auto simp: records_sound_def list_all_length)
  have m: "map (\<lambda>r. f (getp r j)) (rs[k := ?y]) = map (\<lambda>r. f (getp r j)) rs"
    if "j \<in> {''dispatchId'', ''rootRunId'', ''targetRunId''}" for j and f :: "jsval \<Rightarrow> 'x"
    using k that next_consultation_kept(1) [OF t, of j] by (intro map_update_same) auto
  have "length (filter (\<lambda>r. strict_equal (getp r ''rootRunId'') q) (rs[k := ?y])) =
      length (filter (\<lambda>r. strict_equal (getp r ''rootRunId'') q) rs)" for q
    using m [of "''rootRunId''" "\<lambda>v. strict_equal v q"] by (intro filter_length_map) simp
  moreover have "list_all typed_consultation (rs[k := ?y])"
    using r typed_next [OF t] by (auto simp: records_sound_def intro: list_all_update)
  ultimately show ?thesis
    using r m [of "''dispatchId''" id] m [of "''targetRunId''" id] by (simp add: records_sound_def)
qed

lemma record_facts_update:
  assumes k: "k < length rs" and t: "typed_consultation (rs ! k)" and n: "\<not> terminal_consultation (rs ! k)"
  shows "record_facts rs \<subseteq> record_facts (rs[k := next_consultation status now result (rs ! k)])"
proof -
  let ?y = "next_consultation status now result (rs ! k)"
  have s: "rs = take k rs @ rs ! k # drop (Suc k) rs" using k by (rule id_take_nth_drop)
  have "record_facts rs \<subseteq> record_facts (take k rs) \<union> record_facts (?y # drop (Suc k) rs)"
    by (subst s) (use t n next_consultation_kept(1) [OF t, of _ status now result] in
      \<open>auto simp: record_facts_append record_facts_Cons\<close>)
  then show ?thesis using k by (simp add: upd_conv_take_nth_drop record_facts_append)
qed

section \<open>The steps\<close>

text \<open>
  Both operations replace the records in memory by \<open>us\<close>, save, return \<open>x\<close> when the save returned and
  put the old records back when it threw.
\<close>

definition replaced ::
  "(number \<Rightarrow> jstr) \<Rightarrow> save_point option \<Rightarrow> jsval list \<Rightarrow> jsval \<Rightarrow> ledger \<Rightarrow> consultation_error + jsval \<Rightarrow> ledger \<Rightarrow> bool" where
  "replaced shortest fault us x s res s' \<longleftrightarrow>
     records_sound us \<and> record_facts (consultations s) \<subseteq> record_facts us \<and>
     (\<exists>sr u. save_consultations shortest fault (set_consultations us s) = (sr, u) \<and>
       (case sr of Inr _ \<Rightarrow> res = Inr x \<and> s' = u
        | Inl e \<Rightarrow> res = Inl (LedgerError e) \<and> s' = set_consultations (consultations s) u))"

lemma replacedI:
  "records_sound us \<Longrightarrow> record_facts (consultations s) \<subseteq> record_facts us \<Longrightarrow>
   save_consultations shortest fault (set_consultations us s) = (sr, u) \<Longrightarrow>
   (res, s') = (case sr of Inr _ \<Rightarrow> (Inr x, u) | Inl e \<Rightarrow> (Inl (LedgerError e), set_consultations (consultations s) u)) \<Longrightarrow>
   replaced shortest fault us x s res s'"
  unfolding replaced_def by (cases sr) auto

lemma durable_replaced:
  assumes d: "consulted.durable shortest A s" and r: "replaced shortest fault us x s res s'"
  shows "consulted.durable shortest A s'"
    and "res = Inr y \<Longrightarrow> y = x \<and> consultations s' = us \<and> consulted.durable shortest (record_facts us) s'"
    and "res = Inl e \<Longrightarrow> consultations s' = consultations s"
proof -
  from r obtain sr u where rs: "records_sound us" "record_facts (consultations s) \<subseteq> record_facts us"
    and sv: "save_consultations shortest fault (set_consultations us s) = (sr, u)"
    and res: "case sr of Inr _ \<Rightarrow> res = Inr x \<and> s' = u
      | Inl e \<Rightarrow> res = Inl (LedgerError e) \<and> s' = set_consultations (consultations s) u"
    unfolding replaced_def by blast
  note dv = durable_save [OF d rs sv]
  show "consulted.durable shortest A s'" using dv(3,4) res by (cases sr) simp_all
  show "res = Inr y \<Longrightarrow> y = x \<and> consultations s' = us \<and> consulted.durable shortest (record_facts us) s'"
    using dv(1,2) res by (cases sr) simp_all
  show "res = Inl e \<Longrightarrow> consultations s' = consultations s" using res by (cases sr) simp_all
qed

lemma prepare_shape:
  assumes d: "consulted.durable shortest A s" and t: "typed_consultation r"
    and p: "prepare_consultation shortest fault r s = (res, s')"
  shows "isl res \<and> s' = s \<or> replaced shortest fault (consultations s @ [r]) r s res s'"
proof (cases "get_consultation s (getp r ''dispatchId'') \<noteq> None \<or> by_target_run s (getp r ''targetRunId'') \<noteq> None \<or>
    3 \<le> count_root s (getp r ''rootRunId'')")
  case True
  with p show ?thesis by (auto simp: prepare_consultation_def split: if_splits)
next
  case False
  let ?us = "consultations s @ [r]"
  obtain sr u where sv: "save_consultations shortest fault (set_consultations ?us s) = (sr, u)" by fastforce
  have res: "(res, s') = (case sr of Inr _ \<Rightarrow> (Inr r, u)
      | Inl e \<Rightarrow> (Inl (LedgerError e), set_consultations (butlast (consultations u)) u))"
    using p False sv by (auto simp: prepare_consultation_def split: sum.splits)
  show ?thesis
  proof (cases "length (consultations s) < max_consultations")
    case True
    from t obtain i j q where ids: "getp r ''dispatchId'' = Str i" "getp r ''targetRunId'' = Str j" by (rule typed_ids)
    have rs: "records_sound ?us"
      using False ids t True durable_sound(3) [OF d] unfolding count_root_def get_consultation_def by_target_run_def
      by (intro records_sound_snoc) (auto simp: find_None_iff)
    have f: "record_facts (consultations s) \<subseteq> record_facts ?us" by (simp add: record_facts_append)
    have undo: "butlast (consultations u) = consultations s" using durable_save(1) [OF d rs f sv] by simp
    show ?thesis by (rule disjI2) (rule replacedI [OF rs f sv res [unfolded undo]])
  next
    case full: False
    then have "\<exists>e. sr = Inl e" "u = set_consultations ?us s"
      using sv by (auto simp: save_consultations_def Let_def with_revision_def set_consultations_def split: if_splits)
    with res set_consultations_id [OF durable_sound(2) [OF d]] show ?thesis by auto
  qed
qed

lemma update_shape:
  assumes d: "consulted.durable shortest A s"
    and p: "update_consultation shortest fault now i status result s = (res, s')"
  shows "isl res \<and> s' = s \<or>
    (\<exists>us x. replaced shortest fault us x s res s' \<and> x \<in> set us \<and> getp x ''dispatchId'' = Str i \<and>
      getp x ''status'' = Str (consultation_status_text status))"
proof (cases "index_where (\<lambda>r. strict_equal (getp r ''dispatchId'') (Str i)) (consultations s)")
  case None
  with p show ?thesis by (auto simp: update_consultation_def)
next
  case (Some k)
  let ?c = "consultations s ! k"
  let ?y = "next_consultation status now result ?c"
  let ?us = "(consultations s)[k := ?y]"
  from index_where_Some [OF Some] have k: "k < length (consultations s)" "getp ?c ''dispatchId'' = Str i" by auto
  have t: "typed_consultation ?c" using durable_sound(3) [OF d] k by (auto simp: records_sound_def list_all_length)
  show ?thesis
  proof (cases "terminal_consultation ?c")
    case True
    with p Some show ?thesis by (auto simp: update_consultation_def)
  next
    case False
    obtain sr u where sv: "save_consultations shortest fault (set_consultations ?us s) = (sr, u)" by fastforce
    have res: "(res, s') = (case sr of Inr _ \<Rightarrow> (Inr ?y, u)
        | Inl e \<Rightarrow> (Inl (LedgerError e), set_consultations ((consultations u)[k := ?c]) u))"
      using p False Some sv by (auto simp: update_consultation_def Let_def split: sum.splits)
    have rs: "records_sound ?us" using durable_sound(3) [OF d] k(1) by (rule records_sound_update)
    have f: "record_facts (consultations s) \<subseteq> record_facts ?us" using k(1) t False by (rule record_facts_update)
    have undo: "(consultations u)[k := ?c] = consultations s" using durable_save(1) [OF d rs f sv] by simp
    have "replaced shortest fault ?us ?y s res s'" by (rule replacedI [OF rs f sv res [unfolded undo]])
    moreover have "?y \<in> set ?us" using k(1) by (simp add: set_update_memI)
    moreover have "getp ?y ''dispatchId'' = Str i" "getp ?y ''status'' = Str (consultation_status_text status)"
      using k(2) next_consultation_kept(1) [OF t, of "''dispatchId''"] next_consultation_kept(2) [OF t] by simp_all
    ultimately show ?thesis by blast
  qed
qed

lemma durable_prepare:
  assumes d: "consulted.durable shortest A s" and t: "typed_consultation r"
    and p: "prepare_consultation shortest fault r s = (res, s')"
  shows "consulted.durable shortest A s'"
    and "res = Inr x \<Longrightarrow> x = r \<and> consultations s' = consultations s @ [r] \<and>
      consulted.durable shortest (record_facts (consultations s')) s'"
  using prepare_shape [OF d t p] durable_replaced [OF d] d by (auto simp: isl_def)

lemma durable_update:
  assumes d: "consulted.durable shortest A s"
    and p: "update_consultation shortest fault now i status result s = (res, s')"
  shows "consulted.durable shortest A s'"
    and "res = Inr x \<Longrightarrow> x \<in> set (consultations s') \<and> getp x ''dispatchId'' = Str i \<and>
      getp x ''status'' = Str (consultation_status_text status) \<and>
      consulted.durable shortest (record_facts (consultations s')) s'"
  using update_shape [OF d p] durable_replaced [OF d] d by (fastforce simp: isl_def)+

lemma durable_step:
  assumes d: "consulted.durable shortest A s" and e: "typed_event e"
  shows "consulted.durable shortest A (consultation_step shortest s e)"
proof (cases e)
  case (Prepare r fault)
  with e d show ?thesis using durable_prepare(1) [OF d, of r fault] by (cases "prepare_consultation shortest fault r s") simp
next
  case (Update i status result now fault)
  with d show ?thesis using durable_update(1) [OF d] by (cases "update_consultation shortest fault now i status result s") simp
next
  case Restart
  with d show ?thesis
    by (auto simp: open_consultations_def intro: consulted.durable_open split: sum.splits)
next
  case (Lose primary c)
  with d show ?thesis by (simp add: consulted.durable_lose)
qed

lemma durable_run:
  "consulted.durable shortest A s \<Longrightarrow> list_all typed_event es \<Longrightarrow>
   consulted.durable shortest A (foldl (consultation_step shortest) s es)"
  by (rule foldl_invariant) (auto simp: durable_step list_all_iff)

lemma durable_new: "consulted.durable shortest {} new_consultations"
  unfolding new_consultations_def by (rule consulted.durable_initial)

end
