(* ===== verification/ConsultationRecovery.thy ===== *)
theory ConsultationRecovery
  imports ConsultationLedgerFacts
begin

text \<open>
  The promises of the consultation ledger over whole lives: what was acknowledged stays known, what is
  settled stays as it is, a run fans out to at most three consultations, and a restart finds the last value
  or the one whose write was cut off.
\<close>

section \<open>Finding a record again\<close>

lemma get_found:
  assumes s: "records_sound (consultations s)" and r: "r \<in> set (consultations s)"
  shows "get_consultation s (getp r ''dispatchId'') = Some r"
proof -
  have "typed_consultation r" using s r by (auto simp: records_sound_def list_all_iff)
  then obtain d t q where d: "getp r ''dispatchId'' = Str d" by (rule typed_ids)
  have u: "distinct (map (\<lambda>r. getp r ''dispatchId'') (consultations s))" using s by (simp add: records_sound_def)
  show ?thesis
    unfolding get_consultation_def
  proof (rule find_unique [OF r])
    show "strict_equal (getp r ''dispatchId'') (getp r ''dispatchId'')" by (simp add: d)
  next
    fix y assume y: "y \<in> set (consultations s)" "strict_equal (getp y ''dispatchId'') (getp r ''dispatchId'')"
    show "y = r" by (rule distinct_map_eq [OF u, OF r y(1) strict_equalD [OF y(2)]])
  qed
qed

lemma index_where_found: "find P xs = Some x \<Longrightarrow> \<exists>k. index_where P xs = Some k \<and> xs ! k = x"
  by (induction xs) (auto split: if_splits)

lemma identity_found:
  assumes d: "consulted.durable shortest A s" and i: "Identity d t q \<in> A"
  shows "\<exists>y. get_consultation s d = Some y \<and> getp y ''targetRunId'' = t \<and> getp y ''rootRunId'' = q"
proof -
  from durable_sound(4) [OF d] i obtain r where "r \<in> set (consultations s)"
    "d = getp r ''dispatchId''" "t = getp r ''targetRunId''" "q = getp r ''rootRunId''"
    by (auto simp: record_facts_def)
  with get_found [OF durable_sound(3) [OF d]] show ?thesis by auto
qed

lemma settled_found:
  assumes d: "consulted.durable shortest A s" and i: "SettledRecord (json_clean x) \<in> A" and x: "typed_consultation x"
  shows "\<exists>y. get_consultation s (getp x ''dispatchId'') = Some y \<and> json_clean y = json_clean x \<and> terminal_consultation y"
proof -
  from durable_sound(4) [OF d] i obtain r where r: "r \<in> set (consultations s)"
    "json_clean r = json_clean x" "terminal_consultation r"
    by (auto simp: record_facts_def)
  then have "typed_consultation r" using durable_sound(3) [OF d] by (auto simp: records_sound_def list_all_iff)
  then have "getp r ''dispatchId'' = getp x ''dispatchId''"
    using typed_getp_clean [of r "''dispatchId''"] typed_getp_clean [OF x, of "''dispatchId''"] r(2) by simp
  with get_found [OF durable_sound(3) [OF d] r(1)] r show ?thesis by auto
qed

section \<open>Starting again\<close>

text \<open>
  After \<open>n\<close> calls without loss: the files open, to what memory holds unless a write failed.
\<close>

definition recoverable :: "(number \<Rightarrow> jstr) \<Rightarrow> nat \<Rightarrow> ledger \<Rightarrow> bool" where
  "recoverable shortest n s \<longleftrightarrow>
     consulted.durable shortest {} s \<and> revision (lgStored s) \<le> of_nat n \<and>
     (\<exists>v. open_consultations shortest (lgDisk s) = Inr v \<and> revision v \<le> of_nat n \<and> json_clean v = v \<and>
       (\<not> lgFailed s \<longrightarrow> v = json_clean (lgStored s)))"

lemma recoverable_mono: "recoverable shortest m s \<Longrightarrow> m \<le> n \<Longrightarrow> recoverable shortest n s"
proof -
  assume r: "recoverable shortest m s" and "m \<le> n"
  then have le: "(of_nat m :: rat) \<le> of_nat n" by simp
  from r obtain v where v: "open_consultations shortest (lgDisk s) = Inr v" "revision v \<le> of_nat m"
    "json_clean v = v" "\<not> lgFailed s \<longrightarrow> v = json_clean (lgStored s)"
    and s: "consulted.durable shortest {} s" "revision (lgStored s) \<le> of_nat m"
    unfolding recoverable_def by blast
  have "revision v \<le> of_nat n" "revision (lgStored s) \<le> of_nat n" using v(2) s(2) le by linarith+
  with v s show ?thesis unfolding recoverable_def by blast
qed

lemma sound_valid_revision:
  "consultations_sound v \<Longrightarrow> revision v \<le> of_nat n \<Longrightarrow> n < 2 ^ 53 \<Longrightarrow> valid_revision v"
  by (auto simp: consultations_sound_def intro: natural_valid_revision)

lemma recoverable_memory:
  assumes "recoverable shortest n s" "lgFailed s" "consultations_sound v" "revision v = revision (lgStored s)"
  shows "recoverable shortest n (s\<lparr>lgStored := v\<rparr>)"
  using assms by (simp add: recoverable_def consulted.durable_memory)

lemma commit_disk: "lgDisk (snd (commit_value shortest fault v s)) = write_copies fault (file_of shortest v) (lgDisk s)"
  by (simp add: commit_value_def Let_def split: option.splits)

lemma commit_cases:
  obtains "fault = None" "commit_value shortest fault v s =
      (Inr (), s\<lparr>lgStored := v, lgDisk := write_copies fault (file_of shortest v) (lgDisk s)\<rparr>)"
  | p where "fault = Some p" "commit_value shortest fault v s =
      (Inl (WriteFailed p), s\<lparr>lgFailed := True, lgDisk := write_copies fault (file_of shortest v) (lgDisk s)\<rparr>)"
  by (cases fault) (simp_all add: commit_value_def Let_def)

lemma recoverable_commit:
  assumes d: "consulted.durable shortest {} u" and v: "consulted.admits shortest u v"
    and o: "open_consultations shortest (lgDisk u) = Inr w" "revision w \<le> of_nat n" "json_clean w = w"
    and r: "revision (lgStored u) \<le> of_nat n" and n: "Suc n < 2 ^ 53"
  shows "recoverable shortest (Suc n) (snd (commit_value shortest fault v u))"
proof -
  have s: "consultations_sound v" and rv: "revision v \<le> of_nat (Suc n)" using v r by (auto simp: consulted.admits_def)
  have vr: "valid_revision v" using s rv n by (rule sound_valid_revision)
  note cr = consulted.commit_recovers [OF d o(1) [unfolded open_consultations_def] v vr, of fault]
  have dt: "consulted.durable shortest {} (snd (commit_value shortest fault v u))"
    by (rule consulted.durable_commit(1) [OF d v])
  have rc: "revision (json_clean v) \<le> of_nat (Suc n)"
    using rv sound_clean_parts(2) [OF s] by (simp add: revision_def)
  show ?thesis
  proof (rule commit_cases [of fault shortest v u])
    assume f: "fault = None" and c: "commit_value shortest fault v u =
      (Inr (), u\<lparr>lgStored := v, lgDisk := write_copies fault (file_of shortest v) (lgDisk u)\<rparr>)"
    have "open_consultations shortest (lgDisk (snd (commit_value shortest fault v u))) = Inr (json_clean v)"
      using cr(2) [OF f] c by (simp add: consulted.settled_def open_consultations_def)
    with dt rv rc c show ?thesis by (simp add: recoverable_def)
  next
    fix p assume c: "commit_value shortest fault v u =
      (Inl (WriteFailed p), u\<lparr>lgFailed := True, lgDisk := write_copies fault (file_of shortest v) (lgDisk u)\<rparr>)"
    have "\<exists>x. open_consultations shortest (lgDisk (snd (commit_value shortest fault v u))) = Inr x \<and>
        revision x \<le> of_nat (Suc n) \<and> json_clean x = x"
      using cr(1) o(2,3) rc by (auto simp: open_consultations_def)
    with dt r c show ?thesis by (auto simp: recoverable_def)
  qed
qed

lemma recoverable_replaced:
  assumes r: "recoverable shortest n s" and x: "replaced shortest fault us x s res s'" and n: "Suc n < 2 ^ 53"
  shows "recoverable shortest (Suc n) s'"
    and "\<not> lgFailed s \<Longrightarrow> \<exists>v. open_consultations shortest (lgDisk s') = Inr v \<and>
      elements (getp v ''records'') \<in> {map json_clean (consultations s), map json_clean us}"
proof -
  from r obtain w where wf: "\<not> lgFailed s \<longrightarrow> w = json_clean (lgStored s)" and d: "consulted.durable shortest {} s" and rs: "revision (lgStored s) \<le> of_nat n"
    and w: "open_consultations shortest (lgDisk s) = Inr w" "revision w \<le> of_nat n" "json_clean w = w"
    by (auto simp: recoverable_def)
  from x obtain sr u where us: "records_sound us" "record_facts (consultations s) \<subseteq> record_facts us"
    and sv: "save_consultations shortest fault (set_consultations us s) = (sr, u)"
    and res: "case sr of Inr _ \<Rightarrow> s' = u | Inl e \<Rightarrow> s' = set_consultations (consultations s) u"
    unfolding replaced_def by (metis (no_types, lifting) sum.case_eq_if)
  let ?u = "set_consultations us s"
  have du: "consulted.durable shortest {} ?u" using d us by (intro durable_set) auto
  have ru: "revision (lgStored ?u) = revision (lgStored s)"
    using sound_setp(2) [OF durable_sound(1) [OF d] us(1)] by (simp add: set_consultations_def)
  have undo: "setp (lgStored s) ''records'' (Arr (consultations s)) = lgStored s"
    using durable_sound(2) [OF d] by (rule setp_same) simp
  have old: "\<not> lgFailed s \<Longrightarrow> elements (getp w ''records'') = map json_clean (consultations s)"
    using wf sound_clean_parts(3) [OF durable_sound(1) [OF d]] by (simp add: consultations_def)
  have "recoverable shortest (Suc n) s' \<and> (\<not> lgFailed s \<longrightarrow> (\<exists>v. open_consultations shortest (lgDisk s') = Inr v \<and>
      elements (getp v ''records'') \<in> {map json_clean (consultations s), map json_clean us}))"
  proof (rule save_cases [of shortest fault ?u])
    fix e assume "save_consultations shortest fault ?u = (Inl e, ?u)"
    then have "s' = s" using sv res undo by (auto simp: set_consultations_def)
    with r old w(1) show ?thesis by (auto intro: recoverable_mono)
  next
    let ?v = "with_revision (lgStored ?u) (revision (lgStored ?u) + 1)"
    assume cv: "save_consultations shortest fault ?u = commit_value shortest fault ?v ?u"
      and a: "\<not> lgFailed ?u" "pretty_bytes shortest ?v + 1 \<le> max_consultation_bytes"
    have ad: "consulted.admits shortest ?u ?v" using durable_sound(1) [OF du] a by (rule save_admits)
    have "snd (commit_value shortest fault ?v ?u) = u" using cv sv by (metis snd_conv)
    then have rec: "recoverable shortest (Suc n) u"
      using recoverable_commit [OF du ad, of w n fault] w rs ru n by simp
    have vv: "consultations_sound ?v" "revision ?v \<le> of_nat (Suc n)" "getp ?v ''records'' = Arr us"
      using sound_bump(1,3) [OF durable_sound(1) [OF du]] rs ru by (auto simp: set_consultations_def)
    have disk: "lgDisk s' = lgDisk u" using res by (cases sr) simp_all
    have "open_consultations shortest (lgDisk u) \<in> {Inr w, Inr (json_clean ?v)}"
      using consulted.commit_recovers(1) [OF du _ ad sound_valid_revision [OF vv(1,2) n], of w fault] w(1)
        \<open>snd _ = u\<close> by (simp add: open_consultations_def)
    then have new: "\<not> lgFailed s \<longrightarrow> (\<exists>v. open_consultations shortest (lgDisk s') = Inr v \<and>
        elements (getp v ''records'') \<in> {map json_clean (consultations s), map json_clean us})"
      using old vv sound_clean_parts(3) [OF vv(1)] by (auto simp: disk)
    have "recoverable shortest (Suc n) s'"
    proof (cases sr)
      case (Inr y)
      with res rec show ?thesis by simp
    next
      case (Inl e)
      with cv sv have u: "lgFailed u" "lgStored u = lgStored ?u"
        by (auto simp: commit_value_def Let_def split: option.splits)
      have "s' = u\<lparr>lgStored := lgStored s\<rparr>"
        using res Inl u(2) undo by (simp add: set_consultations_def)
      moreover have "recoverable shortest (Suc n) (u\<lparr>lgStored := lgStored s\<rparr>)"
        using rec u(1) durable_sound(1) [OF d] ru u(2) by (intro recoverable_memory) auto
      ultimately show ?thesis by simp
    qed
    with new show ?thesis by blast
  qed
  then show "recoverable shortest (Suc n) s'"
    and "\<not> lgFailed s \<Longrightarrow> \<exists>v. open_consultations shortest (lgDisk s') = Inr v \<and>
      elements (getp v ''records'') \<in> {map json_clean (consultations s), map json_clean us}"
    by blast+
qed

fun keeps_files :: "consultation_event \<Rightarrow> bool" where
  "keeps_files (Lose primary c) = False"
| "keeps_files e = True"

lemma recoverable_step:
  assumes r: "recoverable shortest n s" and e: "typed_event e" "keeps_files e" and n: "Suc n < 2 ^ 53"
  shows "recoverable shortest (Suc n) (consultation_step shortest s e)"
proof (cases e)
  case (Prepare x fault)
  obtain res s' where p: "prepare_consultation shortest fault x s = (res, s')" by fastforce
  have "isl res \<and> s' = s \<or> replaced shortest fault (consultations s @ [x]) x s res s'"
    by (rule prepare_shape [OF _ _ p]) (use r e Prepare in \<open>auto simp: recoverable_def\<close>)
  with r n p Prepare show ?thesis by (auto intro: recoverable_replaced(1) recoverable_mono)
next
  case (Update i status result now fault)
  obtain res s' where p: "update_consultation shortest fault now i status result s = (res, s')" by fastforce
  have "isl res \<and> s' = s \<or> (\<exists>us x. replaced shortest fault us x s res s')"
    using update_shape [OF _ p] r by (auto simp: recoverable_def)
  with r n p Update show ?thesis by (auto intro: recoverable_replaced(1) recoverable_mono)
next
  case Restart
  from r obtain v where d: "consulted.durable shortest {} s"
    and v: "open_consultations shortest (lgDisk s) = Inr v" "revision v \<le> of_nat n" "json_clean v = v"
    by (auto simp: recoverable_def)
  have "consulted.durable shortest {} (s\<lparr>lgStored := v, lgFailed := False\<rparr>)"
    using d v(1) by (auto simp: open_consultations_def intro: consulted.durable_open)
  with v Restart show ?thesis by (auto simp: recoverable_def)
next
  case (Lose primary c)
  with e show ?thesis by simp
qed

lemma recoverable_run:
  "recoverable shortest n s \<Longrightarrow> list_all typed_event es \<Longrightarrow> list_all keeps_files es \<Longrightarrow> n + length es < 2 ^ 53 \<Longrightarrow>
   recoverable shortest (n + length es) (foldl (consultation_step shortest) s es)"
proof (induction es arbitrary: n s)
  case (Cons e es)
  then have "recoverable shortest (Suc n) (consultation_step shortest s e)" by (intro recoverable_step) auto
  with Cons show ?case by fastforce
qed simp

lemma recoverable_new: "recoverable shortest 0 new_consultations"
proof -
  have "open_consultations shortest (lgDisk new_consultations) = Inr empty_consultations"
    by (simp add: open_consultations_def open_copies_def new_consultations_def read_copy_def copy_value_def)
  moreover have "json_clean empty_consultations = empty_consultations" "revision empty_consultations = 0"
    by (simp_all add: empty_consultations_def revision_def)
  ultimately show ?thesis
    using durable_new by (simp add: recoverable_def) (simp add: new_consultations_def)
qed

section \<open>Properties\<close>

lemma update_terminal:
  assumes "get_consultation s (Str i) = Some y" "terminal_consultation y"
  shows "update_consultation shortest fault now i status result s = (Inl ConsultationTerminal, s)"
proof -
  obtain k where "index_where (\<lambda>r. strict_equal (getp r ''dispatchId'') (Str i)) (consultations s) = Some k"
    "consultations s ! k = y"
    using index_where_found [OF assms(1) [unfolded get_consultation_def]] by auto
  with assms(2) show ?thesis by (simp add: update_consultation_def)
qed

text \<open>
  C13: A consultation whose \<open>prepare\<close> returned is known ever after with the same run and root, and its
  dispatch identifier is refused a second time, whatever calls, failed writes, restarts and losses of
  one file follow.
\<close>

lemma acknowledged_consultation_kept:
  assumes "list_all typed_event es" "list_all typed_event fs" "typed_consultation r"
    and "prepare_consultation shortest fault r (foldl (consultation_step shortest) new_consultations es) = (Inr x, s)"
  shows "(\<exists>y. get_consultation (foldl (consultation_step shortest) s fs) (getp r ''dispatchId'') = Some y \<and>
      getp y ''targetRunId'' = getp r ''targetRunId'' \<and> getp y ''rootRunId'' = getp r ''rootRunId'') \<and>
    prepare_consultation shortest fault' (setp r' ''dispatchId'' (getp r ''dispatchId''))
      (foldl (consultation_step shortest) s fs) =
      (Inl IdentityExists, foldl (consultation_step shortest) s fs)"
proof -
  have d: "consulted.durable shortest {} (foldl (consultation_step shortest) new_consultations es)"
    using durable_new assms(1) by (rule durable_run)
  have "consulted.durable shortest (record_facts (consultations s)) s \<and> r \<in> set (consultations s)"
    using durable_prepare(2) [OF d assms(3,4)] by auto
  then have "consulted.durable shortest (record_facts (consultations s)) (foldl (consultation_step shortest) s fs)"
    and "Identity (getp r ''dispatchId'') (getp r ''targetRunId'') (getp r ''rootRunId'') \<in> record_facts (consultations s)"
    using assms(2) by (auto simp: durable_run record_facts_def)
  from identity_found [OF this] show ?thesis by (auto simp: prepare_consultation_def)
qed

text \<open>
  C14: A consultation that an update settled keeps its record, result included, and refuses every further
  update, whatever calls, failed writes, restarts and losses of one file follow.
\<close>

lemma settled_consultation_final:
  assumes "list_all typed_event es" "list_all typed_event fs" "status \<notin> {CsPrepared, CsAccepted}"
    and "update_consultation shortest fault now i status result
      (foldl (consultation_step shortest) new_consultations es) = (Inr x, s)"
  shows "(\<exists>y. get_consultation (foldl (consultation_step shortest) s fs) (Str i) = Some y \<and> json_clean y = json_clean x) \<and>
    update_consultation shortest fault' now' i status' result' (foldl (consultation_step shortest) s fs) =
      (Inl ConsultationTerminal, foldl (consultation_step shortest) s fs)"
proof -
  have d: "consulted.durable shortest {} (foldl (consultation_step shortest) new_consultations es)"
    using durable_new assms(1) by (rule durable_run)
  have x: "x \<in> set (consultations s)" "getp x ''dispatchId'' = Str i"
    "getp x ''status'' = Str (consultation_status_text status)"
    and ds: "consulted.durable shortest (record_facts (consultations s)) s"
    using durable_update(2) [OF d assms(4)] by auto
  have t: "typed_consultation x" using durable_sound(3) [OF ds] x(1) by (auto simp: records_sound_def list_all_iff)
  have "terminal_consultation x"
    using assms(3) x(3) by (cases status) (simp_all add: terminal_consultation_def del: js_simps)
  then have "SettledRecord (json_clean x) \<in> record_facts (consultations s)" using x(1) by (auto simp: record_facts_def)
  with settled_found [OF durable_run [OF ds assms(2)] _ t] x(2) update_terminal show ?thesis by force
qed


text \<open>
  After any calls, failed writes, restarts and losses of one file, the identifiers of the records are distinct and
  no run has started more than three consultations.
\<close>

lemma consultation_fan_out_bounded:
  assumes "list_all typed_event es"
  shows "distinct (map (\<lambda>r. getp r ''dispatchId'') (consultations (foldl (consultation_step shortest) new_consultations es))) \<and>
    distinct (map (\<lambda>r. getp r ''targetRunId'') (consultations (foldl (consultation_step shortest) new_consultations es))) \<and>
    count_root (foldl (consultation_step shortest) new_consultations es) q \<le> 3"
  using durable_sound(3) [OF durable_run [OF durable_new assms]] by (auto simp: records_sound_def count_root_def)

section \<open>A concrete life\<close>

definition sample_consultation :: "jstr \<Rightarrow> jsval" where
  "sample_consultation d =
     Obj [(''dispatchId'', Str d), (''rootRunId'', Str (js ''q'')), (''targetRunId'', Str d),
       (''targetSessionId'', Str d), (''targetBotId'', Str (js ''b'')),
       (''origin'', Obj [(''runId'', Str (js ''q''))]),
       (''ancestry'', Arr [Str (js ''a'')]), (''depth'', Num (Fin 1)),
       (''status'', Str (js ''prepared''))]"

lemma typed_sample: "id_text d \<Longrightarrow> typed_consultation (sample_consultation d)"
  by (simp add: typed_consultation_def sample_consultation_def object_wf_def string_id_def id_text_def
      is_array_def consultation_statuses_def alphanumeric_def)

lemma id_text_sample: "id_text (js ''d'')"
  by (simp add: id_text_def alphanumeric_def)

lemma getp_sample: "getp (sample_consultation d) ''dispatchId'' = Str d"
  by (simp add: sample_consultation_def)

definition one_consultation :: "rat \<Rightarrow> jsval \<Rightarrow> jsval" where
  "one_consultation n r =
     Obj [(''version'', Num (Fin 1)), (''revision'', Num (Fin n)), (''records'', Arr [r])]"

definition one_ledger :: "(number \<Rightarrow> jstr) \<Rightarrow> rat \<Rightarrow> jsval \<Rightarrow> ledger" where
  "one_ledger shortest n r =
     \<lparr>lgStored = one_consultation n r, lgFailed = False,
      lgDisk = write_copies None (file_of shortest (one_consultation n r)) \<lparr>cpPrimary = Missing, cpBackup = Missing\<rparr>\<rparr>"

lemma weight_fits: "json_weight shortest 0 v \<le> 3000 \<Longrightarrow> pretty_bytes shortest v + 1 \<le> max_consultation_bytes"
  using pretty_bytes_bound [of shortest v] by (simp add: max_consultation_bytes_def)

lemma one_prepared:
  assumes "json_weight shortest 0 (one_consultation 1 r) \<le> 3000"
  shows "prepare_consultation shortest None r new_consultations = (Inr r, one_ledger shortest 1 r)"
  using weight_fits [OF assms]
  by (simp add: prepare_consultation_def get_consultation_def by_target_run_def count_root_def consultations_def
      new_consultations_def empty_consultations_def set_consultations_def save_consultations_def
      max_consultations_def with_revision_def revision_def setp_def commit_value_def Let_def one_ledger_def
      one_consultation_def)

lemma one_updated:
  assumes "json_weight shortest 0 (one_consultation 2 (next_consultation status now result r)) \<le> 3000"
    and "getp r ''dispatchId'' = Str i" "\<not> terminal_consultation r"
  shows "update_consultation shortest None now i status result (one_ledger shortest 1 r) =
    (Inr (next_consultation status now result r), one_ledger shortest 2 (next_consultation status now result r))"
  using weight_fits [OF assms(1)] assms(2,3)
  by (simp add: update_consultation_def consultations_def set_consultations_def save_consultations_def
      max_consultations_def with_revision_def revision_def setp_def commit_value_def Let_def one_ledger_def
      one_consultation_def write_copies_def del: js_simps)

lemma sample_prepared:
  "prepare_consultation shortest None (sample_consultation (js ''d'')) new_consultations =
   (Inr (sample_consultation (js ''d'')), one_ledger shortest 1 (sample_consultation (js ''d'')))"
  by (rule one_prepared) (simp add: sample_consultation_def one_consultation_def number_text_small)

lemma sample_settled:
  "update_consultation shortest None (js ''now'') (js ''d'') CsCancelled None
     (one_ledger shortest 1 (sample_consultation (js ''d''))) =
   (Inr (next_consultation CsCancelled (js ''now'') None (sample_consultation (js ''d''))),
    one_ledger shortest 2 (next_consultation CsCancelled (js ''now'') None (sample_consultation (js ''d''))))"
proof (rule one_updated)
  show "json_weight shortest 0 (one_consultation 2 (next_consultation CsCancelled (js ''now'') None
      (sample_consultation (js ''d'')))) \<le> 3000"
    by (simp add: sample_consultation_def one_consultation_def number_text_small next_consultation_def setp_def)
qed (simp_all add: getp_sample terminal_consultation_def sample_consultation_def)

lemma acknowledged_consultation_kept_witness:
  "(\<exists>y. get_consultation (foldl (consultation_step (\<lambda>_. []))
        (one_ledger (\<lambda>_. []) 1 (sample_consultation (js ''d''))) [Lose True Damaged, Restart])
      (getp (sample_consultation (js ''d'')) ''dispatchId'') = Some y)"
  using acknowledged_consultation_kept [of "[]" "[Lose True Damaged, Restart]" "sample_consultation (js ''d'')"
      "\<lambda>_. []" None "sample_consultation (js ''d'')" "one_ledger (\<lambda>_. []) 1 (sample_consultation (js ''d''))"]
    sample_prepared [of "\<lambda>_. []"] typed_sample [OF id_text_sample]
  by auto

lemma settled_consultation_final_witness:
  "(\<exists>y. get_consultation (foldl (consultation_step (\<lambda>_. []))
        (one_ledger (\<lambda>_. []) 2 (next_consultation CsCancelled (js ''now'') None (sample_consultation (js ''d''))))
        [Restart]) (Str (js ''d'')) = Some y)"
proof -
  have "typed_event (Prepare (sample_consultation (js ''d'')) None)" using typed_sample [OF id_text_sample] by simp
  moreover have "update_consultation (\<lambda>_. []) None (js ''now'') (js ''d'') CsCancelled None
      (foldl (consultation_step (\<lambda>_. [])) new_consultations [Prepare (sample_consultation (js ''d'')) None]) =
     (Inr (next_consultation CsCancelled (js ''now'') None (sample_consultation (js ''d''))),
      one_ledger (\<lambda>_. []) 2 (next_consultation CsCancelled (js ''now'') None (sample_consultation (js ''d''))))"
    using sample_settled [of "\<lambda>_. []"] sample_prepared [of "\<lambda>_. []"] by (simp del: js_simps)
  ultimately show ?thesis
    using settled_consultation_final [where es = "[Prepare (sample_consultation (js ''d'')) None]" and fs = "[Restart]"
        and status = CsCancelled and shortest = "\<lambda>_. []"] by fastforce
qed


lemma consultation_fan_out_bounded_witness:
  "count_root (foldl (consultation_step (\<lambda>_. [])) new_consultations
     [Prepare (sample_consultation (js ''d'')) None, Prepare (sample_consultation (js ''d'')) (Some AtBackup), Restart])
     (Str (js ''q'')) \<le> 3"
  using consultation_fan_out_bounded [of
      "[Prepare (sample_consultation (js ''d'')) None, Prepare (sample_consultation (js ''d'')) (Some AtBackup), Restart]"
      "\<lambda>_. []" "Str (js ''q'')"] typed_sample [OF id_text_sample]
  by simp

section \<open>A record without identifiers\<close>

definition bare_record :: jsval where
  "bare_record = Obj [(''ancestry'', Arr []), (''depth'', Num (Fin 1)), (''status'', Str (js ''prepared''))]"

text \<open>
  A record without any identifier and without \<open>origin\<close> passes the guard, because \<open>RegExp.test\<close> reads an absent
  property as the word \<open>undefined\<close>; listing the consultations of any bot then throws a \<open>TypeError\<close>.
\<close>

lemma bare_record_accepted:
  "open_consultations shortest \<lparr>cpPrimary = Copy 200 (one_consultation 1 bare_record), cpBackup = Missing\<rparr> =
     Inr (one_consultation 1 bare_record) \<and>
   active_for_bot \<lparr>lgStored = one_consultation 1 bare_record, lgFailed = False, lgDisk = d\<rparr> (js ''b'') = Inl ReadOfUndefined"
proof -
  have i: "id_text (js ''undefined'')" by (simp add: id_text_def alphanumeric_def)
  have "consultation_row shortest bare_record"
    using i by (simp add: consultation_row_def bare_record_def is_record_def id_test_def is_array_def
        is_safe_integer_def consultation_statuses_def del: js_simps)
  then have "consultation_file shortest (one_consultation 1 bare_record)"
    by (simp add: consultation_file_def one_consultation_def valid_revision_def is_safe_integer_def revision_def
        is_array_def max_consultations_def)
  moreover have "id_text (js ''b'')" by (simp add: id_text_def alphanumeric_def)
  ultimately show ?thesis
    by (simp add: open_consultations_def open_copies_def read_copy_def copy_value_def max_consultation_bytes_def
        active_for_bot_def consultations_def) (simp add: one_consultation_def bare_record_def)
qed

end
