(* ===== verification/ConsultationBrokerFacts.thy ===== *)
theory ConsultationBrokerFacts
  imports ConsultationBroker ConsultationRecovery
begin

text \<open>
  What the broker guarantees over every interleaving of dispatches, cancellations, results, failed writes,
  restarts and the loss of one ledger file: permissions shrink from the origin to the target, a dispatch is sent at most once,
  and what was cancelled is not sent.
\<close>

section \<open>Permissions\<close>

lemma common_segments_le: "common_segments l r \<le> length l" "common_segments l r \<le> length r"
  by (induction l r rule: common_segments.induct) auto

lemma common_segments_take: "take (common_segments l r) l = take (common_segments l r) r"
  by (induction l r rule: common_segments.induct) auto

lemma join_texts_first: "\<exists>u. join_texts sep (t # ts) = t @ u"
  by (cases ts) auto

lemma path_within_prefix:
  assumes "path_within p q"
  shows "prefix (resolve_segments [] (split_path p)) (resolve_segments [] (split_path q))"
proof -
  let ?l = "resolve_segments [] (split_path p)" and ?r = "resolve_segments [] (split_path q)"
  let ?n = "common_segments ?l ?r"
  have "length ?l \<le> ?n"
  proof (rule ccontr)
    assume "\<not> length ?l \<le> ?n"
    then obtain k where "length ?l - ?n = Suc k" by (metis Suc_diff_Suc not_le)
    then have "relative_to p q = join_texts [47] ([46, 46] # replicate k [46, 46] @ drop ?n ?r)"
      by (simp add: relative_to_def Let_def)
    then obtain u where "relative_to p q = [46, 46] @ u" using join_texts_first by metis
    with assms show False by (simp add: path_within_def)
  qed
  then have "?n = length ?l" using common_segments_le(1) [of ?l ?r] by simp
  then have "?l = take (length ?l) ?r" using common_segments_take [of ?l ?r] by simp
  then show ?thesis by (metis take_is_prefix)
qed

lemma canonical_paths_set: "canonical_paths realpath ps = Some qs \<Longrightarrow> set qs = {q. \<exists>p \<in> set ps. realpath p = Some q}"
proof -
  have e: "set (first_of_each xs) = set xs" for xs :: "'x list" by (induction xs) auto
  have "real_paths realpath ps = Some rs \<Longrightarrow> set rs = {q. \<exists>p \<in> set ps. realpath p = Some q}" for rs
    by (induction ps arbitrary: rs) (auto split: option.splits)
  then show "canonical_paths realpath ps = Some qs \<Longrightarrow> ?thesis" by (auto simp: canonical_paths_def e)
qed

text \<open>
  The permissions of a consultation never exceed the origin's: without a workspace of the
  conversation every path lies in the tree of a real path of the origin, a bot other than the lead gives only its own
  connections and tools, and mutation and delegation need the origin's own.
\<close>

lemma consultation_permissions_shrink:
  assumes "effective_permissions realpath origin target workspace = Inr p"
  shows "(case workspace of
      Some w \<Rightarrow> bpPaths p = [w]
    | None \<Rightarrow> \<forall>q \<in> set (bpPaths p). \<exists>g \<in> set (bpPaths (bdPermissions origin)). \<exists>r. realpath g = Some r \<and>
        prefix (resolve_segments [] (split_path r)) (resolve_segments [] (split_path q))) \<and>
    (bdDefault origin \<or>
      set (bpConnections p) \<subseteq> set (bpConnections (bdPermissions origin)) \<and>
      set (bpTools p) \<subseteq> set (bpTools (bdPermissions origin))) \<and>
    (bpMutation p \<le> bpMutation (bdPermissions origin)) \<and> (bpDelegation p \<le> bpDelegation (bdPermissions origin))"
proof -
  from assms obtain paths where t: "target_paths realpath origin target workspace = Inr paths"
    by (auto simp: effective_permissions_def Let_def split: sum.splits)
  with assms have p: "bpPaths p = paths"
    "bdDefault origin \<or> set (bpConnections p) \<subseteq> set (bpConnections (bdPermissions origin))"
    "bdDefault origin \<or> set (bpTools p) \<subseteq> set (bpTools (bdPermissions origin))"
    "bpMutation p \<le> bpMutation (bdPermissions origin)" "bpDelegation p \<le> bpDelegation (bdPermissions origin)"
    by (auto simp: effective_permissions_def Let_def list_ex_iff split: if_splits)
  have "case workspace of Some w \<Rightarrow> paths = [w]
    | None \<Rightarrow> \<forall>q \<in> set paths. \<exists>g \<in> set (bpPaths (bdPermissions origin)). \<exists>r. realpath g = Some r \<and>
        prefix (resolve_segments [] (split_path r)) (resolve_segments [] (split_path q))"
  proof (cases workspace)
    case None
    then obtain os where o: "canonical_paths realpath (bpPaths (bdPermissions origin)) = Some os"
      and i: "\<forall>q \<in> set paths. \<exists>r \<in> set os. path_within r q"
      using t by (auto simp: target_paths_def list_ex_iff split: option.splits if_splits)
    then show ?thesis using canonical_paths_set [OF o] path_within_prefix None by fastforce
  qed (use t in \<open>simp add: target_paths_def\<close>)
  with p show ?thesis by auto
qed

section \<open>Ledger facts under the broker's calls\<close>

lemma durable_union:
  assumes "consulted.durable shortest A s" "consulted.durable shortest B s"
  shows "consulted.durable shortest (A \<union> B) s"
  using assms by (auto simp: consulted.durable_def consulted.held_def Let_def split: copy.splits)

lemma durable_update_any:
  "consulted.durable shortest A l \<Longrightarrow>
   consulted.durable shortest A (snd (update_consultation shortest fault now i ending result l))"
  using durable_update(1) [of shortest A l fault now i ending result]
  by (cases "update_consultation shortest fault now i ending result l") auto

lemma cancel_ledger:
  "snd (cancel_consultation shortest fault now ending caller i s) = s \<or>
   snd (cancel_consultation shortest fault now ending caller i s) =
     s\<lparr>brLedger := snd (update_consultation shortest fault now i ending None (brLedger s))\<rparr>"
  by (cases "update_consultation shortest fault now i ending None (brLedger s)")
    (auto simp: cancel_consultation_def split: option.splits sum.splits)

text \<open>A step that changes the ledger by updates only, and nothing else but generations.\<close>

definition ledger_only :: "(number \<Rightarrow> jstr) \<Rightarrow> broker \<Rightarrow> broker \<Rightarrow> bool" where
  "ledger_only shortest s t \<longleftrightarrow>
     brDispatches t = brDispatches s \<and> brPosts t = brPosts s \<and> brGeneration t = brGeneration s \<and>
     brBotGeneration t = brBotGeneration s \<and>
     (\<forall>A. consulted.durable shortest A (brLedger s) \<longrightarrow> consulted.durable shortest A (brLedger t))"

lemma ledger_only_refl: "ledger_only shortest s s"
  by (simp add: ledger_only_def)

lemma ledger_only_trans: "ledger_only shortest s t \<Longrightarrow> ledger_only shortest t u \<Longrightarrow> ledger_only shortest s u"
  by (simp add: ledger_only_def)

lemma ledger_only_update:
  "ledger_only shortest s (s\<lparr>brLedger := snd (update_consultation shortest fault now i ending result (brLedger s))\<rparr>)"
  by (simp add: ledger_only_def durable_update_any)

lemma ledger_only_cancel: "ledger_only shortest s (snd (cancel_consultation shortest fault now ending caller i s))"
  using cancel_ledger [of shortest fault now ending caller i s] ledger_only_update ledger_only_refl by metis

lemma ledger_only_each: "ledger_only shortest s (cancel_records shortest fault now known rs s)"
  by (induction shortest fault now known rs s rule: cancel_records.induct)
    (auto intro: ledger_only_refl ledger_only_trans ledger_only_cancel)

lemma ledger_only_settle: "ledger_only shortest s (settle_consultation shortest fault now agent r run page s)"
  by (auto simp: settle_consultation_def intro: ledger_only_update ledger_only_refl split: sum.splits option.splits)

section \<open>The invariant\<close>

definition dispatch_id :: "jsval \<Rightarrow> jsval" where
  "dispatch_id r = getp r ''dispatchId''"

definition fact_of :: "jsval \<Rightarrow> consultation_fact" where
  "fact_of r = Identity (dispatch_id r) (getp r ''targetRunId'') (getp r ''rootRunId'')"

definition binding :: "broker \<Rightarrow> nat \<Rightarrow> jsval \<Rightarrow> bool" where
  "binding s t r \<longleftrightarrow> (\<exists>d. map_of (brDispatches s) t = Some d \<and> dpPhase d = Binding r)"

definition record_of :: "dispatch \<Rightarrow> jsval \<Rightarrow> bool" where
  "record_of d r \<longleftrightarrow> typed_consultation r \<and> getp r ''targetBotId'' = Str (bdId (dpTarget d)) \<and>
     getp (getp r ''origin'') ''botId'' = Str (bdId (dpOrigin d)) \<and>
     getp r ''targetBotId'' \<notin> set (elements (getp r ''ancestry''))"

definition input_typed :: "bot_definition \<Rightarrow> bot_definition \<Rightarrow> jsval \<Rightarrow> bool" where
  "input_typed origin target input \<longleftrightarrow>
     object_wf (getp input ''origin'') \<and> string_id (getp (getp input ''origin'') ''runId'') \<and>
     id_text (bdId origin) \<and> id_text (bdId target)"

definition dispatch_typed :: "dispatch \<Rightarrow> bool" where
  "dispatch_typed d \<longleftrightarrow>
     input_typed (dpOrigin d) (dpTarget d) (dpInput d) \<and>
     getp (getp (dpInput d) ''origin'') ''botId'' = Str (bdId (dpOrigin d)) \<and>
     (case dpPhase d of
        Verifying \<Rightarrow> True
      | Resolving root_run parent ancestry depth \<Rightarrow>
          string_id root_run \<and> list_all string_id ancestry \<and> depth \<in> {1, 2} \<and>
          Str (bdId (dpTarget d)) \<notin> set ancestry
      | Reserving r \<Rightarrow> record_of d r
      | Binding r \<Rightarrow> record_of d r
      | Answering r \<Rightarrow> True)"

definition known_facts :: "broker \<Rightarrow> consultation_fact set" where
  "known_facts s = fact_of ` set (brPosts s) \<union> {fact_of r | t r. binding s t r}"

definition broker_inv :: "(number \<Rightarrow> jstr) \<Rightarrow> broker \<Rightarrow> bool" where
  "broker_inv shortest s \<longleftrightarrow>
     consulted.durable shortest (known_facts s) (brLedger s) \<and>
     distinct (map dispatch_id (brPosts s)) \<and>
     (\<forall>t r. binding s t r \<longrightarrow> dispatch_id r \<notin> dispatch_id ` set (brPosts s)) \<and>
     (\<forall>t u r x. binding s t r \<longrightarrow> binding s u x \<longrightarrow> t \<noteq> u \<longrightarrow> dispatch_id r \<noteq> dispatch_id x) \<and>
     (\<forall>t d. map_of (brDispatches s) t = Some d \<longrightarrow> dispatch_typed d) \<and>
     (\<forall>r \<in> set (brPosts s). typed_consultation r \<and> getp r ''targetBotId'' \<notin> set (elements (getp r ''ancestry'')))"

lemma record_of_phase [simp]: "record_of (d\<lparr>dpPhase := p\<rparr>) r = record_of d r"
  by (simp add: record_of_def)

text \<open>What the registry, the workspace check and the random identifier provide.\<close>

fun typed_broker_event :: "broker_event \<Rightarrow> bool" where
  "typed_broker_event (Begin t origin target owns input) = input_typed origin target input"
| "typed_broker_event (Resolve t workspace project uuid now) =
     (canonical_path (Str workspace) \<and> id_text uuid \<and> id_text (consult_prefix @ uuid))"
| "typed_broker_event e = True"

lemma drop_dispatch_fields [simp]:
  "map_of (brDispatches (drop_dispatch t s)) u = (if u = t then None else map_of (brDispatches s) u)"
  "brLedger (drop_dispatch t s) = brLedger s" "brPosts (drop_dispatch t s) = brPosts s"
  "brGeneration (drop_dispatch t s) = brGeneration s" "brBotGeneration (drop_dispatch t s) = brBotGeneration s"
  by (simp_all add: drop_dispatch_def)

lemma set_phase_fields [simp]:
  "map_of (brDispatches (set_phase t d p s)) u = (if u = t then Some (d\<lparr>dpPhase := p\<rparr>) else map_of (brDispatches s) u)"
  "brLedger (set_phase t d p s) = brLedger s" "brPosts (set_phase t d p s) = brPosts s"
  "brGeneration (set_phase t d p s) = brGeneration s" "brBotGeneration (set_phase t d p s) = brBotGeneration s"
  by (simp_all add: set_phase_def)

lemma binding_simps [simp]:
  "binding (drop_dispatch t s) u r \<longleftrightarrow> u \<noteq> t \<and> binding s u r"
  "binding (set_phase t d p s) u r \<longleftrightarrow> (if u = t then p = Binding r else binding s u r)"
  "binding (s\<lparr>brLedger := l\<rparr>) u r \<longleftrightarrow> binding s u r"
  "binding (s\<lparr>brPosts := ps\<rparr>) u r \<longleftrightarrow> binding s u r"
  by (auto simp: binding_def)

text \<open>A step that sends nothing and reserves nothing.\<close>

lemma inv_smaller:
  assumes i: "broker_inv shortest s" and p: "brPosts u = brPosts s"
    and l: "\<And>A. consulted.durable shortest A (brLedger s) \<Longrightarrow> consulted.durable shortest A (brLedger u)"
    and b: "\<And>t r. binding u t r \<Longrightarrow> binding s t r"
    and d: "\<And>t d. map_of (brDispatches u) t = Some d \<Longrightarrow> dispatch_typed d"
  shows "broker_inv shortest u"
proof -
  have "known_facts u \<subseteq> known_facts s" using p b by (auto simp: known_facts_def)
  moreover have "consulted.durable shortest (known_facts s) (brLedger u)" using i l by (simp add: broker_inv_def)
  ultimately have 1: "consulted.durable shortest (known_facts u) (brLedger u)" by (rule consulted.durable_mono [rotated])
  have 2: "\<forall>t r. binding u t r \<longrightarrow> dispatch_id r \<notin> dispatch_id ` set (brPosts u)"
    "\<forall>t v r x. binding u t r \<longrightarrow> binding u v x \<longrightarrow> t \<noteq> v \<longrightarrow> dispatch_id r \<noteq> dispatch_id x"
    using i p by (auto simp: broker_inv_def dest!: b)
  show ?thesis using i 1 2 d p unfolding broker_inv_def by auto
qed

lemma inv_typed: "broker_inv shortest s \<Longrightarrow> map_of (brDispatches s) t = Some d \<Longrightarrow> dispatch_typed d"
  by (simp add: broker_inv_def)

lemma inv_drop:
  assumes i: "broker_inv shortest s" and l: "\<And>A. consulted.durable shortest A (brLedger s) \<Longrightarrow> consulted.durable shortest A l"
  shows "broker_inv shortest (drop_dispatch t (s\<lparr>brLedger := l\<rparr>))"
  by (rule inv_smaller [OF i]) (auto simp: l intro: inv_typed [OF i] split: if_splits)

lemma inv_ledger_only: "broker_inv shortest s \<Longrightarrow> ledger_only shortest s u \<Longrightarrow> broker_inv shortest u"
  by (simp add: broker_inv_def ledger_only_def binding_def known_facts_def)

lemma inv_set_phase:
  assumes i: "broker_inv shortest s" and p: "dispatch_typed (d\<lparr>dpPhase := p\<rparr>)" "\<And>r. p \<noteq> Binding r"
  shows "broker_inv shortest (set_phase t d p s)"
  by (rule inv_smaller [OF i]) (auto simp: p intro: inv_typed [OF i] split: if_splits)

lemma ledger_has_fact:
  assumes "consulted.durable shortest A l" "fact_of r \<in> A"
  shows "\<exists>x \<in> set (consultations l). dispatch_id x = dispatch_id r \<and> getp x ''rootRunId'' = getp r ''rootRunId''"
proof -
  have "fact_of r \<in> record_facts (consultations l)" using durable_sound(4) [OF assms(1)] assms(2) by blast
  then show ?thesis by (auto simp: record_facts_def fact_of_def dispatch_id_def)
qed

lemma prepared_fresh:
  assumes d: "consulted.durable shortest A l" and r: "typed_consultation r"
    and p: "prepare_consultation shortest fault r l = (Inr x, l')" and f: "fact_of y \<in> A"
  shows "dispatch_id y \<noteq> dispatch_id r"
proof
  assume e: "dispatch_id y = dispatch_id r"
  obtain z where z: "z \<in> set (consultations l)" "dispatch_id z = dispatch_id y" using ledger_has_fact [OF d f] by blast
  have "get_consultation l (dispatch_id z) = Some z"
    unfolding dispatch_id_def by (rule get_found [OF durable_sound(3) [OF d] z(1)])
  with p e z(2) show False by (simp add: prepare_consultation_def dispatch_id_def)
qed

lemma inv_reserve:
  assumes i: "broker_inv shortest s" and m: "map_of (brDispatches s) t = Some d" "dpPhase d = Reserving r"
  shows "broker_inv shortest (reserve_dispatch shortest fault aborted t d r s)"
proof -
  have dt: "dispatch_typed d" using i m(1) by (simp add: broker_inv_def)
  then have ro: "record_of d r" using m(2) by (simp add: dispatch_typed_def)
  then have ty: "typed_consultation r" by (simp add: record_of_def)
  have du: "consulted.durable shortest (known_facts s) (brLedger s)" using i by (simp add: broker_inv_def)
  obtain res l where p: "prepare_consultation shortest fault r (brLedger s) = (res, l)" by fastforce
  have keep: "consulted.durable shortest A (brLedger s) \<Longrightarrow> consulted.durable shortest A l" for A
    using durable_prepare(1) [OF _ ty p] .
  show ?thesis
  proof (cases res)
    case (Inl e)
    with p inv_drop [OF i keep, of t] inv_drop [OF i, of "brLedger s" t] show ?thesis by (simp add: reserve_dispatch_def)
  next
    case (Inr x)
    have new: "consulted.durable shortest (record_facts (consultations l)) l" "consultations l = consultations (brLedger s) @ [r]"
      using durable_prepare(2) [OF du ty p Inr] by auto
    have fresh: "fact_of y \<in> known_facts s \<Longrightarrow> dispatch_id y \<noteq> dispatch_id r" for y
      using prepared_fresh [OF du ty _ , of fault x l y] p Inr by simp
    let ?u = "set_phase t d (Binding r) (s\<lparr>brLedger := l\<rparr>)"
    have "fact_of r \<in> record_facts (consultations l)" using new(2) by (auto simp: record_facts_def fact_of_def dispatch_id_def)
    moreover have "known_facts ?u \<subseteq> insert (fact_of r) (known_facts s)" by (auto simp: known_facts_def split: if_splits)
    moreover have "known_facts s \<subseteq> record_facts (consultations l)"
      using durable_sound(4) [OF du] new(2) by (auto simp: record_facts_append)
    ultimately have "known_facts ?u \<subseteq> record_facts (consultations l)" by blast
    then have 1: "consulted.durable shortest (known_facts ?u) l" using new(1) by (rule consulted.durable_mono [rotated])
    have posts: "dispatch_id r \<notin> dispatch_id ` set (brPosts s)" using fresh by (fastforce simp: known_facts_def)
    have binds: "dispatch_id y \<noteq> dispatch_id r" if "binding s v y" for v y using fresh that by (auto simp: known_facts_def)
    have ty': "dispatch_typed (d\<lparr>dpPhase := Binding r\<rparr>)"
      using dt ro by (simp add: dispatch_typed_def)
    have "broker_inv shortest ?u"
      using i 1 posts binds ty' unfolding broker_inv_def by (auto split: if_splits) metis+
    with p Inr inv_drop [OF i, of "brLedger s" t] show ?thesis by (simp add: reserve_dispatch_def)
  qed
qed

lemma inv_fail: "broker_inv shortest s \<Longrightarrow> broker_inv shortest (fail_dispatch shortest fault now t i s)"
  using inv_drop [of shortest s "brLedger s" t]
  by (auto simp: fail_dispatch_def intro!: inv_drop durable_update_any)

lemma inv_submit:
  assumes i: "broker_inv shortest s" and m: "map_of (brDispatches s) t = Some d" "dpPhase d = Binding r"
  shows "broker_inv shortest (submit_dispatch shortest fault now bound aborted t d r s)"
proof -
  let ?u = "set_phase t d (Answering r) (s\<lparr>brPosts := brPosts s @ [r]\<rparr>)"
  have b: "binding s t r" using m by (auto simp: binding_def)
  have dt: "dispatch_typed d" using i m(1) by (simp add: broker_inv_def)
  have "known_facts ?u \<subseteq> known_facts s" using b by (auto simp: known_facts_def split: if_splits)
  then have 1: "consulted.durable shortest (known_facts ?u) (brLedger s)"
    using i by (auto simp: broker_inv_def intro: consulted.durable_mono)
  have 2: "dispatch_typed (d\<lparr>dpPhase := Answering r\<rparr>)" using dt by (simp add: dispatch_typed_def)
  have 3: "record_of d r" using dt m(2) by (simp add: dispatch_typed_def)
  have new: "dispatch_id r \<notin> dispatch_id ` set (brPosts s)" using i b by (auto simp: broker_inv_def)
  have other: "dispatch_id x \<noteq> dispatch_id r" if "binding s v x" "v \<noteq> t" for v x
    using i b that unfolding broker_inv_def by blast
  have "broker_inv shortest ?u"
    using i 1 2 3 new other unfolding broker_inv_def by (auto simp: record_of_def split: if_splits)
  then show ?thesis using inv_fail [OF i] by (simp add: submit_dispatch_def)
qed

lemma inv_answer:
  assumes i: "broker_inv shortest s"
  shows "broker_inv shortest (snd (answer_dispatch shortest fault now answer t r s))"
proof -
  have e: "(drop_dispatch t s)\<lparr>brLedger := l\<rparr> = drop_dispatch t (s\<lparr>brLedger := l\<rparr>)" for l by (simp add: drop_dispatch_def)
  have "broker_inv shortest (drop_dispatch t s)" using inv_drop [OF i, of "brLedger s" t] by simp
  moreover have "broker_inv shortest (drop_dispatch t (s\<lparr>brLedger :=
      snd (update_consultation shortest fault now j c None (brLedger s))\<rparr>))" for j c
    by (rule inv_drop [OF i]) (rule durable_update_any)
  ultimately show ?thesis
    by (auto simp: answer_dispatch_def Let_def e split: submit_answer.splits prod.splits sum.splits) (metis snd_conv)+
qed

lemma begin_typed:
  assumes "check_dispatch origin target owns input = Inr ()" "input_typed origin target input"
  shows "dispatch_typed \<lparr>dpInput = input, dpOrigin = origin, dpTarget = target, dpGeneration = g,
    dpOriginGeneration = a, dpTargetGeneration = b, dpPhase = Verifying\<rparr>"
  using assms by (simp add: dispatch_typed_def check_dispatch_def Let_def split: if_splits)

lemma parent_typed:
  assumes "consulted.durable shortest A l" "by_target_run l run = Some p"
  shows "typed_consultation p"
proof -
  have "p \<in> set (consultations l)" using assms(2) by (auto simp: by_target_run_def find_Some_iff)
  with durable_sound(3) [OF assms(1)] show ?thesis by (auto simp: records_sound_def list_all_iff)
qed

lemma place_typed:
  assumes d: "dispatch_typed d" and l: "consulted.durable shortest A l" and p: "place_dispatch date clock d l = Inr q"
  shows "dispatch_typed (d\<lparr>dpPhase := q\<rparr>)" "q \<noteq> Binding r"
proof -
  have i: "input_typed (dpOrigin d) (dpTarget d) (dpInput d)"
    "getp (getp (dpInput d) ''origin'') ''botId'' = Str (bdId (dpOrigin d))" using d by (auto simp: dispatch_typed_def)
  have "\<exists>root_run parent ancestry depth. q = Resolving root_run parent ancestry depth \<and> string_id root_run \<and>
      list_all string_id ancestry \<and> depth \<in> {1, 2} \<and> Str (bdId (dpTarget d)) \<notin> set ancestry"
  proof (cases "by_target_run l (getp (getp (dpInput d) ''origin'') ''runId'')")
    case None
    with p i show ?thesis
      by (auto simp: place_dispatch_def Let_def input_typed_def string_id_def split: if_splits)
  next
    case (Some x)
    have "typed_consultation x" using l Some by (rule parent_typed)
    then have "string_id (getp x ''rootRunId'')" "list_all string_id (elements (getp x ''ancestry''))"
      "string_id (getp x ''targetBotId'')" by (simp_all add: typed_consultation_def)
    with p Some show ?thesis by (auto simp: place_dispatch_def Let_def split: if_splits)
  qed
  with i show "dispatch_typed (d\<lparr>dpPhase := q\<rparr>)" "q \<noteq> Binding r" by (auto simp: dispatch_typed_def)
qed

lemma resolve_typed:
  assumes d: "dispatch_typed d" and e: "canonical_path (Str workspace)" "id_text uuid" "id_text (consult_prefix @ uuid)"
    and p: "resolve_dispatch realpath workspace project uuid now d = Inr q"
  shows "dispatch_typed (d\<lparr>dpPhase := q\<rparr>)" "q \<noteq> Binding r"
proof -
  from p obtain root_run parent ancestry depth where ph: "dpPhase d = Resolving root_run parent ancestry depth"
    by (auto simp: resolve_dispatch_def split: dispatch_phase.splits)
  with p obtain perms where q: "q = Reserving (dispatch_record d root_run parent ancestry depth perms uuid workspace now)"
    by (auto simp: resolve_dispatch_def split: if_splits sum.splits)
  let ?r = "dispatch_record d root_run parent ancestry depth perms uuid workspace now"
  have i: "input_typed (dpOrigin d) (dpTarget d) (dpInput d)"
    "getp (getp (dpInput d) ''origin'') ''botId'' = Str (bdId (dpOrigin d))"
    and t: "string_id root_run" "list_all string_id ancestry" "depth \<in> {1, 2}" "Str (bdId (dpTarget d)) \<notin> set ancestry"
    using d ph by (auto simp: dispatch_typed_def)
  have st: "Str (consultation_status_text CsPrepared) \<in> set consultation_statuses" by (rule status_known)
  have "record_of d ?r"
    using i t e st
    by (cases parent) (auto simp: record_of_def typed_consultation_def dispatch_record_def object_wf_def
        input_typed_def is_array_def string_id_Str simp del: js_simps consultation_status_text.simps)
  with i q show "dispatch_typed (d\<lparr>dpPhase := q\<rparr>)" "q \<noteq> Binding r" by (auto simp: dispatch_typed_def)
qed

lemma inv_continue:
  assumes i: "broker_inv shortest s" and r: "\<And>p. r = Inr p \<Longrightarrow> dispatch_typed (d\<lparr>dpPhase := p\<rparr>) \<and> (\<forall>x. p \<noteq> Binding x)"
  shows "broker_inv shortest (continue_with t d r s)"
proof (cases r)
  case (Inl e)
  then show ?thesis using inv_drop [OF i, of "brLedger s" t] by (simp add: continue_with_def)
next
  case (Inr p)
  then show ?thesis using inv_set_phase [OF i, where d = d and p = p and t = t] r by (simp add: continue_with_def)
qed

lemma inv_begin:
  assumes i: "broker_inv shortest s" and e: "input_typed origin target input"
  shows "broker_inv shortest (snd (begin_dispatch t origin target owns input s))"
proof (cases "check_dispatch origin target owns input")
  case (Inl x)
  with i show ?thesis by (simp add: begin_dispatch_def)
next
  case (Inr x)
  show ?thesis
    unfolding begin_dispatch_def
  proof (rule inv_smaller [OF i])
    fix u d
    assume "map_of (brDispatches (snd (case check_dispatch origin target owns input of
      Inl e \<Rightarrow> (Inl e, s)
     | Inr _ \<Rightarrow>
       (Inr (), s\<lparr>brDispatches := AList.update t
          \<lparr>dpInput = input, dpOrigin = origin, dpTarget = target, dpGeneration = brGeneration s,
           dpOriginGeneration = bot_generation s (bdId origin), dpTargetGeneration = bot_generation s (bdId target),
           dpPhase = Verifying\<rparr> (brDispatches s)\<rparr>)))) u = Some d"
    with Inr begin_typed [OF _ e, of owns] inv_typed [OF i] show "dispatch_typed d" by (auto split: if_splits)
  qed (auto simp: Inr binding_def split: if_splits)
qed

lemma inv_bump:
  "broker_inv shortest s \<Longrightarrow> broker_inv shortest (s\<lparr>brBotGeneration := g\<rparr>)"
  "broker_inv shortest s \<Longrightarrow> broker_inv shortest (s\<lparr>brGeneration := n\<rparr>)"
  by (simp_all add: broker_inv_def known_facts_def binding_def)

lemma inv_cancel_for_bot:
  "broker_inv shortest s \<Longrightarrow> broker_inv shortest (snd (cancel_for_bot shortest fault now known b s))"
  by (auto simp: cancel_for_bot_def Let_def inv_bump intro: inv_ledger_only [OF inv_bump(1) ledger_only_each] split: sum.splits)

lemma inv_cancel_all:
  "broker_inv shortest s \<Longrightarrow> broker_inv shortest (snd (cancel_all shortest fault now known bots s))"
  by (auto simp: cancel_all_def Let_def inv_bump intro: inv_ledger_only [OF inv_bump(2) ledger_only_each] split: sum.splits)

lemma durable_restart: "consulted.durable shortest A l \<Longrightarrow> consulted.durable shortest A (consultation_step shortest l Restart)"
  by (rule durable_step) auto

lemma durable_loss: "consulted.durable shortest A l \<Longrightarrow> consulted.durable shortest A (consultation_step shortest l (Lose p c))"
  by (rule durable_step) auto

lemma inv_step:
  assumes i: "broker_inv (bhShortest h) s" and e: "typed_broker_event e"
  shows "broker_inv (bhShortest h) (broker_step h s e)"
proof (cases e)
  case (Begin t origin target owns input)
  with i e inv_begin [OF i] show ?thesis by simp
next
  case (Place t clock)
  show ?thesis
  proof (cases "map_of (brDispatches s) t")
    case (Some d)
    have l: "consulted.durable (bhShortest h) (known_facts s) (brLedger s)" using i by (simp add: broker_inv_def)
    have "broker_inv (bhShortest h) (continue_with t d (place_dispatch (bhDate h) clock d (brLedger s)) s)"
      using place_typed [OF inv_typed [OF i Some] l] by (intro inv_continue [OF i]) blast
    with i Some Place show ?thesis by simp
  qed (use i Place in simp)
next
  case (Resolve t workspace project uuid now)
  show ?thesis
  proof (cases "map_of (brDispatches s) t")
    case (Some d)
    then have "broker_inv (bhShortest h) (continue_with t d (resolve_dispatch (bhRealpath h) workspace project uuid now d) s)"
      using resolve_typed [OF inv_typed [OF i Some]] e Resolve
      by (intro inv_continue [OF i]) (simp only: typed_broker_event.simps, blast)
    with Some i Resolve show ?thesis by (simp split: dispatch_phase.splits)
  qed (use i Resolve in simp)
next
  case (Reserve t aborted fault)
  with i inv_reserve [OF i] show ?thesis by (auto split: option.splits dispatch_phase.splits)
next
  case (Submit t bound aborted now fault)
  with i inv_submit [OF i] show ?thesis by (auto split: option.splits dispatch_phase.splits)
next
  case (Answer t answer now fault)
  with i inv_answer [OF i] show ?thesis by (auto split: option.splits dispatch_phase.splits)
next
  case (Abandon t)
  with i inv_drop [OF i, of "brLedger s" t] show ?thesis by (auto split: option.splits dispatch_phase.splits)
next
  case (Cancel ending caller j now fault)
  with i show ?thesis by (auto intro: inv_ledger_only ledger_only_cancel)
next
  case (CancelForBot b now fault)
  with i show ?thesis by (simp add: inv_cancel_for_bot)
next
  case (CancelAll bots now fault)
  with i show ?thesis by (simp add: inv_cancel_all)
next
  case (Poll j agent run page now fault)
  with i show ?thesis by (auto intro: inv_ledger_only ledger_only_settle split: option.splits)
next
  case RestartHost
  with i show ?thesis
    by (auto intro!: inv_smaller [OF i] durable_restart simp: binding_def simp del: consultation_step.simps)
next
  case (LoseFile primary c)
  with i show ?thesis
    by (auto intro!: inv_smaller [OF i] durable_loss intro: inv_typed [OF i] simp: binding_def simp del: consultation_step.simps)
qed

lemma inv_new: "broker_inv shortest new_broker"
  using durable_new by (simp add: broker_inv_def new_broker_def binding_def known_facts_def)

lemma inv_run:
  assumes "broker_inv (bhShortest h) s" "list_all typed_broker_event es"
  shows "broker_inv (bhShortest h) (foldl (broker_step h) s es)"
proof (rule foldl_invariant [where P = "broker_inv (bhShortest h)"])
  show "broker_inv (bhShortest h) s" by (rule assms(1))
next
  fix t e assume "broker_inv (bhShortest h) t" "e \<in> set es"
  with assms(2) show "broker_inv (bhShortest h) (broker_step h t e)" by (auto simp: list_all_iff intro: inv_step)
qed

end
