(* ===== verification/ConsultationBrokerSafety.thy ===== *)
theory ConsultationBrokerSafety
  imports ConsultationBrokerFacts
begin

text \<open>
  The safety of consultations from the broker and its ledger together: sent once, at most three per
  run, never after a cancellation, never past the stop of a bot.
\<close>

section \<open>What one step does\<close>

lemma durable_ledger_step:
  assumes i: "broker_inv (bhShortest h) s" and e: "typed_broker_event e" and d: "consulted.durable (bhShortest h) A (brLedger s)"
  shows "consulted.durable (bhShortest h) A (brLedger (broker_step h s e))"
proof -
  have lo: "ledger_only (bhShortest h) u v \<Longrightarrow> brLedger u = brLedger s \<Longrightarrow>
      consulted.durable (bhShortest h) A (brLedger v)" for u v using d by (simp add: ledger_only_def)
  have up: "consulted.durable (bhShortest h) A (snd (update_consultation (bhShortest h) fault now j c x (brLedger s)))"
    for fault now j c x using d by (rule durable_update_any)
  show ?thesis
  proof (cases e)
    case (Begin t origin target owns input)
    with d show ?thesis by (auto simp: begin_dispatch_def split: sum.splits)
  next
    case (Place t clock)
    with d show ?thesis by (auto simp: continue_with_def split: option.splits sum.splits)
  next
    case (Resolve t workspace project uuid now)
    with d show ?thesis by (auto simp: continue_with_def split: option.splits sum.splits dispatch_phase.splits)
  next
    case (Reserve t aborted fault)
    have "consulted.durable (bhShortest h) A (brLedger (reserve_dispatch (bhShortest h) fault aborted t x r s))"
      if "map_of (brDispatches s) t = Some x" "dpPhase x = Reserving r" for x r
    proof -
      have "typed_consultation r" using inv_typed [OF i that(1)] that(2) by (simp add: dispatch_typed_def record_of_def)
      with d show ?thesis
        using durable_prepare(1) [OF d, of r fault]
        by (cases "prepare_consultation (bhShortest h) fault r (brLedger s)")
          (auto simp: reserve_dispatch_def split: sum.splits)
    qed
    with Reserve d show ?thesis by (auto split: option.splits dispatch_phase.splits)
  next
    case (Submit t bound aborted now fault)
    have "consulted.durable (bhShortest h) A (brLedger (submit_dispatch (bhShortest h) fault now bound aborted t x r s))" for x r
      using d up by (auto simp: submit_dispatch_def fail_dispatch_def)
    with Submit d show ?thesis by (auto split: option.splits dispatch_phase.splits)
  next
    case (Answer t answer now fault)
    have "consulted.durable (bhShortest h) A (brLedger (snd (answer_dispatch (bhShortest h) fault now answer t r s)))" for r
      using d up by (auto simp: answer_dispatch_def Let_def split: submit_answer.splits prod.splits sum.splits) (metis snd_conv)+
    with Answer d show ?thesis by (auto split: option.splits dispatch_phase.splits)
  next
    case (Abandon t)
    with d show ?thesis by (auto split: option.splits dispatch_phase.splits)
  next
    case (Cancel ending caller j now fault)
    with lo [OF ledger_only_cancel] show ?thesis by simp
  next
    case (CancelForBot b now fault)
    with d lo [OF ledger_only_each] show ?thesis by (auto simp: cancel_for_bot_def Let_def split: sum.splits)
  next
    case (CancelAll bots now fault)
    with d lo [OF ledger_only_each] show ?thesis by (auto simp: cancel_all_def Let_def split: sum.splits)
  next
    case (Poll j agent run page now fault)
    with d lo [OF ledger_only_settle] show ?thesis by (auto split: option.splits)
  next
    case RestartHost
    with durable_restart [OF d] show ?thesis by (simp del: consultation_step.simps)
  next
    case (LoseFile primary c)
    with durable_loss [OF d] show ?thesis by (simp del: consultation_step.simps)
  qed
qed

definition may_send :: "broker \<Rightarrow> dispatch \<Rightarrow> jsval \<Rightarrow> bool" where
  "may_send s d r \<longleftrightarrow> (\<exists>t. map_of (brDispatches s) t = Some d) \<and> dpPhase d = Binding r \<and> assert_pending False s d \<and>
     (\<exists>x. get_consultation (brLedger s) (dispatch_id r) = Some x \<and> getp x ''status'' = Str (consultation_status_text CsPrepared))"

text \<open>Only the submission step sends, and only a prepared record of the current generations.\<close>

lemma posts_step:
  "brPosts (broker_step h s e) = brPosts s \<or> (\<exists>d r. may_send s d r \<and> brPosts (broker_step h s e) = brPosts s @ [r])"
proof (cases e)
  case (Submit t bound aborted now fault)
  have "brPosts (submit_dispatch (bhShortest h) fault now bound aborted t d r s) = brPosts s \<or>
      may_send s d r \<and> brPosts (submit_dispatch (bhShortest h) fault now bound aborted t d r s) = brPosts s @ [r]"
    if "map_of (brDispatches s) t = Some d" "dpPhase d = Binding r" for d r
    using that unfolding submit_dispatch_def may_send_def dispatch_id_def
    by (auto simp: fail_dispatch_def assert_pending_def split: option.splits)
  with Submit show ?thesis by (auto split: option.splits dispatch_phase.splits)
next
  case (Reserve t aborted fault)
  then show ?thesis by (auto simp: reserve_dispatch_def split: option.splits dispatch_phase.splits prod.splits sum.splits)
next
  case (Answer t answer now fault)
  have "brPosts (snd (answer_dispatch (bhShortest h) fault now answer t r s)) = brPosts s" for r
    by (auto simp: answer_dispatch_def Let_def split: submit_answer.splits prod.splits sum.splits)
  with Answer show ?thesis by (auto split: option.splits dispatch_phase.splits)
next
  case (Cancel ending caller j now fault)
  with ledger_only_cancel [of "bhShortest h" s fault now ending caller j] show ?thesis by (simp add: ledger_only_def)
next
  case (CancelForBot b now fault)
  have "brPosts (cancel_records (bhShortest h) fault now (bhKnown h) rs u) = brPosts u" for rs u
    using ledger_only_each [of "bhShortest h" u fault now "bhKnown h" rs] by (simp add: ledger_only_def)
  with CancelForBot show ?thesis by (auto simp: cancel_for_bot_def Let_def split: sum.splits)
next
  case (CancelAll bots now fault)
  have "brPosts (cancel_records (bhShortest h) fault now (bhKnown h) rs u) = brPosts u" for rs u
    using ledger_only_each [of "bhShortest h" u fault now "bhKnown h" rs] by (simp add: ledger_only_def)
  with CancelAll show ?thesis by (auto simp: cancel_all_def Let_def split: sum.splits)
next
  case (Poll j agent run page now fault)
  have "brPosts (settle_consultation (bhShortest h) fault now agent r run page s) = brPosts s" for r
    using ledger_only_settle [of "bhShortest h" s fault now agent r run page] by (simp add: ledger_only_def)
  with Poll show ?thesis by (auto split: option.splits)
qed (auto simp: begin_dispatch_def continue_with_def split: option.splits sum.splits dispatch_phase.splits)

section \<open>Sent once\<close>

lemma fan_out_posts:
  assumes i: "broker_inv shortest s"
  shows "length (filter (\<lambda>r. getp r ''rootRunId'' = q) (brPosts s)) \<le> 3"
proof (cases "filter (\<lambda>r. getp r ''rootRunId'' = q) (brPosts s) = []")
  case False
  let ?P = "filter (\<lambda>r. getp r ''rootRunId'' = q) (brPosts s)"
  let ?C = "filter (\<lambda>r. strict_equal (getp r ''rootRunId'') q) (consultations (brLedger s))"
  have du: "consulted.durable shortest (known_facts s) (brLedger s)" using i by (simp add: broker_inv_def)
  from False obtain r0 where "r0 \<in> set ?P" using last_in_set by blast
  then have "typed_consultation r0" "getp r0 ''rootRunId'' = q" using i by (auto simp: broker_inv_def)
  then obtain z where z: "q = Str z" by (metis typed_ids)
  have "dispatch_id ` set ?P \<subseteq> dispatch_id ` set ?C"
  proof
    fix x assume "x \<in> dispatch_id ` set ?P"
    then obtain r where r: "r \<in> set (brPosts s)" "getp r ''rootRunId'' = q" "x = dispatch_id r" by auto
    have "fact_of r \<in> known_facts s" using r(1) by (auto simp: known_facts_def)
    from ledger_has_fact [OF du this] r z show "x \<in> dispatch_id ` set ?C" by (auto simp: image_iff)
  qed
  then have "card (dispatch_id ` set ?P) \<le> card (dispatch_id ` set ?C)" by (intro card_mono) auto
  also have "\<dots> \<le> length ?C" by (rule le_trans [OF card_image_le card_length]) simp
  also have "\<dots> \<le> 3" using durable_sound(3) [OF du] by (simp add: records_sound_def)
  finally have "card (dispatch_id ` set ?P) \<le> 3" .
  moreover have "distinct (map dispatch_id ?P)" using i by (simp add: broker_inv_def distinct_map_filter)
  then have "card (dispatch_id ` set ?P) = length ?P" using distinct_card by fastforce
  ultimately show ?thesis by simp
qed simp

text \<open>
  C10: Over any dispatches, cancellations, answers, failed writes, restarts of the host and losses of one ledger
  file, no dispatch is submitted to a target twice, a root run never causes more than three
  submissions, none goes to a bot among its own ancestors, and every submitted dispatch stays known to the ledger.
\<close>

lemma consultation_sent_once:
  assumes "list_all typed_broker_event es" and "s = foldl (broker_step h) new_broker es"
  shows "distinct (map dispatch_id (brPosts s)) \<and>
    length (filter (\<lambda>r. getp r ''rootRunId'' = q) (brPosts s)) \<le> 3 \<and>
    list_all (\<lambda>r. getp r ''targetBotId'' \<notin> set (elements (getp r ''ancestry'')) \<and>
      (\<exists>x. get_consultation (brLedger s) (dispatch_id r) = Some x \<and> getp x ''targetRunId'' = getp r ''targetRunId'')) (brPosts s)"
proof -
  have i: "broker_inv (bhShortest h) s" unfolding assms(2) using inv_new assms(1) by (rule inv_run)
  have du: "consulted.durable (bhShortest h) (known_facts s) (brLedger s)" using i by (simp add: broker_inv_def)
  have "\<exists>x. get_consultation (brLedger s) (dispatch_id r) = Some x \<and> getp x ''targetRunId'' = getp r ''targetRunId''"
    if "r \<in> set (brPosts s)" for r
  proof -
    have "Identity (dispatch_id r) (getp r ''targetRunId'') (getp r ''rootRunId'') \<in> known_facts s"
      using that by (auto simp: known_facts_def fact_of_def)
    from identity_found [OF du this] show ?thesis by auto
  qed
  with i fan_out_posts [OF i] show ?thesis by (auto simp: broker_inv_def list_all_iff)
qed

section \<open>Never after a cancellation\<close>

lemma settled_not_sent:
  assumes i: "broker_inv (bhShortest h) s" and d: "consulted.durable (bhShortest h) {SettledRecord (json_clean x)} (brLedger s)"
    and x: "typed_consultation x" and m: "may_send s e r"
  shows "dispatch_id r \<noteq> dispatch_id x"
proof
  assume eq: "dispatch_id r = dispatch_id x"
  from settled_found [OF d _ x] obtain y where "get_consultation (brLedger s) (dispatch_id x) = Some y" "terminal_consultation y"
    by (auto simp: dispatch_id_def)
  with m eq show False by (auto simp: may_send_def terminal_consultation_def)
qed

text \<open>
  C11: Once \<open>cancel\<close> of a pending consultation has returned, it is not submitted any more, whatever follows, restarts and the
  loss of a file included.
\<close>

lemma cancelled_consultation_not_sent:
  assumes "list_all typed_broker_event es" "list_all typed_broker_event fs"
    and "s = foldl (broker_step h) new_broker es"
    and "get_consultation (brLedger s) (Str i) = Some r" "\<not> terminal_consultation r" "ending \<in> {CsCancelled, CsTimeout}"
    and "cancel_consultation (bhShortest h) fault now ending caller i s = (Inr (), s')"
  shows "filter (\<lambda>p. dispatch_id p = Str i) (brPosts (foldl (broker_step h) s' fs)) =
    filter (\<lambda>p. dispatch_id p = Str i) (brPosts s)"
proof -
  have inv: "broker_inv (bhShortest h) s" unfolding assms(3) using inv_new assms(1) by (rule inv_run)
  have lo: "ledger_only (bhShortest h) s s'" using ledger_only_cancel [of "bhShortest h" s fault now ending caller i] assms(7) by simp
  have inv': "broker_inv (bhShortest h) s'" using inv lo by (rule inv_ledger_only)
  obtain x l where u: "update_consultation (bhShortest h) fault now i ending None (brLedger s) = (Inr x, l)" "brLedger s' = l"
    using assms(4,5,7) by (cases "update_consultation (bhShortest h) fault now i ending None (brLedger s)")
      (auto simp: cancel_consultation_def split: option.splits if_splits sum.splits)
  have du: "consulted.durable (bhShortest h) (known_facts s) (brLedger s)" using inv by (simp add: broker_inv_def)
  have x: "x \<in> set (consultations l)" "getp x ''dispatchId'' = Str i" "getp x ''status'' = Str (consultation_status_text ending)"
    and dl: "consulted.durable (bhShortest h) (record_facts (consultations l)) l"
    using durable_update(2) [OF du u(1)] by auto
  have ty: "typed_consultation x" using durable_sound(3) [OF dl] x(1) by (auto simp: records_sound_def list_all_iff)
  have "terminal_consultation x" using assms(6) x(3) by (auto simp: terminal_consultation_def)
  then have "SettledRecord (json_clean x) \<in> record_facts (consultations l)" using x(1) by (auto simp: record_facts_def)
  then have d0: "consulted.durable (bhShortest h) {SettledRecord (json_clean x)} (brLedger s')"
    unfolding u(2) by (intro consulted.durable_mono [OF dl]) simp
  let ?Q = "\<lambda>u. broker_inv (bhShortest h) u \<and> consulted.durable (bhShortest h) {SettledRecord (json_clean x)} (brLedger u) \<and>
    filter (\<lambda>p. dispatch_id p = Str i) (brPosts u) = filter (\<lambda>p. dispatch_id p = Str i) (brPosts s)"
  have "?Q (foldl (broker_step h) s' fs)"
  proof (rule foldl_invariant [where P = ?Q])
    show "?Q s'" using inv' d0 lo by (simp add: ledger_only_def)
  next
    fix u e assume q: "?Q u" and "e \<in> set fs"
    with assms(2) have e: "typed_broker_event e" by (auto simp: list_all_iff)
    have "dispatch_id p \<noteq> Str i" if "may_send u d p" for d p
      using settled_not_sent [of h u x d p] q ty that x(2) by (simp add: dispatch_id_def)
    then have "filter (\<lambda>p. dispatch_id p = Str i) (brPosts (broker_step h u e)) = filter (\<lambda>p. dispatch_id p = Str i) (brPosts u)"
      using posts_step [of h u e] by auto
    with q e show "?Q (broker_step h u e)" by (auto intro: inv_step durable_ledger_step)
  qed
  then show ?thesis by simp
qed

section \<open>Nothing from or to a stopped bot\<close>

text \<open>No dispatch is ahead of the generations; \<open>stale b s\<close>: those of the bot \<open>b\<close> are behind.\<close>

definition generations_bounded :: "broker \<Rightarrow> bool" where
  "generations_bounded s \<longleftrightarrow> (\<forall>t d. map_of (brDispatches s) t = Some d \<longrightarrow>
     dpOriginGeneration d \<le> bot_generation s (bdId (dpOrigin d)) \<and>
     dpTargetGeneration d \<le> bot_generation s (bdId (dpTarget d)))"

definition stale :: "jstr \<Rightarrow> broker \<Rightarrow> bool" where
  "stale b s \<longleftrightarrow> (\<forall>t d. map_of (brDispatches s) t = Some d \<longrightarrow>
     (bdId (dpOrigin d) = b \<longrightarrow> dpOriginGeneration d < bot_generation s b) \<and>
     (bdId (dpTarget d) = b \<longrightarrow> dpTargetGeneration d < bot_generation s b))"

fun begins :: "broker_event \<Rightarrow> bool" where
  "begins (Begin t origin target owns input) = True"
| "begins e = False"

text \<open>
  Apart from \<open>Begin\<close>, a step changes at most the phase of a dispatch; generations only grow, except
  that a restart forgets the dispatches with them.
\<close>

definition dispatch_key :: "dispatch \<Rightarrow> bot_definition \<times> bot_definition \<times> nat \<times> nat" where
  "dispatch_key d = (dpOrigin d, dpTarget d, dpOriginGeneration d, dpTargetGeneration d)"

lemma dispatch_key_phase [simp]: "dispatch_key (d\<lparr>dpPhase := p\<rparr>) = dispatch_key d"
  by (simp add: dispatch_key_def)

definition follows :: "broker \<Rightarrow> broker \<Rightarrow> bool" where
  "follows s u \<longleftrightarrow>
     brDispatches u = [] \<or>
     (\<forall>t d. map_of (brDispatches u) t = Some d \<longrightarrow>
       (\<exists>x. map_of (brDispatches s) t = Some x \<and> dispatch_key d = dispatch_key x)) \<and>
     (\<forall>b. bot_generation s b \<le> bot_generation u b)"

lemma follows_same: "brDispatches u = brDispatches s \<Longrightarrow> brBotGeneration u = brBotGeneration s \<Longrightarrow> follows s u"
  by (simp add: follows_def bot_generation_def)

lemma follows_drop: "follows s (drop_dispatch t (s\<lparr>brLedger := l\<rparr>))" "follows s (drop_dispatch t s)"
  by (auto simp: follows_def bot_generation_def)

lemma follows_phase:
  assumes "map_of (brDispatches s) t = Some d"
  shows "follows s (set_phase t d p s)" "follows s (set_phase t d p (s\<lparr>brLedger := l\<rparr>))"
    "follows s (set_phase t d p (s\<lparr>brPosts := q\<rparr>))"
  using assms by (auto simp: follows_def bot_generation_def split: if_splits)

lemma follows_ledger_only: "ledger_only shortest s u \<Longrightarrow> follows s u"
  by (rule follows_same) (simp_all add: ledger_only_def)

lemma follows_bump:
  assumes "follows (s\<lparr>brBotGeneration := AList.update b (bot_generation s b + 1) (brBotGeneration s)\<rparr>) u"
  shows "follows s u"
proof -
  have "bot_generation s c \<le> bot_generation u c" if "brDispatches u \<noteq> []" for c
  proof -
    have "bot_generation s c \<le> bot_generation (s\<lparr>brBotGeneration := AList.update b (bot_generation s b + 1) (brBotGeneration s)\<rparr>) c"
      by (simp add: bot_generation_def)
    also have "\<dots> \<le> bot_generation u c" using assms that by (simp add: follows_def)
    finally show ?thesis .
  qed
  with assms show ?thesis by (simp add: follows_def) blast
qed

lemma follows_raise: "follows (s\<lparr>brGeneration := n\<rparr>) u \<Longrightarrow> follows s u"
  by (simp add: follows_def bot_generation_def)

lemma follows_continue: "map_of (brDispatches s) t = Some d \<Longrightarrow> follows s (continue_with t d r s)"
  by (auto simp: continue_with_def intro: follows_drop follows_phase split: sum.splits)

lemma follows_reserve: "map_of (brDispatches s) t = Some d \<Longrightarrow> follows s (reserve_dispatch shortest fault aborted t d r s)"
  by (cases "prepare_consultation shortest fault r (brLedger s)")
    (auto simp: reserve_dispatch_def intro: follows_drop follows_phase split: sum.splits)

lemma follows_submit: "map_of (brDispatches s) t = Some d \<Longrightarrow> follows s (submit_dispatch shortest fault now bound aborted t d r s)"
  by (simp add: submit_dispatch_def fail_dispatch_def follows_drop follows_phase)

lemma follows_answer: "follows s (snd (answer_dispatch shortest fault now answer t r s))"
proof -
  have e: "(drop_dispatch t s)\<lparr>brLedger := l\<rparr> = drop_dispatch t (s\<lparr>brLedger := l\<rparr>)" for l by (simp add: drop_dispatch_def)
  show ?thesis
    by (cases answer) (auto simp: answer_dispatch_def Let_def e follows_drop split: prod.splits sum.splits)
qed

lemma follows_restart: "brDispatches u = [] \<Longrightarrow> follows s u"
  by (simp add: follows_def)

lemma follows_refl: "follows s s"
  by (rule follows_same) simp_all

lemma follows_cancel_for_bot: "follows s (snd (cancel_for_bot shortest fault now known b s))"
proof -
  let ?u = "s\<lparr>brBotGeneration := AList.update b (bot_generation s b + 1) (brBotGeneration s)\<rparr>"
  have "follows s ?u" by (rule follows_bump) (rule follows_refl)
  moreover have "follows s (cancel_records shortest fault now known rs ?u)" for rs
    by (rule follows_bump) (rule follows_ledger_only [OF ledger_only_each])
  ultimately show ?thesis by (simp add: cancel_for_bot_def Let_def split: sum.splits)
qed

lemma follows_cancel_all: "follows s (snd (cancel_all shortest fault now known bots s))"
proof -
  let ?u = "s\<lparr>brGeneration := brGeneration s + 1\<rparr>"
  have "follows s ?u" by (rule follows_raise) (rule follows_refl)
  moreover have "follows s (cancel_records shortest fault now known rs ?u)" for rs
    by (rule follows_raise) (rule follows_ledger_only [OF ledger_only_each])
  ultimately show ?thesis by (simp add: cancel_all_def Let_def split: sum.splits)
qed

lemma follows_step: "\<not> begins e \<Longrightarrow> follows s (broker_step h s e)"
  by (cases e)
    (simp_all add: follows_refl follows_continue follows_reserve follows_submit follows_answer follows_drop
      follows_ledger_only [OF ledger_only_cancel] follows_ledger_only [OF ledger_only_settle]
      follows_cancel_for_bot follows_cancel_all follows_same follows_restart
      split: option.splits dispatch_phase.splits)

lemma follows_key:
  assumes "follows s u" "map_of (brDispatches u) t = Some d"
  shows "(\<exists>x. map_of (brDispatches s) t = Some x \<and> dispatch_key d = dispatch_key x) \<and>
    (\<forall>b. bot_generation s b \<le> bot_generation u b)"
proof -
  have "brDispatches u \<noteq> []" using assms(2) by auto
  with assms show ?thesis unfolding follows_def by blast
qed

lemma bounded_follows:
  assumes b: "generations_bounded s" and f: "follows s u"
  shows "generations_bounded u"
  unfolding generations_bounded_def
proof (intro allI impI)
  fix t d assume d: "map_of (brDispatches u) t = Some d"
  with f obtain x where x: "map_of (brDispatches s) t = Some x" "dispatch_key d = dispatch_key x"
    and g: "\<forall>b. bot_generation s b \<le> bot_generation u b" using follows_key by blast
  have "dpOriginGeneration x \<le> bot_generation s (bdId (dpOrigin x)) \<and> dpTargetGeneration x \<le> bot_generation s (bdId (dpTarget x))"
    using b x(1) by (simp add: generations_bounded_def)
  with x(2) g show "dpOriginGeneration d \<le> bot_generation u (bdId (dpOrigin d)) \<and>
      dpTargetGeneration d \<le> bot_generation u (bdId (dpTarget d))"
    by (auto simp: dispatch_key_def intro: order_trans)
qed

lemma stale_follows:
  assumes b: "stale b s" and f: "follows s u"
  shows "stale b u"
  unfolding stale_def
proof (intro allI impI)
  fix t d assume d: "map_of (brDispatches u) t = Some d"
  with f obtain x where x: "map_of (brDispatches s) t = Some x" "dispatch_key d = dispatch_key x"
    and g: "bot_generation s b \<le> bot_generation u b"
    using follows_key by blast
  have "(bdId (dpOrigin x) = b \<longrightarrow> dpOriginGeneration x < bot_generation s b) \<and>
      (bdId (dpTarget x) = b \<longrightarrow> dpTargetGeneration x < bot_generation s b)"
    using b x(1) unfolding stale_def by blast
  with x(2) g show "(bdId (dpOrigin d) = b \<longrightarrow> dpOriginGeneration d < bot_generation u b) \<and>
      (bdId (dpTarget d) = b \<longrightarrow> dpTargetGeneration d < bot_generation u b)"
    by (auto simp: dispatch_key_def)
qed

lemma bounded_step: "generations_bounded s \<Longrightarrow> generations_bounded (broker_step h s e)"
proof (cases "begins e")
  case True
  then obtain t origin target owns input where "e = Begin t origin target owns input" by (cases e) auto
  then show "generations_bounded s \<Longrightarrow> ?thesis"
    by (auto simp: begin_dispatch_def generations_bounded_def bot_generation_def split: sum.splits)
qed (blast intro: bounded_follows follows_step)

lemma stale_cancelled:
  assumes "generations_bounded s"
  shows "stale b (snd (cancel_for_bot shortest fault now known b s))"
proof -
  let ?u = "s\<lparr>brBotGeneration := AList.update b (bot_generation s b + 1) (brBotGeneration s)\<rparr>"
  have "stale b ?u"
    using assms by (fastforce simp: stale_def generations_bounded_def bot_generation_def)
  then show ?thesis
    by (auto simp: cancel_for_bot_def Let_def intro: stale_follows follows_ledger_only ledger_only_each split: sum.splits)
qed


text \<open>
  An execution in a consultation's session is admitted only for the target bot and the run of a pending
  record, whose deadline has not passed.
\<close>

lemma admission_needs_record:
  assumes "consultation_admission date now b owner payload l = Inr x"
    and "getp payload ''sessionId'' = Str (consult_prefix @ i)"
  shows "\<exists>r. get_consultation l (Str i) = Some r \<and> getp r ''targetBotId'' = Str b \<and>
    getp r ''targetSessionId'' = Str (consult_prefix @ i) \<and> getp r ''targetRunId'' = getp payload ''runId'' \<and>
    \<not> terminal_consultation r"
  using assms
  by (auto simp: consultation_admission_def is_active_consultation_def terminal_consultation_def Let_def
      split: option.splits if_splits)

section \<open>A concrete dispatch\<close>

definition lead_bot :: bot_definition where
  "lead_bot = \<lparr>bdId = js ''a'', bdAgent = js ''g'', bdDefault = True,
     bdPermissions = \<lparr>bpConnections = [], bpPaths = [js ''/w''], bpTools = [], bpMutation = False, bpDelegation = True\<rparr>\<rparr>"

definition helper_bot :: bot_definition where
  "helper_bot = \<lparr>bdId = js ''b'', bdAgent = js ''k'', bdDefault = False,
     bdPermissions = \<lparr>bpConnections = [js ''c''], bpPaths = [js ''/w/x''], bpTools = [], bpMutation = False,
       bpDelegation = False\<rparr>\<rparr>"

definition sample_input :: jsval where
  "sample_input =
     Obj [(''origin'', Obj [(''botId'', Str (js ''a'')), (''agentId'', Str (js ''g'')), (''sessionId'', Str (js ''s'')),
         (''runId'', Str (js ''q''))]),
       (''objective'', Str (js ''x'')), (''context'', Arr []), (''deadline'', Str (js ''t''))]"

definition sample_host :: broker_host where
  "sample_host = \<lparr>bhShortest = (\<lambda>_. []), bhDate = (\<lambda>_. Some 10), bhRealpath = Some, bhKnown = (\<lambda>_. Some (js ''a''))\<rparr>"

definition sample_permissions :: bot_permissions where
  "sample_permissions = \<lparr>bpConnections = [js ''c''], bpPaths = [js ''/w''], bpTools = [], bpMutation = False, bpDelegation = False\<rparr>"

definition sample_dispatch :: "dispatch_phase \<Rightarrow> dispatch" where
  "sample_dispatch p = \<lparr>dpInput = sample_input, dpOrigin = lead_bot, dpTarget = helper_bot, dpGeneration = 0,
     dpOriginGeneration = 0, dpTargetGeneration = 0, dpPhase = p\<rparr>"

definition sample_record :: jsval where
  "sample_record = dispatch_record (sample_dispatch Verifying) (Str (js ''q'')) None [Str (js ''a'')] 1
     sample_permissions (js ''d'') (js ''/w'') (js ''n'')"

definition sample_events :: "broker_event list" where
  "sample_events = [Begin 0 lead_bot helper_bot True sample_input, Place 0 (\<lambda>_. 0),
     Resolve 0 (js ''/w'') Undef (js ''d'') (js ''n''), Reserve 0 False None]"

lemma sample_typed: "list_all typed_broker_event sample_events"
  by (simp add: sample_events_def input_typed_def sample_input_def object_wf_def string_id_def id_text_def
      alphanumeric_def lead_bot_def helper_bot_def canonical_path_def absolute_path_def resolved_def consult_prefix_def)

lemma sample_begun: "broker_step sample_host new_broker (Begin 0 lead_bot helper_bot True sample_input) =
  new_broker\<lparr>brDispatches := [(0, sample_dispatch Verifying)]\<rparr>"
  by (simp add: new_broker_def jm_has_def begin_dispatch_def check_dispatch_def Let_def sample_input_def is_record_def
      lead_bot_def helper_bot_def truthy_text_def bot_generation_def sample_dispatch_def)

lemma sample_placed: "broker_step sample_host (new_broker\<lparr>brDispatches := [(0, sample_dispatch Verifying)]\<rparr>) (Place 0 (\<lambda>_. 0)) =
  new_broker\<lparr>brDispatches := [(0, sample_dispatch (Resolving (Str (js ''q'')) None [Str (js ''a'')] 1))]\<rparr>"
  by (simp add: new_broker_def sample_dispatch_def place_dispatch_def Let_def by_target_run_def count_root_def
      consultations_def new_consultations_def empty_consultations_def sample_input_def lead_bot_def helper_bot_def
      objective_valid_def trim_text_def js_blank_def is_array_def deadline_valid_def sample_host_def continue_with_def
      set_phase_def)

lemma sample_resolved: "broker_step sample_host
    (new_broker\<lparr>brDispatches := [(0, sample_dispatch (Resolving (Str (js ''q'')) None [Str (js ''a'')] 1))]\<rparr>)
    (Resolve 0 (js ''/w'') Undef (js ''d'') (js ''n'')) =
  new_broker\<lparr>brDispatches := [(0, sample_dispatch (Reserving sample_record))]\<rparr>"
  by (simp add: new_broker_def sample_dispatch_def resolve_dispatch_def effective_permissions_def target_paths_def Let_def
      sample_input_def lead_bot_def helper_bot_def continue_with_def set_phase_def sample_record_def
      sample_permissions_def dispatch_record_def)

lemma sample_record_weight: "json_weight shortest 0 (one_consultation 1 sample_record) \<le> 3000"
  by (simp add: one_consultation_def sample_record_def dispatch_record_def sample_dispatch_def sample_input_def
      number_text_small permissions_json_def sample_permissions_def consult_prefix_def helper_bot_def)

definition sample_broker :: "dispatch_phase \<Rightarrow> broker" where
  "sample_broker p = new_broker\<lparr>brLedger := one_ledger (\<lambda>_. []) 1 sample_record, brDispatches := [(0, sample_dispatch p)]\<rparr>"

lemma sample_reserved: "broker_step sample_host (new_broker\<lparr>brDispatches := [(0, sample_dispatch (Reserving sample_record))]\<rparr>)
    (Reserve 0 False None) = sample_broker (Binding sample_record)"
  using one_prepared [OF sample_record_weight, of "\<lambda>_. []"]
  by (simp add: new_broker_def reserve_dispatch_def assert_pending_def bot_generation_def sample_dispatch_def
      sample_host_def set_phase_def sample_broker_def)

lemma sample_consultation_run: "foldl (broker_step sample_host) new_broker sample_events = sample_broker (Binding sample_record)"
  unfolding sample_events_def by (simp only: foldl.simps sample_begun sample_placed sample_resolved sample_reserved)

lemma sample_found: "get_consultation (brLedger (sample_broker p)) (Str (js ''d'')) = Some sample_record"
  by (simp add: sample_broker_def get_consultation_def consultations_def one_ledger_def one_consultation_def
      sample_record_def dispatch_record_def)

lemma sample_status: "getp sample_record ''status'' = Str (consultation_status_text CsPrepared)"
  "getp sample_record ''dispatchId'' = Str (js ''d'')" "\<not> terminal_consultation sample_record"
  by (simp_all add: sample_record_def dispatch_record_def terminal_consultation_def)

lemma sample_sent:
  "broker_step sample_host (sample_broker (Binding sample_record)) (Submit 0 True False (js ''m'') None) =
   (sample_broker (Answering sample_record))\<lparr>brPosts := [sample_record]\<rparr>"
  using sample_found [of "Binding sample_record"] sample_status
  by (simp add: submit_dispatch_def sample_broker_def new_broker_def assert_pending_def bot_generation_def
      sample_dispatch_def set_phase_def)

lemma consultation_permissions_shrink_witness:
  "set (bpConnections sample_permissions) \<subseteq> set (bpConnections (bdPermissions helper_bot)) \<and>
   \<not> bpMutation sample_permissions"
proof -
  have "effective_permissions Some (helper_bot\<lparr>bdDefault := False\<rparr>) (helper_bot\<lparr>bdId := js ''c''\<rparr>) (Some (js ''/w'')) =
      Inr sample_permissions"
    by (simp add: effective_permissions_def Let_def target_paths_def helper_bot_def sample_permissions_def)
  from consultation_permissions_shrink [OF this] show ?thesis
    by (auto simp: helper_bot_def sample_permissions_def)
qed

lemma consultation_sent_once_witness:
  "distinct (map dispatch_id (brPosts (foldl (broker_step sample_host) new_broker
     (sample_events @ [Submit 0 True False (js ''m'') None, RestartHost]))))"
  using consultation_sent_once [of "sample_events @ [Submit 0 True False (js ''m'') None, RestartHost]", OF _ refl, of sample_host]
    sample_typed by simp

lemma cancelled_consultation_not_sent_witness:
  "filter (\<lambda>p. dispatch_id p = Str (js ''d'')) (brPosts (foldl (broker_step sample_host)
     ((sample_broker (Binding sample_record))\<lparr>brLedger := one_ledger (\<lambda>_. []) 2
        (next_consultation CsCancelled (js ''m'') None sample_record)\<rparr>)
     [Submit 0 True False (js ''m'') None, RestartHost])) = []"
proof -
  have "json_weight (\<lambda>_. []) 0 (one_consultation 2 (next_consultation CsCancelled (js ''m'') None sample_record)) \<le> 3000"
    by (simp add: one_consultation_def sample_record_def dispatch_record_def sample_dispatch_def sample_input_def
        number_text_small permissions_json_def sample_permissions_def consult_prefix_def helper_bot_def
        next_consultation_def setp_def)
  from one_updated [OF this sample_status(2,3)]
  have c: "cancel_consultation (bhShortest sample_host) None (js ''m'') CsCancelled (Some (js ''a'')) (js ''d'')
      (sample_broker (Binding sample_record)) =
    (Inr (), (sample_broker (Binding sample_record))\<lparr>brLedger := one_ledger (\<lambda>_. []) 2
      (next_consultation CsCancelled (js ''m'') None sample_record)\<rparr>)"
    using sample_found [of "Binding sample_record"] sample_status(3)
    by (simp add: cancel_consultation_def sample_host_def del: js_simps)
      (simp add: sample_record_def dispatch_record_def sample_dispatch_def sample_input_def sample_broker_def)
  show ?thesis
    using cancelled_consultation_not_sent [OF sample_typed _ sample_consultation_run [symmetric] sample_found sample_status(3) _ c,
        of "[Submit 0 True False (js ''m'') None, RestartHost]"]
    by (simp add: sample_broker_def new_broker_def del: foldl.simps broker_step.simps)
qed


end
