(* ===== verification/AcpSessions.thy ===== *)
theory AcpSessions
  imports LedgerCopies
begin

text \<open>
  The owners of ACP sessions, \<open>apps/desktop/src/main/bot-acp-session-ledger.ts\<close>. A bind builds the next value
  beside the one in memory, so a write that throws leaves memory as it was. \<open>parses\<close> is
  \<open>Number.isFinite(Date.parse(s))\<close>; \<open>now\<close> is \<open>new Date().toISOString()\<close>.
\<close>

section \<open>The ledger\<close>

definition max_acp_bytes :: nat where "max_acp_bytes = 2000000"
definition max_acp_sessions :: nat where "max_acp_sessions = 5000"

datatype acp_error =
  AcpLedger copy_error | InvalidSession | InvalidOwner | OtherOwner | SessionUnavailable

record acp_owner =
  aoSession :: jstr
  aoBot :: jstr
  aoOrigin :: jstr
  aoWorkspace :: jstr

definition acp_row :: "(number \<Rightarrow> jstr) \<Rightarrow> (jstr \<Rightarrow> bool) \<Rightarrow> jsval \<Rightarrow> bool" where
  "acp_row shortest parses r =
     (is_record r \<and> id_test shortest (getp r ''sessionId'') \<and> id_test shortest (getp r ''botId'') \<and>
      id_test shortest (getp r ''originConversationId'') \<and>
      (case getp r ''workspacePath'' of Str p \<Rightarrow> absolute_path p | _ \<Rightarrow> False) \<and>
      (case getp r ''createdAt'' of Str t \<Rightarrow> parses t | _ \<Rightarrow> False))"

definition acp_file :: "(number \<Rightarrow> jstr) \<Rightarrow> (jstr \<Rightarrow> bool) \<Rightarrow> jsval \<Rightarrow> bool" where
  "acp_file shortest parses v =
     (let rs = elements (getp v ''sessions'') in
      getp v ''version'' = Num (Fin 1) \<and> valid_revision v \<and> is_array (getp v ''sessions'') \<and>
      length rs \<le> max_acp_sessions \<and> list_all (acp_row shortest parses) rs \<and>
      all_different (map (\<lambda>r. getp r ''sessionId'') rs))"

definition empty_acp :: jsval where
  "empty_acp = Obj [(''version'', Num (Fin 1)), (''revision'', Num (Fin 0)), (''sessions'', Arr [])]"

definition open_acp :: "(number \<Rightarrow> jstr) \<Rightarrow> (jstr \<Rightarrow> bool) \<Rightarrow> copies \<Rightarrow> copy_error + jsval" where
  "open_acp shortest parses d = open_copies shortest (acp_file shortest parses) max_acp_bytes empty_acp d"

definition acp_sessions :: "ledger \<Rightarrow> jsval list" where
  "acp_sessions s = elements (getp (lgStored s) ''sessions'')"

definition acp_get :: "ledger \<Rightarrow> jstr \<Rightarrow> acp_error + jsval option" where
  "acp_get s i =
     (if \<not> id_text i then Inl InvalidSession
      else Inr (find (\<lambda>r. strict_equal (getp r ''sessionId'') (Str i)) (acp_sessions s)))"

definition acp_record :: "jstr \<Rightarrow> acp_owner \<Rightarrow> jsval" where
  "acp_record now x =
     Obj [(''sessionId'', Str (aoSession x)), (''botId'', Str (aoBot x)),
       (''originConversationId'', Str (aoOrigin x)), (''workspacePath'', Str (aoWorkspace x)),
       (''createdAt'', Str now)]"

definition acp_next :: "jsval \<Rightarrow> jsval \<Rightarrow> jsval" where
  "acp_next v r = setp (with_revision v (revision v + 1)) ''sessions'' (Arr (elements (getp v ''sessions'') @ [r]))"

definition acp_bind ::
  "(number \<Rightarrow> jstr) \<Rightarrow> save_point option \<Rightarrow> jstr \<Rightarrow> acp_owner \<Rightarrow> ledger \<Rightarrow> (acp_error, jsval, ledger) outcome" where
  "acp_bind shortest fault now x s =
     (if \<not> id_text (aoSession x) \<or> \<not> id_text (aoBot x) \<or> \<not> id_text (aoOrigin x) then (Inl InvalidOwner, s)
      else case acp_get s (aoSession x) of
        Inl e \<Rightarrow> (Inl e, s)
      | Inr (Some r) \<Rightarrow>
          if getp r ''botId'' \<noteq> Str (aoBot x) \<or> getp r ''originConversationId'' \<noteq> Str (aoOrigin x) \<or>
            getp r ''workspacePath'' \<noteq> Str (aoWorkspace x)
          then (Inl OtherOwner, s) else (Inr r, s)
      | Inr None \<Rightarrow>
          if lgFailed s then (Inl (AcpLedger NeedsRecovery), s)
          else
            let r = acp_record now x; v = acp_next (lgStored s) r in
            if max_acp_sessions < length (elements (getp v ''sessions'')) \<or>
              max_acp_bytes < pretty_bytes shortest v + 1 then (Inl (AcpLedger LedgerFull), s)
            else case commit_value shortest fault v s of
              (Inr _, t) \<Rightarrow> (Inr r, t)
            | (Inl e, t) \<Rightarrow> (Inl (AcpLedger e), t))"

definition acp_assert :: "ledger \<Rightarrow> jstr \<Rightarrow> jstr \<Rightarrow> acp_error + jsval" where
  "acp_assert s b i = (case acp_get s i of
     Inl e \<Rightarrow> Inl e
   | Inr None \<Rightarrow> Inl SessionUnavailable
   | Inr (Some r) \<Rightarrow> if getp r ''botId'' \<noteq> Str b then Inl SessionUnavailable else Inr r)"

datatype acp_event =
    BindAcp acp_owner jstr "save_point option"
  | RestartAcp
  | LoseAcp bool copy

definition new_acp :: ledger where
  "new_acp = \<lparr>lgStored = empty_acp, lgFailed = False, lgDisk = \<lparr>cpPrimary = Missing, cpBackup = Missing\<rparr>\<rparr>"

fun acp_step :: "(number \<Rightarrow> jstr) \<Rightarrow> (jstr \<Rightarrow> bool) \<Rightarrow> ledger \<Rightarrow> acp_event \<Rightarrow> ledger" where
  "acp_step shortest parses s (BindAcp x now fault) = snd (acp_bind shortest fault now x s)"
| "acp_step shortest parses s RestartAcp =
     (case open_acp shortest parses (lgDisk s) of
        Inl _ \<Rightarrow> s
      | Inr v \<Rightarrow> s\<lparr>lgStored := v, lgFailed := False\<rparr>)"
| "acp_step shortest parses s (LoseAcp primary c) = s\<lparr>lgDisk := lose_copy primary c (lgDisk s)\<rparr>"

text \<open>The host binds an absolute workspace, and an ISO time parses.\<close>

fun acp_host_event :: "(jstr \<Rightarrow> bool) \<Rightarrow> acp_event \<Rightarrow> bool" where
  "acp_host_event parses (BindAcp x now fault) = (absolute_path (aoWorkspace x) \<and> parses now)"
| "acp_host_event parses RestartAcp = True"
| "acp_host_event parses (LoseAcp primary c) = True"

section \<open>What the ledger keeps\<close>

definition acp_typed :: "(jstr \<Rightarrow> bool) \<Rightarrow> jsval \<Rightarrow> bool" where
  "acp_typed parses r \<longleftrightarrow>
     json_clean r = r \<and> is_record r \<and> string_id (getp r ''sessionId'') \<and> string_id (getp r ''botId'') \<and>
     string_id (getp r ''originConversationId'') \<and>
     (\<exists>p. getp r ''workspacePath'' = Str p \<and> absolute_path p) \<and> (\<exists>t. getp r ''createdAt'' = Str t \<and> parses t)"

definition acp_sound :: "(jstr \<Rightarrow> bool) \<Rightarrow> jsval \<Rightarrow> bool" where
  "acp_sound parses v \<longleftrightarrow>
     object_wf v \<and> getp v ''version'' = Num (Fin 1) \<and> natural_revision v \<and>
     (\<exists>rs. getp v ''sessions'' = Arr rs \<and> length rs \<le> max_acp_sessions \<and> list_all (acp_typed parses) rs \<and>
       distinct (map (\<lambda>r. getp r ''sessionId'') rs))"

definition acp_facts :: "jsval \<Rightarrow> jsval set" where
  "acp_facts v = set (elements (getp v ''sessions''))"

lemma acp_typed_row: "acp_typed parses r \<Longrightarrow> acp_row shortest parses r"
  by (auto simp: acp_typed_def acp_row_def string_id_test)

lemma acp_sound_clean_parts:
  assumes "acp_sound parses v"
  shows "getp (json_clean v) ''version'' = getp v ''version''"
    "getp (json_clean v) ''revision'' = getp v ''revision''"
    "getp (json_clean v) ''sessions'' = getp v ''sessions''"
  using assms
  by (auto simp: acp_sound_def getp_clean clean_items_map natural_revision_def list_all_iff acp_typed_def intro!: map_idI)

lemma acp_sound_clean: "acp_sound parses v \<Longrightarrow> acp_sound parses (json_clean v)"
  using acp_sound_clean_parts [of parses v] by (auto simp: acp_sound_def intro: natural_revision_same)

lemma acp_sound_file: "acp_sound parses v \<Longrightarrow> valid_revision v \<Longrightarrow> acp_file shortest parses (json_clean v)"
  using acp_sound_clean_parts [of parses v]
  by (auto simp: acp_sound_def acp_file_def is_array_def valid_revision_def revision_def list_all_iff
      acp_typed_row intro: all_different_distinct)

interpretation owned: copied_ledger shortest "acp_file shortest parses" max_acp_bytes empty_acp "acp_sound parses" acp_facts
  for shortest parses
proof unfold_locales
  show "acp_sound parses empty_acp"
    by (auto simp: acp_sound_def empty_acp_def object_wf_def intro: natural_revision_zero)
  show "json_clean empty_acp = empty_acp" by (simp add: empty_acp_def)
qed (auto simp: acp_sound_clean acp_sound_file revision_def acp_facts_def acp_sound_clean_parts)

lemma acp_next_sound:
  assumes v: "acp_sound parses v" and r: "acp_typed parses r" and n: "length (elements (getp v ''sessions'')) < max_acp_sessions"
    and d: "getp r ''sessionId'' \<notin> (\<lambda>r. getp r ''sessionId'') ` set (elements (getp v ''sessions''))"
  shows "acp_sound parses (acp_next v r)" "acp_facts (acp_next v r) = insert r (acp_facts v)"
    "revision (acp_next v r) = revision v + 1"
proof -
  have b: "natural_revision (with_revision v (revision v + 1))"
    using v by (auto simp: acp_sound_def natural_revision_bump)
  show "acp_sound parses (acp_next v r)"
    using v r n d natural_revision_setp [OF b]
    by (auto simp: acp_sound_def acp_next_def) (auto simp: with_revision_def object_wf_record)
  show "acp_facts (acp_next v r) = insert r (acp_facts v)" by (simp add: acp_facts_def acp_next_def)
  show "revision (acp_next v r) = revision v + 1" by (simp add: acp_next_def revision_def with_revision_def)
qed

lemma acp_durable_sound:
  assumes "owned.durable shortest parses A s"
  shows "acp_sound parses (lgStored s)" "A \<subseteq> set (acp_sessions s)"
  using owned.durable_holds [OF assms] by (auto simp: acp_facts_def acp_sessions_def)

lemma acp_bind_durable:
  assumes d: "owned.durable shortest parses A s" and h: "absolute_path (aoWorkspace x)" "parses now"
    and b: "acp_bind shortest fault now x s = (res, t)"
  shows "owned.durable shortest parses A t"
    and "acp_get s (aoSession x) = Inr None \<Longrightarrow> res = Inr r \<Longrightarrow> r = acp_record now x \<and> owned.durable shortest parses {r} t"
proof -
  let ?r = "acp_record now x"
  let ?v = "acp_next (lgStored s) ?r"
  have "owned.durable shortest parses A t \<and>
    (acp_get s (aoSession x) = Inr None \<longrightarrow> (\<forall>r. res = Inr r \<longrightarrow> r = ?r \<and> owned.durable shortest parses {r} t))"
  proof (cases "id_text (aoSession x) \<and> id_text (aoBot x) \<and> id_text (aoOrigin x) \<and> acp_get s (aoSession x) = Inr None")
    case False
    with b d show ?thesis by (auto simp: acp_bind_def split: if_splits sum.splits option.splits)
  next
    case True
    then have n: "Str (aoSession x) \<notin> (\<lambda>r. getp r ''sessionId'') ` set (elements (getp (lgStored s) ''sessions''))"
      using find_text_None [of "''sessionId''" "aoSession x" "acp_sessions s"]
      by (auto simp: acp_get_def acp_sessions_def split: if_splits)
    have ty: "acp_typed parses ?r" using True h by (simp add: acp_typed_def acp_record_def string_id_def is_record_def)
    let ?full = "max_acp_sessions < length (elements (getp ?v ''sessions''))"
    obtain sr u where sv: "(if lgFailed s then (Inl NeedsRecovery, s)
      else if ?full \<or> max_acp_bytes < pretty_bytes shortest ?v + 1 then (Inl LedgerFull, s)
      else commit_value shortest fault ?v s) = (sr, u)" by fastforce
    have res: "(res, t) = (case sr of Inr _ \<Rightarrow> (Inr ?r, u) | Inl e \<Rightarrow> (Inl (AcpLedger e), u))"
      using b True sv by (auto simp: acp_bind_def Let_def split: if_splits sum.splits)
    show ?thesis
    proof (cases ?full)
      case True
      with sv d res show ?thesis by (auto split: if_splits)
    next
      case False
      then have "length (elements (getp (lgStored s) ''sessions'')) < max_acp_sessions" by (simp add: acp_next_def)
      note nx = acp_next_sound [OF acp_durable_sound(1) [OF d] ty this]
      have n': "getp ?r ''sessionId'' \<notin> (\<lambda>r. getp r ''sessionId'') ` set (elements (getp (lgStored s) ''sessions''))"
        using n by (simp add: acp_record_def)
      have f: "acp_facts (lgStored s) \<subseteq> acp_facts ?v" using nx(2) [OF n'] by auto
      note dn = owned.durable_next [OF d nx(1) [OF n'] f nx(3) [OF n'] sv]
      have "owned.durable shortest parses {?r} u" if "sr = Inr ()"
        using dn(2) [OF that] nx(2) [OF n'] by (auto intro: owned.durable_mono)
      with dn res show ?thesis by (cases sr) auto
    qed
  qed
  then show "owned.durable shortest parses A t"
    "acp_get s (aoSession x) = Inr None \<Longrightarrow> res = Inr r \<Longrightarrow> r = ?r \<and> owned.durable shortest parses {r} t" by blast+
qed

section \<open>Lives of the ledger\<close>

lemma acp_durable_run:
  assumes "owned.durable shortest parses A s" "list_all (acp_host_event parses) es"
  shows "owned.durable shortest parses A (foldl (acp_step shortest parses) s es)"
proof (rule foldl_invariant [where P = "owned.durable shortest parses A"])
  show "owned.durable shortest parses A s" by (rule assms(1))
next
  fix t e assume d: "owned.durable shortest parses A t" and "e \<in> set es"
  with assms(2) have h: "acp_host_event parses e" by (auto simp: list_all_iff)
  show "owned.durable shortest parses A (acp_step shortest parses t e)"
  proof (cases e)
    case (BindAcp x now fault)
    obtain r u where b: "acp_bind shortest fault now x t = (r, u)" by fastforce
    with h BindAcp acp_bind_durable(1) [OF d _ _ b] show ?thesis by simp
  next
    case RestartAcp
    with d show ?thesis by (auto simp: open_acp_def intro: owned.durable_open split: sum.splits)
  next
    case (LoseAcp primary c)
    with d show ?thesis by (simp add: owned.durable_lose)
  qed
qed

lemma acp_durable_new: "owned.durable shortest parses {} new_acp"
  unfolding new_acp_def by (rule owned.durable_initial)

lemma acp_found:
  assumes d: "owned.durable shortest parses {r} s" and i: "getp r ''sessionId'' = Str i"
  shows "acp_get s i = Inr (Some r)"
proof -
  from acp_durable_sound [OF d] have r: "r \<in> set (acp_sessions s)" and s: "acp_sound parses (lgStored s)" by auto
  then have u: "distinct (map (\<lambda>r. getp r ''sessionId'') (acp_sessions s))" and "acp_typed parses r"
    by (auto simp: acp_sound_def acp_sessions_def list_all_iff)
  then have t: "id_text i" using i by (simp add: acp_typed_def string_id_def)
  have "find (\<lambda>r. strict_equal (getp r ''sessionId'') (Str i)) (acp_sessions s) = Some r"
  proof (rule find_unique [OF r])
    fix y assume y: "y \<in> set (acp_sessions s)" "strict_equal (getp y ''sessionId'') (Str i)"
    then have "getp y ''sessionId'' = getp r ''sessionId''" using i by simp
    then show "y = r" by (rule distinct_map_eq [OF u, OF r y(1)])
  qed (simp add: i)
  with t show ?thesis by (simp add: acp_get_def)
qed

text \<open>
  A session bound for the first time belongs to that bot, conversation and workspace ever after: its
  record is found, no other bot is let in and none can bind it, whatever binds, failed writes,
  restarts and losses of one file follow.
\<close>

lemma acp_owner_fixed:
  assumes "list_all (acp_host_event parses) (es @ BindAcp x now fault # fs)"
    and "acp_get (foldl (acp_step shortest parses) new_acp es) (aoSession x) = Inr None"
    and "acp_bind shortest fault now x (foldl (acp_step shortest parses) new_acp es) = (Inr r, s)"
    and "aoSession y = aoSession x" "aoBot y \<noteq> aoBot x"
  shows "acp_assert (foldl (acp_step shortest parses) s fs) b (aoSession x) =
      (if b = aoBot x then Inr (acp_record now x) else Inl SessionUnavailable) \<and>
    isl (fst (acp_bind shortest fault' now' y (foldl (acp_step shortest parses) s fs)))"
proof -
  have "owned.durable shortest parses {} (foldl (acp_step shortest parses) new_acp es)"
    using acp_durable_new assms(1) by (intro acp_durable_run) auto
  then have "r = acp_record now x \<and> owned.durable shortest parses {r} s"
    using acp_bind_durable(2) [OF _ _ _ assms(3,2)] assms(1) by auto
  then have d: "owned.durable shortest parses {acp_record now x} (foldl (acp_step shortest parses) s fs)"
    using acp_durable_run [of shortest parses "{acp_record now x}" s fs] assms(1) by auto
  have "acp_get (foldl (acp_step shortest parses) s fs) (aoSession x) = Inr (Some (acp_record now x))"
    by (rule acp_found [OF d]) (simp add: acp_record_def)
  then show ?thesis using assms(4,5) by (auto simp: acp_assert_def acp_bind_def acp_record_def)
qed

section \<open>A concrete life\<close>

definition sample_owner :: "jstr \<Rightarrow> acp_owner" where
  "sample_owner b = \<lparr>aoSession = js ''s'', aoBot = b, aoOrigin = js ''c'', aoWorkspace = js ''/w''\<rparr>"

definition one_session :: "jsval \<Rightarrow> jsval" where
  "one_session r = Obj [(''version'', Num (Fin 1)), (''revision'', Num (Fin 1)), (''sessions'', Arr [r])]"

definition one_owner :: "(number \<Rightarrow> jstr) \<Rightarrow> save_point option \<Rightarrow> jsval \<Rightarrow> ledger" where
  "one_owner shortest fault r =
     \<lparr>lgStored = (if fault = None then one_session r else empty_acp), lgFailed = (fault \<noteq> None),
      lgDisk = write_copies fault (file_of shortest (one_session r)) \<lparr>cpPrimary = Missing, cpBackup = Missing\<rparr>\<rparr>"

lemma sample_bound:
  assumes "b \<in> {js ''a'', js ''b''}"
  shows "acp_bind shortest fault (js ''t'') (sample_owner b) new_acp =
     (case fault of None \<Rightarrow> Inr (acp_record (js ''t'') (sample_owner b)) | Some p \<Rightarrow> Inl (AcpLedger (WriteFailed p)),
      one_owner shortest fault (acp_record (js ''t'') (sample_owner b)))"
proof -
  let ?v = "one_session (acp_record (js ''t'') (sample_owner b))"
  have "json_weight shortest 0 ?v \<le> 3000"
    using assms by (auto simp: one_session_def acp_record_def sample_owner_def number_text_small)
  then have f: "pretty_bytes shortest ?v + 1 \<le> max_acp_bytes"
    using pretty_bytes_bound [of shortest ?v] by (simp add: max_acp_bytes_def)
  have i: "id_text (js ''s'')" "id_text b" "id_text (js ''c'')"
    using assms by (auto simp: id_text_def alphanumeric_def)
  have n: "acp_next (lgStored new_acp) (acp_record (js ''t'') (sample_owner b)) = ?v"
    by (simp add: acp_next_def new_acp_def empty_acp_def with_revision_def revision_def setp_def one_session_def)
  show ?thesis
    using i f n by (auto simp: acp_bind_def acp_get_def acp_sessions_def Let_def one_session_def max_acp_sessions_def
        commit_value_def one_owner_def sample_owner_def new_acp_def split: option.splits)
      (auto simp: empty_acp_def)
qed

lemma acp_owner_fixed_witness:
  "acp_assert (foldl (acp_step (\<lambda>_. []) (\<lambda>_. True))
      (one_owner (\<lambda>_. []) None (acp_record (js ''t'') (sample_owner (js ''a'')))) [LoseAcp True Missing, RestartAcp])
     (js ''b'') (aoSession (sample_owner (js ''a''))) = Inl SessionUnavailable"
proof -
  have "acp_get (foldl (acp_step (\<lambda>_. []) (\<lambda>_. True)) new_acp []) (aoSession (sample_owner (js ''a''))) = Inr None"
    by (simp add: acp_get_def new_acp_def empty_acp_def acp_sessions_def sample_owner_def id_text_def alphanumeric_def)
  moreover have "list_all (acp_host_event (\<lambda>_. True))
      ([] @ BindAcp (sample_owner (js ''a'')) (js ''t'') None # [LoseAcp True Missing, RestartAcp])"
    by (simp add: sample_owner_def absolute_path_def)
  moreover have "acp_bind (\<lambda>_. []) None (js ''t'') (sample_owner (js ''a'')) (foldl (acp_step (\<lambda>_. []) (\<lambda>_. True)) new_acp []) =
      (Inr (acp_record (js ''t'') (sample_owner (js ''a''))), one_owner (\<lambda>_. []) None (acp_record (js ''t'') (sample_owner (js ''a''))))"
    using sample_bound [of "js ''a''" "\<lambda>_. []" None] by simp
  ultimately show ?thesis
    using acp_owner_fixed [where es = "[]" and fs = "[LoseAcp True Missing, RestartAcp]" and x = "sample_owner (js ''a'')"
        and y = "sample_owner (js ''b'')" and b = "js ''b''" and fault = None and now = "js ''t''"]
    by (auto simp: sample_owner_def)
qed

end
