(* ===== verification/AutomationLedger.thy ===== *)
theory AutomationLedger
  imports LedgerCopies ConsultationBroker
begin

text \<open>
  The automation ledger, \<open>apps/desktop/src/main/bot-automation-ledger.ts\<close>, and its history,
  \<open>bot-automation-history.ts\<close>: the fires of scheduled automations. Two hot files keep the fires that are running and
  the 256 that ended last; older ones are moved to tables of a database, which commits a transaction as a whole or not at
  all. \<open>date\<close> is \<open>Date.parse\<close>, \<open>None\<close> for \<open>NaN\<close>.
\<close>

section \<open>Rows and the guard of the file\<close>

datatype fire_status = FsPrepared | FsAccepted | FsComplete | FsCancelled | FsError

fun fire_status_text :: "fire_status \<Rightarrow> jstr" where
  "fire_status_text FsPrepared = js ''prepared''"
| "fire_status_text FsAccepted = js ''accepted''"
| "fire_status_text FsComplete = js ''complete''"
| "fire_status_text FsCancelled = js ''cancelled''"
| "fire_status_text FsError = js ''error''"

definition fire_statuses :: "jsval list" where
  "fire_statuses = map (\<lambda>s. Str (fire_status_text s)) [FsPrepared, FsAccepted, FsComplete, FsCancelled, FsError]"

definition terminal_fire :: "jsval \<Rightarrow> bool" where
  "terminal_fire r = (getp r ''status'' \<in> set (map (\<lambda>s. Str (fire_status_text s)) [FsComplete, FsCancelled, FsError]))"

datatype automation_error =
    AutomationCopies copy_error | HistoryMissing | HistoryUnusable | ReceiptInvalid | ReceiptsDisagree
  | ActiveNotArchived | ApprovalsDisagree | IdentitiesDisagree | StatusesDisagree | ApprovalUnavailable
  | FireExists | FireNotFound

definition hex_lower :: "nat \<Rightarrow> bool" where
  "hex_lower u = (48 \<le> u \<and> u \<le> 57 \<or> 97 \<le> u \<and> u \<le> 102)"

definition hex_any :: "nat \<Rightarrow> bool" where
  "hex_any u = (hex_lower u \<or> 65 \<le> u \<and> u \<le> 70)"

text \<open>\<open>UUID\<close> and \<open>HASH\<close>.\<close>

definition uuid_text :: "jstr \<Rightarrow> bool" where
  "uuid_text s = (length s = 36 \<and>
     list_all (\<lambda>(i, u). if i \<in> {8, 13, 18, 23} then u = 45 else hex_any u) (zip [0..<36] s))"

definition hash_text :: "jstr \<Rightarrow> bool" where
  "hash_text s = (length s = 64 \<and> list_all hex_lower s)"

definition id_list :: "jsval \<Rightarrow> bool" where
  "id_list v = (is_array v \<and> length (elements v) < 200 \<and> list_all (text_with (\<lambda>s. length s \<le> 4096)) (elements v))"

definition approval_row :: "(jstr \<Rightarrow> int option) \<Rightarrow> jsval \<Rightarrow> bool" where
  "approval_row date r =
     (is_record r \<and> text_with uuid_text (getp r ''id'') \<and> text_with uuid_text (getp r ''jobId'') \<and>
      text_with uuid_text (getp r ''targetBotId'') \<and> valid_date date (getp r ''targetRevision'') \<and>
      valid_date date (getp r ''createdAt'') \<and> text_with hash_text (getp r ''definitionDigest'') \<and>
      (getp r ''workspacePath'' = Undef \<or> canonical_path (getp r ''workspacePath'')) \<and>
      list_all (\<lambda>k. id_list (getp (getp r ''permissions'') k)) [''connectionIds'', ''workspacePaths'', ''toolIds''] \<and>
      is_bool (getp (getp r ''permissions'') ''allowMutation'') \<and>
      is_bool (getp (getp r ''permissions'') ''allowDelegation''))"

definition automation_prefix :: jstr where
  "automation_prefix = js ''automation:''"

definition fire_shape :: "(jstr \<Rightarrow> int option) \<Rightarrow> jsval \<Rightarrow> bool" where
  "fire_shape date r =
     (is_record r \<and> text_with uuid_text (getp r ''fireId'') \<and> text_with uuid_text (getp r ''jobId'') \<and>
      text_with uuid_text (getp r ''approvalId'') \<and> text_with uuid_text (getp r ''targetBotId'') \<and>
      text_with hash_text (getp r ''fireKeyDigest'') \<and>
      getp r ''sessionId'' =
        Str (automation_prefix @ bare_text (getp r ''jobId'') @ [58] @ bare_text (getp r ''fireId'')) \<and>
      getp r ''runId'' = Str (automation_prefix @ bare_text (getp r ''fireId'')) \<and>
      getp r ''status'' \<in> set fire_statuses \<and>
      valid_date date (getp r ''createdAt'') \<and> valid_date date (getp r ''updatedAt''))"

definition approval_matches :: "jsval \<Rightarrow> jsval \<Rightarrow> bool" where
  "approval_matches r a = (getp a ''id'' = getp r ''approvalId'' \<and> getp a ''jobId'' = getp r ''jobId'' \<and>
     getp a ''targetBotId'' = getp r ''targetBotId'')"

definition fire_key :: "jsval \<Rightarrow> jstr" where
  "fire_key r = bare_text (getp r ''jobId'') @ [58] @ bare_text (getp r ''fireKeyDigest'')"

definition approvals_of :: "jsval \<Rightarrow> jsval list" where
  "approvals_of v = elements (getp v ''approvals'')"

definition fires_of :: "jsval \<Rightarrow> jsval list" where
  "fires_of v = elements (getp v ''fires'')"

definition automation_file :: "(jstr \<Rightarrow> int option) \<Rightarrow> jsval \<Rightarrow> bool" where
  "automation_file date v =
     (getp v ''version'' = Num (Fin 1) \<and> getp v ''historyRequired'' \<in> {Undef, JBool True} \<and> valid_revision v \<and>
      is_array (getp v ''approvals'') \<and> is_array (getp v ''fires'') \<and>
      length (approvals_of v) \<le> 2000 \<and> length (fires_of v) \<le> 5000 \<and>
      list_all (approval_row date) (approvals_of v) \<and>
      list_all (\<lambda>r. fire_shape date r \<and> list_ex (approval_matches r) (approvals_of v)) (fires_of v) \<and>
      all_different (map (\<lambda>a. getp a ''id'') (approvals_of v)) \<and>
      all_different (map (\<lambda>r. getp r ''fireId'') (fires_of v)) \<and>
      distinct (map fire_key (fires_of v)))"

section \<open>The history\<close>

record archived =
  arFire :: jsval
  arJob :: jsval
  arDigest :: jsval
  arRun :: jsval
  arRecord :: jsval

record history_db =
  dbReady :: bool
  dbFires :: "archived list"
  dbApprovals :: "(jsval \<times> jsval) list"

record history =
  hsFile :: "history_db option"
  hsRequired :: bool
  hsInitialize :: bool

text \<open>\<open>isDeepStrictEqual\<close>: the order of properties does not count.\<close>

fun deep_equal :: "jsval \<Rightarrow> jsval \<Rightarrow> bool"
  and deep_items :: "jsval list \<Rightarrow> jsval list \<Rightarrow> bool"
  and deep_properties :: "(string \<times> jsval) list \<Rightarrow> (string \<times> jsval) list \<Rightarrow> bool" where
  "deep_equal (Arr vs) w = (case w of Arr ws \<Rightarrow> deep_items vs ws | _ \<Rightarrow> False)"
| "deep_equal (Obj fs) w = (case w of Obj gs \<Rightarrow> length fs = length gs \<and> deep_properties fs gs | _ \<Rightarrow> False)"
| "deep_equal Undef w = (w = Undef)"
| "deep_equal Null w = (w = Null)"
| "deep_equal (JBool b) w = (w = JBool b)"
| "deep_equal (Num n) w = (w = Num n)"
| "deep_equal (Str s) w = (w = Str s)"
| "deep_items [] ws = (ws = [])"
| "deep_items (v # vs) ws = (case ws of w # us \<Rightarrow> deep_equal v w \<and> deep_items vs us | [] \<Rightarrow> False)"
| "deep_properties [] gs = True"
| "deep_properties ((k, v) # fs) gs =
     ((case map_of gs k of Some w \<Rightarrow> deep_equal v w | None \<Rightarrow> False) \<and> deep_properties fs gs)"

definition set_recovery_requirement :: "bool \<Rightarrow> history \<Rightarrow> history" where
  "set_recovery_requirement required h =
     h\<lparr>hsRequired := hsRequired h \<or> required, hsInitialize := \<not> required\<rparr>"

definition history_exists :: "history \<Rightarrow> automation_error + bool" where
  "history_exists h =
     (if hsRequired h \<and> hsFile h = None then Inl HistoryMissing else Inr (hsFile h \<noteq> None))"

text \<open>\<open>open\<close> creates the file when it is absent, and the tables when it may.\<close>

definition open_history :: "history \<Rightarrow> (automation_error, history_db, history) outcome" where
  "open_history h =
     (let db = (case hsFile h of None \<Rightarrow> \<lparr>dbReady = False, dbFires = [], dbApprovals = []\<rparr> | Some d \<Rightarrow> d);
        d = (if \<not> dbReady db \<and> hsInitialize h then db\<lparr>dbReady := True\<rparr> else db) in
      if dbReady d then (Inr d, h\<lparr>hsFile := Some d, hsRequired := True, hsInitialize := False\<rparr>)
      else (Inl HistoryUnusable, h\<lparr>hsFile := Some d\<rparr>))"

definition decode_archived :: "archived \<Rightarrow> automation_error + jsval" where
  "decode_archived a =
     (if getp (arRecord a) ''fireId'' \<noteq> arFire a \<or> getp (arRecord a) ''jobId'' \<noteq> arJob a \<or>
       getp (arRecord a) ''fireKeyDigest'' \<noteq> arDigest a \<or> getp (arRecord a) ''runId'' \<noteq> arRun a \<or>
       \<not> terminal_fire (arRecord a) then Inl ReceiptInvalid else Inr (arRecord a))"

text \<open>\<open>find(field, id, digest)\<close>, with the \<open>WHERE\<close> clause as a predicate on rows.\<close>

definition history_find :: "(archived \<Rightarrow> bool) \<Rightarrow> history \<Rightarrow> (automation_error, jsval option, history) outcome" where
  "history_find where_clause h = (case history_exists h of
     Inl e \<Rightarrow> (Inl e, h)
   | Inr False \<Rightarrow> (Inr None, h)
   | Inr True \<Rightarrow>
       (case open_history h of
          (Inl e, h') \<Rightarrow> (Inl e, h')
        | (Inr db, h') \<Rightarrow>
            (case find where_clause (dbFires db) of
               None \<Rightarrow> (Inr None, h')
             | Some a \<Rightarrow>
                 (case decode_archived a of Inl e \<Rightarrow> (Inl e, h') | Inr r \<Rightarrow> (Inr (Some r), h')))))"

definition history_approval :: "jsval \<Rightarrow> history \<Rightarrow> (automation_error, jsval option, history) outcome" where
  "history_approval i h = (case history_exists h of
     Inl e \<Rightarrow> (Inl e, h)
   | Inr False \<Rightarrow> (Inr None, h)
   | Inr True \<Rightarrow>
       (case open_history h of
          (Inl e, h') \<Rightarrow> (Inl e, h')
        | (Inr db, h') \<Rightarrow>
            (case map_of (dbApprovals db) i of
               None \<Rightarrow> (Inr None, h')
             | Some a \<Rightarrow>
                 if getp a ''id'' \<noteq> i then (Inl ApprovalsDisagree, h') else (Inr (Some a), h'))))"

text \<open>\<open>{ status, updatedAt, ...identity }\<close>.\<close>

definition identity_of :: "jsval \<Rightarrow> jsval" where
  "identity_of r = (case r of Obj fs \<Rightarrow> Obj (AList.delete ''updatedAt'' (AList.delete ''status'' fs)) | _ \<Rightarrow> r)"

fun check_archived :: "jsval \<Rightarrow> archived list \<Rightarrow> automation_error + unit" where
  "check_archived r [] = Inr ()"
| "check_archived r (a # as) = (case decode_archived a of
     Inl e \<Rightarrow> Inl e
   | Inr x \<Rightarrow>
       if \<not> deep_equal (identity_of r) (identity_of x) then Inl IdentitiesDisagree
       else if terminal_fire r \<and> getp r ''status'' \<noteq> getp x ''status'' then Inl StatusesDisagree
       else check_archived r as)"

definition archived_matches :: "history_db \<Rightarrow> jsval \<Rightarrow> archived list" where
  "archived_matches db r = filter (\<lambda>a. arFire a = getp r ''fireId'' \<or>
     arJob a = getp r ''jobId'' \<and> arDigest a = getp r ''fireKeyDigest'') (dbFires db)"

fun reconcile_fires :: "history_db \<Rightarrow> jsval list \<Rightarrow> automation_error + jsval list" where
  "reconcile_fires db [] = Inr []"
| "reconcile_fires db (r # rs) = (case check_archived r (archived_matches db r) of
     Inl e \<Rightarrow> Inl e
   | Inr _ \<Rightarrow>
       (case reconcile_fires db rs of
          Inl e \<Rightarrow> Inl e
        | Inr us \<Rightarrow> Inr (if archived_matches db r = [] then r # us else us)))"

definition reconcile_history :: "jsval list \<Rightarrow> jsval list \<Rightarrow> history \<Rightarrow> (automation_error, jsval list, history) outcome" where
  "reconcile_history fires approvals h = (case history_exists h of
     Inl e \<Rightarrow> (Inl e, h)
   | Inr False \<Rightarrow> (Inr fires, h)
   | Inr True \<Rightarrow>
       (case open_history h of
          (Inl e, h') \<Rightarrow> (Inl e, h')
        | (Inr db, h') \<Rightarrow>
            if list_ex (\<lambda>a. case map_of (dbApprovals db) (getp a ''id'') of
                 Some x \<Rightarrow> \<not> deep_equal x a | None \<Rightarrow> False) approvals
            then (Inl ApprovalsDisagree, h')
            else (reconcile_fires db fires, h')))"

definition archive_row :: "jsval \<Rightarrow> archived" where
  "archive_row r = \<lparr>arFire = getp r ''fireId'', arJob = getp r ''jobId'', arDigest = getp r ''fireKeyDigest'',
     arRun = getp r ''runId'', arRecord = json_clean r\<rparr>"

text \<open>\<open>insert.run\<close> throws when a unique column or pair is taken.\<close>

definition unique_conflict :: "archived list \<Rightarrow> archived \<Rightarrow> bool" where
  "unique_conflict as a = list_ex (\<lambda>x. arFire x = arFire a \<or> arRun x = arRun a \<or>
     arJob x = arJob a \<and> arDigest x = arDigest a) as"

fun retire_fires :: "jsval list \<Rightarrow> history_db \<Rightarrow> automation_error + history_db" where
  "retire_fires [] db = Inr db"
| "retire_fires (r # rs) db = (case find (\<lambda>a. arFire a = getp r ''fireId'') (dbFires db) of
     Some a \<Rightarrow>
       (case decode_archived a of
          Inl e \<Rightarrow> Inl e
        | Inr x \<Rightarrow> if \<not> deep_equal x r then Inl ReceiptsDisagree else retire_fires rs db)
   | None \<Rightarrow>
       if \<not> terminal_fire r then Inl ActiveNotArchived
       else if unique_conflict (dbFires db) (archive_row r) then Inl HistoryUnusable
       else retire_fires rs (db\<lparr>dbFires := dbFires db @ [archive_row r]\<rparr>))"

fun retire_approvals :: "jsval list \<Rightarrow> history_db \<Rightarrow> automation_error + history_db" where
  "retire_approvals [] db = Inr db"
| "retire_approvals (a # as) db = (case map_of (dbApprovals db) (getp a ''id'') of
     Some x \<Rightarrow> if \<not> deep_equal x a then Inl ApprovalsDisagree else retire_approvals as db
   | None \<Rightarrow> retire_approvals as (db\<lparr>dbApprovals := dbApprovals db @ [(getp a ''id'', json_clean a)]\<rparr>))"

text \<open>\<open>broken\<close> says that the transaction fails at some statement; it is rolled back.\<close>

definition retire_history :: "bool \<Rightarrow> jsval list \<Rightarrow> jsval list \<Rightarrow> history \<Rightarrow> (automation_error, unit, history) outcome" where
  "retire_history broken fires approvals h =
     (if fires = [] \<and> approvals = [] then (Inr (), h)
      else case open_history h of
        (Inl e, h') \<Rightarrow> (Inl e, h')
      | (Inr db, h') \<Rightarrow>
          if broken then (Inl HistoryUnusable, h')
          else
            (case retire_fires fires db of
               Inl e \<Rightarrow> (Inl e, h')
             | Inr db1 \<Rightarrow>
                 (case retire_approvals approvals db1 of
                    Inl e \<Rightarrow> (Inl e, h')
                  | Inr db2 \<Rightarrow> (Inr (), h'\<lparr>hsFile := Some db2\<rparr>))))"

section \<open>The ledger\<close>

record automation =
  auLedger :: ledger
  auHistory :: history

definition empty_automation :: jsval where
  "empty_automation =
     Obj [(''version'', Num (Fin 1)), (''revision'', Num (Fin 0)), (''approvals'', Arr []), (''fires'', Arr [])]"

definition max_automation_bytes :: nat where "max_automation_bytes = 8000000"

definition hot_fires :: "automation \<Rightarrow> jsval list" where
  "hot_fires s = fires_of (lgStored (auLedger s))"

definition hot_approvals :: "automation \<Rightarrow> jsval list" where
  "hot_approvals s = approvals_of (lgStored (auLedger s))"

text \<open>The constructor: the two hot files, then the history.\<close>

definition open_automation ::
  "(number \<Rightarrow> jstr) \<Rightarrow> (jstr \<Rightarrow> int option) \<Rightarrow> automation \<Rightarrow> (automation_error, unit, automation) outcome" where
  "open_automation shortest date s =
     (case open_copies shortest (automation_file date) max_automation_bytes empty_automation (lgDisk (auLedger s)) of
        Inl e \<Rightarrow> (Inl (AutomationCopies e), s)
      | Inr v \<Rightarrow>
          let db = hsFile (auHistory s);
            h = set_recovery_requirement (getp v ''historyRequired'' = JBool True)
              \<lparr>hsFile = db, hsRequired = (db \<noteq> None), hsInitialize = False\<rparr> in
          case reconcile_history (fires_of v) (approvals_of v) h of
            (Inl e, h') \<Rightarrow> (Inl e, s\<lparr>auHistory := h'\<rparr>)
          | (Inr fs, h') \<Rightarrow>
              (Inr (), \<lparr>auLedger = (auLedger s)\<lparr>lgStored := setp v ''fires'' (Arr fs), lgFailed := False\<rparr>,
                 auHistory = h'\<rparr>))"

text \<open>\<open>sort((a, b) => Date.parse(b.updatedAt) - Date.parse(a.updatedAt))\<close> is stable.\<close>

definition fire_time :: "(jstr \<Rightarrow> int option) \<Rightarrow> jsval \<Rightarrow> int" where
  "fire_time date r = (case date (bare_text (getp r ''updatedAt'')) of Some t \<Rightarrow> t | None \<Rightarrow> 0)"

definition retired_fires :: "(jstr \<Rightarrow> int option) \<Rightarrow> jsval list \<Rightarrow> jsval list" where
  "retired_fires date fs = drop 256 (sort_key (\<lambda>r. - fire_time date r) (filter terminal_fire fs))"

definition kept_fires :: "(jstr \<Rightarrow> int option) \<Rightarrow> jsval list \<Rightarrow> jsval list" where
  "kept_fires date fs =
     filter (\<lambda>r. getp r ''fireId'' \<notin> set (map (\<lambda>x. getp x ''fireId'') (retired_fires date fs))) fs"

text \<open>The approvals the kept fires refer to, from the value or from the history.\<close>

fun gather_approvals :: "jsval list \<Rightarrow> jsval list \<Rightarrow> history \<Rightarrow> (automation_error, jsval list, history) outcome" where
  "gather_approvals rows [] h = (Inr [], h)"
| "gather_approvals rows (i # is) h =
     (case (case find (\<lambda>a. getp a ''id'' = i) rows of Some a \<Rightarrow> (Inr (Some a), h) | None \<Rightarrow> history_approval i h) of
        (Inl e, h') \<Rightarrow> (Inl e, h')
      | (Inr None, h') \<Rightarrow> (Inl ApprovalUnavailable, h')
      | (Inr (Some a), h') \<Rightarrow>
          (case gather_approvals rows is h' of
             (Inl e, h'') \<Rightarrow> (Inl e, h'')
           | (Inr as, h'') \<Rightarrow> (Inr (a # as), h'')))"

definition automation_value :: "jsval \<Rightarrow> rat \<Rightarrow> jsval list \<Rightarrow> bool \<Rightarrow> jsval list \<Rightarrow> jsval" where
  "automation_value v q fs flag as =
     (let u = setp (with_revision v q) ''fires'' (Arr fs);
        w = (if flag then setp u ''historyRequired'' (JBool True) else u) in
      setp w ''approvals'' (Arr as))"

definition fail_automation :: "automation \<Rightarrow> automation" where
  "fail_automation s = s\<lparr>auLedger := (auLedger s)\<lparr>lgFailed := True\<rparr>\<rparr>"

text \<open>\<open>broken\<close> is the fault of the transaction, \<open>fault\<close> the statement after it that throws.\<close>

definition save_automation ::
  "(number \<Rightarrow> jstr) \<Rightarrow> (jstr \<Rightarrow> int option) \<Rightarrow> bool \<times> save_point option \<Rightarrow> jsval \<Rightarrow> automation \<Rightarrow>
   (automation_error, unit, automation) outcome" where
  "save_automation shortest date faults v s =
     (if lgFailed (auLedger s) then (Inl (AutomationCopies NeedsRecovery), s)
      else
        let retired = retired_fires date (fires_of v); fires = kept_fires date (fires_of v) in
        case gather_approvals (approvals_of v) (first_of_each (map (\<lambda>r. getp r ''approvalId'') fires)) (auHistory s) of
          (Inl e, h) \<Rightarrow> (Inl e, s\<lparr>auHistory := h\<rparr>)
        | (Inr approvals, h) \<Rightarrow>
            let archive = filter (\<lambda>a. getp a ''id'' \<notin> set (map (\<lambda>x. getp x ''id'') approvals)) (approvals_of v) in
            case history_exists h of
              Inl e \<Rightarrow> (Inl e, s\<lparr>auHistory := h\<rparr>)
            | Inr known \<Rightarrow>
                let u = automation_value v (revision (lgStored (auLedger s)) + 1) fires
                    (known \<or> retired \<noteq> [] \<or> archive \<noteq> []) approvals in
                if max_automation_bytes < pretty_bytes shortest u + 1 \<or> 2000 < length approvals \<or> 5000 < length fires
                then (Inl (AutomationCopies LedgerFull), s\<lparr>auHistory := h\<rparr>)
                else
                  case retire_history (fst faults) retired archive h of
                    (Inl e, h') \<Rightarrow> (Inl e, fail_automation (s\<lparr>auHistory := h'\<rparr>))
                  | (Inr _, h') \<Rightarrow>
                      case commit_value shortest (snd faults) u (auLedger s) of
                        (Inl e, l) \<Rightarrow> (Inl (AutomationCopies e), \<lparr>auLedger = l, auHistory = h'\<rparr>)
                      | (Inr _, l) \<Rightarrow> (Inr (), \<lparr>auLedger = l, auHistory = h'\<rparr>))"

section \<open>The operations\<close>

text \<open>The four lookups: the hot rows first, then the history.\<close>

definition automation_lookup ::
  "(jsval \<Rightarrow> bool) \<Rightarrow> (automation \<Rightarrow> jsval list) \<Rightarrow> (history \<Rightarrow> (automation_error, jsval option, history) outcome) \<Rightarrow>
   automation \<Rightarrow> (automation_error, jsval option, automation) outcome" where
  "automation_lookup hot rows cold s =
     (if lgFailed (auLedger s) then (Inl (AutomationCopies NeedsRecovery), s)
      else case find hot (rows s) of
        Some r \<Rightarrow> (Inr (Some r), s)
      | None \<Rightarrow> (case cold (auHistory s) of (res, h) \<Rightarrow> (res, s\<lparr>auHistory := h\<rparr>)))"

definition automation_approval :: "jsval \<Rightarrow> automation \<Rightarrow> (automation_error, jsval option, automation) outcome" where
  "automation_approval i = automation_lookup (\<lambda>a. getp a ''id'' = i) hot_approvals (history_approval i)"

definition get_fire :: "jsval \<Rightarrow> automation \<Rightarrow> (automation_error, jsval option, automation) outcome" where
  "get_fire i =
     automation_lookup (\<lambda>r. getp r ''fireId'' = i) hot_fires (history_find (\<lambda>a. arFire a = i))"

definition fire_for_key :: "jsval \<Rightarrow> jsval \<Rightarrow> automation \<Rightarrow> (automation_error, jsval option, automation) outcome" where
  "fire_for_key job digest =
     automation_lookup (\<lambda>r. getp r ''jobId'' = job \<and> getp r ''fireKeyDigest'' = digest) hot_fires
       (history_find (\<lambda>a. arJob a = job \<and> arDigest a = digest))"

definition fire_by_run :: "jsval \<Rightarrow> automation \<Rightarrow> (automation_error, jsval option, automation) outcome" where
  "fire_by_run i =
     automation_lookup (\<lambda>r. getp r ''runId'' = i) hot_fires (history_find (\<lambda>a. arRun a = i))"

definition list_fires :: "automation \<Rightarrow> automation_error + jsval list" where
  "list_fires s = (if lgFailed (auLedger s) then Inl (AutomationCopies NeedsRecovery) else Inr (hot_fires s))"

definition approve_target ::
  "(number \<Rightarrow> jstr) \<Rightarrow> (jstr \<Rightarrow> int option) \<Rightarrow> bool \<times> save_point option \<Rightarrow> jsval \<Rightarrow> automation \<Rightarrow>
   (automation_error, unit, automation) outcome" where
  "approve_target shortest date faults a s =
     save_automation shortest date faults
       (setp (lgStored (auLedger s)) ''approvals'' (Arr (hot_approvals s @ [a]))) s"

definition prepare_fire ::
  "(number \<Rightarrow> jstr) \<Rightarrow> (jstr \<Rightarrow> int option) \<Rightarrow> bool \<times> save_point option \<Rightarrow> jsval \<Rightarrow> automation \<Rightarrow>
   (automation_error, unit, automation) outcome" where
  "prepare_fire shortest date faults r s =
     (case fire_for_key (getp r ''jobId'') (getp r ''fireKeyDigest'') s of
        (Inl e, t) \<Rightarrow> (Inl e, t)
      | (Inr (Some _), t) \<Rightarrow> (Inl FireExists, t)
      | (Inr None, t) \<Rightarrow>
          save_automation shortest date faults
            (setp (lgStored (auLedger t)) ''fires'' (Arr (hot_fires t @ [r]))) t)"

definition next_fire :: "fire_status \<Rightarrow> jstr \<Rightarrow> jsval \<Rightarrow> jsval" where
  "next_fire q now r = setp (setp r ''status'' (Str (fire_status_text q))) ''updatedAt'' (Str now)"

definition update_fire ::
  "(number \<Rightarrow> jstr) \<Rightarrow> (jstr \<Rightarrow> int option) \<Rightarrow> bool \<times> save_point option \<Rightarrow> jstr \<Rightarrow> jsval \<Rightarrow> fire_status \<Rightarrow> automation \<Rightarrow>
   (automation_error, jsval, automation) outcome" where
  "update_fire shortest date faults now i q s = (case get_fire i s of
     (Inl e, t) \<Rightarrow> (Inl e, t)
   | (Inr None, t) \<Rightarrow> (Inl FireNotFound, t)
   | (Inr (Some r), t) \<Rightarrow>
       if terminal_fire r then (Inr r, t)
       else
         let u = next_fire q now r in
         case save_automation shortest date faults
           (setp (lgStored (auLedger t)) ''fires''
             (Arr (map (\<lambda>x. if getp x ''fireId'' = i then u else x) (hot_fires t)))) t of
           (Inl e, t') \<Rightarrow> (Inl e, t')
         | (Inr _, t') \<Rightarrow> (Inr u, t'))"

section \<open>The life of a ledger\<close>

text \<open>
  Calls, restarts and the loss of one hot file. A process that cannot open the ledger answers no call,
  as if a save had failed.
\<close>

datatype automation_event =
    ApproveTarget jsval "bool \<times> save_point option"
  | PrepareFire jsval "bool \<times> save_point option"
  | UpdateFire jsval fire_status jstr "bool \<times> save_point option"
  | ReadFire jsval
  | ReadKey jsval jsval
  | ReadRun jsval
  | ReadApproval jsval
  | RestartAutomation
  | LoseHot bool copy

definition new_automation :: automation where
  "new_automation =
     \<lparr>auLedger = \<lparr>lgStored = empty_automation, lgFailed = False, lgDisk = \<lparr>cpPrimary = Missing, cpBackup = Missing\<rparr>\<rparr>,
      auHistory = \<lparr>hsFile = None, hsRequired = False, hsInitialize = True\<rparr>\<rparr>"

fun automation_step :: "(number \<Rightarrow> jstr) \<Rightarrow> (jstr \<Rightarrow> int option) \<Rightarrow> automation \<Rightarrow> automation_event \<Rightarrow> automation" where
  "automation_step shortest date s (ApproveTarget a faults) = snd (approve_target shortest date faults a s)"
| "automation_step shortest date s (PrepareFire r faults) = snd (prepare_fire shortest date faults r s)"
| "automation_step shortest date s (UpdateFire i q now faults) = snd (update_fire shortest date faults now i q s)"
| "automation_step shortest date s (ReadFire i) = snd (get_fire i s)"
| "automation_step shortest date s (ReadKey job digest) = snd (fire_for_key job digest s)"
| "automation_step shortest date s (ReadRun i) = snd (fire_by_run i s)"
| "automation_step shortest date s (ReadApproval i) = snd (automation_approval i s)"
| "automation_step shortest date s RestartAutomation =
     (case open_automation shortest date s of (Inr _, t) \<Rightarrow> t | (Inl _, t) \<Rightarrow> fail_automation t)"
| "automation_step shortest date s (LoseHot primary c) =
     s\<lparr>auLedger := (auLedger s)\<lparr>lgDisk := lose_copy primary c (lgDisk (auLedger s))\<rparr>\<rparr>"

end
