(* ===== verification/AutomationFacts.thy ===== *)
theory AutomationFacts
  imports AutomationLedger
begin

text \<open>
  What the automation ledger keeps. \<open>mint\<close> gives the fire and \<open>appr\<close> the approval that was made for an identifier: the host
  makes each with \<open>randomUUID()\<close>, so an identifier names one of them. The facts that must not be lost are the fires known, their
  final status, and the approvals; the hot files hold them together with the history.
\<close>

section \<open>Rows\<close>

definition approval_typed :: "(jstr \<Rightarrow> int option) \<Rightarrow> (jsval \<Rightarrow> jsval) \<Rightarrow> jsval \<Rightarrow> bool" where
  "approval_typed date appr a \<longleftrightarrow>
     object_wf a \<and> json_clean a = a \<and> approval_row date a \<and> appr (getp a ''id'') = a"

definition fire_typed ::
  "(jstr \<Rightarrow> int option) \<Rightarrow> (jsval \<Rightarrow> jsval) \<Rightarrow> (jsval \<Rightarrow> jsval) \<Rightarrow> jsval \<Rightarrow> bool" where
  "fire_typed date mint appr r \<longleftrightarrow>
     object_wf r \<and> json_clean r = r \<and> fire_shape date r \<and>
     getp r ''jobId'' = getp (mint (getp r ''fireId'')) ''jobId'' \<and>
     getp r ''fireKeyDigest'' = getp (mint (getp r ''fireId'')) ''fireKeyDigest'' \<and>
     approval_matches r (appr (getp r ''approvalId''))"

lemma fire_typed_shape: "fire_typed date mint appr r \<Longrightarrow> fire_shape date r"
  by (simp add: fire_typed_def)

lemma fire_texts:
  assumes "fire_typed date mint appr r"
  obtains i j d a q where "getp r ''fireId'' = Str i" "getp r ''jobId'' = Str j" "getp r ''fireKeyDigest'' = Str d"
    "getp r ''approvalId'' = Str a" "getp r ''status'' = Str (fire_status_text q)" "length j = 36"
proof -
  have t: "text_with uuid_text (getp r ''fireId'')" "text_with uuid_text (getp r ''jobId'')"
    "text_with uuid_text (getp r ''approvalId'')" "text_with hash_text (getp r ''fireKeyDigest'')"
    "getp r ''status'' \<in> set fire_statuses"
    using fire_typed_shape [OF assms] by (simp_all add: fire_shape_def)
  then obtain i j a d where "getp r ''fireId'' = Str i" "getp r ''jobId'' = Str j" "uuid_text j"
    "getp r ''approvalId'' = Str a" "getp r ''fireKeyDigest'' = Str d"
    by (auto simp: text_with_Str)
  moreover obtain q where "getp r ''status'' = Str (fire_status_text q)"
    using t(5) unfolding fire_statuses_def set_map by blast
  ultimately show thesis using that by (simp add: uuid_text_def)
qed

lemma approval_text:
  assumes "approval_typed date appr a"
  obtains i where "getp a ''id'' = Str i"
  using assms by (fastforce simp: approval_typed_def approval_row_def text_with_Str)

text \<open>A job identifier has 36 units, so the text of a key determines both of its parts.\<close>

definition key_of :: "jsval \<Rightarrow> jsval \<times> jsval" where
  "key_of r = (getp r ''jobId'', getp r ''fireKeyDigest'')"

lemma fire_key_eq:
  assumes r: "fire_typed date mint appr r" and x: "fire_typed date mint appr x"
  shows "fire_key r = fire_key x \<longleftrightarrow> key_of r = key_of x"
  by (rule fire_texts [OF r]; rule fire_texts [OF x]) (auto simp: fire_key_def key_of_def bare_text_def)

lemma fire_same_key:
  "fire_typed date mint appr r \<Longrightarrow> fire_typed date mint appr x \<Longrightarrow> getp r ''fireId'' = getp x ''fireId'' \<Longrightarrow>
   key_of r = key_of x"
  by (simp add: fire_typed_def key_of_def)

lemma distinct_fire_ids:
  assumes "list_all (fire_typed date mint appr) fs" "distinct (map fire_key fs)"
  shows "distinct (map (\<lambda>r. getp r ''fireId'') fs)"
  using assms fire_same_key fire_key_eq unfolding distinct_map list_all_iff inj_on_def by metis

text \<open>Properties with string values through \<open>isDeepStrictEqual\<close>.\<close>

lemma deep_properties_map_of:
  "deep_properties fs gs \<Longrightarrow> map_of fs k = Some v \<Longrightarrow> \<exists>w. map_of gs k = Some w \<and> deep_equal v w"
  by (induction fs) (auto split: option.splits if_splits)

lemma deep_equal_getp:
  assumes "deep_equal x r" "getp x k = Str s"
  shows "getp r k = Str s"
proof -
  obtain fs where x: "x = Obj fs" and m: "map_of fs k = Some (Str s)"
    using assms(2) by (cases x) (auto split: option.splits)
  then obtain gs where r: "r = Obj gs" and "deep_properties fs gs" using assms(1) by (cases r) auto
  then obtain w where "map_of gs k = Some w" "deep_equal (Str s) w" using deep_properties_map_of m by blast
  with r show ?thesis by simp
qed

lemma getp_identity: "k \<notin> {''status'', ''updatedAt''} \<Longrightarrow> getp (identity_of r) k = getp r k"
  by (cases r) (auto simp: identity_of_def delete_conv)

section \<open>Facts and soundness\<close>

datatype fire_fact = FireKnown jsval jsval jsval | FireEnded jsval jsval | ApprovalKnown jsval

definition row_facts :: "jsval \<Rightarrow> fire_fact set" where
  "row_facts r =
     insert (FireKnown (getp r ''jobId'') (getp r ''fireKeyDigest'') (getp r ''fireId''))
       (if terminal_fire r then {FireEnded (getp r ''fireId'') (getp r ''status'')} else {})"

definition facts_of :: "jsval list \<Rightarrow> jsval list \<Rightarrow> fire_fact set" where
  "facts_of as fs = (\<lambda>a. ApprovalKnown (getp a ''id'')) ` set as \<union> \<Union> (row_facts ` set fs)"

definition hot_facts :: "jsval \<Rightarrow> fire_fact set" where
  "hot_facts v = facts_of (approvals_of v) (fires_of v)"

definition cold_rows :: "history \<Rightarrow> archived list" where
  "cold_rows h = (case hsFile h of None \<Rightarrow> [] | Some db \<Rightarrow> dbFires db)"

definition cold_approvals :: "history \<Rightarrow> (jsval \<times> jsval) list" where
  "cold_approvals h = (case hsFile h of None \<Rightarrow> [] | Some db \<Rightarrow> dbApprovals db)"

definition cold_facts :: "history \<Rightarrow> fire_fact set" where
  "cold_facts h = facts_of (map snd (cold_approvals h)) (map arRecord (cold_rows h))"

definition rows_typed ::
  "(jstr \<Rightarrow> int option) \<Rightarrow> (jsval \<Rightarrow> jsval) \<Rightarrow> (jsval \<Rightarrow> jsval) \<Rightarrow> jsval list \<Rightarrow> jsval list \<Rightarrow> bool" where
  "rows_typed date mint appr as fs \<longleftrightarrow>
     list_all (approval_typed date appr) as \<and> list_all (fire_typed date mint appr) fs \<and> distinct (map fire_key fs)"

definition automation_base :: "jsval \<Rightarrow> bool" where
  "automation_base v \<longleftrightarrow> object_wf v \<and> getp v ''version'' = Num (Fin 1) \<and> getp v ''historyRequired'' \<in> {Undef, JBool True} \<and>
     natural_revision v \<and> is_array (getp v ''approvals'') \<and> is_array (getp v ''fires'')"

definition automation_sound :: "(jstr \<Rightarrow> int option) \<Rightarrow> (jsval \<Rightarrow> jsval) \<Rightarrow> (jsval \<Rightarrow> jsval) \<Rightarrow> jsval \<Rightarrow> bool" where
  "automation_sound date mint appr v \<longleftrightarrow>
     automation_base v \<and> length (approvals_of v) \<le> 2000 \<and> length (fires_of v) \<le> 5000 \<and>
     rows_typed date mint appr (approvals_of v) (fires_of v) \<and>
     distinct (map (\<lambda>a. getp a ''id'') (approvals_of v)) \<and>
     (\<forall>r \<in> set (fires_of v). getp r ''approvalId'' \<in> (\<lambda>a. getp a ''id'') ` set (approvals_of v))"

lemma rows_clean:
  assumes "rows_typed date mint appr as fs"
  shows "map json_clean as = as" "map json_clean fs = fs"
  using assms by (auto simp: rows_typed_def list_all_iff approval_typed_def fire_typed_def intro!: map_idI)

lemma array_elements: "is_array v \<Longrightarrow> v = Arr (elements v)"
  by (cases v) (auto simp: is_array_def)

lemma automation_clean:
  assumes "automation_base v" "rows_typed date mint appr (approvals_of v) (fires_of v)"
    and "k \<in> {''version'', ''historyRequired'', ''revision'', ''approvals'', ''fires''}"
  shows "getp (json_clean v) k = getp v k"
proof -
  have w: "object_wf v" and n: "natural_revision v" and h: "getp v ''historyRequired'' \<in> {Undef, JBool True}"
    and g: "getp v ''version'' = Num (Fin 1)"
    using assms(1) by (auto simp: automation_base_def)
  have a: "getp v ''approvals'' = Arr (approvals_of v)" and f: "getp v ''fires'' = Arr (fires_of v)"
    using assms(1) array_elements by (auto simp: automation_base_def approvals_of_def fires_of_def)
  have "json_clean (getp v k) = getp v k \<or> getp v k = Undef"
    using assms(3) a f g h n rows_clean [OF assms(2)]
    by (auto simp: natural_revision_def clean_items_map)
  with w show ?thesis by (auto simp: getp_clean)
qed

lemma automation_same:
  assumes "\<And>k. k \<in> {''version'', ''historyRequired'', ''revision'', ''approvals'', ''fires''} \<Longrightarrow> getp w k = getp v k"
    and "automation_sound date mint appr v" "object_wf w"
  shows "automation_sound date mint appr w" "hot_facts w = hot_facts v" "revision w = revision v"
  using assms by (auto simp: automation_sound_def automation_base_def natural_revision_def approvals_of_def fires_of_def
      hot_facts_def revision_def)

lemma automation_valid:
  assumes s: "automation_sound date mint appr v" and r: "valid_revision v"
  shows "automation_file date v"
proof -
  have t: "rows_typed date mint appr (approvals_of v) (fires_of v)" using s by (simp add: automation_sound_def)
  have m: "list_ex (approval_matches x) (approvals_of v)" if x: "x \<in> set (fires_of v)" for x
  proof -
    obtain a where a: "a \<in> set (approvals_of v)" "getp a ''id'' = getp x ''approvalId''"
      using s x by (fastforce simp: automation_sound_def)
    then have "appr (getp x ''approvalId'') = a" using t by (auto simp: rows_typed_def list_all_iff approval_typed_def)
    then have "approval_matches x a" using t x by (auto simp: rows_typed_def list_all_iff fire_typed_def)
    with a(1) show ?thesis by (auto simp: list_ex_iff)
  qed
  have "distinct (map (\<lambda>r. getp r ''fireId'') (fires_of v))"
    using t by (intro distinct_fire_ids) (auto simp: rows_typed_def)
  with s r m t show ?thesis
    by (auto simp: automation_file_def automation_sound_def automation_base_def rows_typed_def list_all_iff
        approval_typed_def fire_typed_def intro: all_different_distinct)
qed

text \<open>The hot files satisfy the contract of a ledger in two copies, whatever the history holds.\<close>

interpretation fired: copied_ledger shortest "automation_file date" max_automation_bytes empty_automation
    "automation_sound date mint appr" "\<lambda>v. hot_facts v \<union> cold"
  for shortest date mint appr cold
proof
  show "automation_sound date mint appr empty_automation"
    by (simp add: automation_sound_def automation_base_def empty_automation_def approvals_of_def fires_of_def rows_typed_def
        is_array_def object_wf_def natural_revision_zero)
next
  show "json_clean empty_automation = empty_automation" by (simp add: empty_automation_def)
next
  fix v assume s: "automation_sound date mint appr v"
  then have g: "getp (json_clean v) k = getp v k"
    if "k \<in> {''version'', ''historyRequired'', ''revision'', ''approvals'', ''fires''}" for k
    using automation_clean [OF _ _ that] by (auto simp: automation_sound_def)
  have w: "object_wf (json_clean v)" using s by (simp add: automation_sound_def automation_base_def)
  have same: "automation_sound date mint appr (json_clean v)" "hot_facts (json_clean v) = hot_facts v"
    "revision (json_clean v) = revision v"
    by (rule automation_same [where v = v, OF _ s w], rule g, assumption)+
  then show "automation_sound date mint appr (json_clean v)" "hot_facts (json_clean v) \<union> cold = hot_facts v \<union> cold"
    "revision (json_clean v) = revision v" by simp_all
  assume "valid_revision v"
  then have "valid_revision (json_clean v)" using g [of "''revision''"] same(3) by (simp add: valid_revision_def)
  with same(1) show "automation_file date (json_clean v)" by (rule automation_valid)
qed

end
