(* ===== verification/AutomationHistory.thy ===== *)
theory AutomationHistory
  imports AutomationFacts
begin

text \<open>
  The history of the automation ledger: what its lookups, its retirement and its reconciliation with the hot files keep.
\<close>

section \<open>Opening\<close>

definition archived_sound ::
  "(jstr \<Rightarrow> int option) \<Rightarrow> (jsval \<Rightarrow> jsval) \<Rightarrow> (jsval \<Rightarrow> jsval) \<Rightarrow> archived \<Rightarrow> bool" where
  "archived_sound date mint appr a \<longleftrightarrow>
     a = archive_row (arRecord a) \<and> fire_typed date mint appr (arRecord a) \<and> terminal_fire (arRecord a)"

definition history_sound ::
  "(jstr \<Rightarrow> int option) \<Rightarrow> (jsval \<Rightarrow> jsval) \<Rightarrow> (jsval \<Rightarrow> jsval) \<Rightarrow> history \<Rightarrow> bool" where
  "history_sound date mint appr h \<longleftrightarrow>
     (\<forall>db. hsFile h = Some db \<longrightarrow> dbReady db) \<and> list_all (archived_sound date mint appr) (cold_rows h) \<and>
     distinct (map (\<lambda>a. (arJob a, arDigest a)) (cold_rows h)) \<and>
     list_all (\<lambda>(i, a). approval_typed date appr a \<and> getp a ''id'' = i) (cold_approvals h)"

definition history_usable :: "history \<Rightarrow> bool" where
  "history_usable h \<longleftrightarrow> (hsFile h = None \<longrightarrow> \<not> hsRequired h \<and> hsInitialize h)"

definition history_kept ::
  "(jstr \<Rightarrow> int option) \<Rightarrow> (jsval \<Rightarrow> jsval) \<Rightarrow> (jsval \<Rightarrow> jsval) \<Rightarrow> history \<Rightarrow> history \<Rightarrow> bool" where
  "history_kept date mint appr h h' \<longleftrightarrow>
     history_sound date mint appr h' \<and> history_usable h' \<and> cold_rows h' = cold_rows h \<and> cold_approvals h' = cold_approvals h"

lemma history_kept_refl: "history_sound date mint appr h \<Longrightarrow> history_usable h \<Longrightarrow> history_kept date mint appr h h"
  by (simp add: history_kept_def)

lemma history_kept_trans:
  "history_kept date mint appr h h' \<Longrightarrow> history_kept date mint appr h' h'' \<Longrightarrow> history_kept date mint appr h h''"
  by (simp add: history_kept_def)

lemma kept_facts: "history_kept date mint appr h h' \<Longrightarrow> cold_facts h' = cold_facts h"
  by (simp add: history_kept_def cold_facts_def)

lemma exists_usable: "history_usable h \<Longrightarrow> history_exists h = Inr (hsFile h \<noteq> None)"
  by (auto simp: history_exists_def history_usable_def)

lemma open_usable:
  assumes "history_sound date mint appr h" "history_usable h"
  obtains db h' where "open_history h = (Inr db, h')" "hsFile h' = Some db" "dbFires db = cold_rows h"
    "dbApprovals db = cold_approvals h" "dbReady db" "history_kept date mint appr h h'"
proof (cases "hsFile h")
  case None
  with assms(2) show thesis
    by (intro that [of "\<lparr>dbReady = True, dbFires = [], dbApprovals = []\<rparr>"
          "h\<lparr>hsFile := Some \<lparr>dbReady = True, dbFires = [], dbApprovals = []\<rparr>, hsRequired := True, hsInitialize := False\<rparr>"])
      (auto simp: open_history_def history_usable_def cold_rows_def cold_approvals_def history_kept_def history_sound_def Let_def)
next
  case (Some db)
  with assms have r: "dbReady db" by (simp add: history_sound_def)
  with Some assms show thesis
    by (intro that [of db "h\<lparr>hsFile := Some db, hsRequired := True, hsInitialize := False\<rparr>"])
      (auto simp: open_history_def history_usable_def cold_rows_def cold_approvals_def history_kept_def history_sound_def Let_def)
qed

lemma cold_absent: "hsFile h = None \<Longrightarrow> cold_rows h = [] \<and> cold_approvals h = []"
  by (simp add: cold_rows_def cold_approvals_def)

lemma decode_sound: "archived_sound date mint appr a \<Longrightarrow> decode_archived a = Inr (arRecord a)"
proof -
  assume a: "archived_sound date mint appr a"
  then have "arFire a = getp (arRecord a) ''fireId''" "arJob a = getp (arRecord a) ''jobId''"
    "arDigest a = getp (arRecord a) ''fireKeyDigest''" "arRun a = getp (arRecord a) ''runId''"
    unfolding archived_sound_def archive_row_def by (metis archived.select_convs)+
  with a show ?thesis by (simp add: decode_archived_def archived_sound_def)
qed

lemma archived_columns:
  assumes "archived_sound date mint appr a"
  shows "arFire a = getp (arRecord a) ''fireId''" "arJob a = getp (arRecord a) ''jobId''"
    "arDigest a = getp (arRecord a) ''fireKeyDigest''"
  using assms unfolding archived_sound_def archive_row_def by (metis archived.select_convs)+

section \<open>Lookups\<close>

lemma history_find_usable:
  assumes h: "history_sound date mint appr h" "history_usable h"
  shows "\<exists>h'. history_find P h = (Inr (map_option arRecord (find P (cold_rows h))), h') \<and> history_kept date mint appr h h'"
proof (cases "hsFile h")
  case None
  then show ?thesis using h by (auto simp: history_find_def exists_usable cold_absent history_kept_refl)
next
  case (Some d)
  obtain db h' where o: "open_history h = (Inr db, h')" "dbFires db = cold_rows h" "history_kept date mint appr h h'"
    using open_usable [OF h] by metis
  have d: "find P (cold_rows h) = Some a \<Longrightarrow> decode_archived a = Inr (arRecord a)" for a
    using h(1) decode_sound by (fastforce simp: history_sound_def list_all_iff find_Some_iff)
  show ?thesis
    using o d Some h by (cases "find P (cold_rows h)") (auto simp: history_find_def exists_usable)
qed

lemma history_approval_usable:
  assumes h: "history_sound date mint appr h" "history_usable h"
  shows "\<exists>h'. history_approval i h = (Inr (map_of (cold_approvals h) i), h') \<and> history_kept date mint appr h h'"
proof (cases "hsFile h")
  case None
  then show ?thesis using h by (auto simp: history_approval_def exists_usable cold_absent history_kept_refl)
next
  case (Some d)
  obtain db h' where o: "open_history h = (Inr db, h')" "dbApprovals db = cold_approvals h" "history_kept date mint appr h h'"
    using open_usable [OF h] by metis
  have "map_of (cold_approvals h) i = Some a \<Longrightarrow> getp a ''id'' = i" for a
    using h(1) by (auto simp: history_sound_def list_all_iff dest!: map_of_SomeD)
  then show ?thesis
    using o Some h by (cases "map_of (cold_approvals h) i") (auto simp: history_approval_def exists_usable)
qed

lemma cold_approval_typed:
  "history_sound date mint appr h \<Longrightarrow> map_of (cold_approvals h) i = Some a \<Longrightarrow>
   approval_typed date appr a \<and> getp a ''id'' = i"
  by (auto simp: history_sound_def list_all_iff dest!: map_of_SomeD)

lemma gather_usable:
  assumes "history_sound date mint appr h" "history_usable h" "list_all (approval_typed date appr) rows"
    and "gather_approvals rows is h = (res, h')"
  shows "history_kept date mint appr h h'"
    and "res = Inr as \<Longrightarrow> map (\<lambda>a. getp a ''id'') as = is \<and> list_all (approval_typed date appr) as"
  using assms
proof (induction "is" arbitrary: h h' res as)
  case Nil
  { case 1 then show ?case by (simp add: history_kept_refl) }
  { case 2 then show ?case by simp }
next
  case (Cons i "is")
  have first: "\<exists>h1. (case find (\<lambda>a. getp a ''id'' = i) rows of Some a \<Rightarrow> (Inr (Some a), h) | None \<Rightarrow> history_approval i h) =
      (Inr (case find (\<lambda>a. getp a ''id'' = i) rows of Some a \<Rightarrow> Some a | None \<Rightarrow> map_of (cold_approvals h) i), h1) \<and>
      history_kept date mint appr h h1"
    if "history_sound date mint appr h" "history_usable h" for h
    using history_approval_usable [OF that, of i] history_kept_refl [OF that] by (auto split: option.splits)
  have found: "getp a ''id'' = i \<and> approval_typed date appr a"
    if "(case find (\<lambda>a. getp a ''id'' = i) rows of Some a \<Rightarrow> Some a | None \<Rightarrow> map_of (cold_approvals h) i) = Some a"
      "history_sound date mint appr h" "list_all (approval_typed date appr) rows" for a h
    using that cold_approval_typed
    by (auto simp: find_Some_iff list_all_iff split: option.splits)
  have both: "history_kept date mint appr h h' \<and>
      (\<forall>as. res = Inr as \<longrightarrow> map (\<lambda>a. getp a ''id'') as = i # is \<and> list_all (approval_typed date appr) as)"
    if p: "history_sound date mint appr h" "history_usable h" "list_all (approval_typed date appr) rows"
      "gather_approvals rows (i # is) h = (res, h')" for h h' res
  proof -
    let ?f = "case find (\<lambda>a. getp a ''id'' = i) rows of Some a \<Rightarrow> Some a | None \<Rightarrow> map_of (cold_approvals h) i"
    obtain h1 where f: "(case find (\<lambda>a. getp a ''id'' = i) rows of Some a \<Rightarrow> (Inr (Some a), h)
        | None \<Rightarrow> history_approval i h) = (Inr ?f, h1)" and k: "history_kept date mint appr h h1"
      using first [OF p(1,2)] by blast
    show ?thesis
    proof (cases ?f)
      case None
      with p(4) f k show ?thesis by auto
    next
      case (Some a)
      obtain r2 h2 where g: "gather_approvals rows is h1 = (r2, h2)" by fastforce
      have k1: "history_sound date mint appr h1" "history_usable h1" using k by (simp_all add: history_kept_def)
      have k2: "history_kept date mint appr h1 h2" by (rule Cons.IH(1) [OF k1 p(3) g])
      have a: "getp a ''id'' = i \<and> approval_typed date appr a" by (rule found [OF Some p(1,3)])
      show ?thesis
      proof (cases r2)
        case (Inl e)
        with p(4) f g Some have "h' = h2" "res = Inl e" by auto
        with history_kept_trans [OF k k2] show ?thesis by simp
      next
        case (Inr us)
        with p(4) f g Some have "h' = h2" "res = Inr (a # us)" by auto
        with history_kept_trans [OF k k2] Cons.IH(2) [OF Inr k1 p(3) g] a show ?thesis by simp
      qed
    qed
  qed
  { case 1 then show ?case by (rule both [THEN conjunct1]) }
  { case 2 show ?case using both [OF 2(2-5)] 2(1) by simp }
qed

section \<open>Retirement\<close>

definition row_keys :: "archived list \<Rightarrow> (jsval \<times> jsval) set" where
  "row_keys as = (\<lambda>a. (arJob a, arDigest a)) ` set as"

lemma archive_row_sound:
  "fire_typed date mint appr r \<Longrightarrow> terminal_fire r \<Longrightarrow> archived_sound date mint appr (archive_row r) \<and> arRecord (archive_row r) = r"
  by (simp add: archived_sound_def archive_row_def fire_typed_def)

lemma deep_equal_facts:
  assumes "deep_equal x r" "fire_typed date mint appr x" "terminal_fire x"
  shows "row_facts x = row_facts r"
proof -
  obtain i j d q where x: "getp x ''fireId'' = Str i" "getp x ''jobId'' = Str j" "getp x ''fireKeyDigest'' = Str d"
    "getp x ''status'' = Str (fire_status_text q)"
    using fire_texts [OF assms(2)] by metis
  then have "getp r ''fireId'' = Str i" "getp r ''jobId'' = Str j" "getp r ''fireKeyDigest'' = Str d"
    "getp r ''status'' = Str (fire_status_text q)"
    using deep_equal_getp [OF assms(1)] by auto
  with x assms(3) show ?thesis by (simp add: row_facts_def terminal_fire_def)
qed

lemma retire_fires_sound:
  assumes "retire_fires rs db = Inr db'" "list_all (fire_typed date mint appr) rs"
    and "list_all (archived_sound date mint appr) (dbFires db)" "distinct (map (\<lambda>a. (arJob a, arDigest a)) (dbFires db))"
  shows "list_all (archived_sound date mint appr) (dbFires db') \<and>
    distinct (map (\<lambda>a. (arJob a, arDigest a)) (dbFires db')) \<and> dbReady db' = dbReady db \<and>
    dbApprovals db' = dbApprovals db \<and> row_keys (dbFires db') = row_keys (dbFires db) \<union> key_of ` set rs \<and>
    \<Union> (row_facts ` set (map arRecord (dbFires db'))) = \<Union> (row_facts ` set (map arRecord (dbFires db))) \<union> \<Union> (row_facts ` set rs)"
  using assms
proof (induction rs arbitrary: db)
  case (Cons r rs)
  show ?case
  proof (cases "find (\<lambda>a. arFire a = getp r ''fireId'') (dbFires db)")
    case None
    then have t: "terminal_fire r" "\<not> unique_conflict (dbFires db) (archive_row r)"
      and g: "retire_fires rs (db\<lparr>dbFires := dbFires db @ [archive_row r]\<rparr>) = Inr db'"
      using Cons.prems(1) by (auto split: if_splits)
    have a: "archived_sound date mint appr (archive_row r)" "arRecord (archive_row r) = r"
      using archive_row_sound t(1) Cons.prems(2) by auto
    have i: "(arJob (archive_row r), arDigest (archive_row r)) = key_of r" by (simp add: archive_row_def key_of_def)
    have "distinct (map (\<lambda>a. (arJob a, arDigest a)) (dbFires db @ [archive_row r]))"
      using t(2) Cons.prems(4) by (auto simp: unique_conflict_def list_ex_iff)
    then show ?thesis using Cons.IH [OF g] Cons.prems(2,3) a i by (auto simp: row_keys_def)
  next
    case (Some a)
    then have m: "a \<in> set (dbFires db)" "arFire a = getp r ''fireId''" by (auto simp: find_Some_iff)
    then have s: "archived_sound date mint appr a" using Cons.prems(3) by (simp add: list_all_iff)
    have g: "deep_equal (arRecord a) r" "retire_fires rs db = Inr db'"
      using Cons.prems(1) Some decode_sound [OF s] by (auto split: if_splits)
    have f: "row_facts (arRecord a) = row_facts r"
      using s g(1) deep_equal_facts by (auto simp: archived_sound_def)
    then have "row_facts r \<subseteq> \<Union> (row_facts ` set (map arRecord (dbFires db)))" using m(1) by fastforce
    moreover have "key_of r \<in> row_keys (dbFires db)"
    proof -
      have "key_of r = key_of (arRecord a)"
        using m(2) s archived_columns [OF s] Cons.prems(2) by (intro fire_same_key) (auto simp: archived_sound_def)
      then have "key_of r = (arJob a, arDigest a)" using archived_columns [OF s] by (simp add: key_of_def)
      then show ?thesis using m(1) by (auto simp: row_keys_def)
    qed
    ultimately show ?thesis using Cons.IH [OF g(2)] Cons.prems(2-4) by auto
  qed
qed simp

definition approvals_sound :: "(jstr \<Rightarrow> int option) \<Rightarrow> (jsval \<Rightarrow> jsval) \<Rightarrow> (jsval \<times> jsval) list \<Rightarrow> bool" where
  "approvals_sound date appr = list_all (\<lambda>(i, a). approval_typed date appr a \<and> getp a ''id'' = i)"

lemma retire_approvals_sound:
  assumes "retire_approvals as db = Inr db'" "list_all (approval_typed date appr) as" "approvals_sound date appr (dbApprovals db)"
  shows "approvals_sound date appr (dbApprovals db') \<and> dbReady db' = dbReady db \<and> dbFires db' = dbFires db \<and>
    (\<lambda>a. getp a ''id'') ` snd ` set (dbApprovals db') =
      (\<lambda>a. getp a ''id'') ` snd ` set (dbApprovals db) \<union> (\<lambda>a. getp a ''id'') ` set as"
  using assms
proof (induction as arbitrary: db)
  case (Cons a as)
  show ?case
  proof (cases "map_of (dbApprovals db) (getp a ''id'')")
    case None
    with Cons.prems(1) have g: "retire_approvals as (db\<lparr>dbApprovals := dbApprovals db @ [(getp a ''id'', json_clean a)]\<rparr>) = Inr db'"
      by simp
    have "json_clean a = a" using Cons.prems(2) by (simp add: approval_typed_def)
    then show ?thesis using Cons.IH [OF g] Cons.prems(2,3) by (auto simp: approvals_sound_def)
  next
    case (Some x)
    with Cons.prems(1) have g: "retire_approvals as db = Inr db'" by (auto split: if_splits)
    have "getp a ''id'' \<in> (\<lambda>a. getp a ''id'') ` snd ` set (dbApprovals db)"
      using map_of_SomeD [OF Some] Cons.prems(3) by (force simp: approvals_sound_def list_all_iff)
    then show ?thesis using Cons.IH [OF g] Cons.prems(2,3) by auto
  qed
qed simp

lemma facts_of_union: "facts_of (as @ bs) (fs @ gs) = facts_of as fs \<union> facts_of bs gs"
  by (auto simp: facts_of_def)

lemma retire_usable:
  assumes h: "history_sound date mint appr h" "history_usable h"
    and t: "list_all (fire_typed date mint appr) rs" "list_all (approval_typed date appr) as"
    and r: "retire_history broken rs as h = (res, h')"
  shows "history_sound date mint appr h' \<and> history_usable h'"
    and "res = Inl e \<Longrightarrow> history_kept date mint appr h h'"
    and "res = Inr u \<Longrightarrow> row_keys (cold_rows h') = row_keys (cold_rows h) \<union> key_of ` set rs"
    and "res = Inr u \<Longrightarrow> cold_facts h' = cold_facts h \<union> facts_of as rs"
    and "res = Inr u \<Longrightarrow> hsFile h' = None \<Longrightarrow> h' = h \<and> rs = [] \<and> as = []"
proof -
  have "history_sound date mint appr h' \<and> history_usable h' \<and>
    (case res of Inl e \<Rightarrow> history_kept date mint appr h h'
     | Inr _ \<Rightarrow> row_keys (cold_rows h') = row_keys (cold_rows h) \<union> key_of ` set rs \<and>
         cold_facts h' = cold_facts h \<union> facts_of as rs \<and> (hsFile h' = None \<longrightarrow> h' = h \<and> rs = [] \<and> as = []))"
  proof (cases "rs = [] \<and> as = []")
    case True
    with r h show ?thesis by (auto simp: retire_history_def facts_of_def)
  next
    case False
    obtain db h1 where o: "open_history h = (Inr db, h1)" "hsFile h1 = Some db" "dbFires db = cold_rows h"
      "dbApprovals db = cold_approvals h" "dbReady db" and k: "history_kept date mint appr h h1"
      using open_usable [OF h] by metis
    have kept: "h' = h1 \<Longrightarrow> res = Inl e \<Longrightarrow> ?thesis" for e using k by (auto simp: history_kept_def)
    show ?thesis
    proof (cases "\<not> broken \<and> (\<exists>db1 db2. retire_fires rs db = Inr db1 \<and> retire_approvals as db1 = Inr db2)")
      case True
      then obtain db1 db2 where g: "retire_fires rs db = Inr db1" "retire_approvals as db1 = Inr db2" and "\<not> broken" by blast
      have s: "list_all (archived_sound date mint appr) (dbFires db)" "approvals_sound date appr (dbApprovals db)"
        "distinct (map (\<lambda>a. (arJob a, arDigest a)) (dbFires db))"
        using h(1) o by (auto simp: history_sound_def approvals_sound_def)
      note f = retire_fires_sound [OF g(1) t(1) s(1,3)]
      have "approvals_sound date appr (dbApprovals db1)" using f s(2) by simp
      note a = retire_approvals_sound [OF g(2) t(2) this]
      have e: "res = Inr ()" "h' = h1\<lparr>hsFile := Some db2\<rparr>"
        using r False o(1) g \<open>\<not> broken\<close> by (auto simp: retire_history_def)
      have "history_sound date mint appr h'" "history_usable h'"
        using f a o(5) e by (auto simp: history_sound_def history_usable_def cold_rows_def cold_approvals_def approvals_sound_def)
      moreover have "row_keys (cold_rows h') = row_keys (cold_rows h) \<union> key_of ` set rs"
        using f a o(3) e(2) by (simp add: cold_rows_def)
      moreover have "cold_facts h' = cold_facts h \<union> facts_of as rs"
      proof -
        have "ApprovalKnown ` (\<lambda>a. getp a ''id'') ` snd ` set (dbApprovals db2) =
            ApprovalKnown ` ((\<lambda>a. getp a ''id'') ` snd ` set (dbApprovals db) \<union> (\<lambda>a. getp a ''id'') ` set as)"
          using f a by simp
        moreover have "\<Union> (row_facts ` set (map arRecord (dbFires db2))) =
            \<Union> (row_facts ` set (map arRecord (dbFires db))) \<union> \<Union> (row_facts ` set rs)"
          using f a by simp
        moreover have "cold_rows h' = dbFires db2" "cold_approvals h' = dbApprovals db2"
          using e(2) by (simp_all add: cold_rows_def cold_approvals_def)
        ultimately show ?thesis
          using o(3,4) by (simp add: cold_facts_def facts_of_def image_image image_Un ac_simps)
      qed
      moreover have "hsFile h' \<noteq> None" using e by simp
      ultimately show ?thesis using e(1) by auto
    next
      case False
      then have "h' = h1 \<and> isl res"
        using r o(1) \<open>\<not> (rs = [] \<and> as = [])\<close> by (auto simp: retire_history_def split: if_splits sum.splits)
      with kept show ?thesis by (auto simp: isl_def)
    qed
  qed
  then show "history_sound date mint appr h' \<and> history_usable h'"
    and "res = Inl e \<Longrightarrow> history_kept date mint appr h h'"
    and "res = Inr u \<Longrightarrow> row_keys (cold_rows h') = row_keys (cold_rows h) \<union> key_of ` set rs"
    and "res = Inr u \<Longrightarrow> cold_facts h' = cold_facts h \<union> facts_of as rs"
    and "res = Inr u \<Longrightarrow> hsFile h' = None \<Longrightarrow> h' = h \<and> rs = [] \<and> as = []"
    by auto
qed

section \<open>Reconciliation\<close>

lemma check_archived_facts:
  assumes "check_archived r as = Inr u" "a \<in> set as" "archived_sound date mint appr a" "fire_typed date mint appr r"
    and "list_all (archived_sound date mint appr) as"
  shows "row_facts r \<subseteq> row_facts (arRecord a)"
  using assms
proof (induction as)
  case (Cons b as)
  have b: "decode_archived b = Inr (arRecord b)" using Cons.prems(5) decode_sound by auto
  have c: "deep_equal (identity_of r) (identity_of (arRecord b))"
    "terminal_fire r \<Longrightarrow> getp r ''status'' = getp (arRecord b) ''status''" "check_archived r as = Inr u"
    using Cons.prems(1) b by (auto split: if_splits)
  show ?case
  proof (cases "a = b")
    case True
    obtain i j d where r: "getp r ''fireId'' = Str i" "getp r ''jobId'' = Str j" "getp r ''fireKeyDigest'' = Str d"
      using fire_texts [OF Cons.prems(4)] by metis
    have "getp (arRecord b) k = Str s" if "getp r k = Str s" "k \<notin> {''status'', ''updatedAt''}" for k s
      using deep_equal_getp [OF c(1), of k s] that by (simp add: getp_identity)
    with r c(2) True show ?thesis by (auto simp: row_facts_def terminal_fire_def)
  next
    case False
    with Cons.IH c(3) Cons.prems show ?thesis by auto
  qed
qed simp

lemma reconcile_fires_kept:
  assumes "reconcile_fires db rs = Inr us" "list_all (archived_sound date mint appr) (dbFires db)"
    and "list_all (fire_typed date mint appr) rs"
  shows "us = filter (\<lambda>r. archived_matches db r = []) rs"
    and "\<forall>r \<in> set rs. r \<notin> set us \<longrightarrow> row_facts r \<subseteq> \<Union> (row_facts ` set (map arRecord (dbFires db)))"
proof -
  have "us = filter (\<lambda>r. archived_matches db r = []) rs \<and>
    (\<forall>r \<in> set rs. archived_matches db r \<noteq> [] \<longrightarrow> row_facts r \<subseteq> \<Union> (row_facts ` set (map arRecord (dbFires db))))"
    using assms
  proof (induction rs arbitrary: us)
    case (Cons r rs)
    then obtain ws where c: "check_archived r (archived_matches db r) = Inr ()" "reconcile_fires db rs = Inr ws"
      "us = (if archived_matches db r = [] then r # ws else ws)"
      by (auto split: sum.splits)
    have "row_facts r \<subseteq> \<Union> (row_facts ` set (map arRecord (dbFires db)))" if "archived_matches db r \<noteq> []"
    proof -
      obtain a where a: "a \<in> set (archived_matches db r)" using \<open>archived_matches db r \<noteq> []\<close> by (meson list.set_sel(1))
      then have d: "a \<in> set (dbFires db)" by (simp add: archived_matches_def)
      have "list_all (archived_sound date mint appr) (archived_matches db r)"
        using Cons.prems(2) by (auto simp: archived_matches_def list_all_iff)
      with a d c(1) Cons.prems have "row_facts r \<subseteq> row_facts (arRecord a)"
        by (intro check_archived_facts [of r "archived_matches db r" "()" a date mint appr]) (auto simp: list_all_iff)
      with d show ?thesis by fastforce
    qed
    with Cons.IH [OF c(2)] Cons.prems c(3) show ?case by auto
  qed simp
  then show "us = filter (\<lambda>r. archived_matches db r = []) rs"
    and "\<forall>r \<in> set rs. r \<notin> set us \<longrightarrow> row_facts r \<subseteq> \<Union> (row_facts ` set (map arRecord (dbFires db)))"
    by auto
qed

lemma reconcile_usable:
  assumes h: "history_sound date mint appr h" and n: "hsFile h = None \<Longrightarrow> history_usable h"
    and t: "list_all (fire_typed date mint appr) fs" and r: "reconcile_history fs as h = (Inr us, h')"
  shows "history_kept date mint appr h h'" "set us \<subseteq> set fs" "\<exists>P. us = filter P fs"
    and "\<And>r. r \<in> set fs \<Longrightarrow> r \<notin> set us \<Longrightarrow> row_facts r \<subseteq> cold_facts h"
    and "\<And>r. r \<in> set us \<Longrightarrow> key_of r \<notin> row_keys (cold_rows h)"
proof -
  have u: "history_usable h" using n by (auto simp: history_usable_def)
  have "history_kept date mint appr h h' \<and> (\<exists>P. us = filter P fs) \<and>
      (\<forall>r \<in> set fs. r \<notin> set us \<longrightarrow> row_facts r \<subseteq> cold_facts h) \<and>
      (\<forall>r \<in> set us. key_of r \<notin> row_keys (cold_rows h))"
  proof (cases "hsFile h")
    case None
    then have "us = fs" "h' = h" using r u by (auto simp: reconcile_history_def exists_usable)
    then show ?thesis
      using None h u by (auto simp: cold_absent row_keys_def history_kept_refl intro!: exI [of _ "\<lambda>_. True"])
  next
    case (Some d)
    obtain db h1 where o: "open_history h = (Inr db, h1)" "dbFires db = cold_rows h" and k: "history_kept date mint appr h h1"
      using open_usable [OF h u] by metis
    have c: "reconcile_fires db fs = Inr us" "h' = h1"
      using r o(1) u Some by (auto simp: reconcile_history_def exists_usable split: if_splits)
    have s: "list_all (archived_sound date mint appr) (dbFires db)" using h o(2) by (simp add: history_sound_def)
    note f = reconcile_fires_kept [OF c(1) s t]
    have "key_of r \<notin> row_keys (cold_rows h)" if "r \<in> set us" for r
      using that f(1) o(2) by (auto simp: archived_matches_def row_keys_def key_of_def filter_empty_conv)
    moreover have "\<forall>r \<in> set fs. r \<notin> set us \<longrightarrow> row_facts r \<subseteq> cold_facts h"
    proof (intro ballI impI)
      fix r assume "r \<in> set fs" "r \<notin> set us"
      with f(2) o(2) have "row_facts r \<subseteq> \<Union> (row_facts ` set (map arRecord (cold_rows h)))" by simp
      then show "row_facts r \<subseteq> cold_facts h" by (simp add: cold_facts_def facts_of_def le_supI2)
    qed
    ultimately show ?thesis using k c(2) f(1) by auto
  qed
  then show "history_kept date mint appr h h'" "set us \<subseteq> set fs" "\<exists>P. us = filter P fs"
    and "\<And>r. r \<in> set fs \<Longrightarrow> r \<notin> set us \<Longrightarrow> row_facts r \<subseteq> cold_facts h"
    and "\<And>r. r \<in> set us \<Longrightarrow> key_of r \<notin> row_keys (cold_rows h)"
    by auto
qed

text \<open>Whatever reconciliation answers, the rows stay.\<close>

lemma reconcile_rows:
  assumes h: "history_sound date mint appr h" and r: "reconcile_history fs as h = (res, h')"
  shows "history_sound date mint appr h'" "cold_rows h' = cold_rows h" "cold_approvals h' = cold_approvals h"
proof -
  have "history_sound date mint appr h' \<and> cold_rows h' = cold_rows h \<and> cold_approvals h' = cold_approvals h"
  proof (cases "hsFile h")
    case None
    with r h show ?thesis by (auto simp: reconcile_history_def history_exists_def split: if_splits)
  next
    case (Some d)
    then have u: "history_usable h" by (simp add: history_usable_def)
    obtain db h1 where "open_history h = (Inr db, h1)" and k: "history_kept date mint appr h h1"
      using open_usable [OF h u] by metis
    with r Some have "h' = h1" by (auto simp: reconcile_history_def history_exists_def split: if_splits)
    with k show ?thesis by (simp add: history_kept_def)
  qed
  then show "history_sound date mint appr h'" "cold_rows h' = cold_rows h" "cold_approvals h' = cold_approvals h"
    by blast+
qed

end
