(* ===== verification/AutomationSafety.thy ===== *)
theory AutomationSafety
  imports AutomationHistory
begin

text \<open>
  The promises of the automation ledger over whole lives: a fire that was accepted is known ever after and its key is refused, what
  ended stays as it ended, and a history that is gone is noticed unless nothing depends on it.
\<close>

section \<open>The next value\<close>

lemma set_first_of_each: "set (first_of_each xs) = set xs"
  by (induction xs) auto

lemma distinct_first_of_each: "distinct (first_of_each xs)"
  by (induction xs) auto

lemma automation_value_parts:
  assumes "automation_base v"
  shows "automation_base (automation_value v (revision v + 1) fs flag as)"
    "approvals_of (automation_value v q fs flag as) = as" "fires_of (automation_value v q fs flag as) = fs"
    "revision (automation_value v q fs flag as) = q"
    "getp (automation_value v q fs flag as) ''historyRequired'' = (if flag then JBool True else getp v ''historyRequired'')"
proof -
  have r: "is_record v" using assms by (auto simp: automation_base_def object_wf_record)
  show "automation_base (automation_value v (revision v + 1) fs flag as)"
    using assms r natural_revision_bump [of v]
    by (auto simp: automation_base_def automation_value_def Let_def with_revision_def is_array_def natural_revision_setp)
  show "approvals_of (automation_value v q fs flag as) = as" "fires_of (automation_value v q fs flag as) = fs"
    "revision (automation_value v q fs flag as) = q"
    "getp (automation_value v q fs flag as) ''historyRequired'' = (if flag then JBool True else getp v ''historyRequired'')"
    using r by (simp_all add: automation_value_def approvals_of_def fires_of_def revision_def with_revision_def Let_def)
qed

lemma kept_or_retired:
  assumes "distinct (map (\<lambda>r. getp r ''fireId'') fs)"
  shows "set (retired_fires date fs) \<subseteq> set fs" "set (kept_fires date fs) \<subseteq> set fs"
    "set fs \<subseteq> set (kept_fires date fs) \<union> set (retired_fires date fs)"
    "retired_fires date fs = [] \<Longrightarrow> kept_fires date fs = fs"
    "r \<in> set (kept_fires date fs) \<Longrightarrow> r \<notin> set (retired_fires date fs)"
proof -
  show s: "set (retired_fires date fs) \<subseteq> set fs"
    using set_drop_subset [of 256 "sort_key (\<lambda>r. - fire_time date r) (filter terminal_fire fs)"]
    by (auto simp: retired_fires_def)
  show "set fs \<subseteq> set (kept_fires date fs) \<union> set (retired_fires date fs)"
  proof
    fix r assume r: "r \<in> set fs"
    show "r \<in> set (kept_fires date fs) \<union> set (retired_fires date fs)"
    proof (rule ccontr)
      assume n: "r \<notin> set (kept_fires date fs) \<union> set (retired_fires date fs)"
      with r obtain x where x: "x \<in> set (retired_fires date fs)" "getp x ''fireId'' = getp r ''fireId''"
        by (auto simp: kept_fires_def)
      then have "x = r" using distinct_map_eq [OF assms r] s by auto
      with n x show False by simp
    qed
  qed
  show "set (kept_fires date fs) \<subseteq> set fs" "retired_fires date fs = [] \<Longrightarrow> kept_fires date fs = fs"
    "r \<in> set (kept_fires date fs) \<Longrightarrow> r \<notin> set (retired_fires date fs)"
    by (auto simp: kept_fires_def)
qed

section \<open>The invariant\<close>

definition flagged :: "jsval \<Rightarrow> bool" where
  "flagged v = (getp v ''historyRequired'' = JBool True)"

definition backed :: "fire_fact set \<Rightarrow> copy \<Rightarrow> bool" where
  "backed A c = (case c of Copy n v \<Rightarrow> flagged v \<or> A \<subseteq> hot_facts v | _ \<Rightarrow> True)"

definition apart :: "automation \<Rightarrow> bool" where
  "apart s \<longleftrightarrow> (\<forall>r \<in> set (hot_fires s). key_of r \<notin> row_keys (cold_rows (auHistory s)))"

definition automation_ok ::
  "(jstr \<Rightarrow> int option) \<Rightarrow> (jsval \<Rightarrow> jsval) \<Rightarrow> (jsval \<Rightarrow> jsval) \<Rightarrow> fire_fact set \<Rightarrow> automation \<Rightarrow> bool" where
  "automation_ok date mint appr A s \<longleftrightarrow>
     fired.durable date mint appr (cold_facts (auHistory s)) A (auLedger s) \<and>
     history_sound date mint appr (auHistory s) \<and>
     backed A (cpPrimary (lgDisk (auLedger s))) \<and> backed A (cpBackup (lgDisk (auLedger s))) \<and>
     (\<not> lgFailed (auLedger s) \<longrightarrow> history_usable (auHistory s) \<and> apart s)"

lemma durable_colder:
  "fired.durable date mint appr c A l \<Longrightarrow> c \<subseteq> c' \<Longrightarrow> fired.durable date mint appr c' A l"
proof -
  assume d: "fired.durable date mint appr c A l" and c: "c \<subseteq> c'"
  have h: "fired.held date mint appr c A x \<Longrightarrow> fired.held date mint appr c' A x" for x
    using c by (cases x) (auto simp: fired.held_def)
  have "A \<subseteq> hot_facts (lgStored l) \<union> c'" using fired.durable_holds(1) [OF d] c by auto
  with d h show ?thesis by (simp add: fired.durable_def Let_def)
qed

lemma backed_mono: "backed A c \<Longrightarrow> B \<subseteq> A \<Longrightarrow> backed B c"
  by (auto simp: backed_def split: copy.splits)

lemma automation_ok_mono: "automation_ok date mint appr A s \<Longrightarrow> B \<subseteq> A \<Longrightarrow> automation_ok date mint appr B s"
  by (auto simp: automation_ok_def elim: backed_mono fired.durable_mono)

lemma ok_kept:
  assumes "automation_ok date mint appr A s" "history_kept date mint appr (auHistory s) h"
  shows "automation_ok date mint appr A (s\<lparr>auHistory := h\<rparr>)"
  using assms kept_facts [OF assms(2)]
  by (auto simp: automation_ok_def history_kept_def apart_def hot_fires_def)

lemma ok_parts:
  assumes "automation_ok date mint appr A s"
  shows "automation_sound date mint appr (lgStored (auLedger s))"
    "A \<subseteq> hot_facts (lgStored (auLedger s)) \<union> cold_facts (auHistory s)"
    "history_sound date mint appr (auHistory s)"
  using assms fired.durable_holds [of date mint appr _ A "auLedger s"] by (auto simp: automation_ok_def)

lemma ok_running:
  "automation_ok date mint appr A s \<Longrightarrow> \<not> lgFailed (auLedger s) \<Longrightarrow> history_usable (auHistory s) \<and> apart s"
  by (simp add: automation_ok_def)

lemma ok_failed: "automation_ok date mint appr A s \<Longrightarrow> automation_ok date mint appr A (fail_automation s)"
  by (auto simp: automation_ok_def fail_automation_def fired.durable_def Let_def)

section \<open>Saving\<close>

definition next_value ::
  "(jstr \<Rightarrow> int option) \<Rightarrow> (jsval \<Rightarrow> jsval) \<Rightarrow> (jsval \<Rightarrow> jsval) \<Rightarrow> automation \<Rightarrow> jsval \<Rightarrow> bool" where
  "next_value date mint appr s v \<longleftrightarrow>
     automation_base v \<and> revision v = revision (lgStored (auLedger s)) \<and>
     rows_typed date mint appr (approvals_of v) (fires_of v) \<and>
     hot_facts (lgStored (auLedger s)) \<subseteq> hot_facts v \<and>
     (\<forall>r \<in> set (fires_of v). key_of r \<notin> row_keys (cold_rows (auHistory s)))"

lemma saved_value:
  fixes flag :: bool
  assumes v: "next_value date mint appr s v"
    and as: "map (\<lambda>a. getp a ''id'') as = first_of_each (map (\<lambda>r. getp r ''approvalId'') (kept_fires date (fires_of v)))"
      "list_all (approval_typed date appr) as" "length as \<le> 2000" "length (kept_fires date (fires_of v)) \<le> 5000"
    and arch: "archive = filter (\<lambda>a. getp a ''id'' \<notin> set (map (\<lambda>x. getp x ''id'') as)) (approvals_of v)"
  defines "u \<equiv> automation_value v (revision (lgStored (auLedger s)) + 1) (kept_fires date (fires_of v)) flag as"
  shows "automation_sound date mint appr u" "revision u = revision (lgStored (auLedger s)) + 1"
    "hot_facts v \<subseteq> hot_facts u \<union> facts_of archive (retired_fires date (fires_of v))"
    "r \<in> set (fires_of u) \<Longrightarrow> key_of r \<notin> row_keys (cold_rows (auHistory s)) \<union>
       key_of ` set (retired_fires date (fires_of v))"
    "flagged u \<longleftrightarrow> flag \<or> flagged v"
proof -
  let ?fs = "kept_fires date (fires_of v)" and ?rs = "retired_fires date (fires_of v)"
  have b: "automation_base v" and t: "rows_typed date mint appr (approvals_of v) (fires_of v)"
    and rv: "revision v = revision (lgStored (auLedger s))"
    using v by (auto simp: next_value_def)
  have di: "distinct (map (\<lambda>r. getp r ''fireId'') (fires_of v))"
    using t distinct_fire_ids by (auto simp: rows_typed_def)
  note parts = automation_value_parts [OF b, where fs = ?fs and flag = flag and as = as]
  note kr = kept_or_retired [OF di, where date = date]
  have u: "approvals_of u = as" "fires_of u = ?fs" using parts by (simp_all add: u_def)
  have "rows_typed date mint appr as ?fs"
    using t as(2) kr(2) by (auto simp: rows_typed_def list_all_iff kept_fires_def distinct_map_filter)
  moreover have "distinct (map (\<lambda>a. getp a ''id'') as)" using as(1) distinct_first_of_each by metis
  moreover have ids: "(\<lambda>a. getp a ''id'') ` set as = (\<lambda>r. getp r ''approvalId'') ` set ?fs"
    using as(1) set_first_of_each by (metis list.set_map)
  moreover have "automation_base u" using parts(1) rv by (simp add: u_def)
  ultimately show "automation_sound date mint appr u" using u as(3,4) by (auto simp: automation_sound_def)
  show "revision u = revision (lgStored (auLedger s)) + 1" using parts(4) by (simp add: u_def)
  have "row_facts r \<subseteq> facts_of as ?fs \<union> facts_of archive ?rs" if "r \<in> set (fires_of v)" for r
    using that kr(3) by (auto simp: facts_of_def)
  moreover have "ApprovalKnown (getp a ''id'') \<in> facts_of as ?fs \<union> facts_of archive ?rs" if "a \<in> set (approvals_of v)" for a
    using that arch by (auto simp: facts_of_def)
  ultimately show "hot_facts v \<subseteq> hot_facts u \<union> facts_of archive ?rs"
    unfolding hot_facts_def u facts_of_def [of "approvals_of v"] by blast
  show "key_of r \<notin> row_keys (cold_rows (auHistory s)) \<union> key_of ` set ?rs" if "r \<in> set (fires_of u)"
  proof -
    have r: "r \<in> set (fires_of v)" "r \<notin> set ?rs" using that kr(2) kr(5) [of r] u(2) by auto
    have "key_of r \<noteq> key_of x" if "x \<in> set ?rs" for x
    proof -
      have x: "x \<in> set (fires_of v)" "x \<noteq> r" using that kr(1) r(2) by auto
      then have "fire_key r \<noteq> fire_key x"
        using t r(1) distinct_map_eq [of fire_key "fires_of v" r x] by (auto simp: rows_typed_def)
      then show ?thesis using t r(1) x(1) fire_key_eq [of date mint appr r x] by (auto simp: rows_typed_def list_all_iff)
    qed
    with r(1) v show ?thesis by (auto simp: next_value_def)
  qed
  show "flagged u \<longleftrightarrow> flag \<or> flagged v" using parts(5) by (simp add: u_def flagged_def)
qed

lemma automation_save_cases:
  assumes sv: "save_automation shortest date faults v s = (res, t)"
    and n: "\<not> lgFailed (auLedger s)" and h: "history_sound date mint appr (auHistory s)" "history_usable (auHistory s)"
    and v: "next_value date mint appr s v"
  obtains h e where "t = s\<lparr>auHistory := h\<rparr>" "history_kept date mint appr (auHistory s) h" "res = Inl e"
  | h' e where "t = fail_automation (s\<lparr>auHistory := h'\<rparr>)" "history_kept date mint appr (auHistory s) h'" "res = Inl e"
  | h as archive u h' cr l flag where "history_kept date mint appr (auHistory s) h"
    "map (\<lambda>a. getp a ''id'') as = first_of_each (map (\<lambda>r. getp r ''approvalId'') (kept_fires date (fires_of v)))"
    "list_all (approval_typed date appr) as" "length as \<le> 2000" "length (kept_fires date (fires_of v)) \<le> 5000"
    "archive = filter (\<lambda>a. getp a ''id'' \<notin> set (map (\<lambda>x. getp x ''id'') as)) (approvals_of v)"
    "u = automation_value v (revision (lgStored (auLedger s)) + 1) (kept_fires date (fires_of v)) flag as"
    "flag = (hsFile h \<noteq> None \<or> retired_fires date (fires_of v) \<noteq> [] \<or> archive \<noteq> [])"
    "pretty_bytes shortest u + 1 \<le> max_automation_bytes"
    "retire_history (fst faults) (retired_fires date (fires_of v)) archive h = (Inr (), h')"
    "commit_value shortest (snd faults) u (auLedger s) = (cr, l)" "t = \<lparr>auLedger = l, auHistory = h'\<rparr>"
    "res = Inr () \<longleftrightarrow> cr = Inr ()"
proof -
  let ?fs = "kept_fires date (fires_of v)" and ?rs = "retired_fires date (fires_of v)"
  have t: "list_all (approval_typed date appr) (approvals_of v)" "list_all (fire_typed date mint appr) ?rs"
  proof -
    have "rows_typed date mint appr (approvals_of v) (fires_of v)" using v by (simp add: next_value_def)
    then show "list_all (approval_typed date appr) (approvals_of v)" "list_all (fire_typed date mint appr) ?rs"
      using kept_or_retired(1) [OF distinct_fire_ids, of date mint appr "fires_of v" date]
      by (auto simp: rows_typed_def list_all_iff)
  qed
  obtain gr h where g: "gather_approvals (approvals_of v) (first_of_each (map (\<lambda>r. getp r ''approvalId'') ?fs)) (auHistory s) = (gr, h)"
    by fastforce
  note gk = gather_usable(1) [OF h t(1) g]
  then have hs: "history_sound date mint appr h" "history_usable h" by (simp_all add: history_kept_def)
  show thesis
  proof (cases gr)
    case (Inl e)
    with sv n g have tt: "t = s\<lparr>auHistory := h\<rparr>" "res = Inl e" by (auto simp: save_automation_def Let_def)
    show thesis by (rule that(1) [OF tt(1) gk tt(2)])
  next
    case (Inr as)
    note ga = gather_usable(2) [OF h t(1) g Inr]
    define archive where "archive = filter (\<lambda>a. getp a ''id'' \<notin> set (map (\<lambda>x. getp x ''id'') as)) (approvals_of v)"
    define flag where "flag = (hsFile h \<noteq> None \<or> ?rs \<noteq> [] \<or> archive \<noteq> [])"
    define u where "u = automation_value v (revision (lgStored (auLedger s)) + 1) ?fs flag as"
    obtain rr h' where r: "retire_history (fst faults) ?rs archive h = (rr, h')" by fastforce
    obtain cr l where c: "commit_value shortest (snd faults) u (auLedger s) = (cr, l)" by fastforce
    let ?full = "max_automation_bytes < pretty_bytes shortest u + 1 \<or> 2000 < length as \<or> 5000 < length ?fs"
    have e: "(res, t) = (if ?full then (Inl (AutomationCopies LedgerFull), s\<lparr>auHistory := h\<rparr>)
        else case rr of
          Inl e \<Rightarrow> (Inl e, fail_automation (s\<lparr>auHistory := h'\<rparr>))
        | Inr _ \<Rightarrow> (case cr of Inl e \<Rightarrow> Inl (AutomationCopies e) | Inr _ \<Rightarrow> Inr (), \<lparr>auLedger = l, auHistory = h'\<rparr>))"
      unfolding sv [symmetric]
      using n g Inr r c exists_usable [OF hs(2)]
      by (simp add: save_automation_def Let_def archive_def flag_def u_def split: sum.splits)
    have ta: "list_all (approval_typed date appr) archive" using t(1) by (auto simp: archive_def list_all_iff)
    show thesis
    proof (cases ?full)
      case True
      with e have tt: "t = s\<lparr>auHistory := h\<rparr>" "res = Inl (AutomationCopies LedgerFull)" by simp_all
      show thesis by (rule that(1) [OF tt(1) gk tt(2)])
    next
      case False
      show thesis
      proof (cases rr)
        case (Inl x)
        with e False have "t = fail_automation (s\<lparr>auHistory := h'\<rparr>)" "res = Inl x" by simp_all
        moreover have "history_kept date mint appr (auHistory s) h'"
          using history_kept_trans [OF gk] retire_usable(2) [OF hs t(2) ta r Inl] by blast
        ultimately show thesis using that(2) by blast
      next
        case (Inr y)
        with e False have tt: "t = \<lparr>auLedger = l, auHistory = h'\<rparr>" and rs: "res = Inr () \<longleftrightarrow> cr = Inr ()"
          by (simp_all split: sum.splits)
        have r': "retire_history (fst faults) ?rs archive h = (Inr (), h')" using r Inr by simp
        show thesis
          by (rule that(3) [OF gk _ _ _ _ archive_def u_def flag_def _ r' c tt rs]) (use ga False in auto)
      qed
    qed
  qed
qed

lemma save_ok:
  assumes ok: "automation_ok date mint appr A s" and v: "\<not> lgFailed (auLedger s) \<Longrightarrow> next_value date mint appr s v"
    and sv: "save_automation shortest date faults v s = (res, t)"
  shows "automation_ok date mint appr A t" "res = Inr () \<Longrightarrow> automation_ok date mint appr (hot_facts v) t"
proof -
  have "automation_ok date mint appr A t \<and> (res = Inr () \<longrightarrow> automation_ok date mint appr (hot_facts v) t)"
  proof (cases "lgFailed (auLedger s)")
    case True
    with sv have "t = s" "res = Inl (AutomationCopies NeedsRecovery)" by (auto simp: save_automation_def)
    with ok show ?thesis by simp
  next
    case False
    note hs = ok_parts(3) [OF ok] conjunct1 [OF ok_running [OF ok False]]
    note nv = v [OF False]
    show ?thesis
    proof (rule automation_save_cases [OF sv False hs nv])
      fix h e assume "t = s\<lparr>auHistory := h\<rparr>" "history_kept date mint appr (auHistory s) h" "res = Inl e"
      with ok_kept [OF ok] show ?thesis by simp
    next
      fix h' e assume "t = fail_automation (s\<lparr>auHistory := h'\<rparr>)" "history_kept date mint appr (auHistory s) h'" "res = Inl e"
      with ok_failed [OF ok_kept [OF ok]] show ?thesis by simp
    next
      fix h as archive u h' cr l flag
      let ?rs = "retired_fires date (fires_of v)"
      assume k: "history_kept date mint appr (auHistory s) h"
        and as: "map (\<lambda>a. getp a ''id'') as = first_of_each (map (\<lambda>r. getp r ''approvalId'') (kept_fires date (fires_of v)))"
          "list_all (approval_typed date appr) as" "length as \<le> 2000" "length (kept_fires date (fires_of v)) \<le> 5000"
        and arch: "archive = filter (\<lambda>a. getp a ''id'' \<notin> set (map (\<lambda>x. getp x ''id'') as)) (approvals_of v)"
        and u: "u = automation_value v (revision (lgStored (auLedger s)) + 1) (kept_fires date (fires_of v)) flag as"
        and flag: "flag = (hsFile h \<noteq> None \<or> ?rs \<noteq> [] \<or> archive \<noteq> [])"
        and f: "pretty_bytes shortest u + 1 \<le> max_automation_bytes"
        and r: "retire_history (fst faults) ?rs archive h = (Inr (), h')"
        and c: "commit_value shortest (snd faults) u (auLedger s) = (cr, l)"
        and t: "t = \<lparr>auLedger = l, auHistory = h'\<rparr>" and res: "res = Inr () \<longleftrightarrow> cr = Inr ()"
      have hk: "history_sound date mint appr h" "history_usable h" "cold_facts h = cold_facts (auHistory s)"
        "cold_rows h = cold_rows (auHistory s)"
        using k kept_facts [OF k] by (simp_all add: history_kept_def)
      have ty: "list_all (fire_typed date mint appr) ?rs" "list_all (approval_typed date appr) archive"
        using nv kept_or_retired(1) [OF distinct_fire_ids, of date mint appr "fires_of v" date] arch
        by (auto simp: next_value_def rows_typed_def list_all_iff)
      note ru = retire_usable [OF hk(1,2) ty r]
      note su = saved_value [OF nv as arch, where flag = flag, folded u]
      let ?C = "cold_facts h'"
      have cold: "?C = cold_facts (auHistory s) \<union> facts_of archive ?rs" using ru(4) hk(3) by simp
      have keep: "hot_facts (lgStored (auLedger s)) \<union> ?C \<subseteq> hot_facts u \<union> ?C"
        using nv su(3) cold by (auto simp: next_value_def)
      have d: "fired.durable date mint appr ?C A (auLedger s)"
        using ok durable_colder cold by (auto simp: automation_ok_def)
      have ad: "fired.admits shortest date mint appr ?C (auLedger s) u"
        using False su(1,2) keep f by (simp add: fired.admits_def)
      note dc = fired.durable_commit [OF d ad, of "snd faults", unfolded c, simplified]
      have sep: "apart t" if "cr = Inr ()"
        using that su(4) ru(3) hk(4) t c fired.commit_stored(1) [where fault = "snd faults" and s = "auLedger s" and v = u and shortest = shortest]
        by (auto simp: apart_def hot_fires_def)
      have fl: "lgFailed l" if "cr \<noteq> Inr ()"
        using c that by (auto simp: commit_value_def Let_def split: option.splits)
      have bu: "backed B (file_of shortest u)" if "B \<subseteq> hot_facts v \<union> cold_facts (auHistory s)" for B
      proof (cases "flag \<or> flagged v")
        case True
        have "flagged (json_clean u)"
          using automation_clean [of u date mint appr "''historyRequired''"] su(1,5) True
          by (simp add: automation_sound_def flagged_def)
        then show ?thesis by (simp add: backed_def file_of_def)
      next
        case n: False
        then have e: "hsFile h = None" "?rs = []" "archive = []" using flag by auto
        then have "cold_facts (auHistory s) = {}" using hk(3) cold_absent [of h] by (simp add: cold_facts_def facts_of_def)
        then have "B \<subseteq> hot_facts u" using that su(3) e by (auto simp: facts_of_def)
        moreover have "hot_facts (json_clean u) = hot_facts u"
          using fired.facts_clean [OF su(1), of "{}"] by simp
        ultimately show ?thesis by (simp add: backed_def file_of_def)
      qed
      have disk: "lgDisk l = write_copies (snd faults) (file_of shortest u) (lgDisk (auLedger s))"
        using c by (auto simp: commit_value_def Let_def split: option.splits)
      have "A \<subseteq> hot_facts v \<union> cold_facts (auHistory s)"
        using ok_parts(2) [OF ok] nv by (auto simp: next_value_def)
      then have "backed A (cpPrimary (lgDisk l)) \<and> backed A (cpBackup (lgDisk l))"
        using bu [of A] ok disk
        by (cases rule: write_copies_cases [of "snd faults" "file_of shortest u" "lgDisk (auLedger s)"])
          (auto simp: automation_ok_def)
      moreover have "backed (hot_facts v) (cpPrimary (lgDisk l)) \<and> backed (hot_facts v) (cpBackup (lgDisk l))"
        if "cr = Inr ()"
      proof -
        have "snd faults = None" using c that by (auto simp: commit_value_def Let_def split: option.splits)
        then show ?thesis using bu [of "hot_facts v"] disk by (simp add: write_copies_def)
      qed
      moreover have "fired.durable date mint appr ?C (hot_facts v) l" if "cr = Inr ()"
        using fired.durable_mono [OF dc(2) [OF that]] su(3) cold by auto
      ultimately show ?thesis
        using dc(1) ru(1) sep fl t res by (auto simp: automation_ok_def)
    qed
  qed
  then show "automation_ok date mint appr A t" "res = Inr () \<Longrightarrow> automation_ok date mint appr (hot_facts v) t" by blast+
qed

section \<open>The operations\<close>

lemma lookup_ok:
  assumes ok: "automation_ok date mint appr A s" and l: "automation_lookup hot rows cold s = (res, t)"
    and c: "\<And>h. history_sound date mint appr h \<Longrightarrow> history_usable h \<Longrightarrow> \<exists>h'. cold h = (Inr (x h), h') \<and> history_kept date mint appr h h'"
  shows "automation_ok date mint appr A t" "auLedger t = auLedger s"
    "cold_rows (auHistory t) = cold_rows (auHistory s)" "cold_approvals (auHistory t) = cold_approvals (auHistory s)"
    "res = (if lgFailed (auLedger s) then Inl (AutomationCopies NeedsRecovery)
       else Inr (case find hot (rows s) of Some r \<Rightarrow> Some r | None \<Rightarrow> x (auHistory s)))"
proof -
  have "automation_ok date mint appr A t \<and> auLedger t = auLedger s \<and>
    cold_rows (auHistory t) = cold_rows (auHistory s) \<and> cold_approvals (auHistory t) = cold_approvals (auHistory s) \<and>
    res = (if lgFailed (auLedger s) then Inl (AutomationCopies NeedsRecovery)
       else Inr (case find hot (rows s) of Some r \<Rightarrow> Some r | None \<Rightarrow> x (auHistory s)))"
  proof (cases "lgFailed (auLedger s) \<or> find hot (rows s) \<noteq> None")
    case True
    with l ok show ?thesis by (auto simp: automation_lookup_def split: if_splits)
  next
    case False
    then obtain h where h: "cold (auHistory s) = (Inr (x (auHistory s)), h)" "history_kept date mint appr (auHistory s) h"
      using c ok_parts(3) [OF ok] ok_running [OF ok] by blast
    with l False have "t = s\<lparr>auHistory := h\<rparr>" "res = Inr (x (auHistory s))" by (auto simp: automation_lookup_def)
    with False h(2) ok_kept [OF ok h(2)] show ?thesis by (simp add: history_kept_def)
  qed
  then show "automation_ok date mint appr A t" "auLedger t = auLedger s"
    "cold_rows (auHistory t) = cold_rows (auHistory s)" "cold_approvals (auHistory t) = cold_approvals (auHistory s)"
    "res = (if lgFailed (auLedger s) then Inl (AutomationCopies NeedsRecovery)
       else Inr (case find hot (rows s) of Some r \<Rightarrow> Some r | None \<Rightarrow> x (auHistory s)))"
    by blast+
qed

lemmas fire_lookup_ok =
  lookup_ok [where x = "\<lambda>h. map_option arRecord (find P (cold_rows h))" and cold = "history_find P" for P, OF _ _ history_find_usable]

lemmas approval_lookup_ok =
  lookup_ok [where x = "\<lambda>h. map_of (cold_approvals h) i" and cold = "history_approval i" for i, OF _ _ history_approval_usable]

lemma stored_parts:
  assumes "automation_ok date mint appr A s"
  shows "automation_base (lgStored (auLedger s))" "rows_typed date mint appr (hot_approvals s) (hot_fires s)"
    "hot_facts (lgStored (auLedger s)) = facts_of (hot_approvals s) (hot_fires s)"
  using ok_parts(1) [OF assms] by (auto simp: automation_sound_def hot_approvals_def hot_fires_def hot_facts_def)

lemma setp_base:
  assumes "automation_base v" "k \<in> {''approvals'', ''fires''}"
  shows "automation_base (setp v k (Arr xs))" "revision (setp v k (Arr xs)) = revision v"
    "approvals_of (setp v k (Arr xs)) = (if k = ''approvals'' then xs else approvals_of v)"
    "fires_of (setp v k (Arr xs)) = (if k = ''fires'' then xs else fires_of v)"
proof -
  have r: "is_record v" and w: "object_wf v" "natural_revision v"
    using assms(1) by (simp_all add: automation_base_def object_wf_record)
  have k: "k \<noteq> ''version''" "k \<noteq> ''historyRequired''" "k \<noteq> ''revision''" using assms(2) by auto
  then have "object_wf (setp v k (Arr xs))" "natural_revision (setp v k (Arr xs))"
    using w by (simp_all add: natural_revision_setp)
  with assms(1) r k show "automation_base (setp v k (Arr xs))" by (simp add: automation_base_def is_array_def)
  show "revision (setp v k (Arr xs)) = revision v"
    "approvals_of (setp v k (Arr xs)) = (if k = ''approvals'' then xs else approvals_of v)"
    "fires_of (setp v k (Arr xs)) = (if k = ''fires'' then xs else fires_of v)"
    using r k by (simp_all add: revision_def approvals_of_def fires_of_def)
qed

lemma next_fires:
  assumes ok: "automation_ok date mint appr A s"
    and "rows_typed date mint appr (hot_approvals s) fs" "\<Union> (row_facts ` set (hot_fires s)) \<subseteq> \<Union> (row_facts ` set fs)"
    and "\<And>r. r \<in> set fs \<Longrightarrow> key_of r \<notin> row_keys (cold_rows (auHistory s))"
  shows "next_value date mint appr s (setp (lgStored (auLedger s)) ''fires'' (Arr fs))"
    "hot_facts (setp (lgStored (auLedger s)) ''fires'' (Arr fs)) = facts_of (hot_approvals s) fs"
proof -
  note b = setp_base [OF stored_parts(1) [OF ok], of "''fires''" fs]
  have p: "approvals_of (lgStored (auLedger s)) = hot_approvals s" by (simp add: hot_approvals_def)
  show f: "hot_facts (setp (lgStored (auLedger s)) ''fires'' (Arr fs)) = facts_of (hot_approvals s) fs"
    using b by (simp add: hot_facts_def p)
  show "next_value date mint appr s (setp (lgStored (auLedger s)) ''fires'' (Arr fs))"
    using b assms(2-4) stored_parts(3) [OF ok] f p
    by (simp add: next_value_def) (auto simp: facts_of_def)
qed

lemma prepare_fire_ok:
  assumes ok: "automation_ok date mint appr A s" and r: "fire_typed date mint appr r"
    and p: "prepare_fire shortest date faults r s = (res, t)"
  shows "automation_ok date mint appr A t" "res = Inr u \<Longrightarrow> automation_ok date mint appr (row_facts r) t"
proof -
  obtain lr s1 where l: "fire_for_key (getp r ''jobId'') (getp r ''fireKeyDigest'') s = (lr, s1)" by fastforce
  note lk = fire_lookup_ok [OF ok l [unfolded fire_for_key_def]]
  note ok1 = lk(1)
  have "automation_ok date mint appr A t \<and> (res = Inr u \<longrightarrow> automation_ok date mint appr (row_facts r) t)"
  proof (cases "lr = Inr None")
    case False
    with p l ok1 show ?thesis by (auto simp: prepare_fire_def split: sum.splits option.splits)
  next
    case True
    let ?v = "setp (lgStored (auLedger s1)) ''fires'' (Arr (hot_fires s1 @ [r]))"
    have sv: "save_automation shortest date faults ?v s1 = (res, t)" using p l True by (simp add: prepare_fire_def)
    have n: "\<not> lgFailed (auLedger s)" and nf: "find (\<lambda>x. getp x ''jobId'' = getp r ''jobId'' \<and> getp x ''fireKeyDigest'' = getp r ''fireKeyDigest'') (hot_fires s) = None"
      and nc: "find (\<lambda>a. arJob a = getp r ''jobId'' \<and> arDigest a = getp r ''fireKeyDigest'') (cold_rows (auHistory s)) = None"
      using lk(5) True by (auto split: if_splits option.splits)
    have hf: "hot_fires s1 = hot_fires s" "hot_approvals s1 = hot_approvals s" using lk(2) by (simp_all add: hot_fires_def hot_approvals_def)
    have ap: "apart s" using ok_running [OF ok n] by simp
    have st: "rows_typed date mint appr (hot_approvals s) (hot_fires s)" by (rule stored_parts(2) [OF ok])
    have ty: "rows_typed date mint appr (hot_approvals s1) (hot_fires s1 @ [r])"
    proof -
      have "fire_key r \<noteq> fire_key x" if "x \<in> set (hot_fires s)" for x
        using nf that fire_key_eq [OF r, of x] st by (auto simp: rows_typed_def list_all_iff find_None_iff key_of_def)
      then show ?thesis using st r hf by (auto simp: rows_typed_def)
    qed
    have fresh: "key_of r \<notin> row_keys (cold_rows (auHistory s))"
      using nc by (auto simp: row_keys_def key_of_def find_None_iff)
    have ids: "key_of x \<notin> row_keys (cold_rows (auHistory s1))" if "x \<in> set (hot_fires s1 @ [r])" for x
      using that fresh ap lk(3) hf by (auto simp: apart_def)
    have mono: "\<Union> (row_facts ` set (hot_fires s1)) \<subseteq> \<Union> (row_facts ` set (hot_fires s1 @ [r]))" by auto
    have nx: "next_value date mint appr s1 ?v \<and> hot_facts ?v = facts_of (hot_approvals s1) (hot_fires s1 @ [r])"
      using next_fires [OF ok1 ty mono] ids by blast
    note nx = conjunct1 [OF nx] conjunct2 [OF nx]
    note so = save_ok [OF ok1 nx(1) sv]
    have "row_facts r \<subseteq> hot_facts ?v" unfolding nx(2) by (auto simp: facts_of_def)
    with so automation_ok_mono [OF so(2)] show ?thesis by auto
  qed
  then show "automation_ok date mint appr A t" "res = Inr u \<Longrightarrow> automation_ok date mint appr (row_facts r) t" by blast+
qed

lemma next_fire_typed:
  assumes "fire_typed date mint appr r" "date now \<noteq> None"
  shows "fire_typed date mint appr (next_fire q now r)" "fire_key (next_fire q now r) = fire_key r"
    "getp (next_fire q now r) ''fireId'' = getp r ''fireId''"
    "\<not> terminal_fire r \<Longrightarrow> row_facts r \<subseteq> row_facts (next_fire q now r)"
proof -
  have w: "object_wf r" "json_clean r = r" using assms(1) by (simp_all add: fire_typed_def)
  then have g: "getp (next_fire q now r) k = (if k = ''updatedAt'' then Str now
      else if k = ''status'' then Str (fire_status_text q) else getp r k)" for k
    by (simp add: next_fire_def object_wf_record)
  have s: "object_wf (next_fire q now r)" "json_clean (next_fire q now r) = next_fire q now r" "is_record (next_fire q now r)"
    using w by (simp_all add: next_fire_def clean_setp)
  have st: "Str (fire_status_text q) \<in> set fire_statuses" by (cases q) (simp_all add: fire_statuses_def del: js_simps)
  have "fire_shape date (next_fire q now r)"
    using fire_typed_shape [OF assms(1)] assms(2) s(3) st unfolding fire_shape_def g
    by (auto simp: valid_date_def text_with_def)
  then show "fire_typed date mint appr (next_fire q now r)"
    using assms(1) s unfolding fire_typed_def approval_matches_def g by simp
  show "fire_key (next_fire q now r) = fire_key r" "getp (next_fire q now r) ''fireId'' = getp r ''fireId''"
    by (simp_all add: fire_key_def g)
  show "row_facts r \<subseteq> row_facts (next_fire q now r)" if "\<not> terminal_fire r"
    using that by (auto simp: row_facts_def g)
qed

lemma update_fire_ok:
  assumes ok: "automation_ok date mint appr A s" and now: "date now \<noteq> None"
    and p: "update_fire shortest date faults now i q s = (res, t)"
  shows "automation_ok date mint appr A t"
    "res = Inr u \<Longrightarrow> \<exists>x. fst (get_fire i s) = Inr (Some x) \<and> getp u ''fireId'' = i \<and>
       (if terminal_fire x then u = x else u = next_fire q now x \<and> automation_ok date mint appr (row_facts u) t)"
proof -
  obtain lr s1 where l: "get_fire i s = (lr, s1)" by fastforce
  note lk = fire_lookup_ok [OF ok l [unfolded get_fire_def]]
  note ok1 = lk(1)
  have ids: "x \<in> set (hot_fires s1) \<Longrightarrow> fire_typed date mint appr x" for x
    using stored_parts(2) [OF ok1] by (auto simp: rows_typed_def list_all_iff)
  have main: "automation_ok date mint appr A t \<and> (res = Inr u \<longrightarrow> (\<exists>x. lr = Inr (Some x) \<and> getp u ''fireId'' = i \<and>
      (if terminal_fire x then u = x else u = next_fire q now x \<and> automation_ok date mint appr (row_facts u) t)))"
  proof (cases "\<exists>x. lr = Inr (Some x)")
    case False
    with p l ok1 show ?thesis by (auto simp: update_fire_def split: sum.splits option.splits)
  next
    case True
    then obtain x where x: "lr = Inr (Some x)" by blast
    with lk(5) have n: "\<not> lgFailed (auLedger s)" and f: "(case find (\<lambda>r. getp r ''fireId'' = i) (hot_fires s) of
        Some r \<Rightarrow> Some r | None \<Rightarrow> map_option arRecord (find (\<lambda>a. arFire a = i) (cold_rows (auHistory s)))) = Some x"
      by (auto split: if_splits)
    have hf: "hot_fires s1 = hot_fires s" "hot_approvals s1 = hot_approvals s" using lk(2) by (simp_all add: hot_fires_def hot_approvals_def)
    have cold: "getp (arRecord a) ''fireId'' = i \<and> terminal_fire (arRecord a)" if "find (\<lambda>a. arFire a = i) (cold_rows (auHistory s)) = Some a" for a
    proof -
      have a: "a \<in> set (cold_rows (auHistory s))" "arFire a = i" using that by (auto simp: find_Some_iff)
      then have "archived_sound date mint appr a" using ok_parts(3) [OF ok] by (auto simp: history_sound_def list_all_iff)
      with a(2) archived_columns(1) [OF this] show ?thesis by (simp add: archived_sound_def)
    qed
    have xi: "getp x ''fireId'' = i" using f cold by (auto simp: find_Some_iff split: option.splits)
    show ?thesis
    proof (cases "terminal_fire x")
      case True
      with p l x ok1 xi show ?thesis by (auto simp: update_fire_def)
    next
      case nt: False
      let ?g = "\<lambda>y. if getp y ''fireId'' = i then next_fire q now x else y"
      let ?v = "setp (lgStored (auLedger s1)) ''fires'' (Arr (map ?g (hot_fires s1)))"
      obtain sr s2 where sv: "save_automation shortest date faults ?v s1 = (sr, s2)" by fastforce
      have r: "t = s2" "res = (case sr of Inl e \<Rightarrow> Inl e | Inr _ \<Rightarrow> Inr (next_fire q now x))"
        using p l x nt sv by (auto simp: update_fire_def Let_def split: sum.splits)
      have xh: "x \<in> set (hot_fires s1)" using f cold nt hf by (auto simp: find_Some_iff split: option.splits)
      note nf = next_fire_typed [OF ids [OF xh] now, of q]
      have st: "rows_typed date mint appr (hot_approvals s1) (hot_fires s1)" by (rule stored_parts(2) [OF ok1])
      have di: "distinct (map (\<lambda>r. getp r ''fireId'') (hot_fires s1))" using st distinct_fire_ids by (auto simp: rows_typed_def)
      have same: "y = x" if "y \<in> set (hot_fires s1)" "getp y ''fireId'' = i" for y
        using distinct_map_eq [OF di xh that(1)] that(2) xi by simp
      have gk: "map fire_key (map ?g (hot_fires s1)) = map fire_key (hot_fires s1)"
        using same nf(2) by (auto intro!: map_cong)
      have xk: "key_of (next_fire q now x) = key_of x"
        using fire_same_key [OF nf(1) ids [OF xh] nf(3)] .
      have gi: "key_of (?g y) = key_of y" if "y \<in> set (hot_fires s1)" for y
        using same [OF that] xk by (cases "getp y ''fireId'' = i") simp_all
      have ty: "rows_typed date mint appr (hot_approvals s1) (map ?g (hot_fires s1))"
        using st nf(1) unfolding rows_typed_def gk by (auto simp: list_all_iff)
      have mono: "\<Union> (row_facts ` set (hot_fires s1)) \<subseteq> \<Union> (row_facts ` set (map ?g (hot_fires s1)))"
      proof (rule UN_least)
        fix y assume y: "y \<in> set (hot_fires s1)"
        have "row_facts y \<subseteq> row_facts (?g y)" using same [OF y] nf(4) [OF nt] by auto
        with y show "row_facts y \<subseteq> \<Union> (row_facts ` set (map ?g (hot_fires s1)))" by fastforce
      qed
      have ap: "key_of y \<notin> row_keys (cold_rows (auHistory s1))" if y: "y \<in> set (map ?g (hot_fires s1))" for y
      proof -
        obtain z where "z \<in> set (hot_fires s1)" "y = ?g z" using y by auto
        with gi ok_running [OF ok n] lk(3) hf show ?thesis by (simp add: apart_def)
      qed
      have nx: "next_value date mint appr s1 ?v \<and> hot_facts ?v = facts_of (hot_approvals s1) (map ?g (hot_fires s1))"
        using next_fires [OF ok1 ty mono] ap by blast
      note so = save_ok [OF ok1 conjunct1 [OF nx] sv]
      have "row_facts (next_fire q now x) \<subseteq> hot_facts ?v"
        unfolding conjunct2 [OF nx] using xh xi by (force simp: facts_of_def)
      then have "sr = Inr () \<Longrightarrow> automation_ok date mint appr (row_facts (next_fire q now x)) s2"
        using so(2) automation_ok_mono by blast
      with so(1) r x nt nf(3) xi show ?thesis by (auto split: sum.splits)
    qed
  qed
  then show "automation_ok date mint appr A t" by blast
  show "\<exists>x. fst (get_fire i s) = Inr (Some x) \<and> getp u ''fireId'' = i \<and>
       (if terminal_fire x then u = x else u = next_fire q now x \<and> automation_ok date mint appr (row_facts u) t)"
    if "res = Inr u" using main that l by simp
qed

lemma approve_target_ok:
  assumes ok: "automation_ok date mint appr A s" and a: "approval_typed date appr a"
    and p: "approve_target shortest date faults a s = (res, t)"
  shows "automation_ok date mint appr A t" "res = Inr u \<Longrightarrow> automation_ok date mint appr {ApprovalKnown (getp a ''id'')} t"
proof -
  let ?v = "setp (lgStored (auLedger s)) ''approvals'' (Arr (hot_approvals s @ [a]))"
  note b = setp_base [OF stored_parts(1) [OF ok], of "''approvals''" "hot_approvals s @ [a]"]
  have f: "fires_of (lgStored (auLedger s)) = hot_fires s" by (simp add: hot_fires_def)
  have h: "hot_facts ?v = facts_of (hot_approvals s @ [a]) (hot_fires s)" using b by (simp add: hot_facts_def f)
  have nx: "next_value date mint appr s ?v" if "\<not> lgFailed (auLedger s)"
    using b a ok_running [OF ok that] stored_parts [OF ok] h
    by (simp add: next_value_def f rows_typed_def apart_def) (auto simp: facts_of_def)
  note so = save_ok [OF ok nx p [unfolded approve_target_def]]
  show "automation_ok date mint appr A t" by (rule so(1))
  show "res = Inr u \<Longrightarrow> automation_ok date mint appr {ApprovalKnown (getp a ''id'')} t"
    using so(2) automation_ok_mono h by (auto simp: facts_of_def)
qed

end
