(* ===== verification/AutomationPromises.thy ===== *)
theory AutomationPromises
  imports AutomationSafety
begin

text \<open>
  The promises of the automation ledger over whole lives: a fire that was accepted is known ever after and its key is refused, what
  ended stays as it ended, an approval stays what it was, and a history that is gone is noticed unless nothing depends on it.
\<close>

section \<open>Starting again\<close>

lemma ok_stopped:
  assumes ok: "automation_ok date mint appr A s" and h: "history_sound date mint appr h"
    "cold_rows h = cold_rows (auHistory s)" "cold_approvals h = cold_approvals (auHistory s)"
  shows "automation_ok date mint appr A (fail_automation (s\<lparr>auHistory := h\<rparr>))"
proof -
  have "cold_facts h = cold_facts (auHistory s)" using h by (simp add: cold_facts_def)
  with ok h show ?thesis by (auto simp: automation_ok_def fail_automation_def fired.durable_def Let_def)
qed

definition fresh_history :: "history_db option \<Rightarrow> bool \<Rightarrow> history" where
  "fresh_history db required = set_recovery_requirement required \<lparr>hsFile = db, hsRequired = (db \<noteq> None), hsInitialize = False\<rparr>"

lemma open_cases:
  assumes "open_automation shortest date s = (res, t)"
  obtains e where "res = Inl (AutomationCopies e)" "t = s"
  | v rr h where "open_copies shortest (automation_file date) max_automation_bytes empty_automation (lgDisk (auLedger s)) = Inr v"
    "reconcile_history (fires_of v) (approvals_of v) (fresh_history (hsFile (auHistory s)) (flagged v)) = (rr, h)"
    "(res, t) = (case rr of Inl e \<Rightarrow> (Inl e, s\<lparr>auHistory := h\<rparr>)
     | Inr us \<Rightarrow> (Inr (), \<lparr>auLedger = (auLedger s)\<lparr>lgStored := setp v ''fires'' (Arr us), lgFailed := False\<rparr>, auHistory = h\<rparr>))"
proof (cases "open_copies shortest (automation_file date) max_automation_bytes empty_automation (lgDisk (auLedger s))")
  case (Inl e)
  with assms show thesis by (intro that(1)) (auto simp: open_automation_def)
next
  case (Inr v)
  obtain rr h where r: "reconcile_history (fires_of v) (approvals_of v) (fresh_history (hsFile (auHistory s)) (flagged v)) = (rr, h)"
    by fastforce
  with assms Inr show thesis
    by (intro that(2) [OF Inr r]) (simp add: open_automation_def fresh_history_def flagged_def Let_def split: sum.splits)
qed

lemma fresh_rows:
  "cold_rows (fresh_history (hsFile h) f) = cold_rows h" "cold_approvals (fresh_history (hsFile h) f) = cold_approvals h"
  "history_sound date mint appr h \<Longrightarrow> history_sound date mint appr (fresh_history (hsFile h) f)"
  "hsFile (fresh_history db f) = db"
  by (simp_all add: fresh_history_def set_recovery_requirement_def cold_rows_def cold_approvals_def history_sound_def)

lemma fresh_missing: "reconcile_history fs as (fresh_history None True) = (Inl HistoryMissing, fresh_history None True)"
  by (simp add: reconcile_history_def history_exists_def fresh_history_def set_recovery_requirement_def)

lemma fresh_usable: "history_usable (fresh_history None False)"
  by (simp add: history_usable_def fresh_history_def set_recovery_requirement_def)

lemma automation_open_ok:
  assumes ok: "automation_ok date mint appr A s" and o: "open_automation shortest date s = (res, t)"
  shows "automation_ok date mint appr A (case res of Inr _ \<Rightarrow> t | Inl _ \<Rightarrow> fail_automation t)"
proof (rule open_cases [OF o])
  fix e assume "res = Inl (AutomationCopies e)" "t = s"
  with ok_failed [OF ok] show ?thesis by simp
next
  fix v rr h
  assume v: "open_copies shortest (automation_file date) max_automation_bytes empty_automation (lgDisk (auLedger s)) = Inr v"
    and r: "reconcile_history (fires_of v) (approvals_of v) (fresh_history (hsFile (auHistory s)) (flagged v)) = (rr, h)"
    and e: "(res, t) = (case rr of Inl e \<Rightarrow> (Inl e, s\<lparr>auHistory := h\<rparr>)
     | Inr us \<Rightarrow> (Inr (), \<lparr>auLedger = (auLedger s)\<lparr>lgStored := setp v ''fires'' (Arr us), lgFailed := False\<rparr>, auHistory = h\<rparr>))"
  let ?h = "fresh_history (hsFile (auHistory s)) (flagged v)"
  let ?c = "cold_facts (auHistory s)"
  have hs: "history_sound date mint appr ?h" using ok_parts(3) [OF ok] by (rule fresh_rows(3))
  note rows = reconcile_rows [OF hs r, unfolded fresh_rows]
  show ?thesis
  proof (cases rr)
    case (Inl x)
    with e ok_stopped [OF ok rows] show ?thesis by simp
  next
    case (Inr us)
    have d: "fired.durable date mint appr ?c A ((auLedger s)\<lparr>lgStored := v, lgFailed := False\<rparr>)"
      using ok v fired.durable_open by (auto simp: automation_ok_def)
    have sv: "automation_sound date mint appr v" and av: "A \<subseteq> hot_facts v \<union> ?c"
      using fired.durable_holds [OF d] by auto
    have ty: "list_all (fire_typed date mint appr) (fires_of v)" and b: "automation_base v"
      using sv by (simp_all add: automation_sound_def rows_typed_def)
    have us: "hsFile ?h = None \<Longrightarrow> history_usable ?h"
      using r Inr fresh_missing fresh_usable by (cases "flagged v") (auto simp: fresh_rows(4))
    note ru = reconcile_usable [OF hs us ty r [unfolded Inr]]
    note sb = setp_base [OF b, of "''fires''" us]
    have cf: "cold_facts ?h = ?c" using fresh_rows by (simp add: cold_facts_def)
    obtain P where P: "us = filter P (fires_of v)" using ru(3) by blast
    have s': "automation_sound date mint appr (setp v ''fires'' (Arr us))"
      using sv sb P by (auto simp: automation_sound_def rows_typed_def list_all_iff distinct_map_filter
          intro: order.trans [OF length_filter_le])
    have keep: "hot_facts v \<subseteq> hot_facts (setp v ''fires'' (Arr us)) \<union> ?c"
    proof -
      have "row_facts r \<subseteq> facts_of (approvals_of v) us \<union> ?c" if "r \<in> set (fires_of v)" for r
        using that ru(4) [of r] cf by (cases "r \<in> set us") (auto simp: facts_of_def)
      then have "hot_facts v \<subseteq> facts_of (approvals_of v) us \<union> ?c"
        unfolding hot_facts_def facts_of_def [of "approvals_of v" "fires_of v"] by (auto simp: facts_of_def)
      with sb show ?thesis by (simp add: hot_facts_def)
    qed
    have "fired.durable date mint appr ?c A
        ((auLedger s)\<lparr>lgStored := v, lgFailed := False\<rparr>\<lparr>lgStored := setp v ''fires'' (Arr us)\<rparr>)"
      by (rule fired.durable_memory [OF d s']) (use av keep sb in auto)
    moreover have "(auLedger s)\<lparr>lgStored := v, lgFailed := False\<rparr>\<lparr>lgStored := setp v ''fires'' (Arr us)\<rparr> = auLedger t"
      using e Inr by (cases "auLedger s") simp
    ultimately have "fired.durable date mint appr (cold_facts h) A (auLedger t)"
      using rows by (simp add: cold_facts_def)
    moreover have "lgDisk (auLedger t) = lgDisk (auLedger s)" "auHistory t = h" "res = Inr ()" using e Inr by simp_all
    moreover have "apart t"
      using e Inr sb ru(5) rows(2) fresh_rows(1) by (auto simp: apart_def hot_fires_def)
    ultimately show ?thesis
      using ok ru(1) by (simp add: automation_ok_def history_kept_def)
  qed
qed

section \<open>Lives\<close>

fun automation_host ::
  "(jstr \<Rightarrow> int option) \<Rightarrow> (jsval \<Rightarrow> jsval) \<Rightarrow> (jsval \<Rightarrow> jsval) \<Rightarrow> automation_event \<Rightarrow> bool" where
  "automation_host date mint appr (ApproveTarget a faults) = approval_typed date appr a"
| "automation_host date mint appr (PrepareFire r faults) = fire_typed date mint appr r"
| "automation_host date mint appr (UpdateFire i q now faults) = (date now \<noteq> None)"
| "automation_host date mint appr e = True"

lemma automation_step_ok:
  assumes ok: "automation_ok date mint appr A s" and e: "automation_host date mint appr e"
  shows "automation_ok date mint appr A (automation_step shortest date s e)"
proof (cases e)
  case (ApproveTarget a faults)
  obtain res t where p: "approve_target shortest date faults a s = (res, t)" by fastforce
  with approve_target_ok(1) [OF ok _ p] e ApproveTarget show ?thesis by simp
next
  case (PrepareFire r faults)
  obtain res t where p: "prepare_fire shortest date faults r s = (res, t)" by fastforce
  with prepare_fire_ok(1) [OF ok _ p] e PrepareFire show ?thesis by simp
next
  case (UpdateFire i q now faults)
  obtain res t where p: "update_fire shortest date faults now i q s = (res, t)" by fastforce
  with update_fire_ok(1) [OF ok _ p] e UpdateFire show ?thesis by simp
next
  case (ReadFire i)
  obtain res t where p: "get_fire i s = (res, t)" by fastforce
  with fire_lookup_ok(1) [OF ok p [unfolded get_fire_def]] ReadFire show ?thesis by simp
next
  case (ReadKey j d)
  obtain res t where p: "fire_for_key j d s = (res, t)" by fastforce
  with fire_lookup_ok(1) [OF ok p [unfolded fire_for_key_def]] ReadKey show ?thesis by simp
next
  case (ReadRun i)
  obtain res t where p: "fire_by_run i s = (res, t)" by fastforce
  with fire_lookup_ok(1) [OF ok p [unfolded fire_by_run_def]] ReadRun show ?thesis by simp
next
  case (ReadApproval i)
  obtain res t where p: "automation_approval i s = (res, t)" by fastforce
  with approval_lookup_ok(1) [OF ok p [unfolded automation_approval_def]] ReadApproval show ?thesis by simp
next
  case RestartAutomation
  obtain res t where o: "open_automation shortest date s = (res, t)" by fastforce
  with automation_open_ok [OF ok o] RestartAutomation show ?thesis by (auto split: sum.splits)
next
  case (LoseHot primary c)
  have "backed A (cpPrimary (lose_copy primary c d)) \<and> backed A (cpBackup (lose_copy primary c d))"
    if "backed A (cpPrimary d)" "backed A (cpBackup d)" for d
    using that by (cases c) (auto simp: lose_copy_def backed_def Let_def split: copy.splits)
  with ok LoseHot fired.durable_lose show ?thesis
    by (auto simp: automation_ok_def apart_def hot_fires_def)
qed

lemma run_ok:
  "automation_ok date mint appr A s \<Longrightarrow> list_all (automation_host date mint appr) es \<Longrightarrow>
   automation_ok date mint appr A (foldl (automation_step shortest date) s es)"
  by (rule foldl_invariant [where P = "automation_ok date mint appr A"]) (auto simp: list_all_iff automation_step_ok)

lemma new_ok: "automation_ok date mint appr {} new_automation"
proof -
  have "fired.durable date mint appr (cold_facts (auHistory new_automation)) {} (auLedger new_automation)"
    using fired.durable_initial [of date mint appr "cold_facts (auHistory new_automation)"]
    by (simp add: new_automation_def)
  then show ?thesis
    by (auto simp: automation_ok_def new_automation_def history_sound_def history_usable_def apart_def backed_def cold_rows_def
        cold_approvals_def hot_fires_def row_keys_def)
qed

section \<open>Finding what is known\<close>

lemma known_source:
  assumes ok: "automation_ok date mint appr A s" and f: "x \<in> A"
  obtains r where "r \<in> set (hot_fires s)" "x \<in> row_facts r"
  | a where "a \<in> set (cold_rows (auHistory s))" "x \<in> row_facts (arRecord a)"
  | a where "a \<in> set (hot_approvals s)" "x = ApprovalKnown (getp a ''id'')"
  | i a where "(i, a) \<in> set (cold_approvals (auHistory s))" "x = ApprovalKnown (getp a ''id'')"
proof -
  have "x \<in> facts_of (hot_approvals s) (hot_fires s) \<union> cold_facts (auHistory s)"
    using ok_parts(2) [OF ok] f stored_parts(3) [OF ok] by auto
  then show thesis using that unfolding cold_facts_def facts_of_def by fastforce
qed

lemma known_found:
  assumes ok: "automation_ok date mint appr A s" and f: "FireKnown j d i \<in> A" and n: "\<not> lgFailed (auLedger s)"
  shows "\<exists>x. fst (fire_for_key j d s) = Inr (Some x) \<and> getp x ''fireId'' = i"
proof -
  let ?P = "\<lambda>r. getp r ''jobId'' = j \<and> getp r ''fireKeyDigest'' = d"
  let ?Q = "\<lambda>a. arJob a = j \<and> arDigest a = d"
  have st: "rows_typed date mint appr (hot_approvals s) (hot_fires s)" by (rule stored_parts(2) [OF ok])
  then have dk: "distinct (map fire_key (hot_fires s))" by (simp add: rows_typed_def)
  have hs: "list_all (archived_sound date mint appr) (cold_rows (auHistory s))"
    "distinct (map (\<lambda>a. (arJob a, arDigest a)) (cold_rows (auHistory s)))"
    using ok_parts(3) [OF ok] by (simp_all add: history_sound_def)
  obtain lr t where l: "fire_for_key j d s = (lr, t)" by fastforce
  note lk = fire_lookup_ok(5) [OF ok l [unfolded fire_for_key_def]]
  show ?thesis
  proof (cases rule: known_source [OF ok f])
    case r: (1 r)
    then have p: "?P r" "getp r ''fireId'' = i" by (auto simp: row_facts_def split: if_splits)
    have "find ?P (hot_fires s) = Some r"
    proof (rule find_unique [where P = ?P, OF r(1)])
      show "?P r" by (rule p(1))
    next
      fix y assume y: "y \<in> set (hot_fires s)" "?P y"
      then have "fire_key y = fire_key r"
        using p st r(1) fire_key_eq [of date mint appr y r] by (auto simp: rows_typed_def list_all_iff key_of_def)
      then show "y = r" by (rule distinct_map_eq [OF dk, OF r(1) y(1)])
    qed
    with lk l n p show ?thesis by simp
  next
    case a: (2 a)
    then have "archived_sound date mint appr a" using hs(1) by (simp add: list_all_iff)
    with a(2) have q: "?Q a" "getp (arRecord a) ''fireId'' = i"
      using archived_columns [of date mint appr a] by (auto simp: row_facts_def split: if_splits)
    have "find ?P (hot_fires s) = None"
      using ok_running [OF ok n] a(1) q(1) by (force simp: apart_def row_keys_def key_of_def find_None_iff)
    moreover have "find ?Q (cold_rows (auHistory s)) = Some a"
    proof (rule find_unique [where P = ?Q, OF a(1)])
      show "?Q a" by (rule q(1))
    next
      fix y assume y: "y \<in> set (cold_rows (auHistory s))" "?Q y"
      show "y = a" by (rule distinct_map_eq [OF hs(2), OF a(1) y(1)]) (use y(2) q(1) in simp)
    qed
    ultimately show ?thesis using lk l n q by simp
  qed simp_all
qed

lemma ended_found:
  assumes ok: "automation_ok date mint appr A s" and f: "FireEnded i q \<in> A" and n: "\<not> lgFailed (auLedger s)"
  shows "\<exists>x. fst (get_fire i s) = Inr (Some x) \<and> terminal_fire x \<and> getp x ''status'' = q \<and> getp x ''fireId'' = i"
proof -
  have st: "rows_typed date mint appr (hot_approvals s) (hot_fires s)" by (rule stored_parts(2) [OF ok])
  then have di: "distinct (map (\<lambda>r. getp r ''fireId'') (hot_fires s))" using distinct_fire_ids by (auto simp: rows_typed_def)
  have hs: "list_all (archived_sound date mint appr) (cold_rows (auHistory s))"
    "distinct (map (\<lambda>a. (arJob a, arDigest a)) (cold_rows (auHistory s)))"
    using ok_parts(3) [OF ok] by (simp_all add: history_sound_def)
  obtain lr t where l: "get_fire i s = (lr, t)" by fastforce
  note lk = fire_lookup_ok(5) [OF ok l [unfolded get_fire_def]]
  show ?thesis
  proof (cases rule: known_source [OF ok f])
    case r: (1 r)
    then have p: "getp r ''fireId'' = i" "terminal_fire r" "getp r ''status'' = q" by (auto simp: row_facts_def split: if_splits)
    have "find (\<lambda>r. getp r ''fireId'' = i) (hot_fires s) = Some r"
    proof (rule find_unique [OF r(1)])
      show "getp r ''fireId'' = i" by (rule p(1))
    next
      fix y assume y: "y \<in> set (hot_fires s)" "getp y ''fireId'' = i"
      show "y = r" by (rule distinct_map_eq [OF di, OF r(1) y(1)]) (use y(2) p(1) in simp)
    qed
    with lk l n p show ?thesis by simp
  next
    case a: (2 a)
    then have sa: "archived_sound date mint appr a" using hs(1) by (simp add: list_all_iff)
    from a(2) have p: "getp (arRecord a) ''fireId'' = i" "terminal_fire (arRecord a)" "getp (arRecord a) ''status'' = q"
      by (auto simp: row_facts_def split: if_splits)
    have key: "key_of y = (arJob a, arDigest a)" if "fire_typed date mint appr y" "getp y ''fireId'' = i" for y
      using fire_same_key [OF that(1), of "arRecord a"] that(2) sa p(1) archived_columns [OF sa]
      by (simp add: archived_sound_def key_of_def)
    have "find (\<lambda>r. getp r ''fireId'' = i) (hot_fires s) = None"
    proof -
      have "getp y ''fireId'' \<noteq> i" if "y \<in> set (hot_fires s)" for y
      proof
        assume "getp y ''fireId'' = i"
        then have "key_of y = (arJob a, arDigest a)" using that st key by (auto simp: rows_typed_def list_all_iff)
        then have "key_of y \<in> row_keys (cold_rows (auHistory s))" using a(1) by (auto simp: row_keys_def)
        with that ok_running [OF ok n] show False by (simp add: apart_def)
      qed
      then show ?thesis by (simp add: find_None_iff)
    qed
    moreover have "find (\<lambda>a. arFire a = i) (cold_rows (auHistory s)) = Some a"
    proof (rule find_unique [OF a(1)])
      show "arFire a = i" using archived_columns(1) [OF sa] p(1) by simp
    next
      fix y assume y: "y \<in> set (cold_rows (auHistory s))" "arFire y = i"
      then have sy: "archived_sound date mint appr y" using hs(1) by (simp add: list_all_iff)
      then have "key_of (arRecord y) = (arJob a, arDigest a)"
        using y(2) archived_columns(1) [OF sy] by (intro key) (auto simp: archived_sound_def)
      then have "(arJob y, arDigest y) = (arJob a, arDigest a)" using archived_columns [OF sy] by (simp add: key_of_def)
      then show "y = a" by (rule distinct_map_eq [OF hs(2), OF a(1) y(1)])
    qed
    ultimately show ?thesis using lk l n p by simp
  qed simp_all
qed

lemma approval_found:
  assumes ok: "automation_ok date mint appr A s" and f: "ApprovalKnown i \<in> A" and n: "\<not> lgFailed (auLedger s)"
  shows "fst (automation_approval i s) = Inr (Some (appr i))"
proof -
  obtain lr t where l: "automation_approval i s = (lr, t)" by fastforce
  note lk = approval_lookup_ok(5) [OF ok l [unfolded automation_approval_def]]
  have hot: "appr (getp a ''id'') = a" if "a \<in> set (hot_approvals s)" for a
    using stored_parts(2) [OF ok] that by (auto simp: rows_typed_def list_all_iff approval_typed_def)
  have cold: "appr i = a" if "map_of (cold_approvals (auHistory s)) i = Some a" for a
    using cold_approval_typed [OF ok_parts(3) [OF ok] that] by (auto simp: approval_typed_def)
  show ?thesis
  proof (cases "find (\<lambda>a. getp a ''id'' = i) (hot_approvals s)")
    case (Some a)
    then have "appr i = a" using hot by (auto simp: find_Some_iff)
    with Some lk l n show ?thesis by simp
  next
    case None
    have "map_of (cold_approvals (auHistory s)) i \<noteq> None"
    proof (cases rule: known_source [OF ok f])
      case (3 a)
      with None show ?thesis by (auto simp: find_None_iff)
    next
      case a: (4 k a)
      then have "k = i" using ok_parts(3) [OF ok] by (auto simp: history_sound_def list_all_iff)
      with a(1) show ?thesis by (metis domIff dom_map_of_conv_image_fst fst_conv image_eqI)
    qed (auto simp: row_facts_def split: if_splits)
    with None lk l n cold show ?thesis by auto
  qed
qed

section \<open>Properties\<close>

lemma lgFailed_lookup:
  "lgFailed (auLedger s) \<Longrightarrow> automation_lookup hot rows cold s = (Inl (AutomationCopies NeedsRecovery), s)"
  by (simp add: automation_lookup_def)

lemma prepare_known:
  assumes ok: "automation_ok date mint appr A s" and f: "FireKnown j d i \<in> A" and x: "key_of x = (j, d)"
  shows "isl (fst (prepare_fire shortest date faults x s))"
proof (cases "lgFailed (auLedger s)")
  case True
  then show ?thesis by (simp add: prepare_fire_def fire_for_key_def lgFailed_lookup)
next
  case False
  then obtain y where "fst (fire_for_key j d s) = Inr (Some y)" using known_found [OF ok f] by blast
  then show ?thesis using x by (auto simp: prepare_fire_def key_of_def split: prod.splits)
qed

text \<open>
  C22: A fire that was accepted is known with its identifier ever after, and no fire with its key is accepted again,
  across retirement to the history, failed writes at any statement, restarts and the loss of one hot file.
\<close>

lemma fire_accepted_once:
  assumes "list_all (automation_host date mint appr) (es @ PrepareFire r faults # fs)"
    and "prepare_fire shortest date faults r (foldl (automation_step shortest date) new_automation es) = (Inr (), s)"
    and "getp x ''jobId'' = getp r ''jobId''" "getp x ''fireKeyDigest'' = getp r ''fireKeyDigest''"
  shows "isl (fst (prepare_fire shortest date faults' x (foldl (automation_step shortest date) s fs))) \<and>
    (lgFailed (auLedger (foldl (automation_step shortest date) s fs)) \<or>
     (\<exists>y. fst (fire_for_key (getp r ''jobId'') (getp r ''fireKeyDigest'') (foldl (automation_step shortest date) s fs)) =
        Inr (Some y) \<and> getp y ''fireId'' = getp r ''fireId''))"
proof -
  have "automation_ok date mint appr {} (foldl (automation_step shortest date) new_automation es)"
    using new_ok assms(1) by (intro run_ok) auto
  then have "automation_ok date mint appr (row_facts r) s"
    using prepare_fire_ok(2) [OF _ _ assms(2)] assms(1) by auto
  then have ok: "automation_ok date mint appr (row_facts r) (foldl (automation_step shortest date) s fs)"
    using assms(1) by (intro run_ok) auto
  have f: "FireKnown (getp r ''jobId'') (getp r ''fireKeyDigest'') (getp r ''fireId'') \<in> row_facts r"
    by (simp add: row_facts_def)
  show ?thesis using prepare_known [OF ok f, of x] known_found [OF ok f] assms(3,4) by (auto simp: key_of_def)
qed

text \<open>
  C23: A fire that an update ended keeps its status: every later update that is answered returns it unchanged and leaves
  the ledger as it was, across retirement, failed writes, restarts and the loss of one hot file.
\<close>

lemma ended_fire_final:
  assumes "list_all (automation_host date mint appr) (es @ UpdateFire i q now faults # fs)"
    and "fst (get_fire i (foldl (automation_step shortest date) new_automation es)) = Inr (Some x)" "\<not> terminal_fire x"
    and "update_fire shortest date faults now i q (foldl (automation_step shortest date) new_automation es) = (Inr u, s)"
    and "terminal_fire u"
  shows "case update_fire shortest date faults' now' i q' (foldl (automation_step shortest date) s fs) of
      (Inl e, t) \<Rightarrow> e = AutomationCopies NeedsRecovery \<and> lgFailed (auLedger (foldl (automation_step shortest date) s fs))
    | (Inr y, t) \<Rightarrow> terminal_fire y \<and> getp y ''status'' = getp u ''status'' \<and>
        auLedger t = auLedger (foldl (automation_step shortest date) s fs)"
proof -
  let ?t = "foldl (automation_step shortest date) s fs"
  have "automation_ok date mint appr {} (foldl (automation_step shortest date) new_automation es)"
    using new_ok assms(1) by (intro run_ok) auto
  then have u: "getp u ''fireId'' = i" and "automation_ok date mint appr (row_facts u) s"
    using update_fire_ok(2) [OF _ _ assms(4)] assms(1-3) by auto
  then have ok: "automation_ok date mint appr (row_facts u) ?t" using assms(1) by (intro run_ok) auto
  have f: "FireEnded i (getp u ''status'') \<in> row_facts u" using u assms(5) by (simp add: row_facts_def)
  show ?thesis
  proof (cases "lgFailed (auLedger ?t)")
    case True
    then show ?thesis by (simp add: update_fire_def get_fire_def lgFailed_lookup)
  next
    case False
    obtain lr s1 where l: "get_fire i ?t = (lr, s1)" by fastforce
    from ended_found [OF ok f False] l obtain y where "lr = Inr (Some y)" "terminal_fire y" "getp y ''status'' = getp u ''status''"
      by auto
    with l fire_lookup_ok(2) [OF ok l [unfolded get_fire_def]] show ?thesis by (simp add: update_fire_def)
  qed
qed

text \<open>An approval that was acknowledged is found as it was given.\<close>

lemma approval_kept:
  assumes "list_all (automation_host date mint appr) (es @ ApproveTarget a faults # fs)"
    and "approve_target shortest date faults a (foldl (automation_step shortest date) new_automation es) = (Inr (), s)"
    and "\<not> lgFailed (auLedger (foldl (automation_step shortest date) s fs))"
  shows "fst (automation_approval (getp a ''id'') (foldl (automation_step shortest date) s fs)) = Inr (Some a)"
proof -
  have "automation_ok date mint appr {} (foldl (automation_step shortest date) new_automation es)"
    using new_ok assms(1) by (intro run_ok) auto
  then have "automation_ok date mint appr {ApprovalKnown (getp a ''id'')} s"
    using approve_target_ok(2) [OF _ _ assms(2)] assms(1) by auto
  then have ok: "automation_ok date mint appr {ApprovalKnown (getp a ''id'')} (foldl (automation_step shortest date) s fs)"
    using assms(1) by (intro run_ok) auto
  have "appr (getp a ''id'') = a" using assms(1) by (simp add: approval_typed_def)
  with approval_found [OF ok _ assms(3)] show ?thesis by simp
qed

text \<open>The history is gone.\<close>

lemma open_without_history:
  assumes ok: "automation_ok date mint appr A s"
    and o: "open_automation shortest date (s\<lparr>auHistory := h\<rparr>) = (res, t)" and n: "hsFile h = None"
  shows "case res of Inl e \<Rightarrow> e = HistoryMissing \<or> (\<exists>c. e = AutomationCopies c)
    | Inr _ \<Rightarrow> A \<subseteq> facts_of (hot_approvals t) (hot_fires t)"
proof (cases rule: open_cases [OF o])
  case (1 e)
  then show ?thesis by simp
next
  case (2 v rr g)
  have src: "fired.readable date (cpPrimary (lgDisk (auLedger s))) v \<or> fired.readable date (cpBackup (lgDisk (auLedger s))) v \<or>
      v = empty_automation \<and> cpPrimary (lgDisk (auLedger s)) = Missing \<and> cpBackup (lgDisk (auLedger s)) = Missing"
    using fired.open_source [OF 2(1)] by simp
  show ?thesis
  proof (cases "flagged v")
    case True
    then have "rr = Inl HistoryMissing" using 2(2) n fresh_missing by simp
    with 2(3) show ?thesis by simp
  next
    case False
    have "A \<subseteq> hot_facts v"
      using src
    proof (elim disjE)
      assume "fired.readable date (cpPrimary (lgDisk (auLedger s))) v"
      with ok False show ?thesis by (auto simp: automation_ok_def backed_def dest!: fired.readable_Copy)
    next
      assume "fired.readable date (cpBackup (lgDisk (auLedger s))) v"
      with ok False show ?thesis by (auto simp: automation_ok_def backed_def dest!: fired.readable_Copy)
    next
      assume "v = empty_automation \<and> cpPrimary (lgDisk (auLedger s)) = Missing \<and> cpBackup (lgDisk (auLedger s)) = Missing"
      with ok have "A = {}" by (simp add: automation_ok_def fired.durable_def fired.present_def Let_def)
      then show ?thesis by simp
    qed
    moreover have "rr = Inr (fires_of v)"
      using 2(2) False n fresh_usable by (simp add: reconcile_history_def exists_usable fresh_rows(4))
    moreover have "setp v ''fires'' (Arr (fires_of v)) = v"
    proof (rule setp_same)
      have "automation_sound date mint appr v"
        using src ok fired.held_readable [of date mint appr "cold_facts (auHistory s)" A] fired.sound_initial
        by (auto simp: automation_ok_def fired.durable_def Let_def)
      then show "getp v ''fires'' = Arr (fires_of v)"
        by (simp add: automation_sound_def automation_base_def fires_of_def array_elements [symmetric])
    qed simp
    ultimately show ?thesis using 2(3) by (auto simp: hot_facts_def hot_approvals_def hot_fires_def)
  qed
qed

text \<open>
  C24: When the file of the history is lost after any life, the next start refuses to run without it, or finds every accepted
  fire in the hot files: no accepted fire is forgotten silently.
\<close>

lemma lost_history_noticed:
  assumes "list_all (automation_host date mint appr) (es @ PrepareFire r faults # fs)"
    and "prepare_fire shortest date faults r (foldl (automation_step shortest date) new_automation es) = (Inr (), s)"
    and "open_automation shortest date ((foldl (automation_step shortest date) s fs)
      \<lparr>auHistory := \<lparr>hsFile = None, hsRequired = False, hsInitialize = False\<rparr>\<rparr>) = (res, t)"
  shows "case res of Inl e \<Rightarrow> e = HistoryMissing \<or> (\<exists>c. e = AutomationCopies c)
    | Inr _ \<Rightarrow> (\<exists>y \<in> set (hot_fires t). getp y ''jobId'' = getp r ''jobId'' \<and>
        getp y ''fireKeyDigest'' = getp r ''fireKeyDigest'' \<and> getp y ''fireId'' = getp r ''fireId'')"
proof -
  have "automation_ok date mint appr {} (foldl (automation_step shortest date) new_automation es)"
    using new_ok assms(1) by (intro run_ok) auto
  then have "automation_ok date mint appr (row_facts r) s"
    using prepare_fire_ok(2) [OF _ _ assms(2)] assms(1) by auto
  then have ok: "automation_ok date mint appr (row_facts r) (foldl (automation_step shortest date) s fs)"
    using assms(1) by (intro run_ok) auto
  have "\<exists>y \<in> set (hot_fires t). getp y ''jobId'' = getp r ''jobId'' \<and>
      getp y ''fireKeyDigest'' = getp r ''fireKeyDigest'' \<and> getp y ''fireId'' = getp r ''fireId''"
    if "row_facts r \<subseteq> facts_of (hot_approvals t) (hot_fires t)"
  proof -
    have "FireKnown (getp r ''jobId'') (getp r ''fireKeyDigest'') (getp r ''fireId'') \<in> facts_of (hot_approvals t) (hot_fires t)"
      using that by (auto simp: row_facts_def)
    then show ?thesis by (auto simp: facts_of_def row_facts_def split: if_splits)
  qed
  then show ?thesis using open_without_history [OF ok assms(3)] by (auto split: sum.splits)
qed

section \<open>A concrete life\<close>

definition zero_uuid :: jstr where "zero_uuid = js ''00000000-0000-0000-0000-000000000000''"
definition zero_hash :: jstr where "zero_hash = replicate 64 48"

lemma zero_texts: "uuid_text zero_uuid" "hash_text zero_hash" "length zero_uuid = 36" "length zero_hash = 64"
proof -
  have z: "zero_uuid = replicate 8 48 @ 45 # replicate 4 48 @ 45 # replicate 4 48 @ 45 # replicate 4 48 @ 45 # replicate 12 48"
    by (simp add: zero_uuid_def numeral_eq_Suc)
  show "uuid_text zero_uuid"
    unfolding z by (simp add: uuid_text_def hex_any_def hex_lower_def numeral_eq_Suc upt_rec)
  show "hash_text zero_hash" "length zero_hash = 64" by (simp_all add: hash_text_def zero_hash_def hex_lower_def list_all_iff)
  show "length zero_uuid = 36" by (simp add: z)
qed

definition sample_approval :: jsval where
  "sample_approval = Obj [(''id'', Str zero_uuid), (''jobId'', Str zero_uuid), (''targetBotId'', Str zero_uuid),
     (''targetRevision'', Str []), (''definitionDigest'', Str zero_hash),
     (''permissions'', Obj [(''connectionIds'', Arr []), (''workspacePaths'', Arr []), (''toolIds'', Arr []),
       (''allowMutation'', JBool False), (''allowDelegation'', JBool False)]), (''createdAt'', Str [])]"

definition sample_fire :: "fire_status \<Rightarrow> jsval" where
  "sample_fire q = Obj [(''fireId'', Str zero_uuid), (''fireKeyDigest'', Str zero_hash), (''jobId'', Str zero_uuid),
     (''approvalId'', Str zero_uuid), (''targetBotId'', Str zero_uuid),
     (''sessionId'', Str (automation_prefix @ zero_uuid @ [58] @ zero_uuid)), (''runId'', Str (automation_prefix @ zero_uuid)),
     (''status'', Str (fire_status_text q)), (''createdAt'', Str []), (''updatedAt'', Str [])]"

abbreviation zero_date :: "jstr \<Rightarrow> int option" where "zero_date \<equiv> \<lambda>_. Some 0"

lemma automation_sample_typed:
  "approval_typed zero_date (\<lambda>_. sample_approval) sample_approval"
  "fire_typed zero_date (\<lambda>_. sample_fire FsPrepared) (\<lambda>_. sample_approval) (sample_fire q)"
proof -
  show "approval_typed zero_date (\<lambda>_. sample_approval) sample_approval"
    using zero_texts by (simp add: approval_typed_def sample_approval_def object_wf_def approval_row_def text_with_def
        valid_date_def is_record_def id_list_def is_array_def is_bool_def)
  have "Str (fire_status_text q) \<in> set fire_statuses" by (cases q) (simp_all add: fire_statuses_def del: js_simps)
  then show "fire_typed zero_date (\<lambda>_. sample_fire FsPrepared) (\<lambda>_. sample_approval) (sample_fire q)"
    using zero_texts by (simp add: fire_typed_def sample_fire_def sample_approval_def object_wf_def fire_shape_def text_with_def
        valid_date_def is_record_def approval_matches_def bare_text_def)
qed

definition sample_value :: "rat \<Rightarrow> jsval list \<Rightarrow> jsval list \<Rightarrow> jsval" where
  "sample_value q as fs = Obj [(''version'', Num (Fin 1)), (''revision'', Num (Fin q)), (''approvals'', Arr as),
     (''fires'', Arr fs), (''historyRequired'', JBool True)]"

definition sample_state :: "rat \<Rightarrow> jsval list \<Rightarrow> jsval list \<Rightarrow> automation" where
  "sample_state q as fs =
     \<lparr>auLedger = \<lparr>lgStored = sample_value q as fs, lgFailed = False,
        lgDisk = \<lparr>cpPrimary = file_of (\<lambda>_. []) (sample_value q as fs), cpBackup = file_of (\<lambda>_. []) (sample_value q as fs)\<rparr>\<rparr>,
      auHistory = \<lparr>hsFile = Some \<lparr>dbReady = True, dbFires = [], dbApprovals = [(Str zero_uuid, sample_approval)]\<rparr>,
        hsRequired = True, hsInitialize = False\<rparr>\<rparr>"

lemma sample_bytes:
  assumes "q \<in> {1, 2, 3}" "as \<in> {[], [sample_approval]}" "fs \<in> {[], [sample_fire x]}"
  shows "pretty_bytes (\<lambda>_. []) (sample_value q as fs) + 1 \<le> max_automation_bytes"
proof -
  have "length (fire_status_text x) \<le> 20" by (cases x) simp_all
  moreover have "length automation_prefix = 11" by (simp add: automation_prefix_def)
  moreover have "number_text (\<lambda>_. []) (Fin 3) = [51]" by (simp add: number_text_def digits_acc.simps)
  ultimately have "json_weight (\<lambda>_. []) 0 (sample_value q as fs) \<le> 20000"
    using assms zero_texts by (auto simp: sample_value_def sample_approval_def sample_fire_def number_text_small)
  with pretty_bytes_bound [of "\<lambda>_. []" "sample_value q as fs"] show ?thesis by (simp add: max_automation_bytes_def)
qed

lemma sample_approve:
  "approve_target (\<lambda>_. []) zero_date (False, None) sample_approval new_automation = (Inr (), sample_state 1 [] [])"
proof -
  have c: "json_clean sample_approval = sample_approval" by (simp add: sample_approval_def)
  have i: "getp sample_approval ''id'' = Str zero_uuid" by (simp add: sample_approval_def)
  have v: "automation_value (setp empty_automation ''approvals'' (Arr [sample_approval])) 1 [] True [] = sample_value 1 [] []"
    by (simp add: automation_value_def empty_automation_def setp_def with_revision_def sample_value_def)
  have s: "hot_approvals new_automation = []" "lgStored (auLedger new_automation) = empty_automation"
    "approvals_of (setp empty_automation ''approvals'' (Arr [sample_approval])) = [sample_approval]"
    "fires_of (setp empty_automation ''approvals'' (Arr [sample_approval])) = []" "revision empty_automation = 0"
    by (simp_all add: hot_approvals_def new_automation_def approvals_of_def fires_of_def empty_automation_def revision_def setp_def)
  have r: "retired_fires zero_date [] = []" "kept_fires zero_date [] = []" by (simp_all add: retired_fires_def kept_fires_def)
  have h: "history_exists (auHistory new_automation) = Inr False" by (simp add: history_exists_def new_automation_def)
  have t: "retire_history False [] [sample_approval] (auHistory new_automation) = (Inr (), auHistory (sample_state 1 [] []))"
    using i c by (simp add: retire_history_def open_history_def new_automation_def sample_state_def Let_def)
  show ?thesis
    using sample_bytes [of 1 "[]" "[]"]
    by (simp add: approve_target_def save_automation_def s r h v t Let_def commit_value_def write_copies_def)
      (simp add: new_automation_def sample_state_def)
qed

lemma sample_prepare:
  "prepare_fire (\<lambda>_. []) zero_date (False, None) (sample_fire FsPrepared) (sample_state 1 [] []) =
   (Inr (), sample_state 2 [sample_approval] [sample_fire FsPrepared])"
proof -
  let ?r = "sample_fire FsPrepared"
  have g: "getp ?r ''approvalId'' = Str zero_uuid" "\<not> terminal_fire ?r" "getp sample_approval ''id'' = Str zero_uuid"
    by (simp_all add: sample_fire_def sample_approval_def terminal_fire_def)
  let ?v = "setp (sample_value 1 [] []) ''fires'' (Arr [?r])"
  have v: "automation_value ?v 2 [?r] True [sample_approval] = sample_value 2 [sample_approval] [?r]"
    by (simp add: automation_value_def setp_def with_revision_def sample_value_def)
  have s: "hot_fires (sample_state q as fs) = fs" "lgStored (auLedger (sample_state q as fs)) = sample_value q as fs"
    "\<not> lgFailed (auLedger (sample_state q as fs))" "revision (sample_value q as fs) = q" for q as fs
    by (simp_all add: hot_fires_def sample_state_def fires_of_def sample_value_def revision_def)
  have p: "approvals_of ?v = []" "fires_of ?v = [?r]" by (simp_all add: approvals_of_def fires_of_def sample_value_def setp_def)
  have r: "retired_fires zero_date [?r] = []" "kept_fires zero_date [?r] = [?r]"
    using g by (simp_all add: retired_fires_def kept_fires_def)
  let ?h = "auHistory (sample_state 1 [] [])"
  have o: "history_exists ?h = Inr True"
    "open_history ?h = (Inr \<lparr>dbReady = True, dbFires = [], dbApprovals = [(Str zero_uuid, sample_approval)]\<rparr>, ?h)"
    by (simp_all add: history_exists_def open_history_def sample_state_def Let_def)
  have k: "fire_for_key j d (sample_state 1 [] []) = (Inr None, sample_state 1 [] [])" for j d
    using o by (simp add: fire_for_key_def automation_lookup_def history_find_def s)
  have a: "history_approval (Str zero_uuid) ?h = (Inr (Some sample_approval), ?h)"
    using o g by (simp add: history_approval_def)
  show ?thesis
    using sample_bytes [of 2 "[sample_approval]" "[?r]" FsPrepared] g
    by (simp add: prepare_fire_def k save_automation_def s p r a o v Let_def retire_history_def commit_value_def write_copies_def)
      (simp add: sample_state_def)
qed

lemma sample_update:
  "update_fire (\<lambda>_. []) zero_date (False, None) [] (Str zero_uuid) FsComplete (sample_state 2 [sample_approval] [sample_fire FsPrepared]) =
   (Inr (sample_fire FsComplete), sample_state 3 [sample_approval] [sample_fire FsComplete])"
  "get_fire (Str zero_uuid) (sample_state 2 [sample_approval] [sample_fire FsPrepared]) =
     (Inr (Some (sample_fire FsPrepared)), sample_state 2 [sample_approval] [sample_fire FsPrepared])"
  "\<not> terminal_fire (sample_fire FsPrepared)" "terminal_fire (sample_fire FsComplete)"
proof -
  let ?s = "sample_state 2 [sample_approval] [sample_fire FsPrepared]" and ?r = "sample_fire FsComplete"
  have g: "getp (sample_fire q) ''approvalId'' = Str zero_uuid" "getp (sample_fire q) ''fireId'' = Str zero_uuid"
    "getp sample_approval ''id'' = Str zero_uuid" for q
    by (simp_all add: sample_fire_def sample_approval_def)
  have n: "next_fire q [] (sample_fire q') = sample_fire q" for q q' by (simp add: next_fire_def sample_fire_def setp_def)
  show tt: "\<not> terminal_fire (sample_fire FsPrepared)" "terminal_fire ?r"
    by (simp_all add: terminal_fire_def sample_fire_def)
  let ?v = "setp (sample_value 2 [sample_approval] [sample_fire FsPrepared]) ''fires'' (Arr [?r])"
  have v: "automation_value ?v 3 [?r] True [sample_approval] = sample_value 3 [sample_approval] [?r]"
    by (simp add: automation_value_def setp_def with_revision_def sample_value_def)
  have s: "hot_fires ?s = [sample_fire FsPrepared]" "lgStored (auLedger ?s) = sample_value 2 [sample_approval] [sample_fire FsPrepared]"
    "\<not> lgFailed (auLedger ?s)" "revision (sample_value q as fs) = q" for q as fs
    by (simp_all add: hot_fires_def sample_state_def fires_of_def sample_value_def revision_def)
  have p: "approvals_of ?v = [sample_approval]" "fires_of ?v = [?r]" by (simp_all add: approvals_of_def fires_of_def sample_value_def setp_def)
  have r: "retired_fires zero_date [?r] = []" "kept_fires zero_date [?r] = [?r]"
    using tt by (simp_all add: retired_fires_def kept_fires_def)
  have o: "history_exists (auHistory ?s) = Inr True"
    by (simp add: history_exists_def sample_state_def)
  show f: "get_fire (Str zero_uuid) ?s = (Inr (Some (sample_fire FsPrepared)), ?s)"
    by (simp add: get_fire_def automation_lookup_def s g)
  show "update_fire (\<lambda>_. []) zero_date (False, None) [] (Str zero_uuid) FsComplete ?s =
      (Inr ?r, sample_state 3 [sample_approval] [?r])"
    using sample_bytes [of 3 "[sample_approval]" "[?r]" FsComplete] g
    by (simp add: update_fire_def f tt n save_automation_def s p r o v Let_def retire_history_def commit_value_def write_copies_def)
      (simp add: sample_state_def)
qed

lemma fire_accepted_once_witness:
  "isl (fst (prepare_fire (\<lambda>_. []) zero_date (False, None) (sample_fire FsPrepared)
     (foldl (automation_step (\<lambda>_. []) zero_date) (sample_state 2 [sample_approval] [sample_fire FsPrepared])
       [LoseHot True Damaged, RestartAutomation])))"
proof -
  have h: "list_all (automation_host zero_date (\<lambda>_. sample_fire FsPrepared) (\<lambda>_. sample_approval))
      ([ApproveTarget sample_approval (False, None)] @ PrepareFire (sample_fire FsPrepared) (False, None) #
       [LoseHot True Damaged, RestartAutomation])"
    using automation_sample_typed by simp
  show ?thesis
    using fire_accepted_once [OF h, where shortest = "\<lambda>_. []" and s = "sample_state 2 [sample_approval] [sample_fire FsPrepared]"
        and x = "sample_fire FsPrepared" and faults' = "(False, None)"] sample_approve sample_prepare
    by simp
qed

lemma ended_fire_final_witness:
  "case update_fire (\<lambda>_. []) zero_date (False, None) [] (Str zero_uuid) FsError
     (foldl (automation_step (\<lambda>_. []) zero_date) (sample_state 3 [sample_approval] [sample_fire FsComplete])
       [LoseHot False Missing, RestartAutomation]) of
     (Inl e, t) \<Rightarrow> e = AutomationCopies NeedsRecovery
   | (Inr y, t) \<Rightarrow> getp y ''status'' = Str (fire_status_text FsComplete)"
proof -
  have h: "list_all (automation_host zero_date (\<lambda>_. sample_fire FsPrepared) (\<lambda>_. sample_approval))
      ([ApproveTarget sample_approval (False, None), PrepareFire (sample_fire FsPrepared) (False, None)] @
       UpdateFire (Str zero_uuid) FsComplete [] (False, None) # [LoseHot False Missing, RestartAutomation])"
    using automation_sample_typed by simp
  have g: "getp (sample_fire FsComplete) ''status'' = Str (fire_status_text FsComplete)" by (simp add: sample_fire_def)
  show ?thesis
    using ended_fire_final [OF h, where shortest = "\<lambda>_. []" and x = "sample_fire FsPrepared" and u = "sample_fire FsComplete"
        and s = "sample_state 3 [sample_approval] [sample_fire FsComplete]" and faults' = "(False, None)" and now' = "[]" and q' = FsError]
      sample_approve sample_prepare sample_update g
    by (auto split: prod.splits sum.splits)
qed

lemma lost_history_noticed_witness:
  "case fst (open_automation (\<lambda>_. []) zero_date ((sample_state 2 [sample_approval] [sample_fire FsPrepared])
      \<lparr>auHistory := \<lparr>hsFile = None, hsRequired = False, hsInitialize = False\<rparr>\<rparr>)) of
     Inl e \<Rightarrow> e = HistoryMissing \<or> (\<exists>c. e = AutomationCopies c) | Inr _ \<Rightarrow> True"
proof -
  have h: "list_all (automation_host zero_date (\<lambda>_. sample_fire FsPrepared) (\<lambda>_. sample_approval))
      ([ApproveTarget sample_approval (False, None)] @ PrepareFire (sample_fire FsPrepared) (False, None) # [])"
    using automation_sample_typed by simp
  obtain res t where o: "open_automation (\<lambda>_. []) zero_date ((sample_state 2 [sample_approval] [sample_fire FsPrepared])
      \<lparr>auHistory := \<lparr>hsFile = None, hsRequired = False, hsInitialize = False\<rparr>\<rparr>) = (res, t)" by fastforce
  show ?thesis
    using lost_history_noticed [OF h, where shortest = "\<lambda>_. []" and s = "sample_state 2 [sample_approval] [sample_fire FsPrepared]"
        and res = res and t = t] sample_approve sample_prepare o
    by (auto split: sum.splits)
qed

end
