(* ===== verification/ConversationOwners.thy ===== *)
theory ConversationOwners
  imports LedgerCopies
begin

text \<open>
  The owners of conversations, runs, projects and resources, \<open>apps/desktop/src/main/bot-conversation-ledger.ts\<close>. Unlike the other
  ledgers it has no revision: the constructor merges the two files and refuses copies that disagree on an owner, and a save writes
  the backup first. \<open>date\<close> is \<open>Date.parse\<close>, \<open>now\<close> is \<open>new Date().toISOString()\<close>. The four maps of the class are one field
  indexed by \<open>owner_kind\<close>.
\<close>

section \<open>Rows and the guard of the file\<close>

datatype owner_kind = KConversation | KRun | KProject | KResource

datatype owner_error =
    OwnersLost | OwnersDisagree owner_kind | InvalidOwnerId | InvalidOwnerInput | ForeignOwner | WorkspaceFixed
  | OwnersUnsaved copy_error

definition max_owner_bytes :: nat where "max_owner_bytes = 4000000"

text \<open>\<open>BOT_ID\<close>; \<open>SESSION_ID\<close> and \<open>PROJECT_ID\<close> are \<open>id_text\<close>.\<close>

definition lower_or_digit :: "nat \<Rightarrow> bool" where
  "lower_or_digit u = (48 \<le> u \<and> u \<le> 57 \<or> 97 \<le> u \<and> u \<le> 122)"

definition bot_text :: "jstr \<Rightarrow> bool" where
  "bot_text s = (case s of [] \<Rightarrow> False
     | u # us \<Rightarrow> lower_or_digit u \<and> length us \<le> 63 \<and> list_all (\<lambda>u. lower_or_digit u \<or> u = 95 \<or> u = 45) us)"

definition invalid_control :: "bool \<Rightarrow> jstr \<Rightarrow> bool" where
  "invalid_control multiline s = list_ex (\<lambda>u. u = 127 \<or> u < 32 \<and> (\<not> multiline \<or> u \<notin> {9, 10, 13})) s"

definition valid_workspace :: "jsval \<Rightarrow> bool" where
  "valid_workspace v = text_with (\<lambda>s. 0 < length s \<and> length s \<le> 4096 \<and> absolute_path s \<and> resolved s = s \<and>
     \<not> invalid_control False s) v"

definition bounded_text :: "jsval \<Rightarrow> bool" where
  "bounded_text v = text_with (\<lambda>s. length s \<le> 1200 \<and> \<not> invalid_control True s) v"

definition valid_context :: "jsval \<Rightarrow> bool" where
  "valid_context v = (case v of
     Obj fs \<Rightarrow> list_all (\<lambda>(k, _). k \<in> {''name'', ''description'', ''instructions''}) fs \<and>
       bounded_text (getp v ''name'') \<and>
       text_with (\<lambda>s. list_all (\<lambda>u. u \<notin> {9, 10, 13}) s \<and> trim_text s \<noteq> []) (getp v ''name'') \<and>
       (getp v ''description'' = Undef \<or> bounded_text (getp v ''description'')) \<and>
       (getp v ''instructions'' = Undef \<or> bounded_text (getp v ''instructions''))
   | _ \<Rightarrow> False)"

definition valid_project :: "(jstr \<Rightarrow> int option) \<Rightarrow> jsval \<Rightarrow> bool" where
  "valid_project date r = (is_record r \<and> text_with id_text (getp r ''projectId'') \<and>
     text_with bot_text (getp r ''botId'') \<and> valid_date date (getp r ''createdAt''))"

definition valid_resource :: "(jstr \<Rightarrow> int option) \<Rightarrow> jsval \<Rightarrow> bool" where
  "valid_resource date r = (is_record r \<and> text_with id_text (getp r ''resourceId'') \<and>
     text_with id_text (getp r ''projectId'') \<and> text_with bot_text (getp r ''botId'') \<and>
     valid_date date (getp r ''createdAt''))"

definition valid_run :: "(jstr \<Rightarrow> int option) \<Rightarrow> jsval \<Rightarrow> bool" where
  "valid_run date r = (is_record r \<and> text_with id_text (getp r ''runId'') \<and> text_with id_text (getp r ''sessionId'') \<and>
     text_with bot_text (getp r ''botId'') \<and>
     (getp r ''projectId'' = Undef \<or> text_with id_text (getp r ''projectId'')) \<and> valid_date date (getp r ''createdAt''))"

definition valid_conversation :: "(jstr \<Rightarrow> int option) \<Rightarrow> jsval \<Rightarrow> bool" where
  "valid_conversation date r = (is_record r \<and> text_with id_text (getp r ''sessionId'') \<and>
     text_with bot_text (getp r ''botId'') \<and>
     (getp r ''projectId'' = Undef \<or> text_with id_text (getp r ''projectId'')) \<and>
     (getp r ''workspacePath'' = Undef \<or> valid_workspace (getp r ''workspacePath'')) \<and>
     (getp r ''projectContext'' = Undef \<or> valid_context (getp r ''projectContext'')) \<and>
     valid_date date (getp r ''createdAt'') \<and> valid_date date (getp r ''updatedAt''))"

definition owner_kinds :: "owner_kind list" where
  "owner_kinds = [KConversation, KRun, KProject, KResource]"

fun table_name :: "owner_kind \<Rightarrow> string" where
  "table_name KConversation = ''conversations''"
| "table_name KRun = ''runs''"
| "table_name KProject = ''projects''"
| "table_name KResource = ''resources''"

fun row_name :: "owner_kind \<Rightarrow> string" where
  "row_name KConversation = ''sessionId''"
| "row_name KRun = ''runId''"
| "row_name KProject = ''projectId''"
| "row_name KResource = ''resourceId''"

fun valid_owner :: "(jstr \<Rightarrow> int option) \<Rightarrow> owner_kind \<Rightarrow> jsval \<Rightarrow> bool" where
  "valid_owner date KConversation = valid_conversation date"
| "valid_owner date KRun = valid_run date"
| "valid_owner date KProject = valid_project date"
| "valid_owner date KResource = valid_resource date"

definition table_rows :: "jsval \<Rightarrow> owner_kind \<Rightarrow> jsval list" where
  "table_rows v k = elements (getp v (table_name k))"

definition owner_file :: "(jstr \<Rightarrow> int option) \<Rightarrow> jsval \<Rightarrow> bool" where
  "owner_file date v =
     (getp v ''version'' = Num (Fin 1) \<and> is_array (getp v ''conversations'') \<and>
      list_all (\<lambda>k. getp v (table_name k) = Undef \<or>
        is_array (getp v (table_name k)) \<and> list_all (valid_owner date k) (table_rows v k) \<and>
        all_different (map (\<lambda>r. getp r (row_name k)) (table_rows v k))) owner_kinds)"

section \<open>Merging the two files\<close>

text \<open>What the constructor refuses, and which of two rows it keeps: \<open>e\<close> is of the backup, \<open>r\<close> of the primary file.\<close>

fun row_conflict :: "(number \<Rightarrow> jstr) \<Rightarrow> owner_kind \<Rightarrow> jsval \<Rightarrow> jsval \<Rightarrow> bool" where
  "row_conflict shortest KConversation e r =
     (getp e ''botId'' \<noteq> getp r ''botId'' \<or> getp e ''projectId'' \<noteq> getp r ''projectId'' \<or>
      getp e ''workspacePath'' \<noteq> Undef \<and> getp r ''workspacePath'' \<noteq> Undef \<and>
        getp e ''workspacePath'' \<noteq> getp r ''workspacePath'' \<or>
      getp e ''projectContext'' \<noteq> Undef \<and> getp r ''projectContext'' \<noteq> Undef \<and>
        stringify shortest (getp e ''projectContext'') \<noteq> stringify shortest (getp r ''projectContext''))"
| "row_conflict shortest KRun e r =
     (getp e ''botId'' \<noteq> getp r ''botId'' \<or> getp e ''sessionId'' \<noteq> getp r ''sessionId'' \<or>
      getp e ''projectId'' \<noteq> getp r ''projectId'')"
| "row_conflict shortest KProject e r = (getp e ''botId'' \<noteq> getp r ''botId'')"
| "row_conflict shortest KResource e r =
     (getp e ''botId'' \<noteq> getp r ''botId'' \<or> getp e ''projectId'' \<noteq> getp r ''projectId'')"

fun row_choice :: "owner_kind \<Rightarrow> jsval \<Rightarrow> jsval \<Rightarrow> jsval" where
  "row_choice KConversation e r =
     (if getp e ''workspacePath'' \<noteq> Undef \<and> getp r ''workspacePath'' = Undef then e else r)"
| "row_choice KRun e r = r"
| "row_choice KProject e r = r"
| "row_choice KResource e r = r"

definition row_key :: "owner_kind \<Rightarrow> jsval \<Rightarrow> jstr" where
  "row_key k r = bare_text (getp r (row_name k))"

text \<open>The four loops of the constructor have one shape.\<close>

fun merge_rows ::
  "(jsval \<Rightarrow> jstr) \<Rightarrow> (jsval \<Rightarrow> jsval \<Rightarrow> bool) \<Rightarrow> (jsval \<Rightarrow> jsval \<Rightarrow> jsval) \<Rightarrow> jsval list \<Rightarrow> (jstr, jsval) jsmap \<Rightarrow>
   (jstr, jsval) jsmap option" where
  "merge_rows key conflict choice [] m = Some m"
| "merge_rows key conflict choice (r # rs) m = (case map_of m (key r) of
     None \<Rightarrow> merge_rows key conflict choice rs (AList.update (key r) r m)
   | Some e \<Rightarrow>
       if conflict e r then None
       else merge_rows key conflict choice rs (AList.update (key r) (choice e r) m))"

fun merge_tables ::
  "(number \<Rightarrow> jstr) \<Rightarrow> (owner_kind \<Rightarrow> jsval list) \<Rightarrow> owner_kind list \<Rightarrow> (owner_kind \<Rightarrow> (jstr, jsval) jsmap) \<Rightarrow>
   owner_error + (owner_kind \<Rightarrow> (jstr, jsval) jsmap)" where
  "merge_tables shortest rows [] m = Inr m"
| "merge_tables shortest rows (k # ks) m =
     (case merge_rows (row_key k) (row_conflict shortest k) (row_choice k) (rows k) [] of
        None \<Rightarrow> Inl (OwnersDisagree k)
      | Some t \<Rightarrow> merge_tables shortest rows ks (m(k := t)))"

section \<open>The ledger\<close>

record owners =
  owRows :: "owner_kind \<Rightarrow> (jstr, jsval) jsmap"
  owDisk :: copies

definition owner_value :: "(owner_kind \<Rightarrow> (jstr, jsval) jsmap) \<Rightarrow> jsval" where
  "owner_value m = Obj ((''version'', Num (Fin 1)) # map (\<lambda>k. (table_name k, Arr (map snd (m k)))) owner_kinds)"

text \<open>The backup is written first; \<open>fault\<close> is the statement that throws.\<close>

definition write_owner_copies :: "save_point option \<Rightarrow> copy \<Rightarrow> copies \<Rightarrow> copies" where
  "write_owner_copies fault c d = (case fault of
     Some AtDirectory \<Rightarrow> d
   | Some AtBackup \<Rightarrow> d
   | Some AtBackupMode \<Rightarrow> d\<lparr>cpBackup := c\<rparr>
   | Some AtPrimary \<Rightarrow> d\<lparr>cpBackup := c\<rparr>
   | Some AtPrimaryMode \<Rightarrow> \<lparr>cpPrimary = c, cpBackup = c\<rparr>
   | None \<Rightarrow> \<lparr>cpPrimary = c, cpBackup = c\<rparr>)"

definition save_owners ::
  "(number \<Rightarrow> jstr) \<Rightarrow> bool \<Rightarrow> save_point option \<Rightarrow> owners \<Rightarrow> (owner_error, unit, owners) outcome" where
  "save_owners shortest repair fault s =
     (let v = owner_value (owRows s) in
      if max_owner_bytes < pretty_bytes shortest v + 1
      then (if repair then (Inr (), s) else (Inl (OwnersUnsaved LedgerFull), s))
      else
        let t = s\<lparr>owDisk := write_owner_copies fault (file_of shortest v) (owDisk s)\<rparr> in
        case fault of None \<Rightarrow> (Inr (), t) | Some p \<Rightarrow> (Inl (OwnersUnsaved (WriteFailed p)), t))"

definition read_owners :: "(jstr \<Rightarrow> int option) \<Rightarrow> copy \<Rightarrow> jsval option" where
  "read_owners date c = copy_value (read_copy (owner_file date) max_owner_bytes c)"

definition rows_of :: "jsval option \<Rightarrow> owner_kind \<Rightarrow> jsval list" where
  "rows_of v k = (case v of None \<Rightarrow> [] | Some w \<Rightarrow> table_rows w k)"

definition open_owners ::
  "(number \<Rightarrow> jstr) \<Rightarrow> (jstr \<Rightarrow> int option) \<Rightarrow> save_point option \<Rightarrow> owners \<Rightarrow> (owner_error, unit, owners) outcome" where
  "open_owners shortest date fault s =
     (let p = read_owners date (cpPrimary (owDisk s)); b = read_owners date (cpBackup (owDisk s)) in
      if (cpPrimary (owDisk s) \<noteq> Missing \<or> cpBackup (owDisk s) \<noteq> Missing) \<and> p = None \<and> b = None
      then (Inl OwnersLost, s)
      else case merge_tables shortest (\<lambda>k. rows_of b k @ rows_of p k) owner_kinds (\<lambda>k. []) of
        Inl e \<Rightarrow> (Inl e, s)
      | Inr m \<Rightarrow>
          let t = s\<lparr>owRows := m\<rparr> in
          if (p = None) \<noteq> (b = None) then save_owners shortest True fault t else (Inr (), t))"

text \<open>\<open>set\<close>, \<open>save\<close>, and the map as it was when the save throws.\<close>

definition set_owner :: "owner_kind \<Rightarrow> jstr \<Rightarrow> jsval \<Rightarrow> owners \<Rightarrow> owners" where
  "set_owner k i r s = s\<lparr>owRows := (owRows s)(k := AList.update i r (owRows s k))\<rparr>"

definition restore_owner :: "owner_kind \<Rightarrow> jstr \<Rightarrow> jsval option \<Rightarrow> owners \<Rightarrow> owners" where
  "restore_owner k i old s = (case old of
     None \<Rightarrow> s\<lparr>owRows := (owRows s)(k := AList.delete i (owRows s k))\<rparr>
   | Some r \<Rightarrow> set_owner k i r s)"

definition commit_owner ::
  "(number \<Rightarrow> jstr) \<Rightarrow> save_point option \<Rightarrow> owner_kind \<Rightarrow> jstr \<Rightarrow> jsval \<Rightarrow> owners \<Rightarrow> (owner_error, jsval, owners) outcome" where
  "commit_owner shortest fault k i r s =
     (case save_owners shortest False fault (set_owner k i r s) of
        (Inr _, t) \<Rightarrow> (Inr r, t)
      | (Inl e, t) \<Rightarrow> (Inl e, restore_owner k i (map_of (owRows s k) i) t))"

section \<open>The operations\<close>

definition get_owner :: "owner_kind \<Rightarrow> jstr \<Rightarrow> owners \<Rightarrow> owner_error + jsval option" where
  "get_owner k i s = (if id_text i then Inr (map_of (owRows s k) i) else Inl InvalidOwnerId)"

text \<open>\<open>rank\<close> orders times as \<open>localeCompare\<close> does; the sort is stable.\<close>

definition list_conversations :: "(jsval \<Rightarrow> int) \<Rightarrow> jstr \<Rightarrow> owners \<Rightarrow> owner_error + jsval list" where
  "list_conversations rank b s =
     (if \<not> bot_text b then Inl InvalidOwnerInput
      else Inr (sort_key (\<lambda>r. - rank (getp r ''updatedAt''))
        (filter (\<lambda>r. getp r ''botId'' = Str b) (map snd (owRows s KConversation)))))"

definition row_text :: "jstr option \<Rightarrow> jsval" where
  "row_text x = (case x of None \<Rightarrow> Undef | Some s \<Rightarrow> Str s)"

definition row_field :: "string \<Rightarrow> jsval \<Rightarrow> (string \<times> jsval) list" where
  "row_field k v = (if v = Undef \<or> v = Str [] then [] else [(k, v)])"

definition conversation_row :: "jstr \<Rightarrow> jstr \<Rightarrow> jstr option \<Rightarrow> jstr option \<Rightarrow> jsval \<Rightarrow> jstr \<Rightarrow> jsval" where
  "conversation_row owner session project workspace ctx now =
     Obj ([(''sessionId'', Str session), (''botId'', Str owner)] @ row_field ''projectId'' (row_text project) @
       row_field ''workspacePath'' (row_text workspace) @ row_field ''projectContext'' ctx @
       [(''createdAt'', Str now), (''updatedAt'', Str now)])"

definition bind_conversation ::
  "(number \<Rightarrow> jstr) \<Rightarrow> save_point option \<Rightarrow> jstr \<Rightarrow> jstr \<Rightarrow> jstr \<Rightarrow> jstr option \<Rightarrow> jstr option \<Rightarrow> jsval \<Rightarrow> owners \<Rightarrow>
   (owner_error, jsval, owners) outcome" where
  "bind_conversation shortest fault now owner session project workspace ctx s =
     (if \<not> bot_text owner \<or> \<not> id_text session \<or> (project \<noteq> None \<and> \<not> id_text (the project)) \<or>
        (workspace \<noteq> None \<and> \<not> valid_workspace (Str (the workspace))) \<or> (ctx \<noteq> Undef \<and> \<not> valid_context ctx)
      then (Inl InvalidOwnerInput, s)
      else case map_of (owRows s KConversation) session of
        Some e \<Rightarrow>
          if getp e ''botId'' \<noteq> Str owner \<or> getp e ''projectId'' \<noteq> row_text project \<or>
            (workspace \<noteq> None \<and> getp e ''workspacePath'' \<noteq> row_text workspace)
          then (Inl ForeignOwner, s) else (Inr e, s)
      | None \<Rightarrow> commit_owner shortest fault KConversation session (conversation_row owner session project workspace ctx now) s)"

definition owned_conversation :: "jstr \<Rightarrow> jstr \<Rightarrow> owners \<Rightarrow> owner_error + jsval" where
  "owned_conversation owner session s = (case get_owner KConversation session s of
     Inl e \<Rightarrow> Inl e
   | Inr None \<Rightarrow> Inl ForeignOwner
   | Inr (Some r) \<Rightarrow> if getp r ''botId'' \<noteq> Str owner then Inl ForeignOwner else Inr r)"

definition bind_legacy_workspace ::
  "(number \<Rightarrow> jstr) \<Rightarrow> save_point option \<Rightarrow> jstr \<Rightarrow> jstr \<Rightarrow> jstr \<Rightarrow> owners \<Rightarrow> (owner_error, jsval, owners) outcome" where
  "bind_legacy_workspace shortest fault owner session workspace s = (case owned_conversation owner session s of
     Inl InvalidOwnerId \<Rightarrow> (Inl InvalidOwnerId, s)
   | Inl e \<Rightarrow> (Inl WorkspaceFixed, s)
   | Inr r \<Rightarrow>
       if getp r ''workspacePath'' \<noteq> Undef \<and> getp r ''workspacePath'' \<noteq> Str [] then (Inl WorkspaceFixed, s)
       else if \<not> valid_workspace (Str workspace) then (Inl InvalidOwnerInput, s)
       else commit_owner shortest fault KConversation session (setp r ''workspacePath'' (Str workspace)) s)"

definition touch_conversation ::
  "(number \<Rightarrow> jstr) \<Rightarrow> save_point option \<Rightarrow> jstr \<Rightarrow> jstr \<Rightarrow> jstr \<Rightarrow> owners \<Rightarrow> (owner_error, jsval, owners) outcome" where
  "touch_conversation shortest fault now owner session s = (case owned_conversation owner session s of
     Inl e \<Rightarrow> (Inl e, s)
   | Inr r \<Rightarrow> commit_owner shortest fault KConversation session (setp r ''updatedAt'' (Str now)) s)"

definition bind_run ::
  "(number \<Rightarrow> jstr) \<Rightarrow> save_point option \<Rightarrow> jstr \<Rightarrow> jstr \<Rightarrow> jstr \<Rightarrow> jstr \<Rightarrow> owners \<Rightarrow> (owner_error, jsval, owners) outcome" where
  "bind_run shortest fault now owner session run s =
     (if \<not> id_text run then (Inl InvalidOwnerId, s)
      else case owned_conversation owner session s of
        Inl e \<Rightarrow> (Inl e, s)
      | Inr c \<Rightarrow>
          (case map_of (owRows s KRun) run of
             Some e \<Rightarrow>
               if getp e ''botId'' \<noteq> Str owner \<or> getp e ''sessionId'' \<noteq> Str session \<or>
                 getp e ''projectId'' \<noteq> getp c ''projectId''
               then (Inl ForeignOwner, s) else (Inr e, s)
           | None \<Rightarrow> commit_owner shortest fault KRun run
               (Obj ([(''runId'', Str run), (''sessionId'', Str session), (''botId'', Str owner)] @
                 row_field ''projectId'' (getp c ''projectId'') @ [(''createdAt'', Str now)])) s))"

definition bind_project ::
  "(number \<Rightarrow> jstr) \<Rightarrow> save_point option \<Rightarrow> jstr \<Rightarrow> jstr \<Rightarrow> jstr \<Rightarrow> owners \<Rightarrow> (owner_error, jsval, owners) outcome" where
  "bind_project shortest fault now owner project s =
     (if \<not> bot_text owner \<or> \<not> id_text project then (Inl InvalidOwnerInput, s)
      else case map_of (owRows s KProject) project of
        Some e \<Rightarrow> if getp e ''botId'' \<noteq> Str owner then (Inl ForeignOwner, s) else (Inr e, s)
      | None \<Rightarrow> commit_owner shortest fault KProject project
          (Obj [(''botId'', Str owner), (''projectId'', Str project), (''createdAt'', Str now)]) s)"

definition bind_resource ::
  "(number \<Rightarrow> jstr) \<Rightarrow> save_point option \<Rightarrow> jstr \<Rightarrow> jstr \<Rightarrow> jstr \<Rightarrow> jstr \<Rightarrow> owners \<Rightarrow> (owner_error, jsval, owners) outcome" where
  "bind_resource shortest fault now owner project resource s =
     (if \<not> id_text resource then (Inl InvalidOwnerId, s)
      else case get_owner KProject project s of
        Inl e \<Rightarrow> (Inl e, s)
      | Inr None \<Rightarrow> (Inl ForeignOwner, s)
      | Inr (Some p) \<Rightarrow>
          if getp p ''botId'' \<noteq> Str owner then (Inl ForeignOwner, s)
          else case map_of (owRows s KResource) resource of
            Some e \<Rightarrow>
              if getp e ''botId'' \<noteq> Str owner \<or> getp e ''projectId'' \<noteq> Str project then (Inl ForeignOwner, s) else (Inr e, s)
          | None \<Rightarrow> commit_owner shortest fault KResource resource
              (Obj [(''botId'', Str owner), (''projectId'', Str project), (''resourceId'', Str resource), (''createdAt'', Str now)]) s)"

section \<open>The life of the ledger\<close>

text \<open>
  Calls, restarts and the loss of one file. \<open>olUp\<close> says whether a process runs: one whose constructor threw answers no call.
\<close>

record owner_life =
  olUp :: bool
  olOwners :: owners

datatype owner_event =
    BindConversation jstr jstr "jstr option" "jstr option" jsval jstr "save_point option"
  | BindLegacy jstr jstr jstr "save_point option"
  | Touch jstr jstr jstr "save_point option"
  | BindRun jstr jstr jstr jstr "save_point option"
  | BindProject jstr jstr jstr "save_point option"
  | BindResource jstr jstr jstr jstr "save_point option"
  | RestartOwners "save_point option"
  | LoseOwners bool copy

fun owner_call :: "(number \<Rightarrow> jstr) \<Rightarrow> owner_event \<Rightarrow> owners \<Rightarrow> (owner_error, jsval, owners) outcome" where
  "owner_call shortest (BindConversation owner session project workspace ctx now fault) s =
     bind_conversation shortest fault now owner session project workspace ctx s"
| "owner_call shortest (BindLegacy owner session workspace fault) s = bind_legacy_workspace shortest fault owner session workspace s"
| "owner_call shortest (Touch owner session now fault) s = touch_conversation shortest fault now owner session s"
| "owner_call shortest (BindRun owner session run now fault) s = bind_run shortest fault now owner session run s"
| "owner_call shortest (BindProject owner project now fault) s = bind_project shortest fault now owner project s"
| "owner_call shortest (BindResource owner project resource now fault) s =
     bind_resource shortest fault now owner project resource s"
| "owner_call shortest _ s = (Inr Undef, s)"

definition new_owners :: owner_life where
  "new_owners = \<lparr>olUp = True, olOwners = \<lparr>owRows = (\<lambda>k. []), owDisk = \<lparr>cpPrimary = Missing, cpBackup = Missing\<rparr>\<rparr>\<rparr>"

fun owner_step :: "(number \<Rightarrow> jstr) \<Rightarrow> (jstr \<Rightarrow> int option) \<Rightarrow> owner_life \<Rightarrow> owner_event \<Rightarrow> owner_life" where
  "owner_step shortest date s (RestartOwners fault) =
     (case open_owners shortest date fault (olOwners s) of
        (Inr _, t) \<Rightarrow> \<lparr>olUp = True, olOwners = t\<rparr>
      | (Inl _, t) \<Rightarrow> \<lparr>olUp = False, olOwners = t\<rparr>)"
| "owner_step shortest date s (LoseOwners primary c) =
     s\<lparr>olOwners := (olOwners s)\<lparr>owDisk := lose_copy primary c (owDisk (olOwners s))\<rparr>\<rparr>"
| "owner_step shortest date s e = (if olUp s then s\<lparr>olOwners := snd (owner_call shortest e (olOwners s))\<rparr> else s)"

end
