(* ===== verification/ConversationOwnersFacts.thy ===== *)
theory ConversationOwnersFacts
  imports ConversationOwners
begin

text \<open>
  What the owner ledger keeps: rows that pass the guard under their own identifier, the merge of two tables as an interface
  (\<open>row_table\<close>), and what a save leaves in the files.
\<close>

section \<open>Merging tables\<close>

text \<open>
  \<open>typed\<close> is what rows satisfy, \<open>facts\<close> what a merge must not lose; \<open>grows e r\<close> says that \<open>r\<close> is a later version of \<open>e\<close>.
\<close>

locale row_table =
  fixes key :: "jsval \<Rightarrow> jstr" and conflict :: "jsval \<Rightarrow> jsval \<Rightarrow> bool" and choice :: "jsval \<Rightarrow> jsval \<Rightarrow> jsval"
    and typed :: "jsval \<Rightarrow> bool" and facts :: "jsval \<Rightarrow> 'f set" and grows :: "jsval \<Rightarrow> jsval \<Rightarrow> bool"
  assumes choice_one: "choice e r = e \<or> choice e r = r"
    and choice_facts: "typed e \<Longrightarrow> typed r \<Longrightarrow> key e = key r \<Longrightarrow> \<not> conflict e r \<Longrightarrow> facts e \<union> facts r \<subseteq> facts (choice e r)"
    and grows_refl: "grows r r"
    and grows_agrees: "grows r e \<Longrightarrow> \<not> conflict e r"
begin

definition table_ok :: "(jstr, jsval) jsmap \<Rightarrow> bool" where
  "table_ok m \<longleftrightarrow> jm_wf m \<and> (\<forall>(i, r) \<in> set m. typed r \<and> key r = i)"

definition table_facts :: "jsval list \<Rightarrow> 'f set" where
  "table_facts rs = \<Union> (facts ` set rs)"

definition covers :: "jsval list \<Rightarrow> jsval list \<Rightarrow> bool" where
  "covers us rs \<longleftrightarrow> (\<forall>r \<in> set rs. \<exists>u \<in> set us. key u = key r \<and> grows r u)"

lemma table_ok_Nil: "table_ok []"
  by (simp add: table_ok_def)

lemma table_ok_row: "table_ok m \<Longrightarrow> map_of m i = Some r \<Longrightarrow> typed r \<and> key r = i"
  by (auto simp: table_ok_def dest: map_of_SomeD)

lemma table_ok_update: "table_ok m \<Longrightarrow> typed r \<Longrightarrow> key r = i \<Longrightarrow> table_ok (AList.update i r m)"
  using jm_set_update [of i r m] by (fastforce simp: table_ok_def)

lemma table_ok_keys: "table_ok m \<Longrightarrow> map key (map snd m) = map fst m"
  by (auto simp: table_ok_def)

lemma update_facts:
  assumes "table_ok m" "\<And>e. map_of m i = Some e \<Longrightarrow> facts e \<subseteq> facts r"
  shows "table_facts (map snd m) \<union> facts r \<subseteq> table_facts (map snd (AList.update i r m))"
proof -
  have w: "jm_wf m" using assms(1) by (simp add: table_ok_def)
  note su = jm_set_update_wf [OF w, of i r]
  have "facts e \<subseteq> table_facts (map snd (AList.update i r m))" if "(j, e) \<in> set m" for j e
  proof (cases "j = i")
    case True
    then have "facts e \<subseteq> facts r" using assms(2) jm_in_get [OF w that] by simp
    then show ?thesis using su by (auto simp: table_facts_def)
  next
    case False
    then have "(j, e) \<in> set (AList.update i r m)" using su that by auto
    then show ?thesis by (force simp: table_facts_def)
  qed
  moreover have "facts r \<subseteq> table_facts (map snd (AList.update i r m))" using su by (auto simp: table_facts_def)
  ultimately show ?thesis by (fastforce simp: table_facts_def)
qed

lemma merge_sound:
  assumes "merge_rows key conflict choice rs m = Some t" "table_ok m" "list_all typed rs"
  shows "table_ok t \<and> table_facts (map snd m) \<union> table_facts rs \<subseteq> table_facts (map snd t)"
  using assms
proof (induction rs arbitrary: m)
  case Nil
  then show ?case by (simp add: table_facts_def)
next
  case (Cons r rs)
  have f: "table_facts (r # rs) = facts r \<union> table_facts rs" by (simp add: table_facts_def)
  show ?case
  proof (cases "map_of m (key r)")
    case None
    then have g: "merge_rows key conflict choice rs (AList.update (key r) r m) = Some t" using Cons.prems(1) by simp
    have "table_ok (AList.update (key r) r m)" using Cons.prems by (intro table_ok_update) auto
    from Cons.IH [OF g this] Cons.prems(3) update_facts [OF Cons.prems(2), of "key r" r] None
    show ?thesis unfolding f by auto
  next
    case (Some e)
    have c: "\<not> conflict e r" and g: "merge_rows key conflict choice rs (AList.update (key r) (choice e r) m) = Some t"
      using Cons.prems(1) Some by (auto split: if_splits)
    have e: "typed e" "key e = key r" using table_ok_row [OF Cons.prems(2) Some] by auto
    have r: "typed r" using Cons.prems(3) by simp
    have ch: "facts e \<union> facts r \<subseteq> facts (choice e r)" by (rule choice_facts [OF e(1) r e(2) c])
    have "typed (choice e r)" "key (choice e r) = key r" using choice_one [of e r] e r by auto
    then have "table_ok (AList.update (key r) (choice e r) m)" using Cons.prems(2) by (intro table_ok_update) auto
    from Cons.IH [OF g this] Cons.prems(3) update_facts [OF Cons.prems(2), of "key r" "choice e r"] Some ch
    show ?thesis unfolding f by auto
  qed
qed

text \<open>The first list only adds: its keys are new. The second meets each of its keys once.\<close>

lemma merge_fresh:
  assumes "distinct (map key rs)" "\<forall>r \<in> set rs. map_of m (key r) = None"
  shows "merge_rows key conflict choice (rs @ us) m = merge_rows key conflict choice us (m @ map (\<lambda>r. (key r, r)) rs)"
  using assms
proof (induction rs arbitrary: m)
  case (Cons r rs)
  have "map_of (m @ [(key r, r)]) (key x) = None" if "x \<in> set rs" for x
  proof -
    have "key x \<noteq> key r" using Cons.prems(1) that by (auto simp: image_iff)
    then show ?thesis using Cons.prems(2) that by (simp add: map_add_def)
  qed
  with Cons show ?case by (simp add: jm_update_absent)
qed simp

lemma merge_agreeing:
  assumes "distinct (map key rs)" "\<And>e r. r \<in> set rs \<Longrightarrow> map_of m (key r) = Some e \<Longrightarrow> \<not> conflict e r"
  shows "merge_rows key conflict choice rs m \<noteq> None"
  using assms
proof (induction rs arbitrary: m)
  case (Cons r rs)
  have later: "merge_rows key conflict choice rs (AList.update (key r) y m) \<noteq> None" for y
  proof (rule Cons.IH)
    show "distinct (map key rs)" using Cons.prems(1) by simp
    fix e x assume x: "x \<in> set rs" "map_of (AList.update (key r) y m) (key x) = Some e"
    have "key x \<noteq> key r" using Cons.prems(1) x(1) by (auto simp: image_iff)
    with x Cons.prems(2) [of x e] show "\<not> conflict e x" by simp
  qed
  show ?case
  proof (cases "map_of m (key r)")
    case (Some e)
    then have "\<not> conflict e r" using Cons.prems(2) [of r e] by simp
    with later Some show ?thesis by simp
  qed (use later in simp)
qed simp

lemma merge_other:
  "merge_rows key conflict choice rs m = Some t \<Longrightarrow> i \<notin> key ` set rs \<Longrightarrow> map_of t i = map_of m i"
  by (induction rs arbitrary: m) (auto split: option.splits if_splits)

lemma merge_value:
  assumes "merge_rows key conflict choice rs m = Some t" "distinct (map key rs)" "r \<in> set rs"
  shows "map_of t (key r) = Some (case map_of m (key r) of Some e \<Rightarrow> choice e r | None \<Rightarrow> r)"
  using assms
proof (induction rs arbitrary: m)
  case (Cons x rs)
  define y where "y = (case map_of m (key x) of Some e \<Rightarrow> choice e x | None \<Rightarrow> x)"
  have g: "merge_rows key conflict choice rs (AList.update (key x) y m) = Some t"
    using Cons.prems(1) by (auto simp: y_def split: option.splits if_splits)
  show ?case
  proof (cases "r = x")
    case True
    have "key x \<notin> key ` set rs" using Cons.prems(2) by auto
    with merge_other [OF g, of "key x"] show ?thesis unfolding True by (simp add: y_def)
  next
    case False
    then have r: "r \<in> set rs" "distinct (map key rs)" "key r \<noteq> key x" using Cons.prems(2,3) by (auto simp: image_iff)
    with Cons.IH [OF g r(2,1)] show ?thesis by simp
  qed
qed simp

lemma covers_refl: "covers rs rs"
  by (auto simp: covers_def grows_refl)

lemma covers_row:
  assumes "covers us rs" "distinct (map key us)" "r \<in> set rs" "u \<in> set us" "key u = key r"
  shows "grows r u"
proof -
  obtain v where v: "v \<in> set us" "key v = key r" "grows r v" using assms(1,3) by (auto simp: covers_def)
  have "v = u" by (rule distinct_map_eq [OF assms(2), OF assms(4) v(1)]) (use v(2) assms(5) in simp)
  with v(3) show ?thesis by simp
qed

text \<open>When the first list covers the second one, they merge, and the result covers the second list.\<close>

lemma merge_covering:
  assumes us: "distinct (map key us)" and rs: "distinct (map key rs)" and c: "covers us rs \<or> us = []"
  obtains t where "merge_rows key conflict choice (us @ rs) [] = Some t" "covers (map snd t) rs"
proof -
  let ?m = "map (\<lambda>r. (key r, r)) us"
  have g: "map_of ?m i = Some e \<Longrightarrow> e \<in> set us \<and> key e = i" for i e by (auto dest: map_of_SomeD)
  have grow: "grows r e" if "r \<in> set rs" "map_of ?m (key r) = Some e" for r e
    using that g [OF that(2)] c covers_row [OF _ us that(1)] by auto
  have "merge_rows key conflict choice rs ?m \<noteq> None"
    by (rule merge_agreeing [OF rs]) (use grow grows_agrees in blast)
  then obtain t where t: "merge_rows key conflict choice rs ?m = Some t" by blast
  have "\<exists>u \<in> set (map snd t). key u = key r \<and> grows r u" if r: "r \<in> set rs" for r
  proof (cases "map_of ?m (key r)")
    case None
    with merge_value [OF t rs r] have "map_of t (key r) = Some r" by simp
    then show ?thesis by (force dest: map_of_SomeD intro: grows_refl)
  next
    case (Some e)
    with merge_value [OF t rs r] have "map_of t (key r) = Some (choice e r)" by simp
    then have "choice e r \<in> set (map snd t)" by (force dest: map_of_SomeD)
    moreover have "grows r (choice e r) \<and> key (choice e r) = key r"
      using choice_one [of e r] grow [OF r Some] g [OF Some] grows_refl by auto
    ultimately show ?thesis by blast
  qed
  then have "covers (map snd t) rs" by (simp only: covers_def) blast
  moreover have "merge_rows key conflict choice (us @ rs) [] = Some t" using merge_fresh [OF us, of "[]" rs] t by simp
  ultimately show thesis by (rule that [rotated])
qed

end

section \<open>The four tables\<close>

definition owner_typed :: "(jstr \<Rightarrow> int option) \<Rightarrow> owner_kind \<Rightarrow> jsval \<Rightarrow> bool" where
  "owner_typed date k r \<longleftrightarrow> object_wf r \<and> json_clean r = r \<and> valid_owner date k r"

datatype owner_fact = OwnedBy owner_kind jstr jsval jsval jsval | RootedAt jstr jsval

fun row_owner :: "owner_kind \<Rightarrow> jsval \<Rightarrow> owner_fact" where
  "row_owner KConversation r = OwnedBy KConversation (row_key KConversation r) (getp r ''botId'') (getp r ''projectId'') Undef"
| "row_owner KRun r = OwnedBy KRun (row_key KRun r) (getp r ''botId'') (getp r ''projectId'') (getp r ''sessionId'')"
| "row_owner KProject r = OwnedBy KProject (row_key KProject r) (getp r ''botId'') Undef Undef"
| "row_owner KResource r = OwnedBy KResource (row_key KResource r) (getp r ''botId'') (getp r ''projectId'') Undef"

definition owner_facts :: "owner_kind \<Rightarrow> jsval \<Rightarrow> owner_fact set" where
  "owner_facts k r = insert (row_owner k r)
     (if k = KConversation \<and> getp r ''workspacePath'' \<noteq> Undef
      then {RootedAt (row_key k r) (getp r ''workspacePath'')} else {})"

definition row_grows :: "owner_kind \<Rightarrow> jsval \<Rightarrow> jsval \<Rightarrow> bool" where
  "row_grows k e r \<longleftrightarrow> row_owner k e = row_owner k r \<and>
     (k = KConversation \<longrightarrow> getp e ''workspacePath'' \<in> {Undef, getp r ''workspacePath''} \<and>
       getp e ''projectContext'' = getp r ''projectContext'')"

lemma row_grows_trans: "row_grows k e r \<Longrightarrow> row_grows k r x \<Longrightarrow> row_grows k e x"
  by (auto simp: row_grows_def)

lemma grows_facts: "row_grows k e r \<Longrightarrow> owner_facts k e \<subseteq> owner_facts k r"
  by (cases k) (auto simp: row_grows_def owner_facts_def)

interpretation owned_rows: row_table "row_key k" "row_conflict shortest k" "row_choice k" "owner_typed date k"
    "owner_facts k" "row_grows k"
  for k shortest date
proof
  show "row_choice k e r = e \<or> row_choice k e r = r" for e r by (cases k) auto
next
  fix e r assume "row_key k e = row_key k r" "\<not> row_conflict shortest k e r"
  then show "owner_facts k e \<union> owner_facts k r \<subseteq> owner_facts k (row_choice k e r)"
    by (cases k) (auto simp: owner_facts_def)
next
  show "row_grows k r r" for r by (simp add: row_grows_def)
next
  fix r e assume "row_grows k r e"
  then show "\<not> row_conflict shortest k e r" by (cases k) (auto simp: row_grows_def)
qed

lemma owner_row_key: "owner_typed date k r \<Longrightarrow> getp r (row_name k) = Str (row_key k r)"
  by (cases k) (auto simp: owner_typed_def row_key_def valid_conversation_def valid_run_def valid_project_def
      valid_resource_def text_with_Str)

end
