(* ===== verification/ConversationOwnersSafety.thy ===== *)
theory ConversationOwnersSafety
  imports ConversationOwnersFacts
begin

text \<open>
  The owner ledger over whole lives: an owner that was acknowledged stays the owner across failed writes, restarts and the loss of
  one file; a start is refused only after a save whose last statement, the change of mode of the primary file, failed.
\<close>

section \<open>Files\<close>

definition all_owner_facts :: "(owner_kind \<Rightarrow> (jstr, jsval) jsmap) \<Rightarrow> owner_fact set" where
  "all_owner_facts m = (\<Union>k. owned_rows.table_facts k (map snd (m k)))"

definition file_owner_facts :: "jsval \<Rightarrow> owner_fact set" where
  "file_owner_facts v = (\<Union>k. owned_rows.table_facts k (table_rows v k))"

definition owners_held :: "(jstr \<Rightarrow> int option) \<Rightarrow> owner_fact set \<Rightarrow> copy \<Rightarrow> bool" where
  "owners_held date A c = (case c of
     Copy n v \<Rightarrow> n \<le> max_owner_bytes \<and> owner_file date v \<and> (\<forall>k. list_all (owner_typed date k) (table_rows v k)) \<and>
       A \<subseteq> file_owner_facts v
   | _ \<Rightarrow> True)"

definition owners_present :: "copy \<Rightarrow> bool" where
  "owners_present c = (case c of Copy n v \<Rightarrow> True | _ \<Rightarrow> False)"

definition owner_files :: "(jstr \<Rightarrow> int option) \<Rightarrow> owner_fact set \<Rightarrow> copies \<Rightarrow> bool" where
  "owner_files date A d \<longleftrightarrow> owners_held date A (cpPrimary d) \<and> owners_held date A (cpBackup d) \<and>
     (owners_present (cpPrimary d) \<or> owners_present (cpBackup d) \<or> A = {} \<and> cpPrimary d = Missing \<and> cpBackup d = Missing)"

definition owner_tables :: "(jstr \<Rightarrow> int option) \<Rightarrow> (owner_kind \<Rightarrow> (jstr, jsval) jsmap) \<Rightarrow> bool" where
  "owner_tables date m \<longleftrightarrow> (\<forall>k. owned_rows.table_ok k date (m k))"

definition owners_ok :: "(jstr \<Rightarrow> int option) \<Rightarrow> owner_fact set \<Rightarrow> owners \<Rightarrow> bool" where
  "owners_ok date A s \<longleftrightarrow> owner_tables date (owRows s) \<and> A \<subseteq> all_owner_facts (owRows s) \<and> owner_files date A (owDisk s)"

definition owner_life_ok :: "(jstr \<Rightarrow> int option) \<Rightarrow> owner_fact set \<Rightarrow> owner_life \<Rightarrow> bool" where
  "owner_life_ok date A s \<longleftrightarrow> owner_files date A (owDisk (olOwners s)) \<and> (olUp s \<longrightarrow> owners_ok date A (olOwners s))"

lemma owner_files_mono: "owner_files date A d \<Longrightarrow> B \<subseteq> A \<Longrightarrow> owner_files date B d"
  by (auto simp: owner_files_def owners_held_def split: copy.splits)

lemma owners_ok_mono: "owners_ok date A s \<Longrightarrow> B \<subseteq> A \<Longrightarrow> owners_ok date B s"
  using owner_files_mono by (auto simp: owners_ok_def)

lemma read_owners_Copy: "read_owners date c = Some v \<longleftrightarrow> (\<exists>n. c = Copy n v \<and> n \<le> max_owner_bytes \<and> owner_file date v)"
  by (auto simp: read_owners_def copy_value_def read_copy_def split: copy.splits)

lemma held_read:
  "owners_held date A c \<Longrightarrow> owners_present c \<Longrightarrow> \<exists>v. read_owners date c = Some v"
  by (auto simp: owners_held_def owners_present_def read_owners_Copy split: copy.splits)

lemma owner_value_rows: "table_rows (owner_value m) k = map snd (m k)"
  by (cases k) (simp_all add: table_rows_def owner_value_def owner_kinds_def)

lemma table_clean:
  assumes "owner_tables date m"
  shows "map json_clean (map snd (m k)) = map snd (m k)"
proof (rule map_idI)
  fix r assume "r \<in> set (map snd (m k))"
  then obtain i where "(i, r) \<in> set (m k)" by auto
  then have "owner_typed date k r" using assms by (auto simp: owner_tables_def owned_rows.table_ok_def)
  then show "json_clean r = r" by (simp add: owner_typed_def)
qed

lemma owner_value_clean: "owner_tables date m \<Longrightarrow> json_clean (owner_value m) = owner_value m"
  using table_clean [of date m] by (simp add: owner_value_def owner_kinds_def clean_items_map del: map_map)

lemma owner_value_file:
  assumes "owner_tables date m"
  shows "owner_file date (owner_value m)"
proof -
  have ok: "owned_rows.table_ok k date (m k)" for k using assms by (simp add: owner_tables_def)
  have ty: "list_all (owner_typed date k) (map snd (m k))" for k
    using ok [of k] by (fastforce simp: owned_rows.table_ok_def list_all_iff)
  have ids: "map (\<lambda>r. getp r (row_name k)) (map snd (m k)) = map Str (map fst (m k))" for k
    using ok [of k] owner_row_key by (auto simp: owned_rows.table_ok_def)
  have arr: "getp (owner_value m) (table_name k) = Arr (map snd (m k))" for k
    by (cases k) (simp_all add: owner_value_def owner_kinds_def)
  have "distinct (map fst (m k))" for k using ok [of k] by (simp add: owned_rows.table_ok_def jm_wf_def)
  then have "all_different (map (\<lambda>r. getp r (row_name k)) (map snd (m k)))" for k
    unfolding ids all_different_strings .
  moreover have "list_all (valid_owner date k) (map snd (m k))" for k
    using ty [of k] by (auto simp: list_all_iff owner_typed_def)
  moreover have "getp (owner_value m) ''version'' = Num (Fin 1)" by (simp add: owner_value_def)
  moreover have "is_array (getp (owner_value m) ''conversations'')" using arr [of KConversation] by (simp add: is_array_def)
  ultimately show ?thesis
    unfolding owner_file_def owner_value_rows arr by (simp add: list_all_iff is_array_def)
qed

lemma saved_copy:
  assumes "owner_tables date m" "pretty_bytes shortest (owner_value m) + 1 \<le> max_owner_bytes" "A \<subseteq> all_owner_facts m"
  shows "owners_held date A (file_of shortest (owner_value m))" "owners_present (file_of shortest (owner_value m))"
    "read_owners date (file_of shortest (owner_value m)) = Some (owner_value m)"
proof -
  have ty: "list_all (owner_typed date k) (map snd (m k))" for k
    using assms(1) by (fastforce simp: owner_tables_def owned_rows.table_ok_def list_all_iff)
  note c = owner_value_clean [OF assms(1)] owner_value_file [OF assms(1)]
  show "owners_held date A (file_of shortest (owner_value m))" "owners_present (file_of shortest (owner_value m))"
    "read_owners date (file_of shortest (owner_value m)) = Some (owner_value m)"
    using c ty assms(2,3)
    by (simp_all add: owners_held_def owners_present_def read_owners_Copy file_of_def file_owner_facts_def
        all_owner_facts_def owner_value_rows)
qed

lemma write_owner_cases:
  obtains "write_owner_copies fault c d = d" "fault \<noteq> None" "fault \<noteq> Some AtPrimaryMode"
  | "write_owner_copies fault c d = d\<lparr>cpBackup := c\<rparr>" "fault \<noteq> None" "fault \<noteq> Some AtPrimaryMode"
  | "write_owner_copies fault c d = \<lparr>cpPrimary = c, cpBackup = c\<rparr>" "fault = None \<or> fault = Some AtPrimaryMode"
  by (cases fault; cases "the fault") (auto simp: write_owner_copies_def)

lemma save_owners_ok:
  assumes t: "owner_tables date (owRows s)" and f: "owner_files date A (owDisk s)" and a: "A \<subseteq> all_owner_facts (owRows s)"
    and sv: "save_owners shortest repair fault s = (res, u)"
  shows "owRows u = owRows s" "owner_files date A (owDisk u)"
    "res = Inr () \<Longrightarrow> \<not> repair \<Longrightarrow> owner_files date (all_owner_facts (owRows s)) (owDisk u)"
proof -
  let ?c = "file_of shortest (owner_value (owRows s))"
  have "owRows u = owRows s \<and> owner_files date A (owDisk u) \<and>
      (res = Inr () \<longrightarrow> \<not> repair \<longrightarrow> owner_files date (all_owner_facts (owRows s)) (owDisk u))"
  proof (cases "max_owner_bytes < pretty_bytes shortest (owner_value (owRows s)) + 1")
    case True
    with sv f show ?thesis by (auto simp: save_owners_def Let_def split: if_splits)
  next
    case False
    then have b: "pretty_bytes shortest (owner_value (owRows s)) + 1 \<le> max_owner_bytes" by simp
    have u: "u = s\<lparr>owDisk := write_owner_copies fault ?c (owDisk s)\<rparr>" "res = Inr () \<longleftrightarrow> fault = None"
      using sv False by (auto simp: save_owners_def Let_def split: option.splits)
    have both: "owner_files date B \<lparr>cpPrimary = ?c, cpBackup = ?c\<rparr>" if "B \<subseteq> all_owner_facts (owRows s)" for B
      using saved_copy [OF t b that] by (simp add: owner_files_def)
    have "owner_files date A (write_owner_copies fault ?c (owDisk s))"
      using f both [OF a] saved_copy [OF t b a]
      by (cases rule: write_owner_cases [of fault ?c "owDisk s"]) (auto simp: owner_files_def)
    moreover have "owner_files date (all_owner_facts (owRows s)) (write_owner_copies None ?c (owDisk s))"
      using both [of "all_owner_facts (owRows s)"] by (simp add: write_owner_copies_def)
    ultimately show ?thesis using u by auto
  qed
  then show "owRows u = owRows s" "owner_files date A (owDisk u)"
    "res = Inr () \<Longrightarrow> \<not> repair \<Longrightarrow> owner_files date (all_owner_facts (owRows s)) (owDisk u)" by blast+
qed

section \<open>One row\<close>

lemma set_owner_ok:
  assumes t: "owner_tables date (owRows s)" and r: "owner_typed date k r" "row_key k r = i"
    and g: "\<And>e. map_of (owRows s k) i = Some e \<Longrightarrow> row_grows k e r"
  shows "owner_tables date (owRows (set_owner k i r s))"
    "all_owner_facts (owRows s) \<union> owner_facts k r \<subseteq> all_owner_facts (owRows (set_owner k i r s))"
proof -
  have k: "owned_rows.table_ok k date (owRows s k)" using t by (simp add: owner_tables_def)
  show "owner_tables date (owRows (set_owner k i r s))"
    using t owned_rows.table_ok_update [OF k r] by (simp add: owner_tables_def set_owner_def)
  have u: "owned_rows.table_facts k (map snd (owRows s k)) \<union> owner_facts k r \<subseteq>
      owned_rows.table_facts k (map snd (AList.update i r (owRows s k)))"
    by (rule owned_rows.update_facts [OF k]) (use g grows_facts in blast)
  show "all_owner_facts (owRows s) \<union> owner_facts k r \<subseteq> all_owner_facts (owRows (set_owner k i r s))"
  proof (rule Un_least)
    show "owner_facts k r \<subseteq> all_owner_facts (owRows (set_owner k i r s))"
      using u by (fastforce simp: all_owner_facts_def set_owner_def)
    have "owned_rows.table_facts j (map snd (owRows s j)) \<subseteq>
        owned_rows.table_facts j (map snd (owRows (set_owner k i r s) j))" for j
      using u by (cases "j = k") (simp_all add: set_owner_def)
    then show "all_owner_facts (owRows s) \<subseteq> all_owner_facts (owRows (set_owner k i r s))"
      unfolding all_owner_facts_def by (rule UN_mono [OF subset_refl])
  qed
qed

lemma restore_set: "restore_owner k i (map_of (owRows s k) i) ((set_owner k i r s)\<lparr>owDisk := d\<rparr>) = s\<lparr>owDisk := d\<rparr>"
proof (cases "map_of (owRows s k) i")
  case None
  then have "AList.delete i (AList.update i r (owRows s k)) = owRows s k"
    by (simp add: jm_update_absent jm_delete_filter) (auto simp: filter_id_conv map_of_eq_None_iff)
  with None show ?thesis by (simp add: restore_owner_def set_owner_def)
next
  case (Some e)
  have "AList.update i e (AList.update i r (owRows s k)) = owRows s k"
    using Some by (induction "owRows s k") (auto simp: update_triv)
  with Some show ?thesis by (simp add: restore_owner_def set_owner_def)
qed

lemma commit_owner_ok:
  assumes ok: "owners_ok date A s" and r: "owner_typed date k r" "row_key k r = i"
    and g: "\<And>e. map_of (owRows s k) i = Some e \<Longrightarrow> row_grows k e r"
    and c: "commit_owner shortest fault k i r s = (res, u)"
  shows "owners_ok date A u" "res = Inr x \<Longrightarrow> x = r \<and> owners_ok date (owner_facts k r) u"
proof -
  let ?t = "set_owner k i r s"
  have t: "owner_tables date (owRows s)" and f: "owner_files date A (owDisk s)" and a: "A \<subseteq> all_owner_facts (owRows s)"
    using ok by (simp_all add: owners_ok_def)
  note st = set_owner_ok [OF t r g]
  obtain sr v where sv: "save_owners shortest False fault ?t = (sr, v)" by fastforce
  have ft: "owner_files date A (owDisk ?t)" using f by (simp add: set_owner_def)
  have at: "A \<subseteq> all_owner_facts (owRows ?t)" using a st(2) by auto
  note so = save_owners_ok [OF st(1) ft at sv]
  have "owners_ok date A u \<and> (res = Inr x \<longrightarrow> x = r \<and> owners_ok date (owner_facts k r) u)"
  proof (cases sr)
    case (Inr y)
    with c sv have u: "u = v" "res = Inr r" by (auto simp: commit_owner_def)
    have "owner_facts k r \<subseteq> all_owner_facts (owRows ?t)" using st(2) by blast
    moreover from this have "owner_files date (owner_facts k r) (owDisk v)"
      using so(3) Inr owner_files_mono by auto
    ultimately show ?thesis using u so(1,2) st(1) at by (auto simp: owners_ok_def)
  next
    case (Inl e)
    with c sv have u: "u = restore_owner k i (map_of (owRows s k) i) v" "res = Inl e" by (auto simp: commit_owner_def)
    have "v = ?t\<lparr>owDisk := owDisk v\<rparr>" using so(1) by (cases v) (simp add: set_owner_def)
    then have "u = s\<lparr>owDisk := owDisk v\<rparr>" using restore_set [where k = k and i = i and s = s and r = r and d = "owDisk v"] u(1) by simp
    with u(2) so(2) t a show ?thesis by (simp add: owners_ok_def)
  qed
  then show "owners_ok date A u" "res = Inr x \<Longrightarrow> x = r \<and> owners_ok date (owner_facts k r) u" by blast+
qed

section \<open>Calls\<close>

text \<open>
  The host binds contexts without undefined properties, and an ISO time parses.
\<close>

fun owner_host :: "(jstr \<Rightarrow> int option) \<Rightarrow> owner_event \<Rightarrow> bool" where
  "owner_host date (BindConversation b i project workspace ctx now fault) =
     (date now \<noteq> None \<and> (ctx = Undef \<or> object_wf ctx \<and> json_clean ctx = ctx))"
| "owner_host date (Touch b i now fault) = (date now \<noteq> None)"
| "owner_host date (BindRun b i run now fault) = (date now \<noteq> None)"
| "owner_host date (BindProject b project now fault) = (date now \<noteq> None)"
| "owner_host date (BindResource b project i now fault) = (date now \<noteq> None)"
| "owner_host date e = True"

fun owner_fault :: "owner_event \<Rightarrow> save_point option" where
  "owner_fault (BindConversation b i project workspace ctx now fault) = fault"
| "owner_fault (BindLegacy b i workspace fault) = fault"
| "owner_fault (Touch b i now fault) = fault"
| "owner_fault (BindRun b i run now fault) = fault"
| "owner_fault (BindProject b project now fault) = fault"
| "owner_fault (BindResource b project i now fault) = fault"
| "owner_fault (RestartOwners fault) = fault"
| "owner_fault (LoseOwners primary c) = None"

lemma conversation_row_typed:
  assumes "bot_text b" "id_text i" "project = None \<or> id_text (the project)" "workspace = None \<or> valid_workspace (Str (the workspace))"
    and "ctx = Undef \<or> object_wf ctx \<and> json_clean ctx = ctx \<and> valid_context ctx" "date now \<noteq> None"
  shows "owner_typed date KConversation (conversation_row b i project workspace ctx now)"
    "row_key KConversation (conversation_row b i project workspace ctx now) = i"
    "row_owner KConversation (conversation_row b i project workspace ctx now) =
       OwnedBy KConversation i (Str b) (row_text project) Undef"
    "getp (conversation_row b i project workspace ctx now) ''workspacePath'' = row_text workspace"
proof -
  have p: "project \<noteq> Some []" using assms(3) by (auto simp: id_text_def)
  have w: "workspace \<noteq> Some []" using assms(4) by (auto simp: valid_workspace_def text_with_def)
  have c: "ctx \<noteq> Str []" using assms(5) by (auto simp: object_wf_def)
  have f: "row_field k (row_text x) = (case x of None \<Rightarrow> [] | Some s \<Rightarrow> [(k, Str s)])" if "x \<noteq> Some []" for k x
    using that by (auto simp: row_field_def row_text_def split: option.splits)
  let ?r = "conversation_row b i project workspace ctx now"
  have g: "getp ?r ''sessionId'' = Str i" "getp ?r ''botId'' = Str b" "getp ?r ''projectId'' = row_text project"
    "getp ?r ''workspacePath'' = row_text workspace" "getp ?r ''projectContext'' = ctx"
    "getp ?r ''createdAt'' = Str now" "getp ?r ''updatedAt'' = Str now" "is_record ?r"
    using c p w by (auto simp: conversation_row_def f [OF p] f [OF w] row_field_def row_text_def is_record_def split: option.splits)
  have "object_wf ?r" "json_clean ?r = ?r"
    using c p w assms(5) by (auto simp: conversation_row_def f [OF p] f [OF w] row_field_def row_text_def object_wf_def split: option.splits)
  with g assms show "owner_typed date KConversation ?r"
    by (auto simp: owner_typed_def valid_conversation_def text_with_def valid_date_def row_text_def split: option.splits)
  show "row_key KConversation ?r = i" "row_owner KConversation ?r = OwnedBy KConversation i (Str b) (row_text project) Undef"
    "getp ?r ''workspacePath'' = row_text workspace"
    using g by (simp_all add: row_key_def)
qed

lemma owned_conversation_row:
  "owned_conversation b i s = Inr r \<Longrightarrow> map_of (owRows s KConversation) i = Some r \<and> getp r ''botId'' = Str b \<and> id_text i"
  by (auto simp: owned_conversation_def get_owner_def split: sum.splits option.splits if_splits)

text \<open>A call leaves everything as it was, or commits one row that grows the old one.\<close>

definition commits_row ::
  "(number \<Rightarrow> jstr) \<Rightarrow> (jstr \<Rightarrow> int option) \<Rightarrow> save_point option \<Rightarrow> owners \<Rightarrow> owner_error + jsval \<Rightarrow> owners \<Rightarrow> bool" where
  "commits_row shortest date fault s res t \<longleftrightarrow>
     (\<exists>k i r. commit_owner shortest fault k i r s = (res, t) \<and> owner_typed date k r \<and> row_key k r = i \<and>
        (\<forall>e. map_of (owRows s k) i = Some e \<longrightarrow> row_grows k e r))"

lemma commits_rowI:
  "commit_owner shortest fault k i r s = (res, t) \<Longrightarrow> owner_typed date k r \<Longrightarrow> row_key k r = i \<Longrightarrow>
   (\<And>e. map_of (owRows s k) i = Some e \<Longrightarrow> row_grows k e r) \<Longrightarrow> commits_row shortest date fault s res t"
  unfolding commits_row_def by blast

lemma overwritten_typed:
  assumes "owner_typed date KConversation r" "k \<in> {''workspacePath'', ''updatedAt''}"
    and "k = ''workspacePath'' \<Longrightarrow> valid_workspace (Str x)" "k = ''updatedAt'' \<Longrightarrow> date x \<noteq> None"
  shows "owner_typed date KConversation (setp r k (Str x))" "row_key KConversation (setp r k (Str x)) = row_key KConversation r"
proof -
  have r: "is_record r" "object_wf r" "json_clean r = r" "valid_conversation date r"
    using assms(1) by (auto simp: owner_typed_def object_wf_record)
  have "valid_conversation date (setp r k (Str x))"
    using assms(2-4) r(1,4) by (auto simp: valid_conversation_def valid_date_def text_with_def)
  then show "owner_typed date KConversation (setp r k (Str x))" using r by (simp add: owner_typed_def clean_setp)
  show "row_key KConversation (setp r k (Str x)) = row_key KConversation r" using assms(2) r(1) by (auto simp: row_key_def)
qed

lemma touch_commits:
  assumes t: "owner_tables date (owRows s)" and n: "date now \<noteq> None"
    and c: "touch_conversation shortest fault now b i s = (res, u)"
  shows "u = s \<or> commits_row shortest date fault s res u"
proof (cases "owned_conversation b i s")
  case (Inr r)
  note m = owned_conversation_row [OF Inr]
  then have r: "owner_typed date KConversation r" "row_key KConversation r = i"
    using t owned_rows.table_ok_row [of KConversation date "owRows s KConversation" i r] by (auto simp: owner_tables_def)
  note o = overwritten_typed [OF r(1), of "''updatedAt''" now]
  have "row_grows KConversation r (setp r ''updatedAt'' (Str now))"
    using r(1) by (auto simp: row_grows_def row_key_def owner_typed_def object_wf_record)
  moreover have cm: "commit_owner shortest fault KConversation i (setp r ''updatedAt'' (Str now)) s = (res, u)"
    using c Inr by (simp add: touch_conversation_def)
  ultimately have "commits_row shortest date fault s res u"
    using n m r(2) o by (intro commits_rowI [OF cm]) auto
  then show ?thesis ..
qed (use c in \<open>auto simp: touch_conversation_def\<close>)

lemma legacy_commits:
  assumes t: "owner_tables date (owRows s)" and c: "bind_legacy_workspace shortest fault b i w s = (res, u)"
  shows "u = s \<or> commits_row shortest date fault s res u"
proof (cases "owned_conversation b i s")
  case (Inl e)
  then show ?thesis using c by (cases e) (auto simp: bind_legacy_workspace_def)
next
  case (Inr r)
  note m = owned_conversation_row [OF Inr]
  then have r: "owner_typed date KConversation r" "row_key KConversation r = i"
    using t owned_rows.table_ok_row [of KConversation date "owRows s KConversation" i r] by (auto simp: owner_tables_def)
  show ?thesis
  proof (cases "getp r ''workspacePath'' = Undef \<and> valid_workspace (Str w)")
    case True
    note o = overwritten_typed [OF r(1), of "''workspacePath''" w]
    have "row_grows KConversation r (setp r ''workspacePath'' (Str w))"
      using r(1) True by (auto simp: row_grows_def row_key_def owner_typed_def object_wf_record)
    moreover have cm: "commit_owner shortest fault KConversation i (setp r ''workspacePath'' (Str w)) s = (res, u)"
      using c Inr True by (simp add: bind_legacy_workspace_def)
    ultimately have "commits_row shortest date fault s res u"
      using m r(2) o True by (intro commits_rowI [OF cm]) auto
    then show ?thesis ..
  next
    case False
    have "getp r ''workspacePath'' \<noteq> Str []"
      using r(1) by (auto simp: owner_typed_def valid_conversation_def valid_workspace_def text_with_def)
    with False c Inr show ?thesis by (auto simp: bind_legacy_workspace_def split: if_splits)
  qed
qed

lemma bind_commits:
  assumes h: "date now \<noteq> None" "ctx = Undef \<or> object_wf ctx \<and> json_clean ctx = ctx"
    and c: "bind_conversation shortest fault now b i project workspace ctx s = (res, u)"
  shows "u = s \<or> commits_row shortest date fault s res u"
proof (cases "u = s")
  case False
  then have "bot_text b" "id_text i" "project = None \<or> id_text (the project)"
    "workspace = None \<or> valid_workspace (Str (the workspace))" "ctx = Undef \<or> valid_context ctx"
    "map_of (owRows s KConversation) i = None"
    "commit_owner shortest fault KConversation i (conversation_row b i project workspace ctx now) s = (res, u)"
    using c by (auto simp: bind_conversation_def split: if_splits option.splits)
  with conversation_row_typed [of b i project workspace ctx date now] h show ?thesis
    unfolding commits_row_def by (metis option.distinct(1))
qed simp

lemma run_commits:
  assumes t: "owner_tables date (owRows s)" and n: "date now \<noteq> None" and c: "bind_run shortest fault now b i run s = (res, u)"
  shows "u = s \<or> commits_row shortest date fault s res u"
proof (cases "u = s")
  case False
  then obtain x where x: "id_text run" "owned_conversation b i s = Inr x" "map_of (owRows s KRun) run = None"
    and cm: "commit_owner shortest fault KRun run
      (Obj ([(''runId'', Str run), (''sessionId'', Str i), (''botId'', Str b)] @
        row_field ''projectId'' (getp x ''projectId'') @ [(''createdAt'', Str now)])) s = (res, u)"
    using c by (auto simp: bind_run_def split: if_splits option.splits sum.splits)
  let ?r = "Obj ([(''runId'', Str run), (''sessionId'', Str i), (''botId'', Str b)] @
        row_field ''projectId'' (getp x ''projectId'') @ [(''createdAt'', Str now)])"
  note m = owned_conversation_row [OF x(2)]
  then have "owner_typed date KConversation x"
    using t owned_rows.table_ok_row [of KConversation date "owRows s KConversation" i x] by (auto simp: owner_tables_def)
  then have v: "text_with bot_text (Str b)" "getp x ''projectId'' = Undef \<or> text_with id_text (getp x ''projectId'')"
    using m by (auto simp: owner_typed_def valid_conversation_def)
  have "owner_typed date KRun ?r \<and> row_key KRun ?r = run"
    using v x(1) m n by (auto simp: owner_typed_def valid_run_def row_field_def object_wf_def is_record_def valid_date_def
        text_with_Str text_with_def [of _ "Str _"] row_key_def)
  with cm x(3) show ?thesis unfolding commits_row_def by (metis option.distinct(1))
qed simp

lemma project_commits:
  assumes n: "date now \<noteq> None" and c: "bind_project shortest fault now b project s = (res, u)"
  shows "u = s \<or> commits_row shortest date fault s res u"
proof (cases "u = s")
  case False
  let ?r = "Obj [(''botId'', Str b), (''projectId'', Str project), (''createdAt'', Str now)]"
  have p: "bot_text b" "id_text project" "map_of (owRows s KProject) project = None"
    "commit_owner shortest fault KProject project ?r s = (res, u)"
    using c False by (auto simp: bind_project_def split: if_splits option.splits)
  then have "owner_typed date KProject ?r \<and> row_key KProject ?r = project"
    using n by (auto simp: owner_typed_def valid_project_def object_wf_def is_record_def valid_date_def text_with_def row_key_def)
  with p(3,4) show ?thesis unfolding commits_row_def by (metis option.distinct(1))
qed simp

lemma resource_commits:
  assumes t: "owner_tables date (owRows s)" and n: "date now \<noteq> None"
    and c: "bind_resource shortest fault now b project i s = (res, u)"
  shows "u = s \<or> commits_row shortest date fault s res u"
proof (cases "u = s")
  case False
  let ?r = "Obj [(''botId'', Str b), (''projectId'', Str project), (''resourceId'', Str i), (''createdAt'', Str now)]"
  obtain x where p: "id_text i" "id_text project" "map_of (owRows s KProject) project = Some x" "getp x ''botId'' = Str b"
    "map_of (owRows s KResource) i = None" "commit_owner shortest fault KResource i ?r s = (res, u)"
    using c False by (auto simp: bind_resource_def get_owner_def split: if_splits option.splits)
  have "owner_typed date KProject x"
    using t p(3) owned_rows.table_ok_row [of KProject date "owRows s KProject" project x] by (auto simp: owner_tables_def)
  then have "bot_text b" using p(4) by (simp add: owner_typed_def valid_project_def text_with_def)
  then have "owner_typed date KResource ?r \<and> row_key KResource ?r = i"
    using n p(1,2) by (auto simp: owner_typed_def valid_resource_def object_wf_def is_record_def valid_date_def text_with_def row_key_def)
  with p(5,6) show ?thesis unfolding commits_row_def by (metis option.distinct(1))
qed simp

lemma call_commits:
  assumes t: "owner_tables date (owRows s)" and h: "owner_host date e" and c: "owner_call shortest e s = (res, u)"
  shows "u = s \<or> commits_row shortest date (owner_fault e) s res u"
proof (cases e)
  case (BindConversation b i project workspace ctx now fault)
  then show ?thesis using bind_commits [of date now ctx shortest fault b i project workspace s res u] h c by simp
next
  case (BindLegacy b i w fault)
  then show ?thesis using legacy_commits [OF t, of shortest fault b i w res u] c by simp
next
  case (Touch b i now fault)
  then show ?thesis using touch_commits [OF t, of now shortest fault b i res u] h c by simp
next
  case (BindRun b i run now fault)
  then show ?thesis using run_commits [OF t, of now shortest fault b i run res u] h c by simp
next
  case (BindProject b project now fault)
  then show ?thesis using project_commits [of date now shortest fault b project s res u] h c by simp
next
  case (BindResource b project i now fault)
  then show ?thesis using resource_commits [OF t, of now shortest fault b project i res u] h c by simp
qed (use c in auto)

end
