(* ===== verification/ConversationOwnersLives.thy ===== *)
theory ConversationOwnersLives
  imports ConversationOwnersSafety
begin

text \<open>
  The owner ledger over whole lives: restarts that merge the two files, the permanence of owners, when a start succeeds, and the
  start that a failed change of mode can prevent.
\<close>

section \<open>Restarts\<close>

lemma merge_tables_some:
  assumes "merge_tables shortest rows ks m = Inr t" "k \<in> set ks" "distinct ks"
  shows "merge_rows (row_key k) (row_conflict shortest k) (row_choice k) (rows k) [] = Some (t k)"
proof -
  have keep: "merge_tables shortest rows js m = Inr t \<Longrightarrow> k \<notin> set js \<Longrightarrow> t k = m k" for js m
    by (induction js arbitrary: m) (auto split: option.splits)
  show ?thesis using assms
    by (induction ks arbitrary: m) (auto split: option.splits dest: keep)
qed

lemma merge_tables_total:
  assumes "\<And>k. k \<in> set ks \<Longrightarrow> merge_rows (row_key k) (row_conflict shortest k) (row_choice k) (rows k) [] \<noteq> None"
  shows "\<exists>t. merge_tables shortest rows ks m = Inr t"
  using assms
proof (induction ks arbitrary: m)
  case (Cons k ks)
  then obtain t where t: "merge_rows (row_key k) (row_conflict shortest k) (row_choice k) (rows k) [] = Some t" by force
  obtain u where "merge_tables shortest rows ks (m(k := t)) = Inr u" using Cons by auto
  with t show ?case by (simp del: fun_upd_apply)
qed simp

lemma owner_kinds_all: "k \<in> set owner_kinds" "distinct owner_kinds"
  by (cases k) (simp_all add: owner_kinds_def)

lemma open_owner_cases:
  assumes "open_owners shortest date fault s = (res, u)"
  obtains e where "res = Inl e" "u = s"
  | m where "merge_tables shortest (\<lambda>k. rows_of (read_owners date (cpBackup (owDisk s))) k @
        rows_of (read_owners date (cpPrimary (owDisk s))) k) owner_kinds (\<lambda>k. []) = Inr m"
    "(if (read_owners date (cpPrimary (owDisk s)) = None) \<noteq> (read_owners date (cpBackup (owDisk s)) = None)
      then save_owners shortest True fault (s\<lparr>owRows := m\<rparr>) else (Inr (), s\<lparr>owRows := m\<rparr>)) = (res, u)"
  using assms unfolding open_owners_def Let_def by (auto split: if_splits sum.splits)

lemma held_rows:
  assumes "owners_held date A c"
  shows "list_all (owner_typed date k) (rows_of (read_owners date c) k)"
    "read_owners date c \<noteq> None \<Longrightarrow> A \<subseteq> (\<Union>k. owned_rows.table_facts k (rows_of (read_owners date c) k))"
  using assms
  by (auto simp: owners_held_def rows_of_def read_owners_def copy_value_def read_copy_def file_owner_facts_def
      split: copy.splits if_splits)

lemma table_facts_append: "owned_rows.table_facts k (rs @ us) = owned_rows.table_facts k rs \<union> owned_rows.table_facts k us"
  by (simp add: owned_rows.table_facts_def)

lemma open_owners_ok:
  assumes f: "owner_files date A (owDisk s)" and o: "open_owners shortest date fault s = (res, u)"
  shows "owner_files date A (owDisk u)" "res = Inr () \<Longrightarrow> owners_ok date A u"
proof -
  let ?p = "read_owners date (cpPrimary (owDisk s))" and ?b = "read_owners date (cpBackup (owDisk s))"
  have h: "owners_held date A (cpPrimary (owDisk s))" "owners_held date A (cpBackup (owDisk s))"
    using f by (simp_all add: owner_files_def)
  have "owner_files date A (owDisk u) \<and> (res = Inr () \<longrightarrow> owners_ok date A u)"
  proof (cases rule: open_owner_cases [OF o])
    case (1 e)
    with f show ?thesis by simp
  next
    case (2 m)
    have mk: "owned_rows.table_ok k date (m k) \<and> owned_rows.table_facts k (rows_of ?b k @ rows_of ?p k) \<subseteq>
        owned_rows.table_facts k (map snd (m k))" for k
      using owned_rows.merge_sound [OF merge_tables_some [OF 2(1) owner_kinds_all] owned_rows.table_ok_Nil, of date]
        held_rows(1) [OF h(1), of k] held_rows(1) [OF h(2), of k]
      by simp
    then have t: "owner_tables date m" by (simp add: owner_tables_def)
    have a: "A \<subseteq> all_owner_facts m"
    proof (cases "A = {}")
      case False
      then have "?p \<noteq> None \<or> ?b \<noteq> None" using f held_read [OF h(1)] held_read [OF h(2)] by (auto simp: owner_files_def)
      then have "A \<subseteq> (\<Union>k. owned_rows.table_facts k (rows_of ?b k @ rows_of ?p k))"
        using held_rows(2) [OF h(1)] held_rows(2) [OF h(2)] unfolding table_facts_append by blast
      also have "\<dots> \<subseteq> all_owner_facts m" unfolding all_owner_facts_def using mk by (intro UN_mono) auto
      finally show ?thesis .
    qed simp
    show ?thesis
    proof (cases "(?p = None) \<noteq> (?b = None)")
      case True
      then have sv: "save_owners shortest True fault (s\<lparr>owRows := m\<rparr>) = (res, u)" using 2(2) by simp
      show ?thesis using save_owners_ok(1,2) [OF _ _ _ sv, of date A] t f a by (simp add: owners_ok_def)
    next
      case False
      then have u: "u = s\<lparr>owRows := m\<rparr>" using 2(2) by simp
      show ?thesis using t f a by (simp add: u owners_ok_def)
    qed
  qed
  then show "owner_files date A (owDisk u)" "res = Inr () \<Longrightarrow> owners_ok date A u" by blast+
qed

lemma lose_owner_files: "owner_files date A d \<Longrightarrow> owner_files date A (lose_copy primary c d)"
  by (cases c; cases "cpPrimary d"; cases "cpBackup d")
    (auto simp: owner_files_def lose_copy_def owners_held_def owners_present_def Let_def)

lemma owner_step_cases:
  obtains fault where "e = RestartOwners fault"
  | primary c where "e = LoseOwners primary c"
  | "owner_step shortest date s e = (if olUp s then s\<lparr>olOwners := snd (owner_call shortest e (olOwners s))\<rparr> else s)"
    "\<And>fault. e \<noteq> RestartOwners fault" "\<And>primary c. e \<noteq> LoseOwners primary c"
  by (cases e) auto

lemma owner_step_ok:
  assumes ok: "owner_life_ok date A s" and h: "owner_host date e"
  shows "owner_life_ok date A (owner_step shortest date s e)"
proof -
  have call: "owner_life_ok date A (if olUp s then s\<lparr>olOwners := snd (owner_call shortest e (olOwners s))\<rparr> else s)"
  proof (cases "olUp s")
    case True
    then have o: "owners_ok date A (olOwners s)" using ok by (simp add: owner_life_ok_def)
    obtain res u where c: "owner_call shortest e (olOwners s) = (res, u)" by fastforce
    have "owner_tables date (owRows (olOwners s))" using o by (simp add: owners_ok_def)
    from call_commits [OF this h c] have "owners_ok date A u"
      using o commit_owner_ok(1) [OF o] by (auto simp: commits_row_def)
    with c True show ?thesis by (simp add: owner_life_ok_def owners_ok_def)
  qed (use ok in simp)
  show ?thesis
  proof (cases rule: owner_step_cases [where e = e and shortest = shortest and date = date and s = s])
    case (1 fault)
    note RestartOwners = this
    obtain res u where o: "open_owners shortest date fault (olOwners s) = (res, u)" by fastforce
    have "owner_files date A (owDisk (olOwners s))" using ok by (simp add: owner_life_ok_def)
    from open_owners_ok [OF this o] o RestartOwners show ?thesis
      by (cases res) (simp_all add: owner_life_ok_def)
  next
    case (2 primary c)
    with ok lose_owner_files show ?thesis by (auto simp: owner_life_ok_def owners_ok_def)
  next
    case 3
    show ?thesis unfolding 3(1) by (rule call)
  qed
qed

lemma owner_run_ok:
  "owner_life_ok date A s \<Longrightarrow> list_all (owner_host date) es \<Longrightarrow> owner_life_ok date A (foldl (owner_step shortest date) s es)"
  by (rule foldl_invariant [where P = "owner_life_ok date A"]) (auto simp: list_all_iff owner_step_ok)

lemma new_owners_ok: "owner_life_ok date {} new_owners"
  by (simp add: owner_life_ok_def new_owners_def owners_ok_def owner_files_def owners_held_def owner_tables_def
      owned_rows.table_ok_Nil)

section \<open>When a start succeeds\<close>

text \<open>
  The rows of the primary file are older versions of the rows in memory and of those of the backup, unless the change of mode of
  the primary file failed after it was written.
\<close>

definition rows_cover :: "(jstr \<Rightarrow> int option) \<Rightarrow> (owner_kind \<Rightarrow> (jstr, jsval) jsmap) \<Rightarrow> copies \<Rightarrow> bool" where
  "rows_cover date m d \<longleftrightarrow> (\<forall>k. owned_rows.covers k (map snd (m k)) (rows_of (read_owners date (cpPrimary d)) k))"

definition backup_covers :: "(jstr \<Rightarrow> int option) \<Rightarrow> copies \<Rightarrow> bool" where
  "backup_covers date d \<longleftrightarrow> (read_owners date (cpBackup d) \<noteq> None \<longrightarrow>
     (\<forall>k. owned_rows.covers k (rows_of (read_owners date (cpBackup d)) k) (rows_of (read_owners date (cpPrimary d)) k)))"

definition owners_covered :: "(jstr \<Rightarrow> int option) \<Rightarrow> owner_life \<Rightarrow> bool" where
  "owners_covered date s \<longleftrightarrow> backup_covers date (owDisk (olOwners s)) \<and>
     (olUp s \<longrightarrow> rows_cover date (owRows (olOwners s)) (owDisk (olOwners s)))"

lemma covers_trans:
  "owned_rows.covers k us rs \<Longrightarrow> owned_rows.covers k ws us \<Longrightarrow> owned_rows.covers k ws rs"
  unfolding owned_rows.covers_def using row_grows_trans by metis

lemma covers_Nil: "owned_rows.covers k us []"
  by (simp add: owned_rows.covers_def)

lemma rows_of_None [simp]: "rows_of None k = []"
  by (simp add: rows_of_def)

lemma covers_update:
  assumes t: "owned_rows.table_ok k date m" and r: "row_key k r = i"
    and g: "\<And>e. map_of m i = Some e \<Longrightarrow> row_grows k e r"
  shows "owned_rows.covers k (map snd (AList.update i r m)) (map snd m)"
  unfolding owned_rows.covers_def
proof
  fix x assume "x \<in> set (map snd m)"
  then obtain j where x: "(j, x) \<in> set m" by auto
  have w: "jm_wf m" "row_key k x = j" using t x by (auto simp: owned_rows.table_ok_def)
  note su = jm_set_update_wf [OF w(1), of i r]
  show "\<exists>u \<in> set (map snd (AList.update i r m)). row_key k u = row_key k x \<and> row_grows k x u"
  proof (cases "j = i")
    case True
    then have "row_grows k x r" using g jm_in_get [OF w(1) x] by simp
    with su r w(2) True show ?thesis by force
  next
    case False
    with su x have "(j, x) \<in> set (AList.update i r m)" by auto
    then show ?thesis using owned_rows.grows_refl by force
  qed
qed

lemma table_rows_keys: "read_owners date c = Some v \<Longrightarrow> distinct (map (row_key k) (table_rows v k))"
proof -
  assume "read_owners date c = Some v"
  then have "owner_file date v" by (auto simp: read_owners_Copy)
  then have v: "getp v (table_name k) = Undef \<or> list_all (valid_owner date k) (table_rows v k) \<and>
      all_different (map (\<lambda>r. getp r (row_name k)) (table_rows v k))"
    using owner_kinds_all(1) [of k] by (auto simp: owner_file_def list_all_iff)
  show "distinct (map (row_key k) (table_rows v k))"
  proof (cases "getp v (table_name k) = Undef")
    case True
    then show ?thesis by (simp add: table_rows_def elements_def)
  next
    case False
    with v have va: "list_all (valid_owner date k) (table_rows v k)"
      and di: "all_different (map (\<lambda>r. getp r (row_name k)) (table_rows v k))" by auto
    have "getp r (row_name k) = Str (row_key k r)" if "r \<in> set (table_rows v k)" for r
      using va that by (cases k) (auto simp: list_all_iff row_key_def valid_conversation_def valid_run_def valid_project_def
          valid_resource_def text_with_Str)
    then have "map (\<lambda>r. getp r (row_name k)) (table_rows v k) = map Str (map (row_key k) (table_rows v k))" by simp
    with di show ?thesis by (simp only: all_different_strings)
  qed
qed

lemma rows_of_keys: "distinct (map (row_key k) (rows_of (read_owners date c) k))"
  using table_rows_keys by (cases "read_owners date c") (auto simp: rows_of_def)

lemma open_covered:
  assumes c: "owners_covered date s" and f: "owner_files date A (owDisk (olOwners s))"
  obtains m where "\<And>fault. open_owners shortest date fault (olOwners s) =
      (if (read_owners date (cpPrimary (owDisk (olOwners s))) = None) \<noteq> (read_owners date (cpBackup (owDisk (olOwners s))) = None)
       then save_owners shortest True fault ((olOwners s)\<lparr>owRows := m\<rparr>) else (Inr (), (olOwners s)\<lparr>owRows := m\<rparr>))"
    "\<And>k. owned_rows.covers k (map snd (m k)) (rows_of (read_owners date (cpPrimary (owDisk (olOwners s)))) k)"
    "\<And>k. owned_rows.table_ok k date (m k)"
proof -
  let ?p = "read_owners date (cpPrimary (owDisk (olOwners s)))" and ?b = "read_owners date (cpBackup (owDisk (olOwners s)))"
  have h: "owners_held date A (cpPrimary (owDisk (olOwners s)))" "owners_held date A (cpBackup (owDisk (olOwners s)))"
    using f by (simp_all add: owner_files_def)
  have cov: "owned_rows.covers k (rows_of ?b k) (rows_of ?p k) \<or> rows_of ?b k = []" for k
    using c by (cases ?b) (auto simp: owners_covered_def backup_covers_def)
  have mk: "\<exists>t. merge_rows (row_key k) (row_conflict shortest k) (row_choice k) (rows_of ?b k @ rows_of ?p k) [] = Some t \<and>
      owned_rows.covers k (map snd t) (rows_of ?p k)" for k
    using owned_rows.merge_covering [OF rows_of_keys rows_of_keys cov] by metis
  obtain m where m: "merge_tables shortest (\<lambda>k. rows_of ?b k @ rows_of ?p k) owner_kinds (\<lambda>k. []) = Inr m"
    using merge_tables_total [of owner_kinds shortest "\<lambda>k. rows_of ?b k @ rows_of ?p k" "\<lambda>k. []"] mk by force
  note ms = merge_tables_some [OF m owner_kinds_all]
  have k: "owned_rows.covers k (map snd (m k)) (rows_of ?p k)" for k using mk [of k] ms [of k] by auto
  have t: "owned_rows.table_ok k date (m k)" for k
    using owned_rows.merge_sound [OF ms owned_rows.table_ok_Nil, of date] held_rows(1) [OF h(1), of k] held_rows(1) [OF h(2), of k]
    by simp
  have c: "((cpPrimary (owDisk (olOwners s)) \<noteq> Missing \<or> cpBackup (owDisk (olOwners s)) \<noteq> Missing) \<and> ?p = None \<and> ?b = None) = False"
    using f held_read [OF h(1)] held_read [OF h(2)] by (auto simp: owner_files_def)
  have "open_owners shortest date fault (olOwners s) =
      (if (?p = None) \<noteq> (?b = None) then save_owners shortest True fault ((olOwners s)\<lparr>owRows := m\<rparr>)
       else (Inr (), (olOwners s)\<lparr>owRows := m\<rparr>))" for fault
    unfolding open_owners_def Let_def m c if_False sum.case ..
  then show thesis using that k t by blast
qed

lemma rows_of_saved:
  assumes "owner_tables date m" "pretty_bytes shortest (owner_value m) + 1 \<le> max_owner_bytes"
  shows "rows_of (read_owners date (file_of shortest (owner_value m))) k = map snd (m k)"
  using saved_copy(3) [OF assms subset_refl] by (simp add: rows_of_def owner_value_rows)

lemma save_owners_covered:
  assumes t: "owner_tables date (owRows s)" and c: "rows_cover date (owRows s) (owDisk s)" "backup_covers date (owDisk s)"
    and f: "fault \<noteq> Some AtPrimaryMode" and sv: "save_owners shortest repair fault s = (res, u)"
  shows "rows_cover date (owRows s) (owDisk u)" "backup_covers date (owDisk u)"
    "res \<noteq> Inr () \<Longrightarrow> cpPrimary (owDisk u) = cpPrimary (owDisk s)"
proof -
  let ?c = "file_of shortest (owner_value (owRows s))"
  have "rows_cover date (owRows s) (owDisk u) \<and> backup_covers date (owDisk u) \<and>
      (res \<noteq> Inr () \<longrightarrow> cpPrimary (owDisk u) = cpPrimary (owDisk s))"
  proof (cases "max_owner_bytes < pretty_bytes shortest (owner_value (owRows s)) + 1")
    case True
    with sv c show ?thesis by (auto simp: save_owners_def Let_def split: if_splits)
  next
    case False
    then have rs: "rows_of (read_owners date ?c) k = map snd (owRows s k)" for k
      by (intro rows_of_saved [OF t]) simp
    have u: "u = s\<lparr>owDisk := write_owner_copies fault ?c (owDisk s)\<rparr>" "res = Inr () \<longleftrightarrow> fault = None"
      using sv False by (auto simp: save_owners_def Let_def split: option.splits)
    show ?thesis
    proof (cases rule: write_owner_cases [of fault ?c "owDisk s"])
      case 1
      then show ?thesis using u c by simp
    next
      case 2
      then show ?thesis using u c(1) by (simp add: rows_cover_def backup_covers_def rs)
    next
      case 3
      then show ?thesis using u f by (auto simp: rows_cover_def backup_covers_def rs owned_rows.covers_refl)
    qed
  qed
  then show "rows_cover date (owRows s) (owDisk u)" "backup_covers date (owDisk u)"
    "res \<noteq> Inr () \<Longrightarrow> cpPrimary (owDisk u) = cpPrimary (owDisk s)" by blast+
qed

lemma commit_owner_covered:
  assumes ok: "owners_ok date A s" and c: "rows_cover date (owRows s) (owDisk s)" "backup_covers date (owDisk s)"
    and f: "fault \<noteq> Some AtPrimaryMode" and r: "commits_row shortest date fault s res u"
  shows "rows_cover date (owRows u) (owDisk u) \<and> backup_covers date (owDisk u)"
proof -
  obtain k i r where cm: "commit_owner shortest fault k i r s = (res, u)" and ty: "owner_typed date k r" "row_key k r = i"
    and g: "\<And>e. map_of (owRows s k) i = Some e \<Longrightarrow> row_grows k e r" using r by (auto simp: commits_row_def)
  let ?t = "set_owner k i r s"
  have t: "owner_tables date (owRows s)" using ok by (simp add: owners_ok_def)
  have "owned_rows.covers j (map snd (owRows ?t j)) (map snd (owRows s j))" for j
    using covers_update [of k date "owRows s k" r i] ty(2) g t owned_rows.covers_refl [of j]
    by (cases "j = k") (auto simp: set_owner_def owner_tables_def)
  moreover have "owDisk ?t = owDisk s" by (simp add: set_owner_def)
  ultimately have tc: "rows_cover date (owRows ?t) (owDisk ?t)"
    using c(1) covers_trans unfolding rows_cover_def by metis
  have bt: "backup_covers date (owDisk ?t)" using c(2) by (simp add: set_owner_def)
  obtain sr v where sv: "save_owners shortest False fault ?t = (sr, v)" by fastforce
  note tt = set_owner_ok(1) [OF t ty g]
  note so = save_owners_covered [OF tt tc bt f sv]
  have "owner_files date {} (owDisk ?t)" using ok owner_files_mono by (auto simp: owners_ok_def set_owner_def)
  then have v: "owRows v = owRows ?t" using save_owners_ok(1) [OF tt _ _ sv] by simp
  show ?thesis
  proof (cases sr)
    case (Inr y)
    with cm sv have "u = v" by (auto simp: commit_owner_def)
    with so(1,2) v show ?thesis by simp
  next
    case (Inl e)
    with cm sv have u: "u = restore_owner k i (map_of (owRows s k) i) v" by (auto simp: commit_owner_def)
    have "v = ?t\<lparr>owDisk := owDisk v\<rparr>" using v by (cases v) (simp add: set_owner_def)
    then have "u = s\<lparr>owDisk := owDisk v\<rparr>" using restore_set [where k = k and i = i and s = s and r = r and d = "owDisk v"] u by simp
    with so(2,3) Inl c(1) show ?thesis by (simp add: rows_cover_def set_owner_def)
  qed
qed

lemma read_owners_lost [simp]: "read_owners date Missing = None" "read_owners date Damaged = None"
  by (simp_all add: read_owners_def read_copy_def copy_value_def)

lemma lose_covered:
  assumes "backup_covers date d"
  shows "backup_covers date (lose_copy primary c d)" "rows_cover date m d \<Longrightarrow> rows_cover date m (lose_copy primary c d)"
proof -
  consider "lose_copy primary c d = d" | x where "x \<in> {Missing, Damaged}" "lose_copy primary c d = d\<lparr>cpPrimary := x\<rparr>"
    | x where "x \<in> {Missing, Damaged}" "lose_copy primary c d = d\<lparr>cpBackup := x\<rparr>"
    using lose_copy_result [of primary c d] by blast
  then have "backup_covers date (lose_copy primary c d) \<and> (rows_cover date m d \<longrightarrow> rows_cover date m (lose_copy primary c d))"
  proof cases
    case 1
    with assms show ?thesis by simp
  next
    case (2 x)
    then have "read_owners date x = None" by auto
    with 2(2) show ?thesis by (simp add: backup_covers_def rows_cover_def covers_Nil)
  next
    case (3 x)
    then have "read_owners date x = None" by auto
    with 3(2) show ?thesis by (simp add: backup_covers_def rows_cover_def)
  qed
  then show "backup_covers date (lose_copy primary c d)" "rows_cover date m d \<Longrightarrow> rows_cover date m (lose_copy primary c d)"
    by blast+
qed

lemma owner_step_covered:
  assumes ok: "owner_life_ok date {} s" and c: "owners_covered date s" and h: "owner_host date e"
    and f: "owner_fault e \<noteq> Some AtPrimaryMode"
  shows "owners_covered date (owner_step shortest date s e)"
proof (cases rule: owner_step_cases [where e = e and shortest = shortest and date = date and s = s])
  case (1 fault)
  have fl: "owner_files date {} (owDisk (olOwners s))" using ok by (simp add: owner_life_ok_def)
  let ?d = "owDisk (olOwners s)"
  obtain m where o: "\<And>fault. open_owners shortest date fault (olOwners s) =
      (if (read_owners date (cpPrimary ?d) = None) \<noteq> (read_owners date (cpBackup ?d) = None)
       then save_owners shortest True fault ((olOwners s)\<lparr>owRows := m\<rparr>) else (Inr (), (olOwners s)\<lparr>owRows := m\<rparr>))"
    and mc: "\<And>k. owned_rows.covers k (map snd (m k)) (rows_of (read_owners date (cpPrimary ?d)) k)"
    and mt: "\<And>k. owned_rows.table_ok k date (m k)"
    by (rule open_covered [OF c fl, of shortest thesis]) blast
  have rc: "rows_cover date m ?d" "backup_covers date ?d" "owner_tables date m"
    using mc mt c by (simp_all add: rows_cover_def owner_tables_def owners_covered_def)
  obtain res u where ru: "open_owners shortest date fault (olOwners s) = (res, u)" by fastforce
  have "rows_cover date (owRows u) (owDisk u) \<and> backup_covers date (owDisk u)"
  proof (cases "(read_owners date (cpPrimary ?d) = None) \<noteq> (read_owners date (cpBackup ?d) = None)")
    case True
    then have sv: "save_owners shortest True fault ((olOwners s)\<lparr>owRows := m\<rparr>) = (res, u)" using o ru by simp
    have "owRows u = m" using save_owners_ok(1) [OF _ _ _ sv, of date "{}"] rc fl by simp
    with save_owners_covered(1,2) [OF _ _ _ _ sv, of date] rc f 1 show ?thesis by simp
  next
    case False
    then have "u = (olOwners s)\<lparr>owRows := m\<rparr>" using o ru by simp
    with rc show ?thesis by simp
  qed
  with ru 1 show ?thesis by (cases res) (simp_all add: owners_covered_def)
next
  case (2 primary q)
  with c lose_covered [of date "owDisk (olOwners s)"] show ?thesis by (simp add: owners_covered_def)
next
  case 3
  show ?thesis
  proof (cases "olUp s")
    case True
    then have o: "owners_ok date {} (olOwners s)" using ok by (simp add: owner_life_ok_def)
    obtain res u where cl: "owner_call shortest e (olOwners s) = (res, u)" by fastforce
    have "owner_tables date (owRows (olOwners s))" using o by (simp add: owners_ok_def)
    from call_commits [OF this h cl] have "rows_cover date (owRows u) (owDisk u) \<and> backup_covers date (owDisk u)"
      using commit_owner_covered [OF o _ _ f] c True by (auto simp: owners_covered_def)
    with cl True show ?thesis unfolding 3(1) by (simp add: owners_covered_def)
  next
    case False
    with c show ?thesis unfolding 3(1) by simp
  qed
qed

definition quiet_event :: "(jstr \<Rightarrow> int option) \<Rightarrow> owner_event \<Rightarrow> bool" where
  "quiet_event date e \<longleftrightarrow> owner_host date e \<and> owner_fault e \<noteq> Some AtPrimaryMode"

lemma owner_run_covered:
  assumes "list_all (quiet_event date) es"
  shows "owner_life_ok date {} (foldl (owner_step shortest date) new_owners es) \<and>
    owners_covered date (foldl (owner_step shortest date) new_owners es)"
proof (rule foldl_invariant [where P = "\<lambda>s. owner_life_ok date {} s \<and> owners_covered date s"])
  have "read_owners date Missing = None" by (simp add: read_owners_def read_copy_def copy_value_def)
  then show "owner_life_ok date {} new_owners \<and> owners_covered date new_owners"
    using new_owners_ok [of date] by (simp add: owners_covered_def backup_covers_def rows_cover_def new_owners_def covers_Nil)
qed (use assms in \<open>auto simp: list_all_iff quiet_event_def owner_step_ok owner_step_covered\<close>)

end
