(* ===== verification/ConversationOwnersPromises.thy ===== *)
theory ConversationOwnersPromises
  imports ConversationOwnersLives
begin

text \<open>
  What the owner ledger promises: owners are permanent, a start succeeds unless the change of mode of the primary file failed
  before, and the start that such a failure prevents.
\<close>

section \<open>Rows that are kept\<close>

lemma table_in:
  assumes "owner_tables date m" "x \<in> set (map snd (m k))"
  shows "map_of (m k) (row_key k x) = Some x"
proof -
  have w: "jm_wf (m k)" "\<forall>(i, r) \<in> set (m k). row_key k r = i"
    using assms(1) by (auto simp: owner_tables_def owned_rows.table_ok_def)
  from assms(2) obtain i where "(i, x) \<in> set (m k)" by auto
  with w jm_in_get [OF w(1)] show ?thesis by fastforce
qed

lemma fact_row:
  assumes t: "owner_tables date m" and f: "row_owner k r \<in> all_owner_facts m"
  obtains y where "map_of (m k) (row_key k r) = Some y" "row_owner k y = row_owner k r"
proof -
  obtain j x where x: "x \<in> set (map snd (m j))" "row_owner k r \<in> owner_facts j x"
    using f by (auto simp: all_owner_facts_def owned_rows.table_facts_def)
  have "row_owner k r = row_owner j x" using x(2) by (cases k; cases j) (auto simp: owner_facts_def split: if_splits)
  then have j: "j = k" "row_key k x = row_key k r" "row_owner k x = row_owner k r" by (cases k; cases j; simp)+
  from table_in [OF t x(1)] j that show thesis by simp
qed

lemma fact_root:
  assumes t: "owner_tables date m" and f: "RootedAt i w \<in> all_owner_facts m" and y: "map_of (m KConversation) i = Some y"
  shows "getp y ''workspacePath'' = w"
proof -
  obtain j x where x: "x \<in> set (map snd (m j))" "RootedAt i w \<in> owner_facts j x"
    using f by (auto simp: all_owner_facts_def owned_rows.table_facts_def)
  have j: "j = KConversation \<and> row_key KConversation x = i \<and> getp x ''workspacePath'' = w"
    using x(2) by (cases j) (auto simp: owner_facts_def split: if_splits)
  with table_in [OF t x(1)] y show ?thesis by simp
qed

text \<open>A row that a call committed is in memory whenever the ledger is up later.\<close>

lemma committed_row_kept:
  assumes ok: "owner_life_ok date {} s" and up: "olUp s" and fs: "list_all (owner_host date) fs"
    and r: "owner_typed date k r" "\<And>x. map_of (owRows (olOwners s) k) (row_key k r) = Some x \<Longrightarrow> row_grows k x r"
    and c: "commit_owner shortest fault k (row_key k r) r (olOwners s) = (Inr x, u)"
    and t: "t = foldl (owner_step shortest date) (s\<lparr>olOwners := u\<rparr>) fs" "olUp t"
  shows "owners_ok date (owner_facts k r) (olOwners t)"
proof -
  have o: "owners_ok date {} (olOwners s)" using ok up by (simp add: owner_life_ok_def)
  have "owners_ok date (owner_facts k r) u" using commit_owner_ok(2) [OF o r(1) refl r(2) c refl] by simp
  then have "owner_life_ok date (owner_facts k r) (s\<lparr>olOwners := u\<rparr>)" by (simp add: owner_life_ok_def owners_ok_def)
  from owner_run_ok [OF this fs] t show ?thesis by (simp add: owner_life_ok_def)
qed

section \<open>The promises\<close>

text \<open>
  C16: a conversation that was bound for the first time keeps its bot, its project and its workspace: whatever is called, fails
  to be written, restarts or loses one file afterwards, a ledger that is up holds it with these, and every other bot is refused.
\<close>

theorem conversation_owner_fixed:
  assumes h: "list_all (owner_host date) (es @ BindConversation b i project workspace ctx now fault # fs)"
    and s: "s = foldl (owner_step shortest date) new_owners es" "olUp s"
    and n: "map_of (owRows (olOwners s) KConversation) i = None"
    and c: "fst (bind_conversation shortest fault now b i project workspace ctx (olOwners s)) = Inr r"
    and t: "t = foldl (owner_step shortest date) s (BindConversation b i project workspace ctx now fault # fs)" "olUp t"
  shows "(\<exists>y. get_owner KConversation i (olOwners t) = Inr (Some y) \<and> getp y ''botId'' = Str b \<and>
      getp y ''projectId'' = row_text project \<and> (workspace \<noteq> None \<longrightarrow> getp y ''workspacePath'' = row_text workspace)) \<and>
    (\<forall>a. a \<noteq> b \<longrightarrow> owned_conversation a i (olOwners t) = Inl ForeignOwner \<and>
      (\<exists>e. bind_conversation shortest fault' now' a i project' workspace' ctx' (olOwners t) = (Inl e, olOwners t)))"
proof -
  let ?e = "BindConversation b i project workspace ctx now fault" and ?r = "conversation_row b i project workspace ctx now"
  have he: "owner_host date ?e" and hf: "list_all (owner_host date) fs" and hs: "list_all (owner_host date) es" using h by auto
  have v: "bot_text b" "id_text i" "project = None \<or> id_text (the project)"
    "workspace = None \<or> valid_workspace (Str (the workspace))" "ctx = Undef \<or> object_wf ctx \<and> json_clean ctx = ctx \<and> valid_context ctx"
    using c he by (auto simp: bind_conversation_def split: if_splits)
  obtain u where bu: "bind_conversation shortest fault now b i project workspace ctx (olOwners s) = (Inr r, u)"
    using c by (metis prod.collapse)
  then have cm: "commit_owner shortest fault KConversation i ?r (olOwners s) = (Inr r, u)"
    using n by (auto simp: bind_conversation_def split: if_splits)
  note ty = conversation_row_typed [OF v, of date now]
  have d: "date now \<noteq> None" using he by simp
  have ok: "owner_life_ok date {} s" unfolding s(1) by (rule owner_run_ok [OF new_owners_ok hs])
  have "t = foldl (owner_step shortest date) (s\<lparr>olOwners := u\<rparr>) fs" using s(2) bu t(1) by simp
  moreover have "commit_owner shortest fault KConversation (row_key KConversation ?r) ?r (olOwners s) = (Inr r, u)"
    using cm ty(2) d by simp
  ultimately have o: "owners_ok date (owner_facts KConversation ?r) (olOwners t)"
    by (intro committed_row_kept [OF ok s(2) hf ty(1) _ _ _ t(2)]) (use d n ty(2) in auto)
  then have tt: "owner_tables date (owRows (olOwners t))" and a: "owner_facts KConversation ?r \<subseteq> all_owner_facts (owRows (olOwners t))"
    by (simp_all add: owners_ok_def)
  have "row_owner KConversation ?r \<in> all_owner_facts (owRows (olOwners t))" using a by (auto simp: owner_facts_def)
  from fact_row [OF tt this] obtain y where y: "map_of (owRows (olOwners t) KConversation) i = Some y"
    "row_owner KConversation y = row_owner KConversation ?r" using ty(2) d by auto
  have yo: "getp y ''botId'' = Str b" "getp y ''projectId'' = row_text project" using y(2) ty(3) d by simp_all
  have "getp y ''workspacePath'' = row_text workspace" if "workspace \<noteq> None"
  proof (rule fact_root [OF tt _ y(1)])
    show "RootedAt i (row_text workspace) \<in> all_owner_facts (owRows (olOwners t))"
      using a ty(2,4) d that by (auto simp: owner_facts_def row_text_def)
  qed
  then show ?thesis using y(1) yo v(2) by (auto simp: get_owner_def owned_conversation_def bind_conversation_def)
qed

text \<open>
  C17: after any calls, interruptions, restarts and losses of one file the next start of the ledger succeeds, unless a change of mode
  of the primary file failed after the file was written.
\<close>

theorem owners_start_succeeds:
  assumes "list_all (quiet_event date) es"
  shows "olUp (foldl (owner_step shortest date) new_owners (es @ [RestartOwners None]))"
proof -
  define s where "s = foldl (owner_step shortest date) new_owners es"
  have ok: "owners_covered date s" "owner_files date {} (owDisk (olOwners s))"
    using owner_run_covered [OF assms, of shortest] by (simp_all add: s_def owner_life_ok_def)
  have sv: "fst (save_owners shortest True None u) = Inr ()" for u by (simp add: save_owners_def Let_def)
  obtain m where "\<And>fault. open_owners shortest date fault (olOwners s) =
      (if (read_owners date (cpPrimary (owDisk (olOwners s))) = None) \<noteq> (read_owners date (cpBackup (owDisk (olOwners s))) = None)
       then save_owners shortest True fault ((olOwners s)\<lparr>owRows := m\<rparr>) else (Inr (), (olOwners s)\<lparr>owRows := m\<rparr>))"
    by (rule open_covered [OF ok, of shortest thesis]) blast
  then have "fst (open_owners shortest date None (olOwners s)) = Inr ()" using sv by simp
  then show ?thesis by (cases "open_owners shortest date None (olOwners s)") (simp add: s_def [symmetric])
qed

section \<open>A start that a failed change of mode prevents\<close>

text \<open>
  The first call writes both files and fails on the last statement; memory forgets the row. The second one, of another bot, is
  interrupted between the two files.
\<close>

definition two_binds :: "jstr \<Rightarrow> jstr \<Rightarrow> jstr \<Rightarrow> jstr \<Rightarrow> owner_event list" where
  "two_binds a b i now =
     [BindConversation a i None None Undef now (Some AtPrimaryMode), BindConversation b i None None Undef now (Some AtPrimary)]"

definition one_row :: "jstr \<Rightarrow> jstr \<Rightarrow> jstr \<Rightarrow> owner_kind \<Rightarrow> (jstr, jsval) jsmap" where
  "one_row b i now = (\<lambda>k. [])(KConversation := [(i, conversation_row b i None None Undef now)])"

lemma one_row_bytes:
  assumes "length b \<le> 64" "length i \<le> 128" "length now \<le> 64"
  shows "pretty_bytes shortest (owner_value (one_row b i now)) + 1 \<le> max_owner_bytes"
proof -
  have "json_weight shortest 0 (owner_value (one_row b i now)) \<le> 20000"
    using assms by (auto simp: owner_value_def owner_kinds_def one_row_def conversation_row_def row_field_def row_text_def
        number_text_small)
  with pretty_bytes_bound [of shortest "owner_value (one_row b i now)"] show ?thesis by (simp add: max_owner_bytes_def)
qed

lemma one_row_tables:
  assumes "bot_text b" "id_text i" "date now \<noteq> None"
  shows "owner_tables date (one_row b i now)"
  using conversation_row_typed(1,2) [of b i None None Undef date now] assms
  by (auto simp: owner_tables_def owned_rows.table_ok_def one_row_def jm_wf_def)

lemma id_text_length: "id_text i \<Longrightarrow> length i \<le> 128"
  by (simp add: id_text_def)

lemma bot_text_length: "bot_text b \<Longrightarrow> length b \<le> 64"
  by (auto simp: bot_text_def split: list.splits)

lemma bind_first:
  assumes "bot_text b" "id_text i" "length now \<le> 64" "owRows s = (\<lambda>k. [])" "fault \<noteq> None"
  shows "bind_conversation shortest fault now b i None None Undef s = (Inl (OwnersUnsaved (WriteFailed (the fault))),
    s\<lparr>owDisk := write_owner_copies fault (file_of shortest (owner_value (one_row b i now))) (owDisk s)\<rparr>)"
proof -
  have "owRows (set_owner KConversation i (conversation_row b i None None Undef now) s) = one_row b i now"
    using assms(4) by (simp add: set_owner_def one_row_def)
  moreover have "restore_owner KConversation i None ((set_owner KConversation i (conversation_row b i None None Undef now) s)
      \<lparr>owDisk := d\<rparr>) = s\<lparr>owDisk := d\<rparr>" for d
    using restore_set [where k = KConversation and i = i and s = s and d = d] assms(4) by simp
  ultimately show ?thesis
    using assms one_row_bytes [OF bot_text_length id_text_length, of b i now shortest]
    by (auto simp: bind_conversation_def commit_owner_def save_owners_def Let_def set_owner_def)
qed


section \<open>A sample life\<close>

abbreviation sample_bind :: "jstr \<Rightarrow> owner_event" where
  "sample_bind b \<equiv> BindConversation b [115] None None Undef [48] None"

lemma owner_sample_ids: "bot_text [97]" "bot_text [98]" "id_text [115]"
  by (simp_all add: bot_text_def lower_or_digit_def id_text_def alphanumeric_def)

lemma owner_sample_bound:
  "bind_conversation shortest None [48] [97] [115] None None Undef (olOwners new_owners) =
     (Inr (conversation_row [97] [115] None None Undef [48]),
      \<lparr>owRows = one_row [97] [115] [48], owDisk = \<lparr>cpPrimary = file_of shortest (owner_value (one_row [97] [115] [48])),
        cpBackup = file_of shortest (owner_value (one_row [97] [115] [48]))\<rparr>\<rparr>)"
proof -
  have "set_owner KConversation [115] (conversation_row [97] [115] None None Undef [48]) (olOwners new_owners) =
      (olOwners new_owners)\<lparr>owRows := one_row [97] [115] [48]\<rparr>"
    by (simp add: set_owner_def one_row_def new_owners_def)
  moreover have "map_of (owRows (olOwners new_owners) KConversation) [115] = None" by (simp add: new_owners_def)
  ultimately have "bind_conversation shortest None [48] [97] [115] None None Undef (olOwners new_owners) =
      (Inr (conversation_row [97] [115] None None Undef [48]), (olOwners new_owners)\<lparr>owRows := one_row [97] [115] [48],
        owDisk := write_owner_copies None (file_of shortest (owner_value (one_row [97] [115] [48]))) (owDisk (olOwners new_owners))\<rparr>)"
    using owner_sample_ids one_row_bytes [of "[97]" "[115]" "[48]" shortest]
    by (simp add: bind_conversation_def commit_owner_def save_owners_def Let_def)
  then show ?thesis by (simp add: write_owner_copies_def new_owners_def)
qed

lemma owner_sample_up:
  "olUp (foldl (owner_step shortest (\<lambda>_. Some 0)) new_owners [sample_bind [97], LoseOwners True Damaged, RestartOwners None])"
proof -
  define v where "v = owner_value (one_row [97] [115] [48])"
  let ?v = v and ?date = "\<lambda>_. Some 0 :: int option"
  have r: "read_owners ?date (file_of shortest ?v) = Some ?v" unfolding v_def
    by (rule saved_copy(3) [OF one_row_tables one_row_bytes subset_refl]) (use owner_sample_ids in auto)
  have p: "owners_present (file_of shortest ?v)" by (simp add: owners_present_def file_of_def)
  have rows: "rows_of (Some ?v) k = map snd (one_row [97] [115] [48] k)" for k
    unfolding v_def by (simp add: rows_of_def owner_value_rows)
  have sv: "fst (save_owners shortest True None u) = Inr ()" for u by (simp add: save_owners_def Let_def)
  have "\<exists>m. merge_tables shortest (\<lambda>k. rows_of (Some ?v) k @ rows_of None k) owner_kinds (\<lambda>k. []) = Inr m"
    by (simp add: owner_kinds_def rows one_row_def)
  then obtain m where m: "merge_tables shortest (\<lambda>k. rows_of (Some ?v) k) owner_kinds (\<lambda>k. []) = Inr m" by auto
  have l: "lose_copy True Damaged \<lparr>cpPrimary = file_of shortest ?v, cpBackup = file_of shortest ?v\<rparr> =
      \<lparr>cpPrimary = Damaged, cpBackup = file_of shortest ?v\<rparr>"
    by (simp add: lose_copy_def file_of_def)
  let ?s = "\<lparr>owRows = one_row [97] [115] [48], owDisk = \<lparr>cpPrimary = Damaged, cpBackup = file_of shortest ?v\<rparr>\<rparr>"
  have "fst (open_owners shortest ?date None ?s) = Inr ()"
    using sv by (simp add: open_owners_def Let_def r m)
  then obtain u where u: "open_owners shortest ?date None ?s = (Inr (), u)" by (metis prod.collapse)
  show ?thesis using owner_sample_bound [of shortest, folded v_def] u l by (simp add: new_owners_def)
qed

lemma conversation_owner_fixed_witness:
  "isl (fst (bind_conversation (\<lambda>_. []) None [48] [98] [115] None None Undef (olOwners
     (foldl (owner_step (\<lambda>_. []) (\<lambda>_. Some 0)) new_owners [sample_bind [97], LoseOwners True Damaged, RestartOwners None]))))"
proof -
  define t where "t = foldl (owner_step (\<lambda>_. []) (\<lambda>_. Some 0)) new_owners [sample_bind [97], LoseOwners True Damaged, RestartOwners None]"
  have h: "list_all (owner_host (\<lambda>_. Some 0)) ([] @ sample_bind [97] # [LoseOwners True Damaged, RestartOwners None])" by simp
  have n: "map_of (owRows (olOwners new_owners) KConversation) [115] = None" "olUp new_owners" by (simp_all add: new_owners_def)
  have b: "fst (bind_conversation (\<lambda>_. []) None [48] [97] [115] None None Undef (olOwners new_owners)) =
      Inr (conversation_row [97] [115] None None Undef [48])"
    by (simp add: owner_sample_bound)
  have "\<forall>a. a \<noteq> [97] \<longrightarrow> owned_conversation a [115] (olOwners t) = Inl ForeignOwner \<and>
      (\<exists>e. bind_conversation (\<lambda>_. []) None [48] a [115] None None Undef (olOwners t) = (Inl e, olOwners t))"
    using conversation_owner_fixed [OF h _ n(2,1) b t_def, where fault' = None and now' = "[48]" and project' = None and
        workspace' = None and ctx' = Undef] owner_sample_up [of "\<lambda>_. []"]
    unfolding t_def [symmetric] by auto
  from spec [OF this, of "[98]"] show ?thesis unfolding t_def [symmetric] by auto
qed

lemma owners_start_succeeds_witness:
  "olUp (foldl (owner_step (\<lambda>_. []) (\<lambda>_. Some 0)) new_owners
     ([sample_bind [97], LoseOwners False Missing, BindRun [97] [115] [114] [48] (Some AtPrimary)] @ [RestartOwners None]))"
  by (rule owners_start_succeeds) (simp add: quiet_event_def)


end
