(* ===== verification/KnowledgeLedger.thy ===== *)
theory KnowledgeLedger
  imports LedgerCopies
begin

text \<open>
  The provenance and the grants of shared knowledge, \<open>apps/desktop/src/main/bot-knowledge-ledger.ts\<close>. A file of the first
  version is rewritten at the start, after it was copied once to a third file (\<open>knRollback\<close>). \<open>date\<close> is \<open>Date.parse\<close>,
  \<open>now\<close> is \<open>new Date().toISOString()\<close>; \<open>structuredClone\<close> is the identity on values.
\<close>

section \<open>The guard of the file\<close>

definition max_knowledge_bytes :: nat where "max_knowledge_bytes = 4000000"
definition max_records :: nat where "max_records = 5000"
definition max_grants :: nat where "max_grants = 20000"

text \<open>\<open>/^[0-9a-f-]{36}$/iu\<close>; \<open>/^[A-Za-z0-9:_-]{1,128}$/u\<close> is \<open>id_text\<close>.\<close>

definition uuid36 :: "jstr \<Rightarrow> bool" where
  "uuid36 s = (length s = 36 \<and>
     list_all (\<lambda>u. 48 \<le> u \<and> u \<le> 57 \<or> 65 \<le> u \<and> u \<le> 70 \<or> 97 \<le> u \<and> u \<le> 102 \<or> u = 45) s)"

definition revocation :: "(jstr \<Rightarrow> int option) \<Rightarrow> jsval \<Rightarrow> bool" where
  "revocation date r = (getp r ''revokedAt'' = Undef \<or> valid_date date (getp r ''revokedAt''))"

definition scope_ok :: "bool \<Rightarrow> jsval \<Rightarrow> jsval \<Rightarrow> bool" where
  "scope_ok team scope project =
     ((getp scope ''kind'' = Str (js ''project'') \<or> team \<and> getp scope ''kind'' = Str (js ''team'')) \<and>
      string_id (getp scope ''id'') \<and>
      (getp scope ''kind'' = Str (js ''team'') \<longrightarrow> text_with uuid36 (getp scope ''id'')) \<and>
      (getp scope ''kind'' = Str (js ''project'') \<longrightarrow> project = getp scope ''id'') \<and>
      (project = Undef \<or> string_id project))"

definition knowledge_row :: "(jstr \<Rightarrow> int option) \<Rightarrow> bool \<Rightarrow> jsval \<Rightarrow> bool" where
  "knowledge_row date team r =
     (let source = getp r ''source'' in
      text_with uuid36 (getp r ''id'') \<and> text_with uuid36 (getp r ''documentId'') \<and> getp r ''version'' = Num (Fin 1) \<and>
      scope_ok team (getp r ''scope'') (getp source ''projectId'') \<and>
      string_id (getp source ''botId'') \<and> string_id (getp source ''agentId'') \<and> string_id (getp source ''sessionId'') \<and>
      string_id (getp source ''runId'') \<and> string_id (getp source ''messageId'') \<and> getp source ''links'' = Arr [] \<and>
      text_with (\<lambda>s. s \<noteq> [] \<and> length s \<le> 300) (getp r ''title'') \<and>
      getp r ''promotedBy'' = Str (js ''desktop-owner-consent'') \<and>
      valid_date date (getp r ''createdAt'') \<and> valid_date date (getp r ''updatedAt'') \<and> revocation date r)"

definition grant_row :: "(jstr \<Rightarrow> int option) \<Rightarrow> jsval \<Rightarrow> bool" where
  "grant_row date g = (text_with uuid36 (getp g ''knowledgeId'') \<and> string_id (getp g ''botId'') \<and>
     valid_date date (getp g ''grantedAt'') \<and> revocation date g)"

definition grant_key :: "jsval \<Rightarrow> jstr" where
  "grant_key g = bare_text (getp g ''knowledgeId'') @ [58] @ bare_text (getp g ''botId'')"

definition knowledge_file :: "(jstr \<Rightarrow> int option) \<Rightarrow> jsval \<Rightarrow> bool" where
  "knowledge_file date v =
     (let rs = elements (getp v ''records''); gs = elements (getp v ''grants'') in
      (getp v ''version'' = Num (Fin 1) \<or> getp v ''version'' = Num (Fin 2)) \<and> valid_revision v \<and>
      is_array (getp v ''records'') \<and> is_array (getp v ''grants'') \<and>
      length rs \<le> max_records \<and> length gs \<le> max_grants \<and>
      list_all (knowledge_row date (getp v ''version'' = Num (Fin 2))) rs \<and> list_all (grant_row date) gs \<and>
      all_different (map (\<lambda>r. getp r ''id'') rs) \<and> distinct (map grant_key gs) \<and>
      list_all (\<lambda>g. list_ex (\<lambda>r. getp r ''id'' = getp g ''knowledgeId'') rs) gs)"

definition empty_knowledge :: jsval where
  "empty_knowledge = Obj [(''version'', Num (Fin 2)), (''revision'', Num (Fin 0)), (''records'', Arr []), (''grants'', Arr [])]"

section \<open>The ledger\<close>

datatype knowledge_error =
    KnowledgeCopies copy_error | RollbackUnsaved | KnowledgeExists | DocumentAttached | KnowledgeUnavailable
  | KnowledgeAmbiguous | KnowledgeMissing | GrantMissing

record knowledge =
  knUp :: bool
  knLedger :: ledger
  knRollback :: copy

definition save_knowledge ::
  "(number \<Rightarrow> jstr) \<Rightarrow> save_point option \<Rightarrow> jsval \<Rightarrow> ledger \<Rightarrow> (copy_error, unit, ledger) outcome" where
  "save_knowledge shortest fault v s =
     (let w = with_revision v (revision (lgStored s) + 1) in
      if lgFailed s then (Inl NeedsRecovery, s)
      else if max_knowledge_bytes < pretty_bytes shortest w + 1 then (Inl LedgerFull, s)
      else commit_value shortest fault w s)"

text \<open>
  The third file is written before the migration, unless it exists; \<open>BeforeRollback\<close> is a failure of the directory or the write,
  \<open>AfterRollback\<close> one of the change of mode.
\<close>

datatype rollback_fault = BeforeRollback | AfterRollback

definition open_knowledge ::
  "(number \<Rightarrow> jstr) \<Rightarrow> (jstr \<Rightarrow> int option) \<Rightarrow> rollback_fault option \<Rightarrow> save_point option \<Rightarrow> knowledge \<Rightarrow>
   (knowledge_error, unit, knowledge) outcome" where
  "open_knowledge shortest date rollback fault s =
     (case open_copies shortest (knowledge_file date) max_knowledge_bytes empty_knowledge (lgDisk (knLedger s)) of
        Inl e \<Rightarrow> (Inl (KnowledgeCopies e), s\<lparr>knUp := False\<rparr>)
      | Inr v \<Rightarrow>
          let l = (knLedger s)\<lparr>lgStored := v, lgFailed := False\<rparr>; fresh = (knRollback s = Missing) in
          if getp v ''version'' \<noteq> Num (Fin 1) then (Inr (), s\<lparr>knUp := True, knLedger := l\<rparr>)
          else if fresh \<and> rollback = Some BeforeRollback then (Inl RollbackUnsaved, s\<lparr>knUp := False, knLedger := l\<rparr>)
          else
            let c = (if fresh then file_of shortest v else knRollback s) in
            if fresh \<and> rollback = Some AfterRollback
            then (Inl RollbackUnsaved, s\<lparr>knUp := False, knLedger := l, knRollback := c\<rparr>)
            else case save_knowledge shortest fault (setp v ''version'' (Num (Fin 2))) l of
              (Inl e, m) \<Rightarrow> (Inl (KnowledgeCopies e), s\<lparr>knUp := False, knLedger := m, knRollback := c\<rparr>)
            | (Inr _, m) \<Rightarrow> (Inr (), s\<lparr>knUp := True, knLedger := m, knRollback := c\<rparr>))"

definition knowledge_records :: "ledger \<Rightarrow> jsval list" where
  "knowledge_records s = elements (getp (lgStored s) ''records'')"

definition knowledge_grants :: "ledger \<Rightarrow> jsval list" where
  "knowledge_grants s = elements (getp (lgStored s) ''grants'')"

definition ambiguity :: jsval where
  "ambiguity = Obj [(''status'', Str (js ''ambiguous-document'')),
     (''message'', Str (js ''Promoted document identity is ambiguous. Revoke and re-promote the exact source message; the original provenance is preserved.''))]"

definition knowledge_get :: "jstr \<Rightarrow> ledger \<Rightarrow> knowledge_error + jsval option" where
  "knowledge_get i s =
     (if lgFailed s then Inl (KnowledgeCopies NeedsRecovery)
      else Inr (case find (\<lambda>r. strict_equal (getp r ''id'') (Str i)) (knowledge_records s) of
        None \<Rightarrow> None
      | Some r \<Rightarrow> Some (if 1 < length (filter (\<lambda>x. strict_equal (getp x ''documentId'') (getp r ''documentId'')) (knowledge_records s))
          then setp r ''integrity'' ambiguity else r)))"

fun list_each :: "ledger \<Rightarrow> jsval list \<Rightarrow> knowledge_error + jsval option list" where
  "list_each s [] = Inr []"
| "list_each s (r # rs) = (case knowledge_get (bare_text (getp r ''id'')) s of
     Inl e \<Rightarrow> Inl e
   | Inr x \<Rightarrow> (case list_each s rs of Inl e \<Rightarrow> Inl e | Inr xs \<Rightarrow> Inr (x # xs)))"

definition knowledge_list :: "ledger \<Rightarrow> knowledge_error + jsval option list" where
  "knowledge_list s = list_each s (knowledge_records s)"

definition commit_knowledge ::
  "(number \<Rightarrow> jstr) \<Rightarrow> save_point option \<Rightarrow> string \<Rightarrow> jsval list \<Rightarrow> ledger \<Rightarrow> (knowledge_error, unit, ledger) outcome" where
  "commit_knowledge shortest fault k rows s =
     (case save_knowledge shortest fault (setp (lgStored s) k (Arr rows)) s of
        (Inl e, t) \<Rightarrow> (Inl (KnowledgeCopies e), t)
      | (Inr _, t) \<Rightarrow> (Inr (), t))"

definition promote ::
  "(number \<Rightarrow> jstr) \<Rightarrow> save_point option \<Rightarrow> jsval \<Rightarrow> ledger \<Rightarrow> (knowledge_error, unit, ledger) outcome" where
  "promote shortest fault r s = (case knowledge_get (bare_text (getp r ''id'')) s of
     Inl e \<Rightarrow> (Inl e, s)
   | Inr (Some _) \<Rightarrow> (Inl KnowledgeExists, s)
   | Inr None \<Rightarrow>
       if list_ex (\<lambda>x. strict_equal (getp x ''documentId'') (getp r ''documentId'')) (knowledge_records s)
       then (Inl DocumentAttached, s)
       else commit_knowledge shortest fault ''records'' (knowledge_records s @ [r]) s)"

definition grant_of :: "jstr \<Rightarrow> jstr \<Rightarrow> jsval \<Rightarrow> bool" where
  "grant_of k b g = (strict_equal (getp g ''knowledgeId'') (Str k) \<and> strict_equal (getp g ''botId'') (Str b))"

text \<open>\<open>map\<close> with a test for identity with the row that \<open>find\<close> returned.\<close>

fun change_found :: "('a \<Rightarrow> bool) \<Rightarrow> ('a \<Rightarrow> 'a) \<Rightarrow> 'a list \<Rightarrow> 'a list" where
  "change_found P f [] = []"
| "change_found P f (x # xs) = (if P x then f x # xs else x # change_found P f xs)"

definition grant_knowledge ::
  "(number \<Rightarrow> jstr) \<Rightarrow> save_point option \<Rightarrow> jstr \<Rightarrow> jstr \<Rightarrow> jstr \<Rightarrow> ledger \<Rightarrow> (knowledge_error, unit, ledger) outcome" where
  "grant_knowledge shortest fault now k b s = (case knowledge_get k s of
     Inl e \<Rightarrow> (Inl e, s)
   | Inr None \<Rightarrow> (Inl KnowledgeUnavailable, s)
   | Inr (Some r) \<Rightarrow>
       if truthy_text (getp r ''revokedAt'') then (Inl KnowledgeUnavailable, s)
       else if truthy_text (getp r ''integrity'') then (Inl KnowledgeAmbiguous, s)
       else commit_knowledge shortest fault ''grants''
         (if find (grant_of k b) (knowledge_grants s) = None
          then knowledge_grants s @ [Obj [(''knowledgeId'', Str k), (''botId'', Str b), (''grantedAt'', Str now)]]
          else change_found (grant_of k b) (\<lambda>g. setp (setp g ''revokedAt'' Undef) ''grantedAt'' (Str now)) (knowledge_grants s)) s)"

definition granted :: "jstr \<Rightarrow> jstr \<Rightarrow> ledger \<Rightarrow> knowledge_error + bool" where
  "granted k b s = (case knowledge_get k s of
     Inl e \<Rightarrow> Inl e
   | Inr None \<Rightarrow> Inr False
   | Inr (Some r) \<Rightarrow> Inr (\<not> truthy_text (getp r ''revokedAt'') \<and> \<not> truthy_text (getp r ''integrity'') \<and>
       list_ex (\<lambda>g. grant_of k b g \<and> \<not> truthy_text (getp g ''revokedAt'')) (knowledge_grants s)))"

definition revoke_knowledge ::
  "(number \<Rightarrow> jstr) \<Rightarrow> save_point option \<Rightarrow> jstr \<Rightarrow> jstr \<Rightarrow> jstr option \<Rightarrow> ledger \<Rightarrow> (knowledge_error, unit, ledger) outcome" where
  "revoke_knowledge shortest fault now k target s = (case knowledge_get k s of
     Inl e \<Rightarrow> (Inl e, s)
   | Inr None \<Rightarrow> (Inl KnowledgeMissing, s)
   | Inr (Some _) \<Rightarrow> (case target of
       Some (u # us) \<Rightarrow>
         if find (grant_of k (u # us)) (knowledge_grants s) = None then (Inl GrantMissing, s)
         else commit_knowledge shortest fault ''grants''
           (change_found (grant_of k (u # us)) (\<lambda>g. setp g ''revokedAt'' (Str now)) (knowledge_grants s)) s
     | _ \<Rightarrow> commit_knowledge shortest fault ''records''
         (map (\<lambda>r. if strict_equal (getp r ''id'') (Str k) then setp r ''revokedAt'' (Str now) else r) (knowledge_records s)) s))"

section \<open>The life of the ledger\<close>

datatype knowledge_event =
    PromoteKnowledge jsval "save_point option"
  | GrantKnowledge jstr jstr jstr "save_point option"
  | RevokeKnowledge jstr "jstr option" jstr "save_point option"
  | RestartKnowledge "rollback_fault option" "save_point option"
  | LoseKnowledge bool copy

fun knowledge_call :: "(number \<Rightarrow> jstr) \<Rightarrow> knowledge_event \<Rightarrow> ledger \<Rightarrow> (knowledge_error, unit, ledger) outcome" where
  "knowledge_call shortest (PromoteKnowledge r fault) s = promote shortest fault r s"
| "knowledge_call shortest (GrantKnowledge k b now fault) s = grant_knowledge shortest fault now k b s"
| "knowledge_call shortest (RevokeKnowledge k target now fault) s = revoke_knowledge shortest fault now k target s"
| "knowledge_call shortest _ s = (Inr (), s)"

definition new_knowledge :: "copies \<Rightarrow> knowledge" where
  "new_knowledge d = \<lparr>knUp = False, knLedger = \<lparr>lgStored = empty_knowledge, lgFailed = True, lgDisk = d\<rparr>, knRollback = Missing\<rparr>"

fun knowledge_step :: "(number \<Rightarrow> jstr) \<Rightarrow> (jstr \<Rightarrow> int option) \<Rightarrow> knowledge \<Rightarrow> knowledge_event \<Rightarrow> knowledge" where
  "knowledge_step shortest date s (RestartKnowledge rollback fault) = snd (open_knowledge shortest date rollback fault s)"
| "knowledge_step shortest date s (LoseKnowledge primary c) =
     s\<lparr>knLedger := (knLedger s)\<lparr>lgDisk := lose_copy primary c (lgDisk (knLedger s))\<rparr>\<rparr>"
| "knowledge_step shortest date s e = (if knUp s then s\<lparr>knLedger := snd (knowledge_call shortest e (knLedger s))\<rparr> else s)"

end
