(* ===== verification/KnowledgeFacts.thy ===== *)
theory KnowledgeFacts
  imports KnowledgeLedger
begin

text \<open>
  What the knowledge ledger keeps: well-formed rows, the records that were promoted or withdrawn, and grants that stay withdrawn.
  The bounds \<open>n\<close> and \<open>m\<close> count the records and the grants: nothing in the ledger keeps them below the limits of its guard.
\<close>

section \<open>Rows\<close>

definition typed_knowledge :: "(jstr \<Rightarrow> int option) \<Rightarrow> bool \<Rightarrow> jsval \<Rightarrow> bool" where
  "typed_knowledge date team r \<longleftrightarrow> object_wf r \<and> json_clean r = r \<and> knowledge_row date team r"

definition typed_grant :: "(jstr \<Rightarrow> int option) \<Rightarrow> jsval \<Rightarrow> bool" where
  "typed_grant date g \<longleftrightarrow> object_wf g \<and> grant_row date g"

definition row_id :: "jsval \<Rightarrow> jsval" where "row_id r = getp r ''id''"

definition knowledge_tables :: "(jstr \<Rightarrow> int option) \<Rightarrow> bool \<Rightarrow> jsval list \<Rightarrow> jsval list \<Rightarrow> bool" where
  "knowledge_tables date team rs gs \<longleftrightarrow>
     list_all (typed_knowledge date team) rs \<and> list_all (typed_grant date) gs \<and>
     distinct (map row_id rs) \<and> distinct (map grant_key gs) \<and>
     (\<forall>g \<in> set gs. getp g ''knowledgeId'' \<in> row_id ` set rs)"

definition second_version :: "jsval \<Rightarrow> bool" where
  "second_version v \<longleftrightarrow> getp v ''version'' = Num (Fin 2)"

definition knowledge_sound :: "(jstr \<Rightarrow> int option) \<Rightarrow> nat \<Rightarrow> nat \<Rightarrow> jsval \<Rightarrow> bool" where
  "knowledge_sound date n m v \<longleftrightarrow>
     object_wf v \<and> natural_revision v \<and> (getp v ''version'' = Num (Fin 1) \<or> second_version v) \<and>
     (\<exists>rs gs. getp v ''records'' = Arr rs \<and> getp v ''grants'' = Arr gs \<and> length rs \<le> min n max_records \<and>
       length gs \<le> min m max_grants \<and> knowledge_tables date (second_version v) rs gs)"

datatype knowledge_fact = Promoted jsval jsval | Withdrawn jsval | Ungranted jstr jstr

text \<open>A grant in force.\<close>

definition grants_in_force :: "jstr \<Rightarrow> jstr \<Rightarrow> jsval list \<Rightarrow> bool" where
  "grants_in_force k b gs \<longleftrightarrow>
     (\<exists>g \<in> set gs. getp g ''knowledgeId'' = Str k \<and> getp g ''botId'' = Str b \<and> getp g ''revokedAt'' = Undef)"

definition knowledge_facts :: "(jstr \<times> jstr) set \<Rightarrow> jsval \<Rightarrow> knowledge_fact set" where
  "knowledge_facts X v =
     (let rs = elements (getp v ''records''); gs = elements (getp v ''grants'') in
      (\<lambda>r. Promoted (row_id r) (getp r ''documentId'')) ` set rs \<union>
      (\<lambda>r. Withdrawn (row_id r)) ` {r \<in> set rs. getp r ''revokedAt'' \<noteq> Undef} \<union>
      {Ungranted k b |k b. (k, b) \<in> X \<and> \<not> grants_in_force k b gs})"

lemma grant_clean:
  assumes "typed_grant date g" "k \<in> {''knowledgeId'', ''botId'', ''grantedAt'', ''revokedAt''}"
  shows "getp (json_clean g) k = getp g k"
  using assms by (auto simp: typed_grant_def grant_row_def revocation_def getp_clean text_with_Str string_id_Str valid_date_Str)

lemma typed_grant_clean: "typed_grant date g \<Longrightarrow> typed_grant date (json_clean g)"
  using grant_clean [of date g] by (simp add: typed_grant_def grant_row_def revocation_def)

lemma grants_in_force_clean:
  assumes "list_all (typed_grant date) gs"
  shows "grants_in_force k b (map json_clean gs) = grants_in_force k b gs"
proof -
  have "getp (json_clean g) j = getp g j" if "g \<in> set gs" "j \<in> {''knowledgeId'', ''botId'', ''revokedAt''}" for g j
    using assms that by (intro grant_clean [of date]) (auto simp: list_all_iff)
  then show ?thesis by (simp add: grants_in_force_def cong: bex_cong)
qed

lemma grant_keys_clean: "list_all (typed_grant date) gs \<Longrightarrow> map grant_key (map json_clean gs) = map grant_key gs"
  using grant_clean by (fastforce simp: grant_key_def list_all_iff)

lemma knowledge_tables_clean: "knowledge_tables date team rs gs \<Longrightarrow> knowledge_tables date team rs (map json_clean gs)"
  using typed_grant_clean [of date] grant_keys_clean [of date gs] grant_clean [of date]
  by (auto simp: knowledge_tables_def list_all_iff simp del: map_map)

lemma knowledge_soundE:
  assumes "knowledge_sound date n m v"
  obtains rs gs where "getp v ''records'' = Arr rs" "getp v ''grants'' = Arr gs" "knowledge_tables date (second_version v) rs gs"
    "length rs \<le> min n max_records" "length gs \<le> min m max_grants"
  using assms by (auto simp: knowledge_sound_def)

lemma knowledge_clean_parts:
  assumes "knowledge_sound date n m v"
  shows "getp (json_clean v) ''version'' = getp v ''version''" "getp (json_clean v) ''revision'' = getp v ''revision''"
    "getp (json_clean v) ''records'' = getp v ''records''"
    "getp (json_clean v) ''grants'' = Arr (map json_clean (elements (getp v ''grants'')))"
proof -
  obtain rs gs where v: "getp v ''records'' = Arr rs" "getp v ''grants'' = Arr gs" "knowledge_tables date (second_version v) rs gs"
    using assms by (rule knowledge_soundE)
  have w: "object_wf v" "natural_revision v" using assms by (auto simp: knowledge_sound_def)
  have "map json_clean rs = rs"
    using v(3) by (intro map_idI) (auto simp: knowledge_tables_def list_all_iff typed_knowledge_def)
  then show "getp (json_clean v) ''records'' = getp v ''records''"
    "getp (json_clean v) ''grants'' = Arr (map json_clean (elements (getp v ''grants'')))"
    using v w by (simp_all add: getp_clean clean_items_map)
  show "getp (json_clean v) ''version'' = getp v ''version''"
    using assms w by (auto simp: knowledge_sound_def second_version_def getp_clean)
  show "getp (json_clean v) ''revision'' = getp v ''revision''" using w by (rule revision_kept)
qed

lemma knowledge_sound_clean: "knowledge_sound date n m v \<Longrightarrow> knowledge_sound date n m (json_clean v)"
  using knowledge_clean_parts [of date n m v] knowledge_tables_clean
  by (auto simp: knowledge_sound_def second_version_def intro: natural_revision_same)

lemma knowledge_facts_clean:
  assumes "knowledge_sound date n m v"
  shows "knowledge_facts X (json_clean v) = knowledge_facts X v"
proof -
  obtain rs gs where v: "getp v ''records'' = Arr rs" "getp v ''grants'' = Arr gs" "knowledge_tables date (second_version v) rs gs"
    using assms by (rule knowledge_soundE)
  then have "grants_in_force k b (map json_clean gs) = grants_in_force k b gs" for k b
    by (intro grants_in_force_clean) (auto simp: knowledge_tables_def)
  with v knowledge_clean_parts(3,4) [OF assms] show ?thesis by (simp add: knowledge_facts_def)
qed

lemma knowledge_rows_ids:
  assumes "list_all (knowledge_row date team) rs"
  shows "all_different (map (\<lambda>r. getp r ''id'') rs) = distinct (map row_id rs)"
proof -
  have "map (\<lambda>r. getp r ''id'') rs = map Str (map (\<lambda>r. bare_text (getp r ''id'')) rs)"
    using assms by (auto simp: list_all_iff knowledge_row_def Let_def text_with_Str)
  moreover from this have "map row_id rs = map Str (map (\<lambda>r. bare_text (getp r ''id'')) rs)" by (simp add: row_id_def)
  ultimately show ?thesis by (simp only: all_different_strings distinct_map) (simp add: inj_on_def)
qed

lemma knowledge_sound_file:
  assumes s: "knowledge_sound date n m v" and r: "valid_revision v"
  shows "knowledge_file date (json_clean v)"
proof -
  have "knowledge_sound date n m (json_clean v)" using s by (rule knowledge_sound_clean)
  then obtain rs gs where v: "getp (json_clean v) ''records'' = Arr rs" "getp (json_clean v) ''grants'' = Arr gs"
    "knowledge_tables date (second_version (json_clean v)) rs gs" "length rs \<le> min n max_records" "length gs \<le> min m max_grants"
    by (rule knowledge_soundE)
  have ty: "list_all (knowledge_row date (second_version (json_clean v))) rs"
    using v(3) by (auto simp: knowledge_tables_def list_all_iff typed_knowledge_def)
  have "valid_revision (json_clean v)" using r knowledge_clean_parts(2) [OF s] by (simp add: valid_revision_def revision_def)
  moreover have "getp (json_clean v) ''version'' = Num (Fin 1) \<or> getp (json_clean v) ''version'' = Num (Fin 2)"
    using s knowledge_clean_parts(1) [OF s] by (auto simp: knowledge_sound_def second_version_def)
  moreover have "list_all (\<lambda>g. list_ex (\<lambda>r. getp r ''id'' = getp g ''knowledgeId'') rs) gs"
    using v(3) by (fastforce simp: knowledge_tables_def row_id_def list_all_iff list_ex_iff)
  moreover have "list_all (grant_row date) gs" "distinct (map row_id rs)" "distinct (map grant_key gs)"
    using v(3) by (auto simp: knowledge_tables_def list_all_iff typed_grant_def)
  ultimately show ?thesis
    using v ty knowledge_rows_ids [OF ty] by (simp add: knowledge_file_def Let_def is_array_def second_version_def)
qed

interpretation known: copied_ledger shortest "knowledge_file date" max_knowledge_bytes empty_knowledge "knowledge_sound date n m"
    "knowledge_facts X"
  for shortest date n m X
proof unfold_locales
  show "knowledge_sound date n m empty_knowledge"
    by (auto simp: knowledge_sound_def empty_knowledge_def object_wf_def second_version_def knowledge_tables_def
        intro: natural_revision_zero)
  show "json_clean empty_knowledge = empty_knowledge" by (simp add: empty_knowledge_def)
qed (auto simp: knowledge_sound_clean knowledge_facts_clean knowledge_sound_file revision_def knowledge_clean_parts)

lemma knowledge_sound_mono: "knowledge_sound date n m v \<Longrightarrow> n \<le> n' \<Longrightarrow> m \<le> m' \<Longrightarrow> knowledge_sound date n' m' v"
  unfolding knowledge_sound_def by (meson le_trans min.mono order_refl)

lemma known_mono: "known.durable date n m X A s \<Longrightarrow> n \<le> n' \<Longrightarrow> m \<le> m' \<Longrightarrow> known.durable date n' m' X A s"
proof -
  assume le: "n \<le> n'" "m \<le> m'"
  have s: "knowledge_sound date n m v \<Longrightarrow> knowledge_sound date n' m' v" for v using knowledge_sound_mono le by blast
  then have h: "known.held date n m X A c \<Longrightarrow> known.held date n' m' X A c" for c by (cases c) (simp_all add: known.held_def)
  show "known.durable date n m X A s \<Longrightarrow> known.durable date n' m' X A s"
    unfolding known.durable_def Let_def using s h by blast
qed

section \<open>The next value\<close>

lemma knowledge_next:
  assumes v: "knowledge_sound date n m v" and w: "w = with_revision (setp v k (Arr rows)) (revision v + 1)"
    and k: "k = ''records'' \<and> knowledge_tables date (second_version v) rows (elements (getp v ''grants'')) \<and> length rows \<le> min n max_records \<or>
      k = ''grants'' \<and> knowledge_tables date (second_version v) (elements (getp v ''records'')) rows \<and> length rows \<le> min m max_grants"
  shows "knowledge_sound date n m w" "revision w = revision v + 1"
    "elements (getp w ''records'') = (if k = ''records'' then rows else elements (getp v ''records''))"
    "elements (getp w ''grants'') = (if k = ''grants'' then rows else elements (getp v ''grants''))"
proof -
  obtain rs gs where r: "getp v ''records'' = Arr rs" "getp v ''grants'' = Arr gs" "knowledge_tables date (second_version v) rs gs"
    "length rs \<le> min n max_records" "length gs \<le> min m max_grants"
    using v by (rule knowledge_soundE)
  have o: "object_wf v" "natural_revision v" "is_record v" using v by (auto simp: knowledge_sound_def object_wf_record)
  have "natural_revision (with_revision (setp v k (Arr rows)) (revision (setp v k (Arr rows)) + 1))"
    using k o(2) by (intro natural_revision_bump natural_revision_setp) auto
  moreover have "revision (setp v k (Arr rows)) = revision v" using k o(3) by (auto simp: revision_def)
  ultimately have nr: "natural_revision w" by (simp add: w)
  have g: "getp w ''version'' = getp v ''version''"
    "getp w ''records'' = (if k = ''records'' then Arr rows else Arr rs)" "getp w ''grants'' = (if k = ''grants'' then Arr rows else Arr gs)"
    using k o(3) r by (auto simp: w with_revision_def)
  have sv: "second_version w = second_version v" using g(1) by (simp add: second_version_def)
  have ow: "object_wf w" using o(1) by (simp add: w with_revision_def)
  have ve: "getp w ''version'' = Num (Fin 1) \<or> second_version w" using v g(1) by (auto simp: knowledge_sound_def second_version_def)
  show "knowledge_sound date n m w"
    unfolding knowledge_sound_def using nr ow ve k r by (auto simp: g(2,3) sv)
  show "revision w = revision v + 1" by (simp add: w)
  show "elements (getp w ''records'') = (if k = ''records'' then rows else elements (getp v ''records''))"
    "elements (getp w ''grants'') = (if k = ''grants'' then rows else elements (getp v ''grants''))"
    using g(2,3) r by auto
qed

lemma commit_knowledge_ok:
  assumes d: "known.durable date n m X A s"
    and k: "k = ''records'' \<and> knowledge_tables date (second_version (lgStored s)) rows (knowledge_grants s) \<and> length rows \<le> min n max_records \<or>
      k = ''grants'' \<and> knowledge_tables date (second_version (lgStored s)) (knowledge_records s) rows \<and> length rows \<le> min m max_grants"
    and f: "knowledge_facts X (lgStored s) \<subseteq> knowledge_facts X (setp (lgStored s) k (Arr rows))"
    and c: "commit_knowledge shortest fault k rows s = (res, t)"
  shows "known.durable date n m X A t"
    "res = Inr () \<Longrightarrow> known.durable date n m X (knowledge_facts X (setp (lgStored s) k (Arr rows))) t"
proof -
  let ?w = "with_revision (setp (lgStored s) k (Arr rows)) (revision (lgStored s) + 1)"
  have v: "knowledge_sound date n m (lgStored s)" using known.durable_holds(2) [OF d] .
  note nx = knowledge_next [OF v refl, of k rows]
  have kk: "k = ''records'' \<and> knowledge_tables date (second_version (lgStored s)) rows (elements (getp (lgStored s) ''grants'')) \<and> length rows \<le> min n max_records \<or>
      k = ''grants'' \<and> knowledge_tables date (second_version (lgStored s)) (elements (getp (lgStored s) ''records'')) rows \<and> length rows \<le> min m max_grants"
    using k by (simp add: knowledge_grants_def knowledge_records_def)
  have "is_record (lgStored s)" using v by (auto simp: knowledge_sound_def object_wf_record)
  then have fw: "knowledge_facts X ?w = knowledge_facts X (setp (lgStored s) k (Arr rows))"
    by (simp add: knowledge_facts_def with_revision_def)
  obtain sr u where sv: "(if lgFailed s then (Inl NeedsRecovery, s)
      else if False \<or> max_knowledge_bytes < pretty_bytes shortest ?w + 1 then (Inl LedgerFull, s)
      else commit_value shortest fault ?w s) = (sr, u)" by fastforce
  have "save_knowledge shortest fault (setp (lgStored s) k (Arr rows)) s = (sr, u)"
    unfolding save_knowledge_def Let_def using sv by (simp only: simp_thms)
  with c have rt: "(res, t) = (case sr of Inr _ \<Rightarrow> (Inr (), u) | Inl e \<Rightarrow> (Inl (KnowledgeCopies e), u))"
    by (auto simp: commit_knowledge_def split: sum.splits)
  have ff: "knowledge_facts X (lgStored s) \<subseteq> knowledge_facts X ?w" using f fw by simp
  note dn = known.durable_next [OF d nx(1) [OF kk] ff nx(2) [OF kk] sv]
  show "known.durable date n m X A t" using dn(1) rt by (cases sr) auto
  show "res = Inr () \<Longrightarrow> known.durable date n m X (knowledge_facts X (setp (lgStored s) k (Arr rows))) t"
    using dn(2) rt fw by (cases sr) auto
qed

end
