(* ===== verification/KnowledgeSafety.thy ===== *)
theory KnowledgeSafety
  imports KnowledgeFacts
begin

text \<open>
  The knowledge ledger over whole lives: what each operation keeps, and the promises: what was withdrawn stays withdrawn, and the
  copy of the first version is the original.
\<close>

section \<open>Operations\<close>

fun knowledge_host :: "(jstr \<Rightarrow> int option) \<Rightarrow> knowledge_event \<Rightarrow> bool" where
  "knowledge_host date (PromoteKnowledge r fault) = typed_knowledge date True r"
| "knowledge_host date (GrantKnowledge k b now fault) = (id_text b \<and> date now \<noteq> None)"
| "knowledge_host date (RevokeKnowledge k target now fault) = (date now \<noteq> None)"
| "knowledge_host date e = True"

fun adds_record :: "knowledge_event \<Rightarrow> nat" where
  "adds_record (PromoteKnowledge r fault) = 1"
| "adds_record e = 0"

fun adds_grant :: "knowledge_event \<Rightarrow> nat" where
  "adds_grant (GrantKnowledge k b now fault) = 1"
| "adds_grant e = 0"

definition leaves_grants :: "(jstr \<times> jstr) set \<Rightarrow> knowledge_event \<Rightarrow> bool" where
  "leaves_grants X e \<longleftrightarrow> (\<forall>k b now fault. e = GrantKnowledge k b now fault \<longrightarrow> (k, b) \<notin> X)"

text \<open>A call that returned an error left memory and files as they were or failed in a save.\<close>

definition saves_rows ::
  "(number \<Rightarrow> jstr) \<Rightarrow> (jstr \<Rightarrow> int option) \<Rightarrow> nat \<Rightarrow> nat \<Rightarrow> (jstr \<times> jstr) set \<Rightarrow> ledger \<Rightarrow>
   string \<Rightarrow> jsval list \<Rightarrow> knowledge_error + unit \<Rightarrow> ledger \<Rightarrow> bool" where
  "saves_rows shortest date n m X s k rows res t \<longleftrightarrow>
     (\<exists>fault. commit_knowledge shortest fault k rows s = (res, t)) \<and>
     (k = ''records'' \<and> knowledge_tables date (second_version (lgStored s)) rows (knowledge_grants s) \<and> length rows \<le> min n max_records \<or>
      k = ''grants'' \<and> knowledge_tables date (second_version (lgStored s)) (knowledge_records s) rows \<and> length rows \<le> min m max_grants) \<and>
     knowledge_facts X (lgStored s) \<subseteq> knowledge_facts X (setp (lgStored s) k (Arr rows))"

lemma stored_tables:
  assumes "known.durable date n m X A s"
  shows "knowledge_tables date (second_version (lgStored s)) (knowledge_records s) (knowledge_grants s)"
    "length (knowledge_records s) \<le> min n max_records" "length (knowledge_grants s) \<le> min m max_grants"
    "is_record (lgStored s)"
proof -
  have v: "knowledge_sound date n m (lgStored s)" using known.durable_holds(2) [OF assms] .
  then obtain rs gs where "getp (lgStored s) ''records'' = Arr rs" "getp (lgStored s) ''grants'' = Arr gs"
    "knowledge_tables date (second_version (lgStored s)) rs gs" "length rs \<le> min n max_records" "length gs \<le> min m max_grants"
    by (rule knowledge_soundE)
  then show "knowledge_tables date (second_version (lgStored s)) (knowledge_records s) (knowledge_grants s)"
    "length (knowledge_records s) \<le> min n max_records" "length (knowledge_grants s) \<le> min m max_grants"
    by (simp_all add: knowledge_records_def knowledge_grants_def)
  show "is_record (lgStored s)" using v by (auto simp: knowledge_sound_def object_wf_record)
qed

lemma facts_stored:
  assumes "is_record v"
  shows "knowledge_facts X (setp v ''records'' (Arr rows)) =
      (\<lambda>r. Promoted (row_id r) (getp r ''documentId'')) ` set rows \<union>
      (\<lambda>r. Withdrawn (row_id r)) ` {r \<in> set rows. getp r ''revokedAt'' \<noteq> Undef} \<union>
      {Ungranted k b |k b. (k, b) \<in> X \<and> \<not> grants_in_force k b (elements (getp v ''grants''))}"
    "knowledge_facts X (setp v ''grants'' (Arr gs)) =
      (\<lambda>r. Promoted (row_id r) (getp r ''documentId'')) ` set (elements (getp v ''records'')) \<union>
      (\<lambda>r. Withdrawn (row_id r)) ` {r \<in> set (elements (getp v ''records'')). getp r ''revokedAt'' \<noteq> Undef} \<union>
      {Ungranted k b |k b. (k, b) \<in> X \<and> \<not> grants_in_force k b gs}"
  using assms by (simp_all add: knowledge_facts_def Let_def)

lemma found_record:
  assumes "knowledge_get k s = Inr (Some r)"
  obtains x where "x \<in> set (knowledge_records s)" "row_id x = Str k" "getp r ''revokedAt'' = getp x ''revokedAt''"
    "\<not> lgFailed s"
proof -
  obtain x where x: "find (\<lambda>r. strict_equal (getp r ''id'') (Str k)) (knowledge_records s) = Some x"
    "r = x \<or> r = setp x ''integrity'' ambiguity" "\<not> lgFailed s"
    using assms by (auto simp: knowledge_get_def split: if_splits option.splits)
  from x(1) have "x \<in> set (knowledge_records s)" "row_id x = Str k" by (auto simp: find_Some_iff row_id_def)
  moreover from this have "is_record x" using getp_Some_record [of x "''id''"] by (simp add: row_id_def)
  ultimately show thesis using x(2,3) that [of x] by auto
qed

lemma unknown_record: "knowledge_get k s = Inr None \<Longrightarrow> Str k \<notin> row_id ` set (knowledge_records s)"
  using find_text_None [of "''id''" k "knowledge_records s"]
  by (auto simp: knowledge_get_def row_id_def image_iff split: if_splits option.splits)

lemma promote_saves:
  assumes d: "known.durable date n m X A s" and v: "second_version (lgStored s)" and r: "typed_knowledge date True r"
    and n: "Suc n \<le> max_records" and p: "promote shortest fault r s = (res, t)"
  shows "isl res \<and> t = s \<or> saves_rows shortest date (Suc n) m X s ''records'' (knowledge_records s @ [r]) res t"
proof (cases "knowledge_get (bare_text (getp r ''id'')) s = Inr None \<and>
    \<not> list_ex (\<lambda>x. strict_equal (getp x ''documentId'') (getp r ''documentId'')) (knowledge_records s)")
  case False
  with p have "isl res \<and> t = s" by (auto simp: promote_def split: sum.splits option.splits if_splits)
  then show ?thesis ..
next
  case True
  with p have c: "commit_knowledge shortest fault ''records'' (knowledge_records s @ [r]) s = (res, t)"
    by (simp add: promote_def)
  have i: "row_id r = Str (bare_text (getp r ''id''))"
    using r by (auto simp: typed_knowledge_def knowledge_row_def Let_def text_with_Str row_id_def)
  have "row_id r \<notin> row_id ` set (knowledge_records s)" using unknown_record True i by metis
  then have "knowledge_tables date (second_version (lgStored s)) (knowledge_records s @ [r]) (knowledge_grants s)"
    using stored_tables(1) [OF d] r v by (auto simp: knowledge_tables_def)
  moreover have "length (knowledge_records s @ [r]) \<le> min (Suc n) max_records" using stored_tables(2) [OF d] n by simp
  moreover have "knowledge_facts X (lgStored s) \<subseteq> knowledge_facts X (setp (lgStored s) ''records'' (Arr (knowledge_records s @ [r])))"
    unfolding facts_stored(1) [OF stored_tables(4) [OF d]] by (auto simp: knowledge_facts_def knowledge_records_def Let_def)
  ultimately show ?thesis using c unfolding saves_rows_def by blast
qed

lemma change_found_map:
  assumes "distinct (map key xs)" "\<And>x y. x \<in> set xs \<Longrightarrow> y \<in> set xs \<Longrightarrow> P x \<Longrightarrow> P y \<Longrightarrow> key x = key y"
  shows "change_found P f xs = map (\<lambda>x. if P x then f x else x) xs"
  using assms
proof (induction xs)
  case (Cons x xs)
  show ?case
  proof (cases "P x")
    case True
    have "\<not> P y" if "y \<in> set xs" for y using Cons.prems(1) Cons.prems(2) [of x y] True that by (auto simp: image_iff)
    then show ?thesis using True by (simp add: map_idI)
  next
    case False
    with Cons show ?thesis by simp
  qed
qed simp

lemma grant_key_of: "grant_of k b g \<Longrightarrow> grant_key g = k @ [58] @ b"
  by (auto simp: grant_of_def grant_key_def)

lemma grant_key_inj:
  assumes "typed_grant date g" "length k = 36" "grant_key g = k @ [58] @ b"
  shows "grant_of k b g"
proof -
  obtain k' b' where g: "getp g ''knowledgeId'' = Str k'" "getp g ''botId'' = Str b'" "length k' = 36"
    using assms(1) by (auto simp: typed_grant_def grant_row_def text_with_Str string_id_Str uuid36_def)
  then have "k' @ [58] @ b' = k @ [58] @ b" using assms(3) by (simp add: grant_key_def)
  then have "k' = k \<and> b' = b" using g(3) assms(2) by (auto simp: append_eq_append_conv)
  with g show ?thesis by (simp add: grant_of_def)
qed

text \<open>Rows of grants that are changed, not moved.\<close>

lemma changed_grants:
  assumes t: "knowledge_tables date team rs gs"
    and f: "\<And>g. g \<in> set gs \<Longrightarrow> grant_of k b g \<Longrightarrow> typed_grant date (f g) \<and> grant_of k b (f g)"
  shows "change_found (grant_of k b) f gs = map (\<lambda>g. if grant_of k b g then f g else g) gs"
    "knowledge_tables date team rs (map (\<lambda>g. if grant_of k b g then f g else g) gs)"
proof -
  show "change_found (grant_of k b) f gs = map (\<lambda>g. if grant_of k b g then f g else g) gs"
    using t grant_key_of by (intro change_found_map [where key = grant_key]) (auto simp: knowledge_tables_def)
  have "map grant_key (map (\<lambda>g. if grant_of k b g then f g else g) gs) = map grant_key gs"
    using f grant_key_of by auto
  moreover have "getp g ''knowledgeId'' = Str k" if "grant_of k b g" for g using that by (simp add: grant_of_def)
  ultimately show "knowledge_tables date team rs (map (\<lambda>g. if grant_of k b g then f g else g) gs)"
    using t f by (auto simp: knowledge_tables_def list_all_iff simp del: map_map)
qed

lemma grant_setp:
  assumes "typed_grant date g" "grant_of k b g" "date now \<noteq> None"
  shows "typed_grant date (setp (setp g ''revokedAt'' Undef) ''grantedAt'' (Str now)) \<and>
      grant_of k b (setp (setp g ''revokedAt'' Undef) ''grantedAt'' (Str now))"
    "typed_grant date (setp g ''revokedAt'' (Str now)) \<and> grant_of k b (setp g ''revokedAt'' (Str now))"
  using assms by (auto simp: typed_grant_def grant_row_def revocation_def grant_of_def valid_date_Str object_wf_record)

lemma grants_other:
  assumes "\<And>g. grant_of k b g \<Longrightarrow> grant_of k b (f g)" "(k', b') \<noteq> (k, b)"
  shows "grants_in_force k' b' (map (\<lambda>g. if grant_of k b g then f g else g) gs) = grants_in_force k' b' gs"
proof -
  have "grant_of k b g \<Longrightarrow> \<not> (getp g ''knowledgeId'' = Str k' \<and> getp g ''botId'' = Str b')" for g
    using assms(2) by (auto simp: grant_of_def)
  with assms(1) show ?thesis by (auto simp: grants_in_force_def)
qed

lemma grant_saves:
  assumes d: "known.durable date n m X A s" and h: "id_text b" "date now \<noteq> None" and x: "(k, b) \<notin> X"
    and m: "Suc m \<le> max_grants" and g: "grant_knowledge shortest fault now k b s = (res, t)"
  shows "isl res \<and> t = s \<or> (\<exists>gs. saves_rows shortest date n (Suc m) X s ''grants'' gs res t)"
proof (cases "isl res \<and> t = s")
  case False
  let ?f = "\<lambda>g. setp (setp g ''revokedAt'' Undef) ''grantedAt'' (Str now)"
  let ?new = "Obj [(''knowledgeId'', Str k), (''botId'', Str b), (''grantedAt'', Str now)]"
  let ?gs = "if find (grant_of k b) (knowledge_grants s) = None then knowledge_grants s @ [?new]
      else change_found (grant_of k b) ?f (knowledge_grants s)"
  obtain r where r: "knowledge_get k s = Inr (Some r)" "commit_knowledge shortest fault ''grants'' ?gs s = (res, t)"
    using g False unfolding grant_knowledge_def by (auto split: sum.splits option.splits if_splits)
  obtain y where y: "y \<in> set (knowledge_records s)" "row_id y = Str k" using found_record [OF r(1)] by blast
  note st = stored_tables [OF d]
  have "text_with uuid36 (row_id y)"
    using st(1) y(1) by (auto simp: knowledge_tables_def list_all_iff typed_knowledge_def knowledge_row_def Let_def row_id_def)
  then have k: "uuid36 k" using y(2) by (simp add: text_with_Str)
  have "knowledge_tables date (second_version (lgStored s)) (knowledge_records s) ?gs \<and> length ?gs \<le> min (Suc m) max_grants \<and>
      (\<forall>k' b'. (k', b') \<in> X \<longrightarrow> grants_in_force k' b' ?gs = grants_in_force k' b' (knowledge_grants s))"
  proof (cases "find (grant_of k b) (knowledge_grants s) = None")
    case True
    have new: "typed_grant date ?new" "grant_key ?new = k @ [58] @ b"
      using h k by (auto simp: typed_grant_def grant_row_def object_wf_def revocation_def text_with_Str string_id_Str valid_date_Str grant_key_def)
    have "grant_key ?new \<notin> grant_key ` set (knowledge_grants s)"
    proof
      assume "grant_key ?new \<in> grant_key ` set (knowledge_grants s)"
      then obtain x where x: "x \<in> set (knowledge_grants s)" "grant_key x = k @ [58] @ b" using new(2) by auto
      then have "typed_grant date x" using st(1) by (auto simp: knowledge_tables_def list_all_iff)
      then have "grant_of k b x" using x(2) k by (intro grant_key_inj) (auto simp: uuid36_def)
      with True x(1) show False by (auto simp: find_None_iff)
    qed
    then have "knowledge_tables date (second_version (lgStored s)) (knowledge_records s) (knowledge_grants s @ [?new])"
      using st(1) new(1) image_eqI [where f = row_id, OF y(2) [symmetric] y(1)] by (auto simp: knowledge_tables_def)
    moreover have "grants_in_force k' b' (knowledge_grants s @ [?new]) = grants_in_force k' b' (knowledge_grants s)"
      if "(k', b') \<in> X" for k' b'
      using that x by (auto simp: grants_in_force_def)
    ultimately show ?thesis using True st(3) m by simp
  next
    case False
    have f: "typed_grant date (?f g) \<and> grant_of k b (?f g)" if "g \<in> set (knowledge_grants s)" "grant_of k b g" for g
      using that st(1) h(2) by (intro grant_setp(1)) (auto simp: knowledge_tables_def list_all_iff)
    note ch = changed_grants [OF st(1), where k = k and b = b and f = ?f, OF f]
    have "grants_in_force k' b' (map (\<lambda>g. if grant_of k b g then ?f g else g) (knowledge_grants s)) =
        grants_in_force k' b' (knowledge_grants s)" if "(k', b') \<in> X" for k' b'
      using that x getp_Some_record [of _ "''knowledgeId''"] by (intro grants_other) (auto simp: grant_of_def)
    then show ?thesis using ch(2) st(3) m by (simp only: False if_False ch(1)) simp
  qed
  moreover from this have "knowledge_facts X (lgStored s) \<subseteq> knowledge_facts X (setp (lgStored s) ''grants'' (Arr ?gs))"
    unfolding facts_stored(2) [OF st(4)]
    by (auto simp: knowledge_facts_def knowledge_records_def knowledge_grants_def Let_def simp del: change_found.simps)
  ultimately show ?thesis using r(2) unfolding saves_rows_def by blast
qed simp

lemma revoke_saves:
  assumes d: "known.durable date n m X A s" and h: "date now \<noteq> None" and r: "revoke_knowledge shortest fault now k target s = (res, t)"
  shows "isl res \<and> t = s \<or> (\<exists>j rows. saves_rows shortest date n m X s j rows res t \<and>
     (\<forall>u us. target = Some (u # us) \<longrightarrow> (k, u # us) \<in> X \<longrightarrow>
       Ungranted k (u # us) \<in> knowledge_facts X (setp (lgStored s) j (Arr rows))) \<and>
     (target \<in> {None, Some []} \<longrightarrow> Withdrawn (Str k) \<in> knowledge_facts X (setp (lgStored s) j (Arr rows))))"
proof (cases "isl res \<and> t = s")
  case False
  then obtain x where x: "knowledge_get k s = Inr (Some x)"
    using r unfolding revoke_knowledge_def by (auto split: sum.splits option.splits)
  obtain y where y: "y \<in> set (knowledge_records s)" "row_id y = Str k" using found_record [OF x] by blast
  note st = stored_tables [OF d]
  show ?thesis
  proof (cases "target \<in> {None, Some []}")
    case True
    define change where "change = (\<lambda>r. if strict_equal (getp r ''id'') (Str k) then setp r ''revokedAt'' (Str now) else r)"
    let ?rs = "map change (knowledge_records s)"
    have c: "commit_knowledge shortest fault ''records'' ?rs s = (res, t)"
      using r x True by (auto simp: revoke_knowledge_def change_def)
    have ty: "typed_knowledge date team (change r) \<and> row_id (change r) = row_id r \<and> getp (change r) ''documentId'' = getp r ''documentId''"
      if "typed_knowledge date team r" for team r
    proof -
      have "is_record r" using that by (auto simp: typed_knowledge_def object_wf_record)
      then show ?thesis
        using that h by (auto simp: typed_knowledge_def knowledge_row_def Let_def revocation_def row_id_def valid_date_Str clean_setp change_def)
    qed
    let ?team = "second_version (lgStored s)"
    have all: "\<forall>r \<in> set (knowledge_records s). typed_knowledge date ?team (change r) \<and> row_id (change r) = row_id r \<and>
        getp (change r) ''documentId'' = getp r ''documentId'' \<and> is_record r"
    proof
      fix r assume "r \<in> set (knowledge_records s)"
      then have "typed_knowledge date ?team r" using st(1) by (simp add: knowledge_tables_def list_all_iff)
      then show "typed_knowledge date ?team (change r) \<and> row_id (change r) = row_id r \<and>
          getp (change r) ''documentId'' = getp r ''documentId'' \<and> is_record r"
        using ty [of ?team r] by (simp only: typed_knowledge_def object_wf_record)
    qed
    have ids: "map row_id ?rs = map row_id (knowledge_records s)" using all by simp
    have t: "knowledge_tables date ?team ?rs (knowledge_grants s)"
    proof -
      have "list_all (typed_knowledge date ?team) ?rs" using all by (simp add: list_all_iff)
      moreover have "row_id ` set ?rs = row_id ` set (knowledge_records s)" using arg_cong [OF ids, of set] by (simp only: set_map)
      moreover have "distinct (map row_id ?rs)" using st(1) unfolding ids knowledge_tables_def by blast
      ultimately show ?thesis using st(1) unfolding knowledge_tables_def by simp
    qed
    have f: "knowledge_facts X (lgStored s) \<subseteq> knowledge_facts X (setp (lgStored s) ''records'' (Arr ?rs))"
    proof -
      have p: "(\<lambda>r. Promoted (row_id r) (getp r ''documentId'')) ` set ?rs =
          (\<lambda>r. Promoted (row_id r) (getp r ''documentId'')) ` set (knowledge_records s)"
        using all by (simp add: image_image cong: image_cong)
      have w: "Withdrawn (row_id r) \<in> (\<lambda>r. Withdrawn (row_id r)) ` {r \<in> set ?rs. getp r ''revokedAt'' \<noteq> Undef}"
        if "r \<in> set (knowledge_records s)" "getp r ''revokedAt'' \<noteq> Undef" for r
      proof (rule image_eqI [where x = "change r"])
        show "Withdrawn (row_id r) = Withdrawn (row_id (change r))" using all that(1) by simp
        show "change r \<in> {r \<in> set ?rs. getp r ''revokedAt'' \<noteq> Undef}" using all that by (auto simp: change_def)
      qed
      have "knowledge_facts X (lgStored s) = (\<lambda>r. Promoted (row_id r) (getp r ''documentId'')) ` set (knowledge_records s) \<union>
          (\<lambda>r. Withdrawn (row_id r)) ` {r \<in> set (knowledge_records s). getp r ''revokedAt'' \<noteq> Undef} \<union>
          {Ungranted k b |k b. (k, b) \<in> X \<and> \<not> grants_in_force k b (elements (getp (lgStored s) ''grants''))}"
        by (simp add: knowledge_facts_def knowledge_records_def Let_def)
      then show ?thesis unfolding facts_stored(1) [OF st(4)] p using w by blast
    qed
    have "change y \<in> set ?rs" "getp (change y) ''revokedAt'' \<noteq> Undef" "row_id (change y) = Str k"
      using y all by (auto simp: row_id_def change_def)
    then have "Withdrawn (Str k) \<in> knowledge_facts X (setp (lgStored s) ''records'' (Arr ?rs))"
      unfolding facts_stored(1) [OF st(4)] by force
    moreover have "saves_rows shortest date n m X s ''records'' ?rs res t"
      unfolding saves_rows_def using c t f st(2) by auto
    ultimately show ?thesis using True by blast
  next
    case False
    then obtain u us where b: "target = Some (u # us)" by (cases target) (auto simp: neq_Nil_conv)
    let ?f = "\<lambda>g. setp g ''revokedAt'' (Str now)" and ?b = "u # us"
    have c: "commit_knowledge shortest fault ''grants'' (change_found (grant_of k ?b) ?f (knowledge_grants s)) s = (res, t)"
      using r x b \<open>\<not> (isl res \<and> t = s)\<close> by (auto simp: revoke_knowledge_def split: if_splits)
    have f: "typed_grant date (?f g) \<and> grant_of k ?b (?f g)" if "g \<in> set (knowledge_grants s)" "grant_of k ?b g" for g
      using that st(1) h by (intro grant_setp(2)) (auto simp: knowledge_tables_def list_all_iff)
    note ch = changed_grants [OF st(1), where k = k and b = ?b and f = ?f, OF f]
    let ?gs = "map (\<lambda>g. if grant_of k ?b g then ?f g else g) (knowledge_grants s)"
    have rec: "grant_of k ?b g \<Longrightarrow> is_record g" for g using getp_Some_record [of g "''knowledgeId''"] by (simp add: grant_of_def)
    have off: "\<not> grants_in_force k ?b ?gs"
      using rec by (auto simp: grants_in_force_def grant_of_def split: if_splits)
    have other: "grants_in_force k' b' ?gs = grants_in_force k' b' (knowledge_grants s)" if "(k', b') \<noteq> (k, ?b)" for k' b'
      using that rec by (intro grants_other) (auto simp: grant_of_def)
    have fewer: "grants_in_force k' b' ?gs \<Longrightarrow> grants_in_force k' b' (knowledge_grants s)" for k' b'
      using off other [of k' b'] by (cases "(k', b') = (k, ?b)") auto
    have "knowledge_facts X (lgStored s) \<subseteq> knowledge_facts X (setp (lgStored s) ''grants'' (Arr ?gs))"
      unfolding facts_stored(2) [OF st(4)] using fewer
      by (auto simp: knowledge_facts_def knowledge_records_def knowledge_grants_def Let_def)
    moreover have "Ungranted k ?b \<in> knowledge_facts X (setp (lgStored s) ''grants'' (Arr ?gs))" if "(k, ?b) \<in> X"
      unfolding facts_stored(2) [OF st(4)] using off that by simp
    ultimately have "saves_rows shortest date n m X s ''grants'' ?gs res t \<and>
        ((k, ?b) \<in> X \<longrightarrow> Ungranted k ?b \<in> knowledge_facts X (setp (lgStored s) ''grants'' (Arr ?gs)))"
      using c ch st(3) unfolding saves_rows_def by auto
    with b show ?thesis by blast
  qed
qed simp

end
