(* ===== verification/KnowledgePromises.thy ===== *)
theory KnowledgePromises
  imports KnowledgeSafety
begin

text \<open>
  The knowledge ledger over whole lives: what was withdrawn stays withdrawn, and the copy kept of a file of the first version is
  the original.
\<close>

section \<open>Lives\<close>

definition knowledge_life ::
  "(jstr \<Rightarrow> int option) \<Rightarrow> nat \<Rightarrow> nat \<Rightarrow> (jstr \<times> jstr) set \<Rightarrow> knowledge_fact set \<Rightarrow> knowledge \<Rightarrow> bool" where
  "knowledge_life date n m X A s \<longleftrightarrow>
     known.durable date n m X A (knLedger s) \<and> (knUp s \<longrightarrow> second_version (lgStored (knLedger s)))"

text \<open>A first start finds no file, or two copies of a value with at most \<open>n\<close> records and \<open>m\<close> grants.\<close>

definition knowledge_disk :: "(jstr \<Rightarrow> int option) \<Rightarrow> nat \<Rightarrow> nat \<Rightarrow> copies \<Rightarrow> bool" where
  "knowledge_disk date n m d \<longleftrightarrow>
     d = \<lparr>cpPrimary = Missing, cpBackup = Missing\<rparr> \<or>
     (\<exists>k v. k \<le> max_knowledge_bytes \<and> knowledge_sound date n m v \<and> json_clean v = v \<and> d = \<lparr>cpPrimary = Copy k v, cpBackup = Copy k v\<rparr>)"

lemma new_knowledge_ok: "knowledge_disk date n m d \<Longrightarrow> knowledge_life date n m X {} (new_knowledge d)"
  using known.sound_initial [of date n m]
  by (auto simp: knowledge_disk_def knowledge_life_def new_knowledge_def known.durable_def Let_def known.held_def known.present_def
      known.readable_def read_copy_def split: if_splits)

lemma saves_rows_ok:
  assumes d: "known.durable date n m X A s" and le: "n \<le> n'" "m \<le> m'"
    and c: "saves_rows shortest date n' m' X s k rows res t"
  shows "known.durable date n' m' X A t" "res = Inr () \<Longrightarrow> known.durable date n' m' X (knowledge_facts X (setp (lgStored s) k (Arr rows))) t"
    "second_version (lgStored t) = second_version (lgStored s)"
proof -
  obtain fault where cm: "commit_knowledge shortest fault k rows s = (res, t)" and k: "k = ''records'' \<or> k = ''grants''"
    using c by (auto simp: saves_rows_def)
  have d': "known.durable date n' m' X A s" using d le by (rule known_mono)
  show "known.durable date n' m' X A t" "res = Inr () \<Longrightarrow> known.durable date n' m' X (knowledge_facts X (setp (lgStored s) k (Arr rows))) t"
    using c cm commit_knowledge_ok [OF d', of k rows shortest fault res t] unfolding saves_rows_def by blast+
  have "is_record (lgStored s)" using stored_tables(4) [OF d] .
  then show "second_version (lgStored t) = second_version (lgStored s)"
    using cm k by (auto simp: commit_knowledge_def save_knowledge_def Let_def commit_value_def second_version_def with_revision_def
        split: if_splits option.splits sum.splits prod.splits)
qed

lemma knowledge_call_ok:
  assumes d: "known.durable date n m X A s" and v: "second_version (lgStored s)" and h: "knowledge_host date e"
    and x: "leaves_grants X e" and n: "n + adds_record e \<le> max_records" "m + adds_grant e \<le> max_grants"
    and c: "knowledge_call shortest e s = (res, t)"
  shows "known.durable date (n + adds_record e) (m + adds_grant e) X A t \<and> second_version (lgStored t)"
proof -
  have same: "known.durable date (n + adds_record e) (m + adds_grant e) X A s" by (rule known_mono [OF d]) auto
  note sr = saves_rows_ok(1,3) [OF d, of "n + adds_record e" "m + adds_grant e"]
  have "isl res \<and> t = s \<or> t = s \<or> (\<exists>k rows. saves_rows shortest date (n + adds_record e) (m + adds_grant e) X s k rows res t)"
  proof (cases e)
    case (PromoteKnowledge r fault)
    then show ?thesis using promote_saves [OF d v, of r shortest fault res t] h n c by auto
  next
    case (GrantKnowledge k b now fault)
    then show ?thesis using grant_saves [OF d, of b now k shortest fault res t] h n c x by (auto simp: leaves_grants_def)
  next
    case (RevokeKnowledge k target now fault)
    then show ?thesis using revoke_saves [OF d, of now shortest fault k target res t] h c by auto
  qed (use c in auto)
  with same v sr show ?thesis by auto
qed

text \<open>The migration only widens what the guard admits.\<close>

lemma migrated_sound:
  assumes "knowledge_sound date n m v"
  shows "knowledge_sound date n m (with_revision (setp v ''version'' (Num (Fin 2))) (revision v + 1))"
    "knowledge_facts X (with_revision (setp v ''version'' (Num (Fin 2))) (revision v + 1)) = knowledge_facts X v"
proof -
  let ?u = "setp v ''version'' (Num (Fin 2))"
  obtain rs gs where v: "getp v ''records'' = Arr rs" "getp v ''grants'' = Arr gs" "knowledge_tables date (second_version v) rs gs"
    "length rs \<le> min n max_records" "length gs \<le> min m max_grants"
    using assms by (rule knowledge_soundE)
  have w: "object_wf v" "natural_revision v" "is_record v" using assms by (auto simp: knowledge_sound_def object_wf_record)
  have r: "revision ?u = revision v" using w(3) by (simp add: revision_def)
  have "natural_revision (with_revision ?u (revision ?u + 1))"
    using w(2) by (intro natural_revision_bump natural_revision_setp) auto
  then have nr: "natural_revision (with_revision ?u (revision v + 1))" by (simp add: r)
  have "knowledge_row date team r \<Longrightarrow> knowledge_row date True r" for team r by (auto simp: knowledge_row_def Let_def scope_ok_def)
  then have "knowledge_tables date True rs gs" using v(3) by (auto simp: knowledge_tables_def list_all_iff typed_knowledge_def)
  then show "knowledge_sound date n m (with_revision ?u (revision v + 1))"
    using w v nr by (auto simp: knowledge_sound_def second_version_def) (auto simp: with_revision_def)
  show "knowledge_facts X (with_revision ?u (revision v + 1)) = knowledge_facts X v"
    using w(3) by (simp add: knowledge_facts_def with_revision_def)
qed

lemma open_knowledge_ok:
  assumes s: "knowledge_life date n m X A s" and o: "open_knowledge shortest date rollback fault s = (res, t)"
  shows "knowledge_life date n m X A t"
proof (cases "open_copies shortest (knowledge_file date) max_knowledge_bytes empty_knowledge (lgDisk (knLedger s))")
  case (Inl e)
  with s o show ?thesis by (auto simp: open_knowledge_def knowledge_life_def)
next
  case (Inr v)
  let ?l = "(knLedger s)\<lparr>lgStored := v, lgFailed := False\<rparr>"
  have l: "known.durable date n m X A ?l" using s Inr by (intro known.durable_open) (auto simp: knowledge_life_def)
  then have v: "knowledge_sound date n m v" using known.durable_holds(2) by fastforce
  let ?w = "with_revision (setp v ''version'' (Num (Fin 2))) (revision v + 1)"
  have ls: "lgStored ?l = v" by simp
  obtain sr u where sv: "save_knowledge shortest fault (setp v ''version'' (Num (Fin 2))) ?l = (sr, u)" by fastforce
  have sv': "(if lgFailed ?l then (Inl NeedsRecovery, ?l)
      else if False \<or> max_knowledge_bytes < pretty_bytes shortest ?w + 1 then (Inl LedgerFull, ?l)
      else commit_value shortest fault ?w ?l) = (sr, u)"
    using sv by (simp only: save_knowledge_def Let_def ls simp_thms)
  have "knowledge_facts X (lgStored ?l) \<subseteq> knowledge_facts X ?w" "revision ?w = revision (lgStored ?l) + 1"
    using migrated_sound(2) [OF v] by simp_all
  note dn = known.durable_next [OF l migrated_sound(1) [OF v] this sv']
  have "second_version (lgStored u)" if "sr = Inr ()"
    using dn(2) [OF that] v by (auto simp: second_version_def with_revision_def knowledge_sound_def object_wf_record)
  moreover have "second_version v" if "getp v ''version'' \<noteq> Num (Fin 1)" using v that by (auto simp: knowledge_sound_def)
  ultimately show ?thesis
    using o Inr l dn(1) sv by (cases sr) (auto simp: open_knowledge_def Let_def knowledge_life_def split: if_splits)
qed

lemma knowledge_step_ok:
  assumes s: "knowledge_life date n m X A s" and h: "knowledge_host date e" and x: "leaves_grants X e"
    and n: "n + adds_record e \<le> max_records" "m + adds_grant e \<le> max_grants"
  shows "knowledge_life date (n + adds_record e) (m + adds_grant e) X A (knowledge_step shortest date s e)"
proof -
  have call: "knowledge_life date (n + adds_record e) (m + adds_grant e) X A
      (if knUp s then s\<lparr>knLedger := snd (knowledge_call shortest e (knLedger s))\<rparr> else s)"
  proof (cases "knUp s")
    case True
    obtain res t where c: "knowledge_call shortest e (knLedger s) = (res, t)" by fastforce
    show ?thesis
      using knowledge_call_ok [OF _ _ h x n c, of A] s True c by (simp add: knowledge_life_def)
  next
    case False
    with s known_mono show ?thesis by (auto simp: knowledge_life_def)
  qed
  show ?thesis
  proof (cases e)
    case (RestartKnowledge rollback fault)
    obtain res t where o: "open_knowledge shortest date rollback fault s = (res, t)" by fastforce
    with open_knowledge_ok [OF s o] RestartKnowledge show ?thesis by simp
  next
    case (LoseKnowledge primary c)
    with s known.durable_lose show ?thesis by (auto simp: knowledge_life_def)
  next
    case (PromoteKnowledge r fault)
    show ?thesis using call unfolding PromoteKnowledge knowledge_step.simps .
  next
    case (GrantKnowledge k b now fault)
    show ?thesis using call unfolding GrantKnowledge knowledge_step.simps .
  next
    case (RevokeKnowledge k target now fault)
    show ?thesis using call unfolding RevokeKnowledge knowledge_step.simps .
  qed
qed

lemma knowledge_run_ok:
  assumes "knowledge_life date n m X A s" "list_all (knowledge_host date) es" "list_all (leaves_grants X) es"
    and "n + sum_list (map adds_record es) \<le> max_records" "m + sum_list (map adds_grant es) \<le> max_grants"
  shows "knowledge_life date (n + sum_list (map adds_record es)) (m + sum_list (map adds_grant es)) X A
    (foldl (knowledge_step shortest date) s es)"
  using assms
proof (induction es arbitrary: n m s)
  case (Cons e es)
  have "knowledge_life date (n + adds_record e) (m + adds_grant e) X A (knowledge_step shortest date s e)"
    using Cons.prems by (intro knowledge_step_ok) auto
  from Cons.IH [OF this] Cons.prems show ?case by (simp add: add.assoc)
qed simp

section \<open>What stays withdrawn\<close>

lemma withdrawn_record:
  assumes d: "known.durable date n m X A s" and a: "Withdrawn (Str k) \<in> A" and e: "date [] = None"
    and g: "knowledge_get k s = Inr (Some r)"
  shows "truthy_text (getp r ''revokedAt'')"
proof -
  note st = stored_tables(1) [OF d]
  obtain x where x: "x \<in> set (knowledge_records s)" "row_id x = Str k" "getp r ''revokedAt'' = getp x ''revokedAt''"
    using found_record [OF g] by blast
  have "Withdrawn (Str k) \<in> knowledge_facts X (lgStored s)" using known.durable_holds(1) [OF d] a by auto
  then obtain y where y: "y \<in> set (knowledge_records s)" "row_id y = Str k" "getp y ''revokedAt'' \<noteq> Undef"
    by (auto simp: knowledge_facts_def knowledge_records_def Let_def)
  have "y = x"
    using distinct_map_eq [where f = row_id, OF _ x(1) y(1)] st x(2) y(2) by (simp add: knowledge_tables_def)
  moreover have "revocation date x"
    using st x(1) by (auto simp: knowledge_tables_def list_all_iff typed_knowledge_def knowledge_row_def Let_def)
  ultimately obtain w where "getp x ''revokedAt'' = Str w" "date w \<noteq> None"
    using y(3) by (auto simp: revocation_def valid_date_Str)
  with e x(3) show ?thesis by (auto simp: truthy_text_def)
qed

lemma ungranted_false:
  assumes d: "known.durable date n m X A s" and a: "Ungranted k b \<in> A" and e: "date [] = None"
  shows "granted k b s \<noteq> Inr True"
proof
  assume "granted k b s = Inr True"
  then obtain g where g: "g \<in> set (knowledge_grants s)" "grant_of k b g" "\<not> truthy_text (getp g ''revokedAt'')"
    by (auto simp: granted_def list_ex_iff split: sum.splits option.splits)
  have "Ungranted k b \<in> knowledge_facts X (lgStored s)" using known.durable_holds(1) [OF d] a by auto
  then have "\<not> grants_in_force k b (knowledge_grants s)" by (auto simp: knowledge_facts_def knowledge_grants_def Let_def)
  then have "getp g ''revokedAt'' \<noteq> Undef" using g(1,2) by (auto simp: grants_in_force_def grant_of_def)
  moreover have "revocation date g"
    using stored_tables(1) [OF d] g(1) by (auto simp: knowledge_tables_def list_all_iff typed_grant_def grant_row_def)
  ultimately obtain w where "getp g ''revokedAt'' = Str w" "date w \<noteq> None" by (auto simp: revocation_def valid_date_Str)
  with e g(3) show False by (auto simp: truthy_text_def)
qed

lemma no_facts: "known.durable date n m X {} s \<longleftrightarrow> known.durable date n m Y {} s"
  by (auto simp: known.durable_def known.held_def Let_def split: copy.splits)

lemma revoke_acknowledged:
  assumes d: "known.durable date n m X {} s" and h: "date now \<noteq> None" and r: "revoke_knowledge shortest fault now k target s = (Inr (), t)"
    and b: "b \<noteq> []" "target \<in> {None, Some b}"
  shows "known.durable date n m {(k, b)} {if target = None then Withdrawn (Str k) else Ungranted k b} t"
    "second_version (lgStored t) = second_version (lgStored s)"
proof -
  have d': "known.durable date n m {(k, b)} {} s" using d no_facts by blast
  obtain u us where u: "b = u # us" using b(1) by (cases b) auto
  let ?F = "\<lambda>j rows. knowledge_facts {(k, b)} (setp (lgStored s) j (Arr rows))"
  let ?x = "if target = None then Withdrawn (Str k) else Ungranted k b"
  have "\<exists>j rows. saves_rows shortest date n m {(k, b)} s j rows (Inr ()) t \<and> ?x \<in> ?F j rows"
    using revoke_saves [OF d' h r] b(2) unfolding u by (cases target) auto
  then obtain j rows where sr: "saves_rows shortest date n m {(k, b)} s j rows (Inr ()) t" and x: "?x \<in> ?F j rows" by blast
  note ok = saves_rows_ok [OF d' order_refl order_refl sr]
  have "known.durable date n m {(k, b)} (?F j rows) t" using ok(2) by simp
  then show "known.durable date n m {(k, b)} {?x} t" by (rule known.durable_mono) (use x in simp)
  show "second_version (lgStored t) = second_version (lgStored s)" by (rule ok(3))
qed

text \<open>The state after a revocation that returned, for a target \<open>b\<close> or for all.\<close>

lemma revoked_life:
  assumes start: "knowledge_disk date n m d"
    and h: "list_all (knowledge_host date) (es @ [RevokeKnowledge k target now fault])"
    and n: "n + sum_list (map adds_record es) \<le> max_records" "m + sum_list (map adds_grant es) \<le> max_grants"
    and s: "s = foldl (knowledge_step shortest date) (new_knowledge d) es" "knUp s"
    and r: "fst (revoke_knowledge shortest fault now k target (knLedger s)) = Inr ()"
    and b: "b \<noteq> []" "target \<in> {None, Some b}"
  shows "knowledge_life date (n + sum_list (map adds_record es)) (m + sum_list (map adds_grant es)) {(k, b)}
    {if target = None then Withdrawn (Str k) else Ungranted k b} (knowledge_step shortest date s (RevokeKnowledge k target now fault))"
proof -
  let ?n = "n + sum_list (map adds_record es)" and ?m = "m + sum_list (map adds_grant es)"
  have "knowledge_life date ?n ?m {} {} s"
    unfolding s(1) using h n
    by (intro knowledge_run_ok [OF new_knowledge_ok [OF start]]) (auto simp: leaves_grants_def list_all_iff)
  then have ds: "known.durable date ?n ?m {} {} (knLedger s)" and vs: "second_version (lgStored (knLedger s))"
    using s(2) by (auto simp: knowledge_life_def)
  obtain u where u: "revoke_knowledge shortest fault now k target (knLedger s) = (Inr (), u)" using r by (metis prod.collapse)
  have "date now \<noteq> None" using h by simp
  note ra = revoke_acknowledged [OF ds this u b]
  show ?thesis using ra vs u s(2) by (simp add: knowledge_life_def)
qed

text \<open>
  Once the revocation of a piece of knowledge has returned, no bot is granted it and no grant of it succeeds; once the revocation
  of one grant has returned, that grant stays away until it is granted again. This holds across promotions, grants, failed writes,
  restarts, migrations and the loss of one file, as long as the tables stay within the limits of the guard.
\<close>

theorem knowledge_stays_withdrawn:
  assumes start: "knowledge_disk date n m d" and e: "date [] = None"
    and h: "list_all (knowledge_host date) (es @ RevokeKnowledge k target now fault # fs)"
    and n: "n + sum_list (map adds_record (es @ fs)) \<le> max_records" "m + sum_list (map adds_grant (es @ fs)) \<le> max_grants"
    and s: "s = foldl (knowledge_step shortest date) (new_knowledge d) es" "knUp s"
    and r: "fst (revoke_knowledge shortest fault now k target (knLedger s)) = Inr ()"
    and t: "t = foldl (knowledge_step shortest date) s (RevokeKnowledge k target now fault # fs)"
    and b: "b \<noteq> []" "target \<in> {None, Some b}" "list_all (\<lambda>e. \<forall>now fault. e \<noteq> GrantKnowledge k b now fault) fs"
  shows "granted k b (knLedger t) \<noteq> Inr True \<and>
    (target = None \<longrightarrow> (\<forall>a. granted k a (knLedger t) \<noteq> Inr True \<and>
      isl (fst (grant_knowledge shortest fault' now' k a (knLedger t)))))"
proof -
  let ?n = "n + sum_list (map adds_record es)" and ?m = "m + sum_list (map adds_grant es)"
  let ?A = "{if target = None then Withdrawn (Str k) else Ungranted k b}"
  have "knowledge_life date ?n ?m {(k, b)} ?A (knowledge_step shortest date s (RevokeKnowledge k target now fault))"
    using h n by (intro revoked_life [OF start _ _ _ s r b(1,2)]) auto
  moreover have "list_all (leaves_grants {(k, b)}) fs" using b(3) by (auto simp: leaves_grants_def list_all_iff)
  ultimately have "knowledge_life date (?n + sum_list (map adds_record fs)) (?m + sum_list (map adds_grant fs)) {(k, b)} ?A t"
    unfolding t using h n by (simp only: foldl_Cons) (intro knowledge_run_ok, auto simp: add.assoc)
  then have dt: "known.durable date (?n + sum_list (map adds_record fs)) (?m + sum_list (map adds_grant fs)) {(k, b)} ?A (knLedger t)"
    by (simp add: knowledge_life_def)
  show ?thesis
  proof (cases "target = None")
    case True
    then have w: "Withdrawn (Str k) \<in> ?A" by simp
    have "granted k a (knLedger t) \<noteq> Inr True \<and> isl (fst (grant_knowledge shortest fault' now' k a (knLedger t)))" for a
      using withdrawn_record [OF dt w e]
      by (auto simp: granted_def grant_knowledge_def split: sum.splits option.splits)
    with True show ?thesis by blast
  next
    case False
    then have "Ungranted k b \<in> ?A" by simp
    with False ungranted_false [OF dt _ e] show ?thesis by blast
  qed
qed

section \<open>The copy of the first version\<close>

definition first_kept :: "nat \<Rightarrow> jsval \<Rightarrow> copies \<Rightarrow> bool" where
  "first_kept n v d \<longleftrightarrow> cpPrimary d \<in> {Copy n v, Missing, Damaged} \<and> cpBackup d \<in> {Copy n v, Missing, Damaged} \<and>
     Copy n v \<in> {cpPrimary d, cpBackup d}"

lemma first_kept_lose: "first_kept n v d \<Longrightarrow> first_kept n v (lose_copy primary c d)"
  by (cases rule: lose_copy_cases [of primary c d]) (auto simp: first_kept_def)

lemma first_kept_open:
  assumes "first_kept n v d" "knowledge_file date v" "n \<le> max_knowledge_bytes"
  shows "open_copies shortest (knowledge_file date) max_knowledge_bytes empty_knowledge d = Inr v"
proof -
  have g: "read_copy (knowledge_file date) max_knowledge_bytes (Copy n v) = Inr (Some v)" using assms(2,3) by (simp add: read_copy_def)
  have l: "copy_value (read_copy (knowledge_file date) max_knowledge_bytes c) = None" if "c \<in> {Missing, Damaged}" for c
    using that by (auto simp: read_copy_def copy_value_def)
  have c: "copy_value (Inr (Some v)) = Some v" by (simp add: copy_value_def)
  consider "d = \<lparr>cpPrimary = Copy n v, cpBackup = Copy n v\<rparr>" | x where "x \<in> {Missing, Damaged}" "d = \<lparr>cpPrimary = Copy n v, cpBackup = x\<rparr>"
    | x where "x \<in> {Missing, Damaged}" "d = \<lparr>cpPrimary = x, cpBackup = Copy n v\<rparr>"
    using assms(1) by (cases d) (auto simp: first_kept_def)
  then show ?thesis
  proof cases
    case 1
    then show ?thesis by (simp add: open_copies_def g c)
  next
    case (2 x)
    then show ?thesis using l [OF 2(1)] by (simp add: open_copies_def g c)
  next
    case (3 x)
    then show ?thesis using l [OF 3(1)] by (simp add: open_copies_def g c)
  qed
qed


section \<open>A sample life\<close>

definition sample_uuid :: jstr where "sample_uuid = replicate 36 48"

definition some_date :: "jstr \<Rightarrow> int option" where "some_date s = (if s = [] then None else Some 0)"

definition shared_record :: jsval where
  "shared_record = Obj [(''id'', Str sample_uuid), (''documentId'', Str sample_uuid), (''version'', Num (Fin 1)),
     (''scope'', Obj [(''kind'', Str (js ''project'')), (''id'', Str [112])]),
     (''source'', Obj [(''botId'', Str [97]), (''agentId'', Str [97]), (''sessionId'', Str [115]), (''runId'', Str [114]),
       (''projectId'', Str [112]), (''messageId'', Str [109]), (''links'', Arr [])]),
     (''title'', Str [116]), (''promotedBy'', Str (js ''desktop-owner-consent'')), (''createdAt'', Str [48]), (''updatedAt'', Str [48])]"

definition shared_value :: "rat \<Rightarrow> jsval list \<Rightarrow> jsval" where
  "shared_value q rs = Obj [(''version'', Num (Fin q)), (''revision'', Num (Fin 0)), (''records'', Arr rs), (''grants'', Arr [])]"

abbreviation shared_disk :: "jsval \<Rightarrow> copies" where
  "shared_disk v \<equiv> \<lparr>cpPrimary = Copy 0 v, cpBackup = Copy 0 v\<rparr>"

lemma shared_typed: "typed_knowledge some_date team shared_record"
proof -
  have u: "uuid36 sample_uuid" by (simp add: uuid36_def sample_uuid_def list_all_iff)
  have c: "json_clean shared_record = shared_record" by (simp add: shared_record_def)
  have i: "string_id (Str [112])" "string_id (Str [97])" "string_id (Str [115])" "string_id (Str [114])" "string_id (Str [109])"
    by (simp_all add: string_id_def id_text_def alphanumeric_def)
  have "scope_ok team (getp shared_record ''scope'') (getp (getp shared_record ''source'') ''projectId'')"
    using i by (simp add: scope_ok_def shared_record_def)
  moreover have "object_wf shared_record" by (simp add: object_wf_def shared_record_def)
  moreover have "getp shared_record ''promotedBy'' = Str (js ''desktop-owner-consent'')" by (simp add: shared_record_def del: js_simps)
  ultimately show ?thesis
    using u i c by (simp add: typed_knowledge_def knowledge_row_def Let_def revocation_def)
      (simp add: shared_record_def text_with_def valid_date_def some_date_def)
qed

lemma shared_sound: "q \<in> {1, 2} \<Longrightarrow> knowledge_sound some_date 1 0 (shared_value q [shared_record])"
    "json_clean (shared_value q [shared_record]) = shared_value q [shared_record]"
proof -
  show "json_clean (shared_value q [shared_record]) = shared_value q [shared_record]"
    using shared_typed by (simp add: shared_value_def typed_knowledge_def)
  show "q \<in> {1, 2} \<Longrightarrow> knowledge_sound some_date 1 0 (shared_value q [shared_record])"
    using shared_typed
    by (auto simp: knowledge_sound_def shared_value_def object_wf_def second_version_def knowledge_tables_def max_records_def
        intro: natural_revision_zero)
qed

lemma shared_file: "q \<in> {1, 2} \<Longrightarrow> knowledge_file some_date (shared_value q [shared_record])"
proof -
  assume q: "q \<in> {1, 2}"
  have "valid_revision (shared_value q [shared_record])"
    by (simp add: valid_revision_def shared_value_def revision_def is_safe_integer_def)
  from knowledge_sound_file [OF shared_sound(1) [OF q] this] show ?thesis by (simp add: shared_sound(2))
qed

lemma shared_started:
  "foldl (knowledge_step shortest some_date) (new_knowledge (shared_disk (shared_value 2 [shared_record]))) [RestartKnowledge None None] =
     \<lparr>knUp = True, knLedger = \<lparr>lgStored = shared_value 2 [shared_record], lgFailed = False,
        lgDisk = shared_disk (shared_value 2 [shared_record])\<rparr>, knRollback = Missing\<rparr>"
proof -
  have "first_kept 0 (shared_value 2 [shared_record]) (shared_disk (shared_value 2 [shared_record]))" by (simp add: first_kept_def)
  note o = first_kept_open [OF this shared_file, of shortest]
  have "getp (shared_value 2 [shared_record]) ''version'' = Num (Fin 2)" by (simp add: shared_value_def)
  then show ?thesis using o by (simp add: open_knowledge_def new_knowledge_def)
qed

lemma shared_revoked:
  "fst (revoke_knowledge (\<lambda>_. []) None [48] sample_uuid None \<lparr>lgStored = shared_value 2 [shared_record], lgFailed = False, lgDisk = d\<rparr>) = Inr ()"
proof -
  let ?s = "\<lparr>lgStored = shared_value 2 [shared_record], lgFailed = False, lgDisk = d\<rparr>"
  have rs: "knowledge_records ?s = [shared_record]" by (simp add: knowledge_records_def shared_value_def)
  have i: "getp shared_record ''id'' = Str sample_uuid" by (simp add: shared_record_def)
  obtain x where g: "knowledge_get sample_uuid ?s = Inr (Some x)" using i rs by (simp add: knowledge_get_def)
  let ?w = "with_revision (setp (shared_value 2 [shared_record]) ''records'' (Arr [setp shared_record ''revokedAt'' (Str [48])])) 1"
  have "json_weight (\<lambda>_. []) 0 ?w \<le> 20000"
    by (simp add: with_revision_def shared_value_def shared_record_def setp_def sample_uuid_def number_text_small)
  then have b: "pretty_bytes (\<lambda>_. []) ?w + 1 \<le> max_knowledge_bytes"
    using pretty_bytes_bound [of "\<lambda>_. []" ?w] by (simp add: max_knowledge_bytes_def)
  have r: "revision (shared_value 2 [shared_record]) = 0" by (simp add: revision_def shared_value_def)
  show ?thesis
    using b g by (simp add: revoke_knowledge_def commit_knowledge_def save_knowledge_def Let_def rs i r commit_value_def
        split: prod.splits)
qed

lemma knowledge_stays_withdrawn_witness:
  "granted sample_uuid [97] (knLedger (foldl (knowledge_step (\<lambda>_. []) some_date) (new_knowledge (shared_disk (shared_value 2 [shared_record])))
     [RestartKnowledge None None, RevokeKnowledge sample_uuid None [48] None, LoseKnowledge True Damaged, RestartKnowledge None None])) \<noteq> Inr True"
proof -
  let ?d = "shared_disk (shared_value 2 [shared_record])"
  define s where "s = foldl (knowledge_step (\<lambda>_. []) some_date) (new_knowledge ?d) [RestartKnowledge None None]"
  have s: "s = \<lparr>knUp = True, knLedger = \<lparr>lgStored = shared_value 2 [shared_record], lgFailed = False, lgDisk = ?d\<rparr>, knRollback = Missing\<rparr>"
    unfolding s_def by (rule shared_started)
  have d: "knowledge_disk some_date 1 0 ?d"
    using shared_sound [of 2] unfolding knowledge_disk_def by blast
  have e: "some_date [] = None" by (simp add: some_date_def)
  have h: "list_all (knowledge_host some_date)
      ([RestartKnowledge None None] @ RevokeKnowledge sample_uuid None [48] None # [LoseKnowledge True Damaged, RestartKnowledge None None])"
    by (simp add: some_date_def)
  have r: "fst (revoke_knowledge (\<lambda>_. []) None [48] sample_uuid None (knLedger s)) = Inr ()"
    using shared_revoked by (simp add: s)
  have t: "foldl (knowledge_step (\<lambda>_. []) some_date) (new_knowledge ?d)
      [RestartKnowledge None None, RevokeKnowledge sample_uuid None [48] None, LoseKnowledge True Damaged, RestartKnowledge None None] =
      foldl (knowledge_step (\<lambda>_. []) some_date) s
        (RevokeKnowledge sample_uuid None [48] None # [LoseKnowledge True Damaged, RestartKnowledge None None])"
    by (simp add: s_def)
  have "granted sample_uuid [97] (knLedger (foldl (knowledge_step (\<lambda>_. []) some_date) s
      (RevokeKnowledge sample_uuid None [48] None # [LoseKnowledge True Damaged, RestartKnowledge None None]))) \<noteq> Inr True"
    using knowledge_stays_withdrawn [OF d e h _ _ s_def _ r refl, of "[97]" None "[]"] s by (simp add: max_records_def max_grants_def)
  then show ?thesis unfolding t .
qed


end
