(* ===== verification/KnowledgeBroker.thy ===== *)
theory KnowledgeBroker
  imports KnowledgePromises
begin

text \<open>
  The broker of shared knowledge, \<open>apps/desktop/src/main/bot-knowledge-broker.ts\<close>, over the ledger. What the registry of the bots, its
  teams and its conversations answer is a parameter of every stretch between two suspensions, as it may change meanwhile; so are
  the answers of the runtime and of the document store.
\<close>

section \<open>Promotion\<close>

datatype share_error =
    PromotionInvalid | UnknownBot | MembershipLost | SourceMismatch | RuntimeUnavailable | TranscriptInvalid | MessageUnavailable
  | DocumentFailed | LedgerRefused knowledge_error | ConsentRequired | Ambiguous | SelectionInvalid | GrantUnavailable | ScopeChanged

record registry =
  rgBot :: "jstr \<Rightarrow> jstr option"
  rgAgent :: "jstr \<Rightarrow> jstr"
  rgMember :: "jstr \<Rightarrow> jstr \<Rightarrow> bool"
  rgConversation :: "jstr \<Rightarrow> (jstr \<times> jsval) option"

record promotion =
  pmBot :: jstr
  pmSession :: jstr
  pmRun :: jstr
  pmMessage :: jstr
  pmProject :: "jstr option"
  pmTeam :: "jstr option"
  pmTitle :: jsval
  pmConsent :: bool

text \<open>
  What the awaited calls answer: \<open>pwScope i\<close> is the registry at the \<open>i\<close>-th check of membership and the project of
  \<open>resolveVerifiedConversationWorkspace\<close> then, \<open>None\<close> when it throws.
\<close>

record promotion_world =
  pwRegistry :: registry
  pwScope :: "nat \<Rightarrow> registry \<times> jsval option"
  pwOwner :: "(jstr \<times> jsval) option"
  pwRunOwned :: bool
  pwRun :: "jstr option"
  pwUrl :: bool
  pwResponse :: "(bool \<times> jstr \<times> jsval option) option"
  pwDocument :: "jstr option"
  pwContent :: "jstr option"
  pwId :: jstr
  pwNow :: jstr

definition promotion_ok :: "promotion \<Rightarrow> bool" where
  "promotion_ok p = (pmConsent p \<and> id_text (pmBot p) \<and> id_text (pmSession p) \<and> id_text (pmRun p) \<and> id_text (pmMessage p) \<and>
     (pmProject p = None) \<noteq> (pmTeam p = None) \<and> (pmProject p \<noteq> None \<longrightarrow> id_text (the (pmProject p))) \<and>
     (pmTeam p \<noteq> None \<longrightarrow> uuid36 (the (pmTeam p))) \<and>
     text_with (\<lambda>s. trim_text s \<noteq> [] \<and> length s \<le> 300) (pmTitle p))"

text \<open>\<open>assertSourceMembership\<close> for the bot \<open>b\<close>.\<close>

definition source_member :: "promotion \<Rightarrow> jstr \<Rightarrow> registry \<times> jsval option \<Rightarrow> bool" where
  "source_member p b w = (case rgBot (fst w) b of
     None \<Rightarrow> False
   | Some c \<Rightarrow> (case pmTeam p of
       Some t \<Rightarrow> rgMember (fst w) t c
     | None \<Rightarrow> snd w = Some (Str (the (pmProject p)))))"

definition selected_message :: "promotion \<Rightarrow> jsval \<Rightarrow> jsval option" where
  "selected_message p payload = find (\<lambda>r. (is_record r \<or> is_array r) \<and> strict_equal (getp r ''id'') (Str (pmMessage p)))
     (elements (getp payload ''messages''))"

definition message_text :: "(number \<Rightarrow> jstr) \<Rightarrow> jsval option \<Rightarrow> jstr option" where
  "message_text shortest m = (case m of
     None \<Rightarrow> None
   | Some r \<Rightarrow>
       if coerced shortest (getp r ''role'') \<notin> {js ''user'', js ''assistant''} then None
       else (case getp r ''text'' of Str s \<Rightarrow> if trim_text s = [] \<or> 12000 < length s then None else Some s | _ \<Rightarrow> None))"

definition promotion_scope :: "promotion \<Rightarrow> jsval" where
  "promotion_scope p = (case pmTeam p of
     Some t \<Rightarrow> Obj [(''kind'', Str (js ''team'')), (''id'', Str t)]
   | None \<Rightarrow> Obj [(''kind'', Str (js ''project'')), (''id'', Str (the (pmProject p)))])"

definition promoted_row :: "promotion \<Rightarrow> promotion_world \<Rightarrow> jstr \<Rightarrow> jsval \<Rightarrow> jstr \<Rightarrow> jsval" where
  "promoted_row p w b project document =
     Obj [(''id'', Str (pwId w)), (''version'', Num (Fin 1)), (''documentId'', Str document), (''scope'', promotion_scope p),
       (''source'', Obj ([(''botId'', Str b), (''agentId'', Str (rgAgent (pwRegistry w) b)), (''sessionId'', Str (pmSession p)),
          (''runId'', Str (pmRun p))] @ (if truthy_text project then [(''projectId'', project)] else []) @
          [(''messageId'', Str (pmMessage p)), (''links'', Arr [])])),
       (''title'', Str (trim_text (bare_text (pmTitle p)))), (''promotedBy'', Str (js ''desktop-owner-consent'')),
       (''createdAt'', Str (pwNow w)), (''updatedAt'', Str (pwNow w))]"

definition source_text :: "(number \<Rightarrow> jstr) \<Rightarrow> promotion \<Rightarrow> promotion_world \<Rightarrow> share_error + jstr" where
  "source_text shortest p w =
     (if \<not> pwUrl w then Inl RuntimeUnavailable
      else case pwResponse w of
        None \<Rightarrow> Inl TranscriptInvalid
      | Some (ok, raw, parsed) \<Rightarrow>
          if \<not> ok \<or> 2000000 < length raw then Inl TranscriptInvalid
          else (case parsed of
            None \<Rightarrow> Inl TranscriptInvalid
          | Some payload \<Rightarrow>
              if getp payload ''throughRunId'' \<noteq> Str (pmRun p) \<or> \<not> is_array (getp payload ''messages'') then Inl TranscriptInvalid
              else (case message_text shortest (selected_message p payload) of
                None \<Rightarrow> Inl MessageUnavailable
              | Some t \<Rightarrow> Inr t)))"

definition promotion_record :: "(number \<Rightarrow> jstr) \<Rightarrow> promotion \<Rightarrow> promotion_world \<Rightarrow> share_error + jsval" where
  "promotion_record shortest p w =
     (if \<not> promotion_ok p then Inl PromotionInvalid
      else case rgBot (pwRegistry w) (pmBot p) of
        None \<Rightarrow> Inl UnknownBot
      | Some b \<Rightarrow>
          if \<not> source_member p b (pwScope w 0) then Inl MembershipLost
          else case pwOwner w of
            None \<Rightarrow> Inl SourceMismatch
          | Some (session, project) \<Rightarrow>
              if \<not> pwRunOwned w \<or> pwRun w \<noteq> Some session \<or>
                (pmTeam p = None \<and> project \<noteq> Str (the (pmProject p))) then Inl SourceMismatch
              else case source_text shortest p w of
                Inl e \<Rightarrow> Inl e
              | Inr text \<Rightarrow>
                  if \<not> source_member p b (pwScope w 1) then Inl MembershipLost
                  else case pwDocument w of
                    None \<Rightarrow> Inl DocumentFailed
                  | Some document \<Rightarrow>
                      if \<not> source_member p b (pwScope w 2) then Inl MembershipLost
                      else case pwContent w of
                        None \<Rightarrow> Inl DocumentFailed
                      | Some content \<Rightarrow>
                          if \<not> source_member p b (pwScope w 3) then Inl MembershipLost
                          else if content \<noteq> text then Inl DocumentFailed
                          else Inr (promoted_row p w b project document))"

definition promote_knowledge ::
  "(number \<Rightarrow> jstr) \<Rightarrow> save_point option \<Rightarrow> promotion \<Rightarrow> promotion_world \<Rightarrow> ledger \<Rightarrow> (share_error, jsval, ledger) outcome" where
  "promote_knowledge shortest fault p w s = (case promotion_record shortest p w of
     Inl e \<Rightarrow> (Inl e, s)
   | Inr r \<Rightarrow> (case promote shortest fault r s of
       (Inl e, t) \<Rightarrow> (Inl (LedgerRefused e), t)
     | (Inr _, t) \<Rightarrow> (Inr r, t)))"

definition broker_grant ::
  "(number \<Rightarrow> jstr) \<Rightarrow> save_point option \<Rightarrow> jstr \<Rightarrow> registry \<Rightarrow> jstr \<Rightarrow> jstr \<Rightarrow> bool \<Rightarrow> ledger \<Rightarrow> (share_error, unit, ledger) outcome" where
  "broker_grant shortest fault now reg k b consent s =
     (if \<not> consent then (Inl ConsentRequired, s)
      else case knowledge_get k s of
        Inl e \<Rightarrow> (Inl (LedgerRefused e), s)
      | Inr None \<Rightarrow> (Inl GrantUnavailable, s)
      | Inr (Some r) \<Rightarrow>
          if truthy_text (getp r ''revokedAt'') then (Inl GrantUnavailable, s)
          else if truthy_text (getp r ''integrity'') then (Inl Ambiguous, s)
          else case rgBot reg b of
            None \<Rightarrow> (Inl UnknownBot, s)
          | Some c \<Rightarrow>
              if getp (getp r ''scope'') ''kind'' = Str (js ''team'') \<and> \<not> rgMember reg (bare_text (getp (getp r ''scope'') ''id'')) c
              then (Inl MembershipLost, s)
              else (case grant_knowledge shortest fault now k c s of
                (Inl e, t) \<Rightarrow> (Inl (LedgerRefused e), t)
              | (Inr _, t) \<Rightarrow> (Inr (), t)))"

section \<open>Retrieval\<close>

record share_selection =
  slOrigin :: jstr
  slSession :: jstr
  slProject :: jsval
  slTarget :: jstr
  slIds :: "jstr list"

definition authorized_record :: "registry \<Rightarrow> share_selection \<Rightarrow> ledger \<Rightarrow> jstr \<Rightarrow> share_error + jsval" where
  "authorized_record reg x s i = (case (rgBot reg (slOrigin x), rgBot reg (slTarget x)) of
     (Some origin, Some target) \<Rightarrow> (case knowledge_get i s of
         Inl e \<Rightarrow> Inl (LedgerRefused e)
       | Inr None \<Rightarrow> Inl GrantUnavailable
       | Inr (Some r) \<Rightarrow>
           let scope = getp r ''scope'' in
           if truthy_text (getp r ''integrity'') then Inl Ambiguous
           else if truthy_text (getp r ''revokedAt'') \<or> granted i target s \<noteq> Inr True then Inl GrantUnavailable
           else if getp scope ''kind'' = Str (js ''team'') then
             (if rgMember reg (bare_text (getp scope ''id'')) origin \<and> rgMember reg (bare_text (getp scope ''id'')) target
              then Inr r else Inl MembershipLost)
           else if getp scope ''id'' \<noteq> slProject x \<or> rgConversation reg (slSession x) \<noteq> Some (slOrigin x, getp scope ''id'')
           then Inl GrantUnavailable else Inr r)
   | _ \<Rightarrow> Inl UnknownBot)"

fun assert_each :: "registry \<Rightarrow> share_selection \<Rightarrow> ledger \<Rightarrow> jstr list \<Rightarrow> share_error + unit" where
  "assert_each reg x s [] = Inr ()"
| "assert_each reg x s (i # is) = (case authorized_record reg x s i of Inl e \<Rightarrow> Inl e | Inr _ \<Rightarrow> assert_each reg x s is)"

definition assert_access :: "registry \<Rightarrow> share_selection \<Rightarrow> ledger \<Rightarrow> share_error + unit" where
  "assert_access reg x s =
     (if 8 < length (slIds x) \<or> \<not> distinct (slIds x) then Inl SelectionInvalid else assert_each reg x s (slIds x))"

text \<open>Where a retrieval waits, and what it is answered: the verified project of the origin, or the text of a document.\<close>

datatype retrieval =
    AtScope
  | AtRead jstr jsval "jstr list" "(jstr \<times> jsval \<times> jstr) list"
  | AtReadScope jstr jsval jstr "jstr list" "(jstr \<times> jsval \<times> jstr) list"
  | AtEnd "(jstr \<times> jsval \<times> jstr) list"
  | Delivered "(jstr \<times> jsval \<times> jstr) list"
  | Refused share_error

datatype answer = ScopeIs "jsval option" | TextIs "jstr option"

definition live_scope :: "share_selection \<Rightarrow> jsval option \<Rightarrow> bool" where
  "live_scope x a = (case a of None \<Rightarrow> False | Some project \<Rightarrow> slProject x = Undef \<or> project = slProject x)"

definition next_read ::
  "registry \<Rightarrow> ledger \<Rightarrow> share_selection \<Rightarrow> jstr list \<Rightarrow> (jstr \<times> jsval \<times> jstr) list \<Rightarrow> retrieval" where
  "next_read reg s x ids found = (case ids of
     [] \<Rightarrow> (case assert_access reg x s of Inl e \<Rightarrow> Refused e | Inr _ \<Rightarrow> AtEnd found)
   | i # is \<Rightarrow> (case authorized_record reg x s i of Inl e \<Rightarrow> Refused e | Inr r \<Rightarrow> AtRead i r is found))"

fun retrieve_step :: "registry \<Rightarrow> ledger \<Rightarrow> share_selection \<Rightarrow> answer \<Rightarrow> retrieval \<Rightarrow> retrieval" where
  "retrieve_step reg s x (ScopeIs a) AtScope =
     (if \<not> live_scope x a then Refused ScopeChanged
      else case assert_access reg x s of Inl e \<Rightarrow> Refused e | Inr _ \<Rightarrow> next_read reg s x (slIds x) [])"
| "retrieve_step reg s x (TextIs t) (AtRead i r is found) =
     (case t of None \<Rightarrow> Refused DocumentFailed | Some u \<Rightarrow> AtReadScope i r u is found)"
| "retrieve_step reg s x (ScopeIs a) (AtReadScope i r t is found) =
     (if \<not> live_scope x a then Refused ScopeChanged
      else case assert_access reg x s of
        Inl e \<Rightarrow> Refused e
      | Inr _ \<Rightarrow>
          if t = [] \<or> 100000 < length t then Refused DocumentFailed
          else next_read reg s x is (found @ [(i, getp r ''title'', t)]))"
| "retrieve_step reg s x (ScopeIs a) (AtEnd found) =
     (if \<not> live_scope x a then Refused ScopeChanged
      else case assert_access reg x s of Inl e \<Rightarrow> Refused e | Inr _ \<Rightarrow> Delivered found)"
| "retrieve_step reg s x _ st = st"

section \<open>The broker over the life of the ledger\<close>

text \<open>\<open>dkSent\<close> is a ghost: the selections whose texts were handed out, with the bot they went to and the texts.\<close>

record desk =
  dkKnowledge :: knowledge
  dkRetrievals :: "nat \<Rightarrow> (share_selection \<times> retrieval) option"
  dkSent :: "(jstr \<times> share_selection \<times> (jstr \<times> jsval \<times> jstr) list) list"

datatype desk_event =
    LedgerEvent knowledge_event
  | Retrieve nat share_selection
  | Answered nat registry answer

definition is_restart :: "knowledge_event \<Rightarrow> bool" where
  "is_restart e = (case e of RestartKnowledge r f \<Rightarrow> True | _ \<Rightarrow> False)"

fun desk_step :: "(number \<Rightarrow> jstr) \<Rightarrow> (jstr \<Rightarrow> int option) \<Rightarrow> desk \<Rightarrow> desk_event \<Rightarrow> desk" where
  "desk_step shortest date d (LedgerEvent e) =
     d\<lparr>dkKnowledge := knowledge_step shortest date (dkKnowledge d) e,
       dkRetrievals := (if is_restart e then (\<lambda>_. None) else dkRetrievals d)\<rparr>"
| "desk_step shortest date d (Retrieve j x) =
     (if knUp (dkKnowledge d) \<and> dkRetrievals d j = None then d\<lparr>dkRetrievals := (dkRetrievals d)(j \<mapsto> (x, AtScope))\<rparr> else d)"
| "desk_step shortest date d (Answered j reg a) = (case dkRetrievals d j of
     None \<Rightarrow> d
   | Some (x, st) \<Rightarrow>
       let st' = retrieve_step reg (knLedger (dkKnowledge d)) x a st in
       case st' of
         Delivered found \<Rightarrow> (case st of Delivered _ \<Rightarrow> d
           | _ \<Rightarrow> d\<lparr>dkRetrievals := (dkRetrievals d)(j \<mapsto> (x, st')), dkSent := dkSent d @ [(the (rgBot reg (slTarget x)), x, found)]\<rparr>)
       | _ \<Rightarrow> d\<lparr>dkRetrievals := (dkRetrievals d)(j \<mapsto> (x, st'))\<rparr>)"

definition new_desk :: "copies \<Rightarrow> desk" where
  "new_desk c = \<lparr>dkKnowledge = new_knowledge c, dkRetrievals = (\<lambda>_. None), dkSent = []\<rparr>"

end
