(* ===== verification/KnowledgeDelivery.thy ===== *)
theory KnowledgeDelivery
  imports KnowledgeBroker
begin

text \<open>
  What the broker of shared knowledge hands out: the selected texts in their order, never one that was withdrawn; and what a
  promotion writes passes the guard of the ledger.
\<close>

section \<open>Promotions\<close>

lemma trim_text_length: "length (trim_text s) \<le> length s"
  unfolding trim_text_def using length_dropWhile_le [of js_blank] by (metis (no_types, lifting) dual_order.trans length_rev)

lemma promotion_record_checks:
  assumes "promotion_record shortest p w = Inr r"
  obtains b session project document t where "promotion_ok p" "rgBot (pwRegistry w) (pmBot p) = Some b"
    "pwOwner w = Some (session, project)" "pmTeam p = None \<Longrightarrow> project = Str (the (pmProject p))"
    "source_text shortest p w = Inr t" "pwContent w = Some t" "pwDocument w = Some document"
    "r = promoted_row p w b project document" "\<forall>i < 4. source_member p b (pwScope w i)"
proof -
  have four: "(\<forall>i < 4. P i) \<longleftrightarrow> P 0 \<and> P 1 \<and> P 2 \<and> P (3::nat)" for P
    by (auto simp: less_Suc_eq numeral_eq_Suc)
  show thesis
    using assms that unfolding promotion_record_def four
    by (auto split: if_splits option.splits sum.splits)
qed


section \<open>Retrievals\<close>

lemma assert_each_granted:
  assumes "assert_each reg x s is = Inr ()" "i \<in> set is"
  shows "\<exists>target. rgBot reg (slTarget x) = Some target \<and> granted i target s = Inr True"
  using assms
  by (induction "is") (auto simp: authorized_record_def Let_def split: option.splits sum.splits if_splits)

lemma retrieve_delivers:
  assumes "retrieve_step reg s x a st = Delivered found" "\<And>f. st \<noteq> Delivered f"
  shows "assert_access reg x s = Inr () \<and> st = AtEnd found"
  using assms by (cases a; cases st) (auto simp: next_read_def split: option.splits sum.splits if_splits list.splits)

text \<open>A retrieval reads the selected documents in their order.\<close>

fun in_order :: "share_selection \<Rightarrow> retrieval \<Rightarrow> bool" where
  "in_order x (AtRead i r is found) = (map fst found @ i # is = slIds x)"
| "in_order x (AtReadScope i r t is found) = (map fst found @ i # is = slIds x)"
| "in_order x (AtEnd found) = (map fst found = slIds x)"
| "in_order x (Delivered found) = (map fst found = slIds x)"
| "in_order x _ = True"

lemma next_read_in_order: "map fst found @ is = slIds x \<Longrightarrow> in_order x (next_read reg s x is found)"
  by (auto simp: next_read_def split: list.splits sum.splits)

lemma retrieve_in_order: "in_order x st \<Longrightarrow> in_order x (retrieve_step reg s x a st)"
  by (cases a; cases st) (auto intro!: next_read_in_order split: option.splits sum.splits)

definition desk_ok :: "desk \<Rightarrow> bool" where
  "desk_ok d \<longleftrightarrow> (\<forall>j x st. dkRetrievals d j = Some (x, st) \<longrightarrow> in_order x st)"

lemma desk_step_cases:
  assumes "desk_ok d"
  obtains "desk_ok (desk_step shortest date d e)" "dkSent (desk_step shortest date d e) = dkSent d"
  | b x found where "desk_ok (desk_step shortest date d e)" "dkSent (desk_step shortest date d e) = dkSent d @ [(b, x, found)]"
    "map fst found = slIds x" "\<forall>i \<in> set (slIds x). granted i b (knLedger (dkKnowledge d)) = Inr True"
    "dkKnowledge (desk_step shortest date d e) = dkKnowledge d"
proof (cases e)
  case (LedgerEvent e')
  then show thesis using assms that(1) by (auto simp: desk_ok_def)
next
  case (Retrieve j x)
  then show thesis using assms that(1) by (auto simp: desk_ok_def)
next
  case (Answered j reg a)
  show thesis
  proof (cases "dkRetrievals d j")
    case None
    then show thesis using assms that(1) Answered by simp
  next
    case (Some p)
    obtain x st where p: "p = (x, st)" by fastforce
    have io: "in_order x (retrieve_step reg (knLedger (dkKnowledge d)) x a st)"
      using assms Some p by (intro retrieve_in_order) (auto simp: desk_ok_def)
    have ok: "desk_ok (desk_step shortest date d e)"
      using assms io Some p Answered by (auto simp: desk_ok_def Let_def split: retrieval.splits)
    show thesis
    proof (cases "\<exists>found. retrieve_step reg (knLedger (dkKnowledge d)) x a st = Delivered found \<and> (\<forall>f. st \<noteq> Delivered f)")
      case True
      then obtain found where f: "retrieve_step reg (knLedger (dkKnowledge d)) x a st = Delivered found" "\<And>f. st \<noteq> Delivered f" by blast
      have aa: "assert_each reg x (knLedger (dkKnowledge d)) (slIds x) = Inr ()"
        using retrieve_delivers [OF f] by (auto simp: assert_access_def split: if_splits)
      have "\<forall>i \<in> set (slIds x). granted i (the (rgBot reg (slTarget x))) (knLedger (dkKnowledge d)) = Inr True"
        using assert_each_granted [OF aa] by fastforce
      moreover have "map fst found = slIds x" using io f(1) by simp
      moreover have "desk_step shortest date d e = d\<lparr>dkRetrievals := (dkRetrievals d)(j \<mapsto> (x, Delivered found)),
          dkSent := dkSent d @ [(the (rgBot reg (slTarget x)), x, found)]\<rparr>"
        using f Some p Answered by (auto simp: Let_def split: retrieval.splits)
      ultimately show thesis using ok by (intro that(2)) auto
    next
      case False
      then have "dkSent (desk_step shortest date d e) = dkSent d"
        using Some p Answered by (auto simp: Let_def split: retrieval.splits)
      with ok show thesis by (rule that(1))
    qed
  qed
qed

fun ledger_events :: "desk_event list \<Rightarrow> knowledge_event list" where
  "ledger_events [] = []"
| "ledger_events (LedgerEvent e # es) = e # ledger_events es"
| "ledger_events (_ # es) = ledger_events es"

lemma ledger_events_append: "ledger_events (es @ fs) = ledger_events es @ ledger_events fs"
  by (induction es rule: ledger_events.induct) auto

lemma desk_step_ledger:
  "dkKnowledge (desk_step shortest date d e) = (case e of LedgerEvent e' \<Rightarrow> knowledge_step shortest date (dkKnowledge d) e' | _ \<Rightarrow> dkKnowledge d)"
  by (cases e) (auto simp: Let_def split: option.splits prod.splits retrieval.splits)

lemma desk_run_ledger:
  "dkKnowledge (foldl (desk_step shortest date) d es) = foldl (knowledge_step shortest date) (dkKnowledge d) (ledger_events es)"
  by (induction es arbitrary: d rule: ledger_events.induct) (simp_all add: desk_step_ledger del: desk_step.simps)

lemma desk_run_order:
  assumes "desk_ok d" "\<forall>(b, x, found) \<in> set (dkSent d). map fst found = slIds x"
  shows "desk_ok (foldl (desk_step shortest date) d es) \<and>
    (\<forall>(b, x, found) \<in> set (dkSent (foldl (desk_step shortest date) d es)). map fst found = slIds x)"
proof (rule foldl_invariant [where P = "\<lambda>d. desk_ok d \<and> (\<forall>(b, x, found) \<in> set (dkSent d). map fst found = slIds x)"])
  fix d :: desk and e assume d: "desk_ok d \<and> (\<forall>(b, x, found) \<in> set (dkSent d). map fst found = slIds x)"
  then have "desk_ok d" by simp
  then show "desk_ok (desk_step shortest date d e) \<and> (\<forall>(b, x, found) \<in> set (dkSent (desk_step shortest date d e)). map fst found = slIds x)"
    by (cases rule: desk_step_cases [of d shortest date e]) (use d in auto)
qed (use assms in simp)

text \<open>What is handed out while a withdrawal is in force.\<close>

lemma desk_run_sent:
  assumes "knowledge_life date n m X A (dkKnowledge d)" "desk_ok d" "date [] = None"
    and "Withdrawn (Str k) \<in> A \<or> Ungranted k b \<in> A"
    and "list_all (knowledge_host date) (ledger_events es)" "list_all (leaves_grants X) (ledger_events es)"
    and "n + sum_list (map adds_record (ledger_events es)) \<le> max_records"
    and "m + sum_list (map adds_grant (ledger_events es)) \<le> max_grants"
  shows "\<exists>new. dkSent (foldl (desk_step shortest date) d es) = dkSent d @ new \<and>
    (\<forall>(a, x, found) \<in> set new. k \<in> set (slIds x) \<longrightarrow> Withdrawn (Str k) \<notin> A \<and> a \<noteq> b)"
  using assms
proof (induction es arbitrary: d n m)
  case (Cons e es)
  let ?d = "desk_step shortest date d e"
  have du: "known.durable date n m X A (knLedger (dkKnowledge d))" using Cons.prems(1) by (simp add: knowledge_life_def)
  have "\<exists>n' m'. knowledge_life date n' m' X A (dkKnowledge ?d) \<and>
      n' + sum_list (map adds_record (ledger_events es)) \<le> max_records \<and> m' + sum_list (map adds_grant (ledger_events es)) \<le> max_grants"
  proof (cases e)
    case (LedgerEvent e')
    have "knowledge_life date (n + adds_record e') (m + adds_grant e') X A (knowledge_step shortest date (dkKnowledge d) e')"
      using Cons.prems LedgerEvent by (intro knowledge_step_ok) auto
    with LedgerEvent Cons.prems(7,8) show ?thesis
      by (intro exI [of _ "n + adds_record e'"] exI [of _ "m + adds_grant e'"]) (simp add: add.assoc)
  next
    case (Retrieve j x)
    with Cons.prems show ?thesis by (intro exI [of _ n] exI [of _ m]) (simp add: desk_step_ledger del: desk_step.simps)
  next
    case (Answered j reg a)
    with Cons.prems show ?thesis by (intro exI [of _ n] exI [of _ m]) (simp add: desk_step_ledger del: desk_step.simps)
  qed
  then obtain n' m' where l: "knowledge_life date n' m' X A (dkKnowledge ?d)"
    "n' + sum_list (map adds_record (ledger_events es)) \<le> max_records" "m' + sum_list (map adds_grant (ledger_events es)) \<le> max_grants"
    by blast
  have h: "list_all (knowledge_host date) (ledger_events es)" "list_all (leaves_grants X) (ledger_events es)"
    using Cons.prems(5,6) by (cases e; simp)+
  from Cons.prems(2) show ?case
  proof (cases rule: desk_step_cases [of d shortest date e])
    case 1
    from Cons.IH [OF l(1) 1(1) Cons.prems(3,4) h l(2,3)] 1(2) show ?thesis by simp
  next
    case (2 a x found)
    obtain new where new: "dkSent (foldl (desk_step shortest date) ?d es) = dkSent ?d @ new"
      "\<forall>(a, x, found) \<in> set new. k \<in> set (slIds x) \<longrightarrow> Withdrawn (Str k) \<notin> A \<and> a \<noteq> b"
      using Cons.IH [OF l(1) 2(1) Cons.prems(3,4) h l(2,3)] by blast
    have "Withdrawn (Str k) \<notin> A \<and> a \<noteq> b" if "k \<in> set (slIds x)"
    proof -
      have g: "granted k a (knLedger (dkKnowledge d)) = Inr True" using 2(4) that by blast
      have "Withdrawn (Str k) \<notin> A"
        using withdrawn_record [OF du _ Cons.prems(3), of k] g by (auto simp: granted_def split: sum.splits option.splits)
      moreover have "a \<noteq> b"
        using ungranted_false [OF du _ Cons.prems(3), of k a] Cons.prems(4) calculation g by auto
      ultimately show ?thesis by blast
    qed
    with new 2(2) show ?thesis by simp
  qed
qed simp


section \<open>A sample\<close>

definition sample_registry :: registry where
  "sample_registry = \<lparr>rgBot = Some, rgAgent = (\<lambda>b. b), rgMember = (\<lambda>t b. True), rgConversation = (\<lambda>s. Some ([97], Str [112]))\<rparr>"

definition sample_selection :: share_selection where
  "sample_selection = \<lparr>slOrigin = [97], slSession = [115], slProject = Str [112], slTarget = [98], slIds = [sample_uuid]\<rparr>"

definition sample_desk_events :: "desk_event list" where
  "sample_desk_events = [Retrieve 1 sample_selection, LedgerEvent (LoseKnowledge False Missing), Answered 1 sample_registry (ScopeIs (Some (Str [112])))]"


text \<open>A promotion of one message of a run in a project.\<close>

definition sample_promotion :: promotion where
  "sample_promotion = \<lparr>pmBot = [97], pmSession = [115], pmRun = [114], pmMessage = [109], pmProject = Some [112], pmTeam = None,
     pmTitle = Str [116], pmConsent = True\<rparr>"

definition sample_world :: promotion_world where
  "sample_world = \<lparr>pwRegistry = sample_registry, pwScope = (\<lambda>_. (sample_registry, Some (Str [112]))), pwOwner = Some ([115], Str [112]),
     pwRunOwned = True, pwRun = Some [115], pwUrl = True,
     pwResponse = Some (True, [], Some (Obj [(''throughRunId'', Str [114]), (''messages'',
       Arr [Obj [(''id'', Str [109]), (''role'', Str (js ''user'')), (''text'', Str [104])]])])),
     pwDocument = Some sample_uuid, pwContent = Some [104], pwId = sample_uuid, pwNow = [48]\<rparr>"


end
