(* ===== verification/Spec2Isabelle.thy ===== *)
theory Spec2Isabelle
  imports RunControl ApprovalFacts AdmissionFacts IngressRecovery IngressWorkerFacts IdempotencyFacts LayoutGeometry FuzzyPatchEdits
    ExecutionLeaseFacts ConsultationBrokerSafety AcpSessions AutomationPromises ConversationOwnersPromises
    KnowledgeDelivery
begin

text \<open>
  Verification library of Doolittle, a desktop agent with a messaging gateway. It covers the
  parts of the program that decide what runs, what is remembered and what a restart finds.

  \<^bold>\<open>The parts and how they interact.\<close> A message reaches the agent from the desktop or, through the gateway,
  from a chat platform. The gateway first writes it to a durable inbox (\<open>IngressSpool\<close>); a worker
  (\<open>IngressWorker\<close>) takes one message at a time to the provider, and a coordinator (\<open>Idempotency\<close>)
  executes a message once however often it is delivered. An execution is a run of the run controller
  (\<open>RunTypes\<close>, \<open>RunTransitions\<close>, \<open>RunStore\<close>, \<open>RunService\<close>, \<open>RunControl\<close>), which keeps its snapshot, its receipt and its
  event journal. Actions that need consent go through the execution approvals (\<open>Approvals\<close>). On the desktop,
  executions of several bots share the machine through the execution admission (\<open>Admission\<close>): the engine
  claims and releases leases (\<open>ExecutionLease\<close>) by calls to the desktop host (\<open>WorkerHost\<close>, \<open>WorkerHostRpc\<close>). The
  renderer shows sessions in a workspace of split panes (\<open>Layout\<close>). One bot consults another through a broker
  (\<open>ConsultationBroker\<close>) that reserves every dispatch in a ledger (\<open>ConsultationLedger\<close>) before it submits it; that
  ledger, the one of ACP session owners (\<open>AcpSessions\<close>) and the one of scheduled automations (\<open>AutomationLedger\<close>, which moves old
  rows to a history in a database) are kept in two files (\<open>LedgerCopies\<close>). Which bot owns a conversation, a run, a project or a
  resource is recorded in a ledger of two files without a revision (\<open>ConversationOwners\<close>). Messages that were promoted to shared
  knowledge have a ledger too (\<open>KnowledgeLedger\<close>), and a broker hands their texts to consultations (\<open>KnowledgeBroker\<close>). The agent edits files through a
  fuzzy patch engine (\<open>FuzzyMatch\<close>, \<open>FuzzyPatch\<close>).

  \<^bold>\<open>Theories and sources.\<close> \<open>Prelude\<close>: insertion-ordered maps for the \<open>Map\<close> of JavaScript, list lemmas, the named
  collections. \<open>Interfaces\<close>: the locales (step machines with invariants, final states and monitored relations,
  keyed and indexed stores), interpreted in the theories of their providers. \<open>JsValue\<close>: values of type
  \<open>unknown\<close>, strings as UTF-16 units. Then, under \<open>src/\<close>:
  \<^item> \<open>RunTypes\<close>: \<open>packages/contracts/src/run.ts\<close> (statuses, snapshots, receipts, the guard of stored receipts).
  \<^item> \<open>RunTransitions\<close>: \<open>packages/agent/src/services/run-controller/transitions.ts\<close>; a run is a fold of its
    transitions, and refines the abstract lifecycle stated there.
  \<^item> \<open>RunStore\<close>, \<open>RunStoreFacts\<close>, \<open>RunRestart\<close>: \<open>run-controller/store.ts\<close>; active runs, receipts, journals, the room
    index, write-behind persistence and recovery at start-up.
  \<^item> \<open>RunService\<close>, \<open>RunServiceFacts\<close>, \<open>RunControl\<close>: \<open>services/run-controller-service/\<close>; turns, queued acceptance, task
    claims, abort controllers, workspace leases, cancellation.
  \<^item> \<open>Approvals\<close>, \<open>ApprovalFacts\<close>: \<open>services/execution-approval/\<close>.
  \<^item> \<open>Admission\<close>, \<open>AdmissionFacts\<close>: \<open>apps/desktop/src/main/execution-admission.ts\<close>.
  \<^item> \<open>WorkerHost\<close>: \<open>packages/contracts/src/worker-host.ts\<close>, the messages between engine and host.
  \<^item> \<open>WorkerHostRpc\<close>, \<open>WorkerHostFacts\<close>, \<open>WorkerHostLink\<close>: \<open>apps/desktop/src/main/worker-host-rpc.ts\<close> (the host) and
    \<open>packages/agent/src/runtime/bootstrap/worker-host-rpc.ts\<close> (the worker), and both over two unreliable channels.
  \<^item> \<open>ExecutionLease\<close>, \<open>ExecutionLeaseFacts\<close>: \<open>packages/agent/src/runtime/execution-admission.ts\<close> and
    \<open>apps/desktop/src/main/execution-receipt.ts\<close>, composed with the admission and with the calls.
  \<^item> \<open>JsonText\<close>: \<open>JSON.stringify\<close>, spread, string coercion and path resolution on \<open>JsValue\<close>. \<open>LedgerCopies\<close>: the protocol of two
    files with a revision that the ledgers of \<open>apps/desktop/src/main\<close> share, and the locale \<open>copied_ledger\<close> with its
    contract: what was acknowledged is held by memory and by every readable file.
  \<^item> \<open>ConsultationLedger\<close>, \<open>ConsultationLedgerFacts\<close>, \<open>ConsultationRecovery\<close>: \<open>apps/desktop/src/main/bot-consultation-ledger.ts\<close>.
  \<^item> \<open>ConsultationBroker\<close>, \<open>ConsultationBrokerFacts\<close>, \<open>ConsultationBrokerSafety\<close>: \<open>bot-consultation-broker.ts\<close> beside it, composed with
    the ledger.
  \<^item> \<open>AcpSessions\<close>: \<open>apps/desktop/src/main/bot-acp-session-ledger.ts\<close>.
  \<^item> \<open>AutomationLedger\<close>, \<open>AutomationFacts\<close>, \<open>AutomationHistory\<close>, \<open>AutomationSafety\<close>, \<open>AutomationPromises\<close>:
    \<open>bot-automation-ledger.ts\<close> and \<open>bot-automation-history.ts\<close> in the same directory; the model, the facts the hot files and the history
    hold together, the lookups and the retirement, the operations, the promises over whole lives.
  \<^item> \<open>ConversationOwners\<close>, \<open>ConversationOwnersFacts\<close>, \<open>ConversationOwnersSafety\<close>, \<open>ConversationOwnersLives\<close>,
    \<open>ConversationOwnersPromises\<close>: \<open>bot-conversation-ledger.ts\<close> in that directory; the model, the merge of two tables as a locale, one
    row and one save, restarts, the promises over whole lives.
  \<^item> \<open>KnowledgeLedger\<close>, \<open>KnowledgeFacts\<close>, \<open>KnowledgeSafety\<close>, \<open>KnowledgePromises\<close>: \<open>bot-knowledge-ledger.ts\<close>; the model with the
    migration of the first version, what the value keeps, the operations, whole lives. \<open>KnowledgeBroker\<close>, \<open>KnowledgeDelivery\<close>:
    \<open>bot-knowledge-broker.ts\<close> over that ledger.
  \<^item> \<open>IngressSpool\<close>, \<open>IngressFacts\<close>, \<open>IngressRecovery\<close>: \<open>gateway/receive/ingress-spool.ts\<close> and the durable append of
    \<open>gateway/recording/journal.ts\<close>.
  \<^item> \<open>IngressWorker\<close>, \<open>IngressWorkerFacts\<close>: \<open>gateway/receive/ingress-worker.ts\<close>.
  \<^item> \<open>Idempotency\<close>, \<open>IdempotencyFacts\<close>: \<open>gateway/receive/idempotency.ts\<close> and the inbox log of \<open>gateway/runner/recording.ts\<close>.
  \<^item> \<open>FuzzyMatch\<close>, \<open>FuzzyPatch\<close>, \<open>FuzzyPatchFacts\<close>, \<open>FuzzyPatchEdits\<close>: \<open>packages/agent/src/services/fuzzy-patch/\<close>; the
    regular expressions of the parser are lists of items with a matcher that backtracks as the engine does.
  \<^item> \<open>Layout\<close>, \<open>LayoutFacts\<close>, \<open>LayoutGeometry\<close>: \<open>apps/desktop/src/renderer/session-workspace/workspace-layout.ts\<close>.

  \<^bold>\<open>Conventions.\<close> A class is a record of its fields and each method a function on it. A method that can throw
  returns a sum, \<open>Inl\<close> for the error, together with the state it leaves behind. A method with an \<open>await\<close> is cut
  there: what runs between two suspensions is one step, and a run is any sequence of steps, so the
  interleavings of concurrent callers are the orders of steps. \<open>Date.now\<close> and fresh identifiers are readings of a
  supply that is an argument. Records that only name ghosts (the executions started, the tickets settled) say
  so where they are declared.

  \<^bold>\<open>What the theorems show.\<close> Runs: a terminal receipt is immutable as long as identifiers are not reused,
  cancellation settles a run, claims are exclusive, a snapshot refines its lifecycle, a restart leaves no run
  active and every receipt ended, journals and receipts stay bounded. Approvals: consumed at most once without
  the native service. Admission: limits and mutation roots are respected, no admissible claim waits, every
  ticket is answered once. Calls to the host: a computed result is acknowledged or rolled back, never both and
  never lost, what is acknowledged was received, and a claim the worker gave up holds no lease; a lease
  gives back what it was granted unless it is released during a yield. Inbox: the journal read back gives the spool that wrote it, an accepted message is
  remembered, finished payloads are gone, attempts count executions across crashes, an execution a crash cut
  off is not repeated. Coordinator: a retained outcome is never executed again, acknowledgements are bounded. Layout: every operation keeps the tree and the tabs in step, a saved
  layout is restored, panels tile the workspace, sizes suffice. Patches: the edit distance is the Levenshtein
  distance, both formats are read back as printed. Consultations: a dispatch is submitted at most once and at most three times per
  root run, not after it was cancelled and not past the stop of its bot, with permissions that only shrink; what the ledger
  acknowledged or settled stays so across failed writes, restarts and the loss of one file, and a restart
  finds the value before or after an interrupted write. Session owners never change, nor do the owners of conversations,
  and the ledger of owners starts unless a change of mode failed. Knowledge: what was withdrawn is handed out to no consultation, a
  promotion passes the guard of the ledger, and a migration keeps the original. Automations: the key of an accepted fire is never accepted
  again and an ended fire keeps its status, also after the fire moved to the history, and a lost history is noticed. Other theorems state where the code
  does not do what it means to; they are the findings of the manifest.

  \<^bold>\<open>Bounds and fuel.\<close> \<open>drain_loop\<close> gets as many passes as claims wait, and each pass serves one. \<open>parse_node\<close> gets the
  depth bound of the code. The matcher of regular expressions recurses on the items and the text, and every match
  of a block consumes text, so matching all of them terminates. Trimming, the write loop of the journal and \<open>arranged_tree\<close> terminate by a measure. The
  worker's drain loop is a partial function whose value \<open>None\<close> is a loop that never ends; it is proved not to
  occur.

  \<^bold>\<open>Not modelled.\<close> Subscribers of the event buses, formatting of user-visible texts, and the file system beyond
  what a write or a rename leaves behind. Third-party code (the elizaOS runtime, model providers, Electron,
  the hash function, \<open>JSON\<close> text) is a parameter where a definition needs it. Doubles in the layout and in
  the patch options are exact rationals. The remaining subsystems (chat turns, HTTP routes, platform adapters, trajectory and
  session stores, terminals, the React components) are listed in the manifest with the reason for each.
\<close>

end
